(* ===== verification/Prelude.thy ===== *)
theory Prelude
  imports Main "HOL-Library.Word" "HOL-Library.AList" "HOL-Library.Multiset"
    "HOL-Library.List_Lexorder" "HOL-Library.Char_ord"
begin

section \<open>Shared vocabulary of the model\<close>

text \<open>
  What every component of the Towns SDK model shares: the types of the JavaScript values the
  code handles, JavaScript's insertion-ordered \<open>Map\<close> and \<open>Set\<close>, its truthiness rules, and the
  results of operations that mutate an object, emit events and may throw.

  \<^item> A \<open>Uint8Array\<close> is a list of 8-bit words; a JavaScript string is a \<^typ>\<open>string\<close>, read as its
    UTF-8 bytes; a \<open>bigint\<close> is an \<^typ>\<open>int\<close>.
  \<^item> A \<open>Map\<close> (or a plain object used as a dictionary) is an association list: \<open>set\<close> is
    \<^const>\<open>AList.update\<close>, which overwrites in place and otherwise appends, as JavaScript does;
    \<open>delete\<close> is \<^const>\<open>AList.delete\<close>; \<open>get\<close> is \<^const>\<open>map_of\<close>.
  \<^item> An operation returns the new object, the events it emitted in order, and the exception it
    ended with, if any. The object is returned in both cases: what was mutated before a
    \<open>throw\<close> stays mutated.
\<close>

named_theorems model_defs \<open>definitions of the model that proofs unfold\<close>
named_theorems inv_intros \<open>an operation keeps the invariant of its component\<close>

type_synonym byte = "8 word"
type_synonym bytes = "byte list"
type_synonym ('k, 'v) jsmap = "('k \<times> 'v) list"
type_synonym 'a jsset = "'a list"

subsection \<open>Maps\<close>

abbreviation map_get :: "('k, 'v) jsmap \<Rightarrow> 'k \<Rightarrow> 'v option" where
  "map_get m k \<equiv> map_of m k"

abbreviation map_set :: "'k \<Rightarrow> 'v \<Rightarrow> ('k, 'v) jsmap \<Rightarrow> ('k, 'v) jsmap" where
  "map_set k v m \<equiv> AList.update k v m"

abbreviation map_delete :: "'k \<Rightarrow> ('k, 'v) jsmap \<Rightarrow> ('k, 'v) jsmap" where
  "map_delete k m \<equiv> AList.delete k m"

abbreviation map_has :: "('k, 'v) jsmap \<Rightarrow> 'k \<Rightarrow> bool" where
  "map_has m k \<equiv> map_of m k \<noteq> None"

lemma map_get_set [simp]: "map_get (map_set k v m) k' = (if k' = k then Some v else map_get m k')"
  by (simp add: update_conv')

lemma map_get_delete [simp]: "map_get (map_delete k m) k' = (if k' = k then None else map_get m k')"
  by (simp add: delete_conv')

lemma keys_set [simp]: "fst ` set (map_set k v m) = insert k (fst ` set m)"
  by (induction m) auto

lemma keys_delete [simp]: "fst ` set (map_delete k m) = fst ` set m - {k}"
  by (induction m) auto

lemma map_get_None_iff: "map_get m k = None \<longleftrightarrow> k \<notin> fst ` set m"
  by (simp add: map_of_eq_None_iff)

lemma map_has_iff: "map_has m k \<longleftrightarrow> k \<in> fst ` set m"
  by (metis map_get_None_iff)

lemma distinct_keys_set [simp, intro]:
  "distinct (map fst m) \<Longrightarrow> distinct (map fst (map_set k v m))"
  by (rule distinct_update)

lemma distinct_keys_delete [simp, intro]:
  "distinct (map fst m) \<Longrightarrow> distinct (map fst (map_delete k m))"
  by (rule distinct_delete)

text \<open>The default of \<open>m[k] ?? d\<close>.\<close>

definition map_get_or :: "('k, 'v) jsmap \<Rightarrow> 'k \<Rightarrow> 'v \<Rightarrow> 'v" where
  "map_get_or m k d = (case map_get m k of None \<Rightarrow> d | Some v \<Rightarrow> v)"

lemma map_get_or_set [simp]:
  "map_get_or (map_set k v m) k' d = (if k' = k then v else map_get_or m k' d)"
  by (simp add: map_get_or_def)

subsection \<open>Sets\<close>

definition set_add :: "'a \<Rightarrow> 'a jsset \<Rightarrow> 'a jsset" where
  "set_add x xs = (if x \<in> set xs then xs else xs @ [x])"

definition set_del :: "'a \<Rightarrow> 'a jsset \<Rightarrow> 'a jsset" where
  "set_del x xs = filter (\<lambda>y. y \<noteq> x) xs"

lemma set_set_add [simp]: "set (set_add x xs) = insert x (set xs)"
  by (auto simp: set_add_def)

lemma set_set_del [simp]: "set (set_del x xs) = set xs - {x}"
  by (auto simp: set_del_def)

lemma distinct_set_add [simp, intro]: "distinct xs \<Longrightarrow> distinct (set_add x xs)"
  by (simp add: set_add_def)

lemma distinct_set_del [simp, intro]: "distinct xs \<Longrightarrow> distinct (set_del x xs)"
  by (simp add: set_del_def)

text \<open>\<open>new Set([...xs, ...ys])\<close>: the elements in order of first occurrence.\<close>

definition set_union :: "'a jsset \<Rightarrow> 'a jsset \<Rightarrow> 'a jsset" where
  "set_union xs ys = fold set_add (xs @ ys) []"

lemma set_fold_set_add: "set (fold set_add xs acc) = set acc \<union> set xs"
  by (induction xs arbitrary: acc) auto

lemma distinct_fold_set_add: "distinct acc \<Longrightarrow> distinct (fold set_add xs acc)"
  by (induction xs arbitrary: acc) auto

lemma set_set_union [simp]: "set (set_union xs ys) = set xs \<union> set ys"
  by (simp add: set_union_def set_fold_set_add del: fold_append)

lemma distinct_set_union [simp]: "distinct (set_union xs ys)"
  by (simp add: set_union_def distinct_fold_set_add del: fold_append)

subsection \<open>Lists\<close>

text \<open>\<open>findIndex\<close>: the first index whose element satisfies the predicate.\<close>

fun find_index :: "('a \<Rightarrow> bool) \<Rightarrow> 'a list \<Rightarrow> nat option" where
  "find_index P [] = None"
| "find_index P (x # xs) = (if P x then Some 0 else map_option Suc (find_index P xs))"

lemma find_index_None_iff: "find_index P xs = None \<longleftrightarrow> (\<forall>x \<in> set xs. \<not> P x)"
  by (induction xs) auto

lemma find_index_SomeD:
  "find_index P xs = Some i \<Longrightarrow> i < length xs \<and> P (xs ! i) \<and> (\<forall>j < i. \<not> P (xs ! j))"
  by (induction xs arbitrary: i) (auto split: if_splits simp: nth_Cons less_Suc_eq_0_disj)

text \<open>\<open>splice(i, 1)\<close>: the list without its \<open>i\<close>-th element.\<close>

definition remove_at :: "nat \<Rightarrow> 'a list \<Rightarrow> 'a list" where
  "remove_at i xs = take i xs @ drop (Suc i) xs"

lemma set_remove_at_subset: "set (remove_at i xs) \<subseteq> set xs"
  unfolding remove_at_def using set_take_subset[of i xs] set_drop_subset[of "Suc i" xs] by auto

lemma mset_remove_at: "i < length xs \<Longrightarrow> mset (remove_at i xs) = mset xs - {#xs ! i#}"
proof -
  assume i: "i < length xs"
  have "mset xs = mset (take i xs @ xs ! i # drop (Suc i) xs)"
    using i by (simp only: id_take_nth_drop[symmetric])
  then show ?thesis by (simp add: remove_at_def)
qed

lemma length_remove_at: "i < length xs \<Longrightarrow> length (remove_at i xs) = length xs - 1"
  by (simp add: remove_at_def)

lemma distinct_map_list_update:
  assumes "distinct (map f xs)" "i < length xs" "f y = f (xs ! i)"
  shows "distinct (map f (xs[i := y]))"
proof -
  have "map f (xs[i := y]) = map f xs"
    by (rule nth_equalityI) (use assms in \<open>auto simp: nth_list_update\<close>)
  with assms(1) show ?thesis by simp
qed

subsection \<open>Exceptions\<close>

text \<open>
  The numeric error codes the modelled code throws with (\<open>Err\<close> of the protocol), and the three
  ways an exception arises: \<open>throwWithCode\<close> and \<open>check\<close>, \<open>throw new Error(...)\<close>, and an exception
  raised by a library. The message text is dropped.
\<close>

datatype err =
    ERR_UNSPECIFIED | UNIMPLEMENTED | BAD_PAYLOAD | BAD_HASH_FORMAT | BAD_EVENT | BAD_EVENT_ID
  | BAD_EVENT_SIGNATURE | BAD_PUBLIC_KEY | BAD_DELEGATE_SIG | STREAM_BAD_EVENT | STREAM_EMPTY
  | INTERNAL_ERROR_SWITCH

datatype exn = CodeException err | JsError | LibError

subsection \<open>Results of mutating operations\<close>

type_synonym ('s, 'o) res = "'s \<times> 'o list \<times> exn option"

abbreviation st_of :: "('s, 'o) res \<Rightarrow> 's" where "st_of r \<equiv> fst r"
abbreviation outs_of :: "('s, 'o) res \<Rightarrow> 'o list" where "outs_of r \<equiv> fst (snd r)"
abbreviation exn_of :: "('s, 'o) res \<Rightarrow> exn option" where "exn_of r \<equiv> snd (snd r)"

definition ok :: "'s \<Rightarrow> 'o list \<Rightarrow> ('s, 'o) res" where
  "ok s os = (s, os, None)"

definition throw :: "exn \<Rightarrow> 's \<Rightarrow> ('s, 'o) res" where
  "throw e s = (s, [], Some e)"

fun and_then :: "('s, 'o) res \<Rightarrow> ('s \<Rightarrow> ('s, 'o) res) \<Rightarrow> ('s, 'o) res" where
  "and_then (s, os, None) f = (case f s of (s', os', e) \<Rightarrow> (s', os @ os', e))"
| "and_then (s, os, Some e) f = (s, os, Some e)"

fun map_res :: "('s \<Rightarrow> 't) \<Rightarrow> ('s, 'o) res \<Rightarrow> ('t, 'o) res" where
  "map_res f (s, os, e) = (f s, os, e)"

text \<open>\<open>for (const x of xs) f(x)\<close>: the loop ends at the first exception.\<close>

fun for_each :: "('x \<Rightarrow> 's \<Rightarrow> ('s, 'o) res) \<Rightarrow> 'x list \<Rightarrow> 's \<Rightarrow> ('s, 'o) res" where
  "for_each f [] s = ok s []"
| "for_each f (x # xs) s = and_then (f x s) (for_each f xs)"

text \<open>An operation of a part of an object, as an operation of the object.\<close>

definition zoom ::
  "('s \<Rightarrow> 't) \<Rightarrow> ('t \<Rightarrow> 's \<Rightarrow> 's) \<Rightarrow> ('t \<Rightarrow> ('t, 'o) res) \<Rightarrow> 's \<Rightarrow> ('s, 'o) res" where
  "zoom get put f s = map_res (\<lambda>t. put t s) (f (get s))"

text \<open>\<open>emitter?.emit(e)\<close>: nothing happens when there is no emitter.\<close>

definition emit :: "bool \<Rightarrow> 'o \<Rightarrow> 'o list" where
  "emit defined e = (if defined then [e] else [])"

lemma st_of_ok [simp]: "st_of (ok s os) = s" and outs_of_ok [simp]: "outs_of (ok s os) = os"
  and exn_of_ok [simp]: "exn_of (ok s os) = None"
  by (simp_all add: ok_def)

lemma st_of_throw [simp]: "st_of (throw e s) = s" and outs_of_throw [simp]: "outs_of (throw e s) = []"
  and exn_of_throw [simp]: "exn_of (throw e s) = Some e"
  by (simp_all add: throw_def)

lemma map_res_ok [simp]: "map_res f (ok s os) = ok (f s) os"
  and map_res_throw [simp]: "map_res f (throw e s) = throw e (f s)"
  by (simp_all add: ok_def throw_def)

lemma st_of_map_res [simp]: "st_of (map_res f r) = f (st_of r)"
  and outs_of_map_res [simp]: "outs_of (map_res f r) = outs_of r"
  and exn_of_map_res [simp]: "exn_of (map_res f r) = exn_of r"
  by (cases r; simp)+

lemma zoom_sels [simp]:
  "st_of (zoom get put f s) = put (st_of (f (get s))) s"
  "outs_of (zoom get put f s) = outs_of (f (get s))"
  "exn_of (zoom get put f s) = exn_of (f (get s))"
  by (simp_all add: zoom_def)

lemma and_then_ok [simp]:
  "and_then (ok s os) f = (st_of (f s), os @ outs_of (f s), exn_of (f s))"
  by (simp add: ok_def split: prod.split)

lemma and_then_throw [simp]: "and_then (throw e s) f = throw e s"
  by (simp add: throw_def)

lemma st_of_and_then:
  "st_of (and_then r f) = (if exn_of r = None then st_of (f (st_of r)) else st_of r)"
  by (cases "(r, f)" rule: and_then.cases) (auto split: prod.splits)

lemma outs_of_and_then:
  "outs_of (and_then r f) = outs_of r @ (if exn_of r = None then outs_of (f (st_of r)) else [])"
  by (cases "(r, f)" rule: and_then.cases) (auto split: prod.splits)

lemma exn_of_and_then:
  "exn_of (and_then r f) = (if exn_of r = None then exn_of (f (st_of r)) else exn_of r)"
  by (cases "(r, f)" rule: and_then.cases) (auto split: prod.splits)

lemmas and_then_sels = st_of_and_then outs_of_and_then exn_of_and_then

lemma emit_True [simp]: "emit True e = [e]" and emit_False [simp]: "emit False e = []"
  by (simp_all add: emit_def)

lemma set_emit [simp]: "set (emit b e) = (if b then {e} else {})"
  by (simp add: emit_def)

text \<open>An invariant that every part of a sequence keeps is kept by the sequence, whether or not
  it throws.\<close>

lemma and_then_inv [inv_intros]:
  assumes "I (st_of r)" "\<And>s. I s \<Longrightarrow> I (st_of (f s))"
  shows "I (st_of (and_then r f))"
  using assms by (simp add: st_of_and_then)

lemma for_each_inv [inv_intros]:
  assumes "\<And>x s. x \<in> set xs \<Longrightarrow> I s \<Longrightarrow> I (st_of (f x s))" "I s"
  shows "I (st_of (for_each f xs s))"
  using assms by (induction xs arbitrary: s) (auto simp: st_of_and_then)

lemma for_each_append:
  "for_each f (xs @ ys) s = and_then (for_each f xs s) (for_each f ys)"
proof (induction xs arbitrary: s)
  case Nil
  then show ?case by simp
next
  case (Cons x xs)
  obtain s1 o1 e1 where f: "f x s = (s1, o1, e1)" by (cases "f x s")
  obtain s2 o2 e2 where g: "for_each f xs s1 = (s2, o2, e2)" by (cases "for_each f xs s1")
  show ?case
    by (cases e1; cases e2) (auto simp: f g Cons.IH split: prod.splits)
qed

subsection \<open>Results of pure operations\<close>

text \<open>An operation without state returns an exception or a value.\<close>

definition bindE :: "exn + 'a \<Rightarrow> ('a \<Rightarrow> exn + 'b) \<Rightarrow> exn + 'b" where
  "bindE m f = (case m of Inl e \<Rightarrow> Inl e | Inr x \<Rightarrow> f x)"

definition guardE :: "bool \<Rightarrow> exn \<Rightarrow> exn + unit" where
  "guardE b e = (if b then Inr () else Inl e)"

definition of_option :: "exn \<Rightarrow> 'a option \<Rightarrow> exn + 'a" where
  "of_option e x = (case x of None \<Rightarrow> Inl e | Some y \<Rightarrow> Inr y)"

fun mapE :: "('a \<Rightarrow> exn + 'b) \<Rightarrow> 'a list \<Rightarrow> exn + 'b list" where
  "mapE f [] = Inr []"
| "mapE f (x # xs) = bindE (f x) (\<lambda>y. bindE (mapE f xs) (\<lambda>ys. Inr (y # ys)))"

text \<open>A loop that updates a state and ends at the first exception.\<close>

fun foldE :: "('x \<Rightarrow> 's \<Rightarrow> exn + 's) \<Rightarrow> 'x list \<Rightarrow> 's \<Rightarrow> exn + 's" where
  "foldE f [] s = Inr s"
| "foldE f (x # xs) s = bindE (f x s) (foldE f xs)"

lemma bindE_simps [simp]: "bindE (Inl e) f = Inl e" "bindE (Inr x) f = f x"
  by (simp_all add: bindE_def)

lemma bindE_Inr_iff: "bindE m f = Inr y \<longleftrightarrow> (\<exists>x. m = Inr x \<and> f x = Inr y)"
  by (cases m) auto

lemma guardE_simps [simp]: "guardE True e = Inr ()" "guardE False e = Inl e"
  by (simp_all add: guardE_def)

lemma guardE_Inr_iff [simp]: "guardE b e = Inr u \<longleftrightarrow> b"
  by (cases b) auto

lemma of_option_simps [simp]: "of_option e None = Inl e" "of_option e (Some x) = Inr x"
  by (simp_all add: of_option_def)

lemma of_option_Inr_iff [simp]: "of_option e m = Inr x \<longleftrightarrow> m = Some x"
  by (cases m) auto

lemma foldE_append: "foldE f (xs @ ys) s = bindE (foldE f xs s) (foldE f ys)"
  by (induction xs arbitrary: s) (auto simp: bindE_def split: sum.splits)

lemma foldE_inv:
  assumes "foldE f xs s = Inr s'" "I s" "\<And>x s s'. x \<in> set xs \<Longrightarrow> I s \<Longrightarrow> f x s = Inr s' \<Longrightarrow> I s'"
  shows "I s'"
  using assms by (induction xs arbitrary: s) (auto simp: bindE_Inr_iff)

lemma foldE_total:
  assumes "\<And>x s. x \<in> set xs \<Longrightarrow> I s \<Longrightarrow> \<exists>s'. f x s = Inr s' \<and> I s'" "I s"
  shows "\<exists>s'. foldE f xs s = Inr s' \<and> I s'"
  using assms
proof (induction xs arbitrary: s)
  case (Cons x xs)
  obtain s1 where "f x s = Inr s1" "I s1" using Cons.prems by (meson list.set_intros(1))
  then show ?case using Cons.IH[of s1] Cons.prems(1) by auto
qed simp

lemma bindE_assoc: "bindE (bindE r f) g = bindE r (\<lambda>x. bindE (f x) g)"
  by (cases r) simp_all

lemma mapE_append: "mapE f (xs @ ys) = bindE (mapE f xs) (\<lambda>us. bindE (mapE f ys) (\<lambda>vs. Inr (us @ vs)))"
proof (induction xs)
  case Nil
  then show ?case by (cases "mapE f ys") simp_all
next
  case (Cons x xs)
  then show ?case by (cases "f x"; cases "mapE f xs"; cases "mapE f ys") simp_all
qed

lemma mapE_Inr_iff:
  "mapE f xs = Inr ys \<longleftrightarrow> length ys = length xs \<and> (\<forall>i < length xs. f (xs ! i) = Inr (ys ! i))"
proof (induction xs arbitrary: ys)
  case Nil
  then show ?case by auto
next
  case (Cons x xs)
  show ?case
    by (cases ys) (auto simp: bindE_Inr_iff Cons.IH less_Suc_eq_0_disj)
qed

subsection \<open>Components\<close>

text \<open>
  A component of the SDK: its operations, as one step function over the values that describe a
  call, and the invariant the class keeps. The client of a component calls it any number of
  times, through loops that stop at an exception or through handlers that log the exception and
  go on; both keep the invariant.
\<close>

locale component =
  fixes inv :: "'s \<Rightarrow> bool"
    and step :: "'x \<Rightarrow> 's \<Rightarrow> ('s, 'o) res"
  assumes step_inv: "inv s \<Longrightarrow> inv (st_of (step x s))"
begin

lemma loop_inv: "inv s \<Longrightarrow> inv (st_of (for_each step xs s))"
  by (rule for_each_inv) (auto intro: step_inv)

lemma run_inv: "inv s \<Longrightarrow> inv (fold (\<lambda>x s. st_of (step x s)) xs s)"
  by (induction xs arbitrary: s) (auto intro: step_inv)

end

subsection \<open>JavaScript truthiness\<close>

text \<open>An optional string is truthy when it is present and not empty.\<close>

definition truthy_str :: "string option \<Rightarrow> string option" where
  "truthy_str o1 = (case o1 of Some (c # cs) \<Rightarrow> Some (c # cs) | _ \<Rightarrow> None)"

lemma truthy_str_simps [simp]:
  "truthy_str None = None" "truthy_str (Some []) = None"
  "s \<noteq> [] \<Longrightarrow> truthy_str (Some s) = Some s"
  by (auto simp: truthy_str_def split: list.split)

lemma truthy_str_Some_iff: "truthy_str o1 = Some s \<longleftrightarrow> o1 = Some s \<and> s \<noteq> []"
  by (auto simp: truthy_str_def split: option.splits list.splits)

end
