(* ===== verification/Utils.thy ===== *)
theory Utils
  imports Prelude
begin

section \<open>Byte strings, checks and list helpers\<close>

text \<open>
  \<open>packages/dlog/src/binary.ts\<close>, \<open>packages/dlog/src/check.ts\<close>, \<open>packages/sdk/src/check.ts\<close> and
  the pure helpers of \<open>packages/sdk/src/utils.ts\<close>. The hex codec, the hash functions and the
  address functions come from third-party packages (\<open>ethereum-cryptography\<close>, \<open>ethers\<close>); they are
  the fields of \<open>externs\<close>, an argument of every definition that calls them, and a library call
  that may throw returns an option.
\<close>

record externs =
  x_bytesToHex :: "bytes \<Rightarrow> string"
  x_hexToBytes :: "string \<Rightarrow> bytes option"
  x_equalsBytes :: "bytes \<Rightarrow> bytes \<Rightarrow> bool"
  x_keccak256 :: "bytes \<Rightarrow> bytes"
  x_getAddress :: "string \<Rightarrow> string option"
  x_isAddress :: "string \<Rightarrow> bool"
  x_arrayify :: "string \<Rightarrow> bytes option"

text \<open>
  What the code relies on in these libraries. \<open>bytesToHex\<close> prints two lower-case hex digits per
  byte and \<open>hexToBytes\<close> reads them back. \<open>getAddress\<close> returns the checksummed form of an address,
  the same with and without the leading \<open>0x\<close>, which differs from the lower-case hex digits only in
  case, and \<open>arrayify\<close> reads the bytes of it. \<open>equalsBytes\<close> compares contents.
\<close>

definition is_lower_hex_char :: "char \<Rightarrow> bool" where
  "is_lower_hex_char c \<longleftrightarrow> c \<in> set ''0123456789abcdef''"

definition to_lower_char :: "char \<Rightarrow> char" where
  "to_lower_char c =
     (let n = (of_char c :: nat) in if 65 \<le> n \<and> n \<le> 90 then char_of (n + 32) else c)"

definition hex_codec :: "'a externs_scheme \<Rightarrow> bool" where
  "hex_codec E \<longleftrightarrow>
     (\<forall>bs. length (x_bytesToHex E bs) = 2 * length bs \<and>
           list_all is_lower_hex_char (x_bytesToHex E bs) \<and>
           x_hexToBytes E (x_bytesToHex E bs) = Some bs)"

definition address_codec :: "'a externs_scheme \<Rightarrow> bool" where
  "address_codec E \<longleftrightarrow>
     (\<forall>bs. length bs = 20 \<longrightarrow>
        (\<exists>u. x_getAddress E (x_bytesToHex E bs) = Some u \<and>
             x_getAddress E (''0x'' @ x_bytesToHex E bs) = Some u \<and>
             map to_lower_char u = ''0x'' @ x_bytesToHex E bs \<and>
             x_arrayify E u = Some bs))"

definition bytes_equality :: "'a externs_scheme \<Rightarrow> bool" where
  "bytes_equality E \<longleftrightarrow> (\<forall>a b. x_equalsBytes E a b = (a = b))"

text \<open>An instance of these functions that satisfies the laws: plain hex without the mixed-case
  checksum, and a hash that pads to 32 bytes.\<close>

definition hex_digit :: "nat \<Rightarrow> char" where
  "hex_digit n = ''0123456789abcdef'' ! (n mod 16)"

definition plain_bytesToHex :: "bytes \<Rightarrow> string" where
  "plain_bytesToHex bs = concat (map (\<lambda>b. [hex_digit (unat b div 16), hex_digit (unat b mod 16)]) bs)"

definition hex_value :: "char \<Rightarrow> nat option" where
  "hex_value c = map_of (zip ''0123456789abcdefABCDEF'' ([0..<16] @ [10..<16])) c"

fun plain_hexToBytes :: "string \<Rightarrow> bytes option" where
  "plain_hexToBytes [] = Some []"
| "plain_hexToBytes [c] = None"
| "plain_hexToBytes (c # d # s) =
     (case (hex_value c, hex_value d, plain_hexToBytes s) of
        (Some h, Some l, Some bs) \<Rightarrow> Some (of_nat (16 * h + l) # bs)
      | _ \<Rightarrow> None)"

definition plain_strip0x :: "string \<Rightarrow> string" where
  "plain_strip0x s = (if take 2 s = ''0x'' then drop 2 s else s)"

definition plain_externs :: externs where
  "plain_externs = \<lparr>x_bytesToHex = plain_bytesToHex,
     x_hexToBytes = (\<lambda>s. plain_hexToBytes (plain_strip0x s)),
     x_equalsBytes = (\<lambda>a b. a = b),
     x_keccak256 = (\<lambda>bs. take 32 (bs @ replicate 32 0)),
     x_getAddress = (\<lambda>s. case plain_hexToBytes (plain_strip0x s) of
        Some bs \<Rightarrow> if length bs = 20 then Some (''0x'' @ plain_bytesToHex bs) else None
      | None \<Rightarrow> None),
     x_isAddress = (\<lambda>s. case plain_hexToBytes (plain_strip0x s) of
        Some bs \<Rightarrow> length bs = 20 | None \<Rightarrow> False),
     x_arrayify = (\<lambda>s. plain_hexToBytes (plain_strip0x s))\<rparr>"

lemma plain_externs_sel [simp]:
  "x_bytesToHex plain_externs = plain_bytesToHex"
  "x_equalsBytes plain_externs = (\<lambda>a b. a = b)"
  "x_hexToBytes plain_externs = (\<lambda>s. plain_hexToBytes (plain_strip0x s))"
  by (simp_all add: plain_externs_def)

lemma hex_digit_props:
  assumes "n < 16"
  shows "hex_value (hex_digit n) = Some n" "is_lower_hex_char (hex_digit n)"
    "to_lower_char (hex_digit n) = hex_digit n"
proof -
  from assms have "n \<in> set [0..<16]" by simp
  then have "hex_value (hex_digit n) = Some n \<and> is_lower_hex_char (hex_digit n) \<and>
      to_lower_char (hex_digit n) = hex_digit n"
    by (simp add: upt_conv_Cons hex_value_def hex_digit_def is_lower_hex_char_def to_lower_char_def)
       (elim disjE; simp)
  then show "hex_value (hex_digit n) = Some n" "is_lower_hex_char (hex_digit n)"
    "to_lower_char (hex_digit n) = hex_digit n" by auto
qed

lemma unat_byte_less: "unat (b :: byte) < 256"
  by (rule order.strict_trans2[OF unsigned_less]) simp

lemma plain_hex_roundtrip [simp]: "plain_hexToBytes (plain_bytesToHex bs) = Some bs"
proof (induction bs)
  case Nil
  then show ?case by (simp add: plain_bytesToHex_def)
next
  case (Cons b bs)
  have "unat b div 16 < 16" "unat b mod 16 < 16" using unat_byte_less[of b] by auto
  moreover have "(of_nat (16 * (unat b div 16) + unat b mod 16) :: byte) = b"
    by (simp only: mult_div_mod_eq) simp
  ultimately show ?case
    using Cons.IH by (simp add: plain_bytesToHex_def hex_digit_props(1))
qed

lemma plain_hex_lower:
  "length (plain_bytesToHex bs) = 2 * length bs \<and> list_all is_lower_hex_char (plain_bytesToHex bs) \<and>
   map to_lower_char (plain_bytesToHex bs) = plain_bytesToHex bs \<and>
   plain_strip0x (plain_bytesToHex bs) = plain_bytesToHex bs"
proof (induction bs)
  case Nil
  then show ?case by (simp add: plain_bytesToHex_def plain_strip0x_def)
next
  case (Cons b bs)
  have n: "unat b div 16 < 16" "unat b mod 16 < 16" using unat_byte_less[of b] by auto
  have "hex_digit (unat b mod 16) \<noteq> CHR ''x''"
    using hex_digit_props(2)[OF n(2)] by (auto simp: is_lower_hex_char_def)
  with Cons n show ?case
    by (auto simp: plain_bytesToHex_def hex_digit_props plain_strip0x_def)
qed

lemma plain_externs_laws:
  "hex_codec plain_externs" "address_codec plain_externs" "bytes_equality plain_externs"
proof -
  have s: "plain_strip0x (CHR ''0'' # CHR ''x'' # s) = s" for s by (simp add: plain_strip0x_def)
  have l: "to_lower_char (CHR ''0'') = CHR ''0''" "to_lower_char (CHR ''x'') = CHR ''x''"
    by (simp_all add: to_lower_char_def)
  show "hex_codec plain_externs" "bytes_equality plain_externs"
    by (simp_all add: hex_codec_def bytes_equality_def plain_externs_def plain_hex_lower)
  show "address_codec plain_externs"
    by (simp add: address_codec_def plain_externs_def plain_hex_lower s l)
qed

subsection \<open>binary.ts\<close>

definition bin_fromHexString :: "'a externs_scheme \<Rightarrow> string \<Rightarrow> bytes option" where
  "bin_fromHexString E s = x_hexToBytes E s"

definition bin_toHexString :: "'a externs_scheme \<Rightarrow> bytes \<Rightarrow> string" where
  "bin_toHexString E bs = x_bytesToHex E bs"


definition bin_equal :: "'a externs_scheme \<Rightarrow> bytes option \<Rightarrow> bytes option \<Rightarrow> bool" where
  "bin_equal E a b =
     (if (a = None \<or> a = Some []) \<and> (b = None \<or> b = Some []) then True
      else case (a, b) of (Some x, Some y) \<Rightarrow> x_equalsBytes E x y | _ \<Rightarrow> False)"

text \<open>\<open>bin_fromString\<close> and \<open>bin_toString\<close>: strings are their UTF-8 bytes in the model.\<close>

definition bin_fromString :: "string \<Rightarrow> bytes" where
  "bin_fromString s = map of_char s"

definition bin_toString :: "bytes \<Rightarrow> string" where
  "bin_toString bs = map (\<lambda>b. char_of (unat b)) bs"

definition starts_with :: "string \<Rightarrow> string \<Rightarrow> bool" where
  "starts_with p s \<longleftrightarrow> take (length p) s = p"

definition shortenHexString :: "string \<Rightarrow> string" where
  "shortenHexString s =
     (if starts_with ''0x'' s
      then if length s > 12 then take 6 s @ ''..'' @ drop (length s - 4) s else s
      else if length s > 10 then take 4 s @ ''..'' @ drop (length s - 4) s else s)"

definition is_hex_char :: "char \<Rightarrow> bool" where
  "is_hex_char c \<longleftrightarrow> c \<in> set ''0123456789abcdefABCDEF''"

text \<open>The regular expression \<open>/^(0x)?[0-9a-fA-F]+$/\<close>: either alternative may match.\<close>

definition isHexString :: "string \<Rightarrow> bool" where
  "isHexString v =
     (if length v = 0 \<or> odd (length v) then False
      else (v \<noteq> [] \<and> list_all is_hex_char v) \<or>
           (starts_with ''0x'' v \<and> drop 2 v \<noteq> [] \<and> list_all is_hex_char (drop 2 v)))"

text \<open>\<open>abs.toString(16).length\<close>, then the loop that fills the buffer from its last byte.\<close>

fun hex_length :: "nat \<Rightarrow> nat" where
  "hex_length n = (if n < 16 then 1 else Suc (hex_length (n div 16)))"

fun fill_be :: "nat \<Rightarrow> nat \<Rightarrow> bytes \<Rightarrow> bytes" where
  "fill_be 0 temp buffer = buffer"
| "fill_be (Suc i) temp buffer = fill_be i (temp div 256) (buffer[i := of_nat (temp mod 256)])"

definition bigIntToBytes :: "int \<Rightarrow> bytes" where
  "bigIntToBytes value =
     (let a = nat \<bar>value\<bar>; byteLength = (hex_length a + 1) div 2
      in fill_be byteLength a (replicate byteLength 0))"

subsection \<open>JavaScript numbers as text\<close>

text \<open>\<open>BigInt(s)\<close>: surrounding white space is ignored, the empty string is zero, digits may follow
  a radix prefix, and only decimal digits may follow a sign; anything else throws.\<close>

definition is_space :: "char \<Rightarrow> bool" where
  "is_space c \<longleftrightarrow> (let n = (of_char c :: nat) in n = 32 \<or> (9 \<le> n \<and> n \<le> 13))"

definition digit_value :: "nat \<Rightarrow> char \<Rightarrow> nat option" where
  "digit_value base c =
     (case hex_value c of Some v \<Rightarrow> if v < base then Some v else None | None \<Rightarrow> None)"

fun digits_value :: "nat \<Rightarrow> nat \<Rightarrow> string \<Rightarrow> nat option" where
  "digits_value base acc [] = Some acc"
| "digits_value base acc (c # s) =
     (case digit_value base c of None \<Rightarrow> None | Some v \<Rightarrow> digits_value base (acc * base + v) s)"

definition nonempty_digits :: "nat \<Rightarrow> string \<Rightarrow> int option" where
  "nonempty_digits base s = (if s = [] then None else map_option int (digits_value base 0 s))"

definition js_trim :: "string \<Rightarrow> string" where
  "js_trim s = rev (dropWhile is_space (rev (dropWhile is_space s)))"

definition js_BigInt :: "string \<Rightarrow> int option" where
  "js_BigInt s0 =
     (let s = js_trim s0
      in if s = [] then Some 0
         else if take 2 s \<in> {''0x'', ''0X''} then nonempty_digits 16 (drop 2 s)
         else if take 2 s \<in> {''0o'', ''0O''} then nonempty_digits 8 (drop 2 s)
         else if take 2 s \<in> {''0b'', ''0B''} then nonempty_digits 2 (drop 2 s)
         else if hd s = CHR ''-'' then map_option uminus (nonempty_digits 10 (tl s))
         else if hd s = CHR ''+'' then nonempty_digits 10 (tl s)
         else nonempty_digits 10 s)"

text \<open>\<open>n.toString()\<close>.\<close>

fun nat_toString :: "nat \<Rightarrow> string" where
  "nat_toString n =
     (if n < 10 then [hex_digit n] else nat_toString (n div 10) @ [hex_digit (n mod 10)])"

definition int_toString :: "int \<Rightarrow> string" where
  "int_toString i = (if i < 0 then CHR ''-'' # nat_toString (nat (- i)) else nat_toString (nat i))"

declare nat_toString.simps [simp del]

subsection \<open>check.ts\<close>

text \<open>\<open>check(value, message, code)\<close>: the exception it raises, if any; the code defaults to
  \<open>ERR_UNSPECIFIED\<close>.\<close>

definition throwWithCode :: "err option \<Rightarrow> exn" where
  "throwWithCode code = CodeException (case code of None \<Rightarrow> ERR_UNSPECIFIED | Some c \<Rightarrow> c)"

definition check :: "bool \<Rightarrow> err option \<Rightarrow> exn option" where
  "check value code = (if value then None else Some (throwWithCode code))"

definition hasElements :: "'a list option \<Rightarrow> bool" where
  "hasElements v = (case v of None \<Rightarrow> False | Some xs \<Rightarrow> length xs > 0)"

subsection \<open>utils.ts\<close>

text \<open>Case mapping on ASCII letters.\<close>

definition toLowerCase :: "string \<Rightarrow> string" where
  "toLowerCase s = map to_lower_char s"

definition unsafeProp :: "string \<Rightarrow> bool" where
  "unsafeProp prop \<longleftrightarrow> prop = ''__proto__'' \<or> prop = ''prototype'' \<or> prop = ''constructor''"

definition safeSet :: "(string, 'v) jsmap \<Rightarrow> string \<Rightarrow> 'v \<Rightarrow> exn + (string, 'v) jsmap" where
  "safeSet obj prop value =
     (if unsafeProp prop then Inl JsError else Inr (map_set prop value obj))"

datatype string_or_bytes = Str string | Bytes bytes

definition isEthereumAddress :: "'a externs_scheme \<Rightarrow> string_or_bytes \<Rightarrow> bool" where
  "isEthereumAddress E address =
     (case address of Bytes bs \<Rightarrow> length bs = 20 | Str s \<Rightarrow> x_isAddress E s)"

definition ethereumAddressToBytes :: "'a externs_scheme \<Rightarrow> string \<Rightarrow> bytes option" where
  "ethereumAddressToBytes E address = bin_fromHexString E address"

definition ethereumAddressFromBytes :: "'a externs_scheme \<Rightarrow> bytes \<Rightarrow> string" where
  "ethereumAddressFromBytes E bs = bin_toHexString E bs"

definition ethereumAddressAsString :: "'a externs_scheme \<Rightarrow> string_or_bytes \<Rightarrow> string" where
  "ethereumAddressAsString E address =
     (case address of Str s \<Rightarrow> s | Bytes bs \<Rightarrow> ethereumAddressFromBytes E bs)"

definition ethereumAddressAsBytes :: "'a externs_scheme \<Rightarrow> string_or_bytes \<Rightarrow> bytes option" where
  "ethereumAddressAsBytes E address =
     (case address of Str s \<Rightarrow> ethereumAddressToBytes E s | Bytes bs \<Rightarrow> Some bs)"

definition stripUndefinedMetadata ::
  "(string, bytes option) jsmap \<Rightarrow> (string, bytes) jsmap option" where
  "stripUndefinedMetadata obj =
     (let result = fold (\<lambda>(key, val) r. case val of None \<Rightarrow> r | Some v \<Rightarrow> map_set key v r) obj []
      in if length result > 0 then Some result else None)"

definition hashString :: "'a externs_scheme \<Rightarrow> string \<Rightarrow> string" where
  "hashString E s = bin_toHexString E (x_keccak256 E (bin_fromString s))"

definition usernameChecksum :: "'a externs_scheme \<Rightarrow> string \<Rightarrow> string \<Rightarrow> string" where
  "usernameChecksum E username streamId = hashString E (toLowerCase username @ '':'' @ streamId)"

text \<open>The two-index loop of \<open>removeCommon\<close>, with its final \<open>slice\<close>.\<close>

function removeCommon_loop ::
  "string list \<Rightarrow> string list \<Rightarrow> nat \<Rightarrow> nat \<Rightarrow> string list \<Rightarrow> string list" where
  "removeCommon_loop x y i j result =
     (if i < length x \<and> j < length y
      then if x ! i < y ! j then removeCommon_loop x y (i + 1) j (result @ [x ! i])
           else if x ! i > y ! j then removeCommon_loop x y i (j + 1) result
           else removeCommon_loop x y (i + 1) (j + 1) result
      else if i < length x then result @ drop i x
      else result)"
  by pat_completeness auto
termination
  by (relation "measure (\<lambda>(x, y, i, j, _). (length x - i) + (length y - j))") auto

definition removeCommon :: "string list \<Rightarrow> string list \<Rightarrow> string list" where
  "removeCommon x y = removeCommon_loop x y 0 0 []"

declare removeCommon_loop.simps [simp del]
declare hex_length.simps [simp del]

lemma starts_with_prefix: "starts_with (p @ q) s \<Longrightarrow> starts_with p s"
proof -
  assume "starts_with (p @ q) s"
  then have "take (length p) (take (length (p @ q)) s) = p"
    unfolding starts_with_def by (metis append_eq_conv_conj)
  then show ?thesis by (simp add: starts_with_def)
qed

subsection \<open>Big-endian encoding\<close>

fun be_encode :: "nat \<Rightarrow> nat \<Rightarrow> bytes" where
  "be_encode 0 t = []"
| "be_encode (Suc n) t = be_encode n (t div 256) @ [of_nat (t mod 256)]"

definition be_value :: "bytes \<Rightarrow> nat" where
  "be_value bs = foldl (\<lambda>a b. a * 256 + unat b) 0 bs"

lemma length_be_encode [simp]: "length (be_encode n t) = n"
  by (induction n arbitrary: t) auto

lemma fill_be_eq: "n \<le> length buffer \<Longrightarrow> fill_be n t buffer = be_encode n t @ drop n buffer"
  by (induction n arbitrary: t buffer)
     (auto simp: Cons_nth_drop_Suc[symmetric] drop_update_swap)

lemma be_value_snoc [simp]: "be_value (bs @ [b]) = be_value bs * 256 + unat b"
  by (simp add: be_value_def)

lemma unat_of_mod_256 [simp]: "unat (of_nat (t mod 256) :: byte) = t mod 256"
  by (simp add: unat_of_nat)

lemma be_value_encode: "be_value (be_encode n t) = t mod 256 ^ n"
proof (induction n arbitrary: t)
  case 0
  then show ?case by (simp add: be_value_def)
next
  case (Suc n)
  have "be_value (be_encode (Suc n) t) = (t div 256) mod 256 ^ n * 256 + t mod 256"
    by (simp add: Suc.IH)
  also have "\<dots> = t mod (256 * 256 ^ n)"
    by (simp add: mod_mult2_eq)
  finally show ?case by simp
qed

lemma lt_hex_length: "n < 16 ^ hex_length n"
proof (induction n rule: hex_length.induct)
  case (1 n)
  show ?case
  proof (cases "n < 16")
    case True
    then show ?thesis by (simp add: hex_length.simps[of n])
  next
    case False
    then have "n div 16 < 16 ^ hex_length (n div 16)" by (rule "1.IH")
    then have "n < 16 * 16 ^ hex_length (n div 16)" by (simp add: div_less_iff_less_mult mult.commute)
    with False show ?thesis by (simp add: hex_length.simps[of n])
  qed
qed

lemma hex_length_le: "n > 0 \<Longrightarrow> 16 ^ (hex_length n - 1) \<le> n"
proof (induction n rule: hex_length.induct)
  case (1 n)
  show ?case
  proof (cases "n < 16")
    case True
    with "1.prems" show ?thesis by (simp add: hex_length.simps[of n])
  next
    case False
    then have "16 ^ (hex_length (n div 16) - 1) \<le> n div 16" by (intro "1.IH") auto
    then have "16 ^ (hex_length (n div 16) - 1) * 16 \<le> n"
      by (simp add: less_eq_div_iff_mult_less_eq)
    moreover have "hex_length (n div 16) > 0" by (subst hex_length.simps) simp
    ultimately show ?thesis using False
      by (simp add: hex_length.simps[of n] power_eq_if mult.commute split: if_splits)
  qed
qed

lemma hex_length_pos [simp]: "hex_length n > 0"
  by (subst hex_length.simps) simp

lemma bigIntToBytes_eq:
  "bigIntToBytes v = be_encode ((hex_length (nat \<bar>v\<bar>) + 1) div 2) (nat \<bar>v\<bar>)"
  by (simp add: bigIntToBytes_def Let_def fill_be_eq)

lemma be_encode_hd: "n > 0 \<Longrightarrow> hd (be_encode n t) = of_nat (t div 256 ^ (n - 1) mod 256)"
proof (induction n arbitrary: t)
  case 0
  then show ?case by simp
next
  case (Suc n)
  show ?case
  proof (cases n)
    case 0
    then show ?thesis by simp
  next
    case (Suc m)
    have "hd (be_encode (Suc n) t) = hd (be_encode n (t div 256))"
      using Suc by (simp add: hd_append)
    also have "\<dots> = of_nat (t div 256 div 256 ^ (n - 1) mod 256)"
      using Suc by (intro Suc.IH) simp
    also have "t div 256 div 256 ^ (n - 1) = t div 256 ^ (Suc n - 1)"
      using Suc by (simp add: div_mult2_eq[symmetric])
    finally show ?thesis .
  qed
qed

subsection \<open>Removing common elements of sorted lists\<close>

text \<open>The reference: the difference of two sorted lists, by structural recursion.\<close>

fun diff_sorted :: "string list \<Rightarrow> string list \<Rightarrow> string list" where
  "diff_sorted [] ys = []"
| "diff_sorted xs [] = xs"
| "diff_sorted (x # xs) (y # ys) =
     (if x < y then x # diff_sorted xs (y # ys)
      else if x > y then diff_sorted (x # xs) ys
      else diff_sorted xs ys)"

lemma diff_sorted_Nil2 [simp]: "diff_sorted xs [] = xs"
  by (cases xs) auto

lemma removeCommon_loop_eq:
  "removeCommon_loop x y i j result = result @ diff_sorted (drop i x) (drop j y)"
proof (induction x y i j result rule: removeCommon_loop.induct)
  case (1 x y i j result)
  show ?case
  proof (cases "i < length x \<and> j < length y")
    case True
    then have d: "drop i x = x ! i # drop (i + 1) x" "drop j y = y ! j # drop (j + 1) y"
      by (auto simp: Cons_nth_drop_Suc)
    consider "x ! i < y ! j" | "x ! i > y ! j" | "x ! i = y ! j"
      by (metis linorder_neqE)
    then show ?thesis
      by cases (use True 1 in \<open>auto simp: removeCommon_loop.simps[of x y i j] d\<close>)
  next
    case False
    then show ?thesis by (auto simp: removeCommon_loop.simps[of x y i j])
  qed
qed

lemma removeCommon_eq_diff_sorted: "removeCommon x y = diff_sorted x y"
  by (simp add: removeCommon_def removeCommon_loop_eq)

lemma set_diff_sorted_subset: "set (diff_sorted x y) \<subseteq> set x"
  by (induction x y rule: diff_sorted.induct) auto

lemma sorted_diff_sorted: "sorted x \<Longrightarrow> sorted (diff_sorted x y)"
  by (induction x y rule: diff_sorted.induct) (auto dest!: subsetD[OF set_diff_sorted_subset])

lemma mset_diff_sorted:
  "sorted x \<Longrightarrow> sorted y \<Longrightarrow> mset (diff_sorted x y) = mset x - mset y"
proof (induction x y rule: diff_sorted.induct)
  case (3 x xs y ys)
  consider "x < y" | "x > y" | "x = y" by (metis linorder_neqE)
  then show ?case
  proof cases
    case 1
    then have "x \<notin> set (y # ys)" using "3.prems"(2) by auto
    then have "mset (x # xs) - mset (y # ys) = add_mset x (mset xs - mset (y # ys))"
      by (metis add_mset_diff_bothsides diff_add_mset_swap mset.simps(2) set_mset_mset)
    with 1 3 show ?thesis by auto
  next
    case 2
    then have "y \<notin> set (x # xs)" using "3.prems"(1) by auto
    then have "mset (x # xs) - mset (y # ys) = mset (x # xs) - mset ys"
      by (metis minus_add_mset_if_not_in_lhs mset.simps(2) set_mset_mset)
    with 2 3 show ?thesis by auto
  next
    case 3
    with "3.IH"(3) "3.prems" show ?thesis by simp
  qed
qed auto

lemma removeCommon_mset:
  "sorted x \<Longrightarrow> sorted y \<Longrightarrow> mset (removeCommon x y) = mset x - mset y"
  by (simp add: removeCommon_eq_diff_sorted mset_diff_sorted)

lemma sorted_removeCommon: "sorted x \<Longrightarrow> sorted (removeCommon x y)"
  by (simp add: removeCommon_eq_diff_sorted sorted_diff_sorted)

lemma set_removeCommon_subset: "set (removeCommon x y) \<subseteq> set x"
  by (simp add: removeCommon_eq_diff_sorted set_diff_sorted_subset)

lemma set_removeCommon:
  assumes "sorted x" "sorted y" "distinct x"
  shows "set (removeCommon x y) = set x - set y"
proof -
  have "mset (removeCommon x y) = mset x - mset y" using assms by (intro removeCommon_mset)
  then have "set_mset (mset (removeCommon x y)) = {a. count (mset y) a < count (mset x) a}"
    by (simp add: set_mset_diff)
  also have "\<dots> = set x - set y"
    using assms(3) by (auto simp: distinct_count_atmost_1 count_list_0_iff count_mset split: if_splits)
  finally show ?thesis by simp
qed

text \<open>\<open>removeCommon\<close> computes the multiset difference of two sorted lists, in sorted order: a
  session id that occurs in both lists is removed once for each occurrence in the second list,
  and every other id is kept.
\<close>

theorem removeCommon_correct:
  assumes "sorted x" and "sorted y"
  shows "mset (removeCommon x y) = mset x - mset y \<and> sorted (removeCommon x y)"
  using assms by (simp add: removeCommon_mset sorted_removeCommon)

theorem removeCommon_correct_witness:
  "sorted [''a'', ''b'', ''b'', ''d''] \<and> sorted [''b'', ''c''] \<and>
   mset (removeCommon [''a'', ''b'', ''b'', ''d''] [''b'', ''c'']) =
     mset [''a'', ''b'', ''b'', ''d''] - mset [''b'', ''c'']"
proof -
  have s: "sorted [''a'', ''b'', ''b'', ''d'']" "sorted [''b'', ''c'']"
    by code_simp+
  show ?thesis using s removeCommon_correct[OF s] by blast
qed

lemma be_value_bigIntToBytes: "be_value (bigIntToBytes v) = nat \<bar>v\<bar>"
proof -
  define a where "a = nat \<bar>v\<bar>"
  define n where "n = (hex_length a + 1) div 2"
  have n: "hex_length a \<le> 2 * n" unfolding n_def by linarith
  have "a < 16 ^ hex_length a" by (rule lt_hex_length)
  also have "\<dots> \<le> 16 ^ (2 * n)" by (rule power_increasing[OF n]) simp
  finally have "a < 256 ^ n" by (simp add: power_mult)
  then show ?thesis
    by (simp add: bigIntToBytes_eq be_value_encode n_def flip: a_def)
qed

text \<open>\<open>bigIntToBytes\<close> is the big-endian encoding of the absolute value, without leading zero
  bytes: reading the bytes back gives the absolute value, and the first byte is zero only for
  the value 0, which is encoded as one byte.
\<close>

theorem bigIntToBytes_roundtrip:
  "be_value (bigIntToBytes v) = nat \<bar>v\<bar> \<and>
   (if v = 0 then bigIntToBytes v = [0] else bigIntToBytes v \<noteq> [] \<and> hd (bigIntToBytes v) \<noteq> 0)"
proof -
  define a where "a = nat \<bar>v\<bar>"
  define n where "n = (hex_length a + 1) div 2"
  have eq: "bigIntToBytes v = be_encode n a" by (simp add: bigIntToBytes_eq a_def n_def)
  have n: "n > 0" "hex_length a \<le> 2 * n" "2 * (n - 1) \<le> hex_length a - 1"
    using hex_length_pos[of a] unfolding n_def by linarith+
  have pow: "(16::nat) ^ (2 * k) = 256 ^ k" for k by (simp add: power_mult)
  have "a < 16 ^ hex_length a" by (rule lt_hex_length)
  also have "\<dots> \<le> 16 ^ (2 * n)" by (rule power_increasing[OF n(2)]) simp
  finally have lt: "a < 256 ^ n" unfolding pow .
  have val: "be_value (bigIntToBytes v) = a" unfolding a_def by (rule be_value_bigIntToBytes)
  have hd0: "hd (bigIntToBytes v) \<noteq> 0" if "v \<noteq> 0"
  proof -
    have "a > 0" using that by (simp add: a_def)
    then have "16 ^ (hex_length a - 1) \<le> a" by (rule hex_length_le)
    moreover have "(16::nat) ^ (2 * (n - 1)) \<le> 16 ^ (hex_length a - 1)"
      by (rule power_increasing[OF n(3)]) simp
    ultimately have ge: "256 ^ (n - 1) \<le> a" unfolding pow by (rule order_trans[rotated])
    have "a div 256 ^ (n - 1) < 256"
      using lt n(1) by (cases n) (simp_all add: div_less_iff_less_mult mult.commute)
    moreover have "a div 256 ^ (n - 1) > 0" using ge by (simp add: div_greater_zero_iff)
    ultimately have "unat (hd (bigIntToBytes v)) > 0"
      using n(1) by (simp add: eq be_encode_hd unat_of_nat)
    then show ?thesis by auto
  qed
  have z: "bigIntToBytes 0 = [0]" by (simp add: bigIntToBytes_def hex_length.simps[of 0])
  have ne: "bigIntToBytes v \<noteq> []" using n(1) length_be_encode[of n a] unfolding eq by force
  show ?thesis
    using val hd0 ne z unfolding a_def by simp
qed

end
