(* ===== verification/StreamIds.thy ===== *)
theory StreamIds
  imports Utils
begin

section \<open>Stream identifiers\<close>

text \<open>
  \<open>packages/sdk/src/id.ts\<close>: stream ids are 64 lower-case hex digits, a two-digit prefix that
  names the kind of the stream, the identity of the stream, and zero padding. The random part
  of a generated id comes from the third-party \<open>nanoid\<close> and is an argument here.
\<close>

definition STREAM_ID_BYTES_LENGTH :: nat where "STREAM_ID_BYTES_LENGTH = 32"
definition STREAM_ID_STRING_LENGTH :: nat where
  "STREAM_ID_STRING_LENGTH = STREAM_ID_BYTES_LENGTH * 2"

definition slice :: "nat \<Rightarrow> nat \<Rightarrow> string \<Rightarrow> string" where
  "slice i j s = take (j - i) (drop i s)"

definition padEnd :: "nat \<Rightarrow> char \<Rightarrow> string \<Rightarrow> string" where
  "padEnd n c s = s @ replicate (n - length s) c"

definition userIdFromAddress :: "'a externs_scheme \<Rightarrow> bytes \<Rightarrow> string option" where
  "userIdFromAddress E address = x_getAddress E (bin_toHexString E address)"

definition addressFromUserId :: "'a externs_scheme \<Rightarrow> string \<Rightarrow> bytes option" where
  "addressFromUserId E userId =
     (case x_getAddress E userId of None \<Rightarrow> None | Some normalized \<Rightarrow> x_arrayify E normalized)"

definition streamIdToBytes :: "'a externs_scheme \<Rightarrow> string \<Rightarrow> bytes option" where
  "streamIdToBytes E s = ethereumAddressToBytes E s"

definition streamIdFromBytes :: "'a externs_scheme \<Rightarrow> bytes \<Rightarrow> string" where
  "streamIdFromBytes E bs = ethereumAddressFromBytes E bs"

definition streamIdAsString :: "'a externs_scheme \<Rightarrow> string_or_bytes \<Rightarrow> string" where
  "streamIdAsString E x = ethereumAddressAsString E x"

definition streamIdAsBytes :: "'a externs_scheme \<Rightarrow> string_or_bytes \<Rightarrow> bytes option" where
  "streamIdAsBytes E x = ethereumAddressAsBytes E x"

definition isUserId :: "'a externs_scheme \<Rightarrow> string_or_bytes \<Rightarrow> bool" where
  "isUserId E x = isEthereumAddress E x"

text \<open>The enum \<open>StreamPrefix\<close> and the values of its members.\<close>

datatype StreamPrefix =
    Channel | DM | GDM | Media | Space | User | UserMetadata | UserInbox | UserSettings | Metadata

fun prefix_value :: "StreamPrefix \<Rightarrow> string" where
  "prefix_value Channel = ''20''"
| "prefix_value DM = ''88''"
| "prefix_value GDM = ''77''"
| "prefix_value Media = ''ff''"
| "prefix_value Space = ''10''"
| "prefix_value User = ''a8''"
| "prefix_value UserMetadata = ''ad''"
| "prefix_value UserInbox = ''a1''"
| "prefix_value UserSettings = ''a5''"
| "prefix_value Metadata = ''dd''"

definition all_prefixes :: "StreamPrefix list" where
  "all_prefixes = [Channel, DM, GDM, Media, Space, User, UserMetadata, UserInbox, UserSettings,
     Metadata]"

definition allowedStreamPrefixes :: "string list" where
  "allowedStreamPrefixes = map prefix_value all_prefixes"

definition expectedIdentityLenByPrefix :: "(string, nat) jsmap" where
  "expectedIdentityLenByPrefix =
     [(prefix_value User, 40), (prefix_value UserMetadata, 40), (prefix_value UserSettings, 40),
      (prefix_value UserInbox, 40), (prefix_value Space, 40), (prefix_value Channel, 62),
      (prefix_value Media, 62), (prefix_value DM, 62), (prefix_value GDM, 62),
      (prefix_value Metadata, 16)]"

definition isLowercaseHex :: "string \<Rightarrow> bool" where
  "isLowercaseHex input = list_all is_lower_hex_char input"

text \<open>\<open>identity.length != expected[prefix]\<close> is also true for a prefix outside the table, where
  the lookup is \<open>undefined\<close>; the guard on the prefix excludes that case.\<close>

definition areValidStreamIdParts :: "string \<Rightarrow> string \<Rightarrow> bool" where
  "areValidStreamIdParts prefix identity =
     (if prefix \<notin> set allowedStreamPrefixes then False
      else if \<not> isLowercaseHex identity then False
      else case map_get expectedIdentityLenByPrefix prefix of
             None \<Rightarrow> length identity = 62
           | Some len \<Rightarrow>
               if length identity \<noteq> len
               then length identity = 62 \<and> list_all (\<lambda>c. c = CHR ''0'') (drop len identity)
               else True)"

definition isValidStreamId :: "string \<Rightarrow> bool" where
  "isValidStreamId streamId = areValidStreamIdParts (slice 0 2 streamId) (drop 2 streamId)"

definition checkStreamId :: "string \<Rightarrow> exn option" where
  "checkStreamId streamId = check (isValidStreamId streamId) None"

definition makeStreamId :: "string \<Rightarrow> string \<Rightarrow> exn + string" where
  "makeStreamId prefix identity0 =
     (let identity1 = toLowerCase identity0;
          identity = (if starts_with ''0x'' identity1 then drop 2 identity1 else identity1)
      in case check (areValidStreamIdParts prefix identity) None of
           Some e \<Rightarrow> Inl e
         | None \<Rightarrow> Inr (padEnd STREAM_ID_STRING_LENGTH (CHR ''0'') (prefix @ identity)))"

definition makeUserPrefixedStreamId ::
  "'a externs_scheme \<Rightarrow> StreamPrefix \<Rightarrow> string_or_bytes \<Rightarrow> exn + string" where
  "makeUserPrefixedStreamId E prefix userId =
     (case check (isUserId E userId) None of
        Some e \<Rightarrow> Inl e
      | None \<Rightarrow>
          (case userId of
             Str s \<Rightarrow> makeStreamId (prefix_value prefix) s
           | Bytes bs \<Rightarrow>
               (case userIdFromAddress E bs of
                  None \<Rightarrow> Inl LibError
                | Some s \<Rightarrow> makeStreamId (prefix_value prefix) s)))"

definition makeUserStreamId :: "'a externs_scheme \<Rightarrow> string_or_bytes \<Rightarrow> exn + string" where
  "makeUserStreamId E userId = makeUserPrefixedStreamId E User userId"

definition makeUserSettingsStreamId :: "'a externs_scheme \<Rightarrow> string_or_bytes \<Rightarrow> exn + string" where
  "makeUserSettingsStreamId E userId = makeUserPrefixedStreamId E UserSettings userId"

definition makeUserMetadataStreamId :: "'a externs_scheme \<Rightarrow> string_or_bytes \<Rightarrow> exn + string" where
  "makeUserMetadataStreamId E userId = makeUserPrefixedStreamId E UserMetadata userId"

definition makeUserInboxStreamId :: "'a externs_scheme \<Rightarrow> string_or_bytes \<Rightarrow> exn + string" where
  "makeUserInboxStreamId E userId = makeUserPrefixedStreamId E UserInbox userId"

definition makeSpaceStreamId :: "string \<Rightarrow> exn + string" where
  "makeSpaceStreamId spaceContractAddress = makeStreamId (prefix_value Space) spaceContractAddress"

definition makeUniqueChannelStreamId :: "string \<Rightarrow> string \<Rightarrow> exn + string" where
  "makeUniqueChannelStreamId spaceId randomId =
     makeStreamId (prefix_value Channel) (slice 2 42 spaceId @ randomId)"

definition makeDefaultChannelStreamId :: "string \<Rightarrow> exn + string" where
  "makeDefaultChannelStreamId spaceContractAddressOrId =
     (if starts_with (prefix_value Space) spaceContractAddressOrId
      then Inr (prefix_value Channel @ drop 2 spaceContractAddressOrId)
      else makeStreamId (prefix_value Channel)
             (spaceContractAddressOrId @ replicate 22 (CHR ''0'')))"

subsection \<open>Kinds of streams\<close>

definition has_prefix :: "'a externs_scheme \<Rightarrow> StreamPrefix \<Rightarrow> string_or_bytes \<Rightarrow> bool" where
  "has_prefix E p streamId = starts_with (prefix_value p) (streamIdAsString E streamId)"

definition isUserStreamId where "isUserStreamId E s = has_prefix E User s"
definition isSpaceStreamId where "isSpaceStreamId E s = has_prefix E Space s"
definition isChannelStreamId where "isChannelStreamId E s = has_prefix E Channel s"
definition isDMChannelStreamId where "isDMChannelStreamId E s = has_prefix E DM s"
definition isUserDeviceStreamId where "isUserDeviceStreamId E s = has_prefix E UserMetadata s"
definition isUserSettingsStreamId where "isUserSettingsStreamId E s = has_prefix E UserSettings s"
definition isMediaStreamId where "isMediaStreamId E s = has_prefix E Media s"
definition isGDMChannelStreamId where "isGDMChannelStreamId E s = has_prefix E GDM s"
definition isUserInboxStreamId where "isUserInboxStreamId E s = has_prefix E UserInbox s"
definition isMetadataStreamId where "isMetadataStreamId E s = has_prefix E Metadata s"

lemmas kind_defs = isUserStreamId_def isSpaceStreamId_def isChannelStreamId_def
  isDMChannelStreamId_def isUserDeviceStreamId_def isUserSettingsStreamId_def
  isMediaStreamId_def isGDMChannelStreamId_def isUserInboxStreamId_def isMetadataStreamId_def

definition contractAddressFromSpaceId :: "'a externs_scheme \<Rightarrow> string \<Rightarrow> exn + string" where
  "contractAddressFromSpaceId E spaceId =
     (case check (isSpaceStreamId E (Str spaceId)) None of
        Some e \<Rightarrow> Inl e
      | None \<Rightarrow> Inr (''0x'' @ slice 2 42 spaceId))"

definition spaceIdFromChannelId :: "'a externs_scheme \<Rightarrow> string \<Rightarrow> exn + string" where
  "spaceIdFromChannelId E channelId =
     (case check (isChannelStreamId E (Str channelId)) None of
        Some e \<Rightarrow> Inl e
      | None \<Rightarrow> makeStreamId (prefix_value Space) (slice 2 42 channelId @ replicate 22 (CHR ''0'')))"

definition isDefaultChannelId :: "string \<Rightarrow> bool" where
  "isDefaultChannelId streamId =
     (if slice 0 2 streamId \<noteq> prefix_value Channel then False
      else length streamId \<ge> 22 \<and> drop (length streamId - 22) streamId = replicate 22 (CHR ''0''))"

definition makeUniqueGDMChannelStreamId :: "string \<Rightarrow> exn + string" where
  "makeUniqueGDMChannelStreamId randomId = makeStreamId (prefix_value GDM) randomId"

definition makeUniqueMediaStreamId :: "string \<Rightarrow> exn + string" where
  "makeUniqueMediaStreamId randomId = makeStreamId (prefix_value Media) randomId"

definition join :: "string \<Rightarrow> string list \<Rightarrow> string" where
  "join sep xs = concat (case xs of [] \<Rightarrow> [] | x # ys \<Rightarrow> x # map (\<lambda>y. sep @ y) ys)"

definition makeDMStreamId :: "'a externs_scheme \<Rightarrow> string \<Rightarrow> string \<Rightarrow> exn + string" where
  "makeDMStreamId E userIdA userIdB =
     (let concatenated = join ''-'' (sort (map toLowerCase [userIdA, userIdB]));
          hashed = hashString E concatenated
      in makeStreamId (prefix_value DM) (slice 0 62 hashed))"

definition getUserAddressFromStreamId :: "'a externs_scheme \<Rightarrow> string \<Rightarrow> exn + bytes" where
  "getUserAddressFromStreamId E streamId =
     (if slice 0 2 streamId \<notin> set (map prefix_value [User, UserMetadata, UserSettings, UserInbox])
      then Inl JsError
      else if length streamId \<noteq> STREAM_ID_STRING_LENGTH \<or> \<not> isLowercaseHex streamId
      then Inl JsError
      else let addressPart = slice 2 42 streamId; paddingPart = drop 42 streamId
           in if paddingPart \<noteq> replicate 22 (CHR ''0'') then Inl JsError
              else case addressFromUserId E (''0x'' @ addressPart) of
                     None \<Rightarrow> Inl LibError
                   | Some a \<Rightarrow> Inr a)"

definition getUserIdFromStreamId :: "'a externs_scheme \<Rightarrow> string \<Rightarrow> exn + string" where
  "getUserIdFromStreamId E streamId =
     (case getUserAddressFromStreamId E streamId of
        Inl e \<Rightarrow> Inl e
      | Inr a \<Rightarrow> (case userIdFromAddress E a of None \<Rightarrow> Inl LibError | Some u \<Rightarrow> Inr u))"

definition genLocalId :: "string \<Rightarrow> string" where
  "genLocalId nano11 = ''~'' @ nano11"


subsection \<open>Well-formed identifiers\<close>

lemma check_None_iff [simp]: "check b c = None \<longleftrightarrow> b"
  by (simp add: check_def)

lemma toLowerCase_append [simp]: "toLowerCase (a @ b) = toLowerCase a @ toLowerCase b"
  by (simp add: toLowerCase_def)

lemma length_toLowerCase [simp]: "length (toLowerCase s) = length s"
  by (simp add: toLowerCase_def)

lemma to_lower_char_hex: "is_lower_hex_char c \<Longrightarrow> to_lower_char c = c"
  by (auto simp: is_lower_hex_char_def to_lower_char_def)

lemma toLowerCase_hex: "isLowercaseHex s \<Longrightarrow> toLowerCase s = s"
  by (induction s) (auto simp: isLowercaseHex_def toLowerCase_def to_lower_char_hex)

lemma isLowercaseHex_append [simp]:
  "isLowercaseHex (a @ b) \<longleftrightarrow> isLowercaseHex a \<and> isLowercaseHex b"
  by (simp add: isLowercaseHex_def)

lemma isLowercaseHex_zeros [simp]: "isLowercaseHex (replicate n (CHR ''0''))"
  by (induction n) (auto simp: isLowercaseHex_def is_lower_hex_char_def)

lemma hex_not_0x: "isLowercaseHex s \<Longrightarrow> \<not> starts_with ''0x'' s"
proof -
  assume "isLowercaseHex s"
  moreover have "starts_with ''0x'' s \<Longrightarrow> \<exists>t. s = ''0x'' @ t"
    by (metis append_take_drop_id starts_with_def)
  moreover have "\<not> isLowercaseHex (''0x'' @ t)" for t
    by (simp add: isLowercaseHex_def is_lower_hex_char_def)
  ultimately show ?thesis by blast
qed

lemma allowed_prefix:
  assumes "p \<in> set allowedStreamPrefixes"
  shows "length p = 2" "isLowercaseHex p"
  using assms
  by (auto simp: allowedStreamPrefixes_def all_prefixes_def isLowercaseHex_def is_lower_hex_char_def)

lemma expected_len:
  "p \<in> set allowedStreamPrefixes \<Longrightarrow>
   \<exists>n. map_get expectedIdentityLenByPrefix p = Some n \<and> n \<le> 62"
  by (auto simp: allowedStreamPrefixes_def all_prefixes_def expectedIdentityLenByPrefix_def)

lemma prefix_value_inj: "prefix_value p = prefix_value q \<longleftrightarrow> p = q"
  by (cases p; cases q) auto

lemma length_prefix_value [simp]: "length (prefix_value p) = 2"
  by (cases p) auto

lemma prefix_value_allowed [simp]: "prefix_value p \<in> set allowedStreamPrefixes"
  by (cases p) (auto simp: allowedStreamPrefixes_def all_prefixes_def)

lemma makeStreamId_Inr_iff:
  "makeStreamId p i = Inr s \<longleftrightarrow>
     (let l = toLowerCase i; d = (if starts_with ''0x'' l then drop 2 l else l)
      in areValidStreamIdParts p d \<and> s = padEnd 64 (CHR ''0'') (p @ d))"
  by (auto simp: makeStreamId_def Let_def check_def STREAM_ID_STRING_LENGTH_def
      STREAM_ID_BYTES_LENGTH_def split: option.splits)

lemma makeStreamId_hex:
  assumes "isLowercaseHex i" "areValidStreamIdParts p i"
  shows "makeStreamId p i = Inr (padEnd 64 (CHR ''0'') (p @ i))"
  using assms by (simp add: makeStreamId_Inr_iff Let_def toLowerCase_hex hex_not_0x)

lemma valid_parts_length:
  assumes "areValidStreamIdParts p d"
  shows "length p = 2" "isLowercaseHex p" "isLowercaseHex d" "length d \<le> 62"
proof -
  from assms have p: "p \<in> set allowedStreamPrefixes" and d: "isLowercaseHex d"
    by (auto simp: areValidStreamIdParts_def split: if_splits)
  then show "length p = 2" "isLowercaseHex p" "isLowercaseHex d" by (auto intro: allowed_prefix)
  obtain n where "map_get expectedIdentityLenByPrefix p = Some n" "n \<le> 62"
    using expected_len[OF p] by blast
  with assms show "length d \<le> 62"
    by (auto simp: areValidStreamIdParts_def split: if_splits)
qed

lemma valid_parts_padded:
  assumes "areValidStreamIdParts p d"
  shows "areValidStreamIdParts p (d @ replicate (62 - length d) (CHR ''0''))"
proof -
  from assms have p: "p \<in> set allowedStreamPrefixes"
    by (auto simp: areValidStreamIdParts_def split: if_splits)
  obtain n where n: "map_get expectedIdentityLenByPrefix p = Some n" "n \<le> 62"
    using expected_len[OF p] by blast
  show ?thesis
    using assms n valid_parts_length(4)[OF assms]
    by (auto simp: areValidStreamIdParts_def list_all_iff split: if_splits)
qed

lemma makeStreamId_shape:
  assumes "makeStreamId p i = Inr s"
  obtains d where "areValidStreamIdParts p d" "s = p @ d @ replicate (62 - length d) (CHR ''0'')"
proof -
  from assms obtain d where d: "areValidStreamIdParts p d" "s = padEnd 64 (CHR ''0'') (p @ d)"
    by (auto simp: makeStreamId_Inr_iff Let_def)
  with valid_parts_length(1)[OF d(1)] have "s = p @ d @ replicate (62 - length d) (CHR ''0'')"
    by (simp add: padEnd_def)
  with d(1) show ?thesis by (rule that)
qed

lemma makeStreamId_prefix: "makeStreamId p i = Inr s \<Longrightarrow> take 2 s = p"
  by (erule makeStreamId_shape) (simp add: valid_parts_length(1))

text \<open>Every id that \<open>makeStreamId\<close> returns is well formed: it has 64 characters, all of them
  lower-case hex digits, starts with the given prefix and passes \<open>isValidStreamId\<close>.
\<close>

theorem makeStreamId_wellformed:
  assumes "makeStreamId p i = Inr s"
  shows "length s = 64 \<and> isLowercaseHex s \<and> slice 0 2 s = p \<and> isValidStreamId s"
proof -
  from assms obtain d
    where d: "areValidStreamIdParts p d" "s = p @ d @ replicate (62 - length d) (CHR ''0'')"
    by (rule makeStreamId_shape)
  note l = valid_parts_length[OF d(1)]
  have "slice 0 2 s = p" "drop 2 s = d @ replicate (62 - length d) (CHR ''0'')"
    using l by (simp_all add: d(2) slice_def)
  with l valid_parts_padded[OF d(1)] show ?thesis
    by (simp add: d(2) isValidStreamId_def)
qed

theorem makeStreamId_wellformed_witness:
  "makeStreamId ''10'' (''0x'' @ replicate 40 (CHR ''A'')) =
     Inr (''10'' @ replicate 40 (CHR ''a'') @ replicate 22 (CHR ''0'')) \<and>
   isValidStreamId (''10'' @ replicate 40 (CHR ''a'') @ replicate 22 (CHR ''0''))"
proof -
  have m: "makeStreamId ''10'' (''0x'' @ replicate 40 (CHR ''A'')) =
     Inr (''10'' @ replicate 40 (CHR ''a'') @ replicate 22 (CHR ''0''))"
    by code_simp
  show ?thesis using m makeStreamId_wellformed[OF m] by blast
qed

lemma has_prefix_unique: "has_prefix E p s \<Longrightarrow> has_prefix E q s \<Longrightarrow> p = q"
  by (auto simp: has_prefix_def starts_with_def prefix_value_inj)

lemma makeStreamId_has_prefix:
  assumes "makeStreamId (prefix_value p) i = Inr s"
  shows "has_prefix E q (Str s) \<longleftrightarrow> q = p"
proof -
  have "take 2 s = prefix_value p" using assms by (rule makeStreamId_prefix)
  then show ?thesis
    by (auto simp: has_prefix_def starts_with_def streamIdAsString_def ethereumAddressAsString_def
        prefix_value_inj)
qed


text \<open>The predicates on stream ids tell the kinds apart: whatever identity it is made from, an id
  made with the prefix of a kind is of that kind and of no other, for each of the ten kinds.
\<close>

theorem makeStreamId_kind:
  assumes "makeStreamId (prefix_value p) i = Inr s"
  shows "(isUserStreamId E (Str s) \<longleftrightarrow> p = User) \<and> (isSpaceStreamId E (Str s) \<longleftrightarrow> p = Space) \<and>
    (isChannelStreamId E (Str s) \<longleftrightarrow> p = Channel) \<and> (isDMChannelStreamId E (Str s) \<longleftrightarrow> p = DM) \<and>
    (isUserDeviceStreamId E (Str s) \<longleftrightarrow> p = UserMetadata) \<and>
    (isUserSettingsStreamId E (Str s) \<longleftrightarrow> p = UserSettings) \<and>
    (isMediaStreamId E (Str s) \<longleftrightarrow> p = Media) \<and> (isGDMChannelStreamId E (Str s) \<longleftrightarrow> p = GDM) \<and>
    (isUserInboxStreamId E (Str s) \<longleftrightarrow> p = UserInbox) \<and>
    (isMetadataStreamId E (Str s) \<longleftrightarrow> p = Metadata)"
  using makeStreamId_has_prefix[OF assms] by (auto simp: kind_defs)

theorem makeStreamId_kind_witness:
  "makeStreamId (prefix_value GDM) (replicate 62 (CHR ''7'')) = Inr (replicate 64 (CHR ''7'')) \<and>
   isGDMChannelStreamId plain_externs (Str (replicate 64 (CHR ''7''))) \<and>
   \<not> isDMChannelStreamId plain_externs (Str (replicate 64 (CHR ''7'')))"
proof -
  have m: "makeStreamId (prefix_value GDM) (replicate 62 (CHR ''7'')) = Inr (replicate 64 (CHR ''7''))"
    by code_simp
  show ?thesis using m makeStreamId_kind[OF m, of plain_externs] by simp
qed

subsection \<open>Channels and their spaces\<close>

lemma isLowercaseHex_take [simp]: "isLowercaseHex s \<Longrightarrow> isLowercaseHex (take n s)"
  and isLowercaseHex_drop [simp]: "isLowercaseHex s \<Longrightarrow> isLowercaseHex (drop n s)"
  by (auto simp: isLowercaseHex_def list_all_iff dest: in_set_takeD in_set_dropD)

lemma valid_Space_parts:
  "areValidStreamIdParts ''10'' d \<longleftrightarrow>
     isLowercaseHex d \<and> (length d = 40 \<or> (length d = 62 \<and> list_all (\<lambda>c. c = CHR ''0'') (drop 40 d)))"
  by (auto simp: areValidStreamIdParts_def expectedIdentityLenByPrefix_def allowedStreamPrefixes_def
      all_prefixes_def)

lemma valid_Channel_parts:
  "areValidStreamIdParts ''20'' d \<longleftrightarrow> isLowercaseHex d \<and> length d = 62"
  by (auto simp: areValidStreamIdParts_def expectedIdentityLenByPrefix_def allowedStreamPrefixes_def
      all_prefixes_def)

lemma zeros_replicate: "list_all (\<lambda>c. c = CHR ''0'') xs \<Longrightarrow> xs = replicate (length xs) (CHR ''0'')"
  by (induction xs) auto

lemma makeSpaceStreamId_shape:
  assumes "makeSpaceStreamId a = Inr s"
  obtains d where "isLowercaseHex d" "length d = 40" "s = ''10'' @ d @ replicate 22 (CHR ''0'')"
proof -
  from assms obtain d where d: "areValidStreamIdParts ''10'' d"
      "s = ''10'' @ d @ replicate (62 - length d) (CHR ''0'')"
    unfolding makeSpaceStreamId_def by (auto elim: makeStreamId_shape)
  then consider "length d = 40" | "length d = 62" "list_all (\<lambda>c. c = CHR ''0'') (drop 40 d)"
    by (auto simp: valid_Space_parts)
  then show ?thesis
  proof cases
    case 1
    with d show ?thesis by (intro that) (auto simp: valid_Space_parts)
  next
    case 2
    have "d = take 40 d @ replicate 22 (CHR ''0'')"
      using zeros_replicate[OF 2(2)] 2(1) append_take_drop_id[of 40 d] by simp
    with d 2 show ?thesis by (intro that[of "take 40 d"]) (auto simp: valid_Space_parts)
  qed
qed

lemma channel_of_space:
  assumes "isLowercaseHex d" "length d = 40" "isLowercaseHex r" "length r = 22"
  shows "makeUniqueChannelStreamId (''10'' @ d @ replicate 22 (CHR ''0'')) r = Inr (''20'' @ d @ r)"
proof -
  have "makeStreamId ''20'' (d @ r) = Inr (padEnd 64 (CHR ''0'') (''20'' @ d @ r))"
    using assms by (intro makeStreamId_hex) (auto simp: valid_Channel_parts)
  with assms show ?thesis by (simp add: makeUniqueChannelStreamId_def slice_def padEnd_def)
qed

lemma space_of_channel:
  assumes "isLowercaseHex d" "length d = 40"
  shows "spaceIdFromChannelId E (''20'' @ d @ r) = Inr (''10'' @ d @ replicate 22 (CHR ''0''))"
proof -
  have "makeStreamId ''10'' (d @ replicate 22 (CHR ''0'')) =
      Inr (padEnd 64 (CHR ''0'') (''10'' @ d @ replicate 22 (CHR ''0'')))"
    using assms by (intro makeStreamId_hex) (auto simp: valid_Space_parts list_all_iff)
  with assms show ?thesis
    by (simp add: spaceIdFromChannelId_def slice_def padEnd_def isChannelStreamId_def has_prefix_def
        starts_with_def streamIdAsString_def ethereumAddressAsString_def check_def)
qed

text \<open>Channel ids lead back to their space: the id of any channel made for a space, the default
  channel or one with a 22-digit random suffix, gives the space id again through
  \<open>spaceIdFromChannelId\<close>, and \<open>isDefaultChannelId\<close> holds of it exactly when the suffix is zero.
\<close>

theorem spaceIdFromChannelId_roundtrip:
  assumes "makeSpaceStreamId a = Inr spaceId" "isLowercaseHex r" "length r = 22"
  shows "\<exists>c d. makeUniqueChannelStreamId spaceId r = Inr c \<and> spaceIdFromChannelId E c = Inr spaceId \<and>
    (isDefaultChannelId c \<longleftrightarrow> r = replicate 22 (CHR ''0'')) \<and>
    makeDefaultChannelStreamId spaceId = Inr d \<and> isDefaultChannelId d \<and>
    spaceIdFromChannelId E d = Inr spaceId"
proof -
  obtain d where d: "isLowercaseHex d" "length d = 40"
    and s: "spaceId = ''10'' @ d @ replicate 22 (CHR ''0'')"
    using assms(1) by (rule makeSpaceStreamId_shape)
  have "makeDefaultChannelStreamId spaceId = Inr (''20'' @ d @ replicate 22 (CHR ''0''))"
    using d by (simp add: makeDefaultChannelStreamId_def s starts_with_def)
  moreover have "isDefaultChannelId (''20'' @ d @ x) \<longleftrightarrow> x = replicate 22 (CHR ''0'')"
    if "length x = 22" for x
    using d that by (simp add: isDefaultChannelId_def slice_def)
  ultimately show ?thesis
    using channel_of_space[OF d assms(2,3)] space_of_channel[OF d] assms(3) by (auto simp: s)
qed

theorem spaceIdFromChannelId_roundtrip_witness:
  "\<exists>c d. makeUniqueChannelStreamId (''10'' @ replicate 40 (CHR ''a'') @ replicate 22 (CHR ''0''))
       (replicate 22 (CHR ''b'')) = Inr c \<and>
     spaceIdFromChannelId plain_externs c =
       Inr (''10'' @ replicate 40 (CHR ''a'') @ replicate 22 (CHR ''0'')) \<and>
     (isDefaultChannelId c \<longleftrightarrow> replicate 22 (CHR ''b'') = replicate 22 (CHR ''0'')) \<and>
     makeDefaultChannelStreamId (''10'' @ replicate 40 (CHR ''a'') @ replicate 22 (CHR ''0'')) = Inr d \<and>
     isDefaultChannelId d \<and>
     spaceIdFromChannelId plain_externs d =
       Inr (''10'' @ replicate 40 (CHR ''a'') @ replicate 22 (CHR ''0''))"
proof (rule spaceIdFromChannelId_roundtrip[where a = "''0x'' @ replicate 40 (CHR ''A'')"])
  show "makeSpaceStreamId (''0x'' @ replicate 40 (CHR ''A'')) =
      Inr (''10'' @ replicate 40 (CHR ''a'') @ replicate 22 (CHR ''0''))"
    by code_simp
  show "isLowercaseHex (replicate 22 (CHR ''b''))" "length (replicate 22 (CHR ''b'')) = 22"
    by code_simp+
qed


subsection \<open>Users and their streams\<close>

definition user_prefixes :: "StreamPrefix list" where
  "user_prefixes = [User, UserMetadata, UserSettings, UserInbox]"

lemma user_prefix_parts:
  assumes "p \<in> set user_prefixes" "isLowercaseHex d" "length d = 40"
  shows "areValidStreamIdParts (prefix_value p) d"
    "prefix_value p \<in> set (map prefix_value [User, UserMetadata, UserSettings, UserInbox])"
  using assms by (auto simp: user_prefixes_def areValidStreamIdParts_def allowedStreamPrefixes_def
      all_prefixes_def expectedIdentityLenByPrefix_def)

lemma isLowercaseHex_prefix [simp]: "isLowercaseHex (prefix_value p)"
  by (rule allowed_prefix(2)) simp

lemma hex_codecD:
  assumes "hex_codec E"
  shows "length (x_bytesToHex E bs) = 2 * length bs" "isLowercaseHex (x_bytesToHex E bs)"
    "x_hexToBytes E (x_bytesToHex E bs) = Some bs"
  using assms by (auto simp: hex_codec_def isLowercaseHex_def)

lemma user_stream_of_address:
  assumes "hex_codec E" "address_codec E" "length a = 20" "p \<in> set user_prefixes"
  shows "makeUserPrefixedStreamId E p (Bytes a) =
    Inr (prefix_value p @ x_bytesToHex E a @ replicate 22 (CHR ''0''))"
proof -
  let ?h = "x_bytesToHex E a"
  obtain u where u: "x_getAddress E ?h = Some u" "map to_lower_char u = ''0x'' @ ?h"
    using assms(2,3) by (auto simp: address_codec_def)
  note h = hex_codecD(1,2)[OF assms(1), of a]
  have "makeStreamId (prefix_value p) u = Inr (prefix_value p @ ?h @ replicate 22 (CHR ''0''))"
    using user_prefix_parts(1)[OF assms(4) h(2)] h assms(3) u(2)
    by (simp add: makeStreamId_Inr_iff toLowerCase_def starts_with_def padEnd_def)
  with u(1) assms(3) show ?thesis
    by (simp add: makeUserPrefixedStreamId_def isUserId_def isEthereumAddress_def check_def
        userIdFromAddress_def bin_toHexString_def)
qed

text \<open>A user's four streams lead back to the user: for every 20-byte address and each of the four
  user prefixes the id is made, \<open>getUserAddressFromStreamId\<close> recovers the address from it, and
  \<open>getUserIdFromStreamId\<close> recovers the same user id that \<open>userIdFromAddress\<close> gives. The laws of the
  hex and address libraries are the hypotheses.
\<close>

theorem getUserAddressFromStreamId_roundtrip:
  assumes "hex_codec E" "address_codec E" "length a = 20" "p \<in> set user_prefixes"
  shows "\<exists>s u. makeUserPrefixedStreamId E p (Bytes a) = Inr s \<and>
    getUserAddressFromStreamId E s = Inr a \<and>
    userIdFromAddress E a = Some u \<and> getUserIdFromStreamId E s = Inr u"
proof -
  let ?h = "x_bytesToHex E a"
  let ?s = "prefix_value p @ ?h @ replicate 22 (CHR ''0'')"
  obtain u where u: "x_getAddress E ?h = Some u" "x_getAddress E (''0x'' @ ?h) = Some u"
      "x_arrayify E u = Some a"
    using assms(2,3) by (auto simp: address_codec_def)
  note h = hex_codecD(1,2)[OF assms(1), of a]
  have "slice 0 2 ?s = prefix_value p" "slice 2 42 ?s = ?h" "drop 42 ?s = replicate 22 (CHR ''0'')"
    using h assms(3) by (simp_all add: slice_def)
  then have "getUserAddressFromStreamId E ?s = Inr a"
    using user_prefix_parts(2)[OF assms(4) h(2)] h assms(3) u
    by (simp add: getUserAddressFromStreamId_def STREAM_ID_STRING_LENGTH_def
        STREAM_ID_BYTES_LENGTH_def addressFromUserId_def Let_def)
  with u(1) show ?thesis
    by (simp add: user_stream_of_address[OF assms] getUserIdFromStreamId_def userIdFromAddress_def
        bin_toHexString_def)
qed

theorem getUserAddressFromStreamId_roundtrip_witness:
  "\<exists>s u. makeUserPrefixedStreamId plain_externs UserInbox (Bytes (replicate 20 171)) = Inr s \<and>
     getUserAddressFromStreamId plain_externs s = Inr (replicate 20 171) \<and>
     userIdFromAddress plain_externs (replicate 20 171) = Some u \<and>
     getUserIdFromStreamId plain_externs s = Inr u"
  by (rule getUserAddressFromStreamId_roundtrip)
     (simp_all add: plain_externs_laws user_prefixes_def)

subsection \<open>Direct messages\<close>

text \<open>Two users share one direct-message stream: the id does not depend on the order of the two
  user ids nor on the case of their letters, and when the hash has 32 bytes it is always made,
  from the first 62 hex digits of the hash.
\<close>

theorem makeDMStreamId_symmetric:
  assumes "hex_codec E" "\<And>m. length (x_keccak256 E m) = 32"
  shows "makeDMStreamId E a b = makeDMStreamId E (toLowerCase b) (toLowerCase a) \<and>
    (\<exists>s. makeDMStreamId E a b = Inr s \<and> isDMChannelStreamId E (Str s) \<and> isValidStreamId s \<and>
       drop 2 s = take 62 (hashString E (join ''-'' (sort [toLowerCase a, toLowerCase b]))))"
proof -
  have low: "to_lower_char (to_lower_char c) = to_lower_char c" for c
    by (cases "of_char c + 32 < (256 :: nat)") (auto simp: to_lower_char_def Let_def)
  then have idem: "toLowerCase (toLowerCase x) = toLowerCase x" for x
    by (simp add: toLowerCase_def)
  have sym: "sort [toLowerCase b, toLowerCase a] = sort [toLowerCase a, toLowerCase b]"
    by (rule properties_for_sort[OF _ sorted_sort]) (simp add: add_mset_commute)
  let ?h = "hashString E (join ''-'' (sort [toLowerCase a, toLowerCase b]))"
  have h: "isLowercaseHex (take 62 ?h)" "length (take 62 ?h) = 62"
    using hex_codecD(1,2)[OF assms(1)] assms(2) by (simp_all add: hashString_def bin_toHexString_def)
  then have p: "areValidStreamIdParts ''88'' (take 62 ?h)"
    by (auto simp: areValidStreamIdParts_def allowedStreamPrefixes_def all_prefixes_def
        expectedIdentityLenByPrefix_def)
  have "makeDMStreamId E a b = Inr (''88'' @ take 62 ?h)"
    using makeStreamId_hex[OF h(1) p] h(2)
    by (simp add: makeDMStreamId_def slice_def padEnd_def)
  moreover have "isValidStreamId (''88'' @ take 62 ?h)"
    using p by (simp add: isValidStreamId_def slice_def)
  moreover have "isDMChannelStreamId E (Str (''88'' @ take 62 ?h))"
    by (simp add: isDMChannelStreamId_def has_prefix_def streamIdAsString_def
        ethereumAddressAsString_def starts_with_def)
  ultimately show ?thesis
    using idem sym by (simp add: makeDMStreamId_def)
qed

theorem makeDMStreamId_symmetric_witness:
  "makeDMStreamId plain_externs ''0xAB'' ''0xcd'' = makeDMStreamId plain_externs ''0xcd'' ''0xab''"
proof -
  have "toLowerCase ''0xAB'' = ''0xab''" "toLowerCase ''0xcd'' = ''0xcd''" by code_simp+
  moreover have "length (x_keccak256 plain_externs m) = 32" for m
    by (simp add: plain_externs_def)
  ultimately show ?thesis
    using makeDMStreamId_symmetric[of plain_externs "''0xAB''" "''0xcd''"]
    by (simp add: plain_externs_laws)
qed

end
