(* ===== verification/Protocol.thy ===== *)
theory Protocol
  imports StreamIds
begin

section \<open>Protocol messages\<close>

text \<open>
  The messages of \<open>protocol/protocol.proto\<close> that the SDK reads from streams, one record or datatype
  per message with all of its fields, and the event types of \<open>packages/sdk/src/types.ts\<close>.

  \<^item> A \<open>oneof\<close> is an option of a datatype with one constructor per case (\<open>case: undefined\<close> is
    \<^term>\<open>None\<close>). A message field is an option; the scalar fields are the values themselves.
  \<^item> Enums are open in proto3: each has a constructor for the values the code does not know.
  \<^item> \<open>StreamEvent\<close>, \<open>MiniblockHeader\<close> and \<open>Snapshot\<close> contain each other (a pin holds an event, a
    header holds a snapshot), so they are one mutually recursive datatype.
\<close>

subsection \<open>Leaf messages\<close>

datatype MembershipOp = SO_UNSPECIFIED | SO_INVITE | SO_JOIN | SO_LEAVE | SO_UNKNOWN nat
datatype ChannelOp = CO_UNSPECIFIED | CO_CREATED | CO_DELETED | CO_UPDATED | CO_UNKNOWN nat
datatype MembershipReason = MR_NONE | MR_NOT_ENTITLED | MR_EXPIRED | MR_UNKNOWN nat
datatype EncryptedDataVersion =
  ENCRYPTED_DATA_VERSION_0 | ENCRYPTED_DATA_VERSION_1 | ENCRYPTED_DATA_VERSION_UNKNOWN nat

record EncryptedData =
  ed_ciphertext :: string
  ed_algorithm :: string
  ed_senderKey :: string
  ed_sessionId :: string
  ed_checksum :: "string option"
  ed_refEventId :: "string option"
  ed_ciphertextBytes :: bytes
  ed_ivBytes :: bytes
  ed_sessionIdBytes :: bytes
  ed_version :: EncryptedDataVersion

record WrappedEncryptedData =
  we_data :: "EncryptedData option"
  we_eventNum :: int
  we_eventHash :: bytes

record StreamSettings =
  ss_disableMiniblockCreation :: bool
  ss_lightStream :: bool

record EventRef =
  er_streamId :: bytes
  er_hash :: bytes
  er_signature :: bytes

record SyncCookie =
  sc_nodeAddress :: bytes
  sc_streamId :: bytes
  sc_minipoolGen :: int
  sc_prevMiniblockHash :: bytes

record Tags =
  tg_messageInteractionType :: nat
  tg_groupMentionTypes :: "nat list"
  tg_mentionedUserAddresses :: "bytes list"
  tg_participatingUserAddresses :: "bytes list"
  tg_threadId :: "bytes option"

subsubsection \<open>Blockchain transactions\<close>

record Log =
  lg_address :: bytes
  lg_topics :: "bytes list"
  lg_data :: bytes

record TransactionReceipt =
  rc_chainId :: int
  rc_transactionHash :: bytes
  rc_blockNumber :: int
  rc_to :: bytes
  rc_from :: bytes
  rc_logs :: "Log list"

record TokenBalance =
  tb_mint :: string
  tb_owner :: string
  tb_amount :: "(string \<times> nat) option"

record SolanaTransactionReceipt =
  sr_slot :: int
  sr_signatures :: "string list option"
  sr_meta :: "(TokenBalance list \<times> TokenBalance list) option"

record TipEventData =
  te_tokenId :: int
  te_currency :: bytes
  te_sender :: bytes
  te_receiver :: bytes
  te_amount :: int
  te_messageId :: bytes
  te_channelId :: bytes

record Tip =
  tip_event :: "TipEventData option"
  tip_toUserAddress :: bytes

record TokenTransfer =
  tt_address :: bytes
  tt_amount :: string
  tt_sender :: bytes
  tt_messageId :: bytes
  tt_channelId :: bytes
  tt_isBuy :: bool

datatype SpaceReviewAction = ReviewAdd | ReviewUpdate | ReviewDelete | ReviewUnknown nat

record SpaceReview =
  sv_spaceAddress :: bytes
  sv_action :: SpaceReviewAction
  sv_event :: "(bytes \<times> int) option"

datatype TransactionContent =
    TcTip Tip
  | TcTokenTransfer TokenTransfer
  | TcSpaceReview SpaceReview

record BlockchainTransaction =
  bt_receipt :: "TransactionReceipt option"
  bt_solanaReceipt :: "SolanaTransactionReceipt option"
  bt_content :: "TransactionContent option"

subsubsection \<open>Member payload\<close>

record Membership =
  ms_op :: MembershipOp
  ms_userAddress :: bytes
  ms_initiatorAddress :: bytes
  ms_streamParentId :: "bytes option"
  ms_reason :: MembershipReason
  ms_appAddress :: "bytes option"

record KeySolicitation =
  ks_deviceKey :: string
  ks_fallbackKey :: string
  ks_isNewDevice :: bool
  ks_sessionIds :: "string list"

record KeyFulfillment =
  kf_userAddress :: bytes
  kf_deviceKey :: string
  kf_sessionIds :: "string list"

record Nft =
  nft_chainId :: int
  nft_contractAddress :: bytes
  nft_tokenId :: bytes

record MemberBlockchainTransaction =
  mbt_transaction :: "BlockchainTransaction option"
  mbt_fromUserAddress :: bytes

type_synonym tally = "(string, int) jsmap"

record SnapshotMember =
  sm_userAddress :: bytes
  sm_miniblockNum :: int
  sm_eventNum :: int
  sm_solicitations :: "KeySolicitation list"
  sm_username :: "WrappedEncryptedData option"
  sm_displayName :: "WrappedEncryptedData option"
  sm_ensAddress :: bytes
  sm_nft :: "Nft option"
  sm_tipsSent :: tally
  sm_tipsReceived :: tally
  sm_tipsSentCount :: tally
  sm_tipsReceivedCount :: tally

subsubsection \<open>Space payload\<close>

record ChannelSettings =
  cs_autojoin :: bool
  cs_hideUserJoinLeaveEvents :: bool

record SnappedSpaceImage =
  si_creatorAddress :: bytes
  si_data :: "EncryptedData option"
  si_eventNum :: int
  si_eventHash :: bytes

record Inception =
  in_streamId :: bytes
  in_settings :: "StreamSettings option"

record ChannelMetadata =
  cm_op :: ChannelOp
  cm_channelId :: bytes
  cm_originEvent :: "EventRef option"
  cm_updatedAtEventNum :: int
  cm_settings :: "ChannelSettings option"

record ChannelUpdate =
  cu_op :: ChannelOp
  cu_channelId :: bytes
  cu_originEvent :: "EventRef option"
  cu_settings :: "ChannelSettings option"

record UpdateChannelAutojoin =
  ua_channelId :: bytes
  ua_autojoin :: bool

record UpdateChannelHideUserJoinLeaveEvents =
  uh_channelId :: bytes
  uh_hideUserJoinLeaveEvents :: bool

datatype SpacePayload_content =
    SpInception Inception
  | SpChannel ChannelUpdate
  | SpSpaceImage EncryptedData
  | SpUpdateChannelAutojoin UpdateChannelAutojoin
  | SpUpdateChannelHideUserJoinLeaveEvents UpdateChannelHideUserJoinLeaveEvents

record SpaceSnapshot =
  sps_inception :: "Inception option"
  sps_channels :: "ChannelMetadata list"
  sps_spaceImage :: "SnappedSpaceImage option"

subsubsection \<open>Channel, DM, GDM and media payloads\<close>

record ChannelInception =
  ci_streamId :: bytes
  ci_spaceId :: bytes
  ci_settings :: "StreamSettings option"
  ci_channelSettings :: "ChannelSettings option"

datatype ChannelPayload_content =
    ChInception ChannelInception
  | ChMessage EncryptedData
  | ChRedaction bytes

record DmInception =
  di_streamId :: bytes
  di_firstPartyAddress :: bytes
  di_secondPartyAddress :: bytes
  di_settings :: "StreamSettings option"

datatype DmChannelPayload_content = DmIncept DmInception | DmMessage EncryptedData

record GdmInception =
  gi_streamId :: bytes
  gi_channelProperties :: "EncryptedData option"
  gi_settings :: "StreamSettings option"

datatype GdmChannelPayload_content =
    GdmIncept GdmInception
  | GdmMessage EncryptedData
  | GdmChannelProperties EncryptedData

record GdmSnapshot =
  gs_inception :: "GdmInception option"
  gs_channelProperties :: "WrappedEncryptedData option"

record MediaInception =
  mi_streamId :: bytes
  mi_channelId :: "bytes option"
  mi_chunkCount :: int
  mi_settings :: "StreamSettings option"
  mi_spaceId :: "bytes option"
  mi_userId :: "bytes option"
  mi_perChunkEncryption :: "bool option"

record MediaChunk =
  mc_data :: bytes
  mc_chunkIndex :: int
  mc_iv :: "bytes option"

datatype MediaPayload_content = MedInception MediaInception | MedChunk MediaChunk

subsubsection \<open>User payloads\<close>

record UserInception =
  ui_streamId :: bytes
  ui_settings :: "StreamSettings option"
  ui_appAddress :: "bytes option"

record UserMembership =
  um_streamId :: bytes
  um_op :: MembershipOp
  um_inviter :: "bytes option"
  um_streamParentId :: "bytes option"
  um_reason :: "MembershipReason option"

record UserMembershipAction =
  ma_streamId :: bytes
  ma_userId :: bytes
  ma_op :: MembershipOp
  ma_streamParentId :: "bytes option"
  ma_reason :: "MembershipReason option"

record ReceivedBlockchainTransaction =
  rbt_transaction :: "BlockchainTransaction option"
  rbt_fromUserAddress :: bytes

datatype UserPayload_content =
    UsInception UserInception
  | UsUserMembership UserMembership
  | UsUserMembershipAction UserMembershipAction
  | UsBlockchainTransaction BlockchainTransaction
  | UsReceivedBlockchainTransaction ReceivedBlockchainTransaction

record UserSnapshot =
  us_inception :: "UserInception option"
  us_memberships :: "UserMembership list"
  us_tipsSent :: tally
  us_tipsReceived :: tally
  us_tipsSentCount :: tally
  us_tipsReceivedCount :: tally

record DeviceSummary =
  ds_lowerBound :: int
  ds_upperBound :: int

record GroupEncryptionSessions =
  ges_streamId :: bytes
  ges_senderKey :: string
  ges_sessionIds :: "string list"
  ges_ciphertexts :: "(string, string) jsmap"
  ges_algorithm :: string

record InboxAck =
  ack_deviceKey :: string
  ack_miniblockNum :: int

datatype UserInboxPayload_content =
    InInception UserInception
  | InAck InboxAck
  | InGroupEncryptionSessions GroupEncryptionSessions

record UserInboxSnapshot =
  ins_inception :: "UserInception option"
  ins_deviceSummary :: "(string, DeviceSummary) jsmap"

record SnapshotBlock =
  sb_isBlocked :: bool
  sb_eventNum :: int

record UserBlocks =
  ubs_userId :: bytes
  ubs_blocks :: "SnapshotBlock list"

record FullyReadMarkers =
  frm_streamId :: bytes
  frm_content :: "string option"

record UserBlock =
  ub_userId :: bytes
  ub_isBlocked :: bool
  ub_eventNum :: int

datatype UserSettingsPayload_content =
    SeInception UserInception
  | SeFullyReadMarkers FullyReadMarkers
  | SeUserBlock UserBlock

record UserSettingsSnapshot =
  ses_inception :: "UserInception option"
  ses_fullyReadMarkers :: "FullyReadMarkers list"
  ses_userBlocksList :: "UserBlocks list"

record EncryptionDevice =
  dev_deviceKey :: string
  dev_fallbackKey :: string

datatype UserMetadataPayload_content =
    MdInception UserInception
  | MdEncryptionDevice EncryptionDevice
  | MdProfileImage EncryptedData
  | MdBio EncryptedData

record UserMetadataSnapshot =
  mds_inception :: "UserInception option"
  mds_encryptionDevices :: "EncryptionDevice list"
  mds_profileImage :: "WrappedEncryptedData option"
  mds_bio :: "WrappedEncryptedData option"

subsection \<open>Stream events, headers and snapshots\<close>

text \<open>The SDK does not implement metadata streams: of their payload only whether the content is set
  is kept, and their snapshot carries no data here.\<close>

datatype (plugins only: code) stream_event =
    StreamEvent (ev_creatorAddress: bytes) (ev_delegateSig: bytes) (ev_salt: bytes)
      (ev_prevMiniblockHash: "bytes option") (ev_createdAtEpochMs: int)
      (ev_delegateExpiryEpochMs: int) (ev_tags: "Tags option") (ev_prevMiniblockNum: "int option")
      (ev_payload: "payload option")
and payload =
    PlMiniblockHeader miniblock_header
  | PlMember "member_content option"
  | PlSpace "SpacePayload_content option"
  | PlChannel "ChannelPayload_content option"
  | PlUser "UserPayload_content option"
  | PlUserSettings "UserSettingsPayload_content option"
  | PlUserMetadata "UserMetadataPayload_content option"
  | PlUserInbox "UserInboxPayload_content option"
  | PlMedia "MediaPayload_content option"
  | PlDmChannel "DmChannelPayload_content option"
  | PlGdmChannel "GdmChannelPayload_content option"
  | PlMetadata "unit option"
and member_content =
    McMembership Membership
  | McKeySolicitation KeySolicitation
  | McKeyFulfillment KeyFulfillment
  | McUsername EncryptedData
  | McDisplayName EncryptedData
  | McEnsAddress bytes
  | McNft Nft
  | McPin pin_msg
  | McUnpin bytes
  | McMemberBlockchainTransaction MemberBlockchainTransaction
  | McEncryptionAlgorithm "string option"
and pin_msg = PinMsg (pm_eventId: bytes) (pm_event: "stream_event option")
and snapped_pin = SnappedPin (sn_creatorAddress: bytes) (sn_pin: "pin_msg option")
and members_snapshot =
    MembersSnapshot (mss_joined: "SnapshotMember list") (mss_pins: "snapped_pin list")
      (mss_encryptionAlgorithm: "string option option") (mss_tips: tally) (mss_tipsCount: tally)
and miniblock_header =
    MiniblockHeader (mh_miniblockNum: int) (mh_prevMiniblockHash: bytes) (mh_timestamp: "int option")
      (mh_eventHashes: "bytes list") (mh_snapshot: "snapshot option") (mh_eventNumOffset: int)
      (mh_prevSnapshotMiniblockNum: int) (mh_snapshotHash: "bytes option")
      (mh_rejectedEventHashes: "bytes list") (mh_content: "unit option")
and snapshot =
    Snapshot (sn_members: "members_snapshot option") (sn_snapshotVersion: int)
      (sn_content: "snapshot_content option")
and snapshot_content =
    ScSpace SpaceSnapshot
  | ScChannel "ChannelInception option"
  | ScUser UserSnapshot
  | ScUserSettings UserSettingsSnapshot
  | ScUserMetadata UserMetadataSnapshot
  | ScMedia "MediaInception option"
  | ScDmChannel "DmInception option"
  | ScGdmChannel GdmSnapshot
  | ScUserInbox UserInboxSnapshot
  | ScMetadata

subsection \<open>Channel messages\<close>

datatype mention_behavior = AtChannel | AtRole int

record Mention =
  mn_userId :: string
  mn_displayName :: string
  mn_mentionBehavior :: "mention_behavior option"

record ImageInfo =
  ii_url :: string
  ii_mimetype :: string
  ii_size :: "int option"
  ii_width :: "int option"
  ii_height :: "int option"

record Image =
  im_title :: string
  im_info :: "ImageInfo option"
  im_thumbnail :: "ImageInfo option"

record MediaInfo =
  mif_mimetype :: string
  mif_sizeBytes :: int
  mif_widthPixels :: int
  mif_heightPixels :: int
  mif_filename :: string

record EmbeddedMedia =
  em_info :: "MediaInfo option"
  em_content :: bytes

record ChunkedMedia =
  ck_info :: "MediaInfo option"
  ck_streamId :: string
  ck_thumbnail :: "EmbeddedMedia option"
  ck_aesgcm :: "(bytes \<times> bytes) option"

record EmbeddedMessageInfo =
  emi_userId :: string
  emi_createdAtEpochMs :: int
  emi_spaceId :: string
  emi_channelId :: string
  emi_messageId :: string
  emi_replyId :: "string option"

record EmbeddedMessageStaticInfo =
  ems_userName :: "string option"
  ems_displayName :: "string option"
  ems_channelName :: "string option"
  ems_spaceName :: "string option"
  ems_ensName :: "string option"

record UnfurledURL =
  uu_url :: string
  uu_description :: string
  uu_title :: string
  uu_image :: "(int \<times> int \<times> string) option"

record Ticker =
  tk_address :: string
  tk_chainId :: string

datatype (plugins only: code) post =
    Post (po_threadId: "string option") (po_threadPreview: "string option")
      (po_replyId: "string option") (po_replyPreview: "string option")
      (po_content: "post_content option")
and post_content =
    PcText string "Mention list" "attachment list"
  | PcImage Image
  | PcGm string "bytes option"
and attachment =
    AtImage Image
  | AtEmbeddedMedia EmbeddedMedia
  | AtChunkedMedia ChunkedMedia
  | AtEmbeddedMessage string "post option" "EmbeddedMessageInfo option"
      "EmbeddedMessageStaticInfo option"
  | AtUnfurledUrl UnfurledURL
  | AtTicker Ticker
  | AtUndefined

datatype ChannelMessage_payload =
    CmPost post
  | CmReaction string string
  | CmEdit string "post option"
  | CmRedaction string "string option"

type_synonym ChannelMessage = "ChannelMessage_payload option"

record ChannelProperties =
  cp_name :: string
  cp_topic :: string

record FullyReadMarker =
  fr_channelId :: string
  fr_threadParentId :: "string option"
  fr_eventId :: string
  fr_eventNum :: int
  fr_beginUnreadWindow :: int
  fr_endUnreadWindow :: int
  fr_isUnread :: bool
  fr_markedReadAtTs :: int
  fr_mentions :: int

end
