(* ===== verification/Events.thy ===== *)
theory Events
  imports Protocol
begin

section \<open>Events of the SDK\<close>

text \<open>
  The event types and payload constructors of \<open>packages/sdk/src/types.ts\<close>, the decrypted contents
  of \<open>encryptedContentTypes.ts\<close>, the events that streams emit (\<open>streamEvents.ts\<close>), and the review
  events of \<open>packages/web3/src/space/IReviewShim.ts\<close>. The generated protobuf codecs and the
  contract interface that parses logs are library functions: fields of \<open>protocol_externs\<close>.
\<close>

subsection \<open>encryptedContentTypes.ts\<close>

record ParsedLog =
  pl_name :: string
  pl_user :: string
  pl_comment :: string
  pl_rating :: int

record protocol_externs = externs +
  x_streamEvent_toBinary :: "stream_event \<Rightarrow> bytes"
  x_streamEvent_fromBinary :: "bytes \<Rightarrow> stream_event option"
  x_snapshot_toBinary :: "snapshot \<Rightarrow> bytes"
  x_snapshot_fromBinary :: "bytes \<Rightarrow> snapshot option"
  x_channelMessage_fromJson :: "string \<Rightarrow> ChannelMessage option"
  x_channelMessage_fromBinary :: "bytes \<Rightarrow> ChannelMessage option"
  x_channelProperties_fromJson :: "string \<Rightarrow> ChannelProperties option"
  x_channelProperties_fromBinary :: "bytes \<Rightarrow> ChannelProperties option"
  x_fullyReadMarkers_fromJson :: "string \<Rightarrow> (string, FullyReadMarker) jsmap option"
  x_parseReviewLog :: "string \<times> string list \<times> string \<Rightarrow> ParsedLog option"

text \<open>The three kinds of \<open>EncryptedContent\<close>, and a cleartext, a string or bytes. The empty string
  is falsy; an empty \<open>Uint8Array\<close> is an object and therefore truthy.\<close>

datatype content_kind = KText | KChannelMessage | KChannelProperties

record EncryptedContent =
  ec_kind :: content_kind
  ec_content :: EncryptedData

datatype cleartext = CtString string | CtBytes bytes

definition isEncryptedContentKind :: "string \<Rightarrow> bool" where
  "isEncryptedContentKind kind \<longleftrightarrow>
     kind = ''text'' \<or> kind = ''channelMessage'' \<or> kind = ''channelProperties''"

datatype DecryptedContent =
    DcText string
  | DcChannelMessage ChannelMessage
  | DcChannelProperties ChannelProperties
  | DcUnsupported cleartext

definition truthy_cleartext :: "cleartext option \<Rightarrow> cleartext option" where
  "truthy_cleartext c = (if c = Some (CtString []) then None else c)"

definition cleartext_string :: "cleartext \<Rightarrow> string" where
  "cleartext_string c = (case c of CtString s \<Rightarrow> s | CtBytes bs \<Rightarrow> bin_toString bs)"

definition lib_result :: "('a \<Rightarrow> 'b) \<Rightarrow> 'a option \<Rightarrow> exn + 'b" where
  "lib_result f r = (case r of None \<Rightarrow> Inl LibError | Some x \<Rightarrow> Inr (f x))"

definition toDecryptedContent ::
  "'a protocol_externs_scheme \<Rightarrow> content_kind \<Rightarrow> EncryptedDataVersion \<Rightarrow> cleartext \<Rightarrow>
   exn + DecryptedContent" where
  "toDecryptedContent E kind dataVersion ct =
     (case dataVersion of
        ENCRYPTED_DATA_VERSION_0 \<Rightarrow>
          (case ct of
             CtBytes _ \<Rightarrow> Inl JsError
           | CtString s \<Rightarrow>
               (case kind of
                  KText \<Rightarrow> Inr (DcText s)
                | KChannelMessage \<Rightarrow> lib_result DcChannelMessage (x_channelMessage_fromJson E s)
                | KChannelProperties \<Rightarrow>
                    lib_result DcChannelProperties (x_channelProperties_fromJson E s)))
      | ENCRYPTED_DATA_VERSION_1 \<Rightarrow>
          (case ct of
             CtString _ \<Rightarrow> Inl JsError
           | CtBytes bs \<Rightarrow>
               (case kind of
                  KText \<Rightarrow> Inr (DcText (bin_toString bs))
                | KChannelProperties \<Rightarrow>
                    lib_result DcChannelProperties (x_channelProperties_fromBinary E bs)
                | KChannelMessage \<Rightarrow> lib_result DcChannelMessage (x_channelMessage_fromBinary E bs)))
      | ENCRYPTED_DATA_VERSION_UNKNOWN _ \<Rightarrow> Inr (DcUnsupported ct))"

subsection \<open>types.ts\<close>

datatype LocalEventStatus = Sending | Sent | Failed

record LocalEvent =
  le_localId :: string
  le_channelMessage :: ChannelMessage
  le_status :: LocalEventStatus

record ParsedEvent =
  pe_event :: stream_event
  pe_hash :: bytes
  pe_hashStr :: string
  pe_signature :: "bytes option"
  pe_creatorUserId :: string

record ParsedSnapshot =
  ps_snapshot :: snapshot
  ps_hash :: bytes
  ps_hashStr :: string
  ps_signature :: "bytes option"

record DecryptionSessionError =
  dse_missingSession :: bool
  dse_kind :: string
  dse_encryptedData :: EncryptedData
  dse_error :: "string option"

record StreamTimelineEvent =
  se_hashStr :: string
  se_creatorUserId :: string
  se_eventNum :: int
  se_createdAtEpochMs :: int
  se_localEvent :: "LocalEvent option"
  se_remoteEvent :: "ParsedEvent option"
  se_decryptedContent :: "DecryptedContent option"
  se_decryptedContentError :: "DecryptionSessionError option"
  se_miniblockNum :: "int option"
  se_confirmedEventNum :: "int option"

record EventSignatureBundle =
  sg_hash :: bytes
  sg_signature :: "bytes option"
  sg_creatorAddress :: bytes
  sg_delegateSig :: bytes
  sg_delegateExpiryEpochMs :: int

record ParsedMiniblock =
  mb_hash :: bytes
  mb_header :: miniblock_header
  mb_events :: "ParsedEvent list"

record ParsedStreamAndCookie =
  sac_nextSyncCookie :: SyncCookie
  sac_miniblocks :: "ParsedMiniblock list"
  sac_events :: "ParsedEvent list"
  sac_snapshot :: "ParsedSnapshot option"

record ParsedStreamResponse =
  psr_snapshot :: snapshot
  psr_streamAndCookie :: ParsedStreamAndCookie
  psr_prevSnapshotMiniblockNum :: int
  psr_eventIds :: "string list"

definition isLocalEvent :: "StreamTimelineEvent \<Rightarrow> bool" where
  "isLocalEvent event \<longleftrightarrow> se_localEvent event \<noteq> None"

definition isRemoteEvent :: "StreamTimelineEvent \<Rightarrow> bool" where
  "isRemoteEvent event \<longleftrightarrow> se_remoteEvent event \<noteq> None"

definition isDecryptedEvent :: "StreamTimelineEvent \<Rightarrow> bool" where
  "isDecryptedEvent event \<longleftrightarrow> se_decryptedContent event \<noteq> None \<and> se_remoteEvent event \<noteq> None"

definition isConfirmedEvent :: "StreamTimelineEvent \<Rightarrow> bool" where
  "isConfirmedEvent event \<longleftrightarrow>
     isRemoteEvent event \<and> se_confirmedEventNum event \<noteq> None \<and> se_miniblockNum event \<noteq> None"

definition getEventSignature :: "ParsedEvent \<Rightarrow> EventSignatureBundle" where
  "getEventSignature remoteEvent =
     \<lparr>sg_hash = pe_hash remoteEvent, sg_signature = pe_signature remoteEvent,
      sg_creatorAddress = ev_creatorAddress (pe_event remoteEvent),
      sg_delegateSig = ev_delegateSig (pe_event remoteEvent),
      sg_delegateExpiryEpochMs = ev_delegateExpiryEpochMs (pe_event remoteEvent)\<rparr>"

definition makeRemoteTimelineEvent ::
  "ParsedEvent \<Rightarrow> int \<Rightarrow> int option \<Rightarrow> int option \<Rightarrow> StreamTimelineEvent" where
  "makeRemoteTimelineEvent parsedEvent eventNum miniblockNum confirmedEventNum =
     \<lparr>se_hashStr = pe_hashStr parsedEvent, se_creatorUserId = pe_creatorUserId parsedEvent,
      se_eventNum = eventNum, se_createdAtEpochMs = ev_createdAtEpochMs (pe_event parsedEvent),
      se_localEvent = None, se_remoteEvent = Some parsedEvent, se_decryptedContent = None,
      se_decryptedContentError = None, se_miniblockNum = miniblockNum,
      se_confirmedEventNum = confirmedEventNum\<rparr>"

text \<open>The regular expression \<open>/^[A-Za-z0-9+/]{16,}$/\<close> on the first 16 characters.\<close>

definition is_base64_char :: "char \<Rightarrow> bool" where
  "is_base64_char c =
     (let n = (of_char c :: nat)
      in (65 \<le> n \<and> n \<le> 90) \<or> (97 \<le> n \<and> n \<le> 122) \<or> (48 \<le> n \<and> n \<le> 57) \<or>
         c = CHR ''+'' \<or> c = CHR ''/'')"

definition isCiphertext :: "string \<Rightarrow> bool" where
  "isCiphertext text = (let t = slice 0 16 text in length t \<ge> 16 \<and> list_all is_base64_char t)"

definition takeKeccakFingerprintInHex :: "'a externs_scheme \<Rightarrow> bytes \<Rightarrow> nat \<Rightarrow> string" where
  "takeKeccakFingerprintInHex E buf n = slice 0 n (bin_toHexString E (x_keccak256 E buf))"

subsubsection \<open>Payload constructors\<close>

definition make_MemberPayload_Membership :: "Membership \<Rightarrow> payload" where
  "make_MemberPayload_Membership value =
     PlMember (Some (McMembership value))"

definition make_UserPayload_Inception :: "UserInception \<Rightarrow> payload" where
  "make_UserPayload_Inception value =
     PlUser (Some (UsInception value))"

definition make_UserPayload_UserMembership :: "UserMembership \<Rightarrow> payload" where
  "make_UserPayload_UserMembership value =
     PlUser (Some (UsUserMembership value))"

definition make_UserPayload_UserMembershipAction :: "UserMembershipAction \<Rightarrow> payload" where
  "make_UserPayload_UserMembershipAction value =
     PlUser (Some (UsUserMembershipAction value))"

definition make_UserPayload_BlockchainTransaction :: "BlockchainTransaction \<Rightarrow> payload" where
  "make_UserPayload_BlockchainTransaction value =
     PlUser (Some (UsBlockchainTransaction value))"

definition make_SpacePayload_Inception :: "Inception \<Rightarrow> payload" where
  "make_SpacePayload_Inception value =
     PlSpace (Some (SpInception value))"

definition make_MemberPayload_DisplayName :: "EncryptedData \<Rightarrow> payload" where
  "make_MemberPayload_DisplayName value =
     PlMember (Some (McDisplayName value))"

definition make_MemberPayload_Username :: "EncryptedData \<Rightarrow> payload" where
  "make_MemberPayload_Username value =
     PlMember (Some (McUsername value))"

definition make_MemberPayload_EnsAddress :: "bytes \<Rightarrow> payload" where
  "make_MemberPayload_EnsAddress value =
     PlMember (Some (McEnsAddress value))"

definition make_MemberPayload_Nft :: "Nft \<Rightarrow> payload" where
  "make_MemberPayload_Nft value =
     PlMember (Some (McNft value))"

definition make_MemberPayload_Unpin :: "bytes \<Rightarrow> payload" where
  "make_MemberPayload_Unpin value =
     PlMember (Some (McUnpin value))"

definition make_ChannelPayload_Inception :: "ChannelInception \<Rightarrow> payload" where
  "make_ChannelPayload_Inception value =
     PlChannel (Some (ChInception value))"

definition make_DMChannelPayload_Inception :: "DmInception \<Rightarrow> payload" where
  "make_DMChannelPayload_Inception value =
     PlDmChannel (Some (DmIncept value))"

definition make_GDMChannelPayload_Inception :: "GdmInception \<Rightarrow> payload" where
  "make_GDMChannelPayload_Inception value =
     PlGdmChannel (Some (GdmIncept value))"

definition make_GDMChannelPayload_ChannelProperties :: "EncryptedData \<Rightarrow> payload" where
  "make_GDMChannelPayload_ChannelProperties value =
     PlGdmChannel (Some (GdmChannelProperties value))"

definition make_UserSettingsPayload_Inception :: "UserInception \<Rightarrow> payload" where
  "make_UserSettingsPayload_Inception value =
     PlUserSettings (Some (SeInception value))"

definition make_UserSettingsPayload_FullyReadMarkers :: "FullyReadMarkers \<Rightarrow> payload" where
  "make_UserSettingsPayload_FullyReadMarkers value =
     PlUserSettings (Some (SeFullyReadMarkers value))"

definition make_UserSettingsPayload_UserBlock :: "UserBlock \<Rightarrow> payload" where
  "make_UserSettingsPayload_UserBlock value =
     PlUserSettings (Some (SeUserBlock value))"

definition make_UserMetadataPayload_Inception :: "UserInception \<Rightarrow> payload" where
  "make_UserMetadataPayload_Inception value =
     PlUserMetadata (Some (MdInception value))"

definition make_UserInboxPayload_Inception :: "UserInception \<Rightarrow> payload" where
  "make_UserInboxPayload_Inception value =
     PlUserInbox (Some (InInception value))"

definition make_UserInboxPayload_GroupEncryptionSessions :: "GroupEncryptionSessions \<Rightarrow> payload" where
  "make_UserInboxPayload_GroupEncryptionSessions value =
     PlUserInbox (Some (InGroupEncryptionSessions value))"

definition make_UserInboxPayload_Ack :: "InboxAck \<Rightarrow> payload" where
  "make_UserInboxPayload_Ack value =
     PlUserInbox (Some (InAck value))"

definition make_UserMetadataPayload_EncryptionDevice :: "EncryptionDevice \<Rightarrow> payload" where
  "make_UserMetadataPayload_EncryptionDevice value =
     PlUserMetadata (Some (MdEncryptionDevice value))"

definition make_UserMetadataPayload_ProfileImage :: "EncryptedData \<Rightarrow> payload" where
  "make_UserMetadataPayload_ProfileImage value =
     PlUserMetadata (Some (MdProfileImage value))"

definition make_UserMetadataPayload_Bio :: "EncryptedData \<Rightarrow> payload" where
  "make_UserMetadataPayload_Bio value =
     PlUserMetadata (Some (MdBio value))"

definition make_SpacePayload_ChannelUpdate :: "ChannelUpdate \<Rightarrow> payload" where
  "make_SpacePayload_ChannelUpdate value =
     PlSpace (Some (SpChannel value))"

definition make_SpacePayload_SpaceImage :: "EncryptedData \<Rightarrow> payload" where
  "make_SpacePayload_SpaceImage value =
     PlSpace (Some (SpSpaceImage value))"

definition make_SpacePayload_UpdateChannelAutojoin :: "UpdateChannelAutojoin \<Rightarrow> payload" where
  "make_SpacePayload_UpdateChannelAutojoin value =
     PlSpace (Some (SpUpdateChannelAutojoin value))"

definition make_SpacePayload_UpdateChannelHideUserJoinLeaveEvents :: "UpdateChannelHideUserJoinLeaveEvents \<Rightarrow> payload" where
  "make_SpacePayload_UpdateChannelHideUserJoinLeaveEvents value =
     PlSpace (Some (SpUpdateChannelHideUserJoinLeaveEvents value))"

definition make_ChannelPayload_Message :: "EncryptedData \<Rightarrow> payload" where
  "make_ChannelPayload_Message value =
     PlChannel (Some (ChMessage value))"

definition make_ChannelPayload_Redaction :: "bytes \<Rightarrow> payload" where
  "make_ChannelPayload_Redaction value =
     PlChannel (Some (ChRedaction value))"

definition make_MemberPayload_EncryptionAlgorithm :: "string option \<Rightarrow> payload" where
  "make_MemberPayload_EncryptionAlgorithm value =
     PlMember (Some (McEncryptionAlgorithm value))"

definition make_MemberPayload_KeyFulfillment :: "KeyFulfillment \<Rightarrow> payload" where
  "make_MemberPayload_KeyFulfillment value =
     PlMember (Some (McKeyFulfillment value))"

definition make_MemberPayload_KeySolicitation :: "KeySolicitation \<Rightarrow> payload" where
  "make_MemberPayload_KeySolicitation value =
     PlMember (Some (McKeySolicitation value))"

definition make_DMChannelPayload_Message :: "EncryptedData \<Rightarrow> payload" where
  "make_DMChannelPayload_Message value =
     PlDmChannel (Some (DmMessage value))"

definition make_GDMChannelPayload_Message :: "EncryptedData \<Rightarrow> payload" where
  "make_GDMChannelPayload_Message value =
     PlGdmChannel (Some (GdmMessage value))"

definition make_MediaPayload_Inception :: "MediaInception \<Rightarrow> payload" where
  "make_MediaPayload_Inception value =
     PlMedia (Some (MedInception value))"

definition make_MediaPayload_Chunk :: "MediaChunk \<Rightarrow> payload" where
  "make_MediaPayload_Chunk value =
     PlMedia (Some (MedChunk value))"

definition make_MemberPayload_Pin :: "bytes \<Rightarrow> stream_event \<Rightarrow> payload" where
  "make_MemberPayload_Pin eventHash streamEvent =
     PlMember (Some (McPin (PinMsg eventHash (Some streamEvent))))"

definition make_ChannelMessage_Post_Content_Text ::
  "string \<Rightarrow> Mention list option \<Rightarrow> ChannelMessage" where
  "make_ChannelMessage_Post_Content_Text body mentions =
     (let mentionsPayload = (case mentions of None \<Rightarrow> [] | Some ms \<Rightarrow> ms)
      in Some (CmPost (Post None None None None (Some (PcText body mentionsPayload [])))))"

definition make_ChannelMessage_Post_Content_GM :: "string \<Rightarrow> bytes option \<Rightarrow> ChannelMessage" where
  "make_ChannelMessage_Post_Content_GM typeUrl value =
     Some (CmPost (Post None None None None (Some (PcGm typeUrl value))))"

definition make_ChannelMessage_Reaction :: "string \<Rightarrow> string \<Rightarrow> ChannelMessage" where
  "make_ChannelMessage_Reaction refEventId reaction = Some (CmReaction refEventId reaction)"

definition make_ChannelMessage_Edit :: "string \<Rightarrow> post \<Rightarrow> ChannelMessage" where
  "make_ChannelMessage_Edit refEventId p = Some (CmEdit refEventId (Some p))"

definition make_ChannelMessage_Redaction :: "string \<Rightarrow> string option \<Rightarrow> ChannelMessage" where
  "make_ChannelMessage_Redaction refEventId reason = Some (CmRedaction refEventId reason)"

definition make_MemberPayload_Membership2 ::
  "'a externs_scheme \<Rightarrow> string \<Rightarrow> MembershipOp \<Rightarrow> string \<Rightarrow> string option \<Rightarrow> exn + payload" where
  "make_MemberPayload_Membership2 E userId op initiatorId streamParentId =
     (case addressFromUserId E userId of
        None \<Rightarrow> Inl LibError
      | Some u \<Rightarrow>
          (case addressFromUserId E initiatorId of
             None \<Rightarrow> Inl LibError
           | Some i \<Rightarrow>
               (case truthy_str streamParentId of
                  None \<Rightarrow> Inr (make_MemberPayload_Membership
                    \<lparr>ms_op = op, ms_userAddress = u, ms_initiatorAddress = i,
                     ms_streamParentId = None, ms_reason = MR_NONE, ms_appAddress = None\<rparr>)
                | Some p \<Rightarrow>
                    (case streamIdAsBytes E (Str p) of
                       None \<Rightarrow> Inl LibError
                     | Some pb \<Rightarrow> Inr (make_MemberPayload_Membership
                         \<lparr>ms_op = op, ms_userAddress = u, ms_initiatorAddress = i,
                          ms_streamParentId = Some pb, ms_reason = MR_NONE,
                          ms_appAddress = None\<rparr>)))))"

subsubsection \<open>Payload getters\<close>

text \<open>The getters take a parsed event or a stream event; a parsed event is first unwrapped.\<close>

datatype parsed_or_stream = Parsed ParsedEvent | Stream stream_event

definition unwrap_event :: "parsed_or_stream \<Rightarrow> stream_event" where
  "unwrap_event e = (case e of Parsed p \<Rightarrow> pe_event p | Stream s \<Rightarrow> s)"

definition getUserPayload_Membership :: "parsed_or_stream option \<Rightarrow> UserMembership option" where
  "getUserPayload_Membership event =
     (case event of
        None \<Rightarrow> None
      | Some e \<Rightarrow>
          (case ev_payload (unwrap_event e) of
             Some (PlUser (Some (UsUserMembership value))) \<Rightarrow> Some value
           | _ \<Rightarrow> None))"

definition getChannelUpdatePayload :: "parsed_or_stream option \<Rightarrow> ChannelUpdate option" where
  "getChannelUpdatePayload event =
     (case event of
        None \<Rightarrow> None
      | Some e \<Rightarrow>
          (case ev_payload (unwrap_event e) of
             Some (PlSpace (Some (SpChannel value))) \<Rightarrow> Some value
           | _ \<Rightarrow> None))"

definition getMessagePayload :: "parsed_or_stream option \<Rightarrow> EncryptedData option" where
  "getMessagePayload event =
     (case event of
        None \<Rightarrow> None
      | Some e \<Rightarrow>
          (case ev_payload (unwrap_event e) of
             Some (PlChannel (Some (ChMessage value))) \<Rightarrow> Some value
           | _ \<Rightarrow> None))"

definition getMessagePayloadContent ::
  "'a protocol_externs_scheme \<Rightarrow> parsed_or_stream option \<Rightarrow> exn + ChannelMessage option" where
  "getMessagePayloadContent E event =
     (case getMessagePayload event of
        None \<Rightarrow> Inr None
      | Some d \<Rightarrow> lib_result Some (x_channelMessage_fromJson E (ed_ciphertext d)))"

definition getMessagePayloadContent_Text ::
  "'a protocol_externs_scheme \<Rightarrow> parsed_or_stream option \<Rightarrow>
   exn + (string \<times> Mention list \<times> attachment list) option" where
  "getMessagePayloadContent_Text E event =
     (case getMessagePayloadContent E event of
        Inl e \<Rightarrow> Inl e
      | Inr None \<Rightarrow> Inr None
      | Inr (Some (Some (CmPost p))) \<Rightarrow>
          (case po_content p of
             Some (PcText body mentions attachments) \<Rightarrow> Inr (Some (body, mentions, attachments))
           | _ \<Rightarrow> Inl JsError)
      | Inr (Some _) \<Rightarrow> Inl JsError)"

definition getMiniblockHeader :: "parsed_or_stream option \<Rightarrow> miniblock_header option" where
  "getMiniblockHeader event =
     (case event of
        None \<Rightarrow> None
      | Some e \<Rightarrow>
          (case ev_payload (unwrap_event e) of
             Some (PlMiniblockHeader value) \<Rightarrow> Some value
           | _ \<Rightarrow> None))"

definition getRefEventIdFromChannelMessage :: "ChannelMessage \<Rightarrow> string option" where
  "getRefEventIdFromChannelMessage message =
     (case message of
        Some (CmEdit r _) \<Rightarrow> Some r
      | Some (CmReaction r _) \<Rightarrow> Some r
      | Some (CmRedaction r _) \<Rightarrow> Some r
      | Some (CmPost p) \<Rightarrow> po_threadId p
      | None \<Rightarrow> None)"

subsection \<open>IReviewShim.ts\<close>

datatype ReviewAction = ActionNone | ActionAdd | ActionUpdate | ActionDelete

record SpaceReviewEventObject =
  rv_action :: ReviewAction
  rv_user :: string
  rv_comment :: "string option"
  rv_rating :: int

text \<open>A log the contract interface cannot parse is skipped: \<open>parseLog\<close> throws and the exception is
  caught.\<close>

fun getSpaceReviewEventData ::
  "'a protocol_externs_scheme \<Rightarrow> (string \<times> string list \<times> string) list \<Rightarrow> string \<Rightarrow>
   SpaceReviewEventObject" where
  "getSpaceReviewEventData E [] senderAddress =
     \<lparr>rv_action = ActionNone, rv_user = [], rv_comment = None, rv_rating = 0\<rparr>"
| "getSpaceReviewEventData E (log # logs) senderAddress =
     (case x_parseReviewLog E log of
        None \<Rightarrow> getSpaceReviewEventData E logs senderAddress
      | Some p \<Rightarrow>
          if pl_name p = ''ReviewAdded'' \<and> toLowerCase (pl_user p) = toLowerCase senderAddress
          then \<lparr>rv_action = ActionAdd, rv_user = pl_user p, rv_comment = Some (pl_comment p),
                rv_rating = pl_rating p\<rparr>
          else if pl_name p = ''ReviewUpdated'' \<and> toLowerCase (pl_user p) = toLowerCase senderAddress
          then \<lparr>rv_action = ActionUpdate, rv_user = pl_user p, rv_comment = Some (pl_comment p),
                rv_rating = pl_rating p\<rparr>
          else if pl_name p = ''ReviewDeleted'' \<and> toLowerCase (pl_user p) = toLowerCase senderAddress
          then \<lparr>rv_action = ActionDelete, rv_user = pl_user p, rv_comment = None, rv_rating = 0\<rparr>
          else getSpaceReviewEventData E logs senderAddress)"

definition getSpaceReviewEventDataBin ::
  "'a protocol_externs_scheme \<Rightarrow> Log list \<Rightarrow> bytes \<Rightarrow> SpaceReviewEventObject" where
  "getSpaceReviewEventDataBin E binLogs from =
     (let logs = map (\<lambda>log. (''0x'' @ bin_toHexString E (lg_address log),
                             map (\<lambda>topic. ''0x'' @ bin_toHexString E topic) (lg_topics log),
                             ''0x'' @ bin_toHexString E (lg_data log))) binLogs;
          senderWallet = ''0x'' @ bin_toHexString E from
      in getSpaceReviewEventData E logs senderWallet)"

end
