(* ===== verification/StreamEvents.thy ===== *)
theory StreamEvents
  imports Events
begin

section \<open>Events that streams emit\<close>

text \<open>
  \<open>packages/sdk/src/streamEvents.ts\<close>: the events of \<open>StreamEncryptionEvents\<close> and of the part of
  \<open>StreamStateEvents\<close> that the stream views emit, one constructor per event with its arguments, and
  the shared operations of \<open>packages/sdk/src/streamStateView_AbstractContent.ts\<close>.

  An emitter argument that may be \<open>undefined\<close> is a Boolean: whether there is one. What an operation
  emits is part of its result.
\<close>

type_synonym KeySolicitationContent = KeySolicitation

record Pin =
  pin_creatorUserId :: string
  pin_event :: StreamTimelineEvent

record MemberTokenTransfer =
  mtt_address :: bytes
  mtt_amount :: int
  mtt_isBuy :: bool
  mtt_chainId :: string
  mtt_userId :: string
  mtt_sender :: bytes
  mtt_createdAtEpochMs :: int
  mtt_messageId :: string

datatype (plugins only: code) out =
    newGroupSessions GroupEncryptionSessions string
  | newEncryptedContent string string EncryptedContent
  | newKeySolicitation string string string bytes KeySolicitationContent EventSignatureBundle
  | updatedKeySolicitation string string string bytes KeySolicitationContent EventSignatureBundle
  | initKeySolicitations string string "(string \<times> bytes \<times> KeySolicitationContent list) list"
      EventSignatureBundle
  | userDeviceKeyMessage string string EncryptionDevice
  | streamNewUserJoined string string
  | streamNewUserInvited string string
  | streamUserLeft string string
  | streamMembershipUpdated string string
  | streamPendingMembershipUpdated string string
  | userJoinedStream string
  | userInvitedToStream string
  | userLeftStream string
  | userStreamMembershipChanged string UserMembership
  | userProfileImageUpdated string
  | userBioUpdated string
  | userInboxDeviceSummaryUpdated string string "DeviceSummary option"
  | userDeviceKeysUpdated string "EncryptionDevice list"
  | userTipSent string string int
  | userTipReceived string string int
  | streamTipped string string Tip
  | spaceChannelCreated string string
  | spaceChannelUpdated string string int
  | spaceChannelAutojoinUpdated string string bool
  | spaceChannelHideUserJoinLeaveEventsUpdated string string bool
  | spaceChannelDeleted string string
  | spaceImageUpdated string
  | spaceReviewsUpdated string SpaceReviewEventObject
  | channelPinAdded string Pin
  | channelPinRemoved string Pin nat
  | channelPinDecrypted string Pin nat
  | fullyReadMarkersUpdated string "(string, FullyReadMarker) jsmap"
  | userBlockUpdated UserBlock
  | streamInitialized string string
  | streamLocalEventUpdated string string string StreamTimelineEvent
  | streamUsernameUpdated string string
  | streamDisplayNameUpdated string string
  | streamPendingUsernameUpdated string string
  | streamPendingDisplayNameUpdated string string
  | streamEnsAddressUpdated string string
  | streamNftUpdated string string
  | streamChannelPropertiesUpdated string
  | streamEncryptionAlgorithmUpdated string "string option"
  | streamTokenTransfer string MemberTokenTransfer
  | streamLatestTimestampUpdated string

text \<open>\<open>decryptEvent\<close>: a truthy cleartext is decoded into the event, otherwise the event is handed
  to the decryption queue.\<close>

definition decryptEvent ::
  "'a protocol_externs_scheme \<Rightarrow> string \<Rightarrow> content_kind \<Rightarrow> EncryptedData \<Rightarrow> cleartext option \<Rightarrow> bool \<Rightarrow>
   StreamTimelineEvent \<Rightarrow> (StreamTimelineEvent, out) res" where
  "decryptEvent E streamId kind content ct encryptionEmitter event =
     (case truthy_cleartext ct of
        Some c \<Rightarrow>
          (case toDecryptedContent E kind (ed_version content) c of
             Inl e \<Rightarrow> throw e event
           | Inr d \<Rightarrow> ok (event\<lparr>se_decryptedContent := Some d\<rparr>) [])
      | None \<Rightarrow>
          ok event (emit encryptionEmitter
            (newEncryptedContent streamId (se_hashStr event)
               \<lparr>ec_kind = kind, ec_content = content\<rparr>)))"

lemma decryptEvent_frame [simp]:
  "se_hashStr (st_of (decryptEvent E sid k c ct ee ev)) = se_hashStr ev"
  "se_remoteEvent (st_of (decryptEvent E sid k c ct ee ev)) = se_remoteEvent ev"
  by (simp_all add: decryptEvent_def split: option.splits sum.splits)

text \<open>\<open>getStreamParentIdAsBytes\<close>, from what the subclass returns for \<open>getStreamParentId\<close>.\<close>

definition getStreamParentIdAsBytes ::
  "'a externs_scheme \<Rightarrow> string option \<Rightarrow> exn + bytes option" where
  "getStreamParentIdAsBytes E streamParentId =
     (case streamParentId of
        None \<Rightarrow> Inr None
      | Some p \<Rightarrow> bindE (of_option LibError (streamIdToBytes E p)) (\<lambda>b. Inr (Some b)))"

end
