(* ===== verification/TimelineEvents.thy ===== *)
theory TimelineEvents
  imports StreamEvents StreamIds
begin

section \<open>Timeline events\<close>

text \<open>
  \<open>packages/sdk/src/views/models/timelineTypes.ts\<close> and
  \<open>packages/sdk/src/views/models/timelineEvent.ts\<close>: the events that a timeline shows, and their
  construction from the events of a stream.

  A content is a value of \<open>TimelineEvent_OneOf\<close>, one constructor per member of the union with its
  fields in the order of the interface. A conversion gives a content or an error text
  (\<open>TownsContentResult\<close>), and throws where a helper throws (a malformed address, an unknown
  membership operation). \<open>Number(createdAtEpochMs)\<close> is exact for times, so a number is an \<open>int\<close>.
  The comparison of user ids in \<open>getIsMentioned\<close>, made with \<open>localeCompare\<close> of lower-case ids, is
  equality of the lower-case ids. The case name of the content of a metadata payload, which the
  SDK does not support, is printed as \<open>unknown\<close> in its error text.
\<close>

subsection \<open>Types\<close>

datatype EventStatus = NOT_SENT | ENCRYPTING | SENDING | QUEUED | SENT | CANCELLED | RECEIVED

datatype RiverTimelineEvent =
    RtChannelCreate | RtChannelMessage | RtChannelMessageEncrypted | RtChannelMessageEncryptedWithRef
  | RtChannelMessageMissing | RtChannelProperties | RtEncryptedChannelProperties | RtFulfillment
  | RtInception | RtKeySolicitation | RtMemberBlockchainTransaction | RtMiniblockHeader | RtPin
  | RtReaction | RtRedactedEvent | RtRedactionActionEvent | RtSpaceUpdateAutojoin
  | RtSpaceUpdateHideUserJoinLeaves | RtSpaceImage | RtSpaceUsername | RtSpaceDisplayName
  | RtSpaceEnsAddress | RtSpaceNft | RtSpaceReview | RtStreamEncryptionAlgorithm | RtStreamMembership
  | RtTipEvent | RtTokenTransfer | RtUnpin | RtUserBlockchainTransaction
  | RtUserReceivedBlockchainTransaction

definition kind_name :: "RiverTimelineEvent \<Rightarrow> string" where
  "kind_name k =
     (case k of
        RtChannelCreate \<Rightarrow> ''m.channel.create''
      | RtChannelMessage \<Rightarrow> ''m.channel.message''
      | RtChannelMessageEncrypted \<Rightarrow> ''m.channel.encrypted''
      | RtChannelMessageEncryptedWithRef \<Rightarrow> ''m.channel.encrypted_with_ref''
      | RtChannelMessageMissing \<Rightarrow> ''m.channel.missing''
      | RtChannelProperties \<Rightarrow> ''m.channel.properties''
      | RtEncryptedChannelProperties \<Rightarrow> ''m.channel.encrypted_properties''
      | RtFulfillment \<Rightarrow> ''m.fulfillment''
      | RtInception \<Rightarrow> ''m.inception''
      | RtKeySolicitation \<Rightarrow> ''m.key_solicitation''
      | RtMemberBlockchainTransaction \<Rightarrow> ''m.member_blockchain_transaction''
      | RtMiniblockHeader \<Rightarrow> ''m.miniblockheader''
      | RtPin \<Rightarrow> ''m.pin''
      | RtReaction \<Rightarrow> ''m.reaction''
      | RtRedactedEvent \<Rightarrow> ''m.redacted_event''
      | RtRedactionActionEvent \<Rightarrow> ''m.redaction_action''
      | RtSpaceUpdateAutojoin \<Rightarrow> ''m.space.update_autojoin''
      | RtSpaceUpdateHideUserJoinLeaves \<Rightarrow> ''m.space.update_channel_hide_user_join_leaves''
      | RtSpaceImage \<Rightarrow> ''m.space.image''
      | RtSpaceUsername \<Rightarrow> ''m.space.username''
      | RtSpaceDisplayName \<Rightarrow> ''m.space.display_name''
      | RtSpaceEnsAddress \<Rightarrow> ''m.space.ens_name''
      | RtSpaceNft \<Rightarrow> ''m.space.nft''
      | RtSpaceReview \<Rightarrow> ''m.space.review''
      | RtStreamEncryptionAlgorithm \<Rightarrow> ''m.stream_encryption_algorithm''
      | RtStreamMembership \<Rightarrow> ''m.stream_membership''
      | RtTipEvent \<Rightarrow> ''m.tip_event''
      | RtTokenTransfer \<Rightarrow> ''m.token_transfer''
      | RtUnpin \<Rightarrow> ''m.unpin''
      | RtUserBlockchainTransaction \<Rightarrow> ''m.user_blockchain_transaction''
      | RtUserReceivedBlockchainTransaction \<Rightarrow> ''m.user_received_blockchain_transaction'')"

datatype MembershipName = MemJoin | MemInvite | MemLeave | MemNone

datatype ChannelMessageEventContent =
    MtImage "ImageInfo option" "ImageInfo option"
  | MtGM "bytes option"
  | MtText

datatype (plugins only: code) ChannelMessageEvent =
    ChannelMessageEvent (cme_threadId: "string option") (cme_threadPreview: "string option")
      (cme_replyId: "string option") (cme_replyPreview: "string option") (cme_body: string)
      (cme_mentions: "Mention list") (cme_editsEventId: "string option")
      (cme_content: ChannelMessageEventContent) (cme_attachments: "Attachment list option")
and Attachment =
    ImageAttachment ImageInfo string
  | ChunkedMediaAttachment string "bytes \<times> bytes" MediaInfo string "(bytes \<times> MediaInfo) option"
  | EmbeddedMediaAttachment MediaInfo bytes string
  | EmbeddedMessageAttachment string "post option" "ChannelMessageEvent option" EmbeddedMessageInfo
      "EmbeddedMessageStaticInfo option" string
  | UnfurledLinkAttachment string string string "(int \<times> int \<times> string) option" string
  | TickerAttachment string string string

datatype (plugins only: code) TimelineEvent_OneOf =
    ChannelCreateEvent (cce_creatorId: string) (cce_channelId: string) (cce_channelOp: ChannelOp)
      (cce_channelSettings: "ChannelSettings option")
  | ChannelMessageEncryptedEvent "DecryptionSessionError option"
  | ChannelMessageEncryptedRefEvent string
  | ChannelMessageContent ChannelMessageEvent
  | ChannelMessageMissingEvent string
  | ChannelPropertiesEvent ChannelProperties
  | EncryptedChannelPropertiesEvent "DecryptionSessionError option"
  | FulfillmentEvent "string list" string string string
  | InceptionEvent string "string option" "string option"
  | KeySolicitationEvent "string list" string bool
  | MiniblockHeaderEvent int bool
  | MemberBlockchainTransactionEvent "BlockchainTransaction option" string
  | PinEvent string string
  | ReactionEvent string string
  | RedactedEvent bool
  | RedactionActionEvent string bool
  | StreamEncryptionAlgorithmEvent "string option"
  | StreamMembershipEvent string string MembershipName "MembershipReason option" "string option"
  | SpaceDisplayNameEvent string string
  | SpaceEnsAddressEvent string bytes
  | SpaceImageEvent
  | SpaceNftEvent string string string int
  | SpaceUpdateAutojoinEvent string bool
  | SpaceUpdateHideUserJoinLeavesEvent string bool
  | SpaceUsernameEvent string string
  | TipEvent BlockchainTransaction Tip string string string string
  | TokenTransferEvent BlockchainTransaction TokenTransfer string int string
  | SpaceReviewEvent SpaceReviewAction int "string option" string
  | UserBlockchainTransactionEvent BlockchainTransaction
  | UserReceivedBlockchainTransactionEvent ReceivedBlockchainTransaction
  | UnpinEvent string string

definition kind_of :: "TimelineEvent_OneOf \<Rightarrow> RiverTimelineEvent" where
  "kind_of c =
     (case c of
        ChannelCreateEvent _ _ _ _ \<Rightarrow> RtChannelCreate
      | ChannelMessageEncryptedEvent _ \<Rightarrow> RtChannelMessageEncrypted
      | ChannelMessageEncryptedRefEvent _ \<Rightarrow> RtChannelMessageEncryptedWithRef
      | ChannelMessageContent _ \<Rightarrow> RtChannelMessage
      | ChannelMessageMissingEvent _ \<Rightarrow> RtChannelMessageMissing
      | ChannelPropertiesEvent _ \<Rightarrow> RtChannelProperties
      | EncryptedChannelPropertiesEvent _ \<Rightarrow> RtEncryptedChannelProperties
      | FulfillmentEvent _ _ _ _ \<Rightarrow> RtFulfillment
      | InceptionEvent _ _ _ \<Rightarrow> RtInception
      | KeySolicitationEvent _ _ _ \<Rightarrow> RtKeySolicitation
      | MiniblockHeaderEvent _ _ \<Rightarrow> RtMiniblockHeader
      | MemberBlockchainTransactionEvent _ _ \<Rightarrow> RtMemberBlockchainTransaction
      | PinEvent _ _ \<Rightarrow> RtPin
      | ReactionEvent _ _ \<Rightarrow> RtReaction
      | RedactedEvent _ \<Rightarrow> RtRedactedEvent
      | RedactionActionEvent _ _ \<Rightarrow> RtRedactionActionEvent
      | StreamEncryptionAlgorithmEvent _ \<Rightarrow> RtStreamEncryptionAlgorithm
      | StreamMembershipEvent _ _ _ _ _ \<Rightarrow> RtStreamMembership
      | SpaceDisplayNameEvent _ _ \<Rightarrow> RtSpaceDisplayName
      | SpaceEnsAddressEvent _ _ \<Rightarrow> RtSpaceEnsAddress
      | SpaceImageEvent \<Rightarrow> RtSpaceImage
      | SpaceNftEvent _ _ _ _ \<Rightarrow> RtSpaceNft
      | SpaceUpdateAutojoinEvent _ _ \<Rightarrow> RtSpaceUpdateAutojoin
      | SpaceUpdateHideUserJoinLeavesEvent _ _ \<Rightarrow> RtSpaceUpdateHideUserJoinLeaves
      | SpaceUsernameEvent _ _ \<Rightarrow> RtSpaceUsername
      | TipEvent _ _ _ _ _ _ \<Rightarrow> RtTipEvent
      | TokenTransferEvent _ _ _ _ _ \<Rightarrow> RtTokenTransfer
      | SpaceReviewEvent _ _ _ _ \<Rightarrow> RtSpaceReview
      | UserBlockchainTransactionEvent _ \<Rightarrow> RtUserBlockchainTransaction
      | UserReceivedBlockchainTransactionEvent _ \<Rightarrow> RtUserReceivedBlockchainTransaction
      | UnpinEvent _ _ \<Rightarrow> RtUnpin)"

record TimelineEvent =
  tl_eventId :: string
  tl_localEventId :: "string option"
  tl_eventNum :: int
  tl_latestEventId :: string
  tl_latestEventNum :: int
  tl_status :: EventStatus
  tl_createdAtEpochMs :: int
  tl_updatedAtEpochMs :: "int option"
  tl_content :: "TimelineEvent_OneOf option"
  tl_fallbackContent :: string
  tl_isEncrypting :: bool
  tl_isLocalPending :: bool
  tl_isSendFailed :: bool
  tl_confirmedEventNum :: "int option"
  tl_confirmedInBlockNum :: "int option"
  tl_threadParentId :: "string option"
  tl_replyParentId :: "string option"
  tl_reactionParentId :: "string option"
  tl_isMentioned :: bool
  tl_isRedacted :: bool
  tl_senderId :: string
  tl_sessionId :: "string option"

subsection \<open>Getters\<close>

definition getEditsId :: "TimelineEvent_OneOf option \<Rightarrow> string option" where
  "getEditsId content = (case content of Some (ChannelMessageContent m) \<Rightarrow> cme_editsEventId m | _ \<Rightarrow> None)"

definition getRedactsId :: "TimelineEvent_OneOf option \<Rightarrow> string option" where
  "getRedactsId content = (case content of Some (RedactionActionEvent refEventId _) \<Rightarrow> Some refEventId | _ \<Rightarrow> None)"

definition getThreadParentId :: "TimelineEvent_OneOf option \<Rightarrow> string option" where
  "getThreadParentId content =
     (case content of
        Some (ChannelMessageContent m) \<Rightarrow> cme_threadId m
      | Some (TokenTransferEvent _ _ _ _ threadParentId) \<Rightarrow> Some threadParentId
      | _ \<Rightarrow> None)"

definition getReplyParentId :: "TimelineEvent_OneOf option \<Rightarrow> string option" where
  "getReplyParentId content = (case content of Some (ChannelMessageContent m) \<Rightarrow> cme_replyId m | _ \<Rightarrow> None)"

definition getReactionParentId :: "TimelineEvent_OneOf option \<Rightarrow> string option" where
  "getReactionParentId content =
     (case content of Some (ReactionEvent targetEventId _) \<Rightarrow> Some targetEventId | _ \<Rightarrow> None)"

definition getIsMentioned :: "TimelineEvent_OneOf option \<Rightarrow> string \<Rightarrow> bool" where
  "getIsMentioned content userId =
     (case content of
        Some (ChannelMessageContent m) \<Rightarrow>
          find_index (\<lambda>x. toLowerCase (mn_userId x) = toLowerCase userId) (cme_mentions m) \<noteq> None
      | _ \<Rightarrow> False)"

definition isMessageTipEvent :: "TimelineEvent \<Rightarrow> bool" where
  "isMessageTipEvent event =
     (case tl_content event of
        Some (TipEvent transaction _ _ _ _ _) \<Rightarrow>
          (case bt_content transaction of Some (TcTip _) \<Rightarrow> True | _ \<Rightarrow> False)
      | _ \<Rightarrow> False)"

subsection \<open>Attachments and posts\<close>

text \<open>\<open>toTownsContent_ChannelPayload_Message_Post\<close> and \<open>toAttachment\<close> call each other: a post has
  attachments, and an attachment may embed a post. The argument \<open>(eventId, editsEventId)\<close> is
  passed on; a post without content has no message.\<close>

definition toMessageEvent ::
  "string option \<Rightarrow> string option \<Rightarrow> string option \<Rightarrow> string option \<Rightarrow> string \<Rightarrow> Mention list \<Rightarrow>
   ChannelMessageEventContent \<Rightarrow> Attachment list option \<Rightarrow> string option \<Rightarrow> ChannelMessageEvent" where
  "toMessageEvent threadId threadPreview replyId replyPreview body mentions content attachments editsEventId =
     ChannelMessageEvent threadId threadPreview replyId replyPreview body mentions editsEventId content
       attachments"

primrec post_message :: "post \<Rightarrow> string \<Rightarrow> string option \<Rightarrow> ChannelMessageEvent option"
and post_content_message ::
    "post_content \<Rightarrow> string option \<Rightarrow> string option \<Rightarrow> string option \<Rightarrow> string option \<Rightarrow> string \<Rightarrow>
     string option \<Rightarrow> ChannelMessageEvent"
and toAttachment :: "attachment \<Rightarrow> string \<Rightarrow> nat \<Rightarrow> Attachment option" where
  "post_message (Post threadId threadPreview replyId replyPreview content) =
     (\<lambda>eventId editsEventId.
        map_option (\<lambda>f. f threadId threadPreview replyId replyPreview eventId editsEventId)
          (map_option post_content_message content))"
| "post_content_message (PcText body mentions attachments) =
     (\<lambda>threadId threadPreview replyId replyPreview eventId editsEventId.
        toMessageEvent threadId threadPreview replyId replyPreview body mentions MtText
          (Some (List.map_filter (\<lambda>(f, index). f eventId index)
             (zip (map toAttachment attachments) [0..<length attachments]))) editsEventId)"
| "post_content_message (PcImage img) =
     (\<lambda>threadId threadPreview replyId replyPreview eventId editsEventId.
        toMessageEvent threadId threadPreview None None (im_title img) []
          (MtImage (im_info img) (im_thumbnail img)) None editsEventId)"
| "post_content_message (PcGm typeUrl value) =
     (\<lambda>threadId threadPreview replyId replyPreview eventId editsEventId.
        toMessageEvent threadId threadPreview None None typeUrl [] (MtGM value) None editsEventId)"
| "toAttachment (AtImage img) =
     (\<lambda>parentEventId index.
        map_option (\<lambda>info. ImageAttachment info (parentEventId @ ''-'' @ nat_toString index)) (im_info img))"
| "toAttachment (AtEmbeddedMedia media) =
     (\<lambda>parentEventId index.
        map_option (\<lambda>info. EmbeddedMediaAttachment info (em_content media)
            (parentEventId @ ''-'' @ nat_toString index)) (em_info media))"
| "toAttachment (AtChunkedMedia media) =
     (\<lambda>parentEventId index.
        case (ck_info media, ck_aesgcm media) of
          (Some info, Some encryption) \<Rightarrow>
            Some (ChunkedMediaAttachment (ck_streamId media) encryption info
              (parentEventId @ ''-'' @ nat_toString index)
              (case ck_thumbnail media of
                 None \<Rightarrow> None
               | Some thumbnail \<Rightarrow> map_option (\<lambda>i. (em_content thumbnail, i)) (em_info thumbnail)))
        | _ \<Rightarrow> None)"
| "toAttachment (AtEmbeddedMessage url post info staticInfo) =
     (\<lambda>parentEventId index.
        case (post, map_option post_message post, info) of
          (Some p, Some message, Some i) \<Rightarrow>
            map_option (\<lambda>channelMessageEvent.
                EmbeddedMessageAttachment url (Some p) (Some channelMessageEvent) i staticInfo
                  (parentEventId @ ''-'' @ nat_toString index))
              (message (emi_messageId i) None)
        | _ \<Rightarrow> None)"
| "toAttachment (AtUnfurledUrl u) =
     (\<lambda>parentEventId index. Some (UnfurledLinkAttachment (uu_url u) (uu_description u) (uu_title u)
        (uu_image u) (parentEventId @ ''-'' @ nat_toString index)))"
| "toAttachment (AtTicker t) =
     (\<lambda>parentEventId index. Some (TickerAttachment (parentEventId @ ''-'' @ nat_toString index)
        (tk_address t) (tk_chainId t)))"
| "toAttachment AtUndefined = (\<lambda>parentEventId index. None)"

subsection \<open>Contents\<close>

datatype TownsContentResult = SuccessResult TimelineEvent_OneOf | ErrorResult string

definition toTownsContent_ChannelPayload_Message_Post ::
  "post \<Rightarrow> string \<Rightarrow> string option \<Rightarrow> string \<Rightarrow> TownsContentResult" where
  "toTownsContent_ChannelPayload_Message_Post value eventId editsEventId description =
     (case post_message value eventId editsEventId of
        Some m \<Rightarrow> SuccessResult (ChannelMessageContent m)
      | None \<Rightarrow> ErrorResult (''Undefined payload case: '' @ description))"

definition toTownsContent_FromChannelMessage ::
  "ChannelMessage \<Rightarrow> string \<Rightarrow> string \<Rightarrow> TownsContentResult" where
  "toTownsContent_FromChannelMessage channelMessage description eventId =
     (case channelMessage of
        Some (CmPost post) \<Rightarrow> toTownsContent_ChannelPayload_Message_Post post eventId None description
      | Some (CmReaction refEventId reaction) \<Rightarrow> SuccessResult (ReactionEvent refEventId reaction)
      | Some (CmRedaction refEventId reason) \<Rightarrow> SuccessResult (RedactionActionEvent refEventId False)
      | Some (CmEdit refEventId post) \<Rightarrow>
          (case post of
             None \<Rightarrow> ErrorResult (description @ '' no post in edit'')
           | Some newPost \<Rightarrow>
               toTownsContent_ChannelPayload_Message_Post newPost eventId (Some refEventId) description)
      | None \<Rightarrow> ErrorResult (''Undefined payload case: '' @ description))"

definition toTownsContent_ChannelPayload_Message ::
  "StreamTimelineEvent \<Rightarrow> EncryptedData \<Rightarrow> TownsContentResult" where
  "toTownsContent_ChannelPayload_Message timelineEvent data =
     (case truthy_str (ed_refEventId data) of
        Some refEventId \<Rightarrow> SuccessResult (ChannelMessageEncryptedRefEvent refEventId)
      | None \<Rightarrow> SuccessResult (ChannelMessageEncryptedEvent (se_decryptedContentError timelineEvent)))"

definition toTownsContent_ChannelPayload_ChannelProperties ::
  "StreamTimelineEvent \<Rightarrow> TownsContentResult" where
  "toTownsContent_ChannelPayload_ChannelProperties timelineEvent =
     (case se_decryptedContent timelineEvent of
        Some (DcChannelProperties properties) \<Rightarrow> SuccessResult (ChannelPropertiesEvent properties)
      | _ \<Rightarrow> SuccessResult (EncryptedChannelPropertiesEvent (se_decryptedContentError timelineEvent)))"

text \<open>The contents that channel, direct message and group chat payloads share: \<open>payload_case\<close> is the
  name of the payload.\<close>

datatype channel_content =
    CpInception | CpMessage EncryptedData | CpChannelProperties | CpRedaction bytes

definition toTownsContent_ChannelPayload ::
  "'a externs_scheme \<Rightarrow> string \<Rightarrow> StreamTimelineEvent \<Rightarrow> ParsedEvent \<Rightarrow> string \<Rightarrow> channel_content option \<Rightarrow>
   string \<Rightarrow> TownsContentResult" where
  "toTownsContent_ChannelPayload E eventId timelineEvent message payload_case content description =
     (case content of
        Some CpInception \<Rightarrow>
          SuccessResult (InceptionEvent (pe_creatorUserId message) (Some payload_case) None)
      | Some (CpMessage data) \<Rightarrow>
          (case se_decryptedContent timelineEvent of
             Some (DcChannelMessage m) \<Rightarrow> toTownsContent_FromChannelMessage m description eventId
           | _ \<Rightarrow> toTownsContent_ChannelPayload_Message timelineEvent data)
      | Some CpChannelProperties \<Rightarrow> toTownsContent_ChannelPayload_ChannelProperties timelineEvent
      | Some (CpRedaction redactedId) \<Rightarrow>
          SuccessResult (RedactionActionEvent (bin_toHexString E redactedId) True)
      | None \<Rightarrow> ErrorResult (''Undefined payload case: '' @ description))"

definition toMembership :: "MembershipOp option \<Rightarrow> exn + MembershipName" where
  "toMembership membershipOp =
     (case membershipOp of
        Some SO_JOIN \<Rightarrow> Inr MemJoin
      | Some SO_INVITE \<Rightarrow> Inr MemInvite
      | Some SO_LEAVE \<Rightarrow> Inr MemLeave
      | Some SO_UNSPECIFIED \<Rightarrow> Inr MemNone
      | None \<Rightarrow> Inr MemNone
      | Some (SO_UNKNOWN _) \<Rightarrow> Inl (throwWithCode (Some INTERNAL_ERROR_SWITCH)))"

abbreviation userId_of :: "'a externs_scheme \<Rightarrow> bytes \<Rightarrow> exn + string" where
  "userId_of E address \<equiv> of_option LibError (userIdFromAddress E address)"

definition toTownsContent_UserPayload ::
  "'a externs_scheme \<Rightarrow> ParsedEvent \<Rightarrow> UserPayload_content option \<Rightarrow> string \<Rightarrow> exn + TownsContentResult" where
  "toTownsContent_UserPayload E message content description =
     (case content of
        Some (UsInception _) \<Rightarrow>
          Inr (SuccessResult (InceptionEvent (pe_creatorUserId message) (Some ''userPayload'') None))
      | Some (UsUserMembership m) \<Rightarrow>
          bindE (toMembership (Some (um_op m))) (\<lambda>membership.
          Inr (SuccessResult (StreamMembershipEvent [] [] membership None
            (Some (streamIdFromBytes E (um_streamId m))))))
      | Some (UsUserMembershipAction a) \<Rightarrow>
          bindE (userId_of E (ma_userId a)) (\<lambda>userId.
          bindE (toMembership (Some (ma_op a))) (\<lambda>membership.
          Inr (SuccessResult (StreamMembershipEvent userId (pe_creatorUserId message) membership None None))))
      | Some (UsBlockchainTransaction t) \<Rightarrow> Inr (SuccessResult (UserBlockchainTransactionEvent t))
      | Some (UsReceivedBlockchainTransaction t) \<Rightarrow>
          Inr (SuccessResult (UserReceivedBlockchainTransactionEvent t))
      | None \<Rightarrow> Inr (ErrorResult (''Undefined payload case: '' @ description)))"

definition toTownsContent_SpacePayload ::
  "'a externs_scheme \<Rightarrow> ParsedEvent \<Rightarrow> SpacePayload_content option \<Rightarrow> string \<Rightarrow> TownsContentResult" where
  "toTownsContent_SpacePayload E message content description =
     (case content of
        Some (SpInception _) \<Rightarrow>
          SuccessResult (InceptionEvent (pe_creatorUserId message) (Some ''spacePayload'') None)
      | Some (SpChannel c) \<Rightarrow>
          SuccessResult (ChannelCreateEvent (pe_creatorUserId message)
            (streamIdAsString E (Bytes (cu_channelId c))) (cu_op c) (cu_settings c))
      | Some (SpUpdateChannelAutojoin u) \<Rightarrow>
          SuccessResult (SpaceUpdateAutojoinEvent (streamIdAsString E (Bytes (ua_channelId u))) (ua_autojoin u))
      | Some (SpUpdateChannelHideUserJoinLeaveEvents u) \<Rightarrow>
          SuccessResult (SpaceUpdateHideUserJoinLeavesEvent (streamIdAsString E (Bytes (uh_channelId u)))
            (uh_hideUserJoinLeaveEvents u))
      | Some (SpSpaceImage _) \<Rightarrow> SuccessResult SpaceImageEvent
      | None \<Rightarrow> ErrorResult (''Undefined payload case: '' @ description))"

definition toTownsContent_MiniblockHeader :: "miniblock_header \<Rightarrow> TownsContentResult" where
  "toTownsContent_MiniblockHeader value =
     SuccessResult (MiniblockHeaderEvent (mh_miniblockNum value)
       (mh_snapshot value \<noteq> None \<or> mh_snapshotHash value \<noteq> None))"

definition decrypted_text :: "StreamTimelineEvent \<Rightarrow> EncryptedData \<Rightarrow> string" where
  "decrypted_text event data =
     (case se_decryptedContent event of Some (DcText t) \<Rightarrow> t | _ \<Rightarrow> ed_ciphertext data)"

definition toTownsContent_MemberTransaction ::
  "'a protocol_externs_scheme \<Rightarrow> StreamTimelineEvent \<Rightarrow> MemberBlockchainTransaction \<Rightarrow> string \<Rightarrow>
   exn + TownsContentResult" where
  "toTownsContent_MemberTransaction E event value description =
     (case mbt_transaction value of
        None \<Rightarrow> Inr (ErrorResult (description @ '' no transaction''))
      | Some transaction \<Rightarrow>
          (case bt_content transaction of
             Some (TcTip tipContent) \<Rightarrow>
               (case bt_receipt transaction of
                  None \<Rightarrow> Inr (ErrorResult (description @ '' no transactionHash''))
                | Some receipt \<Rightarrow>
                    (case tip_event tipContent of
                       None \<Rightarrow> Inr (ErrorResult (description @ '' no event in tip''))
                     | Some tipEvent \<Rightarrow>
                         bindE (userId_of E (mbt_fromUserAddress value)) (\<lambda>fromUserId.
                         bindE (userId_of E (tip_toUserAddress tipContent)) (\<lambda>toUserId.
                         Inr (SuccessResult (TipEvent transaction tipContent
                           (bin_toHexString E (rc_transactionHash receipt)) fromUserId
                           (bin_toHexString E (te_messageId tipEvent)) toUserId))))))
           | Some (TcSpaceReview reviewContent) \<Rightarrow>
               (case bt_receipt transaction of
                  None \<Rightarrow> Inr (ErrorResult (description @ '' no receipt''))
                | Some receipt \<Rightarrow>
                    (case sv_event reviewContent of
                       None \<Rightarrow> Inr (ErrorResult (description @ '' no event in space review''))
                     | Some (user, _) \<Rightarrow>
                         let review = getSpaceReviewEventDataBin E (rc_logs receipt) user
                         in bindE (userId_of E (mbt_fromUserAddress value)) (\<lambda>fromUserId.
                            Inr (SuccessResult (SpaceReviewEvent (sv_action reviewContent)
                              (rv_rating review) (rv_comment review) fromUserId)))))
           | Some (TcTokenTransfer transferContent) \<Rightarrow>
               bindE (userId_of E (mbt_fromUserAddress value)) (\<lambda>fromUserId.
               Inr (SuccessResult (TokenTransferEvent transaction transferContent fromUserId
                 (se_createdAtEpochMs event) (bin_toHexString E (tt_messageId transferContent)))))
           | None \<Rightarrow>
               Inr (SuccessResult (MemberBlockchainTransactionEvent (mbt_transaction value)
                 (bin_toHexString E (mbt_fromUserAddress value))))))"

definition toTownsContent_MemberPayload ::
  "'a protocol_externs_scheme \<Rightarrow> StreamTimelineEvent \<Rightarrow> ParsedEvent \<Rightarrow> member_content option \<Rightarrow> string \<Rightarrow>
   exn + TownsContentResult" where
  "toTownsContent_MemberPayload E event message content description =
     (let creator = pe_creatorUserId message
      in case content of
        Some (McMembership m) \<Rightarrow>
          bindE (userId_of E (ms_userAddress m)) (\<lambda>userId.
          bindE (userId_of E (ms_initiatorAddress m)) (\<lambda>initiatorId.
          bindE (toMembership (Some (ms_op m))) (\<lambda>membership.
          Inr (SuccessResult (StreamMembershipEvent userId initiatorId membership (Some (ms_reason m)) None)))))
      | Some (McKeySolicitation k) \<Rightarrow>
          Inr (SuccessResult (KeySolicitationEvent (ks_sessionIds k) (ks_deviceKey k) (ks_isNewDevice k)))
      | Some (McKeyFulfillment k) \<Rightarrow>
          bindE (userId_of E (kf_userAddress k)) (\<lambda>to.
          Inr (SuccessResult (FulfillmentEvent (kf_sessionIds k) (kf_deviceKey k) to creator)))
      | Some (McDisplayName d) \<Rightarrow> Inr (SuccessResult (SpaceDisplayNameEvent creator (decrypted_text event d)))
      | Some (McUsername d) \<Rightarrow> Inr (SuccessResult (SpaceUsernameEvent creator (decrypted_text event d)))
      | Some (McEnsAddress a) \<Rightarrow> Inr (SuccessResult (SpaceEnsAddressEvent creator a))
      | Some (McNft n) \<Rightarrow>
          Inr (SuccessResult (SpaceNftEvent creator (bin_toHexString E (nft_contractAddress n))
            (bin_toHexString E (nft_tokenId n)) (nft_chainId n)))
      | Some (McPin p) \<Rightarrow> Inr (SuccessResult (PinEvent creator (bin_toHexString E (pm_eventId p))))
      | Some (McUnpin eventId) \<Rightarrow> Inr (SuccessResult (UnpinEvent creator (bin_toHexString E eventId)))
      | Some (McMemberBlockchainTransaction t) \<Rightarrow> toTownsContent_MemberTransaction E event t description
      | Some (McEncryptionAlgorithm _) \<Rightarrow>
          Inr (ErrorResult (''Encryption Algorithm not supported: '' @ description))
      | None \<Rightarrow> Inr (ErrorResult (''Undefined payload case: '' @ description)))"

subsection \<open>Case names\<close>

definition member_case :: "member_content \<Rightarrow> string" where
  "member_case c =
     (case c of
        McMembership _ \<Rightarrow> ''membership''
      | McKeySolicitation _ \<Rightarrow> ''keySolicitation''
      | McKeyFulfillment _ \<Rightarrow> ''keyFulfillment''
      | McUsername _ \<Rightarrow> ''username''
      | McDisplayName _ \<Rightarrow> ''displayName''
      | McEnsAddress _ \<Rightarrow> ''ensAddress''
      | McNft _ \<Rightarrow> ''nft''
      | McPin _ \<Rightarrow> ''pin''
      | McUnpin _ \<Rightarrow> ''unpin''
      | McMemberBlockchainTransaction _ \<Rightarrow> ''memberBlockchainTransaction''
      | McEncryptionAlgorithm _ \<Rightarrow> ''encryptionAlgorithm'')"

definition space_case :: "SpacePayload_content \<Rightarrow> string" where
  "space_case c =
     (case c of
        SpInception _ \<Rightarrow> ''inception''
      | SpChannel _ \<Rightarrow> ''channel''
      | SpSpaceImage _ \<Rightarrow> ''spaceImage''
      | SpUpdateChannelAutojoin _ \<Rightarrow> ''updateChannelAutojoin''
      | SpUpdateChannelHideUserJoinLeaveEvents _ \<Rightarrow> ''updateChannelHideUserJoinLeaveEvents'')"

definition user_case :: "UserPayload_content \<Rightarrow> string" where
  "user_case c =
     (case c of
        UsInception _ \<Rightarrow> ''inception''
      | UsUserMembership _ \<Rightarrow> ''userMembership''
      | UsUserMembershipAction _ \<Rightarrow> ''userMembershipAction''
      | UsBlockchainTransaction _ \<Rightarrow> ''blockchainTransaction''
      | UsReceivedBlockchainTransaction _ \<Rightarrow> ''receivedBlockchainTransaction'')"

text \<open>The case names of a payload and, when it has one, of its content.\<close>

definition payload_cases :: "payload \<Rightarrow> string \<times> string option" where
  "payload_cases p =
     (case p of
        PlMiniblockHeader h \<Rightarrow> (''miniblockHeader'', map_option (\<lambda>_. ''none'') (mh_content h))
      | PlMember c \<Rightarrow> (''memberPayload'', map_option member_case c)
      | PlSpace c \<Rightarrow> (''spacePayload'', map_option space_case c)
      | PlChannel c \<Rightarrow>
          (''channelPayload'', map_option (\<lambda>c. case c of ChInception _ \<Rightarrow> ''inception''
             | ChMessage _ \<Rightarrow> ''message'' | ChRedaction _ \<Rightarrow> ''redaction'') c)
      | PlUser c \<Rightarrow> (''userPayload'', map_option user_case c)
      | PlUserSettings c \<Rightarrow>
          (''userSettingsPayload'', map_option (\<lambda>c. case c of SeInception _ \<Rightarrow> ''inception''
             | SeFullyReadMarkers _ \<Rightarrow> ''fullyReadMarkers'' | SeUserBlock _ \<Rightarrow> ''userBlock'') c)
      | PlUserMetadata c \<Rightarrow>
          (''userMetadataPayload'', map_option (\<lambda>c. case c of MdInception _ \<Rightarrow> ''inception''
             | MdEncryptionDevice _ \<Rightarrow> ''encryptionDevice'' | MdProfileImage _ \<Rightarrow> ''profileImage''
             | MdBio _ \<Rightarrow> ''bio'') c)
      | PlUserInbox c \<Rightarrow>
          (''userInboxPayload'', map_option (\<lambda>c. case c of InInception _ \<Rightarrow> ''inception''
             | InAck _ \<Rightarrow> ''ack'' | InGroupEncryptionSessions _ \<Rightarrow> ''groupEncryptionSessions'') c)
      | PlMedia c \<Rightarrow>
          (''mediaPayload'', map_option (\<lambda>c. case c of MedInception _ \<Rightarrow> ''inception''
             | MedChunk _ \<Rightarrow> ''chunk'') c)
      | PlDmChannel c \<Rightarrow>
          (''dmChannelPayload'', map_option (\<lambda>c. case c of DmIncept _ \<Rightarrow> ''inception''
             | DmMessage _ \<Rightarrow> ''message'') c)
      | PlGdmChannel c \<Rightarrow>
          (''gdmChannelPayload'', map_option (\<lambda>c. case c of GdmIncept _ \<Rightarrow> ''inception''
             | GdmMessage _ \<Rightarrow> ''message'' | GdmChannelProperties _ \<Rightarrow> ''channelProperties'') c)
      | PlMetadata c \<Rightarrow> (''metadataPayload'', map_option (\<lambda>_. ''unknown'') c))"

definition transaction_case :: "TransactionContent \<Rightarrow> string" where
  "transaction_case c =
     (case c of TcTip _ \<Rightarrow> ''tip'' | TcTokenTransfer _ \<Rightarrow> ''tokenTransfer'' | TcSpaceReview _ \<Rightarrow> ''spaceReview'')"

subsection \<open>The content of a stream event\<close>

text \<open>\<open>validateEvent\<close>: an error, or the description of the event.\<close>

definition validateEvent :: "string \<Rightarrow> ParsedEvent \<Rightarrow> string + string" where
  "validateEvent eventId message =
     (case ev_payload (pe_event message) of
        None \<Rightarrow> Inl ''payloadless payload''
      | Some p \<Rightarrow>
          (case payload_cases p of
             (payloadCase, None) \<Rightarrow> Inl (payloadCase @ '' - caseless payload content'')
           | (payloadCase, Some contentCase) \<Rightarrow>
               Inr (payloadCase @ ''::'' @ contentCase @ '' id: '' @ eventId)))"

definition channel_content_of :: "ChannelPayload_content \<Rightarrow> channel_content" where
  "channel_content_of c =
     (case c of ChInception _ \<Rightarrow> CpInception | ChMessage d \<Rightarrow> CpMessage d | ChRedaction e \<Rightarrow> CpRedaction e)"

definition dm_content_of :: "DmChannelPayload_content \<Rightarrow> channel_content" where
  "dm_content_of c = (case c of DmIncept _ \<Rightarrow> CpInception | DmMessage d \<Rightarrow> CpMessage d)"

definition gdm_content_of :: "GdmChannelPayload_content \<Rightarrow> channel_content" where
  "gdm_content_of c =
     (case c of GdmIncept _ \<Rightarrow> CpInception | GdmMessage d \<Rightarrow> CpMessage d
      | GdmChannelProperties _ \<Rightarrow> CpChannelProperties)"

definition toTownsContent_fromParsedEvent ::
  "'a protocol_externs_scheme \<Rightarrow> string \<Rightarrow> StreamTimelineEvent \<Rightarrow> ParsedEvent \<Rightarrow> exn + TownsContentResult" where
  "toTownsContent_fromParsedEvent E eventId timelineEvent message =
     (case validateEvent eventId message of
        Inl error \<Rightarrow> Inr (ErrorResult error)
      | Inr description \<Rightarrow>
          (case ev_payload (pe_event message) of
             Some (PlUser c) \<Rightarrow> toTownsContent_UserPayload E message c description
           | Some (PlChannel c) \<Rightarrow>
               Inr (toTownsContent_ChannelPayload E eventId timelineEvent message ''channelPayload''
                 (map_option channel_content_of c) description)
           | Some (PlDmChannel c) \<Rightarrow>
               Inr (toTownsContent_ChannelPayload E eventId timelineEvent message ''dmChannelPayload''
                 (map_option dm_content_of c) description)
           | Some (PlGdmChannel c) \<Rightarrow>
               Inr (toTownsContent_ChannelPayload E eventId timelineEvent message ''gdmChannelPayload''
                 (map_option gdm_content_of c) description)
           | Some (PlSpace c) \<Rightarrow> Inr (toTownsContent_SpacePayload E message c description)
           | Some (PlUserMetadata _) \<Rightarrow> Inr (ErrorResult (description @ '' userMetadataPayload not implemented''))
           | Some (PlUserSettings _) \<Rightarrow> Inr (ErrorResult (description @ '' userSettingsPayload not implemented''))
           | Some (PlUserInbox _) \<Rightarrow> Inr (ErrorResult (description @ '' userInboxPayload not implemented''))
           | Some (PlMiniblockHeader h) \<Rightarrow> Inr (toTownsContent_MiniblockHeader h)
           | Some (PlMedia _) \<Rightarrow> Inr (ErrorResult (description @ '' mediaPayload not supported?''))
           | Some (PlMember c) \<Rightarrow> toTownsContent_MemberPayload E timelineEvent message c description
           | Some (PlMetadata _) \<Rightarrow>
               Inr (ErrorResult (description @ '' metadataPayload not supported for timeline events''))
           | None \<Rightarrow> Inr (ErrorResult (''Undefined payload case: '' @ description))))"

definition toTownsContent ::
  "'a protocol_externs_scheme \<Rightarrow> StreamTimelineEvent \<Rightarrow> exn + TownsContentResult" where
  "toTownsContent E timelineEvent =
     (case (se_localEvent timelineEvent, se_remoteEvent timelineEvent) of
        (Some localEvent, _) \<Rightarrow>
          Inr (toTownsContent_FromChannelMessage (le_channelMessage localEvent) ''local event''
            (se_hashStr timelineEvent))
      | (None, Some message) \<Rightarrow>
          toTownsContent_fromParsedEvent E (se_hashStr timelineEvent) timelineEvent message
      | (None, None) \<Rightarrow> Inr (ErrorResult ''unknown event content type''))"

subsection \<open>Fallback texts\<close>

definition membership_name :: "MembershipName \<Rightarrow> string" where
  "membership_name m =
     (case m of MemJoin \<Rightarrow> ''join'' | MemInvite \<Rightarrow> ''invite'' | MemLeave \<Rightarrow> ''leave'' | MemNone \<Rightarrow> [])"

definition bool_toString :: "bool \<Rightarrow> string" where
  "bool_toString b = (if b then ''true'' else ''false'')"

definition reason_num :: "MembershipReason \<Rightarrow> nat" where
  "reason_num r = (case r of MR_NONE \<Rightarrow> 0 | MR_NOT_ENTITLED \<Rightarrow> 1 | MR_EXPIRED \<Rightarrow> 2 | MR_UNKNOWN n \<Rightarrow> n)"

definition getFallbackContent_BlockchainTransaction ::
  "'a externs_scheme \<Rightarrow> BlockchainTransaction option \<Rightarrow> string" where
  "getFallbackContent_BlockchainTransaction E transaction =
     (case transaction of
        None \<Rightarrow> ''??''
      | Some t \<Rightarrow>
          (case bt_content t of
             Some (TcTip tip) \<Rightarrow>
               (case tip_event tip of
                  None \<Rightarrow> ''??''
                | Some e \<Rightarrow>
                    ''kind: tip messageId: '' @ bin_toHexString E (te_messageId e) @ '' receiver: ''
                      @ bin_toHexString E (te_receiver e) @ '' amount: '' @ int_toString (te_amount e))
           | Some c \<Rightarrow> ''kind: '' @ transaction_case c
           | None \<Rightarrow> ''kind: unspecified''))"

definition getFallbackContent_OneOf ::
  "'a externs_scheme \<Rightarrow> string \<Rightarrow> TimelineEvent_OneOf \<Rightarrow> string" where
  "getFallbackContent_OneOf E senderDisplayName content =
     (case content of
        MiniblockHeaderEvent miniblockNum hasSnapshot \<Rightarrow>
          ''Miniblock miniblockNum:'' @ int_toString miniblockNum @ '', hasSnapshot:'' @ bool_toString hasSnapshot
      | ReactionEvent targetEventId reaction \<Rightarrow>
          senderDisplayName @ '' reacted with '' @ reaction @ '' to '' @ targetEventId
      | InceptionEvent _ type _ \<Rightarrow> (case truthy_str type of Some t \<Rightarrow> ''type: '' @ t | None \<Rightarrow> [])
      | ChannelMessageEncryptedEvent _ \<Rightarrow> ''Decrypting...''
      | StreamMembershipEvent userId initiatorId membership reason _ \<Rightarrow>
          ''['' @ membership_name membership @ ''] userId: '' @ userId @ '' initiatorId: '' @ initiatorId
            @ (case reason of
                 Some r \<Rightarrow> if reason_num r \<noteq> 0 then '' reason: '' @ nat_toString (reason_num r) else []
               | None \<Rightarrow> [])
      | ChannelMessageContent m \<Rightarrow> senderDisplayName @ '': '' @ cme_body m
      | ChannelPropertiesEvent p \<Rightarrow> ''properties: '' @ cp_name p @ '' '' @ cp_topic p
      | EncryptedChannelPropertiesEvent _ \<Rightarrow> ''Decrypting Channel Properties...''
      | SpaceUsernameEvent _ username \<Rightarrow> ''username: '' @ username
      | SpaceDisplayNameEvent _ displayName \<Rightarrow> ''username: '' @ displayName
      | SpaceEnsAddressEvent _ ensAddress \<Rightarrow> ''ensAddress: '' @ bin_toHexString E ensAddress
      | SpaceNftEvent _ contractAddress tokenId chainId \<Rightarrow>
          ''contractAddress: '' @ contractAddress @ '', tokenId: '' @ tokenId @ '', chainId: '' @ int_toString chainId
      | RedactedEvent _ \<Rightarrow> ''~Redacted~''
      | RedactionActionEvent refEventId adminRedaction \<Rightarrow>
          ''Redacts '' @ refEventId @ '' adminRedaction: '' @ bool_toString adminRedaction
      | ChannelCreateEvent _ channelId _ channelSettings \<Rightarrow>
          ''channelId: '' @ channelId
            @ (case channelSettings of
                 Some s \<Rightarrow> '' autojoin: '' @ bool_toString (cs_autojoin s) @ '' hideUserJoinLeaves: ''
                             @ bool_toString (cs_hideUserJoinLeaveEvents s)
               | None \<Rightarrow> [])
      | SpaceUpdateAutojoinEvent channelId autojoin \<Rightarrow>
          ''channelId: '' @ channelId @ '' autojoin: '' @ bool_toString autojoin
      | SpaceUpdateHideUserJoinLeavesEvent channelId hideUserJoinLeaves \<Rightarrow>
          ''channelId: '' @ channelId @ '' hideUserJoinLeaves: '' @ bool_toString hideUserJoinLeaves
      | SpaceImageEvent \<Rightarrow> ''SpaceImage''
      | FulfillmentEvent sessionIds deviceKey to from \<Rightarrow>
          ''Fulfillment from: '' @ from @ '' to: '' @ deviceKey @ '' count: '' @ nat_toString (length sessionIds)
            @ '' sessionIds: '' @ (if sessionIds \<noteq> [] then join '','' sessionIds else ''forNewDevice: true'')
      | KeySolicitationEvent sessionIds deviceKey isNewDevice \<Rightarrow>
          ''KeySolicitation deviceKey: '' @ deviceKey @ '' sessionIds: '' @ nat_toString (length sessionIds)
            @ '' isNewDevice: '' @ bool_toString isNewDevice
      | ChannelMessageMissingEvent eventId \<Rightarrow> ''eventId: '' @ eventId
      | ChannelMessageEncryptedRefEvent refEventId \<Rightarrow> ''refEventId: '' @ refEventId
      | PinEvent userId pinnedEventId \<Rightarrow> ''pinnedEventId: '' @ pinnedEventId @ '' by: '' @ userId
      | UnpinEvent userId unpinnedEventId \<Rightarrow> ''unpinnedEventId: '' @ unpinnedEventId @ '' by: '' @ userId
      | UserBlockchainTransactionEvent t \<Rightarrow> getFallbackContent_BlockchainTransaction E (Some t)
      | MemberBlockchainTransactionEvent t fromUserId \<Rightarrow>
          ''memberTransaction from: '' @ fromUserId @ '' '' @ getFallbackContent_BlockchainTransaction E t
      | TipEvent _ tip _ fromUserId refEventId toUserId \<Rightarrow>
          ''tip from: '' @ fromUserId @ '' to: '' @ toUserId @ '' refEventId: '' @ refEventId @ '' amount: ''
            @ (case tip_event tip of Some e \<Rightarrow> int_toString (te_amount e) | None \<Rightarrow> ''??'')
      | TokenTransferEvent _ transfer fromUserId _ _ \<Rightarrow>
          ''tokenTransfer from: '' @ fromUserId @ '' amount: '' @ tt_amount transfer
      | SpaceReviewEvent _ rating comment fromUserId \<Rightarrow>
          ''spaceReview from: '' @ fromUserId @ '' rating: '' @ int_toString rating @ '' comment: ''
            @ (case comment of Some c \<Rightarrow> c | None \<Rightarrow> ''undefined'')
      | UserReceivedBlockchainTransactionEvent r \<Rightarrow>
          ''kind: ''
            @ (case rbt_transaction r of
                 Some t \<Rightarrow> (case bt_content t of Some c \<Rightarrow> transaction_case c | None \<Rightarrow> ''??'')
               | None \<Rightarrow> ''??'')
            @ '' fromUserAddress: '' @ bin_toHexString E (rbt_fromUserAddress r)
      | StreamEncryptionAlgorithmEvent algorithm \<Rightarrow>
          ''algorithm: '' @ (case algorithm of Some a \<Rightarrow> a | None \<Rightarrow> ''undefined''))"

text \<open>\<open>getFallbackContent\<close> takes a content or an error text, which is never empty; the branch that
  throws when both are missing is not reachable from a \<open>TownsContentResult\<close>.\<close>

definition getFallbackContent ::
  "'a externs_scheme \<Rightarrow> string \<Rightarrow> TownsContentResult \<Rightarrow> string" where
  "getFallbackContent E senderDisplayName result =
     (case result of
        ErrorResult error \<Rightarrow> error
      | SuccessResult content \<Rightarrow> getFallbackContent_OneOf E senderDisplayName content)"

subsection \<open>The timeline event of a stream event\<close>

definition getEventStatus :: "StreamTimelineEvent \<Rightarrow> EventStatus" where
  "getEventStatus timelineEvent =
     (case se_remoteEvent timelineEvent of
        Some _ \<Rightarrow> SENT
      | None \<Rightarrow>
          (case se_localEvent timelineEvent of
             None \<Rightarrow> NOT_SENT
           | Some localEvent \<Rightarrow>
               if starts_with ''~'' (se_hashStr timelineEvent) then ENCRYPTING
               else (case le_status localEvent of Failed \<Rightarrow> NOT_SENT | Sending \<Rightarrow> SENDING | Sent \<Rightarrow> SENT)))"

definition getSenderId :: "'a externs_scheme \<Rightarrow> StreamTimelineEvent \<Rightarrow> exn + string" where
  "getSenderId E timelineEvent =
     (case se_remoteEvent timelineEvent of
        Some r \<Rightarrow>
          (case ev_payload (pe_event r) of
             Some (PlMember (Some (McMemberBlockchainTransaction t))) \<Rightarrow> userId_of E (mbt_fromUserAddress t)
           | _ \<Rightarrow> Inr (se_creatorUserId timelineEvent))
      | None \<Rightarrow> Inr (se_creatorUserId timelineEvent))"

definition extractSessionId :: "'a externs_scheme \<Rightarrow> StreamTimelineEvent \<Rightarrow> string option" where
  "extractSessionId E event =
     (case se_remoteEvent event of
        Some r \<Rightarrow>
          (case ev_payload (pe_event r) of
             Some (PlChannel (Some (ChMessage d))) \<Rightarrow>
               Some (if ed_sessionIdBytes d \<noteq> [] then bin_toHexString E (ed_sessionIdBytes d) else ed_sessionId d)
           | _ \<Rightarrow> None)
      | None \<Rightarrow> None)"

definition content_of :: "TownsContentResult \<Rightarrow> TimelineEvent_OneOf option" where
  "content_of result = (case result of SuccessResult c \<Rightarrow> Some c | ErrorResult _ \<Rightarrow> None)"

definition toEvent ::
  "'a protocol_externs_scheme \<Rightarrow> StreamTimelineEvent \<Rightarrow> string \<Rightarrow> exn + TimelineEvent" where
  "toEvent E timelineEvent userId =
     bindE (getSenderId E timelineEvent) (\<lambda>senderId.
     bindE (toTownsContent E timelineEvent) (\<lambda>result.
       let eventId = se_hashStr timelineEvent;
           content = content_of result;
           isSender = (senderId = userId);
           fbc = (case content of Some c \<Rightarrow> kind_name (kind_of c) | None \<Rightarrow> ''??'') @ '' ''
                   @ getFallbackContent E senderId result
       in Inr \<lparr>tl_eventId = eventId,
               tl_localEventId = map_option le_localId (se_localEvent timelineEvent),
               tl_eventNum = se_eventNum timelineEvent,
               tl_latestEventId = eventId,
               tl_latestEventNum = se_eventNum timelineEvent,
               tl_status = (if isSender then getEventStatus timelineEvent else RECEIVED),
               tl_createdAtEpochMs = se_createdAtEpochMs timelineEvent,
               tl_updatedAtEpochMs = None,
               tl_content = content,
               tl_fallbackContent = fbc,
               tl_isEncrypting = starts_with ''~'' eventId,
               tl_isLocalPending = (se_remoteEvent timelineEvent = None),
               tl_isSendFailed =
                 (case se_localEvent timelineEvent of Some l \<Rightarrow> le_status l = Failed | None \<Rightarrow> False),
               tl_confirmedEventNum = se_confirmedEventNum timelineEvent,
               tl_confirmedInBlockNum = se_miniblockNum timelineEvent,
               tl_threadParentId = getThreadParentId content,
               tl_replyParentId = getReplyParentId content,
               tl_reactionParentId = getReactionParentId content,
               tl_isMentioned = getIsMentioned content userId,
               tl_isRedacted = False,
               tl_senderId = senderId,
               tl_sessionId = extractSessionId E timelineEvent\<rparr>))"

subsection \<open>Decrypted events\<close>

definition toDecryptedEvent :: "TimelineEvent \<Rightarrow> DecryptedContent \<Rightarrow> string \<Rightarrow> TimelineEvent" where
  "toDecryptedEvent event decryptedContent userId =
     (let message = \<lambda>channelMessage.
            (case toTownsContent_FromChannelMessage channelMessage
                    (''ChannelMessage: '' @ tl_eventId event) (tl_eventId event) of
               ErrorResult _ \<Rightarrow> event
             | SuccessResult c \<Rightarrow>
                 event\<lparr>tl_content := Some c,
                       tl_threadParentId := getThreadParentId (Some c),
                       tl_replyParentId := getReplyParentId (Some c),
                       tl_reactionParentId := getReactionParentId (Some c),
                       tl_isMentioned := getIsMentioned (Some c) userId\<rparr>)
      in case (tl_content event, decryptedContent) of
           (Some (ChannelMessageEncryptedEvent _), DcChannelMessage m) \<Rightarrow> message m
         | (Some (ChannelMessageEncryptedRefEvent _), DcChannelMessage m) \<Rightarrow> message m
         | (Some (SpaceDisplayNameEvent user _), DcText t) \<Rightarrow>
             event\<lparr>tl_content := Some (SpaceDisplayNameEvent user t)\<rparr>
         | (Some (SpaceUsernameEvent user _), DcText t) \<Rightarrow>
             event\<lparr>tl_content := Some (SpaceUsernameEvent user t)\<rparr>
         | (Some (EncryptedChannelPropertiesEvent _), DcChannelProperties p) \<Rightarrow>
             event\<lparr>tl_content := Some (ChannelPropertiesEvent p)\<rparr>
         | _ \<Rightarrow> event)"

text \<open>Whether \<open>toDecryptedContentErrorEvent\<close> gives a new object, and the event it gives.\<close>

definition is_undecrypted :: "TimelineEvent \<Rightarrow> bool" where
  "is_undecrypted event \<longleftrightarrow>
     (case tl_content event of
        Some (ChannelMessageEncryptedEvent _) \<Rightarrow> True
      | Some (EncryptedChannelPropertiesEvent _) \<Rightarrow> True
      | _ \<Rightarrow> False)"

definition toDecryptedContentErrorEvent :: "TimelineEvent \<Rightarrow> DecryptionSessionError \<Rightarrow> TimelineEvent" where
  "toDecryptedContentErrorEvent event error =
     (case tl_content event of
        Some (ChannelMessageEncryptedEvent _) \<Rightarrow>
          event\<lparr>tl_content := Some (ChannelMessageEncryptedEvent (Some error))\<rparr>
      | Some (EncryptedChannelPropertiesEvent _) \<Rightarrow>
          event\<lparr>tl_content := Some (EncryptedChannelPropertiesEvent (Some error))\<rparr>
      | _ \<Rightarrow> event)"

subsection \<open>Sending attachments\<close>

text \<open>\<open>transformAttachments\<close>: the attachments to send. An embedded message without a message event is
  dropped; the post of an embedded message is sent as a text. A missing thumbnail is sent as an
  empty one (the default of the protobuf message).\<close>

primrec transformAttachment :: "Attachment \<Rightarrow> attachment option"
and embedded_post :: "ChannelMessageEvent \<Rightarrow> post" where
  "transformAttachment (ImageAttachment info attachmentId) =
     Some (AtImage \<lparr>im_title = [], im_info = Some info, im_thumbnail = None\<rparr>)"
| "transformAttachment (ChunkedMediaAttachment streamId encryption info attachmentId thumbnail) =
     Some (AtChunkedMedia \<lparr>ck_info = Some info, ck_streamId = streamId,
       ck_thumbnail = Some (case thumbnail of
           Some (content, i) \<Rightarrow> \<lparr>em_info = Some i, em_content = content\<rparr>
         | None \<Rightarrow> \<lparr>em_info = None, em_content = []\<rparr>),
       ck_aesgcm = Some encryption\<rparr>)"
| "transformAttachment (EmbeddedMediaAttachment info content attachmentId) =
     Some (AtEmbeddedMedia \<lparr>em_info = Some info, em_content = content\<rparr>)"
| "transformAttachment (EmbeddedMessageAttachment url post channelMessageEvent info staticInfo attachmentId) =
     map_option (\<lambda>p. AtEmbeddedMessage url (Some p) (Some info) staticInfo)
       (map_option embedded_post channelMessageEvent)"
| "transformAttachment (UnfurledLinkAttachment url description title img attachmentId) =
     Some (AtUnfurledUrl \<lparr>uu_url = url, uu_description = description, uu_title = title, uu_image = img\<rparr>)"
| "transformAttachment (TickerAttachment attachmentId address chainId) =
     Some (AtTicker \<lparr>tk_address = address, tk_chainId = chainId\<rparr>)"
| "embedded_post (ChannelMessageEvent threadId threadPreview replyId replyPreview body mentions editsEventId
     content attachments) =
     Post threadId threadPreview None None
       (Some (PcText body mentions
         (case map_option (map transformAttachment) attachments of
            Some as \<Rightarrow> List.map_filter (\<lambda>a. a) as
          | None \<Rightarrow> [])))"

definition transformAttachments :: "Attachment list option \<Rightarrow> attachment list" where
  "transformAttachments attachments =
     (case attachments of Some as \<Rightarrow> List.map_filter transformAttachment as | None \<Rightarrow> [])"

definition toAttachments :: "attachment list \<Rightarrow> string \<Rightarrow> Attachment list" where
  "toAttachments attachments parentEventId =
     List.map_filter (\<lambda>(a, index). toAttachment a parentEventId index)
       (zip attachments [0..<length attachments])"

lemma post_message_text:
  "post_message (Post threadId threadPreview replyId replyPreview (Some (PcText body mentions attachments)))
     eventId editsEventId =
   Some (ChannelMessageEvent threadId threadPreview replyId replyPreview body mentions editsEventId MtText
     (Some (toAttachments attachments eventId)))"
proof -
  have "zip (map toAttachment attachments) [0..<length attachments] =
      map (\<lambda>(a, i). (toAttachment a, i)) (zip attachments [0..<length attachments])"
    by (simp add: zip_map1)
  then show ?thesis
    by (simp add: toMessageEvent_def toAttachments_def List.map_filter_def filter_map comp_def split_def)
qed

text \<open>An attachment that is not an embedded message, as it comes back under another attachmentId.\<close>

definition with_attachment_id :: "string \<Rightarrow> Attachment \<Rightarrow> Attachment" where
  "with_attachment_id attachmentId a =
     (case a of
        ImageAttachment info _ \<Rightarrow> ImageAttachment info attachmentId
      | ChunkedMediaAttachment streamId encryption info _ thumbnail \<Rightarrow>
          ChunkedMediaAttachment streamId encryption info attachmentId thumbnail
      | EmbeddedMediaAttachment info content _ \<Rightarrow> EmbeddedMediaAttachment info content attachmentId
      | EmbeddedMessageAttachment url post event info staticInfo _ \<Rightarrow>
          EmbeddedMessageAttachment url post event info staticInfo attachmentId
      | UnfurledLinkAttachment url description title img _ \<Rightarrow>
          UnfurledLinkAttachment url description title img attachmentId
      | TickerAttachment _ address chainId \<Rightarrow> TickerAttachment attachmentId address chainId)"

definition is_embedded_message :: "Attachment \<Rightarrow> bool" where
  "is_embedded_message a \<longleftrightarrow> (case a of EmbeddedMessageAttachment _ _ _ _ _ _ \<Rightarrow> True | _ \<Rightarrow> False)"

lemma transformAttachment_roundtrip:
  assumes "\<not> is_embedded_message a"
  obtains t where "transformAttachment a = Some t"
    "\<And>parent i. toAttachment t parent i = Some (with_attachment_id (parent @ ''-'' @ nat_toString i) a)"
  using assms
  by (cases a) (auto simp: is_embedded_message_def with_attachment_id_def split: option.splits)

lemma map_filter_all: "(\<And>x. x \<in> set xs \<Longrightarrow> f x = Some (g x)) \<Longrightarrow> List.map_filter f xs = map g xs"
  by (induction xs) (auto simp: List.map_filter_simps)

lemma transformAttachments_roundtrip:
  assumes "\<forall>a \<in> set as. \<not> is_embedded_message a"
  shows "toAttachments (transformAttachments (Some as)) parent =
    map (\<lambda>(a, i). with_attachment_id (parent @ ''-'' @ nat_toString i) a) (zip as [0..<length as])"
proof -
  let ?t = "\<lambda>a. the (transformAttachment a)"
  have t: "transformAttachment a = Some (?t a)"
    "toAttachment (?t a) parent i = Some (with_attachment_id (parent @ ''-'' @ nat_toString i) a)"
    if "a \<in> set as" for a i
    using transformAttachment_roundtrip[of a] assms that by (metis option.sel)+
  have s: "transformAttachments (Some as) = map ?t as"
    using map_filter_all[of as transformAttachment ?t] t(1) by (simp add: transformAttachments_def)
  show ?thesis
    unfolding s toAttachments_def
    by (simp add: zip_map1 List.map_filter_def filter_map comp_def split_def)
      (subst filter_True; auto simp: t(2) dest: set_zip_leftD)
qed

text \<open>The fields of the event that \<open>toEvent\<close> makes.\<close>

lemma toEvent_fields:
  assumes "toEvent E ev userId = Inr e"
  shows "tl_eventId e = se_hashStr ev" "tl_eventNum e = se_eventNum ev" "tl_latestEventNum e = tl_eventNum e"
    "tl_latestEventId e = tl_eventId e" "tl_confirmedEventNum e = se_confirmedEventNum ev"
    "tl_confirmedInBlockNum e = se_miniblockNum ev" "tl_localEventId e = map_option le_localId (se_localEvent ev)"
    "tl_threadParentId e = getThreadParentId (tl_content e)" "tl_replyParentId e = getReplyParentId (tl_content e)"
    "tl_reactionParentId e = getReactionParentId (tl_content e)" "\<not> tl_isRedacted e"
  using assms by (auto simp: toEvent_def bindE_Inr_iff Let_def)

end
