(* ===== verification/MemberMetadata.thy ===== *)
theory MemberMetadata
  imports StreamEvents
begin

section \<open>Usernames, display names, ENS addresses and NFTs of members\<close>

text \<open>
  \<open>packages/sdk/src/memberMetadata_Usernames.ts\<close>, \<open>memberMetadata_DisplayNames.ts\<close>,
  \<open>memberMetadata_EnsAddresses.ts\<close>, \<open>memberMetadata_Nft.ts\<close> and the class that owns the four,
  \<open>streamStateView_MemberMetadata.ts\<close>: one record per class with the fields of the class, one
  function per method. Logging is dropped.
\<close>

subsection \<open>Usernames\<close>

record username_event =
  une_checksum :: string
  une_userId :: string
  une_pending :: bool

record Usernames =
  un_streamId :: string
  un_plaintextUsernames :: "(string, string) jsmap"
  un_userIdToEventId :: "(string, string) jsmap"
  un_confirmedUserIds :: "string jsset"
  un_usernameEvents :: "(string, username_event) jsmap"
  un_checksums :: "string jsset"

definition new_Usernames :: "string \<Rightarrow> Usernames" where
  "new_Usernames streamId = \<lparr>un_streamId = streamId, un_plaintextUsernames = [],
     un_userIdToEventId = [], un_confirmedUserIds = [], un_usernameEvents = [], un_checksums = []\<rparr>"

definition setLocalUsername :: "string \<Rightarrow> string \<Rightarrow> bool \<Rightarrow> Usernames \<Rightarrow> (Usernames, out) res" where
  "setLocalUsername userId username emitter u =
     ok (u\<lparr>un_plaintextUsernames := map_set userId username (un_plaintextUsernames u)\<rparr>)
        (emit emitter (streamPendingUsernameUpdated (un_streamId u) userId))"

definition resetLocalUsername :: "string \<Rightarrow> bool \<Rightarrow> Usernames \<Rightarrow> (Usernames, out) res" where
  "resetLocalUsername userId emitter u =
     ok (u\<lparr>un_plaintextUsernames := map_delete userId (un_plaintextUsernames u)\<rparr>)
        (emit emitter (streamPendingUsernameUpdated (un_streamId u) userId))"

definition usernameAvailable :: "Usernames \<Rightarrow> string \<Rightarrow> bool" where
  "usernameAvailable u checksum \<longleftrightarrow> checksum \<notin> set (un_checksums u)"

definition cleartextUsernameAvailable :: "'a externs_scheme \<Rightarrow> Usernames \<Rightarrow> string \<Rightarrow> bool" where
  "cleartextUsernameAvailable E u username =
     usernameAvailable u (usernameChecksum E username (un_streamId u))"

definition emitUsernameUpdated :: "string \<Rightarrow> bool \<Rightarrow> Usernames \<Rightarrow> out list" where
  "emitUsernameUpdated eventId emitter u =
     (case map_get (un_usernameEvents u) eventId of
        None \<Rightarrow> []
      | Some event \<Rightarrow>
          if \<not> map_has (un_plaintextUsernames u) (une_userId event) then []
          else emit emitter
            ((if une_pending event then streamPendingUsernameUpdated else streamUsernameUpdated)
               (un_streamId u) (une_userId event)))"

definition removeUsernameEventForUserId :: "string \<Rightarrow> Usernames \<Rightarrow> Usernames" where
  "removeUsernameEventForUserId userId u =
     (case truthy_str (map_get (un_userIdToEventId u) userId) of
        None \<Rightarrow> u
      | Some eventId \<Rightarrow>
          (case map_get (un_usernameEvents u) eventId of
             None \<Rightarrow> u
           | Some event \<Rightarrow>
               u\<lparr>un_checksums := set_del (une_checksum event) (un_checksums u),
                 un_usernameEvents := map_delete eventId (un_usernameEvents u)\<rparr>))"

definition addUsernameEventForUserId ::
  "string \<Rightarrow> string \<Rightarrow> EncryptedData \<Rightarrow> bool \<Rightarrow> Usernames \<Rightarrow> Usernames" where
  "addUsernameEventForUserId userId eventId encryptedData pending u =
     (case truthy_str (ed_checksum encryptedData) of
        None \<Rightarrow> u
      | Some checksum \<Rightarrow>
          u\<lparr>un_userIdToEventId := map_set userId eventId (un_userIdToEventId u),
            un_checksums := set_add checksum (un_checksums u),
            un_usernameEvents := map_set eventId
              \<lparr>une_checksum = checksum, une_userId = userId, une_pending = pending\<rparr>
              (un_usernameEvents u)\<rparr>)"

definition usernames_addEncryptedData ::
  "string \<Rightarrow> EncryptedData \<Rightarrow> string \<Rightarrow> bool \<Rightarrow> cleartext option \<Rightarrow> bool \<Rightarrow> bool \<Rightarrow> Usernames \<Rightarrow>
   (Usernames, out) res" where
  "usernames_addEncryptedData eventId encryptedData userId pending ct encryptionEmitter stateEmitter u =
     (case truthy_str (ed_checksum encryptedData) of
        None \<Rightarrow> ok u []
      | Some checksum \<Rightarrow>
          if \<not> usernameAvailable u checksum then ok u []
          else
            let u1 = addUsernameEventForUserId userId eventId encryptedData pending
                       (removeUsernameEventForUserId userId u);
                (u2, outs) = (case truthy_cleartext ct of
                    Some c \<Rightarrow> (u1\<lparr>un_plaintextUsernames :=
                      map_set userId (cleartext_string c) (un_plaintextUsernames u1)\<rparr>, [])
                  | None \<Rightarrow> (u1\<lparr>un_plaintextUsernames := map_delete userId (un_plaintextUsernames u1)\<rparr>,
                      emit encryptionEmitter (newEncryptedContent (un_streamId u1) eventId
                        \<lparr>ec_kind = KText, ec_content = encryptedData\<rparr>)));
                u3 = (if \<not> pending
                      then u2\<lparr>un_confirmedUserIds := set_add userId (un_confirmedUserIds u2)\<rparr>
                      else u2)
            in ok u3 (outs @ emitUsernameUpdated eventId stateEmitter u3))"

definition usernames_onConfirmEvent :: "string \<Rightarrow> bool \<Rightarrow> Usernames \<Rightarrow> (Usernames, out) res" where
  "usernames_onConfirmEvent eventId emitter u =
     (case map_get (un_usernameEvents u) eventId of
        None \<Rightarrow> ok u []
      | Some event \<Rightarrow>
          let u1 = u\<lparr>un_usernameEvents :=
                      map_set eventId (event\<lparr>une_pending := False\<rparr>) (un_usernameEvents u),
                    un_confirmedUserIds := set_add (une_userId event) (un_confirmedUserIds u)\<rparr>
          in ok u1 (if map_has (un_plaintextUsernames u1) (une_userId event)
                    then emitUsernameUpdated eventId emitter u1 else []))"

definition usernames_onDecryptedContent ::
  "'a externs_scheme \<Rightarrow> string \<Rightarrow> string \<Rightarrow> bool \<Rightarrow> Usernames \<Rightarrow> (Usernames, out) res" where
  "usernames_onDecryptedContent E eventId content emitter u =
     (case map_get (un_usernameEvents u) eventId of
        None \<Rightarrow> ok u []
      | Some event \<Rightarrow>
          if une_checksum event = [] then ok u []
          else if une_checksum event \<noteq> usernameChecksum E content (un_streamId u) then ok u []
          else let u1 = u\<lparr>un_plaintextUsernames :=
                           map_set (une_userId event) content (un_plaintextUsernames u)\<rparr>
               in ok u1 (emitUsernameUpdated eventId emitter u1))"

record username_info =
  ni_username :: string
  ni_usernameConfirmed :: bool
  ni_usernameEncrypted :: bool

definition usernames_info :: "Usernames \<Rightarrow> string \<Rightarrow> username_info" where
  "usernames_info u userId =
     (let name = map_get_or (un_plaintextUsernames u) userId []
      in case truthy_str (map_get (un_userIdToEventId u) userId) of
           None \<Rightarrow> \<lparr>ni_username = name, ni_usernameConfirmed = False, ni_usernameEncrypted = False\<rparr>
         | Some eventId \<Rightarrow>
             \<lparr>ni_username = name, ni_usernameConfirmed = userId \<in> set (un_confirmedUserIds u),
              ni_usernameEncrypted =
                map_has (un_usernameEvents u) eventId \<and> \<not> map_has (un_plaintextUsernames u) userId\<rparr>)"

subsection \<open>Display names\<close>

definition MAX_DECRYPTED_NAMES_PER_STREAM :: nat where "MAX_DECRYPTED_NAMES_PER_STREAM = 50"

record display_name_event =
  dne_userId :: string
  dne_pending :: bool

record DisplayNames =
  dn_decryptionDispatchCount :: nat
  dn_streamId :: string
  dn_userIdToEventId :: "(string, string) jsmap"
  dn_plaintextDisplayNames :: "(string, string) jsmap"
  dn_displayNameEvents :: "(string, display_name_event) jsmap"

definition new_DisplayNames :: "string \<Rightarrow> DisplayNames" where
  "new_DisplayNames streamId = \<lparr>dn_decryptionDispatchCount = 0, dn_streamId = streamId,
     dn_userIdToEventId = [], dn_plaintextDisplayNames = [], dn_displayNameEvents = []\<rparr>"

definition emitDisplayNameUpdated :: "string \<Rightarrow> bool \<Rightarrow> DisplayNames \<Rightarrow> out list" where
  "emitDisplayNameUpdated eventId emitter d =
     (case map_get (dn_displayNameEvents d) eventId of
        None \<Rightarrow> []
      | Some event \<Rightarrow>
          if \<not> map_has (dn_plaintextDisplayNames d) (dne_userId event) then []
          else emit emitter
            ((if dne_pending event then streamPendingDisplayNameUpdated else streamDisplayNameUpdated)
               (dn_streamId d) (dne_userId event)))"

definition displayNames_removeEventForUserId :: "string \<Rightarrow> DisplayNames \<Rightarrow> DisplayNames" where
  "displayNames_removeEventForUserId userId d =
     (case truthy_str (map_get (dn_userIdToEventId d) userId) of
        None \<Rightarrow> d
      | Some eventId \<Rightarrow>
          if \<not> map_has (dn_displayNameEvents d) eventId then d
          else d\<lparr>dn_displayNameEvents := map_delete eventId (dn_displayNameEvents d)\<rparr>)"

definition displayNames_addEventForUserId ::
  "string \<Rightarrow> string \<Rightarrow> bool \<Rightarrow> DisplayNames \<Rightarrow> DisplayNames" where
  "displayNames_addEventForUserId userId eventId pending d =
     d\<lparr>dn_userIdToEventId := map_set userId eventId (dn_userIdToEventId d),
       dn_displayNameEvents := map_set eventId \<lparr>dne_userId = userId, dne_pending = pending\<rparr>
         (dn_displayNameEvents d)\<rparr>"

definition displayNames_addEncryptedData ::
  "string \<Rightarrow> EncryptedData \<Rightarrow> string \<Rightarrow> bool \<Rightarrow> cleartext option \<Rightarrow> bool \<Rightarrow> bool \<Rightarrow> DisplayNames \<Rightarrow>
   (DisplayNames, out) res" where
  "displayNames_addEncryptedData eventId encryptedData userId pending ct encryptionEmitter
       stateEmitter d =
     (let d1 = displayNames_addEventForUserId userId eventId pending
                 (displayNames_removeEventForUserId userId d);
          (d2, outs) = (case truthy_cleartext ct of
              Some c \<Rightarrow> (d1\<lparr>dn_plaintextDisplayNames :=
                map_set userId (cleartext_string c) (dn_plaintextDisplayNames d1)\<rparr>, [])
            | None \<Rightarrow>
                if dn_decryptionDispatchCount d1 < MAX_DECRYPTED_NAMES_PER_STREAM
                then (d1\<lparr>dn_decryptionDispatchCount := dn_decryptionDispatchCount d1 + 1,
                         dn_plaintextDisplayNames := map_delete userId (dn_plaintextDisplayNames d1)\<rparr>,
                      emit encryptionEmitter (newEncryptedContent (dn_streamId d1) eventId
                        \<lparr>ec_kind = KText, ec_content = encryptedData\<rparr>))
                else (d1, []))
      in ok d2 (outs @ emitDisplayNameUpdated eventId stateEmitter d2))"

definition displayNames_onConfirmEvent :: "string \<Rightarrow> bool \<Rightarrow> DisplayNames \<Rightarrow> (DisplayNames, out) res" where
  "displayNames_onConfirmEvent eventId emitter d =
     (case map_get (dn_displayNameEvents d) eventId of
        None \<Rightarrow> ok d []
      | Some event \<Rightarrow>
          let d1 = d\<lparr>dn_displayNameEvents :=
                      map_set eventId \<lparr>dne_userId = dne_userId event, dne_pending = False\<rparr>
                        (dn_displayNameEvents d)\<rparr>
          in ok d1 (if map_has (dn_plaintextDisplayNames d1) (dne_userId event)
                    then emitDisplayNameUpdated eventId emitter d1 else []))"

definition displayNames_onDecryptedContent ::
  "string \<Rightarrow> string \<Rightarrow> bool \<Rightarrow> DisplayNames \<Rightarrow> (DisplayNames, out) res" where
  "displayNames_onDecryptedContent eventId content emitter d =
     (case map_get (dn_displayNameEvents d) eventId of
        None \<Rightarrow> ok d []
      | Some event \<Rightarrow>
          let d1 = d\<lparr>dn_plaintextDisplayNames :=
                      map_set (dne_userId event) content (dn_plaintextDisplayNames d)\<rparr>
          in ok d1 (emitDisplayNameUpdated eventId emitter d1))"

definition displayNames_info :: "DisplayNames \<Rightarrow> string \<Rightarrow> string \<times> bool" where
  "displayNames_info d userId =
     (map_get_or (dn_plaintextDisplayNames d) userId [],
      \<not> map_has (dn_plaintextDisplayNames d) userId \<and> map_has (dn_userIdToEventId d) userId)"

subsection \<open>ENS addresses\<close>

record ens_event =
  ee_ensAddress :: bytes
  ee_userId :: string
  ee_pending :: bool

record EnsAddresses =
  ea_streamId :: string
  ea_userIdToEventId :: "(string, string) jsmap"
  ea_confirmedEnsAddresses :: "(string, string) jsmap"
  ea_ensAddressEvents :: "(string, ens_event) jsmap"

definition new_EnsAddresses :: "string \<Rightarrow> EnsAddresses" where
  "new_EnsAddresses streamId = \<lparr>ea_streamId = streamId, ea_userIdToEventId = [],
     ea_confirmedEnsAddresses = [], ea_ensAddressEvents = []\<rparr>"

text \<open>The confirmed address of a user after an event: an empty address removes it, a malformed one
  makes \<open>userIdFromAddress\<close> throw.\<close>

definition confirm_ens ::
  "'a externs_scheme \<Rightarrow> string \<Rightarrow> bytes \<Rightarrow> EnsAddresses \<Rightarrow> (EnsAddresses, out) res" where
  "confirm_ens E userId ensAddress a =
     (if length ensAddress > 0
      then case userIdFromAddress E ensAddress of
             None \<Rightarrow> throw LibError a
           | Some addr \<Rightarrow> ok (a\<lparr>ea_confirmedEnsAddresses :=
               map_set userId addr (ea_confirmedEnsAddresses a)\<rparr>) []
      else ok (a\<lparr>ea_confirmedEnsAddresses := map_delete userId (ea_confirmedEnsAddresses a)\<rparr>) [])"

definition ensAddresses_applySnapshot ::
  "'a externs_scheme \<Rightarrow> (string \<times> bytes) list \<Rightarrow> EnsAddresses \<Rightarrow> (EnsAddresses, out) res" where
  "ensAddresses_applySnapshot E ensAddresses a =
     for_each (\<lambda>(userId, ensAddress) a.
       if length ensAddress > 0 then confirm_ens E userId ensAddress a else ok a []) ensAddresses a"

definition emitEnsAddressUpdated :: "string \<Rightarrow> bool \<Rightarrow> EnsAddresses \<Rightarrow> out list" where
  "emitEnsAddressUpdated eventId emitter a =
     (case map_get (ea_ensAddressEvents a) eventId of
        None \<Rightarrow> []
      | Some event \<Rightarrow>
          if ee_pending event then []
          else emit emitter (streamEnsAddressUpdated (ea_streamId a) (ee_userId event)))"

definition ensAddresses_removeEventForUserId :: "string \<Rightarrow> EnsAddresses \<Rightarrow> EnsAddresses" where
  "ensAddresses_removeEventForUserId userId a =
     (case truthy_str (map_get (ea_userIdToEventId a) userId) of
        None \<Rightarrow> a
      | Some eventId \<Rightarrow>
          if \<not> map_has (ea_ensAddressEvents a) eventId then a
          else a\<lparr>ea_ensAddressEvents := map_delete eventId (ea_ensAddressEvents a)\<rparr>)"

definition ensAddresses_addEventForUserId ::
  "string \<Rightarrow> string \<Rightarrow> bytes \<Rightarrow> bool \<Rightarrow> EnsAddresses \<Rightarrow> EnsAddresses" where
  "ensAddresses_addEventForUserId userId eventId ensAddress pending a =
     a\<lparr>ea_userIdToEventId := map_set userId eventId (ea_userIdToEventId a),
       ea_ensAddressEvents := map_set eventId
         \<lparr>ee_ensAddress = ensAddress, ee_userId = userId, ee_pending = pending\<rparr>
         (ea_ensAddressEvents a)\<rparr>"

definition addEnsAddressEvent ::
  "'a externs_scheme \<Rightarrow> string \<Rightarrow> bytes \<Rightarrow> string \<Rightarrow> bool \<Rightarrow> bool \<Rightarrow> EnsAddresses \<Rightarrow>
   (EnsAddresses, out) res" where
  "addEnsAddressEvent E eventId ensAddress userId pending stateEmitter a =
     (let a1 = ensAddresses_removeEventForUserId userId a
      in and_then (if \<not> pending then confirm_ens E userId ensAddress a1 else ok a1 []) (\<lambda>a2.
         let a3 = ensAddresses_addEventForUserId userId eventId ensAddress pending a2
         in ok a3 (emitEnsAddressUpdated eventId stateEmitter a3)))"

definition ensAddresses_onConfirmEvent ::
  "'a externs_scheme \<Rightarrow> string \<Rightarrow> bool \<Rightarrow> EnsAddresses \<Rightarrow> (EnsAddresses, out) res" where
  "ensAddresses_onConfirmEvent E eventId emitter a =
     (case map_get (ea_ensAddressEvents a) eventId of
        None \<Rightarrow> ok a []
      | Some event \<Rightarrow>
          let a1 = a\<lparr>ea_ensAddressEvents :=
                      map_set eventId (event\<lparr>ee_pending := False\<rparr>) (ea_ensAddressEvents a)\<rparr>
          in and_then (confirm_ens E (ee_userId event) (ee_ensAddress event) a1) (\<lambda>a2.
             ok a2 (emitEnsAddressUpdated eventId emitter a2)))"

definition ensAddresses_info :: "EnsAddresses \<Rightarrow> string \<Rightarrow> string option" where
  "ensAddresses_info a userId = map_get (ea_confirmedEnsAddresses a) userId"

subsection \<open>NFTs\<close>

record nft_event =
  nfe_nft :: Nft
  nfe_userId :: string
  nfe_pending :: bool

record Nfts =
  nf_streamId :: string
  nf_userIdToEventId :: "(string, string) jsmap"
  nf_confirmedNfts :: "(string, Nft) jsmap"
  nf_nftEvents :: "(string, nft_event) jsmap"

definition new_Nfts :: "string \<Rightarrow> Nfts" where
  "new_Nfts streamId = \<lparr>nf_streamId = streamId, nf_userIdToEventId = [], nf_confirmedNfts = [],
     nf_nftEvents = []\<rparr>"

definition isValidNft :: "Nft \<Rightarrow> bool" where
  "isValidNft nft \<longleftrightarrow>
     length (nft_tokenId nft) > 0 \<and> length (nft_contractAddress nft) > 0 \<and> nft_chainId nft > 0"

definition nfts_applySnapshot :: "(string \<times> Nft) list \<Rightarrow> Nfts \<Rightarrow> Nfts" where
  "nfts_applySnapshot nfts n =
     fold (\<lambda>(userId, nft) n.
       if isValidNft nft
       then n\<lparr>nf_confirmedNfts := map_set userId nft (nf_confirmedNfts n)\<rparr> else n) nfts n"

definition confirm_nft :: "string \<Rightarrow> Nft \<Rightarrow> Nfts \<Rightarrow> Nfts" where
  "confirm_nft userId nft n =
     (if isValidNft nft then n\<lparr>nf_confirmedNfts := map_set userId nft (nf_confirmedNfts n)\<rparr>
      else n\<lparr>nf_confirmedNfts := map_delete userId (nf_confirmedNfts n)\<rparr>)"

definition nfts_removeEventForUserId :: "string \<Rightarrow> Nfts \<Rightarrow> Nfts" where
  "nfts_removeEventForUserId userId n =
     (case truthy_str (map_get (nf_userIdToEventId n) userId) of
        None \<Rightarrow> n
      | Some eventId \<Rightarrow>
          if \<not> map_has (nf_nftEvents n) eventId then n
          else n\<lparr>nf_nftEvents := map_delete eventId (nf_nftEvents n)\<rparr>)"

definition nfts_addEventForUserId :: "string \<Rightarrow> string \<Rightarrow> Nft \<Rightarrow> bool \<Rightarrow> Nfts \<Rightarrow> Nfts" where
  "nfts_addEventForUserId userId eventId nft pending n =
     n\<lparr>nf_userIdToEventId := map_set userId eventId (nf_userIdToEventId n),
       nf_nftEvents := map_set eventId \<lparr>nfe_nft = nft, nfe_userId = userId, nfe_pending = pending\<rparr>
         (nf_nftEvents n)\<rparr>"

definition emitNftUpdated :: "string \<Rightarrow> bool \<Rightarrow> Nfts \<Rightarrow> out list" where
  "emitNftUpdated eventId emitter n =
     (case map_get (nf_nftEvents n) eventId of
        None \<Rightarrow> []
      | Some event \<Rightarrow>
          if nfe_pending event then []
          else emit emitter (streamNftUpdated (nf_streamId n) (nfe_userId event)))"

definition addNftEvent :: "string \<Rightarrow> Nft \<Rightarrow> string \<Rightarrow> bool \<Rightarrow> bool \<Rightarrow> Nfts \<Rightarrow> (Nfts, out) res" where
  "addNftEvent eventId nft userId pending stateEmitter n =
     (let n1 = nfts_removeEventForUserId userId n;
          n2 = (if \<not> pending then confirm_nft userId nft n1 else n1);
          n3 = nfts_addEventForUserId userId eventId nft pending n2
      in ok n3 (emitNftUpdated eventId stateEmitter n3))"

definition nfts_onConfirmEvent :: "string \<Rightarrow> bool \<Rightarrow> Nfts \<Rightarrow> (Nfts, out) res" where
  "nfts_onConfirmEvent eventId emitter n =
     (case map_get (nf_nftEvents n) eventId of
        None \<Rightarrow> ok n []
      | Some event \<Rightarrow>
          let n1 = n\<lparr>nf_nftEvents := map_set eventId (event\<lparr>nfe_pending := False\<rparr>) (nf_nftEvents n)\<rparr>;
              n2 = confirm_nft (nfe_userId event) (nfe_nft event) n1
          in ok n2 (emitNftUpdated eventId emitter n2))"

record nft_info =
  nfi_tokenId :: string
  nfi_contractAddress :: string
  nfi_chainId :: int

definition nfts_info :: "'a externs_scheme \<Rightarrow> Nfts \<Rightarrow> string \<Rightarrow> exn + nft_info option" where
  "nfts_info E n userId =
     (case map_get (nf_confirmedNfts n) userId of
        None \<Rightarrow> Inr None
      | Some nft \<Rightarrow>
          bindE (of_option LibError (userIdFromAddress E (nft_contractAddress nft))) (\<lambda>c.
          Inr (Some \<lparr>nfi_tokenId = bin_toString (nft_tokenId nft), nfi_contractAddress = c,
                     nfi_chainId = nft_chainId nft\<rparr>)))"

subsection \<open>The metadata of a member\<close>

record MemberMetadata =
  mm_usernames :: Usernames
  mm_displayNames :: DisplayNames
  mm_ensAddresses :: EnsAddresses
  mm_nfts :: Nfts

definition new_MemberMetadata :: "string \<Rightarrow> MemberMetadata" where
  "new_MemberMetadata streamId = \<lparr>mm_usernames = new_Usernames streamId,
     mm_displayNames = new_DisplayNames streamId, mm_ensAddresses = new_EnsAddresses streamId,
     mm_nfts = new_Nfts streamId\<rparr>"

definition on_usernames :: "(Usernames \<Rightarrow> (Usernames, out) res) \<Rightarrow> MemberMetadata \<Rightarrow> (MemberMetadata, out) res"
  where "on_usernames = zoom mm_usernames (\<lambda>u m. m\<lparr>mm_usernames := u\<rparr>)"

definition on_displayNames ::
  "(DisplayNames \<Rightarrow> (DisplayNames, out) res) \<Rightarrow> MemberMetadata \<Rightarrow> (MemberMetadata, out) res"
  where "on_displayNames = zoom mm_displayNames (\<lambda>d m. m\<lparr>mm_displayNames := d\<rparr>)"

definition on_ensAddresses ::
  "(EnsAddresses \<Rightarrow> (EnsAddresses, out) res) \<Rightarrow> MemberMetadata \<Rightarrow> (MemberMetadata, out) res"
  where "on_ensAddresses = zoom mm_ensAddresses (\<lambda>a m. m\<lparr>mm_ensAddresses := a\<rparr>)"

definition on_nfts :: "(Nfts \<Rightarrow> (Nfts, out) res) \<Rightarrow> MemberMetadata \<Rightarrow> (MemberMetadata, out) res"
  where "on_nfts = zoom mm_nfts (\<lambda>n m. m\<lparr>mm_nfts := n\<rparr>)"

lemmas on_part_defs = on_usernames_def on_displayNames_def on_ensAddresses_def on_nfts_def

text \<open>\<open>Array.prototype.sort\<close> is stable.\<close>

definition sortPayloads ::
  "(string \<times> WrappedEncryptedData) list \<Rightarrow> (string \<times> WrappedEncryptedData) list" where
  "sortPayloads payloads = sort_key (\<lambda>p. we_eventNum (snd p)) payloads"

definition get_cleartext :: "(string, cleartext) jsmap option \<Rightarrow> string \<Rightarrow> cleartext option" where
  "get_cleartext cleartexts eventId = (case cleartexts of None \<Rightarrow> None | Some m \<Rightarrow> map_get m eventId)"

definition username_payload ::
  "'a externs_scheme \<Rightarrow> (string, cleartext) jsmap option \<Rightarrow> bool \<Rightarrow> string \<times> WrappedEncryptedData \<Rightarrow>
   Usernames \<Rightarrow> (Usernames, out) res" where
  "username_payload E cleartexts encryptionEmitter p u =
     (case we_data (snd p) of
        None \<Rightarrow> ok u []
      | Some data \<Rightarrow>
          let eventId = bin_toHexString E (we_eventHash (snd p))
          in usernames_addEncryptedData eventId data (fst p) False (get_cleartext cleartexts eventId)
               encryptionEmitter False u)"

definition displayName_payload ::
  "'a externs_scheme \<Rightarrow> (string, cleartext) jsmap option \<Rightarrow> bool \<Rightarrow> string \<times> WrappedEncryptedData \<Rightarrow>
   DisplayNames \<Rightarrow> (DisplayNames, out) res" where
  "displayName_payload E cleartexts encryptionEmitter p d =
     (case we_data (snd p) of
        None \<Rightarrow> ok d []
      | Some data \<Rightarrow>
          let eventId = bin_toHexString E (we_eventHash (snd p))
          in displayNames_addEncryptedData eventId data (fst p) False
               (get_cleartext cleartexts eventId) encryptionEmitter False d)"

definition memberMetadata_applySnapshot ::
  "'a externs_scheme \<Rightarrow> (string \<times> WrappedEncryptedData) list \<Rightarrow> (string \<times> WrappedEncryptedData) list \<Rightarrow>
   (string \<times> bytes) list \<Rightarrow> (string \<times> Nft) list \<Rightarrow> (string, cleartext) jsmap option \<Rightarrow> bool \<Rightarrow>
   MemberMetadata \<Rightarrow> (MemberMetadata, out) res" where
  "memberMetadata_applySnapshot E usernames displayNames ensAddresses nfts cleartexts
       encryptionEmitter m =
     and_then (on_usernames
       (for_each (username_payload E cleartexts encryptionEmitter) (sortPayloads usernames)) m)
     (\<lambda>m. and_then (on_displayNames
       (for_each (displayName_payload E cleartexts encryptionEmitter) (sortPayloads displayNames)) m)
     (\<lambda>m. and_then (on_ensAddresses (ensAddresses_applySnapshot E ensAddresses) m)
     (\<lambda>m. on_nfts (\<lambda>n. ok (nfts_applySnapshot nfts n) []) m)))"

definition memberMetadata_onConfirmedEvent ::
  "'a externs_scheme \<Rightarrow> string \<Rightarrow> bool \<Rightarrow> MemberMetadata \<Rightarrow> (MemberMetadata, out) res" where
  "memberMetadata_onConfirmedEvent E eventId stateEmitter m =
     and_then (on_usernames (usernames_onConfirmEvent eventId stateEmitter) m)
     (\<lambda>m. and_then (on_displayNames (displayNames_onConfirmEvent eventId stateEmitter) m)
     (\<lambda>m. and_then (on_ensAddresses (ensAddresses_onConfirmEvent E eventId stateEmitter) m)
     (\<lambda>m. on_nfts (nfts_onConfirmEvent eventId stateEmitter) m)))"

definition appendDisplayName ::
  "string \<Rightarrow> EncryptedData \<Rightarrow> string \<Rightarrow> cleartext option \<Rightarrow> bool \<Rightarrow> bool \<Rightarrow> MemberMetadata \<Rightarrow>
   (MemberMetadata, out) res" where
  "appendDisplayName eventId data userId ct encryptionEmitter stateEmitter =
     on_displayNames
       (displayNames_addEncryptedData eventId data userId True ct encryptionEmitter stateEmitter)"

definition appendUsername ::
  "string \<Rightarrow> EncryptedData \<Rightarrow> string \<Rightarrow> cleartext option \<Rightarrow> bool \<Rightarrow> bool \<Rightarrow> MemberMetadata \<Rightarrow>
   (MemberMetadata, out) res" where
  "appendUsername eventId data userId ct encryptionEmitter stateEmitter =
     on_usernames
       (usernames_addEncryptedData eventId data userId True ct encryptionEmitter stateEmitter)"

definition appendEnsAddress ::
  "'a externs_scheme \<Rightarrow> string \<Rightarrow> bytes \<Rightarrow> string \<Rightarrow> bool \<Rightarrow> MemberMetadata \<Rightarrow> (MemberMetadata, out) res"
  where
  "appendEnsAddress E eventId ensAddress userId stateEmitter =
     on_ensAddresses (addEnsAddressEvent E eventId ensAddress userId True stateEmitter)"

definition appendNft ::
  "string \<Rightarrow> Nft \<Rightarrow> string \<Rightarrow> bool \<Rightarrow> MemberMetadata \<Rightarrow> (MemberMetadata, out) res" where
  "appendNft eventId nft userId stateEmitter =
     on_nfts (addNftEvent eventId nft userId True stateEmitter)"

definition memberMetadata_onDecryptedContent ::
  "'a externs_scheme \<Rightarrow> string \<Rightarrow> string \<Rightarrow> bool \<Rightarrow> MemberMetadata \<Rightarrow> (MemberMetadata, out) res" where
  "memberMetadata_onDecryptedContent E eventId content emitter m =
     and_then (on_displayNames (displayNames_onDecryptedContent eventId content emitter) m)
     (\<lambda>m. on_usernames (usernames_onDecryptedContent E eventId content emitter) m)"

record UserInfo =
  uf_username :: username_info
  uf_displayName :: string
  uf_displayNameEncrypted :: bool
  uf_ensAddress :: "string option"
  uf_nft :: "nft_info option"

definition userInfo :: "'a externs_scheme \<Rightarrow> MemberMetadata \<Rightarrow> string \<Rightarrow> exn + UserInfo" where
  "userInfo E m userId =
     bindE (nfts_info E (mm_nfts m) userId) (\<lambda>nft.
     Inr \<lparr>uf_username = usernames_info (mm_usernames m) userId,
          uf_displayName = fst (displayNames_info (mm_displayNames m) userId),
          uf_displayNameEncrypted = snd (displayNames_info (mm_displayNames m) userId),
          uf_ensAddress = ensAddresses_info (mm_ensAddresses m) userId, uf_nft = nft\<rparr>)"

subsection \<open>One holder per checksum\<close>

text \<open>The checksums of the registered events are taken, and no two registered events share one.\<close>

definition usernames_inv :: "Usernames \<Rightarrow> bool" where
  "usernames_inv u \<longleftrightarrow>
     (\<forall>k e. map_get (un_usernameEvents u) k = Some e \<longrightarrow> une_checksum e \<in> set (un_checksums u)) \<and>
     (\<forall>k1 k2 e1 e2. map_get (un_usernameEvents u) k1 = Some e1 \<longrightarrow>
        map_get (un_usernameEvents u) k2 = Some e2 \<longrightarrow> une_checksum e1 = une_checksum e2 \<longrightarrow> k1 = k2)"

lemma usernames_invI:
  assumes "\<And>k e. map_get (un_usernameEvents u) k = Some e \<Longrightarrow> une_checksum e \<in> set (un_checksums u)"
    and "\<And>k1 k2 e1 e2. map_get (un_usernameEvents u) k1 = Some e1 \<Longrightarrow>
      map_get (un_usernameEvents u) k2 = Some e2 \<Longrightarrow> une_checksum e1 = une_checksum e2 \<Longrightarrow> k1 = k2"
  shows "usernames_inv u"
  using assms unfolding usernames_inv_def by blast

lemma usernames_invD:
  assumes "usernames_inv u"
  shows "map_get (un_usernameEvents u) k = Some e \<Longrightarrow> une_checksum e \<in> set (un_checksums u)"
    and "map_get (un_usernameEvents u) k1 = Some e1 \<Longrightarrow> map_get (un_usernameEvents u) k2 = Some e2 \<Longrightarrow>
      une_checksum e1 = une_checksum e2 \<Longrightarrow> k1 = k2"
  using assms unfolding usernames_inv_def by blast+

lemma usernames_inv_cong:
  assumes "usernames_inv u" "set (un_checksums u') = set (un_checksums u)"
    and "\<And>k. map_option une_checksum (map_get (un_usernameEvents u') k) =
      map_option une_checksum (map_get (un_usernameEvents u) k)"
  shows "usernames_inv u'"
proof -
  have ex: "\<exists>e'. map_get (un_usernameEvents u) k = Some e' \<and> une_checksum e' = une_checksum e"
    if "map_get (un_usernameEvents u') k = Some e" for k e
    using assms(3)[of k] that by (cases "map_get (un_usernameEvents u) k") auto
  show ?thesis
  proof (rule usernames_invI)
    fix k e
    assume "map_get (un_usernameEvents u') k = Some e"
    from ex[OF this] show "une_checksum e \<in> set (un_checksums u')"
      using usernames_invD(1)[OF assms(1)] assms(2) by metis
  next
    fix k1 k2 e1 e2
    assume "map_get (un_usernameEvents u') k1 = Some e1" "map_get (un_usernameEvents u') k2 = Some e2"
      "une_checksum e1 = une_checksum e2"
    with ex[of k1 e1] ex[of k2 e2] show "k1 = k2"
      using usernames_invD(2)[OF assms(1)] by auto
  qed
qed

lemma removeUsernameEvent_cases:
  obtains (same) "removeUsernameEventForUserId userId u = u"
  | (removed) eventId event where "map_get (un_userIdToEventId u) userId = Some eventId" "eventId \<noteq> []"
      "map_get (un_usernameEvents u) eventId = Some event"
      "removeUsernameEventForUserId userId u =
         u\<lparr>un_checksums := set_del (une_checksum event) (un_checksums u),
           un_usernameEvents := map_delete eventId (un_usernameEvents u)\<rparr>"
proof (cases "truthy_str (map_get (un_userIdToEventId u) userId)")
  case None
  then show ?thesis by (intro same) (simp add: removeUsernameEventForUserId_def)
next
  case (Some eventId)
  then have id: "map_get (un_userIdToEventId u) userId = Some eventId" "eventId \<noteq> []"
    by (auto simp: truthy_str_Some_iff)
  show ?thesis
  proof (cases "map_get (un_usernameEvents u) eventId")
    case None
    with Some show ?thesis by (intro same) (simp add: removeUsernameEventForUserId_def)
  next
    case (Some event)
    from removed[OF id Some] Some \<open>truthy_str _ = _\<close> show ?thesis
      by (simp add: removeUsernameEventForUserId_def)
  qed
qed

lemma removeUsernameEvent_inv [inv_intros]:
  assumes "usernames_inv u"
  shows "usernames_inv (removeUsernameEventForUserId userId u)"
proof (cases rule: removeUsernameEvent_cases[of userId u])
  case same
  with assms show ?thesis by simp
next
  case (removed eventId event)
  show ?thesis
  proof (rule usernames_invI)
    fix k e
    assume "map_get (un_usernameEvents (removeUsernameEventForUserId userId u)) k = Some e"
    then have k: "k \<noteq> eventId" "map_get (un_usernameEvents u) k = Some e"
      by (auto simp: removed(4) split: if_splits)
    then show "une_checksum e \<in> set (un_checksums (removeUsernameEventForUserId userId u))"
      using usernames_invD(1)[OF assms k(2)] usernames_invD(2)[OF assms k(2) removed(3)]
      by (auto simp: removed(4))
  qed (auto simp: removed(4) split: if_splits intro: usernames_invD(2)[OF assms])
qed

lemma remove_checksums_subset:
  "set (un_checksums (removeUsernameEventForUserId userId u)) \<subseteq> set (un_checksums u)"
  by (cases rule: removeUsernameEvent_cases[of userId u]) auto

lemma addUsernameEvent_inv:
  assumes "usernames_inv u" "truthy_str (ed_checksum d) = Some c" "c \<notin> set (un_checksums u)"
  shows "usernames_inv (addUsernameEventForUserId userId eventId d pending u)"
proof -
  let ?e = "\<lparr>une_checksum = c, une_userId = userId, une_pending = pending\<rparr>"
  let ?u = "addUsernameEventForUserId userId eventId d pending u"
  have get: "map_get (un_usernameEvents ?u) k =
      (if k = eventId then Some ?e else map_get (un_usernameEvents u) k)" for k
    by (simp add: addUsernameEventForUserId_def assms(2))
  have cs: "set (un_checksums ?u) = insert c (set (un_checksums u))"
    by (simp add: addUsernameEventForUserId_def assms(2))
  have old: "une_checksum e \<noteq> c" if "map_get (un_usernameEvents u) k = Some e" for k e
    using usernames_invD(1)[OF assms(1) that] assms(3) by auto
  show ?thesis
  proof (rule usernames_invI)
    fix k e
    assume "map_get (un_usernameEvents ?u) k = Some e"
    then show "une_checksum e \<in> set (un_checksums ?u)"
      using usernames_invD(1)[OF assms(1)] by (auto simp: get cs split: if_splits)
  next
    fix k1 k2 e1 e2
    assume "map_get (un_usernameEvents ?u) k1 = Some e1" "map_get (un_usernameEvents ?u) k2 = Some e2"
      "une_checksum e1 = une_checksum e2"
    then show "k1 = k2"
      using old usernames_invD(2)[OF assms(1), of k1 e1 k2 e2] by (fastforce simp: get split: if_splits)
  qed
qed

lemma usernames_addEncryptedData_cases:
  obtains (ignored) "usernames_addEncryptedData eventId d userId pending ct ee se u = ok u []"
  | (added) c u1 plain where "truthy_str (ed_checksum d) = Some c" "c \<notin> set (un_checksums u)"
      "u1 = addUsernameEventForUserId userId eventId d pending (removeUsernameEventForUserId userId u)"
      "plain = (case truthy_cleartext ct of
         Some t \<Rightarrow> map_set userId (cleartext_string t) (un_plaintextUsernames u)
       | None \<Rightarrow> map_delete userId (un_plaintextUsernames u))"
      "st_of (usernames_addEncryptedData eventId d userId pending ct ee se u) =
         u1\<lparr>un_plaintextUsernames := plain, un_confirmedUserIds :=
           (if pending then un_confirmedUserIds u1 else set_add userId (un_confirmedUserIds u1))\<rparr>"
      "exn_of (usernames_addEncryptedData eventId d userId pending ct ee se u) = None"
proof (cases "truthy_str (ed_checksum d)")
  case None
  then show ?thesis by (intro ignored) (simp add: usernames_addEncryptedData_def)
next
  case (Some c)
  let ?u1 = "addUsernameEventForUserId userId eventId d pending (removeUsernameEventForUserId userId u)"
  have plain: "un_plaintextUsernames ?u1 = un_plaintextUsernames u"
    by (cases rule: removeUsernameEvent_cases[of userId u])
       (auto simp: addUsernameEventForUserId_def Some)
  show ?thesis
  proof (cases "c \<in> set (un_checksums u)")
    case True
    with Some show ?thesis
      by (intro ignored) (simp add: usernames_addEncryptedData_def usernameAvailable_def)
  next
    case False
    with Some plain show ?thesis
      by (intro added[OF Some False refl refl])
         (auto simp: usernames_addEncryptedData_def usernameAvailable_def Let_def split: option.splits)
  qed
qed

text \<open>The calls of the class, as values.\<close>

datatype username_call =
    UAddEncryptedData string EncryptedData string bool "cleartext option" bool bool
  | UOnConfirmEvent string bool
  | UOnDecryptedContent string string bool
  | USetLocalUsername string string bool
  | UResetLocalUsername string bool

fun usernames_step :: "'a externs_scheme \<Rightarrow> username_call \<Rightarrow> Usernames \<Rightarrow> (Usernames, out) res" where
  "usernames_step E (UAddEncryptedData eventId d userId pending ct ee se) u =
     usernames_addEncryptedData eventId d userId pending ct ee se u"
| "usernames_step E (UOnConfirmEvent eventId em) u = usernames_onConfirmEvent eventId em u"
| "usernames_step E (UOnDecryptedContent eventId content em) u =
     usernames_onDecryptedContent E eventId content em u"
| "usernames_step E (USetLocalUsername userId name em) u = setLocalUsername userId name em u"
| "usernames_step E (UResetLocalUsername userId em) u = resetLocalUsername userId em u"

lemma usernames_addEncryptedData_inv [inv_intros]:
  assumes "usernames_inv u"
  shows "usernames_inv (st_of (usernames_addEncryptedData eventId d userId pending ct ee se u))"
proof (cases rule: usernames_addEncryptedData_cases[of eventId d userId pending ct ee se u])
  case ignored
  with assms show ?thesis by simp
next
  case (added c u1 plain)
  have "usernames_inv u1"
    unfolding added(3)
    by (rule addUsernameEvent_inv[OF removeUsernameEvent_inv[OF assms] added(1)])
       (use added(2) remove_checksums_subset in blast)
  then show ?thesis unfolding added(5) by (rule usernames_inv_cong) simp_all
qed

lemma usernames_onConfirmEvent_inv [inv_intros]:
  assumes "usernames_inv u"
  shows "usernames_inv (st_of (usernames_onConfirmEvent eventId em u))"
  using assms by (rule usernames_inv_cong)
    (auto simp: usernames_onConfirmEvent_def Let_def split: option.splits)

lemma usernames_plain_inv [inv_intros]:
  assumes "usernames_inv u"
  shows "usernames_inv (st_of (usernames_onDecryptedContent E eventId content em u))"
    and "usernames_inv (st_of (setLocalUsername userId name em u))"
    and "usernames_inv (st_of (resetLocalUsername userId em u))"
  by (rule usernames_inv_cong[OF assms];
      simp add: usernames_onDecryptedContent_def setLocalUsername_def resetLocalUsername_def Let_def
        split: option.split)+

lemma usernames_step_inv: "usernames_inv u \<Longrightarrow> usernames_inv (st_of (usernames_step E x u))"
  by (cases x) (auto intro: inv_intros)

interpretation un: component usernames_inv "usernames_step E" for E
  by unfold_locales (rule usernames_step_inv)

lemma usernames_inv_new [simp]: "usernames_inv (new_Usernames streamId)"
  by (simp add: usernames_inv_def new_Usernames_def)

text \<open>
  C10. One holder per username: after any calls on a new view, every registered username event has
  claimed its checksum, so \<open>usernameAvailable\<close> is false for it, and two different registered events
  never hold the same checksum.
\<close>

theorem username_checksums_unique:
  assumes "u = st_of (for_each (usernames_step E) calls (new_Usernames streamId))"
    and "map_get (un_usernameEvents u) k1 = Some e1"
  shows "\<not> usernameAvailable u (une_checksum e1) \<and>
    (\<forall>k2 e2. map_get (un_usernameEvents u) k2 = Some e2 \<longrightarrow> k2 \<noteq> k1 \<longrightarrow>
       une_checksum e2 \<noteq> une_checksum e1)"
proof -
  have "usernames_inv u" unfolding assms(1) by (rule un.loop_inv) simp
  from usernames_invD[OF this] show ?thesis
    using assms(2) unfolding usernameAvailable_def by blast
qed

definition demo_data :: "string option \<Rightarrow> EncryptedData" where
  "demo_data checksum = \<lparr>ed_ciphertext = [], ed_algorithm = [], ed_senderKey = [], ed_sessionId = [],
     ed_checksum = checksum, ed_refEventId = None, ed_ciphertextBytes = [], ed_ivBytes = [],
     ed_sessionIdBytes = [], ed_version = ENCRYPTED_DATA_VERSION_0\<rparr>"

theorem username_checksums_unique_witness:
  "\<exists>u. u = st_of (for_each (usernames_step plain_externs)
        [UAddEncryptedData ''e1'' (demo_data (Some ''c'')) ''alice'' True None True True,
         UAddEncryptedData ''e2'' (demo_data (Some ''c'')) ''bob'' True None True True,
         UAddEncryptedData ''e3'' (demo_data (Some ''d'')) ''bob'' True None True True]
        (new_Usernames ''s'')) \<and>
     map_get (un_usernameEvents u) ''e1'' \<noteq> None \<and> map_get (un_usernameEvents u) ''e2'' = None \<and>
     map_get (un_usernameEvents u) ''e3'' \<noteq> None \<and> \<not> usernameAvailable u ''c''"
proof -
  let ?calls = "[UAddEncryptedData ''e1'' (demo_data (Some ''c'')) ''alice'' True None True True,
         UAddEncryptedData ''e2'' (demo_data (Some ''c'')) ''bob'' True None True True,
         UAddEncryptedData ''e3'' (demo_data (Some ''d'')) ''bob'' True None True True]"
  let ?u = "st_of (for_each (usernames_step plain_externs) ?calls (new_Usernames ''s''))"
  have ev: "map_get (un_usernameEvents ?u) ''e1'' =
        Some \<lparr>une_checksum = ''c'', une_userId = ''alice'', une_pending = True\<rparr>"
      "map_get (un_usernameEvents ?u) ''e2'' = None"
      "map_get (un_usernameEvents ?u) ''e3'' =
        Some \<lparr>une_checksum = ''d'', une_userId = ''bob'', une_pending = True\<rparr>"
    by code_simp+
  from username_checksums_unique[OF refl ev(1)] ev show ?thesis by simp
qed

subsection \<open>Decrypted usernames are unique\<close>

text \<open>The states of a view whose names all come from decryption: events have fresh, non-empty ids,
  as hashes do, and no cleartext is supplied with them.\<close>

inductive usernames_reachable :: "'a externs_scheme \<Rightarrow> string \<Rightarrow> Usernames \<Rightarrow> bool"
  for E :: "'a externs_scheme" and streamId :: string
where
  reach_new: "usernames_reachable E streamId (new_Usernames streamId)"
| reach_add: "usernames_reachable E streamId u \<Longrightarrow> eventId \<noteq> [] \<Longrightarrow>
    map_get (un_usernameEvents u) eventId = None \<Longrightarrow>
    usernames_reachable E streamId
      (st_of (usernames_addEncryptedData eventId d userId pending None ee se u))"
| reach_confirm: "usernames_reachable E streamId u \<Longrightarrow>
    usernames_reachable E streamId (st_of (usernames_onConfirmEvent eventId em u))"
| reach_decrypt: "usernames_reachable E streamId u \<Longrightarrow>
    usernames_reachable E streamId (st_of (usernames_onDecryptedContent E eventId content em u))"

text \<open>Each user's index entry points to their event, each event is pointed to by its user, and each
  decrypted name hashes to the checksum of its user's event.\<close>

definition usernames_linked :: "'a externs_scheme \<Rightarrow> string \<Rightarrow> Usernames \<Rightarrow> bool" where
  "usernames_linked E streamId u \<longleftrightarrow>
     un_streamId u = streamId \<and>
     (\<forall>k e. map_get (un_usernameEvents u) k = Some e \<longrightarrow>
        k \<noteq> [] \<and> map_get (un_userIdToEventId u) (une_userId e) = Some k) \<and>
     (\<forall>v k. map_get (un_userIdToEventId u) v = Some k \<longrightarrow>
        (\<exists>e. map_get (un_usernameEvents u) k = Some e \<and> une_userId e = v)) \<and>
     (\<forall>v name. map_get (un_plaintextUsernames u) v = Some name \<longrightarrow>
        (\<exists>k e. map_get (un_usernameEvents u) k = Some e \<and> une_userId e = v \<and>
           une_checksum e = usernameChecksum E name streamId))"

lemma usernames_linkedD:
  assumes "usernames_linked E streamId u"
  shows "un_streamId u = streamId"
    and "map_get (un_usernameEvents u) k = Some e \<Longrightarrow>
      k \<noteq> [] \<and> map_get (un_userIdToEventId u) (une_userId e) = Some k"
    and "map_get (un_userIdToEventId u) v = Some k \<Longrightarrow>
      \<exists>e. map_get (un_usernameEvents u) k = Some e \<and> une_userId e = v"
    and "map_get (un_plaintextUsernames u) v = Some name \<Longrightarrow>
      \<exists>k e. map_get (un_usernameEvents u) k = Some e \<and> une_userId e = v \<and>
        une_checksum e = usernameChecksum E name streamId"
  using assms unfolding usernames_linked_def by blast+

text \<open>After a claim by \<open>userId\<close> the events are those of the other users and the new one.\<close>

lemma add_events_linked:
  assumes L: "usernames_linked E streamId u" and c: "truthy_str (ed_checksum d) = Some c"
    and u1: "u1 = addUsernameEventForUserId userId eventId d pending (removeUsernameEventForUserId userId u)"
  shows "map_get (un_usernameEvents u1) k =
      (if k = eventId then Some \<lparr>une_checksum = c, une_userId = userId, une_pending = pending\<rparr>
       else case map_get (un_usernameEvents u) k of
              Some e \<Rightarrow> if une_userId e = userId then None else Some e | None \<Rightarrow> None)"
    and "un_userIdToEventId u1 = map_set userId eventId (un_userIdToEventId u)"
    and "un_streamId u1 = streamId"
proof -
  have "un_streamId u = streamId" by (rule usernames_linkedD(1)[OF L])
  then show "un_userIdToEventId u1 = map_set userId eventId (un_userIdToEventId u)"
    "un_streamId u1 = streamId"
    by (cases rule: removeUsernameEvent_cases[of userId u];
        simp add: u1 addUsernameEventForUserId_def c)+
  have "map_get (un_usernameEvents (removeUsernameEventForUserId userId u)) k =
      (case map_get (un_usernameEvents u) k of
         Some e \<Rightarrow> if une_userId e = userId then None else Some e | None \<Rightarrow> None)" for k
  proof (cases "map_get (un_userIdToEventId u) userId")
    case None
    then show ?thesis
      using usernames_linkedD(2)[OF L, of k]
      by (cases "map_get (un_usernameEvents u) k") (auto simp: removeUsernameEventForUserId_def)
  next
    case (Some id)
    from usernames_linkedD(3)[OF L Some] obtain e
      where e: "map_get (un_usernameEvents u) id = Some e" "une_userId e = userId" by blast
    then have "id \<noteq> []" using usernames_linkedD(2)[OF L e(1)] by simp
    then have "un_usernameEvents (removeUsernameEventForUserId userId u) =
        map_delete id (un_usernameEvents u)"
      by (simp add: removeUsernameEventForUserId_def Some e)
    moreover have "k = id" if "map_get (un_usernameEvents u) k = Some e'" "une_userId e' = userId" for e'
      using usernames_linkedD(2)[OF L that(1)] Some that(2) by simp
    ultimately show ?thesis using e by (cases "map_get (un_usernameEvents u) k") auto
  qed
  then show "map_get (un_usernameEvents u1) k =
      (if k = eventId then Some \<lparr>une_checksum = c, une_userId = userId, une_pending = pending\<rparr>
       else case map_get (un_usernameEvents u) k of
              Some e \<Rightarrow> if une_userId e = userId then None else Some e | None \<Rightarrow> None)"
    by (simp add: u1 addUsernameEventForUserId_def c)
qed

lemma usernames_linked_add:
  assumes L: "usernames_linked E streamId u" and id: "eventId \<noteq> []"
    and fresh: "map_get (un_usernameEvents u) eventId = None"
  shows "usernames_linked E streamId
    (st_of (usernames_addEncryptedData eventId d userId pending None ee se u))"
proof (cases rule: usernames_addEncryptedData_cases[of eventId d userId pending None ee se u])
  case ignored
  with L show ?thesis by simp
next
  case (added c u1 plain)
  note ev = add_events_linked[OF L added(1,3)]
  have plain: "plain = map_delete userId (un_plaintextUsernames u)"
    using added(4) by (simp add: truthy_cleartext_def)
  define u2 where "u2 = st_of (usernames_addEncryptedData eventId d userId pending None ee se u)"
  have get: "map_get (un_usernameEvents u2) k =
      (if k = eventId then Some \<lparr>une_checksum = c, une_userId = userId, une_pending = pending\<rparr>
       else case map_get (un_usernameEvents u) k of
              Some e \<Rightarrow> if une_userId e = userId then None else Some e | None \<Rightarrow> None)" for k
    by (simp add: u2_def added(5) ev(1))
  have idx: "map_get (un_userIdToEventId u2) v =
      (if v = userId then Some eventId else map_get (un_userIdToEventId u) v)" for v
    by (simp add: u2_def added(5) ev(2))
  have names: "map_get (un_plaintextUsernames u2) v =
      (if v = userId then None else map_get (un_plaintextUsernames u) v)" for v
    by (simp add: u2_def added(5) plain)
  have keep: "map_get (un_usernameEvents u2) k = Some e"
    if "map_get (un_usernameEvents u) k = Some e" "une_userId e \<noteq> userId" for k e
    using that fresh by (auto simp: get)
  have "usernames_linked E streamId u2"
    unfolding usernames_linked_def
  proof (intro conjI allI impI)
    show "un_streamId u2 = streamId" by (simp add: u2_def added(5) ev(3))
  next
    fix k e
    assume k: "map_get (un_usernameEvents u2) k = Some e"
    show "k \<noteq> []" "map_get (un_userIdToEventId u2) (une_userId e) = Some k"
      using k id usernames_linkedD(2)[OF L, of k e]
      by (auto simp: get idx split: if_splits option.splits)
  next
    fix v k
    assume "map_get (un_userIdToEventId u2) v = Some k"
    then show "\<exists>e. map_get (un_usernameEvents u2) k = Some e \<and> une_userId e = v"
      using usernames_linkedD(3)[OF L, of v k] keep fresh by (auto simp: idx get split: if_splits)
  next
    fix v name
    assume "map_get (un_plaintextUsernames u2) v = Some name"
    then have v: "v \<noteq> userId" "map_get (un_plaintextUsernames u) v = Some name"
      by (auto simp: names split: if_splits)
    from usernames_linkedD(4)[OF L v(2)] v(1) keep
    show "\<exists>k e. map_get (un_usernameEvents u2) k = Some e \<and> une_userId e = v \<and>
        une_checksum e = usernameChecksum E name streamId"
      by blast
  qed
  then show ?thesis by (simp add: u2_def)
qed

lemma usernames_linked_confirm:
  assumes L: "usernames_linked E streamId u"
  shows "usernames_linked E streamId (st_of (usernames_onConfirmEvent eventId em u))"
proof (cases "map_get (un_usernameEvents u) eventId")
  case None
  with L show ?thesis by (simp add: usernames_onConfirmEvent_def)
next
  case (Some e)
  define u2 where "u2 = st_of (usernames_onConfirmEvent eventId em u)"
  have get: "map_get (un_usernameEvents u2) k =
      (if k = eventId then Some (e\<lparr>une_pending := False\<rparr>) else map_get (un_usernameEvents u) k)" for k
    by (simp add: u2_def usernames_onConfirmEvent_def Some Let_def)
  have rest: "un_userIdToEventId u2 = un_userIdToEventId u" "un_streamId u2 = un_streamId u"
      "un_plaintextUsernames u2 = un_plaintextUsernames u"
    by (simp_all add: u2_def usernames_onConfirmEvent_def Some Let_def)
  have same: "\<exists>e2. map_get (un_usernameEvents u2) k = Some e2 \<and> une_userId e2 = une_userId e1 \<and>
      une_checksum e2 = une_checksum e1" if "map_get (un_usernameEvents u) k = Some e1" for k e1
    using that Some by (auto simp: get)
  have "usernames_linked E streamId u2"
    unfolding usernames_linked_def rest
  proof (intro conjI allI impI)
    show "un_streamId u = streamId" by (rule usernames_linkedD(1)[OF L])
  next
    fix k e1
    assume k: "map_get (un_usernameEvents u2) k = Some e1"
    then show "k \<noteq> []" "map_get (un_userIdToEventId u) (une_userId e1) = Some k"
      using usernames_linkedD(2)[OF L, of k e1] usernames_linkedD(2)[OF L Some]
      by (auto simp: get split: if_splits)
  next
    fix v k
    assume "map_get (un_userIdToEventId u) v = Some k"
    from usernames_linkedD(3)[OF L this] same
    show "\<exists>e. map_get (un_usernameEvents u2) k = Some e \<and> une_userId e = v" by metis
  next
    fix v name
    assume "map_get (un_plaintextUsernames u) v = Some name"
    from usernames_linkedD(4)[OF L this] same
    show "\<exists>k e. map_get (un_usernameEvents u2) k = Some e \<and> une_userId e = v \<and>
        une_checksum e = usernameChecksum E name streamId" by metis
  qed
  then show ?thesis by (simp add: u2_def)
qed

lemma usernames_linked_decrypt:
  assumes L: "usernames_linked E streamId u"
  shows "usernames_linked E streamId (st_of (usernames_onDecryptedContent E eventId content em u))"
proof (cases "\<exists>e. map_get (un_usernameEvents u) eventId = Some e \<and> une_checksum e \<noteq> [] \<and>
    une_checksum e = usernameChecksum E content (un_streamId u)")
  case False
  then have "usernames_onDecryptedContent E eventId content em u = ok u []"
    by (auto simp: usernames_onDecryptedContent_def split: option.split)
  with L show ?thesis by simp
next
  case True
  then obtain e where e: "map_get (un_usernameEvents u) eventId = Some e" "une_checksum e \<noteq> []"
      "une_checksum e = usernameChecksum E content (un_streamId u)" by blast
  have u2: "st_of (usernames_onDecryptedContent E eventId content em u) =
      u\<lparr>un_plaintextUsernames := map_set (une_userId e) content (un_plaintextUsernames u)\<rparr>"
    using e(2,3) by (simp add: usernames_onDecryptedContent_def e(1) Let_def)
  show ?thesis
    unfolding u2 usernames_linked_def
  proof (intro conjI allI impI)
    fix v name
    assume n: "map_get (un_plaintextUsernames
      (u\<lparr>un_plaintextUsernames := map_set (une_userId e) content (un_plaintextUsernames u)\<rparr>)) v = Some name"
    show "\<exists>k e'. map_get (un_usernameEvents
        (u\<lparr>un_plaintextUsernames := map_set (une_userId e) content (un_plaintextUsernames u)\<rparr>)) k = Some e' \<and>
        une_userId e' = v \<and> une_checksum e' = usernameChecksum E name streamId"
    proof (cases "v = une_userId e")
      case True
      with n e usernames_linkedD(1)[OF L] show ?thesis by auto
    next
      case False
      with n usernames_linkedD(4)[OF L, of v name] show ?thesis by simp
    qed
  qed (use usernames_linkedD(1-3)[OF L] in simp_all)
qed

lemma usernames_reachable_inv:
  assumes "usernames_reachable E streamId u"
  shows "usernames_inv u \<and> usernames_linked E streamId u"
  using assms
proof induction
  case reach_new
  show ?case by (simp add: usernames_linked_def) (simp add: new_Usernames_def)
qed (auto intro: inv_intros usernames_linked_add usernames_linked_confirm usernames_linked_decrypt)

text \<open>No two members show the same username: in every state reached by claims with fresh event ids,
  confirmations and decryptions, in any order, the decrypted names of two different users differ,
  also when case is ignored.
\<close>

theorem decrypted_usernames_unique:
  assumes "usernames_reachable E streamId u" "v \<noteq> w"
    and "map_get (un_plaintextUsernames u) v = Some name"
    and "map_get (un_plaintextUsernames u) w = Some name'"
  shows "toLowerCase name \<noteq> toLowerCase name'"
proof
  assume eq: "toLowerCase name = toLowerCase name'"
  have I: "usernames_inv u" and L: "usernames_linked E streamId u"
    using usernames_reachable_inv[OF assms(1)] by auto
  from usernames_linkedD(4)[OF L assms(3)] obtain k1 e1
    where 1: "map_get (un_usernameEvents u) k1 = Some e1" "une_userId e1 = v"
      "une_checksum e1 = usernameChecksum E name streamId" by blast
  from usernames_linkedD(4)[OF L assms(4)] obtain k2 e2
    where 2: "map_get (un_usernameEvents u) k2 = Some e2" "une_userId e2 = w"
      "une_checksum e2 = usernameChecksum E name' streamId" by blast
  have "une_checksum e1 = une_checksum e2" using 1(3) 2(3) eq by (simp add: usernameChecksum_def)
  with usernames_invD(2)[OF I 1(1) 2(1)] have "e1 = e2" using 1(1) 2(1) by simp
  with 1(2) 2(2) assms(2) show False by simp
qed

theorem decrypted_usernames_unique_witness:
  "\<exists>u. usernames_reachable plain_externs ''s'' u \<and>
     map_get (un_plaintextUsernames u) ''alice'' = Some ''Al'' \<and>
     map_get (un_plaintextUsernames u) ''bob'' = Some ''bo'' \<and> toLowerCase ''Al'' \<noteq> toLowerCase ''bo''"
proof -
  let ?c = "usernameChecksum plain_externs ''Al'' ''s''" and ?d = "usernameChecksum plain_externs ''bo'' ''s''"
  let ?u1 = "st_of (usernames_addEncryptedData ''e1'' (demo_data (Some ?c)) ''alice'' True None True True
     (new_Usernames ''s''))"
  let ?u2 = "st_of (usernames_addEncryptedData ''e2'' (demo_data (Some ?d)) ''bob'' True None True True ?u1)"
  let ?u3 = "st_of (usernames_onDecryptedContent plain_externs ''e1'' ''Al'' True ?u2)"
  let ?u4 = "st_of (usernames_onDecryptedContent plain_externs ''e2'' ''bo'' True ?u3)"
  have f: "map_get (un_usernameEvents ?u1) ''e2'' = None" by code_simp
  have r: "usernames_reachable plain_externs ''s'' ?u4"
    by (intro usernames_reachable.intros) (simp_all add: f, simp add: new_Usernames_def)
  have p: "map_get (un_plaintextUsernames ?u4) ''alice'' = Some ''Al''"
    "map_get (un_plaintextUsernames ?u4) ''bob'' = Some ''bo''"
    by code_simp+
  have "toLowerCase ''Al'' \<noteq> toLowerCase ''bo''"
    by (rule decrypted_usernames_unique[OF r _ p]) simp
  with r p show ?thesis by blast
qed

subsection \<open>Usernames from a snapshot\<close>

text \<open>The checksum a snapshot entry claims, and its event id.\<close>

definition claim_of :: "string \<times> WrappedEncryptedData \<Rightarrow> string option" where
  "claim_of p = (case we_data (snd p) of None \<Rightarrow> None | Some d \<Rightarrow> truthy_str (ed_checksum d))"

definition claim_id :: "'a externs_scheme \<Rightarrow> string \<times> WrappedEncryptedData \<Rightarrow> string" where
  "claim_id E p = bin_toHexString E (we_eventHash (snd p))"

lemma username_payload_cases:
  assumes "fst p \<notin> fst ` set (un_userIdToEventId u)"
  obtains (ignored) "username_payload E ct ee p u = ok u []"
      "claim_of p = None \<or> (\<exists>c. claim_of p = Some c \<and> c \<in> set (un_checksums u))"
  | (added) c u' where "claim_of p = Some c" "c \<notin> set (un_checksums u)"
      "u' = st_of (username_payload E ct ee p u)" "exn_of (username_payload E ct ee p u) = None"
      "set (un_checksums u') = insert c (set (un_checksums u))"
      "\<And>k. map_get (un_usernameEvents u') k = (if k = claim_id E p
         then Some \<lparr>une_checksum = c, une_userId = fst p, une_pending = False\<rparr>
         else map_get (un_usernameEvents u) k)"
      "fst ` set (un_userIdToEventId u') = insert (fst p) (fst ` set (un_userIdToEventId u))"
proof (cases "we_data (snd p)")
  case None
  then show ?thesis by (intro ignored) (simp_all add: username_payload_def claim_of_def)
next
  case (Some d)
  have none: "map_get (un_userIdToEventId u) (fst p) = None"
    using assms by (simp add: map_get_None_iff)
  have r: "removeUsernameEventForUserId (fst p) u = u"
    by (simp add: removeUsernameEventForUserId_def none)
  have eq: "username_payload E ct ee p u = usernames_addEncryptedData (claim_id E p) d (fst p) False
      (get_cleartext ct (claim_id E p)) ee False u"
    by (simp add: username_payload_def Some claim_id_def Let_def)
  show ?thesis
  proof (cases rule: usernames_addEncryptedData_cases[of "claim_id E p" d "fst p" False
        "get_cleartext ct (claim_id E p)" ee False u])
    case ignored': ignored
    have "claim_of p = None \<or> (\<exists>c. claim_of p = Some c \<and> c \<in> set (un_checksums u))"
    proof (rule ccontr)
      assume "\<not> ?thesis"
      then obtain c where c: "truthy_str (ed_checksum d) = Some c" "c \<notin> set (un_checksums u)"
        by (auto simp: claim_of_def Some)
      have "c \<in> set (un_checksums (st_of (usernames_addEncryptedData (claim_id E p) d (fst p) False
          (get_cleartext ct (claim_id E p)) ee False u)))"
        using c by (auto simp: usernames_addEncryptedData_def usernameAvailable_def Let_def r
            addUsernameEventForUserId_def split: option.split)
      with c(2) show False by (simp add: ignored')
    qed
    then show ?thesis using ignored' by (intro ignored) (simp_all add: eq)
  next
    case (added c u1 plain)
    show ?thesis
      by (rule that(2)[of c "st_of (username_payload E ct ee p u)"])
         (use added(1,2,6) in \<open>simp_all add: eq claim_of_def Some added(5) added(3)[unfolded r]
            addUsernameEventForUserId_def\<close>)
  qed
qed

text \<open>After the entries \<open>ps\<close>: exactly their claims are taken, and the registered events are those of
  the entries that were the first in \<open>ps\<close> to make their claim.\<close>

definition snapshot_usernames ::
  "'a externs_scheme \<Rightarrow> (string, cleartext) jsmap option \<Rightarrow> bool \<Rightarrow> string \<Rightarrow>
   (string \<times> WrappedEncryptedData) list \<Rightarrow> (Usernames, out) res" where
  "snapshot_usernames E ct ee streamId ps =
     for_each (username_payload E ct ee) ps (new_Usernames streamId)"

lemma username_payloads_first:
  assumes "distinct (map fst ps)" "distinct (map (claim_id E) ps)"
  shows "exn_of (snapshot_usernames E ct ee streamId ps) = None \<and>
    set (un_checksums (st_of (snapshot_usernames E ct ee streamId ps))) = {c. Some c \<in> claim_of ` set ps} \<and>
    fst ` set (un_userIdToEventId (st_of (snapshot_usernames E ct ee streamId ps))) \<subseteq> fst ` set ps \<and>
    (\<forall>k. k \<notin> claim_id E ` set ps \<longrightarrow> map_get (un_usernameEvents (st_of (snapshot_usernames E ct ee streamId ps))) k = None) \<and>
    (\<forall>i < length ps. map_get (un_usernameEvents (st_of (snapshot_usernames E ct ee streamId ps))) (claim_id E (ps ! i)) =
       (case claim_of (ps ! i) of
          None \<Rightarrow> None
        | Some c \<Rightarrow> if \<exists>j < i. claim_of (ps ! j) = Some c then None
            else Some \<lparr>une_checksum = c, une_userId = fst (ps ! i), une_pending = False\<rparr>))"
  using assms
proof (induction ps rule: rev_induct)
  case Nil
  then show ?case by (simp add: snapshot_usernames_def) (simp add: new_Usernames_def)
next
  case (snoc p ps)
  let ?f = "snapshot_usernames E ct ee streamId"
  let ?u = "st_of (?f ps)"
  have dps: "distinct (map fst ps)" "distinct (map (claim_id E) ps)" using snoc.prems by auto
  have IH: "exn_of (?f ps) = None" "set (un_checksums ?u) = {c. Some c \<in> claim_of ` set ps}"
      "fst ` set (un_userIdToEventId ?u) \<subseteq> fst ` set ps"
      "\<And>k. k \<notin> claim_id E ` set ps \<Longrightarrow> map_get (un_usernameEvents ?u) k = None"
      "\<And>i. i < length ps \<Longrightarrow> map_get (un_usernameEvents ?u) (claim_id E (ps ! i)) =
         (case claim_of (ps ! i) of
            None \<Rightarrow> None
          | Some c \<Rightarrow> if \<exists>j < i. claim_of (ps ! j) = Some c then None
              else Some \<lparr>une_checksum = c, une_userId = fst (ps ! i), une_pending = False\<rparr>)"
    using snoc.IH[OF dps] by blast+
  have f: "st_of (?f (ps @ [p])) = st_of (username_payload E ct ee p ?u)"
      "exn_of (?f (ps @ [p])) = exn_of (username_payload E ct ee p ?u)"
    using IH(1) by (simp_all add: snapshot_usernames_def for_each_append and_then_sels)
  have fresh: "fst p \<notin> fst ` set (un_userIdToEventId ?u)" and id: "claim_id E p \<notin> claim_id E ` set ps"
    using IH(3) snoc.prems by auto
  have taken: "(\<exists>j < length ps. claim_of (ps ! j) = Some c) \<longleftrightarrow> c \<in> set (un_checksums ?u)" for c
    unfolding IH(2) mem_Collect_eq image_iff by (metis in_set_conv_nth)
  have other: "claim_id E (ps ! i) \<noteq> claim_id E p" if "i < length ps" for i
    using id that by (metis image_eqI nth_mem)
  let ?u' = "st_of (username_payload E ct ee p ?u)"
  have step: "exn_of (username_payload E ct ee p ?u) = None \<and>
      set (un_checksums ?u') = {c. Some c \<in> claim_of ` set (ps @ [p])} \<and>
      fst ` set (un_userIdToEventId ?u') \<subseteq> fst ` set (ps @ [p]) \<and>
      (\<forall>k. k \<noteq> claim_id E p \<longrightarrow> map_get (un_usernameEvents ?u') k = map_get (un_usernameEvents ?u) k) \<and>
      map_get (un_usernameEvents ?u') (claim_id E p) =
        (case claim_of p of
           None \<Rightarrow> None
         | Some c \<Rightarrow> if c \<in> set (un_checksums ?u) then None
             else Some \<lparr>une_checksum = c, une_userId = fst p, une_pending = False\<rparr>)"
  proof (cases rule: username_payload_cases[OF fresh, of E ct ee, case_names ignored added])
    case ignored
    then have "{c. Some c \<in> claim_of ` set (ps @ [p])} = {c. Some c \<in> claim_of ` set ps}"
      using IH(2) by (auto simp: image_iff)
    then show ?thesis using ignored IH(2,3) IH(4)[OF id] by (auto split: option.split)
  next
    case (added c u')
    have "{c. Some c \<in> claim_of ` set (ps @ [p])} = insert c {c. Some c \<in> claim_of ` set ps}"
      using added(1) by (auto simp: image_iff)
    then show ?thesis
      using added(1,2,4) IH(2,3) by (auto simp: added(3)[symmetric] added(5-7))
  qed
  have index: "map_get (un_usernameEvents ?u') (claim_id E ((ps @ [p]) ! i)) =
      (case claim_of ((ps @ [p]) ! i) of
         None \<Rightarrow> None
       | Some c \<Rightarrow> if \<exists>j < i. claim_of ((ps @ [p]) ! j) = Some c then None
           else Some \<lparr>une_checksum = c, une_userId = fst ((ps @ [p]) ! i), une_pending = False\<rparr>)"
    if "i < length (ps @ [p])" for i
  proof (cases "i < length ps")
    case True
    then have nth: "(ps @ [p]) ! j = ps ! j" if "j \<le> i" for j using that by (simp add: nth_append)
    then have "(\<exists>j < i. claim_of ((ps @ [p]) ! j) = Some c) \<longleftrightarrow> (\<exists>j < i. claim_of (ps ! j) = Some c)" for c
      by (metis less_imp_le)
    moreover have "map_get (un_usernameEvents ?u') (claim_id E (ps ! i)) =
        map_get (un_usernameEvents ?u) (claim_id E (ps ! i))"
      using step other[OF True] by blast
    ultimately show ?thesis using IH(5)[OF True] by (simp only: nth[OF order.refl])
  next
    case False
    with that have i: "i = length ps" by simp
    have ex: "(\<exists>j < i. claim_of ((ps @ [p]) ! j) = Some c) \<longleftrightarrow> c \<in> set (un_checksums ?u)" for c
      using taken[of c] by (auto simp: i nth_append)
    have p: "(ps @ [p]) ! i = p" by (simp add: i)
    show ?thesis unfolding ex p using step by blast
  qed
  have rest: "map_get (un_usernameEvents ?u') k = None" if "k \<notin> claim_id E ` set (ps @ [p])" for k
  proof -
    have "k \<notin> claim_id E ` set ps" "k \<noteq> claim_id E p" using that by auto
    with step IH(4)[of k] show ?thesis by metis
  qed
  show ?case
    unfolding f
    by (intro conjI allI impI) (rule conjunct1[OF step] step[THEN conjunct2, THEN conjunct1]
        step[THEN conjunct2, THEN conjunct2, THEN conjunct1] | erule rest | erule index)+
qed

lemma applySnapshot_usernames:
  "mm_usernames (st_of (memberMetadata_applySnapshot E usernames displayNames ens nfts ct ee
     (new_MemberMetadata streamId))) =
   st_of (snapshot_usernames E ct ee streamId (sortPayloads usernames))"
  by (simp add: memberMetadata_applySnapshot_def and_then_sels on_part_defs snapshot_usernames_def
      new_MemberMetadata_def)

text \<open>Whoever claimed a username first gets it: after a snapshot whose members and event ids are
  distinct, each claimed checksum is held by exactly one entry, which belongs to the member with the
  smallest event number among all that claim it, and the events of the others are not registered.
\<close>

theorem snapshot_first_claim_wins:
  assumes "distinct (map fst usernames)" "distinct (map (claim_id E) usernames)"
    and "p \<in> set usernames" "claim_of p = Some c"
    and "events = un_usernameEvents (mm_usernames (st_of (memberMetadata_applySnapshot E usernames
      displayNames ens nfts ct ee (new_MemberMetadata streamId))))"
  shows "\<exists>w \<in> set usernames. claim_of w = Some c \<and>
    map_get events (claim_id E w) =
      Some \<lparr>une_checksum = c, une_userId = fst w, une_pending = False\<rparr> \<and>
    (\<forall>q \<in> set usernames. claim_of q = Some c \<longrightarrow> we_eventNum (snd w) \<le> we_eventNum (snd q)) \<and>
    (\<forall>q \<in> set usernames. claim_of q = Some c \<longrightarrow> q \<noteq> w \<longrightarrow> map_get events (claim_id E q) = None)"
proof -
  define ps where "ps = sortPayloads usernames"
  have set: "set ps = set usernames" and mset: "mset ps = mset usernames"
    by (simp_all add: ps_def sortPayloads_def)
  have "distinct (map fst ps)" "distinct (map (claim_id E) ps)"
    using assms(1,2) mset by (metis mset_map mset_eq_imp_distinct_iff)+
  note first = username_payloads_first[OF this, of ct ee streamId]
  have ev: "events = un_usernameEvents (st_of (snapshot_usernames E ct ee streamId ps))"
    by (simp add: assms(5) applySnapshot_usernames ps_def)
  have sorted: "sorted (map (\<lambda>q. we_eventNum (snd q)) ps)" by (simp add: ps_def sortPayloads_def)
  define i where "i = (LEAST i. i < length ps \<and> claim_of (ps ! i) = Some c)"
  obtain j0 where "j0 < length ps \<and> claim_of (ps ! j0) = Some c"
    using assms(3,4) unfolding set[symmetric] by (metis in_set_conv_nth)
  then have i: "i < length ps" "claim_of (ps ! i) = Some c"
    unfolding i_def by (metis (mono_tags, lifting) LeastI)+
  have before: "claim_of (ps ! j) \<noteq> Some c" if "j < i" for j
    using that not_less_Least[of j "\<lambda>i. i < length ps \<and> claim_of (ps ! i) = Some c"] i(1)
    unfolding i_def by auto
  have "map_get events (claim_id E (ps ! i)) =
      Some \<lparr>une_checksum = c, une_userId = fst (ps ! i), une_pending = False\<rparr>"
    using first i before by (auto simp: ev)
  moreover have "we_eventNum (snd (ps ! i)) \<le> we_eventNum (snd q) \<and>
      (q \<noteq> ps ! i \<longrightarrow> map_get events (claim_id E q) = None)"
    if q: "q \<in> set usernames" "claim_of q = Some c" for q
  proof -
    obtain j where j: "j < length ps" "q = ps ! j" using q(1) unfolding set[symmetric] by (metis in_set_conv_nth)
    have le: "i \<le> j" using before[of j] j(2) q(2) by (meson not_le)
    have "we_eventNum (snd (ps ! i)) \<le> we_eventNum (snd (ps ! j))"
      using sorted_nth_mono[OF sorted le] j(1) i(1) by simp
    moreover have "map_get events (claim_id E q) = None" if "q \<noteq> ps ! i"
    proof -
      have "i < j" using le that j(2) by (cases "i = j") auto
      then show ?thesis using first j q(2) i(2) by (auto simp: ev)
    qed
    ultimately show ?thesis using j(2) by simp
  qed
  ultimately show ?thesis using i set by (intro bexI[of _ "ps ! i"]) auto
qed

definition demo_claim :: "string \<Rightarrow> byte \<Rightarrow> int \<Rightarrow> string \<times> WrappedEncryptedData" where
  "demo_claim user h n =
     (user, \<lparr>we_data = Some (demo_data (Some ''c'')), we_eventNum = n, we_eventHash = [h]\<rparr>)"

theorem snapshot_first_claim_wins_witness:
  "\<exists>w \<in> set [demo_claim ''bob'' 2 9, demo_claim ''alice'' 1 4]. claim_of w = Some ''c'' \<and>
     we_eventNum (snd w) \<le> 4 \<and> fst w = ''alice''"
proof -
  let ?ps = "[demo_claim ''bob'' 2 9, demo_claim ''alice'' 1 4]"
  have c: "claim_of (demo_claim u h n) = Some ''c''" for u h n
    by (simp add: claim_of_def demo_claim_def demo_data_def)
  have d: "distinct (map fst ?ps)" by (simp add: demo_claim_def)
  have i: "distinct (map (claim_id plain_externs) ?ps)" by code_simp
  have p: "demo_claim ''bob'' 2 9 \<in> set ?ps" by simp
  from snapshot_first_claim_wins[OF d i p c refl, of "[]" "[]" "[]" None True "''s''"]
  obtain w where w: "w \<in> set ?ps"
    "\<forall>q \<in> set ?ps. claim_of q = Some ''c'' \<longrightarrow> we_eventNum (snd w) \<le> we_eventNum (snd q)"
    by blast
  have "we_eventNum (snd w) \<le> we_eventNum (snd (demo_claim ''alice'' 1 4))" using w(2) c by simp
  then have "w = demo_claim ''alice'' 1 4" using w(1) by (auto simp: demo_claim_def)
  then show ?thesis by (simp add: c) (simp add: demo_claim_def)
qed

subsection \<open>Display names\<close>

datatype display_name_call =
    DAddEncryptedData string EncryptedData string bool "cleartext option" bool bool
  | DOnConfirmEvent string bool
  | DOnDecryptedContent string string bool

fun displayNames_step :: "display_name_call \<Rightarrow> DisplayNames \<Rightarrow> (DisplayNames, out) res" where
  "displayNames_step (DAddEncryptedData eventId d userId pending ct ee se) s =
     displayNames_addEncryptedData eventId d userId pending ct ee se s"
| "displayNames_step (DOnConfirmEvent eventId em) s = displayNames_onConfirmEvent eventId em s"
| "displayNames_step (DOnDecryptedContent eventId content em) s =
     displayNames_onDecryptedContent eventId content em s"

fun is_dispatch :: "out \<Rightarrow> bool" where
  "is_dispatch (newEncryptedContent _ _ _) = True"
| "is_dispatch _ = False"

definition dispatches :: "out list \<Rightarrow> nat" where
  "dispatches outs = length (filter is_dispatch outs)"

lemma dispatches_append [simp]: "dispatches (a @ b) = dispatches a + dispatches b"
  and dispatches_Nil [simp]: "dispatches [] = 0"
  by (simp_all add: dispatches_def)

lemma dispatches_emit_name [simp]: "dispatches (emitDisplayNameUpdated eventId em d) = 0"
  by (auto simp: emitDisplayNameUpdated_def dispatches_def emit_def split: option.split)

lemma count_bookkeeping [simp]:
  "dn_decryptionDispatchCount (displayNames_addEventForUserId userId eventId pending
     (displayNames_removeEventForUserId userId d)) = dn_decryptionDispatchCount d"
  "dn_plaintextDisplayNames (displayNames_addEventForUserId userId eventId pending
     (displayNames_removeEventForUserId userId d)) = dn_plaintextDisplayNames d"
  "dn_streamId (displayNames_addEventForUserId userId eventId pending
     (displayNames_removeEventForUserId userId d)) = dn_streamId d"
  "map_get (dn_displayNameEvents (displayNames_addEventForUserId userId eventId pending
     (displayNames_removeEventForUserId userId d))) eventId =
       Some \<lparr>dne_userId = userId, dne_pending = pending\<rparr>"
  by (auto simp: displayNames_addEventForUserId_def displayNames_removeEventForUserId_def
      split: option.split)

lemma displayNames_step_count:
  assumes "dn_decryptionDispatchCount d \<le> MAX_DECRYPTED_NAMES_PER_STREAM"
  shows "dispatches (outs_of (displayNames_step x d)) + dn_decryptionDispatchCount d \<le>
      dn_decryptionDispatchCount (st_of (displayNames_step x d))"
    and "dn_decryptionDispatchCount (st_of (displayNames_step x d)) \<le> MAX_DECRYPTED_NAMES_PER_STREAM"
    and "exn_of (displayNames_step x d) = None"
  using assms
  by (cases x; auto simp: displayNames_addEncryptedData_def displayNames_onConfirmEvent_def
      displayNames_onDecryptedContent_def Let_def emit_def dispatches_def[of "[_]"]
      split: option.split prod.split)+

interpretation dn: component
  "\<lambda>d. dn_decryptionDispatchCount d \<le> MAX_DECRYPTED_NAMES_PER_STREAM" displayNames_step
  by unfold_locales (rule displayNames_step_count(2))

lemma displayNames_dispatches:
  "dn_decryptionDispatchCount d \<le> MAX_DECRYPTED_NAMES_PER_STREAM \<Longrightarrow>
   dispatches (outs_of (for_each displayNames_step calls d)) + dn_decryptionDispatchCount d \<le>
     dn_decryptionDispatchCount (st_of (for_each displayNames_step calls d))"
proof (induction calls arbitrary: d)
  case Nil
  then show ?case by simp
next
  case (Cons x calls)
  note s = displayNames_step_count[OF Cons.prems, of x]
  from Cons.IH[OF s(2)] s(1,3) show ?case by (simp add: and_then_sels)
qed

text \<open>The guard against decryption spam holds: whatever calls a display-name view receives, it
  hands at most 50 names to the decryption queue over its whole life.
\<close>

theorem displayNames_dispatch_bound:
  "dispatches (outs_of (for_each displayNames_step calls (new_DisplayNames streamId))) \<le> 50"
proof -
  let ?d = "new_DisplayNames streamId"
  have 0: "dn_decryptionDispatchCount ?d \<le> MAX_DECRYPTED_NAMES_PER_STREAM"
    by (simp add: new_DisplayNames_def)
  from displayNames_dispatches[OF 0, of calls] dn.loop_inv[OF 0, of calls] show ?thesis
    by (simp add: new_DisplayNames_def MAX_DECRYPTED_NAMES_PER_STREAM_def)
qed

text \<open>Once the 50 dispatches are used up, a name change is not reflected: the new encrypted name is
  registered for the user, but the old plaintext stays, it is not reported as encrypted, nothing is
  queued for decryption, and the update event announces the old name.
\<close>

theorem displayName_change_keeps_stale_name:
  assumes "dn_decryptionDispatchCount d \<ge> 50"
    and "map_get (dn_plaintextDisplayNames d) userId = Some old"
    and "r = displayNames_addEncryptedData eventId data userId True None True True d"
  shows "displayNames_info (st_of r) userId = (old, False) \<and>
    map_get (dn_userIdToEventId (st_of r)) userId = Some eventId \<and>
    outs_of r = [streamPendingDisplayNameUpdated (dn_streamId d) userId]"
  using assms(1,2)
  by (simp add: assms(3) displayNames_addEncryptedData_def truthy_cleartext_def
      MAX_DECRYPTED_NAMES_PER_STREAM_def displayNames_info_def map_get_or_def
      emitDisplayNameUpdated_def)
     (simp add: displayNames_addEventForUserId_def)

theorem displayName_change_keeps_stale_name_witness:
  "displayNames_info (st_of (displayNames_addEncryptedData ''e2'' (demo_data None) ''alice'' True None
      True True ((new_DisplayNames ''s'')\<lparr>dn_decryptionDispatchCount := 50,
        dn_plaintextDisplayNames := [(''alice'', ''Al'')]\<rparr>))) ''alice'' = (''Al'', False)"
  using displayName_change_keeps_stale_name[OF _ _ refl,
      of "(new_DisplayNames ''s'')\<lparr>dn_decryptionDispatchCount := 50,
        dn_plaintextDisplayNames := [(''alice'', ''Al'')]\<rparr>" "''alice''" "''Al''"]
  by simp

subsection \<open>ENS addresses and NFTs take effect on confirmation\<close>

lemma ens_add_pending:
  "ea_confirmedEnsAddresses (st_of (addEnsAddressEvent E eventId addr userId True se a)) =
     ea_confirmedEnsAddresses a"
  "map_get (ea_ensAddressEvents (st_of (addEnsAddressEvent E eventId addr userId True se a))) eventId =
     Some \<lparr>ee_ensAddress = addr, ee_userId = userId, ee_pending = True\<rparr>"
  "exn_of (addEnsAddressEvent E eventId addr userId True se a) = None"
  by (auto simp: addEnsAddressEvent_def Let_def ensAddresses_addEventForUserId_def
      ensAddresses_removeEventForUserId_def split: option.split)

lemma ens_confirm:
  assumes "map_get (ea_ensAddressEvents a) eventId = Some e"
    and "ee_ensAddress e = [] \<or> userIdFromAddress E (ee_ensAddress e) = Some x"
  shows "ensAddresses_info (st_of (ensAddresses_onConfirmEvent E eventId se a)) v =
    (if v = ee_userId e then if ee_ensAddress e = [] then None else Some x
     else ensAddresses_info a v)"
  using assms
  by (auto simp: ensAddresses_onConfirmEvent_def confirm_ens_def ensAddresses_info_def Let_def)

lemma nft_add_pending:
  "nf_confirmedNfts (st_of (addNftEvent eventId nft userId True se n)) = nf_confirmedNfts n"
  "map_get (nf_nftEvents (st_of (addNftEvent eventId nft userId True se n))) eventId =
     Some \<lparr>nfe_nft = nft, nfe_userId = userId, nfe_pending = True\<rparr>"
  by (auto simp: addNftEvent_def Let_def nfts_addEventForUserId_def nfts_removeEventForUserId_def
      split: option.split)

lemma nft_confirm:
  assumes "map_get (nf_nftEvents n) eventId = Some e"
  shows "map_get (nf_confirmedNfts (st_of (nfts_onConfirmEvent eventId se n))) v =
    (if v = nfe_userId e then if isValidNft (nfe_nft e) then Some (nfe_nft e) else None
     else map_get (nf_confirmedNfts n) v)"
  using assms by (auto simp: nfts_onConfirmEvent_def confirm_nft_def Let_def)

text \<open>ENS addresses and NFTs take effect when their event is confirmed in a miniblock, and only
  then: appending leaves everybody's confirmed values alone; confirming sets the value of the one
  user, or clears it for an empty address or an invalid NFT.
\<close>

theorem ens_and_nft_confirmed_only:
  assumes "m1 = st_of (appendNft nid nft userId se
      (st_of (appendEnsAddress E eid addr userId se m)))"
    and "m2 = st_of (on_nfts (nfts_onConfirmEvent nid se')
      (st_of (on_ensAddresses (ensAddresses_onConfirmEvent E eid se') m1)))"
    and "addr \<noteq> []" "userIdFromAddress E addr = Some x"
  shows "ensAddresses_info (mm_ensAddresses m1) v = ensAddresses_info (mm_ensAddresses m) v \<and>
    map_get (nf_confirmedNfts (mm_nfts m1)) v = map_get (nf_confirmedNfts (mm_nfts m)) v \<and>
    ensAddresses_info (mm_ensAddresses m2) v =
      (if v = userId then Some x else ensAddresses_info (mm_ensAddresses m) v) \<and>
    map_get (nf_confirmedNfts (mm_nfts m2)) v =
      (if v = userId then if isValidNft nft then Some nft else None
       else map_get (nf_confirmedNfts (mm_nfts m)) v)"
proof -
  have e: "mm_ensAddresses m1 = st_of (addEnsAddressEvent E eid addr userId True se (mm_ensAddresses m))"
    and n: "mm_nfts m1 = st_of (addNftEvent nid nft userId True se (mm_nfts m))"
    by (simp_all add: assms(1) appendNft_def appendEnsAddress_def on_part_defs)
  have e2: "mm_ensAddresses m2 = st_of (ensAddresses_onConfirmEvent E eid se' (mm_ensAddresses m1))"
    and n2: "mm_nfts m2 = st_of (nfts_onConfirmEvent nid se' (mm_nfts m1))"
    by (simp_all add: assms(2) on_part_defs)
  have info: "ensAddresses_info (mm_ensAddresses m1) v = ensAddresses_info (mm_ensAddresses m) v"
    by (simp add: e ensAddresses_info_def ens_add_pending(1))
  moreover have "ensAddresses_info (mm_ensAddresses m2) v =
      (if v = userId then Some x else ensAddresses_info (mm_ensAddresses m) v)"
    unfolding e2 info[symmetric]
    by (subst ens_confirm[of _ _ "\<lparr>ee_ensAddress = addr, ee_userId = userId, ee_pending = True\<rparr>" E x])
       (simp_all add: e ens_add_pending(2) assms(3,4))
  moreover have "map_get (nf_confirmedNfts (mm_nfts m1)) v = map_get (nf_confirmedNfts (mm_nfts m)) v"
    by (simp add: n nft_add_pending(1))
  moreover have "map_get (nf_confirmedNfts (mm_nfts m2)) v =
      (if v = userId then if isValidNft nft then Some nft else None
       else map_get (nf_confirmedNfts (mm_nfts m)) v)"
    unfolding n2
    by (subst nft_confirm[of _ _ "\<lparr>nfe_nft = nft, nfe_userId = userId, nfe_pending = True\<rparr>"])
       (simp_all add: n nft_add_pending)
  ultimately show ?thesis by blast
qed

theorem ens_and_nft_confirmed_only_witness:
  "\<exists>(m2 :: MemberMetadata) x. ensAddresses_info (mm_ensAddresses m2) ''alice'' = Some x \<and>
     map_get (nf_confirmedNfts (mm_nfts m2)) ''alice'' =
       Some \<lparr>nft_chainId = 1, nft_contractAddress = [2], nft_tokenId = [3]\<rparr>"
proof -
  let ?nft = "\<lparr>nft_chainId = 1, nft_contractAddress = [2], nft_tokenId = [3]\<rparr>"
  let ?a = "replicate 20 (7 :: byte)"
  have "\<exists>x. userIdFromAddress plain_externs ?a = Some x"
    by (simp add: userIdFromAddress_def bin_toHexString_def plain_externs_def plain_hex_lower)
  then obtain x where x: "userIdFromAddress plain_externs ?a = Some x" ..
  have "?a \<noteq> []" by simp
  let ?m1 = "st_of (appendNft ''n1'' ?nft ''alice'' True
      (st_of (appendEnsAddress plain_externs ''e1'' ?a ''alice'' True (new_MemberMetadata ''s''))))"
  let ?m2 = "st_of (on_nfts (nfts_onConfirmEvent ''n1'' True)
      (st_of (on_ensAddresses (ensAddresses_onConfirmEvent plain_externs ''e1'' True) ?m1)))"
  have "isValidNft ?nft" by (simp add: isValidNft_def)
  with ens_and_nft_confirmed_only[OF refl refl \<open>?a \<noteq> []\<close> x, where nid = "''n1''" and nft = ?nft
      and userId = "''alice''" and se = True and eid = "''e1''" and m = "new_MemberMetadata ''s''"
      and se' = True and v = "''alice''"]
  have "ensAddresses_info (mm_ensAddresses ?m2) ''alice'' = Some x"
    "map_get (nf_confirmedNfts (mm_nfts ?m2)) ''alice'' = Some ?nft"
    by simp_all
  then show ?thesis by (intro exI[of _ ?m2] exI[of _ x] conjI)
qed

end
