(* ===== verification/Views.thy ===== *)
theory Views
  imports StreamEvents
begin

section \<open>Observable records of the streams\<close>

text \<open>
  \<open>packages/sdk/src/observable/observableRecord.ts\<close> and the views under
  \<open>packages/sdk/src/views/streams\<close> that the stream views write to: \<open>streamMemberIds.ts\<close>,
  \<open>streamStatus.ts\<close>, \<open>spaceStreams.ts\<close>, \<open>dmStreams.ts\<close>, \<open>gdmStreams.ts\<close>, \<open>userStreamsView.ts\<close> and
  \<open>userSettingsStreams.ts\<close>. A view is the record it holds, a map from stream ids to models; the
  notification of subscribers is not modelled.
\<close>

subsection \<open>ObservableRecord\<close>

definition record_get :: "('k \<Rightarrow> 'v) \<Rightarrow> ('k, 'v) jsmap \<Rightarrow> 'k \<Rightarrow> 'v" where
  "record_get makeDefault m key = (case map_get m key of Some v \<Rightarrow> v | None \<Rightarrow> makeDefault key)"

definition setValueFor :: "'k \<Rightarrow> 'v \<Rightarrow> ('k, 'v) jsmap \<Rightarrow> ('k, 'v) jsmap" where
  "setValueFor key value m = map_set key value m"

text \<open>The pattern \<open>set(prev => ({...prev, [k]: f(prev[k] ?? makeDefault(k))}))\<close> of the views.\<close>

definition record_modify :: "('k \<Rightarrow> 'v) \<Rightarrow> 'k \<Rightarrow> ('v \<Rightarrow> 'v) \<Rightarrow> ('k, 'v) jsmap \<Rightarrow> ('k, 'v) jsmap" where
  "record_modify makeDefault key f m = setValueFor key (f (record_get makeDefault m key)) m"

text \<open>What the clients of a keyed view rely on: an update is seen at its key and nowhere else.\<close>

locale keyed_view =
  fixes get :: "'m \<Rightarrow> 'k \<Rightarrow> 'v" and modify :: "'k \<Rightarrow> ('v \<Rightarrow> 'v) \<Rightarrow> 'm \<Rightarrow> 'm"
  assumes get_modify: "get (modify k f m) k' = (if k' = k then f (get m k) else get m k')"
begin

lemma get_modify_same: "get (modify k f m) k = f (get m k)"
  by (simp add: get_modify)

lemma get_modify_fold:
  "get (fold (\<lambda>x. modify k (f x)) xs m) k' = (if k' = k then fold f xs (get m k) else get m k')"
  by (induction xs arbitrary: m) (auto simp: get_modify)

lemma modify_modify_get:
  "get (modify k f (modify k g m)) k' = get (modify k (\<lambda>v. f (g v)) m) k'"
  by (simp add: get_modify)

end

interpretation orec: keyed_view "record_get makeDefault" "record_modify makeDefault" for makeDefault
  by unfold_locales (simp add: record_get_def record_modify_def setValueFor_def)

subsection \<open>streamMemberIds.ts\<close>

text \<open>JavaScript's default sort compares UTF-16 code units; on ASCII strings, such as user ids, this
  is the lexicographic order of the characters.\<close>

type_synonym StreamMemberIdsView = "(string, string list) jsmap"

definition memberIds_get :: "StreamMemberIdsView \<Rightarrow> string \<Rightarrow> string list" where
  "memberIds_get = record_get (\<lambda>_. [])"

definition setMembers :: "string \<Rightarrow> string list \<Rightarrow> StreamMemberIdsView \<Rightarrow> StreamMemberIdsView" where
  "setMembers streamId memberIds v = setValueFor streamId (sort memberIds) v"

definition addMember :: "string \<Rightarrow> string \<Rightarrow> StreamMemberIdsView \<Rightarrow> StreamMemberIdsView" where
  "addMember streamId memberId =
     record_modify (\<lambda>_. []) streamId (\<lambda>prev. sort (memberId # prev))"

definition removeMember :: "string \<Rightarrow> string \<Rightarrow> StreamMemberIdsView \<Rightarrow> StreamMemberIdsView" where
  "removeMember streamId memberId v =
     (case map_get v streamId of
        None \<Rightarrow> v
      | Some ids \<Rightarrow> map_set streamId (filter (\<lambda>id. id \<noteq> memberId) ids) v)"

lemma memberIds_get_setMembers [simp]:
  "memberIds_get (setMembers s ids v) s' = (if s' = s then sort ids else memberIds_get v s')"
  by (simp add: memberIds_get_def setMembers_def record_get_def setValueFor_def)

lemma memberIds_get_addMember [simp]:
  "memberIds_get (addMember s u v) s' =
     (if s' = s then sort (u # memberIds_get v s) else memberIds_get v s')"
  unfolding memberIds_get_def addMember_def by (rule orec.get_modify)

lemma memberIds_get_removeMember [simp]:
  "memberIds_get (removeMember s u v) s' =
     (if s' = s then filter (\<lambda>id. id \<noteq> u) (memberIds_get v s) else memberIds_get v s')"
  by (simp add: memberIds_get_def removeMember_def record_get_def split: option.split)

subsection \<open>streamStatus.ts\<close>

record StreamStatusModel =
  st_streamId :: string
  st_isInitialized :: bool
  st_isUpToDate :: bool

type_synonym StreamStatus = "(string, StreamStatusModel) jsmap"

definition default_status :: "string \<Rightarrow> StreamStatusModel" where
  "default_status streamId =
     \<lparr>st_streamId = streamId, st_isInitialized = False, st_isUpToDate = False\<rparr>"

definition status_get :: "StreamStatus \<Rightarrow> string \<Rightarrow> StreamStatusModel" where
  "status_get = record_get default_status"

definition setIsUpToDate :: "string \<Rightarrow> bool \<Rightarrow> StreamStatus \<Rightarrow> StreamStatus" where
  "setIsUpToDate streamId isUpToDate =
     record_modify default_status streamId (\<lambda>m. m\<lparr>st_isUpToDate := isUpToDate\<rparr>)"

definition setIsInitialized :: "string \<Rightarrow> bool \<Rightarrow> StreamStatus \<Rightarrow> StreamStatus" where
  "setIsInitialized streamId isInitialized =
     record_modify default_status streamId (\<lambda>m. m\<lparr>st_isInitialized := isInitialized\<rparr>)"

subsection \<open>spaceStreams.ts\<close>

record ParsedChannelProperties =
  pcp_isDefault :: bool
  pcp_updatedAtEventNum :: int
  pcp_isAutojoin :: bool
  pcp_hideUserJoinLeaveEvents :: bool

record SpaceStreamModel =
  ssm_streamId :: string
  ssm_channelsMetadata :: "(string, ParsedChannelProperties) jsmap"

type_synonym SpaceStreamsView = "(string, SpaceStreamModel) jsmap"

definition default_space :: "string \<Rightarrow> SpaceStreamModel" where
  "default_space spaceStreamId = \<lparr>ssm_streamId = spaceStreamId, ssm_channelsMetadata = []\<rparr>"

definition space_get :: "SpaceStreamsView \<Rightarrow> string \<Rightarrow> SpaceStreamModel" where
  "space_get = record_get default_space"

definition default_channel :: ParsedChannelProperties where
  "default_channel = \<lparr>pcp_isDefault = False, pcp_updatedAtEventNum = 0, pcp_isAutojoin = False,
     pcp_hideUserJoinLeaveEvents = False\<rparr>"

text \<open>\<open>delete\<close>, with whether the record changed.\<close>

definition space_delete :: "string \<Rightarrow> string \<Rightarrow> SpaceStreamsView \<Rightarrow> SpaceStreamsView \<times> bool" where
  "space_delete spaceStreamId channelId v =
     (case map_get v spaceStreamId of
        None \<Rightarrow> (v, False)
      | Some space \<Rightarrow>
          if map_get (ssm_channelsMetadata space) channelId = None then (v, False)
          else (map_set spaceStreamId
                  (space\<lparr>ssm_channelsMetadata := map_delete channelId (ssm_channelsMetadata space)\<rparr>) v,
                True))"

text \<open>A partial update of the properties is a function on them.\<close>

definition updateChannelMetadata ::
  "string \<Rightarrow> string \<Rightarrow> (ParsedChannelProperties \<Rightarrow> ParsedChannelProperties) \<Rightarrow> SpaceStreamsView \<Rightarrow>
   SpaceStreamsView" where
  "updateChannelMetadata spaceStreamId channelId properties =
     record_modify default_space spaceStreamId (\<lambda>space.
       space\<lparr>ssm_channelsMetadata := map_set channelId
         (properties (map_get_or (ssm_channelsMetadata space) channelId default_channel))
         (ssm_channelsMetadata space)\<rparr>)"

lemma space_get_updateChannelMetadata [simp]:
  "space_get (updateChannelMetadata s c f v) s' =
     (if s' = s
      then (space_get v s)\<lparr>ssm_channelsMetadata := map_set c
        (f (map_get_or (ssm_channelsMetadata (space_get v s)) c default_channel))
        (ssm_channelsMetadata (space_get v s))\<rparr>
      else space_get v s')"
  unfolding space_get_def updateChannelMetadata_def by (rule orec.get_modify)

lemma space_get_delete [simp]:
  "map_get (ssm_channelsMetadata (space_get (fst (space_delete s c v)) s)) c' =
     (if c' = c then None else map_get (ssm_channelsMetadata (space_get v s)) c')"
  "snd (space_delete s c v) \<longleftrightarrow> map_has (ssm_channelsMetadata (space_get v s)) c"
  "s' \<noteq> s \<Longrightarrow> space_get (fst (space_delete s c v)) s' = space_get v s'"
  by (auto simp: space_delete_def space_get_def record_get_def default_space_def split: option.splits)

subsection \<open>dmStreams.ts and gdmStreams.ts\<close>

record DmStreamModel =
  dm_streamId :: string
  dm_firstPartyId :: "string option"
  dm_secondPartyId :: "string option"
  dm_lastEventCreatedAtEpochMs :: int

type_synonym DmStreamsView = "(string, DmStreamModel) jsmap"

definition default_dm :: "string \<Rightarrow> DmStreamModel" where
  "default_dm streamId = \<lparr>dm_streamId = streamId, dm_firstPartyId = None, dm_secondPartyId = None,
     dm_lastEventCreatedAtEpochMs = 0\<rparr>"

definition dm_get :: "DmStreamsView \<Rightarrow> string \<Rightarrow> DmStreamModel" where
  "dm_get = record_get default_dm"

definition setParticipants :: "string \<Rightarrow> string \<Rightarrow> string \<Rightarrow> DmStreamsView \<Rightarrow> DmStreamsView" where
  "setParticipants streamId firstPartyId secondPartyId =
     record_modify default_dm streamId
       (\<lambda>m. m\<lparr>dm_firstPartyId := Some firstPartyId, dm_secondPartyId := Some secondPartyId\<rparr>)"

definition dm_setLastEventCreatedAtEpochMs :: "string \<Rightarrow> int \<Rightarrow> DmStreamsView \<Rightarrow> DmStreamsView" where
  "dm_setLastEventCreatedAtEpochMs streamId t =
     record_modify default_dm streamId (\<lambda>m. m\<lparr>dm_lastEventCreatedAtEpochMs := t\<rparr>)"

record GdmStreamModel =
  gdm_streamId :: string
  gdm_lastEventCreatedAtEpochMs :: int
  gdm_metadata :: "ChannelProperties option"
  gdm_metadataEventId :: "string option"
  gdm_latestMetadataEventId :: "string option"

type_synonym GdmStreamsView = "(string, GdmStreamModel) jsmap"

definition default_gdm :: "string \<Rightarrow> GdmStreamModel" where
  "default_gdm streamId = \<lparr>gdm_streamId = streamId, gdm_lastEventCreatedAtEpochMs = 0,
     gdm_metadata = None, gdm_metadataEventId = None, gdm_latestMetadataEventId = None\<rparr>"

definition gdm_get :: "GdmStreamsView \<Rightarrow> string \<Rightarrow> GdmStreamModel" where
  "gdm_get = record_get default_gdm"

definition gdm_setLastEventCreatedAtEpochMs :: "string \<Rightarrow> int \<Rightarrow> GdmStreamsView \<Rightarrow> GdmStreamsView" where
  "gdm_setLastEventCreatedAtEpochMs streamId t =
     record_modify default_gdm streamId (\<lambda>m. m\<lparr>gdm_lastEventCreatedAtEpochMs := t\<rparr>)"

definition setMetadata :: "string \<Rightarrow> ChannelProperties \<Rightarrow> string \<Rightarrow> GdmStreamsView \<Rightarrow> GdmStreamsView" where
  "setMetadata streamId metadata eventId =
     record_modify default_gdm streamId
       (\<lambda>m. m\<lparr>gdm_metadata := Some metadata, gdm_metadataEventId := Some eventId\<rparr>)"

definition setLatestMetadataEventId :: "string \<Rightarrow> string \<Rightarrow> GdmStreamsView \<Rightarrow> GdmStreamsView" where
  "setLatestMetadataEventId streamId eventId =
     record_modify default_gdm streamId (\<lambda>m. m\<lparr>gdm_latestMetadataEventId := Some eventId\<rparr>)"

subsection \<open>userStreamsView.ts\<close>

record UserStreamModel =
  usm_streamId :: string
  usm_streamMemberships :: "(string, UserMembership) jsmap"
  usm_tipsSent :: tally
  usm_tipsReceived :: tally
  usm_tipsSentCount :: tally
  usm_tipsReceivedCount :: tally
  usm_tokenTransfers :: "TokenTransfer list"

type_synonym UserStreamsView = "(string, UserStreamModel) jsmap"

definition default_user :: "string \<Rightarrow> UserStreamModel" where
  "default_user userStreamId = \<lparr>usm_streamId = userStreamId, usm_streamMemberships = [],
     usm_tipsSent = [], usm_tipsReceived = [], usm_tipsSentCount = [], usm_tipsReceivedCount = [],
     usm_tokenTransfers = []\<rparr>"

definition user_get :: "UserStreamsView \<Rightarrow> string \<Rightarrow> UserStreamModel" where
  "user_get = record_get default_user"

text \<open>\<open>{...t, [c]: (t[c] ?? 0n) + amount}\<close>.\<close>

definition tally_add :: "string \<Rightarrow> int \<Rightarrow> tally \<Rightarrow> tally" where
  "tally_add currency amount t = map_set currency (map_get_or t currency 0 + amount) t"

definition setMembership :: "string \<Rightarrow> string \<Rightarrow> UserMembership \<Rightarrow> UserStreamsView \<Rightarrow> UserStreamsView" where
  "setMembership userStreamId streamId membership =
     record_modify default_user userStreamId
       (\<lambda>m. m\<lparr>usm_streamMemberships := map_set streamId membership (usm_streamMemberships m)\<rparr>)"

definition setTips ::
  "string \<Rightarrow> tally \<Rightarrow> tally \<Rightarrow> tally \<Rightarrow> tally \<Rightarrow> UserStreamsView \<Rightarrow> UserStreamsView" where
  "setTips userStreamId sent received sentCount receivedCount =
     record_modify default_user userStreamId
       (\<lambda>m. m\<lparr>usm_tipsSent := sent, usm_tipsReceived := received, usm_tipsSentCount := sentCount,
              usm_tipsReceivedCount := receivedCount\<rparr>)"

definition prependTokenTransfer :: "string \<Rightarrow> TokenTransfer \<Rightarrow> UserStreamsView \<Rightarrow> UserStreamsView" where
  "prependTokenTransfer userStreamId tokenTransfer =
     record_modify default_user userStreamId
       (\<lambda>m. m\<lparr>usm_tokenTransfers := tokenTransfer # usm_tokenTransfers m\<rparr>)"

definition appendTokenTransfer :: "string \<Rightarrow> TokenTransfer \<Rightarrow> UserStreamsView \<Rightarrow> UserStreamsView" where
  "appendTokenTransfer userStreamId tokenTransfer =
     record_modify default_user userStreamId
       (\<lambda>m. m\<lparr>usm_tokenTransfers := usm_tokenTransfers m @ [tokenTransfer]\<rparr>)"

definition appendTipSent :: "string \<Rightarrow> string \<Rightarrow> int \<Rightarrow> UserStreamsView \<Rightarrow> UserStreamsView" where
  "appendTipSent userStreamId currency amount =
     record_modify default_user userStreamId
       (\<lambda>m. m\<lparr>usm_tipsSent := tally_add currency amount (usm_tipsSent m),
              usm_tipsSentCount := tally_add currency 1 (usm_tipsSentCount m)\<rparr>)"

definition appendTipReceived :: "string \<Rightarrow> string \<Rightarrow> int \<Rightarrow> UserStreamsView \<Rightarrow> UserStreamsView" where
  "appendTipReceived userStreamId currency amount =
     record_modify default_user userStreamId
       (\<lambda>m. m\<lparr>usm_tipsReceived := tally_add currency amount (usm_tipsReceived m),
              usm_tipsReceivedCount := tally_add currency 1 (usm_tipsReceivedCount m)\<rparr>)"

lemma tally_add_get [simp]:
  "map_get_or (tally_add c a t) c' 0 = (if c' = c then map_get_or t c 0 + a else map_get_or t c' 0)"
  by (simp add: tally_add_def)

subsection \<open>userSettingsStreams.ts\<close>

record UserSettingsStreamModel =
  usn_streamId :: string
  usn_fullyReadMarkers :: "(string, (string, FullyReadMarker) jsmap) jsmap"
  usn_userBlocks :: "(string, UserBlocks) jsmap"

type_synonym UserSettingsStreamsView = "(string, UserSettingsStreamModel) jsmap"

definition default_user_settings :: "string \<Rightarrow> UserSettingsStreamModel" where
  "default_user_settings streamId =
     \<lparr>usn_streamId = streamId, usn_fullyReadMarkers = [], usn_userBlocks = []\<rparr>"

definition user_settings_get :: "UserSettingsStreamsView \<Rightarrow> string \<Rightarrow> UserSettingsStreamModel" where
  "user_settings_get = record_get default_user_settings"

definition EMPTY_USER_BLOCKS :: UserBlocks where
  "EMPTY_USER_BLOCKS = \<lparr>ubs_userId = [], ubs_blocks = []\<rparr>"

definition setFullyReadMarkers ::
  "string \<Rightarrow> string \<Rightarrow> (string, FullyReadMarker) jsmap \<Rightarrow> UserSettingsStreamsView \<Rightarrow>
   UserSettingsStreamsView" where
  "setFullyReadMarkers userSettingsStreamId streamId markers =
     record_modify default_user_settings userSettingsStreamId
       (\<lambda>m. m\<lparr>usn_fullyReadMarkers := map_set streamId markers (usn_fullyReadMarkers m)\<rparr>)"

definition setUserBlocks ::
  "string \<Rightarrow> string \<Rightarrow> UserBlocks \<Rightarrow> UserSettingsStreamsView \<Rightarrow> UserSettingsStreamsView" where
  "setUserBlocks userSettingsStreamId userId userBlocks =
     record_modify default_user_settings userSettingsStreamId
       (\<lambda>m. m\<lparr>usn_userBlocks := map_set userId userBlocks (usn_userBlocks m)\<rparr>)"

definition updateUserBlock ::
  "string \<Rightarrow> string \<Rightarrow> SnapshotBlock \<Rightarrow> UserSettingsStreamsView \<Rightarrow> UserSettingsStreamsView" where
  "updateUserBlock userSettingsStreamId userId userBlock =
     record_modify default_user_settings userSettingsStreamId (\<lambda>m.
       let prev = map_get_or (usn_userBlocks m) userId EMPTY_USER_BLOCKS
       in m\<lparr>usn_userBlocks := map_set userId
            (prev\<lparr>ubs_blocks := ubs_blocks prev @ [userBlock]\<rparr>) (usn_userBlocks m)\<rparr>)"

lemma user_settings_get_modify [simp]:
  "user_settings_get (record_modify default_user_settings s f v) s' =
     (if s' = s then f (user_settings_get v s) else user_settings_get v s')"
  unfolding user_settings_get_def by (rule orec.get_modify)

lemma user_get_modify [simp]:
  "user_get (record_modify default_user s f v) s' =
     (if s' = s then f (user_get v s) else user_get v s')"
  unfolding user_get_def by (rule orec.get_modify)

lemma dm_get_modify [simp]:
  "dm_get (record_modify default_dm s f v) s' = (if s' = s then f (dm_get v s) else dm_get v s')"
  unfolding dm_get_def by (rule orec.get_modify)

lemma gdm_get_modify [simp]:
  "gdm_get (record_modify default_gdm s f v) s' = (if s' = s then f (gdm_get v s) else gdm_get v s')"
  unfolding gdm_get_def by (rule orec.get_modify)

lemma status_get_modify [simp]:
  "status_get (record_modify default_status s f v) s' =
     (if s' = s then f (status_get v s) else status_get v s')"
  unfolding status_get_def by (rule orec.get_modify)

end
