(* ===== verification/Signing.thy ===== *)
theory Signing
  imports Events
begin

section \<open>Hashing, signing and unpacking envelopes\<close>

text \<open>
  \<open>packages/sdk/src/sign.ts\<close>, \<open>packages/sdk/src/signerContext.ts\<close> and \<open>eventIdsFromSnapshot\<close> of
  \<open>packages/sdk/src/persistenceStore.ts\<close>. The elliptic curve, the hash functions and the protobuf
  codecs are third-party: fields of \<open>sign_externs\<close>. A streaming hash is the hash of the
  concatenation of its updates. \<open>await\<close> runs the awaited call to its end; the parts of a stream
  are unpacked in order, so of several errors the first is reported.
\<close>

record sign_externs = protocol_externs +
  x_sha256 :: "bytes \<Rightarrow> bytes"
  x_secp_sign :: "bytes \<Rightarrow> string \<Rightarrow> (bytes \<times> byte option) option"
  x_secp_verify :: "bytes \<Rightarrow> bytes \<Rightarrow> string_or_bytes \<Rightarrow> bool option"
  x_secp_recover :: "bytes \<Rightarrow> int \<Rightarrow> int \<Rightarrow> byte \<Rightarrow> bytes option"
  x_hashPersonalMessage :: "bytes \<Rightarrow> bytes"
  x_fromRPCSig :: "string \<Rightarrow> (int \<times> bytes \<times> bytes) option"
  x_ecrecover :: "bytes \<Rightarrow> int \<Rightarrow> bytes \<Rightarrow> bytes \<Rightarrow> bytes option"

record Envelope =
  en_hash :: bytes
  en_signature :: bytes
  en_event :: bytes

record Miniblock =
  mk_events :: "Envelope list"
  mk_header :: "Envelope option"

record StreamAndCookie =
  sk_events :: "Envelope list"
  sk_nextSyncCookie :: "SyncCookie option"
  sk_miniblocks :: "Miniblock list"
  sk_syncReset :: bool
  sk_snapshot :: "Envelope option"

record UnpackEnvelopeOpts =
  uo_disableHashValidation :: "bool option"
  uo_disableSignatureValidation :: "bool option"

record SignerContext =
  sx_signerPrivateKey :: string
  sx_creatorAddress :: bytes
  sx_delegateSig :: "bytes option"
  sx_delegateExpiryEpochMs :: "int option"

subsection \<open>Byte layouts\<close>

definition HASH_HEADER :: bytes where "HASH_HEADER = [67, 83, 66, 76, 65, 78, 67, 65]"
definition HASH_SEPARATOR :: bytes where "HASH_SEPARATOR = [65, 66, 67, 68, 69, 70, 71, 62]"
definition HASH_FOOTER :: bytes where "HASH_FOOTER = [60, 71, 70, 69, 68, 67, 66, 65]"
definition RIVER_SIG_HEADER :: bytes where "RIVER_SIG_HEADER = [82, 73, 86, 69, 82, 83, 73, 71]"
definition SNAPSHOT_HEADER :: bytes where "SNAPSHOT_HEADER = [83, 78, 65, 80, 83, 72, 79, 84]"

text \<open>The operator \<open>>>>\<close> first reduces its operand to 32 bits; a write past the end of a typed array
  is ignored.\<close>

function le_loop :: "nat \<Rightarrow> nat \<Rightarrow> bytes \<Rightarrow> bytes" where
  "le_loop i num result =
     (if num = 0 then result
      else le_loop (i + 1) ((num mod 2 ^ 32) div 256) (result[i := of_nat (num mod 256)]))"
  by pat_completeness auto
termination
  by (relation "measure (\<lambda>(_, n, _). n)")
     (auto intro: le_less_trans[OF div_le_mono[OF mod_less_eq_dividend]])

declare le_loop.simps [simp del]

definition numberToUint8Array64LE :: "nat \<Rightarrow> bytes" where
  "numberToUint8Array64LE num = le_loop 0 num (replicate 8 0)"

text \<open>\<open>setBigInt64\<close> stores the value modulo \<open>2 ^ 64\<close>.\<close>

definition bigintToUint8Array64 :: "int \<Rightarrow> bool \<Rightarrow> bytes" where
  "bigintToUint8Array64 num littleEndian =
     (let be = be_encode 8 (nat (num mod 2 ^ 64)) in if littleEndian then rev be else be)"

definition pushByteToUint8Array :: "bytes \<Rightarrow> byte \<Rightarrow> bytes" where
  "pushByteToUint8Array arr b = arr @ [b]"

definition checkSignature :: "bytes \<Rightarrow> exn + unit" where
  "checkSignature signature = guardE (length signature = 65) LibError"

definition checkHash :: "bytes \<Rightarrow> exn + unit" where
  "checkHash hash = guardE (length hash = 32) LibError"

definition river_preimage :: "bytes \<Rightarrow> bytes \<Rightarrow> bytes" where
  "river_preimage header data =
     header @ numberToUint8Array64LE (length data) @ HASH_SEPARATOR @ data @ HASH_FOOTER"

definition riverHash :: "'a externs_scheme \<Rightarrow> bytes \<Rightarrow> bytes" where
  "riverHash E data = x_keccak256 E (river_preimage HASH_HEADER data)"

definition riverSnapshotHash :: "'a externs_scheme \<Rightarrow> bytes \<Rightarrow> bytes" where
  "riverSnapshotHash E data = x_keccak256 E (river_preimage SNAPSHOT_HEADER data)"

definition riverDelegateHashSrc :: "bytes \<Rightarrow> int \<Rightarrow> exn + bytes" where
  "riverDelegateHashSrc devicePublicKey expiryEpochMs =
     bindE (guardE (expiryEpochMs \<ge> 0) (throwWithCode None)) (\<lambda>_.
     bindE (guardE (length devicePublicKey = 64 \<or> length devicePublicKey = 65) (throwWithCode None)) (\<lambda>_.
     Inr (RIVER_SIG_HEADER @ devicePublicKey @ bigintToUint8Array64 expiryEpochMs True)))"

definition auth_hash_src :: "string \<Rightarrow> bytes \<Rightarrow> int \<Rightarrow> bytes \<Rightarrow> exn + bytes" where
  "auth_hash_src PREFIX userId expiration challenge =
     bindE (guardE (length userId = 20) (throwWithCode None)) (\<lambda>_.
     bindE (guardE (length challenge = 16) (throwWithCode None)) (\<lambda>_.
     Inr (bin_fromString PREFIX @ userId @ bigIntToBytes expiration @ challenge)))"

definition notificationServiceHash ::
  "'a sign_externs_scheme \<Rightarrow> bytes \<Rightarrow> int \<Rightarrow> bytes \<Rightarrow> exn + bytes" where
  "notificationServiceHash E userId expiration challenge =
     bindE (auth_hash_src ''NS_AUTH:'' userId expiration challenge) (\<lambda>d. Inr (x_sha256 E d))"

definition appRegistryHash ::
  "'a sign_externs_scheme \<Rightarrow> bytes \<Rightarrow> int \<Rightarrow> bytes \<Rightarrow> exn + bytes" where
  "appRegistryHash E userId expiration challenge =
     bindE (auth_hash_src ''AS_AUTH:'' userId expiration challenge) (\<lambda>d. Inr (x_sha256 E d))"

subsection \<open>Signatures\<close>

definition riverSign :: "'a sign_externs_scheme \<Rightarrow> bytes \<Rightarrow> string \<Rightarrow> exn + bytes" where
  "riverSign E hash privateKey =
     bindE (checkHash hash) (\<lambda>_.
     bindE (of_option LibError (x_secp_sign E hash privateKey)) (\<lambda>(sigBytes, recovery).
     bindE (of_option JsError recovery) (\<lambda>r.
     Inr (pushByteToUint8Array sigBytes r))))"

definition riverVerifySignature ::
  "'a sign_externs_scheme \<Rightarrow> bytes \<Rightarrow> bytes \<Rightarrow> string_or_bytes \<Rightarrow> exn + bool" where
  "riverVerifySignature E hash signature publicKey =
     bindE (checkHash hash) (\<lambda>_.
     bindE (checkSignature signature) (\<lambda>_.
     of_option LibError (x_secp_verify E (take 64 signature) hash publicKey)))"

definition hexToNumber :: "string \<Rightarrow> exn + int" where
  "hexToNumber hex = of_option JsError (js_BigInt (if hex = [] then ''0'' else ''0x'' @ hex))"

definition bytesToNumberBE :: "'a externs_scheme \<Rightarrow> bytes \<Rightarrow> exn + int" where
  "bytesToNumberBE E bs = hexToNumber (bin_toHexString E bs)"

definition riverRecoverPubKey :: "'a sign_externs_scheme \<Rightarrow> bytes \<Rightarrow> bytes \<Rightarrow> exn + bytes" where
  "riverRecoverPubKey E hash signature =
     bindE (checkHash hash) (\<lambda>_.
     bindE (checkSignature signature) (\<lambda>_.
     bindE (bytesToNumberBE E (take 32 signature)) (\<lambda>r.
     bindE (bytesToNumberBE E (take 32 (drop 32 signature))) (\<lambda>s.
     of_option LibError (x_secp_recover E hash r s (signature ! 64))))))"

definition publicKeyToAddress :: "'a externs_scheme \<Rightarrow> bytes \<Rightarrow> exn + bytes" where
  "publicKeyToAddress E publicKey0 =
     bindE (guardE (length publicKey0 = 64 \<or> length publicKey0 = 65) LibError) (\<lambda>_.
     (let publicKey = (if length publicKey0 = 65 then drop 1 publicKey0 else publicKey0);
          h = x_keccak256 E publicKey
      in Inr (drop (length h - 20) h)))"

definition publicKeyToUint8Array :: "'a externs_scheme \<Rightarrow> string \<Rightarrow> exn + bytes" where
  "publicKeyToUint8Array E publicKey =
     bindE (guardE (starts_with ''0x04'' publicKey \<and> length publicKey = 132)
              (CodeException BAD_PUBLIC_KEY)) (\<lambda>_.
     of_option LibError (bin_fromHexString E publicKey))"

subsection \<open>Delegate signatures\<close>

definition key_bytes :: "'a externs_scheme \<Rightarrow> string_or_bytes \<Rightarrow> exn + bytes" where
  "key_bytes E k = (case k of Str s \<Rightarrow> publicKeyToUint8Array E s | Bytes b \<Rightarrow> Inr b)"

definition recoverPublicKeyFromDelegateSig ::
  "'a sign_externs_scheme \<Rightarrow> string_or_bytes \<Rightarrow> bytes \<Rightarrow> int \<Rightarrow> exn + bytes" where
  "recoverPublicKeyFromDelegateSig E delegatePubKey0 delegateSig expiryEpochMs =
     bindE (key_bytes E delegatePubKey0) (\<lambda>delegatePubKey.
     bindE (riverDelegateHashSrc delegatePubKey expiryEpochMs) (\<lambda>hashSource.
     (let hash = x_hashPersonalMessage E hashSource
      in bindE (of_option LibError (x_fromRPCSig E (''0x'' @ bin_toHexString E delegateSig)))
           (\<lambda>(v, r, s).
         bindE (of_option LibError (x_ecrecover E hash v r s)) (\<lambda>recoveredCreatorPubKey.
         publicKeyToAddress E recoveredCreatorPubKey)))))"

definition checkDelegateSig ::
  "'a sign_externs_scheme \<Rightarrow> string_or_bytes \<Rightarrow> string_or_bytes \<Rightarrow> bytes \<Rightarrow> int \<Rightarrow> exn + unit" where
  "checkDelegateSig E delegatePubKey creatorAddress0 delegateSig expiryEpochMs =
     bindE (key_bytes E creatorAddress0) (\<lambda>creatorAddress.
     bindE (recoverPublicKeyFromDelegateSig E delegatePubKey delegateSig expiryEpochMs)
       (\<lambda>recoveredCreatorAddress.
     guardE (bin_equal E (Some recoveredCreatorAddress) (Some creatorAddress))
       (CodeException BAD_DELEGATE_SIG)))"

definition checkEventSignature ::
  "'a sign_externs_scheme \<Rightarrow> stream_event \<Rightarrow> bytes \<Rightarrow> bytes \<Rightarrow> exn + unit" where
  "checkEventSignature E event hash signature =
     bindE (riverRecoverPubKey E hash signature) (\<lambda>recoveredPubKey.
     if \<not> hasElements (Some (ev_delegateSig event))
     then bindE (publicKeyToAddress E recoveredPubKey) (\<lambda>address.
          guardE (bin_equal E (Some address) (Some (ev_creatorAddress event)))
            (CodeException BAD_EVENT_SIGNATURE))
     else checkDelegateSig E (Bytes recoveredPubKey) (Bytes (ev_creatorAddress event))
            (ev_delegateSig event) (ev_delegateExpiryEpochMs event))"

text \<open>The wallets of a signer context are \<open>ethers\<close> objects: their keys, address and the signature
  they return are arguments.\<close>

definition makeRiverDelegateSig ::
  "'a sign_externs_scheme \<Rightarrow> (bytes \<Rightarrow> string option) \<Rightarrow> string_or_bytes \<Rightarrow> int \<Rightarrow> exn + bytes" where
  "makeRiverDelegateSig E signMessage devicePubKey0 expiryEpochMs =
     bindE (key_bytes E devicePubKey0) (\<lambda>devicePubKey.
     bindE (guardE (length devicePubKey = 65) (CodeException BAD_PUBLIC_KEY)) (\<lambda>_.
     bindE (riverDelegateHashSrc devicePubKey expiryEpochMs) (\<lambda>hashSrc.
     bindE (of_option LibError (signMessage hashSrc)) (\<lambda>sig.
     of_option LibError (bin_fromHexString E sig)))))"

record expiry_parts =
  xp_days :: int
  xp_hours :: int
  xp_minutes :: int
  xp_seconds :: int

text \<open>An absent part and a part that is zero add nothing.\<close>

definition makeExpiryEpochMs :: "int \<Rightarrow> expiry_parts \<Rightarrow> exn + int" where
  "makeExpiryEpochMs now p =
     (let MS_PER_SECOND = 1000; MS_PER_MINUTE = MS_PER_SECOND * 60;
          MS_PER_HOUR = MS_PER_MINUTE * 60; MS_PER_DAY = MS_PER_HOUR * 24;
          delta = MS_PER_DAY * xp_days p + MS_PER_HOUR * xp_hours p +
                  MS_PER_MINUTE * xp_minutes p + MS_PER_SECOND * xp_seconds p
      in bindE (guardE (delta \<noteq> 0) (throwWithCode None)) (\<lambda>_. Inr (now + delta)))"

definition makeSignerContext ::
  "'a sign_externs_scheme \<Rightarrow> (bytes \<Rightarrow> string option) \<Rightarrow> string \<Rightarrow> string \<Rightarrow> string \<Rightarrow> int \<Rightarrow>
   (int + expiry_parts) option \<Rightarrow> exn + SignerContext" where
  "makeSignerContext E signMessage primaryAddress delegatePublicKey delegatePrivateKey now inExpiry =
     bindE (case inExpiry of None \<Rightarrow> Inr 0 | Some (Inl i) \<Rightarrow> Inr i
              | Some (Inr p) \<Rightarrow> makeExpiryEpochMs now p) (\<lambda>delegateExpiryEpochMs.
     bindE (makeRiverDelegateSig E signMessage (Str delegatePublicKey) delegateExpiryEpochMs)
       (\<lambda>delegateSig.
     bindE (of_option LibError (bin_fromHexString E primaryAddress)) (\<lambda>creatorAddress.
     Inr \<lparr>sx_signerPrivateKey = drop 2 delegatePrivateKey, sx_creatorAddress = creatorAddress,
          sx_delegateSig = Some delegateSig,
          sx_delegateExpiryEpochMs = Some delegateExpiryEpochMs\<rparr>)))"

text \<open>The bearer token is a protobuf message: the delegate's private key, its signature and the
  expiry, as the codec returns them; \<open>walletPublicKey\<close> is the public key \<open>ethers\<close> derives.\<close>

definition makeSignerContextFromBearerToken ::
  "'a sign_externs_scheme \<Rightarrow> (bytes \<Rightarrow> (string \<times> bytes \<times> int) option) \<Rightarrow>
   (string \<Rightarrow> string option) \<Rightarrow> string \<Rightarrow> exn + SignerContext" where
  "makeSignerContextFromBearerToken E bearerToken_fromBinary walletPublicKey bearerTokenStr =
     bindE (of_option LibError (bin_fromHexString E bearerTokenStr)) (\<lambda>bs.
     bindE (of_option LibError (bearerToken_fromBinary bs)) (\<lambda>(delegatePrivateKey, delegateSig, expiry).
     bindE (of_option LibError (walletPublicKey delegatePrivateKey)) (\<lambda>publicKey.
     bindE (recoverPublicKeyFromDelegateSig E (Str publicKey) delegateSig expiry) (\<lambda>creatorAddress.
     Inr \<lparr>sx_signerPrivateKey = drop 2 delegatePrivateKey, sx_creatorAddress = creatorAddress,
          sx_delegateSig = Some delegateSig, sx_delegateExpiryEpochMs = Some expiry\<rparr>))))"

subsection \<open>Making events\<close>

definition makeStreamEvent ::
  "bytes \<Rightarrow> int \<Rightarrow> SignerContext \<Rightarrow> payload option \<Rightarrow> bytes option \<Rightarrow> int option \<Rightarrow> Tags option \<Rightarrow>
   stream_event" where
  "makeStreamEvent salt now context pl prevMiniblockHash prevMiniblockNum tags =
     (case sx_delegateSig context of
        None \<Rightarrow> StreamEvent (sx_creatorAddress context) [] salt prevMiniblockHash now 0 tags
          prevMiniblockNum pl
      | Some delegateSig \<Rightarrow> StreamEvent (sx_creatorAddress context) delegateSig salt prevMiniblockHash
          now (case sx_delegateExpiryEpochMs context of None \<Rightarrow> 0 | Some x \<Rightarrow> x) tags
          prevMiniblockNum pl)"

definition impl_makeEvent_impl ::
  "'a sign_externs_scheme \<Rightarrow> bytes \<Rightarrow> int \<Rightarrow> SignerContext \<Rightarrow> payload option \<Rightarrow> bytes option \<Rightarrow>
   int option \<Rightarrow> Tags option \<Rightarrow> exn + Envelope" where
  "impl_makeEvent_impl E salt now context pl prevMiniblockHash prevMiniblockNum tags =
     (let streamEvent = makeStreamEvent salt now context pl prevMiniblockHash prevMiniblockNum tags;
          event = x_streamEvent_toBinary E streamEvent;
          hash = riverHash E event
      in bindE (riverSign E hash (sx_signerPrivateKey context)) (\<lambda>signature.
         Inr \<lparr>en_hash = hash, en_signature = signature, en_event = event\<rparr>))"

text \<open>Whether the \<open>content\<close> of a payload has its case set.\<close>

definition payload_content_set :: "payload \<Rightarrow> bool" where
  "payload_content_set pl =
     (case pl of
        PlMiniblockHeader h \<Rightarrow> mh_content h \<noteq> None
      | PlMember c \<Rightarrow> c \<noteq> None | PlSpace c \<Rightarrow> c \<noteq> None | PlChannel c \<Rightarrow> c \<noteq> None
      | PlUser c \<Rightarrow> c \<noteq> None | PlUserSettings c \<Rightarrow> c \<noteq> None | PlUserMetadata c \<Rightarrow> c \<noteq> None
      | PlUserInbox c \<Rightarrow> c \<noteq> None | PlMedia c \<Rightarrow> c \<noteq> None | PlDmChannel c \<Rightarrow> c \<noteq> None
      | PlGdmChannel c \<Rightarrow> c \<noteq> None | PlMetadata c \<Rightarrow> c \<noteq> None)"

definition makeEvent ::
  "'a sign_externs_scheme \<Rightarrow> bytes \<Rightarrow> int \<Rightarrow> SignerContext \<Rightarrow> payload option \<Rightarrow> bytes option \<Rightarrow>
   int option \<Rightarrow> Tags option \<Rightarrow> exn + Envelope" where
  "makeEvent E salt now context pl prevMiniblockHash prevMiniblockNum tags =
     bindE (guardE (pl \<noteq> None) (CodeException BAD_PAYLOAD)) (\<lambda>_.
     bindE (guardE (payload_content_set (the pl)) (CodeException BAD_PAYLOAD)) (\<lambda>_.
     bindE (case prevMiniblockHash of
              None \<Rightarrow> Inr ()
            | Some h \<Rightarrow> guardE (length h = 32) (CodeException BAD_HASH_FORMAT)) (\<lambda>_.
     bindE (case prevMiniblockNum of
              None \<Rightarrow> Inr ()
            | Some n \<Rightarrow> if n = 0 then Inr () else guardE (n \<ge> 0) (CodeException BAD_PAYLOAD)) (\<lambda>_.
     impl_makeEvent_impl E salt now context pl prevMiniblockHash prevMiniblockNum tags))))"

text \<open>\<open>makeEvents\<close>: one event per payload; each call draws its own salt and time.\<close>

definition makeEvents ::
  "'a sign_externs_scheme \<Rightarrow> (nat \<Rightarrow> bytes) \<Rightarrow> (nat \<Rightarrow> int) \<Rightarrow> SignerContext \<Rightarrow>
   payload option list \<Rightarrow> bytes option \<Rightarrow> exn + Envelope list" where
  "makeEvents E salts clock context payloads prevMiniblockHash =
     mapE (\<lambda>(i, pl). makeEvent E (salts i) (clock i) context pl prevMiniblockHash None None)
       (List.enumerate 0 payloads)"

definition makeEventRef ::
  "'a externs_scheme \<Rightarrow> string_or_bytes \<Rightarrow> Envelope \<Rightarrow> exn + EventRef" where
  "makeEventRef E streamId event =
     bindE (of_option LibError (streamIdAsBytes E streamId)) (\<lambda>sid.
     Inr \<lparr>er_streamId = sid, er_hash = en_hash event, er_signature = en_signature event\<rparr>)"

subsection \<open>Unpacking\<close>

definition makeParsedEvent ::
  "'a protocol_externs_scheme \<Rightarrow> stream_event \<Rightarrow> bytes option \<Rightarrow> bytes option \<Rightarrow> exn + ParsedEvent" where
  "makeParsedEvent E event hash0 signature =
     (let hash = (case hash0 of Some h \<Rightarrow> h | None \<Rightarrow> riverHash E (x_streamEvent_toBinary E event))
      in bindE (of_option LibError (userIdFromAddress E (ev_creatorAddress event))) (\<lambda>creatorUserId.
         Inr \<lparr>pe_event = event, pe_hash = hash, pe_hashStr = bin_toHexString E hash,
              pe_signature = signature, pe_creatorUserId = creatorUserId\<rparr>))"

definition makeParsedSnapshot ::
  "'a protocol_externs_scheme \<Rightarrow> snapshot \<Rightarrow> bytes option \<Rightarrow> bytes option \<Rightarrow> ParsedSnapshot" where
  "makeParsedSnapshot E snap hash0 signature =
     (let hash = (case hash0 of Some h \<Rightarrow> h | None \<Rightarrow> riverSnapshotHash E (x_snapshot_toBinary E snap))
      in \<lparr>ps_snapshot = snap, ps_hash = hash, ps_hashStr = bin_toHexString E hash,
          ps_signature = signature\<rparr>)"

definition hash_enabled :: "UnpackEnvelopeOpts option \<Rightarrow> bool" where
  "hash_enabled opts \<longleftrightarrow> (case opts of None \<Rightarrow> True | Some x \<Rightarrow> uo_disableHashValidation x \<noteq> Some True)"

definition signature_enabled :: "UnpackEnvelopeOpts option \<Rightarrow> bool" where
  "signature_enabled opts \<longleftrightarrow>
     (case opts of None \<Rightarrow> True | Some x \<Rightarrow> uo_disableSignatureValidation x \<noteq> Some True)"

definition unpackEnvelope ::
  "'a sign_externs_scheme \<Rightarrow> UnpackEnvelopeOpts option \<Rightarrow> Envelope \<Rightarrow> exn + ParsedEvent" where
  "unpackEnvelope E opts envelope =
     bindE (guardE (hasElements (Some (en_event envelope))) (CodeException BAD_EVENT)) (\<lambda>_.
     bindE (guardE (hasElements (Some (en_hash envelope))) (CodeException BAD_EVENT)) (\<lambda>_.
     bindE (guardE (hasElements (Some (en_signature envelope))) (CodeException BAD_EVENT)) (\<lambda>_.
     bindE (of_option LibError (x_streamEvent_fromBinary E (en_event envelope))) (\<lambda>event.
     (let hash = (if hash_enabled opts then riverHash E (en_event envelope) else en_hash envelope)
      in bindE (guardE (hash_enabled opts \<longrightarrow> bin_equal E (Some hash) (Some (en_hash envelope)))
                  (CodeException BAD_EVENT_ID)) (\<lambda>_.
         bindE (if signature_enabled opts
                then checkEventSignature E event hash (en_signature envelope) else Inr ()) (\<lambda>_.
         makeParsedEvent E event (Some (en_hash envelope)) (Some (en_signature envelope)))))))))"

definition unpackEnvelopes ::
  "'a sign_externs_scheme \<Rightarrow> UnpackEnvelopeOpts option \<Rightarrow> Envelope list \<Rightarrow> exn + ParsedEvent list" where
  "unpackEnvelopes E opts es = mapE (unpackEnvelope E opts) es"

definition unpackMiniblock ::
  "'a sign_externs_scheme \<Rightarrow> UnpackEnvelopeOpts option \<Rightarrow> Miniblock \<Rightarrow> exn + ParsedMiniblock" where
  "unpackMiniblock E opts miniblock =
     bindE (of_option (throwWithCode None) (mk_header miniblock)) (\<lambda>henv.
     bindE (unpackEnvelope E opts henv) (\<lambda>header.
     (case ev_payload (pe_event header) of
        Some (PlMiniblockHeader value) \<Rightarrow>
          bindE (unpackEnvelopes E opts (mk_events miniblock)) (\<lambda>events.
          Inr \<lparr>mb_hash = en_hash henv, mb_header = value, mb_events = events @ [header]\<rparr>)
      | _ \<Rightarrow> Inl (throwWithCode None))))"

definition unpackSnapshot ::
  "'a sign_externs_scheme \<Rightarrow> stream_event option \<Rightarrow> bytes option \<Rightarrow> Envelope \<Rightarrow>
   UnpackEnvelopeOpts option \<Rightarrow> exn + ParsedSnapshot" where
  "unpackSnapshot E miniblockHeader miniblockHeaderSnapshotHash snap opts =
     bindE (guardE (hasElements (Some (en_event snap))) (CodeException BAD_EVENT)) (\<lambda>_.
     bindE (guardE (hasElements (Some (en_hash snap))) (CodeException BAD_EVENT)) (\<lambda>_.
     bindE (guardE (hasElements (Some (en_signature snap))) (CodeException BAD_EVENT)) (\<lambda>_.
     bindE (guardE (miniblockHeaderSnapshotHash \<noteq> None) (CodeException BAD_EVENT)) (\<lambda>_.
     bindE (guardE (bin_equal E miniblockHeaderSnapshotHash (Some (en_hash snap)))
              (CodeException BAD_EVENT_ID)) (\<lambda>_.
     bindE (guardE (hash_enabled opts \<longrightarrow>
              bin_equal E (Some (riverSnapshotHash E (en_event snap))) (Some (en_hash snap)))
              (CodeException BAD_EVENT_ID)) (\<lambda>_.
     bindE (if signature_enabled opts
            then bindE (of_option (CodeException BAD_EVENT) miniblockHeader) (\<lambda>mh.
                 checkEventSignature E mh (en_hash snap) (en_signature snap))
            else Inr ()) (\<lambda>_.
     bindE (of_option LibError (x_snapshot_fromBinary E (en_event snap))) (\<lambda>s.
     Inr (makeParsedSnapshot E s (Some (en_hash snap)) (Some (en_signature snap)))))))))))"

fun find_header :: "ParsedEvent list \<Rightarrow> miniblock_header option" where
  "find_header [] = None"
| "find_header (e # es) =
     (case ev_payload (pe_event e) of Some (PlMiniblockHeader h) \<Rightarrow> Some h | _ \<Rightarrow> find_header es)"

text \<open>Which header event and which snapshot hash the snapshot is checked against. Reading
  \<open>snapshotHash\<close> of a header event that was not found is a \<open>TypeError\<close>.\<close>

definition snapshot_reference ::
  "ParsedMiniblock list \<Rightarrow> ParsedEvent list \<Rightarrow> exn + stream_event option \<times> bytes option" where
  "snapshot_reference miniblocks events =
     (case miniblocks of
        mb # _ \<Rightarrow>
          (case mh_snapshotHash (mb_header mb) of
             Some h \<Rightarrow> Inr (if mb_events mb = [] then None else Some (pe_event (last (mb_events mb))), Some h)
           | None \<Rightarrow>
               if events \<noteq> [] then bindE (of_option JsError (find_header events)) (\<lambda>h.
                 Inr (None, mh_snapshotHash h))
               else Inr (None, None))
      | [] \<Rightarrow>
          if events \<noteq> [] then bindE (of_option JsError (find_header events)) (\<lambda>h.
            Inr (None, mh_snapshotHash h))
          else Inr (None, None))"

definition unpackStreamAndCookie ::
  "'a sign_externs_scheme \<Rightarrow> UnpackEnvelopeOpts option \<Rightarrow> StreamAndCookie \<Rightarrow>
   exn + ParsedStreamAndCookie" where
  "unpackStreamAndCookie E opts sac =
     bindE (of_option JsError (sk_nextSyncCookie sac)) (\<lambda>cookie.
     bindE (mapE (unpackMiniblock E opts) (sk_miniblocks sac)) (\<lambda>miniblocks.
     bindE (unpackEnvelopes E opts (sk_events sac)) (\<lambda>events.
     bindE (case sk_snapshot sac of
              None \<Rightarrow> Inr None
            | Some env \<Rightarrow>
                bindE (snapshot_reference miniblocks events) (\<lambda>(header, hash).
                bindE (unpackSnapshot E header hash env opts) (\<lambda>s. Inr (Some s)))) (\<lambda>snap.
     Inr \<lparr>sac_nextSyncCookie = cookie, sac_miniblocks = miniblocks, sac_events = events,
          sac_snapshot = snap\<rparr>))))"

definition eventIdsFromSnapshot :: "'a externs_scheme \<Rightarrow> snapshot \<Rightarrow> string list" where
  "eventIdsFromSnapshot E snap =
     (let joined = (case sn_members snap of None \<Rightarrow> [] | Some m \<Rightarrow> mss_joined m);
          usernameEventIds = map (\<lambda>w. bin_toHexString E (we_eventHash w))
            (List.map_filter sm_username joined);
          displayNameEventIds = map (\<lambda>w. bin_toHexString E (we_eventHash w))
            (List.map_filter sm_displayName joined)
      in case sn_content snap of
           Some (ScGdmChannel g) \<Rightarrow>
             usernameEventIds @ displayNameEventIds @
             (case gs_channelProperties g of None \<Rightarrow> [] | Some w \<Rightarrow> [bin_toHexString E (we_eventHash w)])
         | _ \<Rightarrow> usernameEventIds @ displayNameEventIds)"

text \<open>The ids of the minipool events are passed to \<open>flatMap\<close> as its second argument, the value of
  \<open>this\<close> for the callback, which ignores it.\<close>

definition flatMap :: "('x \<Rightarrow> 'y list) \<Rightarrow> 'z \<Rightarrow> 'x list \<Rightarrow> 'y list" where
  "flatMap f thisArg xs = concat (map f xs)"

definition unpackStream ::
  "'a sign_externs_scheme \<Rightarrow> UnpackEnvelopeOpts option \<Rightarrow> StreamAndCookie option \<Rightarrow>
   exn + ParsedStreamResponse" where
  "unpackStream E opts stream0 =
     bindE (of_option JsError stream0) (\<lambda>stream.
     bindE (unpackStreamAndCookie E opts stream) (\<lambda>sac.
     bindE (guardE (sk_miniblocks stream \<noteq> []) JsError) (\<lambda>_.
     (let mb0 = hd (sac_miniblocks sac)
      in bindE (of_option JsError
                  (case mh_snapshot (mb_header mb0) of
                     Some s \<Rightarrow> Some s
                   | None \<Rightarrow> map_option ps_snapshot (sac_snapshot sac))) (\<lambda>snap.
         Inr \<lparr>psr_snapshot = snap, psr_streamAndCookie = sac,
              psr_prevSnapshotMiniblockNum = mh_prevSnapshotMiniblockNum (mb_header mb0),
              psr_eventIds =
                flatMap (\<lambda>mb. map pe_hashStr (mb_events mb)) (map pe_hashStr (sac_events sac))
                  (sac_miniblocks sac) @
                eventIdsFromSnapshot E snap\<rparr>)))))"

definition unpackStreamEx ::
  "'a sign_externs_scheme \<Rightarrow> UnpackEnvelopeOpts option \<Rightarrow> Miniblock list \<Rightarrow>
   exn + ParsedStreamResponse" where
  "unpackStreamEx E opts miniblocks =
     unpackStream E opts (Some
       \<lparr>sk_events = [], sk_nextSyncCookie = Some \<lparr>sc_nodeAddress = [], sc_streamId = [],
          sc_minipoolGen = 0, sc_prevMiniblockHash = []\<rparr>,
        sk_miniblocks = miniblocks, sk_syncReset = False, sk_snapshot = None\<rparr>)"

text \<open>Reading the hash of a missing header is a \<open>TypeError\<close>.\<close>

definition unpackStreamEnvelopes ::
  "'a sign_externs_scheme \<Rightarrow> UnpackEnvelopeOpts option \<Rightarrow> StreamAndCookie \<Rightarrow>
   exn + ParsedEvent list" where
  "unpackStreamEnvelopes E opts stream =
     bindE (mapE (\<lambda>mb. bindE (unpackEnvelopes E opts (mk_events mb)) (\<lambda>es.
                        bindE (of_option JsError (mk_header mb)) (\<lambda>h.
                        bindE (unpackEnvelope E opts h) (\<lambda>he. Inr (es @ [he])))))
              (sk_miniblocks stream)) (\<lambda>blocks.
     bindE (unpackEnvelopes E opts (sk_events stream)) (\<lambda>events.
     Inr (concat blocks @ events)))"

subsection \<open>Byte layouts are unambiguous\<close>

definition le_encode :: "nat \<Rightarrow> nat \<Rightarrow> bytes" where
  "le_encode k n = rev (be_encode k n)"

lemma le_encode_simps [simp]:
  "le_encode 0 n = []" "le_encode (Suc k) n = of_nat (n mod 256) # le_encode k (n div 256)"
  by (simp_all add: le_encode_def)

lemma length_le_encode [simp]: "length (le_encode k n) = k"
  by (simp add: le_encode_def)

lemma le_encode_zero [simp]: "le_encode k 0 = replicate k 0"
  by (induction k) auto

lemma le_loop_eq:
  "n < 2 ^ 32 \<Longrightarrow> n < 256 ^ k \<Longrightarrow> le_loop (length p) n (p @ replicate k 0) = p @ le_encode k n"
proof (induction k arbitrary: n p)
  case 0
  then show ?case by (simp add: le_loop.simps[of _ 0])
next
  case (Suc k)
  show ?case
  proof (cases "n = 0")
    case True
    then show ?thesis by (simp add: le_loop.simps[of _ 0])
  next
    case False
    let ?p = "p @ [of_nat (n mod 256)]"
    have div: "n div 256 < 256 ^ k" "n div 256 < 2 ^ 32" using Suc.prems by auto
    have "le_loop (length p) n (p @ replicate (Suc k) 0) =
        le_loop (length ?p) (n div 256) (?p @ replicate k 0)"
      using False Suc.prems(1) by (subst le_loop.simps) (simp add: list_update_append)
    also have "\<dots> = ?p @ le_encode k (n div 256)" using div by (intro Suc.IH)
    finally show ?thesis by simp
  qed
qed

lemma length_le_loop [simp]: "length (le_loop i n r) = length r"
  by (induction i n r rule: le_loop.induct) (subst le_loop.simps, simp)

lemma length_numberToUint8Array64LE [simp]: "length (numberToUint8Array64LE n) = 8"
  by (simp add: numberToUint8Array64LE_def)

lemma be_value_injective: "be_encode k a = be_encode k b \<Longrightarrow> a < 256 ^ k \<Longrightarrow> b < 256 ^ k \<Longrightarrow> a = b"
  by (metis be_value_encode mod_less)

text \<open>The length that goes into a river hash is its 64-bit little-endian encoding: for every length
  below \<open>2 ^ 32\<close> the eight bytes read back, last byte first, as the length itself.
\<close>

theorem numberToUint8Array64LE_correct:
  assumes "n < 2 ^ 32"
  shows "length (numberToUint8Array64LE n) = 8 \<and> be_value (rev (numberToUint8Array64LE n)) = n"
proof -
  have n: "n < 256 ^ 8" using assms by simp
  have "numberToUint8Array64LE n = le_encode 8 n"
    using le_loop_eq[OF assms n, of "[]"] by (simp add: numberToUint8Array64LE_def)
  then show ?thesis using n by (simp add: le_encode_def be_value_encode)
qed

theorem numberToUint8Array64LE_correct_witness:
  "length (numberToUint8Array64LE 66051) = 8 \<and> be_value (rev (numberToUint8Array64LE 66051)) = 66051"
  by (rule numberToUint8Array64LE_correct) simp

lemma river_preimage_inject:
  assumes "river_preimage h a = river_preimage h' b" "length h = length h'"
  shows "h = h' \<and> a = b"
  using assms by (auto simp: river_preimage_def)

text \<open>
  C15. River hashes bind their input: on any set of messages on which Keccak has no collision, two
  events have the same hash only if their bytes are equal, and no event has the hash of a snapshot.
\<close>

theorem riverHash_binding:
  assumes "inj_on (x_keccak256 E) S"
    and "river_preimage HASH_HEADER a \<in> S" "river_preimage HASH_HEADER b \<in> S"
    and "river_preimage SNAPSHOT_HEADER b \<in> S"
  shows "(riverHash E a = riverHash E b \<longleftrightarrow> a = b) \<and> riverHash E a \<noteq> riverSnapshotHash E b"
proof -
  have "HASH_HEADER \<noteq> SNAPSHOT_HEADER" "length HASH_HEADER = length SNAPSHOT_HEADER"
    by (simp_all add: HASH_HEADER_def SNAPSHOT_HEADER_def)
  then have "river_preimage HASH_HEADER a \<noteq> river_preimage SNAPSHOT_HEADER b"
    using river_preimage_inject by blast
  then show ?thesis
    using assms river_preimage_inject[of HASH_HEADER a HASH_HEADER b]
    by (auto simp: riverHash_def riverSnapshotHash_def dest: inj_onD)
qed

theorem riverHash_binding_witness:
  "(riverHash plain_externs [1] = riverHash plain_externs [2] \<longleftrightarrow> [1] = [2 :: byte]) \<and>
   riverHash plain_externs [1] \<noteq> riverSnapshotHash plain_externs [2]"
proof (rule riverHash_binding)
  let ?S = "{river_preimage HASH_HEADER [1], river_preimage HASH_HEADER [2],
     river_preimage SNAPSHOT_HEADER [2]}"
  show "inj_on (x_keccak256 plain_externs) ?S"
    by (simp add: plain_externs_def river_preimage_def HASH_HEADER_def SNAPSHOT_HEADER_def
        HASH_SEPARATOR_def inj_on_def numeral_eq_Suc)
qed simp_all

lemma bigIntToBytes_inject: "bigIntToBytes a = bigIntToBytes b \<Longrightarrow> \<bar>a\<bar> = \<bar>b\<bar>"
  using be_value_bigIntToBytes[of a] be_value_bigIntToBytes[of b] by simp

lemma length_bin_fromString [simp]: "length (bin_fromString s) = length s"
  by (simp add: bin_fromString_def)

text \<open>The messages that are hashed for the notification service and for the app registry are
  unambiguous, although the expiry has no fixed width: the concatenation determines the service,
  the user, the (non-negative) expiry and the challenge.
\<close>

theorem auth_hash_src_injective:
  assumes "auth_hash_src p u e c = Inr m" "auth_hash_src p' u' e' c' = Inr m"
    and "p \<in> {''NS_AUTH:'', ''AS_AUTH:''}" "p' \<in> {''NS_AUTH:'', ''AS_AUTH:''}" "e \<ge> 0" "e' \<ge> 0"
  shows "p = p' \<and> u = u' \<and> e = e' \<and> c = c'"
proof -
  have m: "bin_fromString p @ u @ bigIntToBytes e @ c = bin_fromString p' @ u' @ bigIntToBytes e' @ c'"
    and l: "length u = 20" "length u' = 20" "length c = 16" "length c' = 16"
    using assms(1,2) by (auto simp: auth_hash_src_def bindE_Inr_iff)
  have "length (bin_fromString p) = length (bin_fromString p')" using assms(3,4) by auto
  then have p: "bin_fromString p = bin_fromString p'" and "u = u'"
    and r: "bigIntToBytes e @ c = bigIntToBytes e' @ c'"
    using m l by auto
  moreover have "c = c'" "bigIntToBytes e = bigIntToBytes e'" using r l by auto
  moreover have "e = e'" using bigIntToBytes_inject calculation(5) assms(5,6) by force
  moreover have "p = p'" using p assms(3,4) by (auto simp: bin_fromString_def)
  ultimately show ?thesis by blast
qed

theorem auth_hash_src_injective_witness:
  "\<exists>m. auth_hash_src ''NS_AUTH:'' (replicate 20 7) 300 (replicate 16 9) = Inr m \<and>
     auth_hash_src ''AS_AUTH:'' (replicate 20 7) 300 (replicate 16 9) \<noteq> Inr m"
proof -
  have "\<exists>m. auth_hash_src ''NS_AUTH:'' (replicate 20 7) 300 (replicate 16 9) = Inr m"
    by (simp add: auth_hash_src_def)
  then obtain m where m: "auth_hash_src ''NS_AUTH:'' (replicate 20 7) 300 (replicate 16 9) = Inr m" ..
  have "auth_hash_src ''AS_AUTH:'' (replicate 20 7) 300 (replicate 16 9) \<noteq> Inr m"
  proof
    assume "auth_hash_src ''AS_AUTH:'' (replicate 20 7) 300 (replicate 16 9) = Inr m"
    from auth_hash_src_injective[OF m this] show False by simp
  qed
  with m show ?thesis by blast
qed

subsection \<open>Envelopes\<close>

lemma bin_equal_iff: "bytes_equality E \<Longrightarrow> bin_equal E (Some a) (Some b) \<longleftrightarrow> a = b"
  by (auto simp: bin_equal_def bytes_equality_def)

text \<open>Who an accepted signature speaks for: the recovered key is the creator's own, or the creator
  signed the recovered key as a delegate.\<close>

definition signed_by_creator ::
  "'a sign_externs_scheme \<Rightarrow> stream_event \<Rightarrow> bytes \<Rightarrow> bytes \<Rightarrow> bool" where
  "signed_by_creator E event hash signature \<longleftrightarrow>
     (\<exists>pub. riverRecoverPubKey E hash signature = Inr pub \<and>
        (if ev_delegateSig event = [] then publicKeyToAddress E pub = Inr (ev_creatorAddress event)
         else recoverPublicKeyFromDelegateSig E (Bytes pub) (ev_delegateSig event)
                (ev_delegateExpiryEpochMs event) = Inr (ev_creatorAddress event)))"

lemma checkEventSignature_iff:
  assumes "bytes_equality E"
  shows "checkEventSignature E event hash signature = Inr () \<longleftrightarrow>
    signed_by_creator E event hash signature"
  using assms
  by (auto simp: checkEventSignature_def signed_by_creator_def bindE_Inr_iff hasElements_def
      bin_equal_iff checkDelegateSig_def key_bytes_def)

lemma makeParsedEvent_Inr_iff:
  "makeParsedEvent E event (Some h) sig = Inr p \<longleftrightarrow>
     (\<exists>u. userIdFromAddress E (ev_creatorAddress event) = Some u \<and>
        p = \<lparr>pe_event = event, pe_hash = h, pe_hashStr = bin_toHexString E h, pe_signature = sig,
             pe_creatorUserId = u\<rparr>)"
  by (auto simp: makeParsedEvent_def bindE_Inr_iff)

lemma unpackEnvelope_Inr_iff:
  assumes "bytes_equality E" "hash_enabled opts" "signature_enabled opts"
  shows "unpackEnvelope E opts env = Inr p \<longleftrightarrow>
    en_event env \<noteq> [] \<and> en_hash env \<noteq> [] \<and> en_signature env \<noteq> [] \<and>
    en_hash env = riverHash E (en_event env) \<and>
    (\<exists>event. x_streamEvent_fromBinary E (en_event env) = Some event \<and>
       signed_by_creator E event (en_hash env) (en_signature env) \<and>
       makeParsedEvent E event (Some (en_hash env)) (Some (en_signature env)) = Inr p)"
  using assms
  by (auto simp: unpackEnvelope_def bindE_Inr_iff hasElements_def bin_equal_iff Let_def
      checkEventSignature_iff)

text \<open>
  C1. Soundness of \<open>unpackEnvelope\<close> with both validations on: a parsed event it returns was decoded
  from the very bytes whose river hash is the event's id, and the signature over that id is by the
  creator the event names, or by a delegate key that this creator signed.
\<close>

theorem unpackEnvelope_sound:
  assumes "bytes_equality E" "hash_enabled opts" "signature_enabled opts"
    and "unpackEnvelope E opts env = Inr p"
  shows "x_streamEvent_fromBinary E (en_event env) = Some (pe_event p) \<and>
    pe_hash p = riverHash E (en_event env) \<and> pe_hash p = en_hash env \<and>
    pe_hashStr p = bin_toHexString E (pe_hash p) \<and>
    pe_signature p = Some (en_signature env) \<and>
    userIdFromAddress E (ev_creatorAddress (pe_event p)) = Some (pe_creatorUserId p) \<and>
    signed_by_creator E (pe_event p) (pe_hash p) (en_signature env)"
  using assms by (auto simp: unpackEnvelope_Inr_iff makeParsedEvent_Inr_iff)

text \<open>What the signing library promises for a private key: every 32-byte hash gets a 64-byte
  signature with a recovery bit, from which the 65-byte public key is recovered.\<close>

definition signing_key :: "'a sign_externs_scheme \<Rightarrow> string \<Rightarrow> bytes \<Rightarrow> bool" where
  "signing_key E key pub \<longleftrightarrow> length pub = 65 \<and>
     (\<forall>hash. length hash = 32 \<longrightarrow>
        (\<exists>sig rec r s. x_secp_sign E hash key = Some (sig, Some rec) \<and> length sig = 64 \<and>
           bytesToNumberBE E (take 32 sig) = Inr r \<and> bytesToNumberBE E (drop 32 sig) = Inr s \<and>
           x_secp_recover E hash r s rec = Some pub))"

text \<open>The protobuf codec on one event: its bytes decode to it, and they are not empty when a field
  is set.\<close>

definition event_codec :: "'a protocol_externs_scheme \<Rightarrow> stream_event \<Rightarrow> bool" where
  "event_codec E e \<longleftrightarrow>
     x_streamEvent_fromBinary E (x_streamEvent_toBinary E e) = Some e \<and>
     (ev_salt e \<noteq> [] \<longrightarrow> x_streamEvent_toBinary E e \<noteq> [])"

definition keccak_length :: "'a externs_scheme \<Rightarrow> bool" where
  "keccak_length E \<longleftrightarrow> (\<forall>m. length (x_keccak256 E m) = 32)"

lemma riverSign_recover:
  assumes "signing_key E key pub" "length hash = 32"
  shows "\<exists>sig. riverSign E hash key = Inr sig \<and> length sig = 65 \<and>
    riverRecoverPubKey E hash sig = Inr pub"
proof -
  obtain sig rec r s where k: "x_secp_sign E hash key = Some (sig, Some rec)" "length sig = 64"
      "bytesToNumberBE E (take 32 sig) = Inr r" "bytesToNumberBE E (drop 32 sig) = Inr s"
      "x_secp_recover E hash r s rec = Some pub"
    using assms by (auto simp: signing_key_def)
  then have "riverSign E hash key = Inr (sig @ [rec])"
    using assms(2) by (simp add: riverSign_def checkHash_def pushByteToUint8Array_def)
  moreover have "riverRecoverPubKey E hash (sig @ [rec]) = Inr pub"
    using k assms(2)
    by (simp add: riverRecoverPubKey_def checkHash_def checkSignature_def nth_append)
  ultimately show ?thesis using k(2) by auto
qed

text \<open>A context whose key is the creator's own, or a delegate that the creator signed.\<close>

definition valid_context :: "'a sign_externs_scheme \<Rightarrow> SignerContext \<Rightarrow> bytes \<Rightarrow> bool" where
  "valid_context E context pub \<longleftrightarrow>
     signing_key E (sx_signerPrivateKey context) pub \<and>
     (case sx_delegateSig context of
        None \<Rightarrow> publicKeyToAddress E pub = Inr (sx_creatorAddress context)
      | Some dsig \<Rightarrow> dsig \<noteq> [] \<and> recoverPublicKeyFromDelegateSig E (Bytes pub) dsig
          (case sx_delegateExpiryEpochMs context of None \<Rightarrow> 0 | Some x \<Rightarrow> x) =
            Inr (sx_creatorAddress context))"

text \<open>
  C14. Round trip: for a context whose key the creator holds or delegated to, \<open>makeEvent\<close> returns an
  envelope for every payload with content, and \<open>unpackEnvelope\<close> with both validations on accepts it
  and gives back the payload, the creator, the previous miniblock and the tags it was made from.
\<close>

theorem makeEvent_unpackEnvelope_roundtrip:
  assumes "bytes_equality E" "keccak_length E" "hash_enabled opts" "signature_enabled opts"
    and "event_codec E (makeStreamEvent salt now context (Some pl) prevHash prevNum tags)"
    and "valid_context E context pub"
    and "userIdFromAddress E (sx_creatorAddress context) = Some u" "salt \<noteq> []"
    and "payload_content_set pl" "case prevHash of Some h \<Rightarrow> length h = 32 | None \<Rightarrow> True"
    and "case prevNum of Some n \<Rightarrow> n \<ge> 0 | None \<Rightarrow> True"
  shows "\<exists>env p. makeEvent E salt now context (Some pl) prevHash prevNum tags = Inr env \<and>
    unpackEnvelope E opts env = Inr p \<and> ev_payload (pe_event p) = Some pl \<and>
    ev_creatorAddress (pe_event p) = sx_creatorAddress context \<and> pe_creatorUserId p = u \<and>
    ev_prevMiniblockHash (pe_event p) = prevHash \<and> ev_prevMiniblockNum (pe_event p) = prevNum \<and>
    ev_tags (pe_event p) = tags \<and> ev_salt (pe_event p) = salt \<and> pe_hash p = en_hash env"
proof -
  define e where "e = makeStreamEvent salt now context (Some pl) prevHash prevNum tags"
  have fields: "ev_payload e = Some pl" "ev_creatorAddress e = sx_creatorAddress context"
      "ev_prevMiniblockHash e = prevHash" "ev_prevMiniblockNum e = prevNum" "ev_tags e = tags"
      "ev_salt e = salt"
    by (simp_all add: e_def makeStreamEvent_def split: option.split)
  let ?b = "x_streamEvent_toBinary E e"
  let ?h = "riverHash E ?b"
  have len: "length ?h = 32" using assms(2) by (simp add: riverHash_def keccak_length_def)
  have key: "signing_key E (sx_signerPrivateKey context) pub"
    using assms(6) by (simp add: valid_context_def)
  obtain sig where sig: "riverSign E ?h (sx_signerPrivateKey context) = Inr sig" "length sig = 65"
      "riverRecoverPubKey E ?h sig = Inr pub"
    using riverSign_recover[OF key len] by blast
  let ?env = "\<lparr>en_hash = ?h, en_signature = sig, en_event = ?b\<rparr>"
  have "impl_makeEvent_impl E salt now context (Some pl) prevHash prevNum tags = Inr ?env"
    using sig(1) by (simp add: impl_makeEvent_impl_def Let_def flip: e_def)
  then have make: "makeEvent E salt now context (Some pl) prevHash prevNum tags = Inr ?env"
    using assms(9-11) by (auto simp: makeEvent_def bindE_Inr_iff split: option.splits)
  have "signed_by_creator E e ?h sig"
    using assms(6) sig(3)
    by (auto simp: signed_by_creator_def e_def makeStreamEvent_def valid_context_def
        split: option.splits)
  moreover have "x_streamEvent_fromBinary E ?b = Some e" "?b \<noteq> []"
    using assms(5,8) fields(6) by (auto simp: event_codec_def simp flip: e_def)
  moreover have "?h \<noteq> []" "sig \<noteq> []" using len sig(2) by auto
  ultimately have "unpackEnvelope E opts ?env =
      Inr \<lparr>pe_event = e, pe_hash = ?h, pe_hashStr = bin_toHexString E ?h, pe_signature = Some sig,
           pe_creatorUserId = u\<rparr>"
    using assms(7)
    by (simp add: unpackEnvelope_Inr_iff[OF assms(1,3,4)] makeParsedEvent_Inr_iff fields)
  with make fields show ?thesis by simp
qed

text \<open>An instance of the libraries for one key: a signature of zeros from which the key is
  recovered, and a codec for one event.\<close>

definition demo_event :: stream_event where
  "demo_event = StreamEvent (replicate 20 0) [] [1] None 5 0 None None
     (Some (PlChannel (Some (ChRedaction [7]))))"

definition demo_externs :: sign_externs where
  "demo_externs = \<lparr>x_bytesToHex = plain_bytesToHex,
     x_hexToBytes = x_hexToBytes plain_externs, x_equalsBytes = x_equalsBytes plain_externs,
     x_keccak256 = (\<lambda>bs. replicate 32 0), x_getAddress = x_getAddress plain_externs,
     x_isAddress = x_isAddress plain_externs, x_arrayify = x_arrayify plain_externs,
     x_streamEvent_toBinary = (\<lambda>e. ev_salt e), x_streamEvent_fromBinary = (\<lambda>_. Some demo_event),
     x_snapshot_toBinary = (\<lambda>_. []), x_snapshot_fromBinary = (\<lambda>_. None),
     x_channelMessage_fromJson = (\<lambda>_. None), x_channelMessage_fromBinary = (\<lambda>_. None),
     x_channelProperties_fromJson = (\<lambda>_. None), x_channelProperties_fromBinary = (\<lambda>_. None),
     x_fullyReadMarkers_fromJson = (\<lambda>_. None), x_parseReviewLog = (\<lambda>_. None),
     x_sha256 = (\<lambda>bs. replicate 32 0),
     x_secp_sign = (\<lambda>_ _. Some (replicate 64 0, Some 0)), x_secp_verify = (\<lambda>_ _ _. None),
     x_secp_recover = (\<lambda>_ _ _ _. Some (replicate 65 0)), x_hashPersonalMessage = (\<lambda>bs. bs),
     x_fromRPCSig = (\<lambda>_. None), x_ecrecover = (\<lambda>_ _ _ _. None)\<rparr>"

definition demo_context :: SignerContext where
  "demo_context = \<lparr>sx_signerPrivateKey = ''ab'', sx_creatorAddress = replicate 20 0,
     sx_delegateSig = None, sx_delegateExpiryEpochMs = None\<rparr>"

lemma demo_externs_sel [simp]:
  "x_keccak256 demo_externs m = replicate 32 0"
  "x_equalsBytes demo_externs a b = (a = b)"
  "x_bytesToHex demo_externs = plain_bytesToHex"
  "x_streamEvent_toBinary demo_externs e = ev_salt e"
  "x_streamEvent_fromBinary demo_externs bs = Some demo_event"
  "x_secp_sign demo_externs h k = Some (replicate 64 0, Some 0)"
  "x_secp_recover demo_externs h r s v = Some (replicate 65 0)"
  "x_getAddress demo_externs = x_getAddress plain_externs"
  by (simp_all add: demo_externs_def)

lemma demo_number: "bytesToNumberBE demo_externs (replicate 32 0) = Inr 0"
proof -
  have "hexToNumber (plain_bytesToHex (replicate 32 0)) = Inr 0" by code_simp
  then show ?thesis by (simp add: bytesToNumberBE_def bin_toHexString_def)
qed

lemma demo_user: "userIdFromAddress demo_externs (replicate 20 0) = Some (''0x'' @ replicate 40 (CHR ''0''))"
proof -
  have "x_getAddress plain_externs (plain_bytesToHex (replicate 20 0)) =
      Some (''0x'' @ replicate 40 (CHR ''0''))"
    by code_simp
  then show ?thesis by (simp add: userIdFromAddress_def bin_toHexString_def)
qed

lemma demo_context_valid: "valid_context demo_externs demo_context (replicate 65 0)"
proof -
  have "signing_key demo_externs k (replicate 65 0)" for k
    unfolding signing_key_def using demo_number by simp
  then show ?thesis
    by (simp add: valid_context_def demo_context_def publicKeyToAddress_def)
qed

lemma demo_signed: "signed_by_creator demo_externs demo_event (replicate 32 0) (replicate 65 0)"
  using demo_number
  by (simp add: signed_by_creator_def demo_event_def riverRecoverPubKey_def checkHash_def
      checkSignature_def publicKeyToAddress_def)

lemma demo_laws: "bytes_equality demo_externs" "keccak_length demo_externs"
    "hash_enabled None" "signature_enabled None"
  by (simp_all add: bytes_equality_def keccak_length_def hash_enabled_def signature_enabled_def)

theorem makeEvent_unpackEnvelope_roundtrip_witness:
  "\<exists>env p. makeEvent demo_externs [1] 5 demo_context (Some (PlChannel (Some (ChRedaction [7]))))
      None None None = Inr env \<and>
    unpackEnvelope demo_externs None env = Inr p \<and>
    ev_payload (pe_event p) = Some (PlChannel (Some (ChRedaction [7])))"
proof -
  have u: "userIdFromAddress demo_externs (sx_creatorAddress demo_context) =
      Some (''0x'' @ replicate 40 (CHR ''0''))"
    unfolding demo_user[symmetric] by (simp add: demo_context_def)
  have "makeStreamEvent [1] 5 demo_context (Some (PlChannel (Some (ChRedaction [7])))) None None None =
      demo_event"
    by (simp add: makeStreamEvent_def demo_context_def demo_event_def)
  then have c: "event_codec demo_externs
      (makeStreamEvent [1] 5 demo_context (Some (PlChannel (Some (ChRedaction [7])))) None None None)"
    by (simp add: event_codec_def demo_event_def)
  show ?thesis
    using makeEvent_unpackEnvelope_roundtrip[OF demo_laws c demo_context_valid u]
    by (auto simp: payload_content_set_def)
qed

theorem unpackEnvelope_sound_witness:
  "\<exists>p. unpackEnvelope demo_externs None
      \<lparr>en_hash = replicate 32 0, en_signature = replicate 65 0, en_event = [1]\<rparr> = Inr p \<and>
    pe_event p = demo_event \<and> pe_hash p = riverHash demo_externs [1] \<and>
    signed_by_creator demo_externs demo_event (replicate 32 0) (replicate 65 0)"
proof -
  let ?env = "\<lparr>en_hash = replicate 32 0, en_signature = replicate 65 0, en_event = [1]\<rparr>"
  have creator: "ev_creatorAddress demo_event = replicate 20 0" by (simp add: demo_event_def)
  obtain p where p: "unpackEnvelope demo_externs None ?env = Inr p"
    using demo_user demo_signed
    by (auto simp: unpackEnvelope_Inr_iff[OF demo_laws(1,3,4)] makeParsedEvent_Inr_iff riverHash_def
        creator)
  show ?thesis
    using p unpackEnvelope_sound[OF demo_laws(1,3,4) p] demo_signed by auto
qed

subsection \<open>Two defects\<close>

definition hex_prefixed_length :: "'a externs_scheme \<Rightarrow> bool" where
  "hex_prefixed_length E \<longleftrightarrow>
     (\<forall>s b. starts_with ''0x'' s \<longrightarrow> x_hexToBytes E s = Some b \<longrightarrow> length s = 2 * length b + 2)"

lemma length_publicKeyToAddress:
  "keccak_length E \<Longrightarrow> publicKeyToAddress E k = Inr a \<Longrightarrow> length a = 20"
  by (auto simp: publicKeyToAddress_def bindE_Inr_iff keccak_length_def Let_def split: if_splits)

lemma length_recoverPublicKeyFromDelegateSig:
  assumes "keccak_length E" "recoverPublicKeyFromDelegateSig E k dsig x = Inr a"
  shows "length a = 20"
  using assms
  by (auto simp: recoverPublicKeyFromDelegateSig_def bindE_Inr_iff Let_def
      dest: length_publicKeyToAddress split: prod.splits)

text \<open>\<open>checkDelegateSig\<close> rejects every creator address given as a string: it reads the string as an
  uncompressed public key of 65 bytes, and compares that with a recovered address of 20 bytes.
\<close>

theorem checkDelegateSig_string_rejected:
  assumes "bytes_equality E" "keccak_length E" "hex_prefixed_length E"
  shows "checkDelegateSig E delegatePubKey (Str creatorAddress) delegateSig expiry \<noteq> Inr ()"
proof
  assume "checkDelegateSig E delegatePubKey (Str creatorAddress) delegateSig expiry = Inr ()"
  then obtain c where c: "publicKeyToUint8Array E creatorAddress = Inr c"
    and r: "recoverPublicKeyFromDelegateSig E delegatePubKey delegateSig expiry = Inr c"
    using assms(1) by (auto simp: checkDelegateSig_def bindE_Inr_iff key_bytes_def bin_equal_iff)
  have "length creatorAddress = 132" "starts_with ''0x'' creatorAddress"
      "x_hexToBytes E creatorAddress = Some c"
    using c starts_with_prefix[of "''0x''" "''04''"]
    by (auto simp: publicKeyToUint8Array_def bindE_Inr_iff bin_fromHexString_def)
  then have "length c = 65" using assms(3) by (auto simp: hex_prefixed_length_def)
  with length_recoverPublicKeyFromDelegateSig[OF assms(2) r] show False by simp
qed

lemma length_plain_hexToBytes: "plain_hexToBytes s = Some b \<Longrightarrow> length s = 2 * length b"
  by (induction s arbitrary: b rule: plain_hexToBytes.induct) (auto split: option.splits)

theorem checkDelegateSig_string_rejected_witness:
  "checkDelegateSig demo_externs (Bytes (replicate 65 0))
     (Str (''0x'' @ replicate 40 (CHR ''0''))) [] 0 \<noteq> Inr ()"
proof (rule checkDelegateSig_string_rejected[OF demo_laws(1,2)])
  show "hex_prefixed_length demo_externs"
    unfolding hex_prefixed_length_def
  proof (intro allI impI)
    fix s b
    assume s: "starts_with ''0x'' s" "x_hexToBytes demo_externs s = Some b"
    then have "plain_hexToBytes (drop 2 s) = Some b"
      by (simp add: demo_externs_def plain_strip0x_def starts_with_def numeral_2_eq_2)
    then have "length (drop 2 s) = 2 * length b" by (rule length_plain_hexToBytes)
    moreover have "length (take 2 s) = 2" using s(1) by (simp add: starts_with_def numeral_2_eq_2)
    ultimately show "length s = 2 * length b + 2" by simp
  qed
qed

text \<open>The event ids that \<open>unpackStream\<close> collects leave out the minipool: for a stream without a
  separate snapshot envelope, dropping all minipool events changes the parsed events but not the
  list of ids.
\<close>

theorem unpackStream_eventIds_ignore_minipool:
  assumes "unpackStream E opts (Some s) = Inr r" "sk_snapshot s = None"
  shows "\<exists>r'. unpackStream E opts (Some (s\<lparr>sk_events := []\<rparr>)) = Inr r' \<and>
    sac_events (psr_streamAndCookie r') = [] \<and> psr_eventIds r' = psr_eventIds r \<and>
    sac_miniblocks (psr_streamAndCookie r') = sac_miniblocks (psr_streamAndCookie r)"
proof -
  let ?r = "r\<lparr>psr_streamAndCookie := (psr_streamAndCookie r)\<lparr>sac_events := []\<rparr>\<rparr>"
  obtain sac where sac: "unpackStreamAndCookie E opts s = Inr sac" "sk_miniblocks s \<noteq> []"
      "psr_streamAndCookie r = sac"
    using assms(1) by (auto simp: unpackStream_def bindE_Inr_iff Let_def)
  have drop: "unpackStreamAndCookie E opts (s\<lparr>sk_events := []\<rparr>) = Inr (sac\<lparr>sac_events := []\<rparr>)"
      "sac_snapshot sac = None"
    using sac(1) assms(2)
    by (auto simp: unpackStreamAndCookie_def bindE_Inr_iff unpackEnvelopes_def)
  have "unpackStream E opts (Some (s\<lparr>sk_events := []\<rparr>)) = Inr ?r"
    using assms(1) sac drop
    by (cases r) (auto simp: unpackStream_def bindE_Inr_iff Let_def flatMap_def split: option.splits)
  then show ?thesis by (intro exI[of _ ?r]) simp
qed

definition demo_header_event :: stream_event where
  "demo_header_event = StreamEvent (replicate 20 0) [] [1] None 5 0 None None
     (Some (PlMiniblockHeader (MiniblockHeader 3 [] None [] (Some (Snapshot None 0 None)) 0 0 None [] None)))"

definition demo_stream :: StreamAndCookie where
  "demo_stream = (let env = \<lparr>en_hash = [9], en_signature = [1], en_event = [1]\<rparr>
     in \<lparr>sk_events = [env], sk_nextSyncCookie = Some \<lparr>sc_nodeAddress = [], sc_streamId = [],
           sc_minipoolGen = 0, sc_prevMiniblockHash = []\<rparr>,
         sk_miniblocks = [\<lparr>mk_events = [], mk_header = Some (env\<lparr>en_hash := [8]\<rparr>)\<rparr>],
         sk_syncReset = False, sk_snapshot = None\<rparr>)"

lemma demo_header_unpack:
  obtains E :: sign_externs and opts
  where "\<And>h. unpackEnvelope E opts \<lparr>en_hash = [h], en_signature = [1], en_event = [1]\<rparr> =
      Inr \<lparr>pe_event = demo_header_event, pe_hash = [h], pe_hashStr = plain_bytesToHex [h],
           pe_signature = Some [1], pe_creatorUserId = ''0x'' @ replicate 40 (CHR ''0'')\<rparr>"
proof -
  let ?E = "demo_externs\<lparr>x_streamEvent_fromBinary := \<lambda>_. Some demo_header_event\<rparr>"
  let ?o = "Some \<lparr>uo_disableHashValidation = Some True, uo_disableSignatureValidation = Some True\<rparr>"
  have u: "userIdFromAddress ?E (ev_creatorAddress demo_header_event) =
      Some (''0x'' @ replicate 40 (CHR ''0''))"
    using demo_user by (simp add: userIdFromAddress_def bin_toHexString_def demo_header_event_def)
  show ?thesis
    by (rule that[of ?E ?o])
       (simp add: unpackEnvelope_def hash_enabled_def signature_enabled_def hasElements_def Let_def
        makeParsedEvent_def u bin_toHexString_def)
qed

theorem unpackStream_eventIds_ignore_minipool_witness:
  "\<exists>(E :: sign_externs) opts (r :: ParsedStreamResponse). unpackStream E opts (Some demo_stream) = Inr r \<and>
     map pe_hashStr (sac_events (psr_streamAndCookie r)) = [''09''] \<and> psr_eventIds r = [''08''] \<and>
     (\<exists>r' :: ParsedStreamResponse. unpackStream E opts (Some (demo_stream\<lparr>sk_events := []\<rparr>)) = Inr r' \<and>
        psr_eventIds r' = psr_eventIds r)"
proof -
  obtain E :: sign_externs and opts
    where env: "\<And>h. unpackEnvelope E opts \<lparr>en_hash = [h], en_signature = [1], en_event = [1]\<rparr> =
      Inr \<lparr>pe_event = demo_header_event, pe_hash = [h], pe_hashStr = plain_bytesToHex [h],
           pe_signature = Some [1], pe_creatorUserId = ''0x'' @ replicate 40 (CHR ''0'')\<rparr>"
    using demo_header_unpack by blast
  have hex: "plain_bytesToHex [8] = ''08''" "plain_bytesToHex [9] = ''09''"
    by code_simp+
  have pl: "ev_payload demo_header_event = Some (PlMiniblockHeader (MiniblockHeader 3 [] None []
      (Some (Snapshot None 0 None)) 0 0 None [] None))"
    by (simp add: demo_header_event_def)
  have ids: "eventIdsFromSnapshot E (Snapshot None 0 None) = []"
    by (simp add: eventIdsFromSnapshot_def map_filter_simps)
  obtain r where r: "unpackStream E opts (Some demo_stream) = Inr r"
      "map pe_hashStr (sac_events (psr_streamAndCookie r)) = [''09'']" "psr_eventIds r = [''08'']"
    by (simp add: unpackStream_def unpackStreamAndCookie_def unpackMiniblock_def unpackEnvelopes_def
        demo_stream_def env pl hex flatMap_def ids Let_def)
  have "sk_snapshot demo_stream = None" by (simp add: demo_stream_def)
  from unpackStream_eventIds_ignore_minipool[OF r(1) this]
  have "\<exists>r'. unpackStream E opts (Some (demo_stream\<lparr>sk_events := []\<rparr>)) = Inr r' \<and>
      psr_eventIds r' = psr_eventIds r" by blast
  with r show ?thesis by - (rule exI[of _ E], rule exI[of _ opts], rule exI[of _ r], simp)
qed

end
