(* ===== verification/Members.thy ===== *)
theory Members
  imports MemberMetadata Views Signing
begin

section \<open>Members of a stream\<close>

text \<open>
  \<open>packages/sdk/src/streamStateView_Members.ts\<close> and
  \<open>packages/sdk/src/streamStateView_Members_Solicitations.ts\<close>. The record \<open>Members\<close> has the fields of
  the class; the shared \<open>StreamMemberIdsView\<close> it writes to is one of them. A \<open>StreamMember\<close> object
  is only reachable through the map \<open>joined\<close>, so that a mutation of it is an update of that map.
\<close>

subsection \<open>State\<close>

record StreamMember =
  mem_userId :: string
  mem_userAddress :: bytes
  mem_miniblockNum :: "int option"
  mem_eventNum :: "int option"
  mem_solicitations :: "KeySolicitationContent list"
  mem_encryptedUsername :: "WrappedEncryptedData option"
  mem_encryptedDisplayName :: "WrappedEncryptedData option"
  mem_ensAddress :: "bytes option"
  mem_nft :: "Nft option"
  mem_tipsSent :: "tally option"
  mem_tipsReceived :: "tally option"
  mem_tipsSentCount :: "tally option"
  mem_tipsReceivedCount :: "tally option"

record MemberSpaceReview =
  msr_review :: SpaceReviewEventObject
  msr_createdAtEpochMs :: int
  msr_eventHashStr :: string

record Solicitations =
  so_streamId :: string
  so_snapshotSigBundle :: "EventSignatureBundle option"
  so_snapshotEventId :: "string option"

record Members =
  m_streamId :: string
  m_joined :: "(string, StreamMember) jsmap"
  m_joinedUsers :: "string jsset"
  m_invitedUsers :: "string jsset"
  m_leftUsers :: "string jsset"
  m_pendingJoinedUsers :: "string jsset"
  m_pendingInvitedUsers :: "string jsset"
  m_pendingLeftUsers :: "string jsset"
  m_pendingMembershipEvents :: "(string, Membership) jsmap"
  m_solicitHelper :: Solicitations
  m_memberMetadata :: MemberMetadata
  m_pins :: "Pin list"
  m_tips :: tally
  m_tipsCount :: tally
  m_encryptionAlgorithm :: "string option"
  m_spaceReviews :: "MemberSpaceReview list"
  m_tokenTransfers :: "MemberTokenTransfer list"
  m_streamMemberIdsView :: StreamMemberIdsView

definition new_Members :: "string \<Rightarrow> StreamMemberIdsView \<Rightarrow> Members" where
  "new_Members streamId view =
     \<lparr>m_streamId = streamId, m_joined = [], m_joinedUsers = [], m_invitedUsers = [], m_leftUsers = [],
      m_pendingJoinedUsers = [], m_pendingInvitedUsers = [], m_pendingLeftUsers = [],
      m_pendingMembershipEvents = [],
      m_solicitHelper = \<lparr>so_streamId = streamId, so_snapshotSigBundle = None, so_snapshotEventId = None\<rparr>,
      m_memberMetadata = new_MemberMetadata streamId, m_pins = [], m_tips = [], m_tipsCount = [],
      m_encryptionAlgorithm = None, m_spaceReviews = [], m_tokenTransfers = [],
      m_streamMemberIdsView = view\<rparr>"

definition streamMemberIds :: "Members \<Rightarrow> string list" where
  "streamMemberIds m = memberIds_get (m_streamMemberIdsView m) (m_streamId m)"

definition new_member :: "string \<Rightarrow> bytes \<Rightarrow> int option \<Rightarrow> int option \<Rightarrow> StreamMember" where
  "new_member userId userAddress miniblockNum eventNum =
     \<lparr>mem_userId = userId, mem_userAddress = userAddress, mem_miniblockNum = miniblockNum,
      mem_eventNum = eventNum, mem_solicitations = [], mem_encryptedUsername = None,
      mem_encryptedDisplayName = None, mem_ensAddress = None, mem_nft = None, mem_tipsSent = None,
      mem_tipsReceived = None, mem_tipsSentCount = None, mem_tipsReceivedCount = None\<rparr>"

text \<open>A mutation of the member object of a user, if the user is in \<open>joined\<close>.\<close>

definition update_member :: "string \<Rightarrow> (StreamMember \<Rightarrow> StreamMember) \<Rightarrow> Members \<Rightarrow> Members" where
  "update_member userId f m =
     (case map_get (m_joined m) userId of
        None \<Rightarrow> m
      | Some member \<Rightarrow> m\<lparr>m_joined := map_set userId (f member) (m_joined m)\<rparr>)"

definition on_metadata ::
  "(MemberMetadata \<Rightarrow> (MemberMetadata, out) res) \<Rightarrow> Members \<Rightarrow> (Members, out) res" where
  "on_metadata = zoom m_memberMetadata (\<lambda>mm m. m\<lparr>m_memberMetadata := mm\<rparr>)"

definition event_payload :: "StreamTimelineEvent \<Rightarrow> payload option" where
  "event_payload event =
     (case se_remoteEvent event of None \<Rightarrow> None | Some p \<Rightarrow> ev_payload (pe_event p))"

subsection \<open>Membership\<close>

datatype membership_type = Pending | Confirmed

text \<open>\<open>Set.add\<close> returns the set, which is truthy, so the guards on it always hold;
  \<open>Set.delete\<close> returns whether the element was there.\<close>

definition applyMembershipEvent ::
  "string \<Rightarrow> MembershipOp \<Rightarrow> membership_type \<Rightarrow> bool \<Rightarrow> Members \<Rightarrow> (Members, out) res" where
  "applyMembershipEvent userId op type stateEmitter m =
     (case op of
        SO_INVITE \<Rightarrow>
          (case type of
             Confirmed \<Rightarrow>
               ok (m\<lparr>m_pendingInvitedUsers := set_del userId (m_pendingInvitedUsers m),
                     m_invitedUsers := set_add userId (m_invitedUsers m)\<rparr>)
                  (emit stateEmitter (streamNewUserInvited (m_streamId m) userId) @
                   emit stateEmitter (streamMembershipUpdated (m_streamId m) userId))
           | Pending \<Rightarrow>
               ok (m\<lparr>m_pendingInvitedUsers := set_add userId (m_pendingInvitedUsers m)\<rparr>)
                  (emit stateEmitter (streamPendingMembershipUpdated (m_streamId m) userId)))
      | SO_JOIN \<Rightarrow>
          (case type of
             Confirmed \<Rightarrow>
               ok (m\<lparr>m_pendingJoinedUsers := set_del userId (m_pendingJoinedUsers m),
                     m_joinedUsers := set_add userId (m_joinedUsers m)\<rparr>)
                  (emit stateEmitter (streamNewUserJoined (m_streamId m) userId) @
                   emit stateEmitter (streamMembershipUpdated (m_streamId m) userId))
           | Pending \<Rightarrow>
               ok (m\<lparr>m_pendingJoinedUsers := set_add userId (m_pendingJoinedUsers m)\<rparr>)
                  (emit stateEmitter (streamPendingMembershipUpdated (m_streamId m) userId)))
      | SO_LEAVE \<Rightarrow>
          (case type of
             Confirmed \<Rightarrow>
               let wasJoined = userId \<in> set (m_joinedUsers m);
                   wasInvited = userId \<in> set (m_invitedUsers m)
               in ok (m\<lparr>m_joinedUsers := set_del userId (m_joinedUsers m),
                        m_invitedUsers := set_del userId (m_invitedUsers m),
                        m_pendingLeftUsers := set_del userId (m_pendingLeftUsers m),
                        m_leftUsers := set_add userId (m_leftUsers m)\<rparr>)
                     (if wasJoined \<or> wasInvited
                      then emit stateEmitter (streamUserLeft (m_streamId m) userId) @
                           emit stateEmitter (streamMembershipUpdated (m_streamId m) userId)
                      else [])
           | Pending \<Rightarrow>
               ok (m\<lparr>m_pendingLeftUsers := set_add userId (m_pendingLeftUsers m)\<rparr>)
                  (emit stateEmitter (streamPendingMembershipUpdated (m_streamId m) userId)))
      | SO_UNSPECIFIED \<Rightarrow> ok m []
      | SO_UNKNOWN _ \<Rightarrow> ok m [])"

definition isMemberJoined :: "Members \<Rightarrow> string \<Rightarrow> bool" where
  "isMemberJoined m userId \<longleftrightarrow> userId \<in> set (m_joinedUsers m)"

definition isMember :: "Members \<Rightarrow> MembershipOp \<Rightarrow> string \<Rightarrow> bool" where
  "isMember m membership userId =
     (case membership of
        SO_INVITE \<Rightarrow> userId \<in> set (m_invitedUsers m)
      | SO_JOIN \<Rightarrow> userId \<in> set (m_joinedUsers m)
      | SO_LEAVE \<Rightarrow> userId \<notin> set (m_invitedUsers m) \<and> userId \<notin> set (m_joinedUsers m)
      | SO_UNSPECIFIED \<Rightarrow> False
      | SO_UNKNOWN _ \<Rightarrow> False)"

definition participants :: "Members \<Rightarrow> string jsset" where
  "participants m = set_union (m_joinedUsers m) (m_invitedUsers m @ m_leftUsers m)"

definition joinedParticipants :: "Members \<Rightarrow> string jsset" where
  "joinedParticipants m = m_joinedUsers m"

definition joinedOrPendingJoinedParticipants :: "Members \<Rightarrow> string jsset" where
  "joinedOrPendingJoinedParticipants m = set_union (m_joinedUsers m) (m_pendingJoinedUsers m)"

definition joinedOrInvitedParticipants :: "Members \<Rightarrow> string jsset" where
  "joinedOrInvitedParticipants m = set_union (m_joinedUsers m) (m_invitedUsers m)"

definition members_info :: "Members \<Rightarrow> string \<Rightarrow> MembershipOp" where
  "members_info m userId =
     (if userId \<in> set (m_joinedUsers m) then SO_JOIN
      else if userId \<in> set (m_invitedUsers m) then SO_INVITE
      else if userId \<in> set (m_leftUsers m) then SO_LEAVE
      else SO_UNSPECIFIED)"

subsection \<open>Key solicitations\<close>

definition initSolicitations ::
  "string \<Rightarrow> StreamMember list \<Rightarrow> EventSignatureBundle \<Rightarrow> bool \<Rightarrow> Solicitations \<Rightarrow>
   (Solicitations, out) res" where
  "initSolicitations eventHashStr members sigBundle encryptionEmitter so =
     ok (so\<lparr>so_snapshotSigBundle := Some sigBundle, so_snapshotEventId := Some eventHashStr\<rparr>)
        (emit encryptionEmitter (initKeySolicitations (so_streamId so) eventHashStr
           (map (\<lambda>x. (mem_userId x, mem_userAddress x, mem_solicitations x)) members) sigBundle))"

text \<open>\<open>applySolicitation\<close> and \<open>applyFulfillment\<close> mutate the member they are given.\<close>

definition applySolicitation ::
  "string \<Rightarrow> KeySolicitation \<Rightarrow> EventSignatureBundle \<Rightarrow> bool \<Rightarrow> Solicitations \<Rightarrow> StreamMember \<Rightarrow>
   (StreamMember, out) res" where
  "applySolicitation eventId solicitation sigBundle encryptionEmitter so user =
     (let newSolicitation = \<lparr>ks_deviceKey = ks_deviceKey solicitation,
            ks_fallbackKey = ks_fallbackKey solicitation, ks_isNewDevice = ks_isNewDevice solicitation,
            ks_sessionIds = sort (ks_sessionIds solicitation)\<rparr>
      in ok (user\<lparr>mem_solicitations :=
               filter (\<lambda>x. ks_deviceKey x \<noteq> ks_deviceKey solicitation) (mem_solicitations user) @
               [newSolicitation]\<rparr>)
            (emit encryptionEmitter (newKeySolicitation (so_streamId so) eventId (mem_userId user)
               (mem_userAddress user) newSolicitation sigBundle)))"

definition applyFulfillment ::
  "KeyFulfillment \<Rightarrow> bool \<Rightarrow> Solicitations \<Rightarrow> StreamMember \<Rightarrow> (StreamMember, out) res" where
  "applyFulfillment fulfillment encryptionEmitter so user =
     (case (so_snapshotSigBundle so, so_snapshotEventId so) of
        (Some sigBundle, Some snapshotEventId) \<Rightarrow>
          (case find_index (\<lambda>x. ks_deviceKey x = kf_deviceKey fulfillment) (mem_solicitations user) of
             None \<Rightarrow> ok user []
           | Some index \<Rightarrow>
               let prev = mem_solicitations user ! index;
                   newEvent = \<lparr>ks_deviceKey = ks_deviceKey prev, ks_fallbackKey = ks_fallbackKey prev,
                     ks_isNewDevice = False,
                     ks_sessionIds = removeCommon (ks_sessionIds prev)
                       (sort (kf_sessionIds fulfillment))\<rparr>
               in ok (user\<lparr>mem_solicitations := (mem_solicitations user)[index := newEvent]\<rparr>)
                     (emit encryptionEmitter (updatedKeySolicitation (so_streamId so) snapshotEventId
                        (mem_userId user) (mem_userAddress user) newEvent sigBundle)))
      | _ \<Rightarrow> throw (throwWithCode None) user)"

definition on_member ::
  "string \<Rightarrow> (Solicitations \<Rightarrow> StreamMember \<Rightarrow> (StreamMember, out) res) \<Rightarrow> Members \<Rightarrow>
   (Members, out) res" where
  "on_member userId f m =
     (case map_get (m_joined m) userId of
        None \<Rightarrow> throw (throwWithCode None) m
      | Some member \<Rightarrow>
          map_res (\<lambda>member'. m\<lparr>m_joined := map_set userId member' (m_joined m)\<rparr>)
            (f (m_solicitHelper m) member))"

subsection \<open>Pins\<close>

text \<open>\<open>newPin\<close> shares the event with the list of pins: what \<open>decryptEvent\<close> stores in the event is
  seen in the list, also when it throws.\<close>

definition pinned_message :: "StreamTimelineEvent \<Rightarrow> EncryptedData option" where
  "pinned_message event =
     (case event_payload event of
        Some (PlChannel (Some (ChMessage d))) \<Rightarrow> Some d
      | Some (PlDmChannel (Some (DmMessage d))) \<Rightarrow> Some d
      | Some (PlGdmChannel (Some (GdmMessage d))) \<Rightarrow> Some d
      | _ \<Rightarrow> None)"

definition addPin ::
  "'a protocol_externs_scheme \<Rightarrow> string \<Rightarrow> StreamTimelineEvent \<Rightarrow> cleartext option \<Rightarrow> bool \<Rightarrow> bool \<Rightarrow>
   Members \<Rightarrow> (Members, out) res" where
  "addPin E creatorUserId event ct encryptionEmitter stateEmitter m =
     (let r = (case pinned_message event of
                 Some d \<Rightarrow> decryptEvent E (m_streamId m) KChannelMessage d ct encryptionEmitter event
               | None \<Rightarrow> ok event []);
          newPin = \<lparr>pin_creatorUserId = creatorUserId, pin_event = st_of r\<rparr>
      in and_then (map_res (\<lambda>_. m\<lparr>m_pins := m_pins m @ [newPin]\<rparr>) r) (\<lambda>m.
         ok m (emit stateEmitter (channelPinAdded (m_streamId m) newPin))))"

definition removePin ::
  "'a externs_scheme \<Rightarrow> bytes \<Rightarrow> bool \<Rightarrow> Members \<Rightarrow> (Members, out) res" where
  "removePin E eventId stateEmitter m =
     (let eventIdStr = bin_toHexString E eventId
      in case find_index (\<lambda>pin. se_hashStr (pin_event pin) = eventIdStr) (m_pins m) of
           None \<Rightarrow> ok m []
         | Some index \<Rightarrow>
             ok (m\<lparr>m_pins := remove_at index (m_pins m)\<rparr>)
                (emit stateEmitter (channelPinRemoved (m_streamId m) (m_pins m ! index) index)))"

subsection \<open>Transactions\<close>

definition addTokenTransfer ::
  "'a externs_scheme \<Rightarrow> MemberBlockchainTransaction \<Rightarrow> TokenTransfer \<Rightarrow> int \<Rightarrow> bool \<Rightarrow> bool \<Rightarrow> Members \<Rightarrow>
   (Members, out) res" where
  "addTokenTransfer E pl transferContent createdAtEpochMs stateEmitter prepend m =
     (let receipt = (case mbt_transaction pl of None \<Rightarrow> None | Some t \<Rightarrow> bt_receipt t);
          solanaReceipt = (case mbt_transaction pl of None \<Rightarrow> None | Some t \<Rightarrow> bt_solanaReceipt t)
      in case userIdFromAddress E (mbt_fromUserAddress pl) of
           None \<Rightarrow> throw LibError m
         | Some userId \<Rightarrow>
             (case js_BigInt (tt_amount transferContent) of
                None \<Rightarrow> throw JsError m
              | Some amount \<Rightarrow>
                  let transferData = \<lparr>mtt_address = tt_address transferContent, mtt_amount = amount,
                        mtt_isBuy = tt_isBuy transferContent,
                        mtt_chainId = (case receipt of
                            Some r \<Rightarrow> int_toString (rc_chainId r)
                          | None \<Rightarrow> (case solanaReceipt of
                              Some _ \<Rightarrow> ''solana-mainnet'' | None \<Rightarrow> ''unknown chain'')),
                        mtt_userId = userId, mtt_sender = tt_sender transferContent,
                        mtt_createdAtEpochMs = createdAtEpochMs,
                        mtt_messageId = bin_toHexString E (tt_messageId transferContent)\<rparr>
                  in ok (m\<lparr>m_tokenTransfers := (if prepend then transferData # m_tokenTransfers m
                           else m_tokenTransfers m @ [transferData])\<rparr>)
                        (emit stateEmitter (streamTokenTransfer (m_streamId m) transferData))))"

definition opt_tally_add :: "string \<Rightarrow> int \<Rightarrow> tally option \<Rightarrow> tally option" where
  "opt_tally_add currency amount t =
     Some (tally_add currency amount (case t of None \<Rightarrow> [] | Some x \<Rightarrow> x))"

text \<open>The tip of a member transaction: the totals are updated before the sender and the receiver
  are looked up, and either lookup may throw.\<close>

definition tip_transaction ::
  "'a externs_scheme \<Rightarrow> MemberBlockchainTransaction \<Rightarrow> Tip \<Rightarrow> string \<Rightarrow> bool \<Rightarrow> Members \<Rightarrow>
   (Members, out) res" where
  "tip_transaction E pl tip hashStr stateEmitter m =
     (case tip_event tip of
        None \<Rightarrow> ok m []
      | Some tipEvent \<Rightarrow>
          (case x_getAddress E (bin_toHexString E (te_currency tipEvent)) of
             None \<Rightarrow> throw LibError m
           | Some currency \<Rightarrow>
               let m1 = m\<lparr>m_tips := tally_add currency (te_amount tipEvent) (m_tips m),
                          m_tipsCount := tally_add currency 1 (m_tipsCount m)\<rparr>
               in case userIdFromAddress E (mbt_fromUserAddress pl) of
                    None \<Rightarrow> throw LibError m1
                  | Some sender \<Rightarrow>
                      let m2 = update_member sender (\<lambda>s.
                            s\<lparr>mem_tipsSent := opt_tally_add currency (te_amount tipEvent) (mem_tipsSent s),
                              mem_tipsSentCount := opt_tally_add currency 1 (mem_tipsSentCount s)\<rparr>) m1
                      in case userIdFromAddress E (tip_toUserAddress tip) of
                           None \<Rightarrow> throw LibError m2
                         | Some receiver \<Rightarrow>
                             let m3 = update_member receiver (\<lambda>s.
                                   s\<lparr>mem_tipsReceived :=
                                       opt_tally_add currency (te_amount tipEvent) (mem_tipsReceived s),
                                     mem_tipsReceivedCount :=
                                       opt_tally_add currency 1 (mem_tipsReceivedCount s)\<rparr>) m2
                             in ok m3 (emit stateEmitter (streamTipped (m_streamId m) hashStr tip))))"

definition member_review :: "SpaceReviewEventObject \<Rightarrow> StreamTimelineEvent \<Rightarrow> MemberSpaceReview" where
  "member_review review event = \<lparr>msr_review = review,
     msr_createdAtEpochMs = se_createdAtEpochMs event, msr_eventHashStr = se_hashStr event\<rparr>"

definition review_of ::
  "'a protocol_externs_scheme \<Rightarrow> MemberBlockchainTransaction \<Rightarrow> SpaceReview \<Rightarrow>
   SpaceReviewEventObject option" where
  "review_of E pl sr =
     (case (case mbt_transaction pl of None \<Rightarrow> None | Some t \<Rightarrow> bt_receipt t) of
        None \<Rightarrow> None
      | Some receipt \<Rightarrow>
          (case sv_event sr of
             None \<Rightarrow> None
           | Some (user, _) \<Rightarrow> Some (getSpaceReviewEventDataBin E (rc_logs receipt) user)))"

definition prepend_review ::
  "SpaceReviewEventObject \<Rightarrow> StreamTimelineEvent \<Rightarrow> bool \<Rightarrow> Members \<Rightarrow> (Members, out) res" where
  "prepend_review review event stateEmitter m =
     (if find (\<lambda>r. rv_user (msr_review r) = rv_user review) (m_spaceReviews m) = None
      then ok (m\<lparr>m_spaceReviews := member_review review event # m_spaceReviews m\<rparr>)
              (emit stateEmitter (spaceReviewsUpdated (m_streamId m) review))
      else ok m [])"

definition append_review ::
  "SpaceReviewEventObject \<Rightarrow> StreamTimelineEvent \<Rightarrow> bool \<Rightarrow> Members \<Rightarrow> (Members, out) res" where
  "append_review review event stateEmitter m =
     ok (m\<lparr>m_spaceReviews :=
           (case find_index (\<lambda>r. rv_user (msr_review r) = rv_user review) (m_spaceReviews m) of
              None \<Rightarrow> m_spaceReviews m @ [member_review review event]
            | Some i \<Rightarrow> (m_spaceReviews m)[i := member_review review event])\<rparr>)
        (emit stateEmitter (spaceReviewsUpdated (m_streamId m) review))"

subsection \<open>Snapshots\<close>

definition snapshot_member :: "string \<Rightarrow> SnapshotMember \<Rightarrow> StreamMember" where
  "snapshot_member userId s =
     \<lparr>mem_userId = userId, mem_userAddress = sm_userAddress s, mem_miniblockNum = Some (sm_miniblockNum s),
      mem_eventNum = Some (sm_eventNum s), mem_solicitations = sm_solicitations s,
      mem_encryptedUsername = sm_username s, mem_encryptedDisplayName = sm_displayName s,
      mem_ensAddress = Some (sm_ensAddress s), mem_nft = sm_nft s, mem_tipsSent = Some (sm_tipsSent s),
      mem_tipsReceived = Some (sm_tipsReceived s), mem_tipsSentCount = Some (sm_tipsSentCount s),
      mem_tipsReceivedCount = Some (sm_tipsReceivedCount s)\<rparr>"

text \<open>The loop over the members of the snapshot, with the list of their ids.\<close>

fun snapshot_members ::
  "'a externs_scheme \<Rightarrow> SnapshotMember list \<Rightarrow> string list \<Rightarrow> Members \<Rightarrow>
   (Members \<times> string list) \<times> exn option" where
  "snapshot_members E [] memberIds m = ((m, memberIds), None)"
| "snapshot_members E (s # ss) memberIds m =
     (case userIdFromAddress E (sm_userAddress s) of
        None \<Rightarrow> ((m, memberIds), Some LibError)
      | Some userId \<Rightarrow>
          snapshot_members E ss (memberIds @ [userId])
            (st_of (applyMembershipEvent userId SO_JOIN Confirmed False
               (m\<lparr>m_joined := map_set userId (snapshot_member userId s) (m_joined m)\<rparr>))))"

definition snapshot_pin ::
  "'a protocol_externs_scheme \<Rightarrow> (string, cleartext) jsmap option \<Rightarrow> bool \<Rightarrow> snapped_pin \<Rightarrow> Members \<Rightarrow>
   (Members, out) res" where
  "snapshot_pin E cleartexts encryptionEmitter sp m =
     (case (case sn_pin sp of None \<Rightarrow> None
            | Some p \<Rightarrow> map_option (\<lambda>e. (e, pm_eventId p)) (pm_event p)) of
        None \<Rightarrow> ok m []
      | Some (event, eventId) \<Rightarrow>
          (case makeParsedEvent E event (Some eventId) None of
             Inl e \<Rightarrow> throw e m
           | Inr parsedEvent \<Rightarrow>
               let remoteEvent = makeRemoteTimelineEvent parsedEvent 0 None None;
                   ct = get_cleartext cleartexts (se_hashStr remoteEvent)
               in case userIdFromAddress E (sn_creatorAddress sp) of
                    None \<Rightarrow> throw LibError m
                  | Some creator \<Rightarrow> addPin E creator remoteEvent ct encryptionEmitter False m))"

definition members_applySnapshot ::
  "'a protocol_externs_scheme \<Rightarrow> ParsedEvent \<Rightarrow> snapshot \<Rightarrow> (string, cleartext) jsmap option \<Rightarrow> bool \<Rightarrow>
   Members \<Rightarrow> (Members, out) res" where
  "members_applySnapshot E event snap cleartexts encryptionEmitter m0 =
     (case sn_members snap of
        None \<Rightarrow> ok m0 []
      | Some ms \<Rightarrow>
          (case snapshot_members E (mss_joined ms) [] m0 of
             ((m1, _), Some e) \<Rightarrow> throw e m1
           | ((m1, memberIds), None) \<Rightarrow>
               let m2 = m1\<lparr>m_streamMemberIdsView :=
                          setMembers (m_streamId m1) memberIds (m_streamMemberIdsView m1)\<rparr>;
                   joined = map snd (m_joined m2);
                   usernames = List.map_filter (\<lambda>x. map_option (\<lambda>w. (mem_userId x, w))
                     (mem_encryptedUsername x)) joined;
                   displayNames = List.map_filter (\<lambda>x. map_option (\<lambda>w. (mem_userId x, w))
                     (mem_encryptedDisplayName x)) joined;
                   ensAddresses = List.map_filter (\<lambda>x. map_option (\<lambda>w. (mem_userId x, w))
                     (mem_ensAddress x)) joined;
                   nfts = List.map_filter (\<lambda>x. map_option (\<lambda>w. (mem_userId x, w)) (mem_nft x)) joined
               in and_then (on_metadata (memberMetadata_applySnapshot E usernames displayNames
                     ensAddresses nfts cleartexts encryptionEmitter) m2) (\<lambda>m3.
                  and_then (zoom m_solicitHelper (\<lambda>so m. m\<lparr>m_solicitHelper := so\<rparr>)
                     (initSolicitations (pe_hashStr event) (map snd (m_joined m3))
                        (getEventSignature event) encryptionEmitter) m3) (\<lambda>m4.
                  and_then (for_each (snapshot_pin E cleartexts encryptionEmitter) (mss_pins ms) m4)
                     (\<lambda>m5.
                  ok (m5\<lparr>m_tips := mss_tips ms, m_tipsCount := mss_tipsCount ms,
                         m_encryptionAlgorithm := (case mss_encryptionAlgorithm ms of
                            None \<Rightarrow> None | Some a \<Rightarrow> a)\<rparr>) [])))))"

subsection \<open>Events\<close>

definition members_prependEvent ::
  "'a protocol_externs_scheme \<Rightarrow> bool \<Rightarrow> StreamTimelineEvent \<Rightarrow> Members \<Rightarrow> (Members, out) res" where
  "members_prependEvent E stateEmitter event m =
     (case event_payload event of
        Some (PlMember content) \<Rightarrow>
          (case content of
             Some (McMemberBlockchainTransaction value) \<Rightarrow>
               (case (case mbt_transaction value of None \<Rightarrow> None | Some t \<Rightarrow> bt_content t) of
                  Some (TcSpaceReview sr) \<Rightarrow>
                    (case review_of E value sr of
                       None \<Rightarrow> ok m []
                     | Some review \<Rightarrow> prepend_review review event stateEmitter m)
                | Some (TcTokenTransfer tt) \<Rightarrow>
                    addTokenTransfer E value tt (se_createdAtEpochMs event) stateEmitter True m
                | _ \<Rightarrow> ok m [])
           | _ \<Rightarrow> ok m [])
      | _ \<Rightarrow> throw (throwWithCode None) m)"

definition append_membership ::
  "'a externs_scheme \<Rightarrow> StreamTimelineEvent \<Rightarrow> Membership \<Rightarrow> bool \<Rightarrow> Members \<Rightarrow> (Members, out) res" where
  "append_membership E event membership stateEmitter m0 =
     (let m = m0\<lparr>m_pendingMembershipEvents :=
                map_set (se_hashStr event) membership (m_pendingMembershipEvents m0)\<rparr>
      in case userIdFromAddress E (ms_userAddress membership) of
           None \<Rightarrow> throw LibError m
         | Some userId \<Rightarrow>
             (case ms_op membership of
                SO_JOIN \<Rightarrow>
                  if map_has (m_joined m) userId then ok m []
                  else applyMembershipEvent userId (ms_op membership) Pending stateEmitter
                    (m\<lparr>m_joined := map_set userId (new_member userId (ms_userAddress membership)
                          (se_miniblockNum event) (Some (se_eventNum event))) (m_joined m),
                       m_streamMemberIdsView :=
                         addMember (m_streamId m) userId (m_streamMemberIdsView m)\<rparr>)
              | SO_LEAVE \<Rightarrow>
                  applyMembershipEvent userId (ms_op membership) Pending stateEmitter
                    (m\<lparr>m_joined := map_delete userId (m_joined m),
                       m_streamMemberIdsView :=
                         removeMember (m_streamId m) userId (m_streamMemberIdsView m)\<rparr>)
              | _ \<Rightarrow> applyMembershipEvent userId (ms_op membership) Pending stateEmitter m))"

definition check_member :: "string \<Rightarrow> (Members \<Rightarrow> (Members, out) res) \<Rightarrow> Members \<Rightarrow> (Members, out) res"
  where
  "check_member userId f m =
     (if map_has (m_joined m) userId then f m else throw (throwWithCode None) m)"

definition append_transaction ::
  "'a protocol_externs_scheme \<Rightarrow> StreamTimelineEvent \<Rightarrow> MemberBlockchainTransaction \<Rightarrow> bool \<Rightarrow>
   Members \<Rightarrow> (Members, out) res" where
  "append_transaction E event value stateEmitter m =
     (case (case mbt_transaction value of None \<Rightarrow> None | Some t \<Rightarrow> bt_content t) of
        None \<Rightarrow> ok m []
      | Some (TcTip tip) \<Rightarrow> tip_transaction E value tip (se_hashStr event) stateEmitter m
      | Some (TcTokenTransfer tt) \<Rightarrow>
          addTokenTransfer E value tt (se_createdAtEpochMs event) stateEmitter False m
      | Some (TcSpaceReview sr) \<Rightarrow>
          (case review_of E value sr of
             None \<Rightarrow> ok m []
           | Some review \<Rightarrow> append_review review event stateEmitter m))"

text \<open>The username and display name of an event are stored wrapped, with the default event number
  and hash.\<close>

definition wrap_data :: "EncryptedData \<Rightarrow> WrappedEncryptedData" where
  "wrap_data d = \<lparr>we_data = Some d, we_eventNum = 0, we_eventHash = []\<rparr>"

definition members_appendEvent ::
  "'a protocol_externs_scheme \<Rightarrow> cleartext option \<Rightarrow> bool \<Rightarrow> bool \<Rightarrow> StreamTimelineEvent \<Rightarrow> Members \<Rightarrow>
   (Members, out) res" where
  "members_appendEvent E ct encryptionEmitter stateEmitter event m =
     (case se_remoteEvent event of
        None \<Rightarrow> throw JsError m
      | Some remoteEvent \<Rightarrow>
     (case ev_payload (pe_event remoteEvent) of
        Some (PlMember content) \<Rightarrow>
          (case content of
             None \<Rightarrow> ok m []
           | Some (McMembership membership) \<Rightarrow> append_membership E event membership stateEmitter m
           | Some (McKeySolicitation value) \<Rightarrow>
               on_member (se_creatorUserId event)
                 (applySolicitation (se_hashStr event) value (getEventSignature remoteEvent)
                    encryptionEmitter) m
           | Some (McKeyFulfillment value) \<Rightarrow>
               (case userIdFromAddress E (kf_userAddress value) of
                  None \<Rightarrow> throw LibError m
                | Some userId \<Rightarrow> on_member userId (applyFulfillment value encryptionEmitter) m)
           | Some (McDisplayName value) \<Rightarrow>
               check_member (se_creatorUserId event) (\<lambda>m.
                 on_metadata (appendDisplayName (se_hashStr event) value (se_creatorUserId event) ct
                   encryptionEmitter stateEmitter)
                   (update_member (se_creatorUserId event)
                     (\<lambda>s. s\<lparr>mem_encryptedDisplayName := Some (wrap_data value)\<rparr>) m)) m
           | Some (McUsername value) \<Rightarrow>
               check_member (se_creatorUserId event) (\<lambda>m.
                 on_metadata (appendUsername (se_hashStr event) value (se_creatorUserId event) ct
                   encryptionEmitter stateEmitter)
                   (update_member (se_creatorUserId event)
                     (\<lambda>s. s\<lparr>mem_encryptedUsername := Some (wrap_data value)\<rparr>) m)) m
           | Some (McEnsAddress value) \<Rightarrow>
               check_member (se_creatorUserId event) (on_metadata
                 (appendEnsAddress E (se_hashStr event) value (se_creatorUserId event) stateEmitter)) m
           | Some (McNft value) \<Rightarrow>
               check_member (se_creatorUserId event) (on_metadata
                 (appendNft (se_hashStr event) value (se_creatorUserId event) stateEmitter)) m
           | Some (McPin pin) \<Rightarrow>
               (case pm_event pin of
                  None \<Rightarrow> throw (throwWithCode None) m
                | Some e \<Rightarrow>
                    (case makeParsedEvent E e (Some (pm_eventId pin)) None of
                       Inl err \<Rightarrow> throw err m
                     | Inr parsedEvent \<Rightarrow>
                         addPin E (se_creatorUserId event)
                           (makeRemoteTimelineEvent parsedEvent 0 None None) None encryptionEmitter
                           stateEmitter m))
           | Some (McUnpin eventId) \<Rightarrow> removePin E eventId stateEmitter m
           | Some (McMemberBlockchainTransaction value) \<Rightarrow>
               append_transaction E event value stateEmitter m
           | Some (McEncryptionAlgorithm algorithm) \<Rightarrow>
               ok (m\<lparr>m_encryptionAlgorithm := algorithm\<rparr>)
                  (emit stateEmitter (streamEncryptionAlgorithmUpdated (m_streamId m) algorithm)))
      | _ \<Rightarrow> throw (throwWithCode None) m))"

definition confirm_membership ::
  "'a externs_scheme \<Rightarrow> StreamTimelineEvent \<Rightarrow> bool \<Rightarrow> Members \<Rightarrow> (Members, out) res" where
  "confirm_membership E event stateEmitter m =
     (case map_get (m_pendingMembershipEvents m) (se_hashStr event) of
        None \<Rightarrow> ok m []
      | Some membership \<Rightarrow>
          let m1 = m\<lparr>m_pendingMembershipEvents :=
                     map_delete (se_hashStr event) (m_pendingMembershipEvents m)\<rparr>
          in case userIdFromAddress E (ms_userAddress membership) of
               None \<Rightarrow> throw LibError m1
             | Some userId \<Rightarrow>
                 applyMembershipEvent userId (ms_op membership) Confirmed stateEmitter
                   (update_member userId (\<lambda>s. s\<lparr>mem_miniblockNum := se_miniblockNum event,
                      mem_eventNum := Some (se_eventNum event)\<rparr>) m1))"

definition members_onConfirmedEvent ::
  "'a externs_scheme \<Rightarrow> bool \<Rightarrow> StreamTimelineEvent \<Rightarrow> Members \<Rightarrow> (Members, out) res" where
  "members_onConfirmedEvent E stateEmitter event m =
     (case event_payload event of
        Some (PlMember content) \<Rightarrow>
          (case content of
             Some (McMembership _) \<Rightarrow> confirm_membership E event stateEmitter m
           | Some (McDisplayName _) \<Rightarrow>
               on_metadata (memberMetadata_onConfirmedEvent E (se_hashStr event) stateEmitter) m
           | Some (McUsername _) \<Rightarrow>
               on_metadata (memberMetadata_onConfirmedEvent E (se_hashStr event) stateEmitter) m
           | Some (McEnsAddress _) \<Rightarrow>
               on_metadata (memberMetadata_onConfirmedEvent E (se_hashStr event) stateEmitter) m
           | Some (McNft _) \<Rightarrow>
               on_metadata (memberMetadata_onConfirmedEvent E (se_hashStr event) stateEmitter) m
           | _ \<Rightarrow> ok m [])
      | _ \<Rightarrow> throw (throwWithCode None) m)"

definition members_onDecryptedContent ::
  "'a externs_scheme \<Rightarrow> string \<Rightarrow> DecryptedContent \<Rightarrow> bool \<Rightarrow> Members \<Rightarrow> (Members, out) res" where
  "members_onDecryptedContent E eventId content stateEmitter m =
     and_then (case content of
                 DcText t \<Rightarrow>
                   on_metadata (memberMetadata_onDecryptedContent E eventId t stateEmitter) m
               | _ \<Rightarrow> ok m []) (\<lambda>m.
     case find_index (\<lambda>pin. se_hashStr (pin_event pin) = eventId) (m_pins m) of
       None \<Rightarrow> ok m []
     | Some i \<Rightarrow>
         let pin = (m_pins m ! i)\<lparr>pin_event := (pin_event (m_pins m ! i))
                     \<lparr>se_decryptedContent := Some content\<rparr>\<rparr>
         in ok (m\<lparr>m_pins := (m_pins m)[i := pin]\<rparr>)
               (emit stateEmitter (channelPinDecrypted (m_streamId m) pin i)))"

subsection \<open>Frame lemmas\<close>

text \<open>The part of the state that says who is a member. Most operations leave it alone.\<close>

definition member_core ::
  "Members \<Rightarrow> string \<times> (string, StreamMember) jsmap \<times> StreamMemberIdsView" where
  "member_core m = (m_streamId m, m_joined m, m_streamMemberIdsView m)"

lemma member_core_simps [simp]:
  "member_core (m\<lparr>m_pins := a\<rparr>) = member_core m"
  "member_core (m\<lparr>m_memberMetadata := b\<rparr>) = member_core m"
  "member_core (m\<lparr>m_spaceReviews := c\<rparr>) = member_core m"
  "member_core (m\<lparr>m_tokenTransfers := d\<rparr>) = member_core m"
  "member_core (m\<lparr>m_encryptionAlgorithm := f\<rparr>) = member_core m"
  "member_core (m\<lparr>m_pendingMembershipEvents := g\<rparr>) = member_core m"
  "member_core (m\<lparr>m_solicitHelper := h\<rparr>) = member_core m"
  "member_core (m\<lparr>m_tips := i, m_tipsCount := j\<rparr>) = member_core m"
  by (simp_all add: member_core_def)

lemma on_metadata_core [simp]: "member_core (st_of (on_metadata f m)) = member_core m"
  by (simp add: on_metadata_def)

lemma applyMembershipEvent_core [simp]:
  "member_core (st_of (applyMembershipEvent userId op type em m)) = member_core m"
  by (simp add: applyMembershipEvent_def member_core_def Let_def
      split: MembershipOp.split membership_type.split)

lemma applyMembershipEvent_ok [simp]: "exn_of (applyMembershipEvent userId op type em m) = None"
  by (simp add: applyMembershipEvent_def Let_def split: MembershipOp.split membership_type.split)

lemma addPin_core [simp]: "member_core (st_of (addPin E c event ct ee se m)) = member_core m"
  by (simp add: addPin_def Let_def st_of_and_then)

lemma removePin_core [simp]: "member_core (st_of (removePin E eventId se m)) = member_core m"
  by (simp add: removePin_def Let_def split: option.split)

lemma addTokenTransfer_core [simp]:
  "member_core (st_of (addTokenTransfer E pl tt t se pre m)) = member_core m"
  by (simp add: addTokenTransfer_def Let_def split: option.split)

lemma reviews_core [simp]:
  "member_core (st_of (prepend_review review event se m)) = member_core m"
  "member_core (st_of (append_review review event se m)) = member_core m"
  by (simp_all add: prepend_review_def append_review_def)

lemma prependEvent_core [simp]:
  "member_core (st_of (members_prependEvent E se event m)) = member_core m"
  by (simp add: members_prependEvent_def split: option.split payload.split member_content.split
      TransactionContent.split)

lemma onDecryptedContent_core [simp]:
  "member_core (st_of (members_onDecryptedContent E eventId content se m)) = member_core m"
  by (simp add: members_onDecryptedContent_def st_of_and_then Let_def
      split: option.split DecryptedContent.split)

subsection \<open>Invariant\<close>

definition solicitations_ok :: "KeySolicitationContent list \<Rightarrow> bool" where
  "solicitations_ok ss \<longleftrightarrow>
     distinct (map ks_deviceKey ss) \<and> (\<forall>s \<in> set ss. sorted (ks_sessionIds s))"

definition joined_ok :: "(string, StreamMember) jsmap \<Rightarrow> bool" where
  "joined_ok joined \<longleftrightarrow> distinct (map fst joined) \<and>
     (\<forall>u s. map_get joined u = Some s \<longrightarrow> mem_userId s = u \<and> solicitations_ok (mem_solicitations s))"

definition ids_ok :: "string list \<Rightarrow> (string, StreamMember) jsmap \<Rightarrow> bool" where
  "ids_ok ids joined \<longleftrightarrow> sorted ids \<and> distinct ids \<and> set ids = fst ` set joined"

definition members_inv :: "Members \<Rightarrow> bool" where
  "members_inv m \<longleftrightarrow> joined_ok (m_joined m) \<and> ids_ok (streamMemberIds m) (m_joined m)"

lemma members_inv_core: "member_core m' = member_core m \<Longrightarrow> members_inv m' = members_inv m"
  by (simp add: members_inv_def member_core_def streamMemberIds_def)

lemma joined_ok_set:
  "joined_ok j \<Longrightarrow> mem_userId s = u \<Longrightarrow> solicitations_ok (mem_solicitations s) \<Longrightarrow>
   joined_ok (map_set u s j)"
  by (auto simp: joined_ok_def)

lemma joined_ok_delete: "joined_ok j \<Longrightarrow> joined_ok (map_delete u j)"
  by (auto simp: joined_ok_def)

lemma joined_okD:
  "joined_ok j \<Longrightarrow> map_get j u = Some s \<Longrightarrow> mem_userId s = u \<and> solicitations_ok (mem_solicitations s)"
  by (auto simp: joined_ok_def)

lemma ids_ok_set: "ids_ok ids j \<Longrightarrow> map_get j u = Some s0 \<Longrightarrow> ids_ok ids (map_set u s j)"
  by (force simp: ids_ok_def dest: map_of_SomeD)

lemma update_entry_inv:
  assumes "members_inv m" "map_get (m_joined m) u = Some s0" "mem_userId s = mem_userId s0"
    "solicitations_ok (mem_solicitations s)"
  shows "members_inv (m\<lparr>m_joined := map_set u s (m_joined m)\<rparr>)"
proof -
  have j: "joined_ok (m_joined m)" and i: "ids_ok (streamMemberIds m) (m_joined m)"
    using assms(1) by (simp_all add: members_inv_def)
  have "mem_userId s = u" using joined_okD[OF j assms(2)] assms(3) by simp
  from joined_ok_set[OF j this assms(4)] ids_ok_set[OF i assms(2)]
  show ?thesis by (simp add: members_inv_def streamMemberIds_def)
qed

lemma update_member_inv [inv_intros]:
  assumes "members_inv m" "\<And>s. mem_userId (f s) = mem_userId s"
    "\<And>s. mem_solicitations (f s) = mem_solicitations s"
  shows "members_inv (update_member u f m)"
proof (cases "map_get (m_joined m) u")
  case None
  then show ?thesis using assms by (simp add: update_member_def)
next
  case (Some s)
  moreover have "solicitations_ok (mem_solicitations s)"
    using assms(1) Some joined_okD by (auto simp: members_inv_def)
  ultimately show ?thesis
    using update_entry_inv[OF assms(1) Some, of "f s"] assms by (simp add: update_member_def)
qed

lemma solicitations_ok_replace:
  assumes "solicitations_ok ss" "sorted (ks_sessionIds n)"
  shows "solicitations_ok (filter (\<lambda>x. ks_deviceKey x \<noteq> ks_deviceKey n) ss @ [n])"
  using assms by (auto simp: solicitations_ok_def distinct_map_filter)

lemma solicitations_ok_update:
  assumes "solicitations_ok ss" "i < length ss" "ks_deviceKey n = ks_deviceKey (ss ! i)"
    "sorted (ks_sessionIds n)"
  shows "solicitations_ok (ss[i := n])"
  using assms set_update_subset_insert[of ss i n] distinct_map_list_update[of ks_deviceKey ss i n]
  by (auto simp: solicitations_ok_def)

lemma on_member_inv:
  assumes "members_inv m"
    and "\<And>so s. solicitations_ok (mem_solicitations s) \<Longrightarrow>
      mem_userId (st_of (f so s)) = mem_userId s \<and> solicitations_ok (mem_solicitations (st_of (f so s)))"
  shows "members_inv (st_of (on_member u f m))"
proof (cases "map_get (m_joined m) u")
  case None
  then show ?thesis using assms(1) by (simp add: on_member_def)
next
  case (Some s)
  have "solicitations_ok (mem_solicitations s)"
    using assms(1) joined_okD[OF _ Some] by (simp add: members_inv_def)
  from assms(2)[OF this] show ?thesis
    using update_entry_inv[OF assms(1) Some] by (simp add: on_member_def Some)
qed

lemma applySolicitation_ok:
  "solicitations_ok (mem_solicitations s) \<Longrightarrow>
   mem_userId (st_of (applySolicitation eventId ks sig ee so s)) = mem_userId s \<and>
   solicitations_ok (mem_solicitations (st_of (applySolicitation eventId ks sig ee so s)))"
  using solicitations_ok_replace[of "mem_solicitations s" "\<lparr>ks_deviceKey = ks_deviceKey ks,
      ks_fallbackKey = ks_fallbackKey ks, ks_isNewDevice = ks_isNewDevice ks,
      ks_sessionIds = sort (ks_sessionIds ks)\<rparr>"]
  by (simp add: applySolicitation_def Let_def)

lemma applyFulfillment_ok:
  assumes "solicitations_ok (mem_solicitations s)"
  shows "mem_userId (st_of (applyFulfillment kf ee so s)) = mem_userId s \<and>
    solicitations_ok (mem_solicitations (st_of (applyFulfillment kf ee so s)))"
proof -
  have "solicitations_ok ((mem_solicitations s)[i := n])"
    if "find_index (\<lambda>x. ks_deviceKey x = kf_deviceKey kf) (mem_solicitations s) = Some i"
      and "n = \<lparr>ks_deviceKey = ks_deviceKey (mem_solicitations s ! i), ks_fallbackKey = fb,
        ks_isNewDevice = False,
        ks_sessionIds = removeCommon (ks_sessionIds (mem_solicitations s ! i)) ys\<rparr>" for i n fb ys
  proof (rule solicitations_ok_update[OF assms])
    show "i < length (mem_solicitations s)" using find_index_SomeD[OF that(1)] by simp
    then have "sorted (ks_sessionIds (mem_solicitations s ! i))"
      using assms by (simp add: solicitations_ok_def)
    then show "sorted (ks_sessionIds n)" by (simp add: that(2) sorted_removeCommon)
  qed (simp add: that(2))
  then show ?thesis
    using assms by (simp add: applyFulfillment_def Let_def split: option.split)
qed

lemma add_joined_inv:
  assumes "members_inv m" "map_get (m_joined m) u = None"
  shows "members_inv (m\<lparr>m_joined := map_set u (new_member u a b c) (m_joined m),
    m_streamMemberIdsView := addMember (m_streamId m) u (m_streamMemberIdsView m)\<rparr>)"
proof -
  have "u \<notin> set (streamMemberIds m)"
    using assms map_get_None_iff by (metis members_inv_def ids_ok_def)
  then show ?thesis
    using assms(1) joined_ok_set[of "m_joined m" "new_member u a b c" u]
    by (simp add: members_inv_def ids_ok_def streamMemberIds_def new_member_def solicitations_ok_def
        sorted_insort distinct_insort set_insort_key)
qed

lemma remove_joined_inv:
  assumes "members_inv m"
  shows "members_inv (m\<lparr>m_joined := map_delete u (m_joined m),
    m_streamMemberIdsView := removeMember (m_streamId m) u (m_streamMemberIdsView m)\<rparr>)"
  using assms joined_ok_delete[of "m_joined m" u]
  by (auto simp: members_inv_def ids_ok_def streamMemberIds_def sorted_wrt_filter)

lemma members_inv_upd [simp]:
  "members_inv (m\<lparr>m_pendingMembershipEvents := x\<rparr>) = members_inv m"
  "members_inv (m\<lparr>m_tips := y, m_tipsCount := z\<rparr>) = members_inv m"
  "members_inv (m\<lparr>m_encryptionAlgorithm := w\<rparr>) = members_inv m"
  by (simp_all add: members_inv_core[OF member_core_simps(6)]
      members_inv_core[OF member_core_simps(8)] members_inv_core[OF member_core_simps(5)])

lemma applyMembershipEvent_inv [simp]:
  "members_inv (st_of (applyMembershipEvent u op type em m)) = members_inv m"
  by (rule members_inv_core) simp

lemma append_membership_inv:
  assumes "members_inv m"
  shows "members_inv (st_of (append_membership E event mb se m))"
proof (cases "userIdFromAddress E (ms_userAddress mb)")
  case None
  then show ?thesis using assms by (simp add: append_membership_def)
next
  case (Some u)
  let ?m = "m\<lparr>m_pendingMembershipEvents := map_set (se_hashStr event) mb (m_pendingMembershipEvents m)\<rparr>"
  have m: "members_inv ?m" using assms by simp
  show ?thesis
  proof (cases "ms_op mb")
    case SO_JOIN
    then show ?thesis
      using add_joined_inv[OF m, of u] m by (simp add: append_membership_def Let_def Some)
  next
    case SO_LEAVE
    then show ?thesis
      using remove_joined_inv[OF m, of u] by (simp add: append_membership_def Let_def Some)
  qed (use m in \<open>simp_all add: append_membership_def Let_def Some\<close>)
qed

lemma tip_transaction_inv:
  assumes "members_inv m"
  shows "members_inv (st_of (tip_transaction E pl tip h se m))"
  using assms
  by (auto simp: tip_transaction_def Let_def split: option.split intro!: update_member_inv)

lemma core_inv:
  assumes "members_inv m"
  shows "members_inv (st_of (on_metadata f m))" "members_inv (st_of (addPin E c event ct ee se m))"
    "members_inv (st_of (removePin E pinId se m))"
    "members_inv (st_of (addTokenTransfer E pl tt t se pre m))"
    "members_inv (st_of (append_review review event se m))"
    "members_inv (st_of (members_prependEvent E se event m))"
    "members_inv (st_of (members_onDecryptedContent E eventId content se m))"
  using assms by (simp_all add: members_inv_core[OF on_metadata_core] members_inv_core[OF addPin_core]
      members_inv_core[OF removePin_core] members_inv_core[OF addTokenTransfer_core]
      members_inv_core[OF reviews_core(2)] members_inv_core[OF prependEvent_core]
      members_inv_core[OF onDecryptedContent_core])

lemma append_transaction_inv:
  "members_inv m \<Longrightarrow> members_inv (st_of (append_transaction E event v se m))"
  by (auto simp: append_transaction_def tip_transaction_inv core_inv
      split: option.split TransactionContent.split)

lemma check_member_inv:
  "members_inv m \<Longrightarrow> (\<And>m. members_inv m \<Longrightarrow> members_inv (st_of (f m))) \<Longrightarrow>
   members_inv (st_of (check_member u f m))"
  by (simp add: check_member_def)

lemma members_appendEvent_inv:
  assumes "members_inv m"
  shows "members_inv (st_of (members_appendEvent E ct ee se event m))"
proof -
  have names: "members_inv (st_of (check_member u (\<lambda>m. on_metadata (g m) (update_member u f m)) m))"
    if "\<And>s. mem_userId (f s) = mem_userId s" "\<And>s. mem_solicitations (f s) = mem_solicitations s"
    for u f g by (intro check_member_inv core_inv(1) update_member_inv assms that)
  have keys: "members_inv (st_of (on_member u (applySolicitation a b c d) m))"
    "members_inv (st_of (on_member u (applyFulfillment v ee) m))" for u a b c d v
    by (intro on_member_inv assms applySolicitation_ok applyFulfillment_ok; assumption)+
  show ?thesis
    using assms unfolding members_appendEvent_def
    by (auto simp: append_membership_inv keys names core_inv append_transaction_inv check_member_inv
        split: option.split payload.split member_content.split sum.split)
qed

lemma members_onConfirmedEvent_inv:
  assumes "members_inv m"
  shows "members_inv (st_of (members_onConfirmedEvent E se event m))"
proof -
  have "members_inv (st_of (confirm_membership E event se m))"
    using assms by (auto simp: confirm_membership_def Let_def split: option.split
        intro!: update_member_inv)
  then show ?thesis
    using assms by (auto simp: members_onConfirmedEvent_def core_inv
        split: option.split payload.split member_content.split)
qed

text \<open>A call of the class after its snapshot has been applied.\<close>

datatype members_call =
    MPrepend bool StreamTimelineEvent
  | MAppend "cleartext option" bool bool StreamTimelineEvent
  | MConfirm bool StreamTimelineEvent
  | MDecrypted string DecryptedContent bool

fun members_step ::
  "'a protocol_externs_scheme \<Rightarrow> members_call \<Rightarrow> Members \<Rightarrow> (Members, out) res" where
  "members_step E (MPrepend se event) m = members_prependEvent E se event m"
| "members_step E (MAppend ct ee se event) m = members_appendEvent E ct ee se event m"
| "members_step E (MConfirm se event) m = members_onConfirmedEvent E se event m"
| "members_step E (MDecrypted eventId content se) m = members_onDecryptedContent E eventId content se m"

interpretation mb: component members_inv "members_step E" for E
proof unfold_locales
  fix m x
  show "members_inv m \<Longrightarrow> members_inv (st_of (members_step E x m))"
    by (cases x) (simp_all add: members_appendEvent_inv members_onConfirmedEvent_inv core_inv)
qed

subsection \<open>Snapshots establish the invariant\<close>

lemma snapshot_members_ok:
  assumes "snapshot_members E ss ids m = ((m', ids'), None)"
    and "\<forall>s \<in> set ss. solicitations_ok (sm_solicitations s)" "joined_ok (m_joined m)"
  shows "map Some ids' = map Some ids @ map (\<lambda>s. userIdFromAddress E (sm_userAddress s)) ss \<and>
    joined_ok (m_joined m') \<and> m_streamId m' = m_streamId m \<and>
    (fst ` set (m_joined m) = set ids \<longrightarrow> fst ` set (m_joined m') = set ids')"
  using assms
proof (induction ss arbitrary: ids m)
  case Nil
  then show ?case by simp
next
  case (Cons s ss)
  obtain u where u: "userIdFromAddress E (sm_userAddress s) = Some u"
    using Cons.prems(1) by (auto split: option.splits)
  let ?m = "st_of (applyMembershipEvent u SO_JOIN Confirmed False
      (m\<lparr>m_joined := map_set u (snapshot_member u s) (m_joined m)\<rparr>))"
  have c: "m_joined ?m = map_set u (snapshot_member u s) (m_joined m)" "m_streamId ?m = m_streamId m"
    by (simp_all add: applyMembershipEvent_def)
  have "joined_ok (m_joined ?m)" unfolding c
    by (rule joined_ok_set) (use Cons.prems(2,3) in \<open>simp_all add: snapshot_member_def\<close>)
  from Cons.IH[OF _ _ this, of "ids @ [u]"] Cons.prems(1,2) show ?case
    by (simp add: u c)
qed

lemma memberMetadata_step_core [simp]:
  "member_core (st_of (zoom m_solicitHelper (\<lambda>so m. m\<lparr>m_solicitHelper := so\<rparr>) f m)) = member_core m"
  by simp

lemma snapshot_pin_core [simp]: "member_core (st_of (snapshot_pin E cts ee sp m)) = member_core m"
  by (simp add: snapshot_pin_def Let_def split: option.split sum.split)

lemma for_each_core:
  assumes "\<And>x m. member_core (st_of (f x m)) = member_core m"
  shows "member_core (st_of (for_each f xs m)) = member_core m"
  by (rule for_each_inv[where I = "\<lambda>s. member_core s = member_core m"]) (simp_all add: assms)

lemma members_applySnapshot_core:
  assumes "sn_members snap = Some ms" "snapshot_members E (mss_joined ms) [] m = ((m1, ids), None)"
  shows "member_core (st_of (members_applySnapshot E ev snap cts ee m)) =
    member_core (m1\<lparr>m_streamMemberIdsView := setMembers (m_streamId m1) ids (m_streamMemberIdsView m1)\<rparr>)"
  by (simp add: members_applySnapshot_def assms st_of_and_then for_each_core Let_def
      member_core_def[of "_\<lparr>m_tips := _\<rparr>"])

lemma members_applySnapshot_inv:
  assumes snap: "sn_members snap = Some ms"
    and ok: "exn_of (members_applySnapshot E ev snap cts ee (new_Members streamId view)) = None"
    and distinct: "distinct (map (\<lambda>s. userIdFromAddress E (sm_userAddress s)) (mss_joined ms))"
    and sol: "\<forall>s \<in> set (mss_joined ms). solicitations_ok (sm_solicitations s)"
  shows "members_inv (st_of (members_applySnapshot E ev snap cts ee (new_Members streamId view)))"
proof -
  let ?m = "new_Members streamId view"
  obtain m1 ids e where r: "snapshot_members E (mss_joined ms) [] ?m = ((m1, ids), e)"
    by (metis surj_pair)
  have "e = None"
    using ok snap r by (cases e) (simp_all add: members_applySnapshot_def)
  note r = r[unfolded this]
  have new: "joined_ok (m_joined ?m)" "fst ` set (m_joined ?m) = set []"
    by (simp_all add: new_Members_def joined_ok_def)
  note s = snapshot_members_ok[OF r sol new(1)]
  have "distinct (map Some ids)" using s distinct by simp
  then have "distinct ids" by (simp add: distinct_map)
  then have "members_inv (m1\<lparr>m_streamMemberIdsView :=
      setMembers (m_streamId m1) ids (m_streamMemberIdsView m1)\<rparr>)"
    using s new(2) by (simp add: members_inv_def ids_ok_def streamMemberIds_def)
  then show ?thesis
    by (rule members_inv_core[OF members_applySnapshot_core[OF snap r], THEN iffD2])
qed

subsection \<open>Concrete data\<close>

text \<open>Two users, a snapshot of the first and events, on which the properties are evaluated.\<close>

definition user0 :: string where "user0 = ''0x'' @ replicate 40 (CHR ''0'')"
definition user1 :: string where "user1 = ''0x'' @ concat (replicate 20 ''01'')"

lemma demo_ids [simp]:
  "userIdFromAddress demo_externs (replicate 20 0) = Some user0"
  "userIdFromAddress demo_externs (replicate 20 1) = Some user1" "user0 \<noteq> user1" "user1 \<noteq> user0"
proof -
  have "x_getAddress plain_externs (plain_bytesToHex (replicate 20 1)) = Some user1" by code_simp
  then show "userIdFromAddress demo_externs (replicate 20 1) = Some user1"
    by (simp add: userIdFromAddress_def bin_toHexString_def)
  show "userIdFromAddress demo_externs (replicate 20 0) = Some user0"
    unfolding user0_def by (rule demo_user)
  show "user0 \<noteq> user1" by code_simp
  then show "user1 \<noteq> user0" by simp
qed

definition demo_parsed :: "string \<Rightarrow> string \<Rightarrow> payload \<Rightarrow> ParsedEvent" where
  "demo_parsed hash creator pl = \<lparr>pe_event = StreamEvent [] [] [] None 0 0 None None (Some pl),
     pe_hash = [], pe_hashStr = hash, pe_signature = None, pe_creatorUserId = creator\<rparr>"

definition demo_remote :: "string \<Rightarrow> string \<Rightarrow> payload \<Rightarrow> StreamTimelineEvent" where
  "demo_remote hash creator pl = makeRemoteTimelineEvent (demo_parsed hash creator pl) 0 None None"

lemma demo_remote_sel [simp]:
  "se_hashStr (demo_remote h c pl) = h" "se_creatorUserId (demo_remote h c pl) = c"
  "se_remoteEvent (demo_remote h c pl) = Some (demo_parsed h c pl)"
  "event_payload (demo_remote h c pl) = Some pl"
  "ev_payload (pe_event (demo_parsed h c pl)) = Some pl" "pe_hashStr (demo_parsed h c pl) = h"
  by (simp_all add: demo_remote_def makeRemoteTimelineEvent_def demo_parsed_def event_payload_def)

definition demo_member :: "byte \<Rightarrow> SnapshotMember" where
  "demo_member b = \<lparr>sm_userAddress = replicate 20 b, sm_miniblockNum = 0, sm_eventNum = 0,
     sm_solicitations = [], sm_username = None, sm_displayName = None, sm_ensAddress = [],
     sm_nft = None, sm_tipsSent = [], sm_tipsReceived = [], sm_tipsSentCount = [],
     sm_tipsReceivedCount = []\<rparr>"

definition demo_snapshot :: snapshot where
  "demo_snapshot = Snapshot (Some (MembersSnapshot [demo_member 0, demo_member 1] [] None [] [])) 5 None"

definition demo_membership :: "MembershipOp \<Rightarrow> byte \<Rightarrow> payload" where
  "demo_membership op b = PlMember (Some (McMembership
     \<lparr>ms_op = op, ms_userAddress = replicate 20 b, ms_initiatorAddress = [], ms_streamParentId = None,
      ms_reason = MR_NONE, ms_appAddress = None\<rparr>))"

definition demo_start :: "(Members, out) res" where
  "demo_start = members_applySnapshot demo_externs (demo_parsed ''h0'' user0 (PlMember None))
     demo_snapshot None True (new_Members ''s'' [])"

abbreviation demo_members :: Members where "demo_members \<equiv> st_of demo_start"

lemma snapshot_members_demo:
  "\<exists>m. snapshot_members demo_externs [demo_member 0, demo_member 1] [] (new_Members ''s'' []) =
     ((m, [user0, user1]), None) \<and> m_streamId m = ''s'' \<and> m_memberMetadata m = new_MemberMetadata ''s'' \<and>
   m_joined m = [(user0, snapshot_member user0 (demo_member 0)),
                 (user1, snapshot_member user1 (demo_member 1))] \<and>
   set (m_joinedUsers m) = {user0, user1}"
  by (auto simp add: applyMembershipEvent_def new_Members_def demo_member_def)

lemma demo_entry [simp]:
  "mem_encryptedUsername (snapshot_member u (demo_member b)) = None"
  "mem_encryptedDisplayName (snapshot_member u (demo_member b)) = None"
  "mem_ensAddress (snapshot_member u (demo_member b)) = Some []"
  "mem_nft (snapshot_member u (demo_member b)) = None"
  "mem_userId (snapshot_member u (demo_member b)) = u"
  "mem_solicitations (snapshot_member u (demo_member b)) = []"
  by (simp_all add: snapshot_member_def demo_member_def)

lemma demo_start_ok: "exn_of demo_start = None"
proof -
  obtain m where m: "snapshot_members demo_externs [demo_member 0, demo_member 1] []
      (new_Members ''s'' []) = ((m, [user0, user1]), None)"
    "m_memberMetadata m = new_MemberMetadata ''s''"
    "m_joined m = [(user0, snapshot_member user0 (demo_member 0)),
                 (user1, snapshot_member user1 (demo_member 1))]"
    using snapshot_members_demo by blast
  show ?thesis
    by (simp add: demo_start_def members_applySnapshot_def demo_snapshot_def m Let_def
        List.map_filter_def on_metadata_def exn_of_and_then
        memberMetadata_applySnapshot_def on_part_defs sortPayloads_def ensAddresses_applySnapshot_def
        initSolicitations_def zoom_def del: snapshot_members.simps)
qed

lemma on_metadata_joinedUsers [simp]: "m_joinedUsers (st_of (on_metadata f m)) = m_joinedUsers m"
  by (simp add: on_metadata_def)

lemma demo_joinedUsers: "set (m_joinedUsers demo_members) = {user0, user1}"
proof -
  obtain m where m: "snapshot_members demo_externs [demo_member 0, demo_member 1] []
      (new_Members ''s'' []) = ((m, [user0, user1]), None)" "set (m_joinedUsers m) = {user0, user1}"
    using snapshot_members_demo by auto
  show ?thesis
    by (simp add: demo_start_def members_applySnapshot_def demo_snapshot_def m Let_def
        st_of_and_then initSolicitations_def zoom_def del: snapshot_members.simps)
qed

lemma on_metadata_solicitHelper [simp]:
  "m_solicitHelper (st_of (on_metadata f m)) = m_solicitHelper m"
  by (simp add: on_metadata_def)

lemma snapshot_pin_solicitHelper [simp]:
  "m_solicitHelper (st_of (snapshot_pin E cts ee sp m)) = m_solicitHelper m"
  by (simp add: snapshot_pin_def Let_def addPin_def st_of_and_then split: option.split sum.split)

lemma applySnapshot_solicitHelper:
  assumes "sn_members snap = Some ms" "exn_of (members_applySnapshot E ev snap cts ee m) = None"
  shows "so_snapshotSigBundle (m_solicitHelper (st_of (members_applySnapshot E ev snap cts ee m))) =
      Some (getEventSignature ev)"
    "so_snapshotEventId (m_solicitHelper (st_of (members_applySnapshot E ev snap cts ee m))) =
      Some (pe_hashStr ev)"
proof -
  have pins: "m_solicitHelper (st_of (for_each (snapshot_pin E cts ee) ps n)) = m_solicitHelper n" for ps n
    by (rule for_each_inv[where I = "\<lambda>s. m_solicitHelper s = m_solicitHelper n"]) simp_all
  from assms show "so_snapshotSigBundle (m_solicitHelper (st_of (members_applySnapshot E ev snap cts ee m))) =
      Some (getEventSignature ev)"
    "so_snapshotEventId (m_solicitHelper (st_of (members_applySnapshot E ev snap cts ee m))) =
      Some (pe_hashStr ev)"
    unfolding members_applySnapshot_def
    by (auto simp: Let_def st_of_and_then exn_of_and_then initSolicitations_def zoom_def pins
        split: prod.splits option.splits if_splits)
qed

lemma demo_solicitHelper:
  "so_snapshotSigBundle (m_solicitHelper demo_members) \<noteq> None"
  "so_snapshotEventId (m_solicitHelper demo_members) = Some ''h0''"
proof -
  have "sn_members demo_snapshot \<noteq> None" by (simp add: demo_snapshot_def)
  then show "so_snapshotSigBundle (m_solicitHelper demo_members) \<noteq> None"
    "so_snapshotEventId (m_solicitHelper demo_members) = Some ''h0''"
    using applySnapshot_solicitHelper[OF _ demo_start_ok[unfolded demo_start_def]]
    unfolding demo_start_def by auto
qed

lemma demo_members_core:
  "m_streamId demo_members = ''s''" "streamMemberIds demo_members = [user0, user1]"
  "m_joined demo_members = [(user0, snapshot_member user0 (demo_member 0)),
                 (user1, snapshot_member user1 (demo_member 1))]"
proof -
  obtain m where m: "snapshot_members demo_externs [demo_member 0, demo_member 1] []
      (new_Members ''s'' []) = ((m, [user0, user1]), None)" "m_streamId m = ''s''"
    "m_joined m = [(user0, snapshot_member user0 (demo_member 0)),
                 (user1, snapshot_member user1 (demo_member 1))]"
    using snapshot_members_demo by blast
  have sm: "sn_members demo_snapshot = Some (MembersSnapshot [demo_member 0, demo_member 1] [] None [] [])"
    by (simp add: demo_snapshot_def)
  have s: "sort [user0, user1] = [user0, user1]" by code_simp
  have "member_core demo_members =
      member_core (m\<lparr>m_streamMemberIdsView := setMembers ''s'' [user0, user1] (m_streamMemberIdsView m)\<rparr>)"
    unfolding demo_start_def using members_applySnapshot_core[OF sm, of demo_externs "new_Members ''s'' []" m] m(1,2)
    by (simp del: snapshot_members.simps)
  then show "m_streamId demo_members = ''s''" "streamMemberIds demo_members = [user0, user1]"
    "m_joined demo_members = [(user0, snapshot_member user0 (demo_member 0)),
                 (user1, snapshot_member user1 (demo_member 1))]"
    using m(2,3) s by (simp_all add: member_core_def streamMemberIds_def)
qed



subsection \<open>Membership changes\<close>

text \<open>The confirmed membership of the users.\<close>

definition confirmed_sets :: "Members \<Rightarrow> string jsset \<times> string jsset \<times> string jsset" where
  "confirmed_sets m = (m_joinedUsers m, m_invitedUsers m, m_leftUsers m)"

lemma members_info_cong: "confirmed_sets m = confirmed_sets m' \<Longrightarrow> members_info m = members_info m'"
  by (rule ext) (simp add: members_info_def confirmed_sets_def)

lemma append_membership_pending:
  assumes "userIdFromAddress E (ms_userAddress mb) = Some u"
  shows "exn_of (append_membership E e mb se m) = None"
    "confirmed_sets (st_of (append_membership E e mb se m)) = confirmed_sets m"
    "map_get (m_pendingMembershipEvents (st_of (append_membership E e mb se m))) (se_hashStr e) = Some mb"
  by (auto simp: append_membership_def assms Let_def applyMembershipEvent_def confirmed_sets_def
      split: MembershipOp.split)

lemma append_membership_keys:
  assumes "userIdFromAddress E (ms_userAddress mb) = Some u"
  shows "ms_op mb = SO_JOIN \<Longrightarrow> u \<in> fst ` set (m_joined (st_of (append_membership E e mb se m)))"
    and "ms_op mb = SO_LEAVE \<Longrightarrow> u \<notin> fst ` set (m_joined (st_of (append_membership E e mb se m)))"
  using map_has_iff[of "m_joined m" u]
  by (auto simp: append_membership_def assms Let_def applyMembershipEvent_def)

lemma update_member_keeps [simp]:
  "confirmed_sets (update_member u f m) = confirmed_sets m"
  "m_pendingMembershipEvents (update_member u f m) = m_pendingMembershipEvents m"
  "m_pendingJoinedUsers (update_member u f m) = m_pendingJoinedUsers m"
  by (simp_all add: update_member_def confirmed_sets_def split: option.split)

lemma applyMembershipEvent_confirmed:
  "members_info (st_of (applyMembershipEvent u op Confirmed se m)) v =
     (if v = u then (case op of SO_JOIN \<Rightarrow> SO_JOIN | SO_LEAVE \<Rightarrow> SO_LEAVE
        | SO_INVITE \<Rightarrow> if u \<in> set (m_joinedUsers m) then SO_JOIN else SO_INVITE
        | _ \<Rightarrow> members_info m u)
      else members_info m v)"
  by (auto simp: applyMembershipEvent_def members_info_def Let_def split: MembershipOp.split)

lemma confirm_membership_info:
  assumes "userIdFromAddress E (ms_userAddress mb) = Some u"
    "map_get (m_pendingMembershipEvents m) (se_hashStr e) = Some mb"
  shows "exn_of (confirm_membership E e se m) = None"
    "map_get (m_pendingMembershipEvents (st_of (confirm_membership E e se m))) (se_hashStr e) = None"
    "members_info (st_of (confirm_membership E e se m)) v =
      (if v = u then (case ms_op mb of SO_JOIN \<Rightarrow> SO_JOIN | SO_LEAVE \<Rightarrow> SO_LEAVE
          | SO_INVITE \<Rightarrow> if u \<in> set (m_joinedUsers m) then SO_JOIN else SO_INVITE
          | _ \<Rightarrow> members_info m u)
       else members_info m v)"
proof -
  let ?f = "\<lambda>s. s\<lparr>mem_miniblockNum := se_miniblockNum e, mem_eventNum := Some (se_eventNum e)\<rparr>"
  let ?m = "update_member u ?f (m\<lparr>m_pendingMembershipEvents :=
      map_delete (se_hashStr e) (m_pendingMembershipEvents m)\<rparr>)"
  have eq: "confirm_membership E e se m = applyMembershipEvent u (ms_op mb) Confirmed se ?m"
    by (simp add: confirm_membership_def assms Let_def)
  have sets: "confirmed_sets ?m = confirmed_sets m" by simp (simp add: confirmed_sets_def)
  then have "m_joinedUsers ?m = m_joinedUsers m" by (simp add: confirmed_sets_def)
  then show "members_info (st_of (confirm_membership E e se m)) v =
      (if v = u then (case ms_op mb of SO_JOIN \<Rightarrow> SO_JOIN | SO_LEAVE \<Rightarrow> SO_LEAVE
          | SO_INVITE \<Rightarrow> if u \<in> set (m_joinedUsers m) then SO_JOIN else SO_INVITE
          | _ \<Rightarrow> members_info m u)
       else members_info m v)"
    unfolding eq applyMembershipEvent_confirmed members_info_cong[OF sets] by simp
  have "m_pendingMembershipEvents (st_of (applyMembershipEvent u op ty se n)) = m_pendingMembershipEvents n"
    for op ty n
    by (simp add: applyMembershipEvent_def Let_def split: MembershipOp.split membership_type.split)
  then show "exn_of (confirm_membership E e se m) = None"
    "map_get (m_pendingMembershipEvents (st_of (confirm_membership E e se m))) (se_hashStr e) = None"
    unfolding eq by simp_all
qed

text \<open>
  C37. A membership event takes effect in two stages. When it is appended, the list of members
  observed by others already follows it, but the confirmed membership of every user is the one
  before; when the event is confirmed, the user has the membership the event gives (an invitation
  does not demote a joined user), the confirmed membership of everyone else is unchanged and the
  event is no longer pending. Neither stage throws when the user's address is well formed.
\<close>

theorem membership_lifecycle:
  assumes e: "event_payload e = Some (PlMember (Some (McMembership mb)))"
    and e': "event_payload e' = event_payload e" "se_hashStr e' = se_hashStr e"
    and u: "userIdFromAddress E (ms_userAddress mb) = Some u"
    and inv: "members_inv m"
    and m1: "m1 = st_of (members_appendEvent E ct ee se e m)"
    and m2: "m2 = st_of (members_onConfirmedEvent E se e' m1)"
  shows "exn_of (members_appendEvent E ct ee se e m) = None \<and>
    exn_of (members_onConfirmedEvent E se e' m1) = None \<and>
    members_info m1 = members_info m \<and>
    (ms_op mb = SO_JOIN \<longrightarrow> u \<in> set (streamMemberIds m1) \<and> members_info m2 u = SO_JOIN) \<and>
    (ms_op mb = SO_LEAVE \<longrightarrow> u \<notin> set (streamMemberIds m1) \<and> members_info m2 u = SO_LEAVE) \<and>
    (ms_op mb = SO_INVITE \<longrightarrow> members_info m2 u =
       (if members_info m u = SO_JOIN then SO_JOIN else SO_INVITE)) \<and>
    (\<forall>v. v \<noteq> u \<longrightarrow> members_info m2 v = members_info m v) \<and>
    \<not> map_has (m_pendingMembershipEvents m2) (se_hashStr e)"
proof -
  have app: "members_appendEvent E ct ee se e m = append_membership E e mb se m"
    using e by (auto simp: members_appendEvent_def event_payload_def split: option.splits)
  have con: "members_onConfirmedEvent E se e' m1 = confirm_membership E e' se m1"
    by (simp add: members_onConfirmedEvent_def e e')
  have "members_inv m1" unfolding m1 by (rule members_appendEvent_inv[OF inv])
  then have ids: "set (streamMemberIds m1) = fst ` set (m_joined m1)"
    by (simp add: members_inv_def ids_ok_def)
  note a = append_membership_pending[OF u, of e se m]
  have info: "members_info m1 = members_info m" "m_joinedUsers m1 = m_joinedUsers m"
    using a(2) members_info_cong unfolding m1 app by (blast, simp add: confirmed_sets_def)
  have pend: "map_get (m_pendingMembershipEvents m1) (se_hashStr e') = Some mb"
    using a(3) unfolding m1 app e'(2) .
  have j: "(members_info m u = SO_JOIN) = (u \<in> set (m_joinedUsers m))"
    by (simp add: members_info_def)
  show ?thesis
    using confirm_membership_info[OF u pend, of se] append_membership_keys[OF u, of e se m] a(1)
      ids info j unfolding m2 con app m1[symmetric] e'(2)
    by (auto simp: m1[unfolded app, symmetric])
qed

lemma demo_members_inv: "members_inv demo_members"
  unfolding demo_start_def
  by (rule members_applySnapshot_inv[OF _ demo_start_ok[unfolded demo_start_def]])
    (auto simp: demo_snapshot_def demo_member_def solicitations_ok_def)

theorem membership_lifecycle_witness:
  "\<exists>m1 m2. m1 = st_of (members_appendEvent demo_externs None True True
        (demo_remote ''h1'' user0 (demo_membership SO_LEAVE 0)) demo_members) \<and>
     m2 = st_of (members_onConfirmedEvent demo_externs True
        (demo_remote ''h1'' user0 (demo_membership SO_LEAVE 0)) m1) \<and>
     user0 \<notin> set (streamMemberIds m1) \<and> members_info m1 user0 = SO_JOIN \<and>
     members_info m2 user0 = SO_LEAVE \<and> members_info m2 user1 = SO_JOIN"
proof -
  let ?e = "demo_remote ''h1'' user0 (demo_membership SO_LEAVE 0)"
  let ?mb = "\<lparr>ms_op = SO_LEAVE, ms_userAddress = replicate 20 0, ms_initiatorAddress = [],
      ms_streamParentId = None, ms_reason = MR_NONE, ms_appAddress = None\<rparr>"
  have e: "event_payload ?e = Some (PlMember (Some (McMembership ?mb)))"
    by (simp add: demo_membership_def)
  have u: "userIdFromAddress demo_externs (ms_userAddress ?mb) = Some user0" by simp
  have j: "members_info demo_members user0 = SO_JOIN" "members_info demo_members user1 = SO_JOIN"
    by (simp_all add: members_info_def demo_joinedUsers)
  from membership_lifecycle[OF e refl refl u demo_members_inv refl refl, of None True True] j
  show ?thesis by simp
qed

subsection \<open>Key solicitations are answered\<close>

lemma appendEvent_solicitation:
  assumes "event_payload e = Some (PlMember (Some (McKeySolicitation ks)))"
    "map_get (m_joined m) (se_creatorUserId e) = Some s"
  shows "\<exists>s1. m_joined (st_of (members_appendEvent E ct ee se e m)) =
      map_set (se_creatorUserId e) s1 (m_joined m) \<and>
    m_solicitHelper (st_of (members_appendEvent E ct ee se e m)) = m_solicitHelper m \<and>
    mem_solicitations s1 = filter (\<lambda>x. ks_deviceKey x \<noteq> ks_deviceKey ks) (mem_solicitations s) @
      [\<lparr>ks_deviceKey = ks_deviceKey ks, ks_fallbackKey = ks_fallbackKey ks,
        ks_isNewDevice = ks_isNewDevice ks, ks_sessionIds = sort (ks_sessionIds ks)\<rparr>]"
proof -
  obtain p where "se_remoteEvent e = Some p" "ev_payload (pe_event p) =
      Some (PlMember (Some (McKeySolicitation ks)))"
    using assms(1) by (auto simp: event_payload_def split: option.splits)
  then show ?thesis
    by (simp add: members_appendEvent_def on_member_def assms(2) applySolicitation_def Let_def)
      (rule exI, rule conjI, rule refl, simp)
qed

lemma appendEvent_fulfillment:
  assumes "event_payload e = Some (PlMember (Some (McKeyFulfillment kf)))"
    "userIdFromAddress E (kf_userAddress kf) = Some u" "map_get (m_joined m) u = Some s"
    "so_snapshotSigBundle (m_solicitHelper m) = Some sig"
    "so_snapshotEventId (m_solicitHelper m) = Some sid"
    "find_index (\<lambda>x. ks_deviceKey x = kf_deviceKey kf) (mem_solicitations s) = Some i"
  shows "\<exists>s1. map_get (m_joined (st_of (members_appendEvent E ct ee se e m))) u = Some s1 \<and>
    exn_of (members_appendEvent E ct ee se e m) = None \<and>
    mem_solicitations s1 = (mem_solicitations s)[i :=
      \<lparr>ks_deviceKey = ks_deviceKey (mem_solicitations s ! i),
       ks_fallbackKey = ks_fallbackKey (mem_solicitations s ! i), ks_isNewDevice = False,
       ks_sessionIds = removeCommon (ks_sessionIds (mem_solicitations s ! i)) (sort (kf_sessionIds kf))\<rparr>]"
proof -
  obtain p where "se_remoteEvent e = Some p" "ev_payload (pe_event p) =
      Some (PlMember (Some (McKeyFulfillment kf)))"
    using assms(1) by (auto simp: event_payload_def split: option.splits)
  then show ?thesis
    by (simp add: members_appendEvent_def on_member_def assms(2-) applyFulfillment_def Let_def)
qed

lemma find_index_append_last:
  "\<forall>x \<in> set xs. \<not> P x \<Longrightarrow> P y \<Longrightarrow> find_index P (xs @ [y]) = Some (length xs)"
  by (induction xs) auto

text \<open>A key fulfillment answers exactly the session ids it carries: when a member solicits keys
  for a device and a fulfillment for that device follows, the member has one solicitation for the
  device, no longer marked as a new device, whose session ids are the requested ones less the
  fulfilled ones, counted with multiplicity and in sorted order; solicitations of the member's other
  devices are unchanged.
\<close>

theorem key_solicitation_fulfilled:
  assumes e1: "event_payload e1 = Some (PlMember (Some (McKeySolicitation ks)))"
    and u: "se_creatorUserId e1 = u" "map_get (m_joined m) u = Some s"
    and e2: "event_payload e2 = Some (PlMember (Some (McKeyFulfillment kf)))"
    and kf: "userIdFromAddress E (kf_userAddress kf) = Some u" "kf_deviceKey kf = ks_deviceKey ks"
    and init: "so_snapshotSigBundle (m_solicitHelper m) = Some sig"
      "so_snapshotEventId (m_solicitHelper m) = Some sid"
    and m2: "m2 = st_of (members_appendEvent E ct ee se e2
      (st_of (members_appendEvent E ct ee se e1 m)))"
  shows "\<exists>s2 x. map_get (m_joined m2) u = Some s2 \<and>
    filter (\<lambda>y. ks_deviceKey y = ks_deviceKey ks) (mem_solicitations s2) = [x] \<and>
    mset (ks_sessionIds x) = mset (ks_sessionIds ks) - mset (kf_sessionIds kf) \<and>
    sorted (ks_sessionIds x) \<and> \<not> ks_isNewDevice x \<and> ks_fallbackKey x = ks_fallbackKey ks \<and>
    filter (\<lambda>y. ks_deviceKey y \<noteq> ks_deviceKey ks) (mem_solicitations s2) =
      filter (\<lambda>y. ks_deviceKey y \<noteq> ks_deviceKey ks) (mem_solicitations s)"
proof -
  let ?m1 = "st_of (members_appendEvent E ct ee se e1 m)"
  let ?old = "filter (\<lambda>x. ks_deviceKey x \<noteq> ks_deviceKey ks) (mem_solicitations s)"
  let ?new = "\<lparr>ks_deviceKey = ks_deviceKey ks, ks_fallbackKey = ks_fallbackKey ks,
        ks_isNewDevice = ks_isNewDevice ks, ks_sessionIds = sort (ks_sessionIds ks)\<rparr>"
  let ?x = "?new\<lparr>ks_isNewDevice := False,
      ks_sessionIds := removeCommon (sort (ks_sessionIds ks)) (sort (kf_sessionIds kf))\<rparr>"
  obtain s1 where s1: "m_joined ?m1 = map_set u s1 (m_joined m)" "m_solicitHelper ?m1 = m_solicitHelper m"
    "mem_solicitations s1 = ?old @ [?new]"
    using appendEvent_solicitation[OF e1, of m s E ct ee se] u by auto
  have i: "find_index (\<lambda>x. ks_deviceKey x = kf_deviceKey kf) (mem_solicitations s1) = Some (length ?old)"
    unfolding s1 by (rule find_index_append_last) (simp_all add: kf)
  have "map_get (m_joined ?m1) u = Some s1" by (simp add: s1)
  from appendEvent_fulfillment[OF e2 kf(1) this _ _ i, of sig sid ct ee se] init
  obtain s2 where s2: "map_get (m_joined m2) u = Some s2"
    "mem_solicitations s2 = (?old @ [?new])[length ?old := ?x]"
    unfolding m2 s1 by (auto simp: nth_append)
  have "mem_solicitations s2 = ?old @ [?x]" unfolding s2 by simp
  then show ?thesis
    using s2(1) by (simp add: removeCommon_mset sorted_removeCommon)
qed

theorem key_solicitation_fulfilled_witness:
  "\<exists>m2 s2 x. map_get (m_joined m2) user0 = Some s2 \<and> mem_solicitations (s2 :: StreamMember) = [x] \<and>
    ks_sessionIds x = [''b''] \<and>
    m2 = st_of (members_appendEvent demo_externs None True True
      (demo_remote ''h2'' user1 (PlMember (Some (McKeyFulfillment
        \<lparr>kf_userAddress = replicate 20 0, kf_deviceKey = ''d'', kf_sessionIds = [''c'', ''a'']\<rparr>))))
      (st_of (members_appendEvent demo_externs None True True
        (demo_remote ''h1'' user0 (PlMember (Some (McKeySolicitation
          \<lparr>ks_deviceKey = ''d'', ks_fallbackKey = ''f'', ks_isNewDevice = True,
           ks_sessionIds = [''b'', ''a'']\<rparr>)))) demo_members)))"
proof -
  let ?ks = "\<lparr>ks_deviceKey = ''d'', ks_fallbackKey = ''f'', ks_isNewDevice = True,
           ks_sessionIds = [''b'', ''a'']\<rparr>"
  let ?kf = "\<lparr>kf_userAddress = replicate 20 0, kf_deviceKey = ''d'', kf_sessionIds = [''c'', ''a'']\<rparr>"
  let ?e1 = "demo_remote ''h1'' user0 (PlMember (Some (McKeySolicitation ?ks)))"
  let ?e2 = "demo_remote ''h2'' user1 (PlMember (Some (McKeyFulfillment ?kf)))"
  let ?m2 = "st_of (members_appendEvent demo_externs None True True ?e2
      (st_of (members_appendEvent demo_externs None True True ?e1 demo_members)))"
  obtain sig where sig: "so_snapshotSigBundle (m_solicitHelper demo_members) = Some sig"
    using demo_solicitHelper(1) by blast
  have e: "event_payload ?e1 = Some (PlMember (Some (McKeySolicitation ?ks)))"
    "event_payload ?e2 = Some (PlMember (Some (McKeyFulfillment ?kf)))"
    "se_creatorUserId ?e1 = user0" "kf_deviceKey ?kf = ks_deviceKey ?ks"
    "map_get (m_joined demo_members) user0 = Some (snapshot_member user0 (demo_member 0))"
    "userIdFromAddress demo_externs (kf_userAddress ?kf) = Some user0"
    by (simp_all add: demo_members_core)
  from key_solicitation_fulfilled[OF e(1,3,5,2,6,4) sig demo_solicitHelper(2) refl, of None True True]
  obtain s2 x where s2: "map_get (m_joined ?m2) user0 = Some s2"
    "filter (\<lambda>y. ks_deviceKey y = ''d'') (mem_solicitations s2) = [x]"
    "mset (ks_sessionIds x) = {#''b''#}"
    "filter (\<lambda>y. ks_deviceKey y \<noteq> ''d'') (mem_solicitations s2) = []"
    by auto
  have "mem_solicitations s2 = filter (\<lambda>y. ks_deviceKey y = ''d'') (mem_solicitations s2)"
    using s2(4) by (simp add: filter_empty_conv filter_id_conv)
  then have "mem_solicitations s2 = [x]" "ks_sessionIds x = [''b'']"
    using s2 by (simp_all add: mset_single_iff)
  with s2(1) show ?thesis by blast
qed

subsection \<open>Reviews\<close>

definition review_user :: "MemberSpaceReview \<Rightarrow> string" where
  "review_user r = rv_user (msr_review r)"

text \<open>The review an event carries, if any.\<close>

definition event_review ::
  "'a protocol_externs_scheme \<Rightarrow> StreamTimelineEvent \<Rightarrow> MemberSpaceReview option" where
  "event_review E e =
     (case event_payload e of
        Some (PlMember (Some (McMemberBlockchainTransaction v))) \<Rightarrow>
          (case (case mbt_transaction v of None \<Rightarrow> None | Some t \<Rightarrow> bt_content t) of
             Some (TcSpaceReview sr) \<Rightarrow> map_option (\<lambda>r. member_review r e) (review_of E v sr)
           | _ \<Rightarrow> None)
      | _ \<Rightarrow> None)"

abbreviation review_map :: "MemberSpaceReview list \<Rightarrow> string \<Rightarrow> MemberSpaceReview option" where
  "review_map rs \<equiv> map_of (map (\<lambda>r. (review_user r, r)) rs)"

definition reviews_ok :: "MemberSpaceReview list \<Rightarrow> bool" where
  "reviews_ok rs \<longleftrightarrow> distinct (map review_user rs)"

lemma append_review_event:
  assumes "event_review E e = Some r"
  shows "m_spaceReviews (st_of (members_appendEvent E ct ee se e m)) =
    (case find_index (\<lambda>x. review_user x = review_user r) (m_spaceReviews m) of
       None \<Rightarrow> m_spaceReviews m @ [r] | Some i \<Rightarrow> (m_spaceReviews m)[i := r])"
  using assms
  by (auto simp: event_review_def members_appendEvent_def append_transaction_def append_review_def
      event_payload_def review_user_def member_review_def
      split: option.splits payload.splits member_content.splits TransactionContent.splits)

lemma prepend_review_event:
  assumes "event_review E e = Some r"
  shows "m_spaceReviews (st_of (members_prependEvent E se e m)) =
    (if \<exists>x \<in> set (m_spaceReviews m). review_user x = review_user r then m_spaceReviews m
     else r # m_spaceReviews m)"
  using assms
  by (auto simp: event_review_def members_prependEvent_def prepend_review_def find_None_iff
      review_user_def member_review_def
      split: option.splits payload.splits member_content.splits TransactionContent.splits)

lemma review_map_append:
  assumes "reviews_ok rs"
    and "rs' = (case find_index (\<lambda>x. review_user x = review_user r) rs of
       None \<Rightarrow> rs @ [r] | Some i \<Rightarrow> rs[i := r])"
  shows "reviews_ok rs' \<and> review_map rs' = (review_map rs)(review_user r \<mapsto> r)"
proof (cases "find_index (\<lambda>x. review_user x = review_user r) rs")
  case None
  then have n: "\<forall>x \<in> set rs. review_user x \<noteq> review_user r" by (simp add: find_index_None_iff)
  then have "review_map rs (review_user r) = None" by (auto simp: map_of_eq_None_iff)
  then have "review_map (rs @ [r]) = (review_map rs)(review_user r \<mapsto> r)"
    by (auto simp: fun_eq_iff map_add_def split: option.split)
  then show ?thesis using assms None n by (auto simp: reviews_ok_def)
next
  case (Some i)
  then have i: "i < length rs" "review_user (rs ! i) = review_user r" using find_index_SomeD by blast+
  have split: "rs = take i rs @ rs ! i # drop (Suc i) rs" by (rule id_take_nth_drop[OF i(1)])
  have upd: "rs[i := r] = take i rs @ r # drop (Suc i) rs" by (rule upd_conv_take_nth_drop[OF i(1)])
  have "distinct (map review_user (take i rs @ rs ! i # drop (Suc i) rs))"
    using assms(1) split by (simp add: reviews_ok_def)
  then have "review_user r \<notin> review_user ` set (take i rs)" using i(2) by auto
  then have "review_map (take i rs) (review_user r) = None" by (auto simp: map_of_eq_None_iff)
  then have "review_map (rs[i := r]) = (review_map rs)(review_user r \<mapsto> r)"
    unfolding upd by (subst (2) split) (auto simp: fun_eq_iff map_add_def i(2) split: option.split)
  moreover have "reviews_ok (rs[i := r])"
    using assms(1) i by (simp add: reviews_ok_def distinct_map_list_update)
  ultimately show ?thesis using Some assms(2) by simp
qed

lemma review_map_None_iff:
  "review_map rs u = None \<longleftrightarrow> (\<forall>x \<in> set rs. review_user x \<noteq> u)"
  by (induction rs) auto

lemma review_map_prepend:
  assumes "reviews_ok rs"
    and "rs' = (if \<exists>x \<in> set rs. review_user x = review_user r then rs else r # rs)"
  shows "reviews_ok rs' \<and> review_map rs' = [review_user r \<mapsto> r] ++ review_map rs"
proof (cases "\<exists>x \<in> set rs. review_user x = review_user r")
  case True
  then have "review_map rs (review_user r) \<noteq> None" unfolding review_map_None_iff by blast
  then show ?thesis using assms True by (auto simp: fun_eq_iff map_add_def split: option.split)
next
  case False
  then have "review_map rs (review_user r) = None" unfolding review_map_None_iff by blast
  then show ?thesis
    using assms False by (auto simp: reviews_ok_def fun_eq_iff map_add_def split: option.split)
qed

lemma append_reviews:
  assumes "map (event_review E) es = map Some rs" "reviews_ok (m_spaceReviews m)"
    and "m' = fold (\<lambda>e m. st_of (members_appendEvent E ct ee se e m)) es m"
  shows "reviews_ok (m_spaceReviews m') \<and>
    review_map (m_spaceReviews m') = review_map (m_spaceReviews m) ++ review_map (rev rs)"
  using assms
proof (induction es arbitrary: rs m)
  case Nil
  then show ?case by simp
next
  case (Cons e es)
  then obtain r rs2 where rs: "rs = r # rs2" "event_review E e = Some r"
    "map (event_review E) es = map Some rs2" by (cases rs) auto
  let ?m = "st_of (members_appendEvent E ct ee se e m)"
  note a = review_map_append[OF Cons.prems(2) append_review_event[OF rs(2), of ct ee se m]]
  have "reviews_ok (m_spaceReviews m') \<and>
      review_map (m_spaceReviews m') = review_map (m_spaceReviews ?m) ++ review_map (rev rs2)"
    by (rule Cons.IH[OF rs(3)]) (use a Cons.prems(3) in simp_all)
  then show ?case using a by (simp add: rs(1))
qed

lemma prepend_reviews:
  assumes "map (event_review E) es = map Some rs" "reviews_ok (m_spaceReviews m)"
    and "m' = fold (\<lambda>e m. st_of (members_prependEvent E se e m)) es m"
  shows "reviews_ok (m_spaceReviews m') \<and>
    review_map (m_spaceReviews m') = review_map (m_spaceReviews m @ rs)"
  using assms
proof (induction es arbitrary: rs m)
  case Nil
  then show ?case by simp
next
  case (Cons e es)
  then obtain r rs2 where rs: "rs = r # rs2" "event_review E e = Some r"
    "map (event_review E) es = map Some rs2" by (cases rs) auto
  let ?m = "st_of (members_prependEvent E se e m)"
  note a = review_map_prepend[OF Cons.prems(2) prepend_review_event[OF rs(2), of se m]]
  have "reviews_ok (m_spaceReviews m') \<and>
      review_map (m_spaceReviews m') = review_map (m_spaceReviews ?m @ rs2)"
    by (rule Cons.IH[OF rs(3)]) (use a Cons.prems(3) in simp_all)
  then show ?case using a by (simp add: rs(1) map_add_assoc)
qed

text \<open>A space shows the newest review of each user: starting from no reviews, after review events
  are appended in order and older ones are then prepended, newest first, the list holds at most one
  review per user, and it is the newest one among all these events, that is, the first one by that
  user in the order from newest to oldest.
\<close>

theorem newest_review_wins:
  assumes "map (event_review E) appended = map Some new"
    and "map (event_review E) prepended = map Some old"
    and "m_spaceReviews m = []"
    and "m' = fold (\<lambda>e m. st_of (members_prependEvent E se e m)) prepended
      (fold (\<lambda>e m. st_of (members_appendEvent E ct ee se e m)) appended m)"
  shows "distinct (map review_user (m_spaceReviews m')) \<and>
    review_map (m_spaceReviews m') = review_map (rev new @ old)"
proof -
  have "reviews_ok (m_spaceReviews m)" by (simp add: assms(3) reviews_ok_def)
  note a = append_reviews[OF assms(1) this refl, of ct ee se]
  note p = prepend_reviews[OF assms(2) conjunct1[OF a] assms(4)]
  show ?thesis using p a by (simp add: reviews_ok_def assms(3))
qed

definition review_externs :: sign_externs where
  "review_externs = demo_externs\<lparr>x_parseReviewLog := \<lambda>_. Some
     \<lparr>pl_name = ''ReviewAdded'', pl_user = ''0x07'', pl_comment = ''ok'', pl_rating = 5\<rparr>\<rparr>"

definition demo_review :: "string \<Rightarrow> StreamTimelineEvent" where
  "demo_review hash = demo_remote hash user0 (PlMember (Some (McMemberBlockchainTransaction
     \<lparr>mbt_transaction = Some \<lparr>bt_receipt = Some
        \<lparr>rc_chainId = 1, rc_transactionHash = [], rc_blockNumber = 0, rc_to = [], rc_from = [],
         rc_logs = [\<lparr>lg_address = [], lg_topics = [], lg_data = []\<rparr>]\<rparr>,
        bt_solanaReceipt = None,
        bt_content = Some (TcSpaceReview \<lparr>sv_spaceAddress = [], sv_action = ReviewAdd,
          sv_event = Some ([7], 5)\<rparr>)\<rparr>,
      mbt_fromUserAddress = []\<rparr>)))"

theorem newest_review_wins_witness:
  "\<exists>m. m = fold (\<lambda>e m. st_of (members_prependEvent review_externs True e m)) [demo_review ''h0'']
      (fold (\<lambda>e m. st_of (members_appendEvent review_externs None True True e m))
        [demo_review ''h1'', demo_review ''h2''] (new_Members ''s'' [])) \<and>
    distinct (map review_user (m_spaceReviews m)) \<and>
    map_option msr_eventHashStr (review_map (m_spaceReviews m) ''0x07'') = Some ''h2''"
proof -
  let ?rv = "\<lparr>rv_action = ActionAdd, rv_user = ''0x07'', rv_comment = Some ''ok'', rv_rating = 5\<rparr>"
  let ?r = "\<lambda>h. member_review ?rv (demo_review h)"
  have hex: "plain_bytesToHex [7] = ''07''" by code_simp
  have low: "toLowerCase ''0x07'' = ''0x07''" by code_simp
  have rv: "getSpaceReviewEventDataBin review_externs [\<lparr>lg_address = [], lg_topics = [], lg_data = []\<rparr>] [7] = ?rv"
    by (simp add: getSpaceReviewEventDataBin_def review_externs_def bin_toHexString_def hex low Let_def)
  have r: "event_review review_externs (demo_review h) = Some (?r h)" for h
    by (simp add: event_review_def review_of_def rv demo_review_def)
  have u: "review_user (?r h) = ''0x07''" "msr_eventHashStr (?r h) = h" for h
    by (simp_all add: review_user_def member_review_def demo_review_def)
  have es: "map (event_review review_externs) [demo_review ''h1'', demo_review ''h2''] =
        map Some [?r ''h1'', ?r ''h2'']"
      "map (event_review review_externs) [demo_review ''h0''] = map Some [?r ''h0'']"
      "m_spaceReviews (new_Members ''s'' []) = []"
    by (simp_all add: r new_Members_def)
  from newest_review_wins[OF es refl, of True None True] u show ?thesis by simp
qed

subsection \<open>Tips\<close>

text \<open>The currency and the amount of the tip an event carries, if the currency is well formed.\<close>

definition event_tip ::
  "'a protocol_externs_scheme \<Rightarrow> StreamTimelineEvent \<Rightarrow> (string \<times> int) option" where
  "event_tip E e =
     (case event_payload e of
        Some (PlMember (Some (McMemberBlockchainTransaction v))) \<Rightarrow>
          (case (case mbt_transaction v of None \<Rightarrow> None | Some t \<Rightarrow> bt_content t) of
             Some (TcTip tip) \<Rightarrow>
               (case tip_event tip of
                  None \<Rightarrow> None
                | Some te \<Rightarrow> map_option (\<lambda>c. (c, te_amount te))
                    (x_getAddress E (bin_toHexString E (te_currency te))))
           | _ \<Rightarrow> None)
      | _ \<Rightarrow> None)"

lemma update_member_tips [simp]:
  "m_tips (update_member u f m) = m_tips m" "m_tipsCount (update_member u f m) = m_tipsCount m"
  by (simp_all add: update_member_def split: option.split)

lemma append_tip_event:
  assumes "event_tip E e = Some (c, a)"
  shows "m_tips (st_of (members_appendEvent E ct ee se e m)) = tally_add c a (m_tips m)"
    "m_tipsCount (st_of (members_appendEvent E ct ee se e m)) = tally_add c 1 (m_tipsCount m)"
  using assms
  by (auto simp: event_tip_def members_appendEvent_def append_transaction_def tip_transaction_def
      event_payload_def Let_def
      split: option.splits payload.splits member_content.splits TransactionContent.splits)

text \<open>
  C32. Tips are counted exactly once: after any tip events are appended, the total of a currency has
  grown by the sum of the amounts tipped in it and its count by the number of these tips. This holds
  also for the events whose handler ends with an exception because the address of the sender or of
  the receiver is malformed, and whatever the members are.
\<close>

theorem tips_counted_once:
  assumes "map (event_tip E) es = map Some ts"
    and "m' = fold (\<lambda>e m. st_of (members_appendEvent E ct ee se e m)) es m"
  shows "map_get_or (m_tips m') c 0 =
      map_get_or (m_tips m) c 0 + sum_list (map snd (filter (\<lambda>t. fst t = c) ts)) \<and>
    map_get_or (m_tipsCount m') c 0 =
      map_get_or (m_tipsCount m) c 0 + int (length (filter (\<lambda>t. fst t = c) ts))"
  using assms
proof (induction es arbitrary: ts m)
  case Nil
  then show ?case by simp
next
  case (Cons e es)
  then obtain c1 a ts2 where ts: "ts = (c1, a) # ts2" "event_tip E e = Some (c1, a)"
    "map (event_tip E) es = map Some ts2" by (cases ts) auto
  from Cons.IH[OF ts(3), of "st_of (members_appendEvent E ct ee se e m)"] Cons.prems(2)
  show ?case by (simp add: ts(1) append_tip_event[OF ts(2)])
qed

definition demo_tip :: "string \<Rightarrow> int \<Rightarrow> bytes \<Rightarrow> StreamTimelineEvent" where
  "demo_tip hash amount sender = demo_remote hash user0 (PlMember (Some (McMemberBlockchainTransaction
     \<lparr>mbt_transaction = Some \<lparr>bt_receipt = None, bt_solanaReceipt = None,
        bt_content = Some (TcTip \<lparr>tip_event = Some \<lparr>te_tokenId = 0, te_currency = replicate 20 1,
            te_sender = [], te_receiver = [], te_amount = amount, te_messageId = [], te_channelId = []\<rparr>,
          tip_toUserAddress = replicate 20 1\<rparr>)\<rparr>,
      mbt_fromUserAddress = sender\<rparr>)))"

theorem tips_counted_once_witness:
  "\<exists>m. m = fold (\<lambda>e m. st_of (members_appendEvent demo_externs None True True e m))
        [demo_tip ''h1'' 3 (replicate 20 0), demo_tip ''h2'' 4 []] demo_members \<and>
     map_get_or (m_tips m) user1 0 = map_get_or (m_tips demo_members) user1 0 + 7 \<and>
     map_get_or (m_tipsCount m) user1 0 = map_get_or (m_tipsCount demo_members) user1 0 + 2"
proof -
  have "event_tip demo_externs (demo_tip h a s) = Some (user1, a)" for h a s
    using demo_ids(2) by (simp add: event_tip_def demo_tip_def userIdFromAddress_def)
  then have "map (event_tip demo_externs) [demo_tip ''h1'' 3 (replicate 20 0), demo_tip ''h2'' 4 []] =
      map Some [(user1, 3), (user1, 4)]" by simp
  from tips_counted_once[OF this refl, of None True True demo_members user1] show ?thesis by simp
qed

end
