(* ===== verification/ChannelContents.thy ===== *)
theory ChannelContents
  imports Members
begin

section \<open>Contents of spaces, channels, DMs and GDMs\<close>

text \<open>
  \<open>packages/sdk/src/streamStateView_Space.ts\<close>, \<open>streamStateView_Channel.ts\<close>,
  \<open>streamStateView_ChannelMetadata.ts\<close>, \<open>streamStateView_DMChannel.ts\<close> and
  \<open>streamStateView_GDMChannel.ts\<close>. Each class is a record; the observable view it writes to is one of
  its fields. An operation that is handed a timeline event may store decrypted content in it, so it
  returns the event together with the object.

  The decryption of a space image is asynchronous. \<open>getSpaceImage\<close> is its synchronous part, up to the
  first suspension, and \<open>decryptSpaceImage\<close> the continuation that runs when the promise of the
  decryption settles; \<open>image_step\<close> interleaves them with arriving events.
\<close>

record UserBio =
  bio_text :: string
  bio_updatedAtEpochMs :: "int option"

record content_externs = sign_externs +
  x_decryptDerivedAESGCM :: "string \<Rightarrow> EncryptedData \<Rightarrow> bytes option"
  x_chunkedMedia_fromBinary :: "bytes \<Rightarrow> ChunkedMedia option"
  x_userBio_fromBinary :: "bytes \<Rightarrow> UserBio option"

definition on_event ::
  "(StreamTimelineEvent \<Rightarrow> (StreamTimelineEvent, out) res) \<Rightarrow> StreamTimelineEvent \<Rightarrow> 'c \<Rightarrow>
   ('c \<times> StreamTimelineEvent, out) res" where
  "on_event f event c = map_res (\<lambda>e. (c, e)) (f event)"

definition with_event :: "('c, out) res \<Rightarrow> StreamTimelineEvent \<Rightarrow> ('c \<times> StreamTimelineEvent, out) res"
  where
  "with_event r event = map_res (\<lambda>c. (c, event)) r"

lemma on_event_st [simp]: "fst (st_of (on_event f event c)) = c"
  "snd (st_of (on_event f event c)) = st_of (f event)"
  by (simp_all add: on_event_def)

lemma with_event_sels [simp]: "st_of (with_event r event) = (st_of r, event)"
  "exn_of (with_event r event) = exn_of r" "outs_of (with_event r event) = outs_of r"
  by (simp_all add: with_event_def)

subsection \<open>Space\<close>

text \<open>An encrypted image is compared by reference: it carries the number of the message object it
  came in.\<close>

type_synonym data_ref = "nat \<times> EncryptedData"

record SpaceContent =
  spc_streamId :: string
  spc_spacesView :: SpaceStreamsView
  spc_spaceImage :: "ChunkedMedia option"
  spc_encryptedSpaceImage :: "(string \<times> data_ref) option"
  spc_decryptionInProgress :: "data_ref option"
  spc_objects :: nat

definition new_SpaceContent :: "string \<Rightarrow> SpaceStreamsView \<Rightarrow> SpaceContent" where
  "new_SpaceContent streamId view = \<lparr>spc_streamId = streamId, spc_spacesView = view,
     spc_spaceImage = None, spc_encryptedSpaceImage = None, spc_decryptionInProgress = None,
     spc_objects = 0\<rparr>"

definition spaceChannelsMetadata :: "SpaceContent \<Rightarrow> (string, ParsedChannelProperties) jsmap" where
  "spaceChannelsMetadata s = ssm_channelsMetadata (space_get (spc_spacesView s) (spc_streamId s))"

definition set_image :: "string \<Rightarrow> EncryptedData \<Rightarrow> SpaceContent \<Rightarrow> SpaceContent" where
  "set_image eventId data s = s\<lparr>spc_encryptedSpaceImage := Some (eventId, (spc_objects s, data)),
     spc_objects := Suc (spc_objects s)\<rparr>"

definition addSpacePayload_UpdateChannelAutojoin ::
  "'a externs_scheme \<Rightarrow> UpdateChannelAutojoin \<Rightarrow> bool \<Rightarrow> SpaceContent \<Rightarrow> (SpaceContent, out) res" where
  "addSpacePayload_UpdateChannelAutojoin E pl stateEmitter s =
     (let channelId = streamIdAsString E (Bytes (ua_channelId pl))
      in ok (s\<lparr>spc_spacesView := updateChannelMetadata (spc_streamId s) channelId
               (\<lambda>p. p\<lparr>pcp_isAutojoin := ua_autojoin pl\<rparr>) (spc_spacesView s)\<rparr>)
            (emit stateEmitter
               (spaceChannelAutojoinUpdated (spc_streamId s) channelId (ua_autojoin pl))))"

definition addSpacePayload_UpdateChannelHideUserJoinLeaveEvents ::
  "'a externs_scheme \<Rightarrow> UpdateChannelHideUserJoinLeaveEvents \<Rightarrow> bool \<Rightarrow> SpaceContent \<Rightarrow>
   (SpaceContent, out) res" where
  "addSpacePayload_UpdateChannelHideUserJoinLeaveEvents E pl stateEmitter s =
     (let channelId = streamIdAsString E (Bytes (uh_channelId pl))
      in ok (s\<lparr>spc_spacesView := updateChannelMetadata (spc_streamId s) channelId
               (\<lambda>p. p\<lparr>pcp_hideUserJoinLeaveEvents := uh_hideUserJoinLeaveEvents pl\<rparr>) (spc_spacesView s)\<rparr>)
            (emit stateEmitter (spaceChannelHideUserJoinLeaveEventsUpdated (spc_streamId s) channelId
               (uh_hideUserJoinLeaveEvents pl))))"

text \<open>The two payloads that describe a channel have the same \<open>op\<close>, \<open>channelId\<close> and \<open>settings\<close>.\<close>

definition addSpacePayload_Channel ::
  "'a externs_scheme \<Rightarrow> ChannelOp \<Rightarrow> bytes \<Rightarrow> ChannelSettings option \<Rightarrow> int \<Rightarrow> bool \<Rightarrow> SpaceContent \<Rightarrow>
   (SpaceContent, out) res" where
  "addSpacePayload_Channel E op channelIdBytes settings updatedAtEventNum stateEmitter s =
     (let channelId = streamIdAsString E (Bytes channelIdBytes);
          isDefault = isDefaultChannelId channelId;
          update = (\<lambda>isAutojoin hide. s\<lparr>spc_spacesView := updateChannelMetadata (spc_streamId s) channelId
            (\<lambda>p. p\<lparr>pcp_isDefault := isDefault, pcp_updatedAtEventNum := updatedAtEventNum,
                   pcp_isAutojoin := isAutojoin, pcp_hideUserJoinLeaveEvents := hide\<rparr>)
            (spc_spacesView s)\<rparr>)
      in case op of
           CO_CREATED \<Rightarrow>
             ok (update (case settings of Some x \<Rightarrow> cs_autojoin x | None \<Rightarrow> isDefault)
                   (case settings of Some x \<Rightarrow> cs_hideUserJoinLeaveEvents x | None \<Rightarrow> False))
                (emit stateEmitter (spaceChannelCreated (spc_streamId s) channelId))
         | CO_DELETED \<Rightarrow>
             (case space_delete (spc_streamId s) channelId (spc_spacesView s) of
                (view, deleted) \<Rightarrow>
                  ok (s\<lparr>spc_spacesView := view\<rparr>)
                     (if deleted then emit stateEmitter (spaceChannelDeleted (spc_streamId s) channelId)
                      else []))
         | CO_UPDATED \<Rightarrow>
             let channel = map_get (spaceChannelsMetadata s) channelId
             in ok (update
                  (case settings of Some x \<Rightarrow> cs_autojoin x
                   | None \<Rightarrow> (case channel of Some p \<Rightarrow> pcp_isAutojoin p | None \<Rightarrow> isDefault))
                  (case settings of Some x \<Rightarrow> cs_hideUserJoinLeaveEvents x
                   | None \<Rightarrow> (case channel of Some p \<Rightarrow> pcp_hideUserJoinLeaveEvents p | None \<Rightarrow> False)))
                  (emit stateEmitter (spaceChannelUpdated (spc_streamId s) channelId updatedAtEventNum))
         | _ \<Rightarrow> throw (CodeException STREAM_BAD_EVENT) s)"

definition space_applySnapshot ::
  "'a externs_scheme \<Rightarrow> SpaceSnapshot \<Rightarrow> SpaceContent \<Rightarrow> (SpaceContent, out) res" where
  "space_applySnapshot E content s0 =
     and_then (for_each (\<lambda>c. addSpacePayload_Channel E (cm_op c) (cm_channelId c) (cm_settings c)
        (cm_updatedAtEventNum c) False) (sps_channels content) s0) (\<lambda>s.
     case sps_spaceImage content of
       Some spaceImage \<Rightarrow>
         (case si_data spaceImage of
            Some data \<Rightarrow> ok (set_image (x_bytesToHex E (si_eventHash spaceImage)) data s) []
          | None \<Rightarrow> ok s [])
     | None \<Rightarrow> ok s [])"

definition space_prependEvent ::
  "StreamTimelineEvent \<Rightarrow> SpaceContent \<Rightarrow> (SpaceContent \<times> StreamTimelineEvent, out) res" where
  "space_prependEvent event s =
     (case event_payload event of
        Some (PlSpace _) \<Rightarrow> ok (s, event) []
      | _ \<Rightarrow> throw (throwWithCode None) (s, event))"

definition space_appendEvent ::
  "'a externs_scheme \<Rightarrow> bool \<Rightarrow> StreamTimelineEvent \<Rightarrow> SpaceContent \<Rightarrow>
   (SpaceContent \<times> StreamTimelineEvent, out) res" where
  "space_appendEvent E stateEmitter event s =
     (case event_payload event of
        Some (PlSpace content) \<Rightarrow>
          with_event (case content of
             Some (SpChannel c) \<Rightarrow>
               addSpacePayload_Channel E (cu_op c) (cu_channelId c) (cu_settings c)
                 (se_eventNum event) stateEmitter s
           | Some (SpUpdateChannelAutojoin u) \<Rightarrow>
               addSpacePayload_UpdateChannelAutojoin E u stateEmitter s
           | Some (SpUpdateChannelHideUserJoinLeaveEvents u) \<Rightarrow>
               addSpacePayload_UpdateChannelHideUserJoinLeaveEvents E u stateEmitter s
           | Some (SpSpaceImage data) \<Rightarrow>
               ok (set_image (se_hashStr event) data s)
                  (emit stateEmitter (spaceImageUpdated (spc_streamId s)))
           | Some (SpInception _) \<Rightarrow> ok s []
           | None \<Rightarrow> ok s []) event
      | _ \<Rightarrow> throw (throwWithCode None) (s, event))"

text \<open>What \<open>getSpaceImage\<close> returns: the promise of a decryption it has started, one that was rejected
  at once because the stream id is not a space id, the promise of the decryption in progress, or the
  image.\<close>

datatype 'a image_result = ImgStarted data_ref | ImgRejected data_ref | ImgInProgress data_ref | ImgReady "'a option"

definition getSpaceImage ::
  "'a externs_scheme \<Rightarrow> SpaceContent \<Rightarrow> SpaceContent \<times> ChunkedMedia image_result" where
  "getSpaceImage E s =
     (case spc_encryptedSpaceImage s of
        Some (_, d) \<Rightarrow>
          (s\<lparr>spc_encryptedSpaceImage := None, spc_decryptionInProgress := Some d\<rparr>,
           (case contractAddressFromSpaceId E (spc_streamId s) of Inl _ \<Rightarrow> ImgRejected d | Inr _ \<Rightarrow> ImgStarted d))
      | None \<Rightarrow>
          (s, (case spc_decryptionInProgress s of
                 Some d \<Rightarrow> ImgInProgress d
               | None \<Rightarrow> ImgReady (spc_spaceImage s))))"

definition decrypted_image ::
  "'a content_externs_scheme \<Rightarrow> string \<Rightarrow> EncryptedData \<Rightarrow> ChunkedMedia option" where
  "decrypted_image E streamId data =
     (case contractAddressFromSpaceId E streamId of
        Inl _ \<Rightarrow> None
      | Inr spaceAddress \<Rightarrow>
          (case x_decryptDerivedAESGCM E (toLowerCase spaceAddress) data of
             None \<Rightarrow> None
           | Some plaintext \<Rightarrow> x_chunkedMedia_fromBinary E plaintext))"

definition decryptSpaceImage :: "'a content_externs_scheme \<Rightarrow> data_ref \<Rightarrow> SpaceContent \<Rightarrow> SpaceContent" where
  "decryptSpaceImage E d s =
     (let s1 = (case decrypted_image E (spc_streamId s) (snd d) of
                  None \<Rightarrow> s
                | Some decryptedImage \<Rightarrow>
                    if spc_decryptionInProgress s = Some d then s\<lparr>spc_spaceImage := Some decryptedImage\<rparr>
                    else s)
      in if spc_decryptionInProgress s1 = Some d then s1\<lparr>spc_decryptionInProgress := None\<rparr> else s1)"

subsection \<open>Channel\<close>

record ChannelContent =
  cc_streamId :: string
  cc_spaceId :: string
  cc_reachedRenderableContent :: bool

definition new_ChannelContent :: "string \<Rightarrow> ChannelContent" where
  "new_ChannelContent streamId = \<lparr>cc_streamId = streamId, cc_spaceId = [],
     cc_reachedRenderableContent = False\<rparr>"

definition channel_getStreamParentId :: "ChannelContent \<Rightarrow> string option" where
  "channel_getStreamParentId c = Some (cc_spaceId c)"

definition channel_needsScrollback :: "ChannelContent \<Rightarrow> bool" where
  "channel_needsScrollback c \<longleftrightarrow> \<not> cc_reachedRenderableContent c"

definition channel_applySnapshot ::
  "'a externs_scheme \<Rightarrow> ChannelInception option \<Rightarrow> ChannelContent \<Rightarrow> ChannelContent" where
  "channel_applySnapshot E inception c =
     c\<lparr>cc_spaceId := streamIdFromBytes E (case inception of None \<Rightarrow> [] | Some i \<Rightarrow> ci_spaceId i)\<rparr>"

text \<open>\<open>prependEvent\<close> and \<open>appendEvent\<close> of a channel have the same body.\<close>

definition channel_appendEvent ::
  "'a protocol_externs_scheme \<Rightarrow> cleartext option \<Rightarrow> bool \<Rightarrow> StreamTimelineEvent \<Rightarrow> ChannelContent \<Rightarrow>
   (ChannelContent \<times> StreamTimelineEvent, out) res" where
  "channel_appendEvent E ct encryptionEmitter event c =
     (case event_payload event of
        Some (PlChannel content) \<Rightarrow>
          (case content of
             Some (ChMessage d) \<Rightarrow>
               on_event (decryptEvent E (cc_streamId c) KChannelMessage d ct encryptionEmitter) event
                 (if truthy_str (ed_refEventId d) = None
                  then c\<lparr>cc_reachedRenderableContent := True\<rparr> else c)
           | _ \<Rightarrow> ok (c, event) [])
      | _ \<Rightarrow> throw (throwWithCode None) (c, event))"

abbreviation channel_prependEvent where "channel_prependEvent \<equiv> channel_appendEvent"

subsection \<open>DM channel\<close>

record DmContent =
  dc_streamId :: string
  dc_dmStreamsView :: DmStreamsView

definition new_DmContent :: "string \<Rightarrow> DmStreamsView \<Rightarrow> DmContent" where
  "new_DmContent streamId view = \<lparr>dc_streamId = streamId, dc_dmStreamsView = view\<rparr>"

definition dmStreamModel :: "DmContent \<Rightarrow> DmStreamModel" where
  "dmStreamModel c = dm_get (dc_dmStreamsView c) (dc_streamId c)"

definition dm_applySnapshot ::
  "'a externs_scheme \<Rightarrow> DmInception option \<Rightarrow> DmContent \<Rightarrow> (DmContent, out) res" where
  "dm_applySnapshot E inception c =
     (case inception of
        None \<Rightarrow> ok c []
      | Some i \<Rightarrow>
          (case (userIdFromAddress E (di_firstPartyAddress i), userIdFromAddress E (di_secondPartyAddress i)) of
             (Some first, Some second) \<Rightarrow>
               ok (c\<lparr>dc_dmStreamsView :=
                     setParticipants (dc_streamId c) first second (dc_dmStreamsView c)\<rparr>) []
           | _ \<Rightarrow> throw LibError c))"

definition dm_updateLastEvent :: "int \<Rightarrow> bool \<Rightarrow> DmContent \<Rightarrow> (DmContent, out) res" where
  "dm_updateLastEvent createdAtEpochMs stateEmitter c =
     (if createdAtEpochMs > dm_lastEventCreatedAtEpochMs (dmStreamModel c)
      then ok (c\<lparr>dc_dmStreamsView := dm_setLastEventCreatedAtEpochMs (dc_streamId c) createdAtEpochMs
                 (dc_dmStreamsView c)\<rparr>)
              (emit stateEmitter (streamLatestTimestampUpdated (dc_streamId c)))
      else ok c [])"

text \<open>\<open>prependEvent\<close> is \<open>appendEvent\<close> without a state emitter.\<close>

definition dm_appendEvent ::
  "'a protocol_externs_scheme \<Rightarrow> cleartext option \<Rightarrow> bool \<Rightarrow> bool \<Rightarrow> StreamTimelineEvent \<Rightarrow> DmContent \<Rightarrow>
   (DmContent \<times> StreamTimelineEvent, out) res" where
  "dm_appendEvent E ct encryptionEmitter stateEmitter event c =
     (case se_remoteEvent event of
        None \<Rightarrow> throw JsError (c, event)
      | Some remoteEvent \<Rightarrow>
          (case ev_payload (pe_event remoteEvent) of
             Some (PlDmChannel content) \<Rightarrow>
               (case content of
                  Some (DmIncept _) \<Rightarrow>
                    with_event (dm_updateLastEvent (ev_createdAtEpochMs (pe_event remoteEvent))
                      stateEmitter c) event
                | Some (DmMessage d) \<Rightarrow>
                    and_then (on_event
                        (decryptEvent E (dc_streamId c) KChannelMessage d ct encryptionEmitter) event c)
                      (\<lambda>(c, event). with_event
                        (dm_updateLastEvent (ev_createdAtEpochMs (pe_event remoteEvent)) stateEmitter c)
                        event)
                | None \<Rightarrow> ok (c, event) [])
           | _ \<Rightarrow> throw (throwWithCode None) (c, event)))"

definition dm_prependEvent ::
  "'a protocol_externs_scheme \<Rightarrow> cleartext option \<Rightarrow> bool \<Rightarrow> StreamTimelineEvent \<Rightarrow> DmContent \<Rightarrow>
   (DmContent \<times> StreamTimelineEvent, out) res" where
  "dm_prependEvent E ct encryptionEmitter event c = dm_appendEvent E ct encryptionEmitter False event c"

definition dm_onAppendLocalEvent ::
  "bool \<Rightarrow> StreamTimelineEvent \<Rightarrow> DmContent \<Rightarrow> (DmContent, out) res" where
  "dm_onAppendLocalEvent stateEmitter event c =
     ok (c\<lparr>dc_dmStreamsView := dm_setLastEventCreatedAtEpochMs (dc_streamId c)
            (se_createdAtEpochMs event) (dc_dmStreamsView c)\<rparr>)
        (emit stateEmitter (streamLatestTimestampUpdated (dc_streamId c)))"

definition dm_participants :: "DmContent \<Rightarrow> string jsset" where
  "dm_participants c =
     (case (truthy_str (dm_firstPartyId (dmStreamModel c)),
            truthy_str (dm_secondPartyId (dmStreamModel c))) of
        (Some a, Some b) \<Rightarrow> set_union [a] [b]
      | _ \<Rightarrow> [])"

subsection \<open>Channel metadata and GDM channel\<close>

text \<open>The helper \<open>ChannelMetadata\<close> has no state of its own: it writes to the view of the GDM.\<close>

record GdmContent =
  gc_streamId :: string
  gc_gdmStreamsView :: GdmStreamsView

definition new_GdmContent :: "string \<Rightarrow> GdmStreamsView \<Rightarrow> GdmContent" where
  "new_GdmContent streamId view = \<lparr>gc_streamId = streamId, gc_gdmStreamsView = view\<rparr>"

definition gdmStreamModel :: "GdmContent \<Rightarrow> GdmStreamModel" where
  "gdmStreamModel c = gdm_get (gc_gdmStreamsView c) (gc_streamId c)"

definition handleDecryptedContent ::
  "string \<Rightarrow> DecryptedContent \<Rightarrow> bool \<Rightarrow> GdmContent \<Rightarrow> (GdmContent, out) res" where
  "handleDecryptedContent eventId content emitter c =
     (case content of
        DcChannelProperties p \<Rightarrow>
          if truthy_str (gdm_metadataEventId (gdmStreamModel c)) = None \<or>
             gdm_metadata (gdmStreamModel c) = None \<or>
             gdm_latestMetadataEventId (gdmStreamModel c) = Some eventId
          then ok (c\<lparr>gc_gdmStreamsView := setMetadata (gc_streamId c) p eventId (gc_gdmStreamsView c)\<rparr>)
                  (emit emitter (streamChannelPropertiesUpdated (gc_streamId c)))
          else ok c []
      | _ \<Rightarrow> throw (throwWithCode None) c)"

definition decryptPayload ::
  "'a protocol_externs_scheme \<Rightarrow> EncryptedData \<Rightarrow> string \<Rightarrow> cleartext option \<Rightarrow> bool \<Rightarrow> GdmContent \<Rightarrow>
   (GdmContent, out) res" where
  "decryptPayload E pl eventId ct encryptionEmitter c =
     (case truthy_cleartext ct of
        Some t \<Rightarrow>
          (case toDecryptedContent E KChannelProperties (ed_version pl) t of
             Inl e \<Rightarrow> throw e c
           | Inr content \<Rightarrow> handleDecryptedContent eventId content encryptionEmitter c)
      | None \<Rightarrow>
          ok c (emit encryptionEmitter (newEncryptedContent (gc_streamId c) eventId
            \<lparr>ec_kind = KChannelProperties, ec_content = pl\<rparr>)))"

definition channelMetadata_applySnapshot ::
  "'a protocol_externs_scheme \<Rightarrow> WrappedEncryptedData \<Rightarrow> (string, cleartext) jsmap option \<Rightarrow> bool \<Rightarrow>
   GdmContent \<Rightarrow> (GdmContent, out) res" where
  "channelMetadata_applySnapshot E props cleartexts encryptionEmitter c =
     (case we_data props of
        None \<Rightarrow> ok c []
      | Some data \<Rightarrow>
          let eventId = bin_toHexString E (we_eventHash props)
          in decryptPayload E data eventId (get_cleartext cleartexts eventId) encryptionEmitter
               (c\<lparr>gc_gdmStreamsView :=
                  setLatestMetadataEventId (gc_streamId c) eventId (gc_gdmStreamsView c)\<rparr>))"

definition channelMetadata_appendEvent ::
  "'a protocol_externs_scheme \<Rightarrow> StreamTimelineEvent \<Rightarrow> cleartext option \<Rightarrow> bool \<Rightarrow> GdmContent \<Rightarrow>
   (GdmContent, out) res" where
  "channelMetadata_appendEvent E event ct emitter c =
     (case event_payload event of
        Some (PlGdmChannel (Some (GdmChannelProperties pl))) \<Rightarrow>
          decryptPayload E pl (se_hashStr event) ct emitter
            (c\<lparr>gc_gdmStreamsView :=
               setLatestMetadataEventId (gc_streamId c) (se_hashStr event) (gc_gdmStreamsView c)\<rparr>)
      | _ \<Rightarrow> throw (throwWithCode None) c)"

definition gdm_applySnapshot ::
  "'a protocol_externs_scheme \<Rightarrow> GdmSnapshot \<Rightarrow> (string, cleartext) jsmap option \<Rightarrow> bool \<Rightarrow> GdmContent \<Rightarrow>
   (GdmContent, out) res" where
  "gdm_applySnapshot E content cleartexts encryptionEmitter c =
     (case gs_channelProperties content of
        None \<Rightarrow> ok c []
      | Some p \<Rightarrow> channelMetadata_applySnapshot E p cleartexts encryptionEmitter c)"

definition gdm_updateLastEvent :: "int \<Rightarrow> bool \<Rightarrow> GdmContent \<Rightarrow> (GdmContent, out) res" where
  "gdm_updateLastEvent createdAtEpochMs stateEmitter c =
     (if createdAtEpochMs > gdm_lastEventCreatedAtEpochMs (gdmStreamModel c)
      then ok (c\<lparr>gc_gdmStreamsView := gdm_setLastEventCreatedAtEpochMs (gc_streamId c) createdAtEpochMs
                 (gc_gdmStreamsView c)\<rparr>)
              (emit stateEmitter (streamLatestTimestampUpdated (gc_streamId c)))
      else ok c [])"

definition gdm_message ::
  "'a protocol_externs_scheme \<Rightarrow> EncryptedData \<Rightarrow> cleartext option \<Rightarrow> bool \<Rightarrow> bool \<Rightarrow> ParsedEvent \<Rightarrow>
   StreamTimelineEvent \<Rightarrow> GdmContent \<Rightarrow> (GdmContent \<times> StreamTimelineEvent, out) res" where
  "gdm_message E d ct encryptionEmitter stateEmitter remoteEvent event c =
     and_then (on_event (decryptEvent E (gc_streamId c) KChannelMessage d ct encryptionEmitter) event c)
       (\<lambda>(c, event). with_event
         (gdm_updateLastEvent (ev_createdAtEpochMs (pe_event remoteEvent)) stateEmitter c) event)"

definition gdm_prependEvent ::
  "'a protocol_externs_scheme \<Rightarrow> cleartext option \<Rightarrow> bool \<Rightarrow> StreamTimelineEvent \<Rightarrow> GdmContent \<Rightarrow>
   (GdmContent \<times> StreamTimelineEvent, out) res" where
  "gdm_prependEvent E ct encryptionEmitter event c =
     (case se_remoteEvent event of
        None \<Rightarrow> throw JsError (c, event)
      | Some remoteEvent \<Rightarrow>
          (case ev_payload (pe_event remoteEvent) of
             Some (PlGdmChannel content) \<Rightarrow>
               (case content of
                  Some (GdmIncept _) \<Rightarrow>
                    with_event (gdm_updateLastEvent (ev_createdAtEpochMs (pe_event remoteEvent)) False c)
                      event
                | Some (GdmMessage d) \<Rightarrow> gdm_message E d ct encryptionEmitter False remoteEvent event c
                | Some (GdmChannelProperties _) \<Rightarrow> ok (c, event) []
                | None \<Rightarrow> ok (c, event) [])
           | _ \<Rightarrow> throw (throwWithCode None) (c, event)))"

definition gdm_appendEvent ::
  "'a protocol_externs_scheme \<Rightarrow> cleartext option \<Rightarrow> bool \<Rightarrow> bool \<Rightarrow> StreamTimelineEvent \<Rightarrow> GdmContent \<Rightarrow>
   (GdmContent \<times> StreamTimelineEvent, out) res" where
  "gdm_appendEvent E ct encryptionEmitter stateEmitter event c =
     (case se_remoteEvent event of
        None \<Rightarrow> throw JsError (c, event)
      | Some remoteEvent \<Rightarrow>
          (case ev_payload (pe_event remoteEvent) of
             Some (PlGdmChannel content) \<Rightarrow>
               (case content of
                  Some (GdmIncept _) \<Rightarrow>
                    with_event (gdm_updateLastEvent (ev_createdAtEpochMs (pe_event remoteEvent))
                      stateEmitter c) event
                | Some (GdmMessage d) \<Rightarrow>
                    gdm_message E d ct encryptionEmitter stateEmitter remoteEvent event c
                | Some (GdmChannelProperties _) \<Rightarrow>
                    with_event (channelMetadata_appendEvent E event ct encryptionEmitter c) event
                | None \<Rightarrow> ok (c, event) [])
           | _ \<Rightarrow> throw (throwWithCode None) (c, event)))"

definition gdm_onDecryptedContent ::
  "string \<Rightarrow> DecryptedContent \<Rightarrow> bool \<Rightarrow> GdmContent \<Rightarrow> (GdmContent, out) res" where
  "gdm_onDecryptedContent eventId content emitter c =
     (case content of
        DcChannelProperties _ \<Rightarrow> handleDecryptedContent eventId content emitter c
      | _ \<Rightarrow> ok c [])"

definition gdm_onAppendLocalEvent ::
  "bool \<Rightarrow> StreamTimelineEvent \<Rightarrow> GdmContent \<Rightarrow> (GdmContent, out) res" where
  "gdm_onAppendLocalEvent stateEmitter event c =
     ok (c\<lparr>gc_gdmStreamsView := gdm_setLastEventCreatedAtEpochMs (gc_streamId c)
            (se_createdAtEpochMs event) (gc_gdmStreamsView c)\<rparr>)
        (emit stateEmitter (streamLatestTimestampUpdated (gc_streamId c)))"

subsection \<open>Concurrent decryption of the space image\<close>

text \<open>A space with the decryptions that run in the background and, for the statements, the encrypted
  images that have arrived so far. Events arrive, clients ask for the image, and running decryptions
  settle in any order.\<close>

record image_world =
  iw_space :: SpaceContent
  iw_running :: "data_ref list"
  iw_delivered :: "EncryptedData list"

inductive image_step :: "'a content_externs_scheme \<Rightarrow> image_world \<Rightarrow> image_world \<Rightarrow> bool"
  for E :: "'a content_externs_scheme"
where
  img_deliver: "event_payload e = Some (PlSpace (Some (SpSpaceImage d))) \<Longrightarrow>
    image_step E w (w\<lparr>iw_space := fst (st_of (space_appendEvent E se e (iw_space w))),
      iw_delivered := iw_delivered w @ [d]\<rparr>)"
| img_request: "getSpaceImage E (iw_space w) = (s, r) \<Longrightarrow>
    image_step E w (w\<lparr>iw_space := s,
      iw_running := iw_running w @ (case r of ImgStarted d \<Rightarrow> [d] | _ \<Rightarrow> [])\<rparr>)"
| img_settle: "d \<in> set (iw_running w) \<Longrightarrow>
    image_step E w (w\<lparr>iw_space := decryptSpaceImage E d (iw_space w),
      iw_running := remove1 d (iw_running w)\<rparr>)"

definition image_start :: "string \<Rightarrow> SpaceStreamsView \<Rightarrow> image_world" where
  "image_start streamId view =
     \<lparr>iw_space = new_SpaceContent streamId view, iw_running = [], iw_delivered = []\<rparr>"

definition is_delivered :: "data_ref \<Rightarrow> EncryptedData list \<Rightarrow> bool" where
  "is_delivered d ds \<longleftrightarrow> fst d < length ds \<and> ds ! fst d = snd d"

lemma is_delivered_append [simp]: "is_delivered d ds \<Longrightarrow> is_delivered d (ds @ es)"
  by (simp add: is_delivered_def nth_append)

definition newest :: "EncryptedData list \<Rightarrow> data_ref" where
  "newest ds = (length ds - 1, last ds)"

lemma is_delivered_newest [simp]: "ds \<noteq> [] \<Longrightarrow> is_delivered (newest ds) ds"
  by (simp add: is_delivered_def newest_def last_conv_nth)

text \<open>The newest image is waiting, or being decrypted, or shown.\<close>

definition image_inv :: "'a content_externs_scheme \<Rightarrow> string \<Rightarrow> image_world \<Rightarrow> bool" where
  "image_inv E streamId w \<longleftrightarrow>
     (let s = iw_space w; ds = iw_delivered w
      in spc_streamId s = streamId \<and> spc_objects s = length ds \<and>
         (\<forall>h d. spc_encryptedSpaceImage s = Some (h, d) \<longrightarrow> ds \<noteq> [] \<and> d = newest ds) \<and>
         (\<forall>d. spc_decryptionInProgress s = Some d \<longrightarrow> d \<in> set (iw_running w)) \<and>
         (\<forall>d \<in> set (iw_running w). is_delivered d ds) \<and>
         (spc_encryptedSpaceImage s = None \<and> ds \<noteq> [] \<longrightarrow>
            spc_decryptionInProgress s = Some (newest ds) \<or>
            (spc_decryptionInProgress s = None \<and>
             ((\<forall>d \<in> set ds. decrypted_image E streamId d \<noteq> None) \<longrightarrow>
              spc_spaceImage s = decrypted_image E streamId (last ds)))))"

lemma image_inv_step:
  assumes "image_step E w w'" "image_inv E streamId w" "contractAddressFromSpaceId E streamId = Inr a"
  shows "image_inv E streamId w'"
  using assms(1)
proof cases
  case (img_deliver e d se)
  then have "fst (st_of (space_appendEvent E se e (iw_space w))) = set_image (se_hashStr e) d (iw_space w)"
    by (simp add: space_appendEvent_def)
  then show ?thesis
    using assms(2) img_deliver(1)
    by (auto simp: image_inv_def Let_def set_image_def newest_def)
next
  case (img_request s r)
  then show ?thesis
    using assms(2,3)
    by (auto simp: image_inv_def Let_def getSpaceImage_def simp del: split_paired_All
      split: option.splits sum.splits)
next
  case (img_settle d)
  let ?s = "iw_space w"
  have "is_delivered d (iw_delivered w)" using assms(2) img_settle(2) by (auto simp: image_inv_def Let_def)
  then have "snd d \<in> set (iw_delivered w)" by (metis is_delivered_def nth_mem)
  moreover have "snd (newest (iw_delivered w)) = last (iw_delivered w)" by (simp add: newest_def)
  moreover have "e \<in> set (iw_running w)" if "e \<in> set (remove1 d (iw_running w))" for e
    using that by (metis notin_set_remove1)
  moreover have "e \<in> set (remove1 d (iw_running w))" if "e \<in> set (iw_running w)" "e \<noteq> d" for e
    using that by simp
  ultimately show ?thesis
    using assms(2) unfolding img_settle(1)
    by (auto simp: image_inv_def Let_def decryptSpaceImage_def simp del: split_paired_All
        split: option.split)
qed

lemma image_inv_reachable:
  assumes "(image_step E)\<^sup>*\<^sup>* (image_start streamId view) w" "contractAddressFromSpaceId E streamId = Inr a"
  shows "image_inv E streamId w"
  using assms(1)
proof (induction rule: rtranclp_induct)
  case base
  then show ?case by (simp add: image_inv_def image_start_def new_SpaceContent_def)
next
  case (step w w')
  then show ?case using image_inv_step assms(2) by blast
qed

text \<open>
  C13. The space image is never stale: in every interleaving of arriving image events, requests and
  settling decryptions, a request that is answered at once is answered with the image of the newest
  image event, provided the images that arrived can be decrypted; and once no decryption is running and
  no encrypted image is waiting, requests are answered at once.
\<close>

theorem space_image_never_stale:
  assumes "(image_step E)\<^sup>*\<^sup>* (image_start streamId view) w"
    and "contractAddressFromSpaceId E streamId = Inr a"
    and "\<forall>d \<in> set (iw_delivered w). decrypted_image E streamId d \<noteq> None"
    and "iw_delivered w \<noteq> []"
  shows "(\<forall>img. snd (getSpaceImage E (iw_space w)) = ImgReady img \<longrightarrow>
      img = decrypted_image E streamId (last (iw_delivered w))) \<and>
    (iw_running w = [] \<longrightarrow> spc_encryptedSpaceImage (iw_space w) = None \<longrightarrow>
      (\<exists>img. snd (getSpaceImage E (iw_space w)) = ImgReady img))"
  using image_inv_reachable[OF assms(1,2)] assms(3,4)
  by (auto simp: image_inv_def Let_def getSpaceImage_def simp del: split_paired_All
      split: option.splits sum.splits)

definition demo_contents :: content_externs where
  "demo_contents = sign_externs.extend demo_externs (content_externs.fields
     (\<lambda>context d. Some (ed_ciphertextBytes d))
     (\<lambda>bs. Some \<lparr>ck_info = None, ck_streamId = [], ck_thumbnail = None, ck_aesgcm = Some (bs, [])\<rparr>)
     (\<lambda>bs. Some \<lparr>bio_text = bin_toString bs, bio_updatedAtEpochMs = None\<rparr>))"

lemma demo_contents_sel [simp]:
  "x_decryptDerivedAESGCM demo_contents ctx d = Some (ed_ciphertextBytes d)"
  "x_chunkedMedia_fromBinary demo_contents bs =
     Some \<lparr>ck_info = None, ck_streamId = [], ck_thumbnail = None, ck_aesgcm = Some (bs, [])\<rparr>"
  "x_bytesToHex demo_contents = plain_bytesToHex"
  "x_getAddress demo_contents = x_getAddress plain_externs"
  by (simp_all add: demo_contents_def sign_externs.defs content_externs.defs demo_externs_def)

definition demo_space_id :: string where
  "demo_space_id = ''10'' @ replicate 62 (CHR ''0'')"

lemma demo_space_address:
  "contractAddressFromSpaceId demo_contents demo_space_id = Inr (''0x'' @ replicate 40 (CHR ''0''))"
proof -
  have "starts_with ''10'' demo_space_id" "slice 2 42 demo_space_id = replicate 40 (CHR ''0'')"
    by code_simp+
  then show ?thesis
    by (simp add: contractAddressFromSpaceId_def check_def isSpaceStreamId_def has_prefix_def
        streamIdAsString_def ethereumAddressAsString_def)
qed

definition demo_image :: "byte \<Rightarrow> EncryptedData" where
  "demo_image b = (demo_data None)\<lparr>ed_ciphertextBytes := [b]\<rparr>"

lemma demo_decrypted_image:
  "decrypted_image demo_contents demo_space_id (demo_image b) =
     Some \<lparr>ck_info = None, ck_streamId = [], ck_thumbnail = None, ck_aesgcm = Some ([b], [])\<rparr>"
  by (simp add: decrypted_image_def demo_space_address demo_image_def)

theorem space_image_never_stale_witness:
  "\<exists>w. (image_step demo_contents)\<^sup>*\<^sup>* (image_start demo_space_id []) w \<and>
     iw_delivered w = [demo_image 1, demo_image 2] \<and> iw_running w = [] \<and>
     snd (getSpaceImage demo_contents (iw_space w)) =
       ImgReady (decrypted_image demo_contents demo_space_id (demo_image 2))"
proof -
  let ?E = demo_contents
  let ?e = "\<lambda>h b. demo_remote h user0 (PlSpace (Some (SpSpaceImage (demo_image b))))"
  let ?W = "\<lambda>enc prog img n run ds. \<lparr>iw_space = \<lparr>spc_streamId = demo_space_id, spc_spacesView = [],
      spc_spaceImage = img, spc_encryptedSpaceImage = enc, spc_decryptionInProgress = prog,
      spc_objects = n\<rparr>, iw_running = run, iw_delivered = ds\<rparr>"
  let ?A = "(0, demo_image 1)" and ?B = "(1, demo_image 2)"
  let ?img = "decrypted_image ?E demo_space_id (demo_image 2)"
  have deliver: "image_step ?E w (w\<lparr>iw_space := set_image h (demo_image b) (iw_space w),
      iw_delivered := iw_delivered w @ [demo_image b]\<rparr>)" for w h b
    using img_deliver[of "?e h b" "demo_image b" ?E w True] by (simp add: space_appendEvent_def)
  note step = rtranclp.rtrancl_into_rtrancl[of "image_step ?E" "image_start demo_space_id []"]
  have 1: "(image_step ?E)\<^sup>*\<^sup>* (image_start demo_space_id [])
      (?W (Some (''h1'', ?A)) None None 1 [] [demo_image 1])"
    using step[OF rtranclp.rtrancl_refl deliver[of _ 1 "''h1''"]]
    by (simp add: image_start_def new_SpaceContent_def set_image_def)
  have 2: "(image_step ?E)\<^sup>*\<^sup>* (image_start demo_space_id []) (?W None (Some ?A) None 1 [?A] [demo_image 1])"
    using step[OF 1 img_request] by (simp add: getSpaceImage_def demo_space_address)
  have 3: "(image_step ?E)\<^sup>*\<^sup>* (image_start demo_space_id [])
      (?W (Some (''h2'', ?B)) (Some ?A) None 2 [?A] [demo_image 1, demo_image 2])"
    using step[OF 2 deliver[of _ 2 "''h2''"]] by (simp add: set_image_def numeral_2_eq_2)
  have 4: "(image_step ?E)\<^sup>*\<^sup>* (image_start demo_space_id [])
      (?W None (Some ?B) None 2 [?A, ?B] [demo_image 1, demo_image 2])"
    using step[OF 3 img_request] by (simp add: getSpaceImage_def demo_space_address)
  have 5: "(image_step ?E)\<^sup>*\<^sup>* (image_start demo_space_id [])
      (?W None None ?img 2 [?A] [demo_image 1, demo_image 2])"
    using step[OF 4 img_settle[of ?B]] by (simp add: decryptSpaceImage_def demo_decrypted_image)
  have 6: "(image_step ?E)\<^sup>*\<^sup>* (image_start demo_space_id [])
      (?W None None ?img 2 [] [demo_image 1, demo_image 2])"
    using step[OF 5 img_settle[of ?A]] by (simp add: decryptSpaceImage_def demo_decrypted_image)
  from space_image_never_stale[OF 6 demo_space_address] 6 show ?thesis
    by (fastforce simp: demo_decrypted_image)
qed

subsection \<open>The channels of a space\<close>

text \<open>What a space promises about its channels, on a map from channel ids to properties: settings
  that an event carries take precedence over those of the channel, and those over the defaults.\<close>

type_synonym channel_map = "string \<rightharpoonup> ParsedChannelProperties"

definition settings_or :: "(ChannelSettings \<Rightarrow> bool) \<Rightarrow> ChannelSettings option \<Rightarrow> bool \<Rightarrow> bool" where
  "settings_or f settings d = (case settings of Some x \<Rightarrow> f x | None \<Rightarrow> d)"

definition channel_spec ::
  "'a externs_scheme \<Rightarrow> int \<Rightarrow> SpacePayload_content \<Rightarrow> channel_map \<Rightarrow> channel_map" where
  "channel_spec E eventNum content C =
     (case content of
        SpChannel u \<Rightarrow>
          let c = streamIdAsString E (Bytes (cu_channelId u));
              old = (case C c of Some p \<Rightarrow> p | None \<Rightarrow> default_channel\<lparr>pcp_isAutojoin := isDefaultChannelId c\<rparr>);
              new = (\<lambda>auto hide. \<lparr>pcp_isDefault = isDefaultChannelId c, pcp_updatedAtEventNum = eventNum,
                pcp_isAutojoin = settings_or cs_autojoin (cu_settings u) auto,
                pcp_hideUserJoinLeaveEvents =
                  settings_or cs_hideUserJoinLeaveEvents (cu_settings u) hide\<rparr>)
          in (case cu_op u of
                CO_CREATED \<Rightarrow> C(c \<mapsto> new (isDefaultChannelId c) False)
              | CO_UPDATED \<Rightarrow> C(c \<mapsto> new (pcp_isAutojoin old) (pcp_hideUserJoinLeaveEvents old))
              | CO_DELETED \<Rightarrow> C(c := None)
              | _ \<Rightarrow> C)
      | SpUpdateChannelAutojoin u \<Rightarrow>
          let c = streamIdAsString E (Bytes (ua_channelId u))
          in C(c \<mapsto> (case C c of Some p \<Rightarrow> p | None \<Rightarrow> default_channel)\<lparr>pcp_isAutojoin := ua_autojoin u\<rparr>)
      | SpUpdateChannelHideUserJoinLeaveEvents u \<Rightarrow>
          let c = streamIdAsString E (Bytes (uh_channelId u))
          in C(c \<mapsto> (case C c of Some p \<Rightarrow> p | None \<Rightarrow> default_channel)
               \<lparr>pcp_hideUserJoinLeaveEvents := uh_hideUserJoinLeaveEvents u\<rparr>)
      | _ \<Rightarrow> C)"

definition channel_spec_event :: "'a externs_scheme \<Rightarrow> StreamTimelineEvent \<Rightarrow> channel_map \<Rightarrow> channel_map"
  where
  "channel_spec_event E e C =
     (case event_payload e of Some (PlSpace (Some content)) \<Rightarrow> channel_spec E (se_eventNum e) content C | _ \<Rightarrow> C)"

abbreviation channels :: "SpaceContent \<Rightarrow> channel_map" where
  "channels s \<equiv> map_of (spaceChannelsMetadata s)"

lemma channels_update:
  "channels (s\<lparr>spc_spacesView := updateChannelMetadata (spc_streamId s) c f (spc_spacesView s)\<rparr>) =
     (channels s)(c \<mapsto> f (case channels s c of Some p \<Rightarrow> p | None \<Rightarrow> default_channel))"
  by (rule ext) (simp add: spaceChannelsMetadata_def map_get_or_def)

lemma channels_delete:
  assumes "space_delete (spc_streamId s) c (spc_spacesView s) = (view, deleted)"
  shows "channels (s\<lparr>spc_spacesView := view\<rparr>) = (channels s)(c := None)"
  using space_get_delete(1)[of "spc_streamId s" c "spc_spacesView s"] assms
  by (auto simp: spaceChannelsMetadata_def)

lemma channels_image [simp]: "channels (set_image h d s) = channels s"
  by (simp add: spaceChannelsMetadata_def set_image_def)

lemma properties_update_all:
  "p\<lparr>pcp_isDefault := a, pcp_updatedAtEventNum := b, pcp_isAutojoin := c, pcp_hideUserJoinLeaveEvents := d\<rparr> =
   \<lparr>pcp_isDefault = a, pcp_updatedAtEventNum = b, pcp_isAutojoin = c, pcp_hideUserJoinLeaveEvents = d\<rparr>"
  by (cases p) simp

lemma space_appendEvent_channels:
  "channels (fst (st_of (space_appendEvent E se e s))) = channel_spec_event E e (channels s)"
proof -
  have channel: "channels (st_of (addSpacePayload_Channel E (cu_op u) (cu_channelId u) (cu_settings u) n se s)) =
      channel_spec E n (SpChannel u) (channels s)" for u n
    by (auto simp: addSpacePayload_Channel_def channel_spec_def Let_def channels_update
        channels_delete settings_or_def properties_update_all default_channel_def
        split: ChannelOp.split option.split prod.split)
  show ?thesis
    by (auto simp: space_appendEvent_def channel_spec_event_def channel
        addSpacePayload_UpdateChannelAutojoin_def channel_spec_def
        addSpacePayload_UpdateChannelHideUserJoinLeaveEvents_def Let_def channels_update
        split: option.split payload.split SpacePayload_content.split)
qed

text \<open>
  C16. The channel list of a space refines its specification: whatever events are appended, the
  properties of all channels are those the specification computes from the events. A created channel
  replaces an earlier one, an update keeps the settings it does not carry, and an event that sets one
  property of an unknown channel adds the channel with default properties.
\<close>

theorem space_channels_refine:
  "channels (fold (\<lambda>e s. fst (st_of (space_appendEvent E se e s))) es s) =
   fold (channel_spec_event E) es (channels s)"
  by (induction es arbitrary: s) (simp_all add: space_appendEvent_channels)

subsection \<open>The metadata of a GDM\<close>

lemma gdmStreamModel_upd [simp]:
  "gdmStreamModel (c\<lparr>gc_gdmStreamsView := record_modify default_gdm (gc_streamId c) f (gc_gdmStreamsView c)\<rparr>) =
   f (gdmStreamModel c)"
  by (simp add: gdmStreamModel_def)

lemmas gdm_view_defs = setMetadata_def setLatestMetadataEventId_def gdm_setLastEventCreatedAtEpochMs_def

lemma gdm_decrypted:
  "gdmStreamModel (st_of (gdm_onDecryptedContent eventId (DcChannelProperties p) se c)) =
     (if truthy_str (gdm_metadataEventId (gdmStreamModel c)) = None \<or> gdm_metadata (gdmStreamModel c) = None \<or>
        gdm_latestMetadataEventId (gdmStreamModel c) = Some eventId
      then (gdmStreamModel c)\<lparr>gdm_metadata := Some p, gdm_metadataEventId := Some eventId\<rparr>
      else gdmStreamModel c)"
  by (simp add: gdm_onDecryptedContent_def handleDecryptedContent_def gdm_view_defs)

lemma gdm_append_properties:
  assumes "event_payload e = Some (PlGdmChannel (Some (GdmChannelProperties pl)))" "truthy_cleartext ct = None"
  shows "gdmStreamModel (fst (st_of (gdm_appendEvent E ct ee se e c))) =
    (gdmStreamModel c)\<lparr>gdm_latestMetadataEventId := Some (se_hashStr e)\<rparr>"
proof -
  obtain r where "se_remoteEvent e = Some r" "ev_payload (pe_event r) =
      Some (PlGdmChannel (Some (GdmChannelProperties pl)))"
    using assms(1) by (auto simp: event_payload_def split: option.splits)
  then show ?thesis
    using assms(1) by (simp add: gdm_appendEvent_def channelMetadata_appendEvent_def decryptPayload_def
        assms(2) gdm_view_defs)
qed

abbreviation decrypted_properties :: "bool \<Rightarrow> (string \<times> ChannelProperties) list \<Rightarrow> GdmContent \<Rightarrow> GdmContent"
  where
  "decrypted_properties se calls c \<equiv>
     fold (\<lambda>(eventId, p) c. st_of (gdm_onDecryptedContent eventId (DcChannelProperties p) se c)) calls c"

lemma gdm_latest_kept:
  "gdm_latestMetadataEventId (gdmStreamModel (decrypted_properties se calls c)) =
   gdm_latestMetadataEventId (gdmStreamModel c)"
  by (induction calls arbitrary: c) (auto simp: gdm_decrypted)

lemma gdm_latest_metadata:
  assumes "gdm_latestMetadataEventId (gdmStreamModel c) = Some h" "h \<noteq> []"
    and "map_of (rev calls) h = Some p"
  shows "gdm_metadata (gdmStreamModel (decrypted_properties se calls c)) = Some p \<and>
    gdm_metadataEventId (gdmStreamModel (decrypted_properties se calls c)) = Some h"
  using assms(3)
proof (induction calls rule: rev_induct)
  case Nil
  then show ?case by simp
next
  case (snoc x calls)
  obtain i q where x: "x = (i, q)" by (cases x)
  have "gdm_latestMetadataEventId (gdmStreamModel (decrypted_properties se calls c)) = Some h"
    by (simp add: gdm_latest_kept assms(1))
  then show ?case using snoc assms(2) by (auto simp: x gdm_decrypted split: if_splits)
qed

text \<open>The newest properties of a group DM win whatever the order of decryption: after an event with
  new properties is appended, decryptions of this and of older events may arrive in any order and any
  number of times; once the newest event has been decrypted, its properties are the ones shown.
\<close>

theorem gdm_newest_properties_win:
  assumes "event_payload e = Some (PlGdmChannel (Some (GdmChannelProperties pl)))"
    and "truthy_cleartext ct = None" "se_hashStr e \<noteq> []"
    and "c1 = fst (st_of (gdm_appendEvent E ct ee se e c))"
    and "map_of (rev calls) (se_hashStr e) = Some p"
  shows "gdm_metadata (gdmStreamModel (decrypted_properties se calls c1)) = Some p \<and>
    gdm_metadataEventId (gdmStreamModel (decrypted_properties se calls c1)) = Some (se_hashStr e)"
  using gdm_latest_metadata[OF _ assms(3,5)] by (simp add: assms(4) gdm_append_properties[OF assms(1,2)])

theorem gdm_newest_properties_win_witness:
  "\<exists>c. c = decrypted_properties True [(''h2'', \<lparr>cp_name = ''new'', cp_topic = []\<rparr>),
      (''h1'', \<lparr>cp_name = ''old'', cp_topic = []\<rparr>)]
      (fst (st_of (gdm_appendEvent demo_externs None True True
        (demo_remote ''h2'' user0 (PlGdmChannel (Some (GdmChannelProperties (demo_data None)))))
        (new_GdmContent ''s'' [])))) \<and>
    gdm_metadata (gdmStreamModel c) = Some \<lparr>cp_name = ''new'', cp_topic = []\<rparr>"
  using gdm_newest_properties_win[of "demo_remote ''h2'' user0 (PlGdmChannel (Some (GdmChannelProperties (demo_data None))))"
      "demo_data None" None _ demo_externs True True "new_GdmContent ''s'' []"
      "[(''h2'', \<lparr>cp_name = ''new'', cp_topic = []\<rparr>), (''h1'', \<lparr>cp_name = ''old'', cp_topic = []\<rparr>)]"
      "\<lparr>cp_name = ''new'', cp_topic = []\<rparr>", OF _ _ _ refl]
  by (simp add: truthy_cleartext_def del: fold.simps)

end
