(* ===== verification/UserContents.thy ===== *)
theory UserContents
  imports ChannelContents
begin

section \<open>Contents of user streams and media streams\<close>

text \<open>
  \<open>packages/sdk/src/streamStateView_User.ts\<close>, \<open>streamStateView_UserInbox.ts\<close>,
  \<open>streamStateView_UserSettings.ts\<close>, \<open>streamStateView_UserMetadata.ts\<close>, \<open>streamStateView_Media.ts\<close> and
  \<open>streamStateView_UnknownContent.ts\<close>, in the style of the theory \<open>ChannelContents\<close>. None of these
  classes changes the timeline event it is handed.
\<close>

subsection \<open>User\<close>

record UserContent =
  uc_streamId :: string
  uc_userStreamsView :: UserStreamsView

definition new_UserContent :: "string \<Rightarrow> UserStreamsView \<Rightarrow> UserContent" where
  "new_UserContent streamId view = \<lparr>uc_streamId = streamId, uc_userStreamsView = view\<rparr>"

definition userStreamModel :: "UserContent \<Rightarrow> UserStreamModel" where
  "userStreamModel c = user_get (uc_userStreamsView c) (uc_streamId c)"

definition getMembership :: "UserContent \<Rightarrow> string \<Rightarrow> UserMembership option" where
  "getMembership c streamId = map_get (usm_streamMemberships (userStreamModel c)) streamId"

definition user_isMember :: "UserContent \<Rightarrow> string \<Rightarrow> MembershipOp \<Rightarrow> bool" where
  "user_isMember c streamId membership \<longleftrightarrow> map_option um_op (getMembership c streamId) = Some membership"

definition isJoined :: "UserContent \<Rightarrow> string \<Rightarrow> bool" where
  "isJoined c streamId = user_isMember c streamId SO_JOIN"

definition addUserPayload_userMembership ::
  "'a externs_scheme \<Rightarrow> UserMembership \<Rightarrow> bool \<Rightarrow> UserContent \<Rightarrow> (UserContent, out) res" where
  "addUserPayload_userMembership E pl emitter c =
     (let streamId = streamIdFromBytes E (um_streamId pl);
          wasInvited = user_isMember c streamId SO_INVITE;
          wasJoined = user_isMember c streamId SO_JOIN
      in ok (c\<lparr>uc_userStreamsView := setMembership (uc_streamId c) streamId pl (uc_userStreamsView c)\<rparr>)
            (case um_op pl of
               SO_INVITE \<Rightarrow> emit emitter (userInvitedToStream streamId) @
                 emit emitter (userStreamMembershipChanged streamId pl)
             | SO_JOIN \<Rightarrow> emit emitter (userJoinedStream streamId) @
                 emit emitter (userStreamMembershipChanged streamId pl)
             | SO_LEAVE \<Rightarrow>
                 if wasInvited \<or> wasJoined
                 then emit emitter (userLeftStream streamId) @
                      emit emitter (userStreamMembershipChanged streamId pl)
                 else []
             | _ \<Rightarrow> []))"

definition user_applySnapshot ::
  "'a externs_scheme \<Rightarrow> UserSnapshot \<Rightarrow> bool \<Rightarrow> UserContent \<Rightarrow> (UserContent, out) res" where
  "user_applySnapshot E content encryptionEmitter c0 =
     and_then (for_each (\<lambda>pl. addUserPayload_userMembership E pl encryptionEmitter)
        (us_memberships content) c0) (\<lambda>c.
     ok (c\<lparr>uc_userStreamsView := setTips (uc_streamId c) (us_tipsSent content) (us_tipsReceived content)
            (us_tipsSentCount content) (us_tipsReceivedCount content) (uc_userStreamsView c)\<rparr>) [])"

definition user_prependEvent ::
  "StreamTimelineEvent \<Rightarrow> UserContent \<Rightarrow> (UserContent, out) res" where
  "user_prependEvent event c =
     (case event_payload event of
        Some (PlUser content) \<Rightarrow>
          (case content of
             Some (UsBlockchainTransaction t) \<Rightarrow>
               (case bt_content t of
                  Some (TcTokenTransfer tt) \<Rightarrow>
                    ok (c\<lparr>uc_userStreamsView :=
                          prependTokenTransfer (uc_streamId c) tt (uc_userStreamsView c)\<rparr>) []
                | _ \<Rightarrow> ok c [])
           | _ \<Rightarrow> ok c [])
      | _ \<Rightarrow> throw (throwWithCode None) c)"

definition user_tip ::
  "'a externs_scheme \<Rightarrow> Tip \<Rightarrow> (string \<Rightarrow> string \<Rightarrow> int \<Rightarrow> UserStreamsView \<Rightarrow> UserStreamsView) \<Rightarrow>
   (string \<Rightarrow> string \<Rightarrow> int \<Rightarrow> out) \<Rightarrow> bool \<Rightarrow> UserContent \<Rightarrow> (UserContent, out) res" where
  "user_tip E tip add note stateEmitter c =
     (case tip_event tip of
        None \<Rightarrow> ok c []
      | Some event \<Rightarrow>
          (case x_getAddress E (bin_toHexString E (te_currency event)) of
             None \<Rightarrow> throw LibError c
           | Some currency \<Rightarrow>
               ok (c\<lparr>uc_userStreamsView :=
                     add (uc_streamId c) currency (te_amount event) (uc_userStreamsView c)\<rparr>)
                  (emit stateEmitter (note (uc_streamId c) currency (te_amount event)))))"

definition user_appendEvent ::
  "'a externs_scheme \<Rightarrow> bool \<Rightarrow> StreamTimelineEvent \<Rightarrow> UserContent \<Rightarrow> (UserContent, out) res" where
  "user_appendEvent E stateEmitter event c =
     (case event_payload event of
        Some (PlUser content) \<Rightarrow>
          (case content of
             Some (UsUserMembership m) \<Rightarrow> addUserPayload_userMembership E m stateEmitter c
           | Some (UsBlockchainTransaction t) \<Rightarrow>
               (case bt_content t of
                  Some (TcTip tip) \<Rightarrow> user_tip E tip appendTipSent userTipSent stateEmitter c
                | Some (TcTokenTransfer tt) \<Rightarrow>
                    ok (c\<lparr>uc_userStreamsView :=
                          appendTokenTransfer (uc_streamId c) tt (uc_userStreamsView c)\<rparr>) []
                | _ \<Rightarrow> ok c [])
           | Some (UsReceivedBlockchainTransaction r) \<Rightarrow>
               (case (case rbt_transaction r of None \<Rightarrow> None | Some t \<Rightarrow> bt_content t) of
                  Some (TcTip tip) \<Rightarrow> user_tip E tip appendTipReceived userTipReceived stateEmitter c
                | _ \<Rightarrow> ok c [])
           | _ \<Rightarrow> ok c [])
      | _ \<Rightarrow> throw (throwWithCode None) c)"

subsection \<open>User inbox\<close>

record InboxContent =
  ic_streamId :: string
  ic_deviceSummary :: "(string, DeviceSummary) jsmap"

definition new_InboxContent :: "string \<Rightarrow> InboxContent" where
  "new_InboxContent streamId = \<lparr>ic_streamId = streamId, ic_deviceSummary = []\<rparr>"

definition inbox_applySnapshot :: "UserInboxSnapshot \<Rightarrow> InboxContent \<Rightarrow> InboxContent" where
  "inbox_applySnapshot content c =
     c\<lparr>ic_deviceSummary := fold (\<lambda>(deviceId, summary). map_set deviceId summary)
        (ins_deviceSummary content) (ic_deviceSummary c)\<rparr>"

definition addGroupSessions ::
  "string \<Rightarrow> GroupEncryptionSessions \<Rightarrow> bool \<Rightarrow> InboxContent \<Rightarrow> (InboxContent, out) res" where
  "addGroupSessions creatorUserId content encryptionEmitter c =
     ok c (emit encryptionEmitter (newGroupSessions content creatorUserId))"

text \<open>The summary that is emitted is the object, with its lower bound already updated.\<close>

definition updateDeviceSummary :: "InboxAck \<Rightarrow> bool \<Rightarrow> InboxContent \<Rightarrow> (InboxContent, out) res" where
  "updateDeviceSummary content stateEmitter c =
     (case map_get (ic_deviceSummary c) (ack_deviceKey content) of
        None \<Rightarrow> ok c (emit stateEmitter
          (userInboxDeviceSummaryUpdated (ic_streamId c) (ack_deviceKey content) None))
      | Some summary \<Rightarrow>
          if ds_upperBound summary \<le> ack_miniblockNum content
          then ok (c\<lparr>ic_deviceSummary := map_delete (ack_deviceKey content) (ic_deviceSummary c)\<rparr>)
                  (emit stateEmitter (userInboxDeviceSummaryUpdated (ic_streamId c)
                     (ack_deviceKey content) (Some summary)))
          else let summary' = summary\<lparr>ds_lowerBound := ack_miniblockNum content + 1\<rparr>
               in ok (c\<lparr>ic_deviceSummary :=
                        map_set (ack_deviceKey content) summary' (ic_deviceSummary c)\<rparr>)
                     (emit stateEmitter (userInboxDeviceSummaryUpdated (ic_streamId c)
                        (ack_deviceKey content) (Some summary'))))"

definition inbox_prependEvent ::
  "bool \<Rightarrow> StreamTimelineEvent \<Rightarrow> InboxContent \<Rightarrow> (InboxContent, out) res" where
  "inbox_prependEvent encryptionEmitter event c =
     (case event_payload event of
        Some (PlUserInbox content) \<Rightarrow>
          (case content of
             Some (InGroupEncryptionSessions s) \<Rightarrow>
               addGroupSessions (se_creatorUserId event) s encryptionEmitter c
           | _ \<Rightarrow> ok c [])
      | _ \<Rightarrow> throw (throwWithCode None) c)"

definition inbox_appendEvent ::
  "bool \<Rightarrow> bool \<Rightarrow> StreamTimelineEvent \<Rightarrow> InboxContent \<Rightarrow> (InboxContent, out) res" where
  "inbox_appendEvent encryptionEmitter stateEmitter event c =
     (case event_payload event of
        Some (PlUserInbox content) \<Rightarrow>
          (case content of
             Some (InGroupEncryptionSessions s) \<Rightarrow>
               addGroupSessions (se_creatorUserId event) s encryptionEmitter c
           | Some (InAck ack) \<Rightarrow> updateDeviceSummary ack stateEmitter c
           | _ \<Rightarrow> ok c [])
      | _ \<Rightarrow> throw (throwWithCode None) c)"

subsection \<open>User settings\<close>

record SettingsContent =
  stc_streamId :: string
  stc_userSettingsStreamsView :: UserSettingsStreamsView

definition new_SettingsContent :: "string \<Rightarrow> UserSettingsStreamsView \<Rightarrow> SettingsContent" where
  "new_SettingsContent streamId view =
     \<lparr>stc_streamId = streamId, stc_userSettingsStreamsView = view\<rparr>"

definition userSettingsStreamModel :: "SettingsContent \<Rightarrow> UserSettingsStreamModel" where
  "userSettingsStreamModel c = user_settings_get (stc_userSettingsStreamsView c) (stc_streamId c)"

definition fullyReadMarkerUpdate ::
  "'a protocol_externs_scheme \<Rightarrow> FullyReadMarkers \<Rightarrow> bool \<Rightarrow> SettingsContent \<Rightarrow> (SettingsContent, out) res"
  where
  "fullyReadMarkerUpdate E pl emitter c =
     (case frm_content pl of
        None \<Rightarrow> ok c []
      | Some data \<Rightarrow>
          let streamId = streamIdFromBytes E (frm_streamId pl)
          in case x_fullyReadMarkers_fromJson E data of
               None \<Rightarrow> throw LibError c
             | Some markers \<Rightarrow>
                 ok (c\<lparr>stc_userSettingsStreamsView := setFullyReadMarkers (stc_streamId c) streamId markers
                        (stc_userSettingsStreamsView c)\<rparr>)
                    (emit emitter (fullyReadMarkersUpdated streamId markers)))"

definition userBlockUpdate ::
  "'a externs_scheme \<Rightarrow> UserBlock \<Rightarrow> bool \<Rightarrow> SettingsContent \<Rightarrow> (SettingsContent, out) res" where
  "userBlockUpdate E pl emitter c =
     (case userIdFromAddress E (ub_userId pl) of
        None \<Rightarrow> throw LibError c
      | Some userId \<Rightarrow>
          ok (c\<lparr>stc_userSettingsStreamsView := updateUserBlock (stc_streamId c) userId
                 \<lparr>sb_isBlocked = ub_isBlocked pl, sb_eventNum = ub_eventNum pl\<rparr>
                 (stc_userSettingsStreamsView c)\<rparr>)
             (emit emitter (userBlockUpdated pl)))"

definition settings_applySnapshot ::
  "'a protocol_externs_scheme \<Rightarrow> UserSettingsSnapshot \<Rightarrow> SettingsContent \<Rightarrow> (SettingsContent, out) res" where
  "settings_applySnapshot E content c0 =
     and_then (for_each (\<lambda>pl. fullyReadMarkerUpdate E pl False) (ses_fullyReadMarkers content) c0) (\<lambda>c1.
     for_each (\<lambda>userBlocks c.
       case userIdFromAddress E (ubs_userId userBlocks) of
         None \<Rightarrow> throw LibError c
       | Some userId \<Rightarrow>
           ok (c\<lparr>stc_userSettingsStreamsView := setUserBlocks (stc_streamId c) userId userBlocks
                  (stc_userSettingsStreamsView c)\<rparr>) [])
       (ses_userBlocksList content) c1)"

definition settings_prependEvent ::
  "StreamTimelineEvent \<Rightarrow> SettingsContent \<Rightarrow> (SettingsContent, out) res" where
  "settings_prependEvent event c =
     (case event_payload event of
        Some (PlUserSettings _) \<Rightarrow> ok c []
      | _ \<Rightarrow> throw (throwWithCode None) c)"

definition settings_appendEvent ::
  "'a protocol_externs_scheme \<Rightarrow> bool \<Rightarrow> StreamTimelineEvent \<Rightarrow> SettingsContent \<Rightarrow> (SettingsContent, out) res"
  where
  "settings_appendEvent E stateEmitter event c =
     (case event_payload event of
        Some (PlUserSettings content) \<Rightarrow>
          (case content of
             Some (SeFullyReadMarkers m) \<Rightarrow> fullyReadMarkerUpdate E m stateEmitter c
           | Some (SeUserBlock b) \<Rightarrow> userBlockUpdate E b stateEmitter c
           | _ \<Rightarrow> ok c [])
      | _ \<Rightarrow> throw (throwWithCode None) c)"

definition blocks_of :: "SettingsContent \<Rightarrow> string \<Rightarrow> SnapshotBlock list" where
  "blocks_of c userId =
     (case map_get (usn_userBlocks (userSettingsStreamModel c)) userId of
        None \<Rightarrow> [] | Some b \<Rightarrow> ubs_blocks b)"

definition getLastBlock :: "SettingsContent \<Rightarrow> string \<Rightarrow> SnapshotBlock option" where
  "getLastBlock c userId =
     (let blocks = blocks_of c userId
      in if length blocks = 0 then None else Some (blocks ! (length blocks - 1)))"

definition isUserBlocked :: "SettingsContent \<Rightarrow> string \<Rightarrow> bool" where
  "isUserBlocked c userId =
     (case getLastBlock c userId of None \<Rightarrow> False | Some latestBlock \<Rightarrow> sb_isBlocked latestBlock)"

definition isUserBlockedAt :: "SettingsContent \<Rightarrow> string \<Rightarrow> int \<Rightarrow> bool" where
  "isUserBlockedAt c userId eventNum =
     fold (\<lambda>block isBlocked. if eventNum \<ge> sb_eventNum block then sb_isBlocked block else isBlocked)
       (blocks_of c userId) False"

subsection \<open>User metadata\<close>

record MetadataContent =
  mdc_streamId :: string
  mdc_streamCreatorId :: string
  mdc_profileImage :: "ChunkedMedia option"
  mdc_encryptedProfileImage :: "EncryptedData option"
  mdc_bio :: "UserBio option"
  mdc_encryptedBio :: "EncryptedData option"
  mdc_bioInProgress :: "EncryptedData option"
  mdc_imageInProgress :: "EncryptedData option"
  mdc_deviceKeys :: "EncryptionDevice list"

definition new_MetadataContent :: "'a externs_scheme \<Rightarrow> string \<Rightarrow> exn + MetadataContent" where
  "new_MetadataContent E streamId =
     bindE (getUserIdFromStreamId E streamId) (\<lambda>creator.
     Inr \<lparr>mdc_streamId = streamId, mdc_streamCreatorId = creator, mdc_profileImage = None,
       mdc_encryptedProfileImage = None, mdc_bio = None, mdc_encryptedBio = None,
       mdc_bioInProgress = None, mdc_imageInProgress = None, mdc_deviceKeys = []\<rparr>)"

definition addUserDeviceKey ::
  "EncryptionDevice \<Rightarrow> bool \<Rightarrow> bool \<Rightarrow> MetadataContent \<Rightarrow> (MetadataContent, out) res" where
  "addUserDeviceKey device encryptionEmitter stateEmitter c =
     (let keys = (case find_index (\<lambda>x. dev_deviceKey x = dev_deviceKey device) (mdc_deviceKeys c) of
                    Some existing \<Rightarrow> remove_at existing (mdc_deviceKeys c)
                  | None \<Rightarrow> mdc_deviceKeys c) @ [device]
      in ok (c\<lparr>mdc_deviceKeys := keys\<rparr>)
            (emit encryptionEmitter
               (userDeviceKeyMessage (mdc_streamId c) (mdc_streamCreatorId c) device) @
             emit stateEmitter (userDeviceKeysUpdated (mdc_streamId c) keys)))"

definition addProfileImage :: "EncryptedData \<Rightarrow> bool \<Rightarrow> MetadataContent \<Rightarrow> (MetadataContent, out) res" where
  "addProfileImage data stateEmitter c =
     ok (c\<lparr>mdc_encryptedProfileImage := Some data\<rparr>)
        (emit stateEmitter (userProfileImageUpdated (mdc_streamId c)))"

definition addBio :: "EncryptedData \<Rightarrow> bool \<Rightarrow> MetadataContent \<Rightarrow> (MetadataContent, out) res" where
  "addBio data stateEmitter c =
     ok (c\<lparr>mdc_encryptedBio := Some data\<rparr>) (emit stateEmitter (userBioUpdated (mdc_streamId c)))"

definition metadata_applySnapshot ::
  "UserMetadataSnapshot \<Rightarrow> bool \<Rightarrow> MetadataContent \<Rightarrow> (MetadataContent, out) res" where
  "metadata_applySnapshot content encryptionEmitter c0 =
     and_then (for_each (\<lambda>d. addUserDeviceKey d encryptionEmitter False)
        (mds_encryptionDevices content) c0) (\<lambda>c.
     and_then (case Option.bind (mds_profileImage content) we_data of
                 Some data \<Rightarrow> addProfileImage data False c | None \<Rightarrow> ok c []) (\<lambda>c.
     (case Option.bind (mds_bio content) we_data of
        Some data \<Rightarrow> addBio data False c | None \<Rightarrow> ok c [])))"

definition metadata_appendEvent ::
  "bool \<Rightarrow> bool \<Rightarrow> StreamTimelineEvent \<Rightarrow> MetadataContent \<Rightarrow> (MetadataContent, out) res" where
  "metadata_appendEvent encryptionEmitter stateEmitter event c =
     (case event_payload event of
        Some (PlUserMetadata content) \<Rightarrow>
          (case content of
             Some (MdEncryptionDevice d) \<Rightarrow> addUserDeviceKey d encryptionEmitter stateEmitter c
           | Some (MdProfileImage data) \<Rightarrow> addProfileImage data stateEmitter c
           | Some (MdBio data) \<Rightarrow> addBio data stateEmitter c
           | _ \<Rightarrow> ok c [])
      | _ \<Rightarrow> throw (throwWithCode None) c)"

text \<open>What the asynchronous method \<open>decrypt\<close> computes before it stores the result.\<close>

definition metadata_decrypt ::
  "'a content_externs_scheme \<Rightarrow> string \<Rightarrow> (bytes \<Rightarrow> 't option) \<Rightarrow> EncryptedData \<Rightarrow> 't option" where
  "metadata_decrypt E streamId fromBinary data =
     (case getUserIdFromStreamId E streamId of
        Inl _ \<Rightarrow> None
      | Inr userId \<Rightarrow>
          (case x_decryptDerivedAESGCM E (toLowerCase userId) data of
             None \<Rightarrow> None
           | Some plaintext \<Rightarrow> fromBinary plaintext))"

datatype 't media_result =
  MdStarted EncryptedData | MdRejected EncryptedData | MdInProgress EncryptedData | MdReady "'t option"

definition getProfileImage ::
  "'a externs_scheme \<Rightarrow> MetadataContent \<Rightarrow> MetadataContent \<times> ChunkedMedia media_result" where
  "getProfileImage E c =
     (case mdc_encryptedProfileImage c of
        Some data \<Rightarrow>
          (c\<lparr>mdc_encryptedProfileImage := None, mdc_imageInProgress := Some data\<rparr>,
           (case getUserIdFromStreamId E (mdc_streamId c) of Inl _ \<Rightarrow> MdRejected data | Inr _ \<Rightarrow> MdStarted data))
      | None \<Rightarrow>
          (c, (case mdc_imageInProgress c of
                 Some data \<Rightarrow> MdInProgress data
               | None \<Rightarrow> MdReady (mdc_profileImage c))))"

definition profileImage_settled ::
  "'a content_externs_scheme \<Rightarrow> EncryptedData \<Rightarrow> MetadataContent \<Rightarrow> MetadataContent" where
  "profileImage_settled E data c =
     (case metadata_decrypt E (mdc_streamId c) (x_chunkedMedia_fromBinary E) data of
        None \<Rightarrow> c
      | Some profileImage \<Rightarrow> c\<lparr>mdc_profileImage := Some profileImage\<rparr>)\<lparr>mdc_imageInProgress := None\<rparr>"

definition getBio ::
  "'a externs_scheme \<Rightarrow> MetadataContent \<Rightarrow> MetadataContent \<times> UserBio media_result" where
  "getBio E c =
     (case mdc_encryptedBio c of
        Some data \<Rightarrow>
          (c\<lparr>mdc_encryptedBio := None, mdc_bioInProgress := Some data\<rparr>,
           (case getUserIdFromStreamId E (mdc_streamId c) of Inl _ \<Rightarrow> MdRejected data | Inr _ \<Rightarrow> MdStarted data))
      | None \<Rightarrow>
          (c, (case mdc_bioInProgress c of
                 Some data \<Rightarrow> MdInProgress data
               | None \<Rightarrow> MdReady (mdc_bio c))))"

definition bio_settled ::
  "'a content_externs_scheme \<Rightarrow> EncryptedData \<Rightarrow> MetadataContent \<Rightarrow> MetadataContent" where
  "bio_settled E data c =
     (case metadata_decrypt E (mdc_streamId c) (x_userBio_fromBinary E) data of
        None \<Rightarrow> c
      | Some bioPlaintext \<Rightarrow> c\<lparr>mdc_bio := Some bioPlaintext\<rparr>)\<lparr>mdc_bioInProgress := None\<rparr>"

subsection \<open>Media\<close>

text \<open>\<open>Array(n)\<close> is a list of \<open>n\<close> holes; a negative length is a \<open>RangeError\<close>.\<close>

record MediaInfoState =
  mst_spaceId :: string
  mst_channelId :: string
  mst_userId :: string
  mst_chunkCount :: int
  mst_chunks :: "bytes option list"
  mst_perChunkEncryption :: bool
  mst_perChunkIVs :: "bytes option list"

record MediaContent =
  mec_streamId :: string
  mec_info :: "MediaInfoState option"

definition new_MediaContent :: "string \<Rightarrow> MediaContent" where
  "new_MediaContent streamId = \<lparr>mec_streamId = streamId, mec_info = None\<rparr>"

definition media_applySnapshot ::
  "'a externs_scheme \<Rightarrow> MediaInception option \<Rightarrow> MediaContent \<Rightarrow> (MediaContent, out) res" where
  "media_applySnapshot E inception c =
     (case inception of
        None \<Rightarrow> throw JsError c
      | Some i \<Rightarrow>
          if mi_chunkCount i = 0 \<or>
             (mi_channelId i = None \<and> mi_spaceId i = None \<and> mi_userId i = None)
          then throw JsError c
          else case (case mi_userId i of None \<Rightarrow> Some [] | Some u \<Rightarrow> userIdFromAddress E u) of
                 None \<Rightarrow> throw LibError c
               | Some userId \<Rightarrow>
                   if mi_chunkCount i < 0 then throw JsError c
                   else ok (c\<lparr>mec_info := Some
                     \<lparr>mst_spaceId = (case mi_spaceId i of None \<Rightarrow> [] | Some b \<Rightarrow> streamIdFromBytes E b),
                      mst_channelId = (case mi_channelId i of None \<Rightarrow> [] | Some b \<Rightarrow> streamIdFromBytes E b),
                      mst_userId = userId, mst_chunkCount = mi_chunkCount i,
                      mst_chunks = replicate (nat (mi_chunkCount i)) None,
                      mst_perChunkEncryption = (mi_perChunkEncryption i = Some True),
                      mst_perChunkIVs = replicate (nat (mi_chunkCount i)) None\<rparr>\<rparr>) [])"

text \<open>An assignment to an array element, which extends an array that is too short with holes.\<close>

definition store_at :: "nat \<Rightarrow> 'x \<Rightarrow> 'x option list \<Rightarrow> 'x option list" where
  "store_at i x xs =
     (if i < length xs then xs[i := Some x] else xs @ replicate (i - length xs) None @ [Some x])"

definition media_appendEvent :: "StreamTimelineEvent \<Rightarrow> MediaContent \<Rightarrow> (MediaContent, out) res" where
  "media_appendEvent event c =
     (case event_payload event of
        Some (PlMedia content) \<Rightarrow>
          (case mec_info c of
             None \<Rightarrow> ok c []
           | Some info \<Rightarrow>
               (case content of
                  Some (MedChunk chunk) \<Rightarrow>
                    if mc_chunkIndex chunk < 0 \<or> mc_chunkIndex chunk \<ge> mst_chunkCount info
                    then throw JsError c
                    else let i = nat (mc_chunkIndex chunk);
                             info1 = info\<lparr>mst_chunks := store_at i (mc_data chunk) (mst_chunks info)\<rparr>;
                             info2 = (case mc_iv chunk of
                                None \<Rightarrow> info1
                              | Some iv \<Rightarrow> info1\<lparr>mst_perChunkIVs := store_at i iv (mst_perChunkIVs info1)\<rparr>)
                         in ok (c\<lparr>mec_info := Some info2\<rparr>) []
                | _ \<Rightarrow> ok c []))
      | _ \<Rightarrow> throw (throwWithCode None) c)"

definition media_prependEvent :: "StreamTimelineEvent \<Rightarrow> MediaContent \<Rightarrow> (MediaContent, out) res" where
  "media_prependEvent event c = media_appendEvent event c"

subsection \<open>Unknown content\<close>

definition unknown_prependEvent :: "StreamTimelineEvent \<Rightarrow> string \<Rightarrow> (string, out) res" where
  "unknown_prependEvent event streamId = throw JsError streamId"

definition unknown_appendEvent :: "StreamTimelineEvent \<Rightarrow> string \<Rightarrow> (string, out) res" where
  "unknown_appendEvent event streamId = throw JsError streamId"

subsection \<open>Media chunks\<close>

definition event_chunk :: "StreamTimelineEvent \<Rightarrow> (int \<times> bytes) option" where
  "event_chunk e =
     (case event_payload e of
        Some (PlMedia (Some (MedChunk chunk))) \<Rightarrow> Some (mc_chunkIndex chunk, mc_data chunk)
      | _ \<Rightarrow> None)"

definition media_inv :: "MediaContent \<Rightarrow> bool" where
  "media_inv c \<longleftrightarrow> (\<forall>info. mec_info c = Some info \<longrightarrow>
     length (mst_chunks info) = nat (mst_chunkCount info) \<and>
     length (mst_perChunkIVs info) = nat (mst_chunkCount info))"

lemma media_appendEvent_chunks:
  assumes "mec_info c = Some info" "media_inv c"
  shows "\<exists>info'. mec_info (st_of (media_appendEvent e c)) = Some info' \<and>
    media_inv (st_of (media_appendEvent e c)) \<and> mst_chunkCount info' = mst_chunkCount info \<and>
    (\<forall>k < nat (mst_chunkCount info). mst_chunks info' ! k =
      (case event_chunk e of
         Some (i, data) \<Rightarrow> if i = int k then Some data else mst_chunks info ! k
       | None \<Rightarrow> mst_chunks info ! k))"
proof -
  show ?thesis
    using assms unfolding media_appendEvent_def media_inv_def event_chunk_def
    by (auto simp: Let_def nth_list_update store_at_def nat_less_iff
        split: option.split payload.split MediaPayload_content.split)
qed

lemma media_append_all:
  assumes "mec_info c = Some info" "media_inv c"
  shows "\<exists>info'. mec_info (fold (\<lambda>e c. st_of (media_appendEvent e c)) es c) = Some info' \<and>
    length (mst_chunks info') = nat (mst_chunkCount info) \<and> mst_chunkCount info' = mst_chunkCount info \<and>
    (\<forall>k < nat (mst_chunkCount info). mst_chunks info' ! k =
      (case map_of (rev (List.map_filter event_chunk es)) (int k) of
         Some data \<Rightarrow> Some data | None \<Rightarrow> mst_chunks info ! k))"
  using assms
proof (induction es arbitrary: c info)
  case Nil
  then show ?case by (simp add: media_inv_def List.map_filter_def)
next
  case (Cons e es)
  obtain info1 where i1: "mec_info (st_of (media_appendEvent e c)) = Some info1"
    "media_inv (st_of (media_appendEvent e c))" "mst_chunkCount info1 = mst_chunkCount info"
    "\<forall>k < nat (mst_chunkCount info). mst_chunks info1 ! k =
      (case event_chunk e of
         Some (i, data) \<Rightarrow> if i = int k then Some data else mst_chunks info ! k
       | None \<Rightarrow> mst_chunks info ! k)"
    using media_appendEvent_chunks[OF Cons.prems, of e] by blast
  obtain info2 where i2: "mec_info (fold (\<lambda>e c. st_of (media_appendEvent e c)) (e # es) c) = Some info2"
    "length (mst_chunks info2) = nat (mst_chunkCount info)" "mst_chunkCount info2 = mst_chunkCount info"
    "\<forall>k < nat (mst_chunkCount info). mst_chunks info2 ! k =
      (case map_of (rev (List.map_filter event_chunk es)) (int k) of
         Some data \<Rightarrow> Some data | None \<Rightarrow> mst_chunks info1 ! k)"
    using Cons.IH[OF i1(1,2)] i1(3) by auto
  have "mst_chunks info2 ! k = (case map_of (rev (List.map_filter event_chunk (e # es))) (int k) of
         Some data \<Rightarrow> Some data | None \<Rightarrow> mst_chunks info ! k)" if "k < nat (mst_chunkCount info)" for k
    using i2(4)[rule_format, OF that] i1(4)[rule_format, OF that]
    by (cases "event_chunk e") (auto simp: map_filter_simps map_add_def split: option.splits)
  with i2(1-3) show ?case by blast
qed

text \<open>
  C33. Media chunks are assembled by index: after a media snapshot has been accepted, any chunk events
  in any order, out-of-range ones included, leave exactly as many slots as the snapshot announces, and
  each slot holds the data of the last event with its index, or nothing if there was none.
\<close>

theorem media_chunks_assembled:
  assumes "exn_of (media_applySnapshot E inception c0) = None"
    and "c = fold (\<lambda>e c. st_of (media_appendEvent e c)) es (st_of (media_applySnapshot E inception c0))"
  shows "\<exists>i info. inception = Some i \<and> mec_info c = Some info \<and>
    length (mst_chunks info) = nat (mi_chunkCount i) \<and>
    (\<forall>k < nat (mi_chunkCount i).
       mst_chunks info ! k = map_of (rev (List.map_filter event_chunk es)) (int k))"
proof -
  let ?c = "st_of (media_applySnapshot E inception c0)"
  obtain i info where i: "inception = Some i" "mec_info ?c = Some info"
    "mst_chunkCount info = mi_chunkCount i" "mst_chunks info = replicate (nat (mi_chunkCount i)) None"
    "media_inv ?c"
    using assms(1) by (auto simp: media_applySnapshot_def media_inv_def split: option.splits if_splits)
  obtain info' where i': "mec_info c = Some info'" "length (mst_chunks info') = nat (mi_chunkCount i)"
    "\<forall>k < nat (mi_chunkCount i). mst_chunks info' ! k =
      (case map_of (rev (List.map_filter event_chunk es)) (int k) of
         Some data \<Rightarrow> Some data | None \<Rightarrow> mst_chunks info ! k)"
    using media_append_all[OF i(2,5), of es] i(3) by (auto simp: assms(2))
  have "mst_chunks info' ! k = map_of (rev (List.map_filter event_chunk es)) (int k)"
    if "k < nat (mi_chunkCount i)" for k
    using i'(3)[rule_format, OF that] that i(4) by (simp split: option.splits)
  with i(1) i'(1,2) show ?thesis by blast
qed

definition demo_chunk :: "string \<Rightarrow> int \<Rightarrow> bytes \<Rightarrow> StreamTimelineEvent" where
  "demo_chunk h i data = demo_remote h user0
     (PlMedia (Some (MedChunk \<lparr>mc_data = data, mc_chunkIndex = i, mc_iv = None\<rparr>)))"

theorem media_chunks_assembled_witness:
  "\<exists>c info. c = fold (\<lambda>e c. st_of (media_appendEvent e c))
       [demo_chunk ''a'' 1 [9], demo_chunk ''b'' 5 [8], demo_chunk ''c'' 0 [7]]
       (st_of (media_applySnapshot demo_externs (Some \<lparr>mi_streamId = [], mi_channelId = Some [1],
          mi_chunkCount = 2, mi_settings = None, mi_spaceId = None, mi_userId = None,
          mi_perChunkEncryption = None\<rparr>) (new_MediaContent ''s''))) \<and>
     mec_info c = Some info \<and> mst_chunks (info :: MediaInfoState) = [Some [7], Some [9]]"
proof -
  let ?i = "\<lparr>mi_streamId = [], mi_channelId = Some [1], mi_chunkCount = 2, mi_settings = None,
      mi_spaceId = None, mi_userId = None, mi_perChunkEncryption = None\<rparr>"
  let ?es = "[demo_chunk ''a'' 1 [9], demo_chunk ''b'' 5 [8], demo_chunk ''c'' 0 [7]]"
  have ok: "exn_of (media_applySnapshot demo_externs (Some ?i) (new_MediaContent ''s'')) = None"
    by (simp add: media_applySnapshot_def)
  have ch: "List.map_filter event_chunk ?es = [(1, [9]), (5, [8]), (0, [7])]"
    by (simp add: List.map_filter_def event_chunk_def demo_chunk_def)
  obtain info where info: "mec_info (fold (\<lambda>e c. st_of (media_appendEvent e c)) ?es
      (st_of (media_applySnapshot demo_externs (Some ?i) (new_MediaContent ''s'')))) = Some info"
    "length (mst_chunks info) = 2" "\<forall>k < 2. mst_chunks info ! k =
      map_of (rev [(1, [9]), (5, [8]), (0, [7])]) (int k)"
    using media_chunks_assembled[OF ok refl, of ?es] unfolding ch by auto
  have "mst_chunks info = [Some [7], Some [9]]"
    by (rule nth_equalityI) (use info(2,3) in \<open>auto simp: less_2_cases_iff\<close>)
  with info(1) show ?thesis by blast
qed

subsection \<open>Blocked users\<close>

definition event_block ::
  "'a externs_scheme \<Rightarrow> StreamTimelineEvent \<Rightarrow> (string \<times> SnapshotBlock) option" where
  "event_block E e =
     (case event_payload e of
        Some (PlUserSettings (Some (SeUserBlock b))) \<Rightarrow>
          map_option (\<lambda>u. (u, \<lparr>sb_isBlocked = ub_isBlocked b, sb_eventNum = ub_eventNum b\<rparr>))
            (userIdFromAddress E (ub_userId b))
      | _ \<Rightarrow> None)"

definition block_at :: "SnapshotBlock list \<Rightarrow> bool" where
  "block_at bs \<longleftrightarrow> bs \<noteq> [] \<and> sb_isBlocked (last bs)"

lemma fold_block_at:
  "fold (\<lambda>block isBlocked. if P block then sb_isBlocked block else isBlocked) bs d =
   (if filter P bs = [] then d else block_at (filter P bs))"
  by (induction bs arbitrary: d) (auto simp: block_at_def)

lemma block_append:
  assumes "event_block E e = Some (v, b)"
  shows "blocks_of (st_of (settings_appendEvent E se e c)) u =
    (if u = v then blocks_of c u @ [b] else blocks_of c u)"
  using assms
  by (auto simp: event_block_def settings_appendEvent_def userBlockUpdate_def blocks_of_def
      userSettingsStreamModel_def updateUserBlock_def map_get_or_def EMPTY_USER_BLOCKS_def Let_def
      split: option.splits payload.splits UserSettingsPayload_content.splits)

lemma block_append_all:
  assumes "map (event_block E) es = map Some bs"
  shows "blocks_of (fold (\<lambda>e c. st_of (settings_appendEvent E se e c)) es c) u =
    blocks_of c u @ map snd (filter (\<lambda>b. fst b = u) bs)"
  using assms
proof (induction es arbitrary: bs c)
  case Nil
  then show ?case by simp
next
  case (Cons e es)
  then obtain v b bs2 where bs: "bs = (v, b) # bs2" "event_block E e = Some (v, b)"
    "map (event_block E) es = map Some bs2" by (cases bs) auto
  then show ?case by (simp add: Cons.IH[OF bs(3)] block_append[OF bs(2)])
qed

text \<open>Blocking follows the history of block events: after any block and unblock events for any users,
  a user is blocked if the last event about them says so, and was blocked at an event number if the
  last event about them with at most that number says so; a user without such events is not blocked.
\<close>

theorem blocked_users_history:
  assumes "map (event_block E) es = map Some bs"
    and "c = fold (\<lambda>e c. st_of (settings_appendEvent E se e c)) es (new_SettingsContent streamId [])"
  shows "isUserBlocked c u = block_at (map snd (filter (\<lambda>b. fst b = u) bs)) \<and>
    isUserBlockedAt c u n =
      block_at (map snd (filter (\<lambda>b. fst b = u \<and> sb_eventNum (snd b) \<le> n) bs))"
proof -
  have "blocks_of (new_SettingsContent streamId []) u = []"
    by (simp add: blocks_of_def userSettingsStreamModel_def new_SettingsContent_def
        user_settings_get_def record_get_def default_user_settings_def)
  then have b: "blocks_of c u = map snd (filter (\<lambda>b. fst b = u) bs)"
    by (simp add: assms(2) block_append_all[OF assms(1)])
  have "isUserBlocked c u = block_at (blocks_of c u)"
    by (simp add: isUserBlocked_def getLastBlock_def Let_def block_at_def last_conv_nth)
  moreover have "isUserBlockedAt c u n = block_at (filter (\<lambda>x. sb_eventNum x \<le> n) (blocks_of c u))"
    unfolding isUserBlockedAt_def fold_block_at by (simp add: block_at_def)
  ultimately show ?thesis
    by (simp add: b filter_map comp_def conj_commute)
qed

definition demo_block :: "string \<Rightarrow> bool \<Rightarrow> int \<Rightarrow> StreamTimelineEvent" where
  "demo_block h blocked n = demo_remote h user0 (PlUserSettings (Some (SeUserBlock
     \<lparr>ub_userId = replicate 20 1, ub_isBlocked = blocked, ub_eventNum = n\<rparr>)))"

theorem blocked_users_history_witness:
  "\<exists>c. c = fold (\<lambda>e c. st_of (settings_appendEvent demo_externs True e c))
       [demo_block ''a'' True 3, demo_block ''b'' False 7] (new_SettingsContent ''s'' []) \<and>
     \<not> isUserBlocked c user1 \<and> isUserBlockedAt c user1 5 \<and> \<not> isUserBlockedAt c user1 2"
proof -
  have "map (event_block demo_externs) [demo_block ''a'' True 3, demo_block ''b'' False 7] =
      map Some [(user1, \<lparr>sb_isBlocked = True, sb_eventNum = 3\<rparr>), (user1, \<lparr>sb_isBlocked = False, sb_eventNum = 7\<rparr>)]"
    by (simp add: event_block_def demo_block_def)
  from blocked_users_history[OF this refl, of True "''s''" user1 5]
    blocked_users_history[OF this refl, of True "''s''" user1 2]
  show ?thesis by (simp add: block_at_def)
qed

subsection \<open>Concurrent decryption of the profile image\<close>

record profile_world =
  pw_content :: MetadataContent
  pw_running :: "EncryptedData list"
  pw_delivered :: "EncryptedData list"

inductive profile_step :: "'a content_externs_scheme \<Rightarrow> profile_world \<Rightarrow> profile_world \<Rightarrow> bool"
  for E :: "'a content_externs_scheme"
where
  prof_deliver: "event_payload e = Some (PlUserMetadata (Some (MdProfileImage d))) \<Longrightarrow>
    profile_step E w (w\<lparr>pw_content := st_of (metadata_appendEvent ee se e (pw_content w)),
      pw_delivered := pw_delivered w @ [d]\<rparr>)"
| prof_request: "getProfileImage E (pw_content w) = (c, r) \<Longrightarrow>
    profile_step E w (w\<lparr>pw_content := c,
      pw_running := pw_running w @ (case r of MdStarted d \<Rightarrow> [d] | _ \<Rightarrow> [])\<rparr>)"
| prof_settle: "d \<in> set (pw_running w) \<Longrightarrow>
    profile_step E w (w\<lparr>pw_content := profileImage_settled E d (pw_content w),
      pw_running := remove1 d (pw_running w)\<rparr>)"

lemma profile_deliver:
  "profile_step E w (w\<lparr>pw_content := (pw_content w)\<lparr>mdc_encryptedProfileImage := Some d\<rparr>,
     pw_delivered := pw_delivered w @ [d]\<rparr>)"
  using prof_deliver[of "demo_remote [] [] (PlUserMetadata (Some (MdProfileImage d)))" d E w]
  by (simp add: metadata_appendEvent_def addProfileImage_def)

text \<open>Unlike the image of a space, a profile image can go stale: for any user stream and any two
  different images there is an interleaving in which both image events have arrived, no decryption is
  running, nothing is waiting to be decrypted, and a request is answered at once with the older image.
\<close>

theorem profile_image_can_be_stale:
  assumes c: "new_MetadataContent E streamId = Inr c"
    and d1: "metadata_decrypt E streamId (x_chunkedMedia_fromBinary E) d1 = Some i1"
    and d2: "metadata_decrypt E streamId (x_chunkedMedia_fromBinary E) d2 = Some i2"
    and ne: "d1 \<noteq> d2"
  shows "\<exists>w. (profile_step E)\<^sup>*\<^sup>* \<lparr>pw_content = c, pw_running = [], pw_delivered = []\<rparr> w \<and>
    pw_delivered w = [d1, d2] \<and> pw_running w = [] \<and> mdc_encryptedProfileImage (pw_content w) = None \<and>
    snd (getProfileImage E (pw_content w)) = MdReady (Some i1)"
proof -
  obtain u where u: "getUserIdFromStreamId E streamId = Inr u"
    using c by (auto simp: new_MetadataContent_def bindE_Inr_iff)
  let ?W = "\<lambda>enc prog img run ds. \<lparr>pw_content = \<lparr>mdc_streamId = streamId, mdc_streamCreatorId = u,
      mdc_profileImage = img, mdc_encryptedProfileImage = enc, mdc_bio = None, mdc_encryptedBio = None,
      mdc_bioInProgress = None, mdc_imageInProgress = prog, mdc_deviceKeys = []\<rparr>,
      pw_running = run, pw_delivered = ds\<rparr>"
  have w0: "\<lparr>pw_content = c, pw_running = [], pw_delivered = []\<rparr> = ?W None None None [] []"
    using c by (simp add: new_MetadataContent_def u)
  let ?start = "?W None None None [] []"
  note step = rtranclp.rtrancl_into_rtrancl[of "profile_step E" ?start]
  have 1: "(profile_step E)\<^sup>*\<^sup>* ?start (?W (Some d1) None None [] [d1])"
    using step[OF rtranclp.rtrancl_refl profile_deliver[of E _ d1]] by simp
  have 2: "(profile_step E)\<^sup>*\<^sup>* ?start (?W None (Some d1) None [d1] [d1])"
    using step[OF 1 prof_request] by (simp add: getProfileImage_def u)
  have 3: "(profile_step E)\<^sup>*\<^sup>* ?start (?W (Some d2) (Some d1) None [d1] [d1, d2])"
    using step[OF 2 profile_deliver[of E _ d2]] by simp
  have 4: "(profile_step E)\<^sup>*\<^sup>* ?start (?W None (Some d2) None [d1, d2] [d1, d2])"
    using step[OF 3 prof_request] by (simp add: getProfileImage_def u)
  have 5: "(profile_step E)\<^sup>*\<^sup>* ?start (?W None None (Some i2) [d1] [d1, d2])"
    using step[OF 4 prof_settle[of d2]] ne by (simp add: profileImage_settled_def u d2)
  have 6: "(profile_step E)\<^sup>*\<^sup>* ?start (?W None None (Some i1) [] [d1, d2])"
    using step[OF 5 prof_settle[of d1]] by (simp add: profileImage_settled_def u d1)
  show ?thesis unfolding w0
    by (rule exI[of _ "?W None None (Some i1) [] [d1, d2]"]) (use 6 in \<open>simp add: getProfileImage_def\<close>)
qed

definition demo_user_id :: string where
  "demo_user_id = ''ad'' @ replicate 62 (CHR ''0'')"

lemma demo_user_stream:
  "getUserIdFromStreamId demo_contents demo_user_id = Inr user0"
proof -
  have a: "addressFromUserId demo_contents = addressFromUserId plain_externs"
    "userIdFromAddress demo_contents = userIdFromAddress plain_externs"
    by (rule ext, simp add: addressFromUserId_def userIdFromAddress_def bin_toHexString_def
        demo_contents_def sign_externs.defs content_externs.defs demo_externs_def cong: option.case_cong)+
  have same: "getUserIdFromStreamId demo_contents s = getUserIdFromStreamId plain_externs s" for s
    unfolding getUserIdFromStreamId_def getUserAddressFromStreamId_def a ..
  have "getUserIdFromStreamId plain_externs demo_user_id = Inr user0" by code_simp
  then show ?thesis by (simp add: same)
qed

theorem profile_image_can_be_stale_witness:
  "\<exists>c w. new_MetadataContent demo_contents demo_user_id = Inr c \<and>
    (profile_step demo_contents)\<^sup>*\<^sup>* \<lparr>pw_content = c, pw_running = [], pw_delivered = []\<rparr> w \<and>
    pw_delivered w = [demo_image 1, demo_image 2] \<and> pw_running w = [] \<and>
    map_option ck_aesgcm (case snd (getProfileImage demo_contents (pw_content w)) of
      MdReady i \<Rightarrow> i | _ \<Rightarrow> None) = Some (Some ([1], []))"
proof -
  obtain c where c: "new_MetadataContent demo_contents demo_user_id = Inr c"
    by (simp add: new_MetadataContent_def demo_user_stream)
  have d: "metadata_decrypt demo_contents demo_user_id (x_chunkedMedia_fromBinary demo_contents) (demo_image b) =
      Some \<lparr>ck_info = None, ck_streamId = [], ck_thumbnail = None, ck_aesgcm = Some ([b], [])\<rparr>" for b
    by (simp add: metadata_decrypt_def demo_user_stream demo_image_def)
  have ne: "demo_image 1 \<noteq> demo_image 2" by (simp add: demo_image_def demo_data_def)
  from profile_image_can_be_stale[OF c d d ne] c show ?thesis by fastforce
qed

subsection \<open>Device summaries\<close>

definition inbox_inv :: "InboxContent \<Rightarrow> bool" where
  "inbox_inv c \<longleftrightarrow>
     (\<forall>k s. map_get (ic_deviceSummary c) k = Some s \<longrightarrow> ds_lowerBound s \<le> ds_upperBound s)"

lemma updateDeviceSummary_inv: "inbox_inv c \<Longrightarrow> inbox_inv (st_of (updateDeviceSummary ack em c))"
  by (auto simp: updateDeviceSummary_def inbox_inv_def Let_def split: option.split)

interpretation inb: component inbox_inv "\<lambda>(ee, se, event). inbox_appendEvent ee se event"
proof unfold_locales
  fix c and x :: "bool \<times> bool \<times> StreamTimelineEvent"
  show "inbox_inv c \<Longrightarrow> inbox_inv (st_of ((case x of (ee, se, event) \<Rightarrow> inbox_appendEvent ee se event) c))"
    by (cases x) (auto simp: inbox_appendEvent_def addGroupSessions_def updateDeviceSummary_inv
        split: option.split payload.split UserInboxPayload_content.split)
qed

text \<open>After an acknowledgement the summary covers nothing at or before the acknowledged miniblock.\<close>

lemma ack_clears:
  "map_get (ic_deviceSummary (st_of (updateDeviceSummary ack em c))) (ack_deviceKey ack) = Some s \<Longrightarrow>
   ds_lowerBound s = ack_miniblockNum ack + 1 \<and> ack_miniblockNum ack < ds_upperBound s"
  by (auto simp: updateDeviceSummary_def Let_def split: option.splits if_splits)

end
