(* ===== verification/Migrations.thy ===== *)
theory Migrations
  imports StreamIds Protocol
begin

section \<open>Snapshot migrations\<close>

text \<open>
  \<open>packages/sdk/src/migrations\<close>: the five migrations and \<open>migrateSnapshot\<close>. The code mutates the
  snapshot it is given; the model returns the changed one. The log message of the last migration is
  not modelled.
\<close>

subsection \<open>The migrations\<close>

definition snapshotMigration0000 :: "snapshot \<Rightarrow> snapshot" where
  "snapshotMigration0000 s = s"

text \<open>The loop of \<open>compactFunc\<close> works in place: it reads the element before \<open>i\<close> from the array it
  writes to at \<open>j\<close>.\<close>

function compact_loop ::
  "'a externs_scheme \<Rightarrow> ('t \<Rightarrow> bytes) \<Rightarrow> 't list \<Rightarrow> nat \<Rightarrow> nat \<Rightarrow> 't list \<times> nat" where
  "compact_loop E keyFn elements i j =
     (if i < length elements
      then let key2 = keyFn (elements ! i); key1 = keyFn (elements ! (i - 1))
           in if \<not> bin_equal E (Some key2) (Some key1)
              then compact_loop E keyFn (elements[j := elements ! i]) (i + 1) (j + 1)
              else compact_loop E keyFn elements (i + 1) j
      else (elements, j))"
  by pat_completeness auto
termination by (relation "measure (\<lambda>(E, keyFn, elements, i, j). length elements - i)") auto

declare compact_loop.simps [simp del]

definition compactFunc :: "'a externs_scheme \<Rightarrow> ('t \<Rightarrow> bytes) \<Rightarrow> 't list \<Rightarrow> 't list" where
  "compactFunc E keyFn elements =
     (if length elements = 0 then elements
      else case compact_loop E keyFn elements 1 1 of (es, j) \<Rightarrow> take j es)"

definition map_joined :: "(SnapshotMember list \<Rightarrow> SnapshotMember list) \<Rightarrow> snapshot \<Rightarrow> snapshot" where
  "map_joined f s =
     Snapshot (map_option (\<lambda>m. MembersSnapshot (f (mss_joined m)) (mss_pins m)
         (mss_encryptionAlgorithm m) (mss_tips m) (mss_tipsCount m)) (sn_members s))
       (sn_snapshotVersion s) (sn_content s)"

definition map_content :: "(snapshot_content \<Rightarrow> snapshot_content) \<Rightarrow> snapshot \<Rightarrow> snapshot" where
  "map_content f s = Snapshot (sn_members s) (sn_snapshotVersion s) (map_option f (sn_content s))"

definition snapshotMigration0001 :: "'a externs_scheme \<Rightarrow> snapshot \<Rightarrow> snapshot" where
  "snapshotMigration0001 E s =
     map_content (\<lambda>content.
       case content of
         ScSpace c \<Rightarrow> ScSpace (c\<lparr>sps_channels := compactFunc E cm_channelId (sps_channels c)\<rparr>)
       | ScUser c \<Rightarrow> ScUser (c\<lparr>us_memberships := compactFunc E um_streamId (us_memberships c)\<rparr>)
       | ScUserSettings c \<Rightarrow>
           ScUserSettings (c\<lparr>ses_fullyReadMarkers := compactFunc E frm_streamId (ses_fullyReadMarkers c)\<rparr>)
       | c \<Rightarrow> c)
     (map_joined (compactFunc E sm_userAddress) s)"

definition migrate_channel :: "'a externs_scheme \<Rightarrow> ChannelMetadata \<Rightarrow> ChannelMetadata" where
  "migrate_channel E c =
     (let settings = (case cm_settings c of
            None \<Rightarrow> \<lparr>cs_autojoin = False, cs_hideUserJoinLeaveEvents = False\<rparr>
          | Some s \<Rightarrow> s)
      in c\<lparr>cm_settings := Some
           (if isDefaultChannelId (streamIdFromBytes E (cm_channelId c))
            then settings\<lparr>cs_autojoin := True\<rparr> else settings)\<rparr>)"

definition snapshotMigration0002 :: "'a externs_scheme \<Rightarrow> snapshot \<Rightarrow> snapshot" where
  "snapshotMigration0002 E s =
     map_content (\<lambda>content.
       case content of
         ScSpace c \<Rightarrow> ScSpace (c\<lparr>sps_channels := map (migrate_channel E) (sps_channels c)\<rparr>)
       | c \<Rightarrow> c) s"

definition snapshotMigration0003 :: "snapshot \<Rightarrow> snapshot" where
  "snapshotMigration0003 s =
     map_content (\<lambda>content.
       case content of
         ScUser c \<Rightarrow> ScUser (c\<lparr>us_tipsSent := [], us_tipsReceived := [], us_tipsSentCount := [],
           us_tipsReceivedCount := []\<rparr>)
       | c \<Rightarrow> c) s"

text \<open>\<open>sessionIdCounts\<close>: in how many members a session id occurs.\<close>

definition count_id ::
  "string \<Rightarrow> string jsset \<times> (string, nat) jsmap \<Rightarrow> string jsset \<times> (string, nat) jsmap" where
  "count_id sessionId p =
     (case p of (processedIds, counts) \<Rightarrow>
        if sessionId \<in> set processedIds then (processedIds, counts)
        else (set_add sessionId processedIds,
              map_set sessionId (map_get_or counts sessionId 0 + 1) counts))"

definition count_member :: "SnapshotMember \<Rightarrow> (string, nat) jsmap \<Rightarrow> (string, nat) jsmap" where
  "count_member m counts =
     snd (fold (\<lambda>s. fold count_id (ks_sessionIds s)) (sm_solicitations m) ([], counts))"

text \<open>\<open>count > Math.max(memberCount / 4, 2)\<close>, without the fraction.\<close>

definition above_threshold :: "nat \<Rightarrow> nat \<Rightarrow> bool" where
  "above_threshold memberCount c \<longleftrightarrow> 4 * c > memberCount \<and> c > 2"

definition lostSessionIds :: "SnapshotMember list \<Rightarrow> string list" where
  "lostSessionIds members =
     sort (map fst (filter (\<lambda>(_, c). above_threshold (length members) c)
       (fold count_member members [])))"

definition name_lost :: "'a externs_scheme \<Rightarrow> string list \<Rightarrow> WrappedEncryptedData option \<Rightarrow> bool" where
  "name_lost E lost name =
     (case Option.bind name we_data of
        None \<Rightarrow> False
      | Some d \<Rightarrow>
          (ed_sessionId d \<noteq> [] \<and> ed_sessionId d \<in> set lost) \<or>
          (length (ed_sessionIdBytes d) > 0 \<and> bin_toHexString E (ed_sessionIdBytes d) \<in> set lost))"

definition clear_lost :: "'a externs_scheme \<Rightarrow> string list \<Rightarrow> SnapshotMember \<Rightarrow> SnapshotMember" where
  "clear_lost E lost m =
     m\<lparr>sm_solicitations := map (\<lambda>s. s\<lparr>ks_sessionIds := removeCommon (ks_sessionIds s) lost\<rparr>)
          (sm_solicitations m),
       sm_displayName := (if name_lost E lost (sm_displayName m) then None else sm_displayName m),
       sm_username := (if name_lost E lost (sm_username m) then None else sm_username m)\<rparr>"

definition snapshotMigration0004 :: "'a externs_scheme \<Rightarrow> snapshot \<Rightarrow> bool \<Rightarrow> snapshot" where
  "snapshotMigration0004 E s force =
     (case sn_members s of
        None \<Rightarrow> s
      | Some ms \<Rightarrow>
          if length (mss_joined ms) = 0 \<or> (length (mss_joined ms) < 500 \<and> \<not> force) then s
          else let lost = lostSessionIds (mss_joined ms)
               in if length lost = 0 then s else map_joined (map (clear_lost E lost)) s)"

subsection \<open>migrateSnapshot\<close>

definition SNAPSHOT_MIGRATIONS :: "'a externs_scheme \<Rightarrow> (snapshot \<Rightarrow> snapshot) list" where
  "SNAPSHOT_MIGRATIONS E = [snapshotMigration0000, snapshotMigration0001 E, snapshotMigration0002 E,
     snapshotMigration0003, \<lambda>s. snapshotMigration0004 E s False]"

definition set_version :: "int \<Rightarrow> snapshot \<Rightarrow> snapshot" where
  "set_version v s = Snapshot (sn_members s) v (sn_content s)"

text \<open>The loop from the version of the snapshot: a negative index reads \<open>undefined\<close>, and calling it is
  a \<open>TypeError\<close>.\<close>

definition migrateSnapshot :: "'a externs_scheme \<Rightarrow> snapshot \<Rightarrow> exn + snapshot" where
  "migrateSnapshot E s =
     (let currentVersion = int (length (SNAPSHOT_MIGRATIONS E))
      in if sn_snapshotVersion s \<ge> currentVersion then Inr s
         else if sn_snapshotVersion s < 0 then Inl JsError
         else Inr (set_version currentVersion
           (fold (\<lambda>f. f) (drop (nat (sn_snapshotVersion s)) (SNAPSHOT_MIGRATIONS E)) s)))"

subsection \<open>Removing duplicates\<close>

text \<open>The reference: the first element of every run of elements with equal keys.\<close>

fun dedup_adj :: "('t \<Rightarrow> 'k) \<Rightarrow> 't list \<Rightarrow> 't list" where
  "dedup_adj f [] = []"
| "dedup_adj f [x] = [x]"
| "dedup_adj f (x # y # zs) =
     (if f x = f y then dedup_adj f (x # zs) else x # dedup_adj f (y # zs))"

lemma dedup_adj_snoc:
  "xs \<noteq> [] \<Longrightarrow> dedup_adj f (xs @ [y]) =
     (if f (last xs) = f y then dedup_adj f xs else dedup_adj f xs @ [y])"
proof (induction f xs rule: dedup_adj.induct)
  case (3 f x z zs)
  then show ?case by (cases zs) auto
qed auto

lemma map_dedup_adj: "map f (dedup_adj f xs) = remdups_adj (map f xs)"
  by (induction f xs rule: dedup_adj.induct) auto

lemma compact_loop_inv:
  assumes "bytes_equality E" "1 \<le> j" "j \<le> i" "i \<le> length xs" "length es = length xs"
    and "take j es = dedup_adj f (take i xs)" "drop (i - 1) es = drop (i - 1) xs"
  shows "case compact_loop E f es i j of (es', j') \<Rightarrow> take j' es' = dedup_adj f xs"
  using assms
proof (induction E f es i j rule: compact_loop.induct)
  case (1 E f es i j)
  have nth: "es ! k = xs ! k" if "i - 1 \<le> k" "k < length xs" for k
  proof -
    have "drop (i - 1) es ! (k - (i - 1)) = drop (i - 1) xs ! (k - (i - 1))" using 1(9) by simp
    then show ?thesis using that 1(7) by simp
  qed
  show ?case
  proof (cases "i < length es")
    case False
    then have "i = length xs" using 1(6,7) by simp
    then show ?thesis using 1(8) False unfolding compact_loop.simps[of E f es i j] by simp
  next
    case True
    let ?keep = "f (es ! i) \<noteq> f (es ! (i - 1))"
    have eq: "bin_equal E (Some (f (es ! i))) (Some (f (es ! (i - 1)))) = (\<not> ?keep)"
      using 1(3) by (simp add: bin_equal_def bytes_equality_def)
    have ne: "take i xs \<noteq> []" using True 1(4,5,7) by (cases xs) auto
    have "last (take i xs) = xs ! (i - 1)"
      using True 1(4,5,7) by (simp add: last_conv_nth[OF ne] min_def)
    with ne have i: "es ! i = xs ! i" "es ! (i - 1) = xs ! (i - 1)" "last (take i xs) = xs ! (i - 1)"
      "take i xs \<noteq> []" "take (Suc i) xs = take i xs @ [xs ! i]"
      using True nth 1(4,5,7) by (auto simp: take_Suc_conv_app_nth)
    show ?thesis
    proof (cases ?keep)
      case keep: True
      have "take (Suc j) (es[j := es ! i]) = dedup_adj f (take (Suc i) xs)"
        using True 1(5) keep[unfolded i(1,2)] i(3)
        by (simp add: take_Suc_conv_app_nth 1(8) i(1,5) dedup_adj_snoc[OF i(4)])
      moreover have "drop i (es[j := es ! i]) = drop i xs"
      proof (rule nth_equalityI)
        fix k assume "k < length (drop i (es[j := es ! i]))"
        then show "drop i (es[j := es ! i]) ! k = drop i xs ! k"
          using 1(4,5,7) nth[of "i + k"] by (cases "j = i + k") (auto simp: nth_list_update)
      qed (simp add: 1(7))
      ultimately show ?thesis
        using 1(1)[OF True refl refl _ 1(3)] True keep eq 1(4-7)
        by (simp add: compact_loop.simps[of E f es i j] Let_def)
    next
      case drop: False
      have "take j es = dedup_adj f (take (Suc i) xs)"
        using drop[unfolded i(1,2)] i(3) by (simp add: 1(8) i(5) dedup_adj_snoc[OF i(4)])
      moreover have "drop i es = drop i xs"
        using 1(9) drop_drop[of 1 "i - 1"] 1(4,5) by (metis One_nat_def Suc_pred le_trans less_eq_Suc_le plus_1_eq_Suc)
      ultimately show ?thesis
        using 1(2)[OF True refl refl _ 1(3)] True drop eq 1(4-7)
        by (simp add: compact_loop.simps[of E f es i j] Let_def)
    qed
  qed
qed

text \<open>
  C31. The in-place \<open>compactFunc\<close> of the first migration computes what it is for: it returns the first
  element of every run of elements with equal keys, although it overwrites the list it reads from.
  So the keys of its result are those of the list without adjacent repetitions.
\<close>

theorem compactFunc_dedup:
  assumes "bytes_equality E"
  shows "compactFunc E keyFn xs = dedup_adj keyFn xs \<and>
    map keyFn (compactFunc E keyFn xs) = remdups_adj (map keyFn xs)"
proof -
  have "compactFunc E keyFn xs = dedup_adj keyFn xs"
  proof (cases xs)
    case (Cons x ys)
    then show ?thesis
      using compact_loop_inv[OF assms, of 1 1 xs xs keyFn] by (auto simp: compactFunc_def split: prod.splits)
  qed (simp add: compactFunc_def)
  then show ?thesis by (simp add: map_dedup_adj)
qed

theorem compactFunc_dedup_witness:
  "compactFunc plain_externs fst [([1], 10), ([1], 20), ([2], 30), ([1], 40)] =
     [([1], 10), ([2], 30), ([1], 40::nat)]"
  using compactFunc_dedup[OF plain_externs_laws(3), of fst "[([1], 10), ([1], 20), ([2], 30), ([1], 40::nat)]"]
  by simp

subsection \<open>Versions\<close>

lemma version_kept [simp]:
  "sn_snapshotVersion (map_joined f s) = sn_snapshotVersion s"
  "sn_snapshotVersion (map_content g s) = sn_snapshotVersion s"
  "sn_snapshotVersion (set_version v s) = v"
  by (simp_all add: map_joined_def map_content_def set_version_def)

text \<open>\<open>migrateSnapshot\<close> brings every snapshot of a known version to the current version, and a
  migrated snapshot is left alone: migrating again changes nothing, and so does migrating a snapshot of
  a later version.
\<close>

theorem migrateSnapshot_idempotent:
  assumes "0 \<le> sn_snapshotVersion s"
  shows "\<exists>s'. migrateSnapshot E s = Inr s' \<and>
    sn_snapshotVersion s' = max 5 (sn_snapshotVersion s) \<and> migrateSnapshot E s' = Inr s'"
  using assms by (auto simp: migrateSnapshot_def SNAPSHOT_MIGRATIONS_def Let_def)

theorem migrateSnapshot_idempotent_witness:
  "\<exists>s'. migrateSnapshot plain_externs (Snapshot None 2 None) = Inr s' \<and> sn_snapshotVersion s' = 5 \<and>
     migrateSnapshot plain_externs s' = Inr s'"
  using migrateSnapshot_idempotent[of "Snapshot None 2 None" plain_externs] by simp

subsection \<open>Lost session ids\<close>

definition member_ids :: "SnapshotMember \<Rightarrow> string set" where
  "member_ids m = (\<Union>s \<in> set (sm_solicitations m). set (ks_sessionIds s))"

lemma count_ids:
  "fst (fold count_id ids (p, counts)) = fold set_add ids p \<and>
   map_get_or (snd (fold count_id ids (p, counts))) x 0 =
     map_get_or counts x 0 + (if x \<in> set ids \<and> x \<notin> set p then 1 else 0)"
proof (induction ids arbitrary: p counts)
  case Nil
  then show ?case by simp
next
  case (Cons i ids)
  show ?case
  proof (cases "i \<in> set p")
    case True
    then have "set_add i p = p" by (simp add: set_add_def)
    then show ?thesis using Cons[of p counts] True by (auto simp: count_id_def)
  next
    case False
    then show ?thesis
      using Cons[of "set_add i p" "map_set i (map_get_or counts i 0 + 1) counts"]
      by (auto simp: count_id_def)
  qed
qed

lemma count_solicitations:
  "set (fst (fold (\<lambda>s. fold count_id (ks_sessionIds s)) ss (p, counts))) =
     set p \<union> (\<Union>s \<in> set ss. set (ks_sessionIds s)) \<and>
   map_get_or (snd (fold (\<lambda>s. fold count_id (ks_sessionIds s)) ss (p, counts))) x 0 =
     map_get_or counts x 0 + (if x \<in> (\<Union>s \<in> set ss. set (ks_sessionIds s)) \<and> x \<notin> set p then 1 else 0)"
proof (induction ss arbitrary: p counts)
  case Nil
  then show ?case by simp
next
  case (Cons s ss)
  obtain p1 c1 where f: "fold count_id (ks_sessionIds s) (p, counts) = (p1, c1)" by fastforce
  have p1: "set p1 = set p \<union> set (ks_sessionIds s)"
    using count_ids[of "ks_sessionIds s" p counts x] f by (simp add: set_fold_set_add)
  have c1: "map_get_or c1 x 0 = map_get_or counts x 0 +
      (if x \<in> set (ks_sessionIds s) \<and> x \<notin> set p then 1 else 0)"
    using count_ids[of "ks_sessionIds s" p counts x] f by simp
  show ?case using Cons[of p1 c1] by (auto simp: f p1 c1)
qed

lemma count_members:
  "map_get_or (fold count_member ms counts) x 0 =
     map_get_or counts x 0 + length (filter (\<lambda>m. x \<in> member_ids m) ms)"
proof (induction ms arbitrary: counts)
  case Nil
  then show ?case by simp
next
  case (Cons m ms)
  then show ?case
    using count_solicitations[of "sm_solicitations m" "[]" counts x]
    by (simp add: count_member_def member_ids_def)
qed

lemma distinct_counts:
  "distinct (map fst counts) \<Longrightarrow> distinct (map fst (fold count_member ms counts))"
proof (induction ms arbitrary: counts)
  case (Cons m ms)
  have ids: "distinct (map fst (snd p)) \<Longrightarrow> distinct (map fst (snd (fold count_id ids p)))" for ids p
    by (induction ids arbitrary: p) (auto simp: count_id_def split: prod.split)
  have fold: "distinct (map fst (snd p)) \<Longrightarrow>
      distinct (map fst (snd (fold (\<lambda>s. fold count_id (ks_sessionIds s)) ss p)))" for ss p
    by (induction ss arbitrary: p) (auto simp: ids)
  have "distinct (map fst (count_member m counts))"
    unfolding count_member_def by (rule fold) (use Cons.prems in simp)
  then show ?case using Cons.IH by simp
qed simp

text \<open>A session id is lost if more than a quarter of the members, and more than two, solicit it.\<close>

lemma lostSessionIds_iff:
  "x \<in> set (lostSessionIds ms) \<longleftrightarrow>
     above_threshold (length ms) (length (filter (\<lambda>m. x \<in> member_ids m) ms))"
proof -
  let ?c = "fold count_member ms []"
  have d: "distinct (map fst ?c)" by (rule distinct_counts) simp
  have n: "map_get_or ?c x 0 = length (filter (\<lambda>m. x \<in> member_ids m) ms)"
    unfolding count_members by (simp add: map_get_or_def)
  have "x \<in> set (lostSessionIds ms) \<longleftrightarrow> (\<exists>k. map_get ?c x = Some k \<and> above_threshold (length ms) k)"
    using map_of_eq_Some_iff[OF d] by (force simp: lostSessionIds_def)
  also have "\<dots> \<longleftrightarrow> above_threshold (length ms) (map_get_or ?c x 0)"
    by (auto simp: map_get_or_def above_threshold_def split: option.split)
  finally show ?thesis using n by simp
qed

lemma clear_lost_ids:
  assumes "s \<in> set (sm_solicitations m)" "sorted (ks_sessionIds s)" "distinct (ks_sessionIds s)"
  shows "set (removeCommon (ks_sessionIds s) (lostSessionIds ms)) =
    {x \<in> set (ks_sessionIds s). \<not> above_threshold (length ms) (length (filter (\<lambda>m. x \<in> member_ids m) ms))}"
  using set_removeCommon[OF assms(2) _ assms(3), of "lostSessionIds ms"] lostSessionIds_iff
  by (auto simp: lostSessionIds_def)

end
