(* ===== verification/StreamView.thy ===== *)
theory StreamView
  imports UserContents Migrations
begin

section \<open>The view of a stream\<close>

text \<open>
  \<open>packages/sdk/src/streamStateView.ts\<close>, the class \<open>StreamStateView\<close>, and the part of
  \<open>packages/sdk/src/stream.ts\<close> that replaces a view by a new one.

  A stream view owns one content (the class is chosen by the prefix of the stream id), the members,
  and the minipool: the events that no miniblock has confirmed yet. Timeline events are objects that
  the minipool and the lists handed to the timelines share, and that are changed in place (a local
  event gets its remote event, an event its miniblock number), so the model keeps them in the store
  \<open>sv_heap\<close> and passes indices into it.

  The calls of \<open>streamsView.timelinesView\<close> are outputs of the view, like the events it emits; they
  carry the events as they are at the time of the call.
\<close>

subsection \<open>Contents\<close>

datatype content =
    CSpace SpaceContent
  | CChannel ChannelContent
  | CDmChannel DmContent
  | CGdmChannel GdmContent
  | CMedia MediaContent
  | CUser UserContent
  | CUserSettings SettingsContent
  | CUserMetadata MetadataContent
  | CUserInbox InboxContent

definition contentKind :: "content \<Rightarrow> string" where
  "contentKind c =
     (case c of
        CSpace _ \<Rightarrow> ''spaceContent''
      | CChannel _ \<Rightarrow> ''channelContent''
      | CDmChannel _ \<Rightarrow> ''dmChannelContent''
      | CGdmChannel _ \<Rightarrow> ''gdmChannelContent''
      | CMedia _ \<Rightarrow> ''mediaContent''
      | CUser _ \<Rightarrow> ''userContent''
      | CUserSettings _ \<Rightarrow> ''userSettingsContent''
      | CUserMetadata _ \<Rightarrow> ''userMetadataContent''
      | CUserInbox _ \<Rightarrow> ''userInboxContent'')"

text \<open>The part of \<open>StreamsView\<close> that stream views write to.\<close>

record StreamsViews =
  vw_spaceStreams :: SpaceStreamsView
  vw_dmStreams :: DmStreamsView
  vw_gdmStreams :: GdmStreamsView
  vw_userStreams :: UserStreamsView
  vw_userSettingsStreams :: UserSettingsStreamsView
  vw_streamMemberIds :: StreamMemberIdsView
  vw_streamStatus :: StreamStatus

definition new_content :: "'a externs_scheme \<Rightarrow> string \<Rightarrow> StreamsViews \<Rightarrow> exn + content" where
  "new_content E streamId views =
     (if isSpaceStreamId E (Str streamId) then Inr (CSpace (new_SpaceContent streamId (vw_spaceStreams views)))
      else if isChannelStreamId E (Str streamId) then Inr (CChannel (new_ChannelContent streamId))
      else if isDMChannelStreamId E (Str streamId)
      then Inr (CDmChannel (new_DmContent streamId (vw_dmStreams views)))
      else if isGDMChannelStreamId E (Str streamId)
      then Inr (CGdmChannel (new_GdmContent streamId (vw_gdmStreams views)))
      else if isMediaStreamId E (Str streamId) then Inr (CMedia (new_MediaContent streamId))
      else if isUserStreamId E (Str streamId)
      then Inr (CUser (new_UserContent streamId (vw_userStreams views)))
      else if isUserSettingsStreamId E (Str streamId)
      then Inr (CUserSettings (new_SettingsContent streamId (vw_userSettingsStreams views)))
      else if isUserDeviceStreamId E (Str streamId)
      then bindE (new_MetadataContent E streamId) (\<lambda>c. Inr (CUserMetadata c))
      else if isUserInboxStreamId E (Str streamId) then Inr (CUserInbox (new_InboxContent streamId))
      else if isMetadataStreamId E (Str streamId) then Inl (throwWithCode (Some UNIMPLEMENTED))
      else Inl JsError)"

text \<open>\<open>getContent()\<close> followed by a method of the content, by dynamic dispatch.\<close>

definition content_appendEvent ::
  "'a protocol_externs_scheme \<Rightarrow> cleartext option \<Rightarrow> bool \<Rightarrow> bool \<Rightarrow> StreamTimelineEvent \<Rightarrow> content \<Rightarrow>
   (content \<times> StreamTimelineEvent, out) res" where
  "content_appendEvent E ct encryptionEmitter stateEmitter event content =
     (case content of
        CSpace c \<Rightarrow> map_res (map_prod CSpace id) (space_appendEvent E stateEmitter event c)
      | CChannel c \<Rightarrow> map_res (map_prod CChannel id) (channel_appendEvent E ct encryptionEmitter event c)
      | CDmChannel c \<Rightarrow>
          map_res (map_prod CDmChannel id) (dm_appendEvent E ct encryptionEmitter stateEmitter event c)
      | CGdmChannel c \<Rightarrow>
          map_res (map_prod CGdmChannel id) (gdm_appendEvent E ct encryptionEmitter stateEmitter event c)
      | CMedia c \<Rightarrow> with_event (map_res CMedia (media_appendEvent event c)) event
      | CUser c \<Rightarrow> with_event (map_res CUser (user_appendEvent E stateEmitter event c)) event
      | CUserSettings c \<Rightarrow>
          with_event (map_res CUserSettings (settings_appendEvent E stateEmitter event c)) event
      | CUserMetadata c \<Rightarrow>
          with_event (map_res CUserMetadata (metadata_appendEvent encryptionEmitter stateEmitter event c))
            event
      | CUserInbox c \<Rightarrow>
          with_event (map_res CUserInbox (inbox_appendEvent encryptionEmitter stateEmitter event c)) event)"

definition content_prependEvent ::
  "'a protocol_externs_scheme \<Rightarrow> cleartext option \<Rightarrow> bool \<Rightarrow> StreamTimelineEvent \<Rightarrow> content \<Rightarrow>
   (content \<times> StreamTimelineEvent, out) res" where
  "content_prependEvent E ct encryptionEmitter event content =
     (case content of
        CSpace c \<Rightarrow> map_res (map_prod CSpace id) (space_prependEvent event c)
      | CChannel c \<Rightarrow> map_res (map_prod CChannel id) (channel_prependEvent E ct encryptionEmitter event c)
      | CDmChannel c \<Rightarrow> map_res (map_prod CDmChannel id) (dm_prependEvent E ct encryptionEmitter event c)
      | CGdmChannel c \<Rightarrow>
          map_res (map_prod CGdmChannel id) (gdm_prependEvent E ct encryptionEmitter event c)
      | CMedia c \<Rightarrow> with_event (map_res CMedia (media_prependEvent event c)) event
      | CUser c \<Rightarrow> with_event (map_res CUser (user_prependEvent event c)) event
      | CUserSettings c \<Rightarrow> with_event (map_res CUserSettings (settings_prependEvent event c)) event
      | CUserMetadata c \<Rightarrow> ok (CUserMetadata c, event) []
      | CUserInbox c \<Rightarrow> with_event (map_res CUserInbox (inbox_prependEvent encryptionEmitter event c)) event)"

text \<open>No content does anything for \<open>onConfirmedEvent\<close>; only group chats override
  \<open>onDecryptedContent\<close> with an effect, and only direct and group messages \<open>onAppendLocalEvent\<close>.\<close>

definition content_onConfirmedEvent :: "StreamTimelineEvent \<Rightarrow> content \<Rightarrow> (content, out) res" where
  "content_onConfirmedEvent event content = ok content []"

definition content_onDecryptedContent ::
  "string \<Rightarrow> DecryptedContent \<Rightarrow> bool \<Rightarrow> content \<Rightarrow> (content, out) res" where
  "content_onDecryptedContent eventId d emitter content =
     (case content of
        CGdmChannel c \<Rightarrow> map_res CGdmChannel (gdm_onDecryptedContent eventId d emitter c)
      | _ \<Rightarrow> ok content [])"

definition content_onAppendLocalEvent ::
  "bool \<Rightarrow> StreamTimelineEvent \<Rightarrow> content \<Rightarrow> (content, out) res" where
  "content_onAppendLocalEvent stateEmitter event content =
     (case content of
        CDmChannel c \<Rightarrow> map_res CDmChannel (dm_onAppendLocalEvent stateEmitter event c)
      | CGdmChannel c \<Rightarrow> map_res CGdmChannel (gdm_onAppendLocalEvent stateEmitter event c)
      | _ \<Rightarrow> ok content [])"

text \<open>The switch of \<open>applySnapshot\<close>: the getter of another content than the one of the stream
  throws.\<close>

definition content_applySnapshot ::
  "'a protocol_externs_scheme \<Rightarrow> (string, cleartext) jsmap option \<Rightarrow> bool \<Rightarrow> snapshot_content option \<Rightarrow>
   content \<Rightarrow> (content, out) res" where
  "content_applySnapshot E cleartexts encryptionEmitter snap content =
     (let undefined_content = throw (throwWithCode None) content
      in case snap of
        None \<Rightarrow> throw (throwWithCode (Some STREAM_BAD_EVENT)) content
      | Some (ScSpace x) \<Rightarrow> (case content of
            CSpace c \<Rightarrow> map_res CSpace (space_applySnapshot E x c)
          | _ \<Rightarrow> undefined_content)
      | Some (ScChannel x) \<Rightarrow> (case content of
            CChannel c \<Rightarrow> ok (CChannel (channel_applySnapshot E x c)) []
          | _ \<Rightarrow> undefined_content)
      | Some (ScDmChannel x) \<Rightarrow> (case content of
            CDmChannel c \<Rightarrow> map_res CDmChannel (dm_applySnapshot E x c)
          | _ \<Rightarrow> undefined_content)
      | Some (ScGdmChannel x) \<Rightarrow> (case content of
            CGdmChannel c \<Rightarrow> map_res CGdmChannel (gdm_applySnapshot E x cleartexts encryptionEmitter c)
          | _ \<Rightarrow> undefined_content)
      | Some (ScMedia x) \<Rightarrow> (case content of
            CMedia c \<Rightarrow> map_res CMedia (media_applySnapshot E x c)
          | _ \<Rightarrow> undefined_content)
      | Some (ScUser x) \<Rightarrow> (case content of
            CUser c \<Rightarrow> map_res CUser (user_applySnapshot E x encryptionEmitter c)
          | _ \<Rightarrow> undefined_content)
      | Some (ScUserMetadata x) \<Rightarrow> (case content of
            CUserMetadata c \<Rightarrow> map_res CUserMetadata (metadata_applySnapshot x encryptionEmitter c)
          | _ \<Rightarrow> undefined_content)
      | Some (ScUserSettings x) \<Rightarrow> (case content of
            CUserSettings c \<Rightarrow> map_res CUserSettings (settings_applySnapshot E x c)
          | _ \<Rightarrow> undefined_content)
      | Some (ScUserInbox x) \<Rightarrow> (case content of
            CUserInbox c \<Rightarrow> ok (CUserInbox (inbox_applySnapshot x c)) []
          | _ \<Rightarrow> undefined_content)
      | Some ScMetadata \<Rightarrow> throw (throwWithCode (Some UNIMPLEMENTED)) content)"

subsection \<open>State\<close>

record MiniblockInfo =
  mi_max :: int
  mi_min :: int
  mi_terminusReached :: bool

type_synonym event_ref = nat

record StreamView =
  sv_streamId :: string
  sv_userId :: string
  sv_heap :: "StreamTimelineEvent list"
  sv_minipoolEvents :: "(string, event_ref) jsmap"
  sv_prevMiniblockHash :: "bytes option"
  sv_prevMiniblockNum :: "int option"
  sv_lastEventNum :: int
  sv_prevSnapshotMiniblockNum :: int
  sv_miniblockInfo :: "MiniblockInfo option"
  sv_syncCookie :: "SyncCookie option"
  sv_membershipContent :: Members
  sv_content :: content
  sv_streamStatus :: StreamStatus

record StreamChange =
  ch_prepended :: "StreamTimelineEvent list option"
  ch_appended :: "StreamTimelineEvent list option"
  ch_updated :: "StreamTimelineEvent list option"
  ch_confirmed :: "StreamTimelineEvent list option"

definition no_change :: StreamChange where
  "no_change = \<lparr>ch_prepended = None, ch_appended = None, ch_updated = None, ch_confirmed = None\<rparr>"

text \<open>What a stream view sends: an event to its listeners, or a call to the timelines view. The
  last argument of \<open>TlEventDecrypted\<close> is the content kind of the event \<open>eventDecrypted\<close> that follows
  when the timelines view knows the event.\<close>

datatype (plugins only: code) sv_out =
    Emitted out
  | TlInitialized string "StreamTimelineEvent list"
  | TlUpdated string StreamChange
  | TlEventDecrypted string string DecryptedContent string
  | TlEventDecryptedContentError string string DecryptionSessionError
  | TlLocalEventUpdated string string StreamTimelineEvent

fun emitting :: "('s, out) res \<Rightarrow> ('s, sv_out) res" where
  "emitting (s, os, e) = (s, map Emitted os, e)"

text \<open>A call with a return value, and what follows it.\<close>

fun then_with :: "('v \<times> 'r, 'o) res \<Rightarrow> ('r \<Rightarrow> 'v \<Rightarrow> ('v, 'o) res) \<Rightarrow> ('v, 'o) res" where
  "then_with ((v, r), os, None) f = (case f r v of (v', os', e) \<Rightarrow> (v', os @ os', e))"
| "then_with ((v, r), os, Some e) f = (v, os, Some e)"

text \<open>\<open>try { ... } catch (e) { logError(...) }\<close>\<close>

fun caught :: "('s, 'o) res \<Rightarrow> ('s, 'o) res" where
  "caught (s, os, e) = (s, os, None)"

definition new_StreamView ::
  "'a externs_scheme \<Rightarrow> string \<Rightarrow> string \<Rightarrow> StreamsViews \<Rightarrow> exn + StreamView" where
  "new_StreamView E userId streamId views =
     bindE (new_content E streamId views) (\<lambda>content.
     Inr \<lparr>sv_streamId = streamId, sv_userId = userId, sv_heap = [], sv_minipoolEvents = [],
          sv_prevMiniblockHash = None, sv_prevMiniblockNum = None, sv_lastEventNum = 0,
          sv_prevSnapshotMiniblockNum = 0, sv_miniblockInfo = None, sv_syncCookie = None,
          sv_membershipContent = new_Members streamId (vw_streamMemberIds views),
          sv_content = content, sv_streamStatus = vw_streamStatus views\<rparr>)"

definition isInitialized :: "StreamView \<Rightarrow> bool" where
  "isInitialized v = st_isInitialized (status_get (sv_streamStatus v) (sv_streamId v))"

definition event_of :: "StreamView \<Rightarrow> event_ref \<Rightarrow> StreamTimelineEvent" where
  "event_of v r = sv_heap v ! r"

definition set_event :: "event_ref \<Rightarrow> StreamTimelineEvent \<Rightarrow> StreamView \<Rightarrow> StreamView" where
  "set_event r e v = v\<lparr>sv_heap := (sv_heap v)[r := e]\<rparr>"

definition new_event :: "StreamTimelineEvent \<Rightarrow> StreamView \<Rightarrow> event_ref \<times> StreamView" where
  "new_event e v = (length (sv_heap v), v\<lparr>sv_heap := sv_heap v @ [e]\<rparr>)"

definition on_members :: "(Members \<Rightarrow> (Members, out) res) \<Rightarrow> StreamView \<Rightarrow> (StreamView, sv_out) res" where
  "on_members f v =
     emitting (map_res (\<lambda>m. v\<lparr>sv_membershipContent := m\<rparr>) (f (sv_membershipContent v)))"

definition on_content :: "(content \<Rightarrow> (content, out) res) \<Rightarrow> StreamView \<Rightarrow> (StreamView, sv_out) res" where
  "on_content f v = emitting (map_res (\<lambda>c. v\<lparr>sv_content := c\<rparr>) (f (sv_content v)))"

definition on_content_event ::
  "(StreamTimelineEvent \<Rightarrow> content \<Rightarrow> (content \<times> StreamTimelineEvent, out) res) \<Rightarrow> event_ref \<Rightarrow>
   StreamView \<Rightarrow> (StreamView, sv_out) res" where
  "on_content_event f r v =
     emitting (map_res (\<lambda>(c, e). set_event r e (v\<lparr>sv_content := c\<rparr>)) (f (event_of v r) (sv_content v)))"

subsection \<open>Miniblocks\<close>

text \<open>\<open>update.max && ...\<close>: the number 0 counts as no update.\<close>

definition updateMiniblockInfo ::
  "miniblock_header \<Rightarrow> int option \<Rightarrow> int option \<Rightarrow> StreamView \<Rightarrow> StreamView" where
  "updateMiniblockInfo value umax umin v =
     (case sv_miniblockInfo v of
        None \<Rightarrow> v\<lparr>sv_miniblockInfo := Some \<lparr>mi_max = mh_miniblockNum value, mi_min = mh_miniblockNum value,
                   mi_terminusReached = (mh_miniblockNum value = 0)\<rparr>\<rparr>
      | Some info \<Rightarrow>
          let info1 = (case umax of
                 Some m \<Rightarrow> if m \<noteq> 0 \<and> m > mi_max info then info\<lparr>mi_max := m\<rparr> else info
               | None \<Rightarrow> info);
              info2 = (case umin of
                 Some m \<Rightarrow> if m \<noteq> 0 \<and> m < mi_min info1 then info1\<lparr>mi_min := m\<rparr> else info1
               | None \<Rightarrow> info1);
              info3 = (if mi_min info2 = 0 \<or> mi_max info2 = 0
                       then info2\<lparr>mi_terminusReached := True\<rparr> else info2)
          in v\<lparr>sv_miniblockInfo := Some info3\<rparr>)"

text \<open>One iteration of the loop of \<open>processMiniblockHeader\<close>.\<close>

definition confirm_event ::
  "'a externs_scheme \<Rightarrow> miniblock_header \<Rightarrow> bool \<Rightarrow> nat \<times> bytes \<Rightarrow> StreamView \<times> event_ref list \<Rightarrow>
   (StreamView \<times> event_ref list, sv_out) res" where
  "confirm_event E header stateEmitter ih vc =
     (let (i, h) = ih; (v, confirmed) = vc; eventId = bin_toHexString E h
      in case map_get (sv_minipoolEvents v) eventId of
           None \<Rightarrow> ok vc []
         | Some r \<Rightarrow>
             let event = (event_of v r)\<lparr>se_miniblockNum := Some (mh_miniblockNum header),
                           se_confirmedEventNum := Some (mh_eventNumOffset header + int i)\<rparr>;
                 v1 = set_event r event
                        (v\<lparr>sv_minipoolEvents := map_delete eventId (sv_minipoolEvents v)\<rparr>)
             in if \<not> isConfirmedEvent event then throw (throwWithCode None) (v1, confirmed)
                else and_then
                  (map_res (\<lambda>v. (v, confirmed))
                     (case event_payload event of
                        Some (PlMember _) \<Rightarrow> on_members (members_onConfirmedEvent E stateEmitter event) v1
                      | None \<Rightarrow> ok v1 []
                      | Some _ \<Rightarrow> on_content (content_onConfirmedEvent event) v1))
                  (\<lambda>(v, confirmed). ok (v, confirmed @ [r]) []))"

definition processMiniblockHeader ::
  "'a externs_scheme \<Rightarrow> miniblock_header \<Rightarrow> bool \<Rightarrow> StreamView \<Rightarrow>
   (StreamView \<times> event_ref list, sv_out) res" where
  "processMiniblockHeader E header stateEmitter v =
     for_each (confirm_event E header stateEmitter)
       (zip [0..<length (mh_eventHashes header)] (mh_eventHashes header)) (v, [])"

definition is_header :: "StreamTimelineEvent \<Rightarrow> bool" where
  "is_header event = (case event_payload event of Some (PlMiniblockHeader _) \<Rightarrow> True | _ \<Rightarrow> False)"

text \<open>The branch of \<open>processAppendedEvent\<close> for a miniblock header.\<close>

definition append_header ::
  "'a externs_scheme \<Rightarrow> event_ref \<Rightarrow> miniblock_header \<Rightarrow> bool \<Rightarrow> StreamView \<Rightarrow>
   (StreamView \<times> event_ref list option, sv_out) res" where
  "append_header E r value stateEmitter v =
     (if \<not> (case sv_miniblockInfo v of None \<Rightarrow> -1 | Some info \<Rightarrow> mi_max info) < mh_miniblockNum value
      then throw (throwWithCode (Some STREAM_BAD_EVENT)) (v, None)
      else let v1 = v\<lparr>sv_prevMiniblockHash := map_option pe_hash (se_remoteEvent (event_of v r)),
                      sv_prevMiniblockNum := Some (mh_miniblockNum value)\<rparr>;
               v2 = updateMiniblockInfo value (Some (mh_miniblockNum value)) None v1;
               v3 = set_event r ((event_of v2 r)\<lparr>
                      se_confirmedEventNum :=
                        Some (mh_eventNumOffset value + int (length (mh_eventHashes value))),
                      se_miniblockNum := Some (mh_miniblockNum value)\<rparr>) v2
           in case processMiniblockHeader E value stateEmitter v3 of
                ((v4, confirmed), os, None) \<Rightarrow> ((v4, Some confirmed), os, None)
              | ((v4, confirmed), os, Some e) \<Rightarrow> ((v4, None), os, Some e))"

definition processAppendedEvent ::
  "'a protocol_externs_scheme \<Rightarrow> event_ref \<Rightarrow> cleartext option \<Rightarrow> bool \<Rightarrow> bool \<Rightarrow> StreamView \<Rightarrow>
   (StreamView \<times> event_ref list option, sv_out) res" where
  "processAppendedEvent E r ct encryptionEmitter stateEmitter v0 =
     (let event = event_of v0 r
      in if map_has (sv_minipoolEvents v0) (se_hashStr event) then throw (throwWithCode None) (v0, None)
         else let v = (if is_header event then v0
                       else v0\<lparr>sv_minipoolEvents := map_set (se_hashStr event) r (sv_minipoolEvents v0)\<rparr>)
              in caught (case event_payload event of
                   Some (PlMiniblockHeader value) \<Rightarrow> append_header E r value stateEmitter v
                 | Some (PlMember _) \<Rightarrow>
                     map_res (\<lambda>v. (v, None))
                       (on_members (members_appendEvent E ct encryptionEmitter stateEmitter event) v)
                 | None \<Rightarrow> ok (v, None) []
                 | Some _ \<Rightarrow>
                     map_res (\<lambda>v. (v, None))
                       (on_content_event (content_appendEvent E ct encryptionEmitter stateEmitter) r v)))"

definition processPrependedEvent ::
  "'a protocol_externs_scheme \<Rightarrow> event_ref \<Rightarrow> cleartext option \<Rightarrow> bool \<Rightarrow> bool \<Rightarrow> StreamView \<Rightarrow>
   (StreamView, sv_out) res" where
  "processPrependedEvent E r ct encryptionEmitter stateEmitter v =
     caught (case event_payload (event_of v r) of
        Some (PlMiniblockHeader value) \<Rightarrow>
          ok ((updateMiniblockInfo value None (Some (mh_miniblockNum value)) v)
                \<lparr>sv_prevSnapshotMiniblockNum := mh_prevSnapshotMiniblockNum value\<rparr>) []
      | Some (PlMember _) \<Rightarrow> on_members (members_prependEvent E stateEmitter (event_of v r)) v
      | None \<Rightarrow> ok v []
      | Some _ \<Rightarrow> on_content_event (content_prependEvent E ct encryptionEmitter) r v)"

subsection \<open>Appending, prepending, initialization\<close>

text \<open>The events appended, updated and confirmed by one call.\<close>

record batch =
  ba_appended :: "event_ref list"
  ba_updated :: "event_ref list"
  ba_confirmed :: "event_ref list"

definition append_one ::
  "'a protocol_externs_scheme \<Rightarrow> (string, cleartext) jsmap option \<Rightarrow> bool \<Rightarrow> bool \<Rightarrow> ParsedEvent \<Rightarrow>
   StreamView \<times> batch \<Rightarrow> (StreamView \<times> batch, sv_out) res" where
  "append_one E cleartexts encryptionEmitter stateEmitter parsedEvent vb =
     (let (v, b) = vb
      in case map_get (sv_minipoolEvents v) (pe_hashStr parsedEvent) of
           Some r \<Rightarrow>
             ok (set_event r ((event_of v r)\<lparr>se_remoteEvent := Some parsedEvent\<rparr>) v,
                 b\<lparr>ba_updated := ba_updated b @ [r]\<rparr>) []
         | None \<Rightarrow>
             let event = makeRemoteTimelineEvent parsedEvent (sv_lastEventNum v) None None;
                 (r, v1) = new_event event (v\<lparr>sv_lastEventNum := sv_lastEventNum v + 1\<rparr>)
             in map_res (\<lambda>(v2, newlyConfirmed). (v2, b\<lparr>ba_appended := ba_appended b @ [r],
                    ba_confirmed := ba_confirmed b @ (case newlyConfirmed of None \<Rightarrow> [] | Some c \<Rightarrow> c)\<rparr>))
                  (processAppendedEvent E r (get_cleartext cleartexts (se_hashStr event))
                     encryptionEmitter stateEmitter v1))"

definition appendStreamAndCookie ::
  "'a protocol_externs_scheme \<Rightarrow> SyncCookie \<Rightarrow> ParsedEvent list \<Rightarrow> (string, cleartext) jsmap option \<Rightarrow>
   bool \<Rightarrow> bool \<Rightarrow> StreamView \<Rightarrow> (StreamView \<times> batch, sv_out) res" where
  "appendStreamAndCookie E nextSyncCookie minipoolEvents cleartexts encryptionEmitter stateEmitter v =
     and_then (for_each (append_one E cleartexts encryptionEmitter stateEmitter) minipoolEvents
                 (v, \<lparr>ba_appended = [], ba_updated = [], ba_confirmed = []\<rparr>))
       (\<lambda>(v, b). ok (v\<lparr>sv_syncCookie := Some nextSyncCookie\<rparr>, b) [])"

definition nonempty :: "'a list \<Rightarrow> 'a list option" where
  "nonempty xs = (if xs = [] then None else Some xs)"

definition appendEvents ::
  "'a protocol_externs_scheme \<Rightarrow> ParsedEvent list \<Rightarrow> SyncCookie \<Rightarrow> (string, cleartext) jsmap option \<Rightarrow>
   StreamView \<Rightarrow> (StreamView, sv_out) res" where
  "appendEvents E events nextSyncCookie cleartexts v0 =
     then_with (appendStreamAndCookie E nextSyncCookie events cleartexts True True v0) (\<lambda>b v.
       ok v [TlUpdated (sv_streamId v)
               \<lparr>ch_prepended = None,
                ch_appended = nonempty (map (event_of v) (ba_appended b)),
                ch_updated = nonempty (map (event_of v) (ba_updated b)),
                ch_confirmed = nonempty (map (event_of v) (ba_confirmed b))\<rparr>])"

text \<open>\<open>miniblocks.flatMap(mb => mb.events.map(makeRemoteTimelineEvent))\<close>\<close>

definition block_events :: "ParsedMiniblock \<Rightarrow> StreamTimelineEvent list" where
  "block_events mb =
     map (\<lambda>(i, parsedEvent).
            let eventNum = mh_eventNumOffset (mb_header mb) + int i
            in makeRemoteTimelineEvent parsedEvent eventNum (Some (mh_miniblockNum (mb_header mb)))
                 (Some eventNum))
       (zip [0..<length (mb_events mb)] (mb_events mb))"

definition new_events :: "StreamTimelineEvent list \<Rightarrow> StreamView \<Rightarrow> event_ref list \<times> StreamView" where
  "new_events es v =
     ([length (sv_heap v)..<length (sv_heap v) + length es], v\<lparr>sv_heap := sv_heap v @ es\<rparr>)"

definition prepend_refs ::
  "'a protocol_externs_scheme \<Rightarrow> (string, cleartext) jsmap option \<Rightarrow> bool \<Rightarrow> bool \<Rightarrow> event_ref list \<Rightarrow>
   StreamView \<Rightarrow> (StreamView, sv_out) res" where
  "prepend_refs E cleartexts encryptionEmitter stateEmitter rs v =
     for_each (\<lambda>r v. processPrependedEvent E r (get_cleartext cleartexts (se_hashStr (event_of v r)))
        encryptionEmitter stateEmitter v) (rev rs) v"

definition prependEvents ::
  "'a protocol_externs_scheme \<Rightarrow> ParsedMiniblock list \<Rightarrow> (string, cleartext) jsmap option \<Rightarrow> bool \<Rightarrow>
   bool \<Rightarrow> bool \<Rightarrow> StreamView \<Rightarrow> (StreamView \<times> event_ref list, sv_out) res" where
  "prependEvents E miniblocks cleartexts terminus encryptionEmitter stateEmitter v0 =
     (let (prepended, v1) = new_events (concat (map block_events miniblocks)) v0
      in map_res (\<lambda>v. (v, prepended))
           (and_then (prepend_refs E cleartexts encryptionEmitter stateEmitter prepended v1) (\<lambda>v2.
              let v3 = (case sv_miniblockInfo v2 of
                          Some info \<Rightarrow>
                            if terminus
                            then v2\<lparr>sv_miniblockInfo := Some (info\<lparr>mi_terminusReached := True\<rparr>)\<rparr>
                            else v2
                        | None \<Rightarrow> v2)
              in ok v3 (emit (isInitialized v3) (TlUpdated (sv_streamId v3)
                   (no_change\<lparr>ch_prepended := Some (map (event_of v3) prepended)\<rparr>))))))"

definition applySnapshot ::
  "'a protocol_externs_scheme \<Rightarrow> ParsedEvent \<Rightarrow> snapshot \<Rightarrow> (string, cleartext) jsmap option \<Rightarrow> bool \<Rightarrow>
   StreamView \<Rightarrow> (StreamView, sv_out) res" where
  "applySnapshot E event inSnapshot cleartexts encryptionEmitter v =
     (case migrateSnapshot E inSnapshot of
        Inl e \<Rightarrow> throw e v
      | Inr snap \<Rightarrow>
          and_then (on_content (content_applySnapshot E cleartexts encryptionEmitter (sn_content snap)) v)
            (on_members (members_applySnapshot E event snap cleartexts encryptionEmitter)))"

text \<open>The loop over the local events in \<open>initialize\<close>.\<close>

definition restore_local ::
  "bool \<Rightarrow> StreamTimelineEvent \<Rightarrow> StreamView \<times> event_ref list \<Rightarrow> (StreamView \<times> event_ref list, sv_out) res"
  where
  "restore_local emitter localEvent vr =
     (let (v, rs) = vr;
          event = localEvent\<lparr>se_eventNum := sv_lastEventNum v\<rparr>;
          (r, v1) = new_event event (v\<lparr>sv_lastEventNum := sv_lastEventNum v + 1\<rparr>)
      in map_res (\<lambda>v2. (v2, rs @ [r])) (on_content (content_onAppendLocalEvent emitter event) v1))"

text \<open>The end of \<open>initialize\<close>: local events, status, and the call of the timelines view.\<close>

definition finish_initialize ::
  "bool \<Rightarrow> StreamTimelineEvent list \<Rightarrow> event_ref list \<Rightarrow> event_ref list \<Rightarrow> event_ref list \<Rightarrow>
   StreamView \<Rightarrow> (StreamView, sv_out) res" where
  "finish_initialize emitter localEvents prepended timelineEvents appended v0 =
     then_with (for_each (restore_local emitter) localEvents (v0, [])) (\<lambda>locals v.
       let v1 = v\<lparr>sv_streamStatus := setIsInitialized (sv_streamId v) True (sv_streamStatus v)\<rparr>
       in ok v1 ([TlInitialized (sv_streamId v1)
                    (map (event_of v1) (prepended @ timelineEvents @ locals @ appended))] @
                 emit emitter (Emitted (streamInitialized (sv_streamId v1) (contentKind (sv_content v1))))))"

text \<open>\<open>initialize\<close> from the minipool events on.\<close>

definition initialize_minipool ::
  "'a protocol_externs_scheme \<Rightarrow> SyncCookie \<Rightarrow> ParsedEvent list \<Rightarrow> ParsedMiniblock list \<Rightarrow> int \<Rightarrow>
   (string, cleartext) jsmap option \<Rightarrow> StreamTimelineEvent list \<Rightarrow> bool \<Rightarrow> event_ref list \<Rightarrow>
   StreamView \<Rightarrow> (StreamView, sv_out) res" where
  "initialize_minipool E nextSyncCookie minipoolEvents prependedMiniblocks prevSnapshotMiniblockNum
     cleartexts localEvents emitter timelineEvents v0 =
     then_with (appendStreamAndCookie E nextSyncCookie minipoolEvents cleartexts emitter False v0) (\<lambda>b v1.
       let v2 = v1\<lparr>sv_prevSnapshotMiniblockNum := prevSnapshotMiniblockNum\<rparr>
       in case prependedMiniblocks of
            [] \<Rightarrow> finish_initialize emitter localEvents [] timelineEvents (ba_appended b) v2
          | pmb # _ \<Rightarrow>
              then_with (prependEvents E prependedMiniblocks cleartexts
                  (mh_miniblockNum (mb_header pmb) = 0) emitter False v2) (\<lambda>prepended.
                finish_initialize emitter localEvents prepended timelineEvents (ba_appended b)))"

text \<open>The blocks: the first one is the snapshotted one, the others are appended.\<close>

definition append_rest ::
  "'a protocol_externs_scheme \<Rightarrow> (string, cleartext) jsmap option \<Rightarrow> bool \<Rightarrow> event_ref list \<Rightarrow>
   StreamView \<Rightarrow> (StreamView, sv_out) res" where
  "append_rest E cleartexts emitter rest v =
     for_each (\<lambda>r v. map_res fst (processAppendedEvent E r
       (get_cleartext cleartexts (se_hashStr (event_of v r))) emitter False v)) rest v"

definition initialize_blocks ::
  "'a protocol_externs_scheme \<Rightarrow> ParsedMiniblock \<Rightarrow> ParsedMiniblock list \<Rightarrow>
   (string, cleartext) jsmap option \<Rightarrow> bool \<Rightarrow> StreamView \<Rightarrow> (StreamView \<times> event_ref list, sv_out) res" where
  "initialize_blocks E mb0 blocks cleartexts emitter v0 =
     (let (block0, v1) = new_events (block_events mb0) v0;
          (rest, v2) = new_events (concat (map block_events blocks)) v1;
          lastBlock = last (mb0 # blocks)
      in map_res (\<lambda>v. (v, block0 @ rest))
           (and_then (prepend_refs E cleartexts emitter False block0 v2) (\<lambda>v3.
            and_then (append_rest E cleartexts emitter rest v3) (\<lambda>v4.
            ok (v4\<lparr>sv_lastEventNum := mh_eventNumOffset (mb_header lastBlock) +
                      int (length (mb_events lastBlock)),
                   sv_prevMiniblockHash := Some (mb_hash lastBlock),
                   sv_prevMiniblockNum := Some (mh_miniblockNum (mb_header lastBlock))\<rparr>) []))))"

definition initialize ::
  "'a protocol_externs_scheme \<Rightarrow> SyncCookie \<Rightarrow> ParsedEvent list \<Rightarrow> snapshot \<Rightarrow> ParsedMiniblock list \<Rightarrow>
   ParsedMiniblock list \<Rightarrow> int \<Rightarrow> (string, cleartext) jsmap option \<Rightarrow> StreamTimelineEvent list \<Rightarrow> bool \<Rightarrow>
   StreamView \<Rightarrow> (StreamView, sv_out) res" where
  "initialize E nextSyncCookie minipoolEvents snap miniblocks prependedMiniblocks prevSnapshotMiniblockNum
     cleartexts localEvents emitter v0 =
     (case miniblocks of
        [] \<Rightarrow> throw (throwWithCode (Some STREAM_EMPTY)) v0
      | mb0 # blocks \<Rightarrow>
          if mb_events mb0 = [] then throw (throwWithCode (Some STREAM_EMPTY)) v0
          else and_then (applySnapshot E (last (mb_events mb0)) snap cleartexts emitter v0) (\<lambda>v1.
               then_with (initialize_blocks E mb0 blocks cleartexts emitter v1)
                 (initialize_minipool E nextSyncCookie minipoolEvents prependedMiniblocks
                    prevSnapshotMiniblockNum cleartexts localEvents emitter)))"

subsection \<open>Local and decrypted events\<close>

text \<open>The random id and the current time are arguments; the local id is returned.\<close>

definition appendLocalEvent ::
  "string \<Rightarrow> int \<Rightarrow> ChannelMessage \<Rightarrow> LocalEventStatus \<Rightarrow> bool \<Rightarrow> StreamView \<Rightarrow>
   (StreamView \<times> string, sv_out) res" where
  "appendLocalEvent nano11 now channelMessage status emitter v0 =
     (let localId = genLocalId nano11;
          timelineEvent = \<lparr>se_hashStr = localId, se_creatorUserId = sv_userId v0,
             se_eventNum = sv_lastEventNum v0, se_createdAtEpochMs = now,
             se_localEvent = Some \<lparr>le_localId = localId, le_channelMessage = channelMessage,
               le_status = status\<rparr>,
             se_remoteEvent = None, se_decryptedContent = None, se_decryptedContentError = None,
             se_miniblockNum = None, se_confirmedEventNum = None\<rparr>;
          (r, v1) = new_event timelineEvent (v0\<lparr>sv_lastEventNum := sv_lastEventNum v0 + 1\<rparr>);
          v2 = v1\<lparr>sv_minipoolEvents := map_set localId r (sv_minipoolEvents v1)\<rparr>
      in map_res (\<lambda>v. (v, localId))
           (and_then (on_content (content_onAppendLocalEvent emitter timelineEvent) v2) (\<lambda>v.
              ok v [TlUpdated (sv_streamId v) (no_change\<lparr>ch_appended := Some [event_of v r]\<rparr>)])))"

definition updateLocalEvent ::
  "string \<Rightarrow> string \<Rightarrow> LocalEventStatus \<Rightarrow> bool \<Rightarrow> StreamView \<Rightarrow> (StreamView, sv_out) res" where
  "updateLocalEvent localId parsedEventHash status emitter v =
     (case (case map_get (sv_minipoolEvents v) localId of
              Some r \<Rightarrow> Some r | None \<Rightarrow> map_get (sv_minipoolEvents v) parsedEventHash) of
        None \<Rightarrow> throw (throwWithCode None) v
      | Some r \<Rightarrow>
          (case se_localEvent (event_of v r) of
             None \<Rightarrow> throw (throwWithCode None) v
           | Some le \<Rightarrow>
               let previousId = se_hashStr (event_of v r);
                   event = (event_of v r)\<lparr>se_hashStr := parsedEventHash,
                             se_localEvent := Some (le\<lparr>le_status := status\<rparr>)\<rparr>;
                   v1 = (set_event r event v)\<lparr>sv_minipoolEvents :=
                          map_set parsedEventHash r (map_delete previousId (sv_minipoolEvents v))\<rparr>
               in ok v1 ([TlLocalEventUpdated (sv_streamId v) previousId event] @
                         emit emitter (Emitted (streamLocalEventUpdated (sv_streamId v)
                           (contentKind (sv_content v)) previousId event)))))"

definition updateDecryptedContent ::
  "'a externs_scheme \<Rightarrow> string \<Rightarrow> DecryptedContent \<Rightarrow> StreamView \<Rightarrow> (StreamView, sv_out) res" where
  "updateDecryptedContent E eventId content v0 =
     and_then (on_members (members_onDecryptedContent E eventId content True) v0) (\<lambda>v1.
     and_then (on_content (content_onDecryptedContent eventId content True) v1) (\<lambda>v2.
     ok v2 [TlEventDecrypted (sv_streamId v2) eventId content (contentKind (sv_content v2))]))"

definition updateDecryptedContentError ::
  "string \<Rightarrow> DecryptionSessionError \<Rightarrow> StreamView \<Rightarrow> (StreamView, sv_out) res" where
  "updateDecryptedContentError eventId content v =
     ok v [TlEventDecryptedContentError (sv_streamId v) eventId content]"

subsection \<open>Key exchange\<close>

definition getUsersEntitledToKeyExchange :: "StreamView \<Rightarrow> string jsset" where
  "getUsersEntitledToKeyExchange v =
     (case sv_content v of
        CChannel _ \<Rightarrow> joinedOrPendingJoinedParticipants (sv_membershipContent v)
      | CSpace _ \<Rightarrow> joinedOrPendingJoinedParticipants (sv_membershipContent v)
      | CGdmChannel _ \<Rightarrow> joinedOrPendingJoinedParticipants (sv_membershipContent v)
      | CDmChannel _ \<Rightarrow> participants (sv_membershipContent v)
      | _ \<Rightarrow> [])"

definition userIsEntitledToKeyExchange :: "StreamView \<Rightarrow> string \<Rightarrow> bool" where
  "userIsEntitledToKeyExchange v userId \<longleftrightarrow> userId \<in> set (getUsersEntitledToKeyExchange v)"

subsection \<open>Streams\<close>

text \<open>\<open>Stream.initialize\<close> builds a new view over the same \<open>StreamsView\<close>; it hands it the local
  events of the old view that have not been sent.\<close>

definition views_of :: "StreamView \<Rightarrow> StreamsViews \<Rightarrow> StreamsViews" where
  "views_of v w =
     (let w1 = w\<lparr>vw_streamMemberIds := m_streamMemberIdsView (sv_membershipContent v),
                 vw_streamStatus := sv_streamStatus v\<rparr>
      in case sv_content v of
           CSpace c \<Rightarrow> w1\<lparr>vw_spaceStreams := spc_spacesView c\<rparr>
         | CDmChannel c \<Rightarrow> w1\<lparr>vw_dmStreams := dc_dmStreamsView c\<rparr>
         | CGdmChannel c \<Rightarrow> w1\<lparr>vw_gdmStreams := gc_gdmStreamsView c\<rparr>
         | CUser c \<Rightarrow> w1\<lparr>vw_userStreams := uc_userStreamsView c\<rparr>
         | CUserSettings c \<Rightarrow> w1\<lparr>vw_userSettingsStreams := stc_userSettingsStreamsView c\<rparr>
         | _ \<Rightarrow> w1)"

definition pending_local_events :: "StreamView \<Rightarrow> StreamTimelineEvent list" where
  "pending_local_events v =
     sort_key se_eventNum
       (filter (\<lambda>e. isLocalEvent e \<and> take 1 (se_hashStr e) = ''~'')
          (map (\<lambda>(k, r). event_of v r) (sv_minipoolEvents v)))"

definition stream_initialize ::
  "'a protocol_externs_scheme \<Rightarrow> StreamsViews \<Rightarrow> SyncCookie \<Rightarrow> ParsedEvent list \<Rightarrow> snapshot \<Rightarrow>
   ParsedMiniblock list \<Rightarrow> ParsedMiniblock list \<Rightarrow> int \<Rightarrow> (string, cleartext) jsmap option \<Rightarrow> StreamView \<Rightarrow>
   (StreamView, sv_out) res" where
  "stream_initialize E views nextSyncCookie minipoolEvents snap miniblocks prependedMiniblocks
     prevSnapshotMiniblockNum cleartexts v =
     (case new_StreamView E (sv_userId v) (sv_streamId v) (views_of v views) of
        Inl e \<Rightarrow> throw e v
      | Inr new \<Rightarrow>
          initialize E nextSyncCookie minipoolEvents snap miniblocks prependedMiniblocks
            prevSnapshotMiniblockNum cleartexts (pending_local_events v) True new)"

subsection \<open>Frame lemmas\<close>

lemma emitting_sels [simp]: "st_of (emitting r) = st_of r" "exn_of (emitting r) = exn_of r"
  "outs_of (emitting r) = map Emitted (outs_of r)"
  by (cases r; simp)+

lemma caught_sels [simp]: "st_of (caught r) = st_of r" "exn_of (caught r) = None"
  "outs_of (caught r) = outs_of r"
  by (cases r; simp)+

lemma then_with_sels:
  "st_of (then_with r f) =
     (if exn_of r = None then st_of (f (snd (st_of r)) (fst (st_of r))) else fst (st_of r))"
  "outs_of (then_with r f) =
     outs_of r @ (if exn_of r = None then outs_of (f (snd (st_of r)) (fst (st_of r))) else [])"
  "exn_of (then_with r f) =
     (if exn_of r = None then exn_of (f (snd (st_of r)) (fst (st_of r))) else exn_of r)"
  by (cases "(r, f)" rule: then_with.cases; auto split: prod.splits)+

text \<open>The hashes of the events in the store. Only \<open>updateLocalEvent\<close> changes the hash of an event.\<close>

definition heap_hashes :: "StreamView \<Rightarrow> string list" where
  "heap_hashes v = map se_hashStr (sv_heap v)"

lemma length_heap_hashes [simp]: "length (heap_hashes v) = length (sv_heap v)"
  by (simp add: heap_hashes_def)

lemma heap_hashes_nth: "r < length (sv_heap v) \<Longrightarrow> heap_hashes v ! r = se_hashStr (event_of v r)"
  by (simp add: heap_hashes_def event_of_def)

lemma set_event_sels [simp]:
  "sv_streamId (set_event r e v) = sv_streamId v" "sv_minipoolEvents (set_event r e v) = sv_minipoolEvents v"
  "sv_miniblockInfo (set_event r e v) = sv_miniblockInfo v"
  "sv_membershipContent (set_event r e v) = sv_membershipContent v"
  "sv_content (set_event r e v) = sv_content v" "length (sv_heap (set_event r e v)) = length (sv_heap v)"
  "sv_streamStatus (set_event r e v) = sv_streamStatus v"
  "sv_lastEventNum (set_event r e v) = sv_lastEventNum v"
  by (simp_all add: set_event_def)

lemma heap_hashes_set_event [simp]:
  "se_hashStr e = se_hashStr (event_of v r) \<Longrightarrow> heap_hashes (set_event r e v) = heap_hashes v"
  unfolding heap_hashes_def set_event_def event_of_def
  by (cases "r < length (sv_heap v)") (auto simp: map_update list_update_same_conv list_update_beyond)

lemma event_of_set_event:
  "r < length (sv_heap v) \<Longrightarrow> event_of (set_event r e v) r' = (if r' = r then e else event_of v r')"
  by (simp add: event_of_def set_event_def nth_list_update)

lemma event_of_frame [simp]:
  "event_of (v\<lparr>sv_minipoolEvents := p\<rparr>) r = event_of v r"
  "event_of (v\<lparr>sv_membershipContent := m\<rparr>) r = event_of v r"
  "event_of (v\<lparr>sv_content := c\<rparr>) r = event_of v r"
  "event_of (v\<lparr>sv_miniblockInfo := i\<rparr>) r = event_of v r"
  "event_of (v\<lparr>sv_syncCookie := ck\<rparr>) r = event_of v r"
  "event_of (v\<lparr>sv_prevMiniblockHash := h, sv_prevMiniblockNum := n\<rparr>) r = event_of v r"
  "event_of (v\<lparr>sv_streamStatus := st\<rparr>) r = event_of v r"
  by (simp_all add: event_of_def)

lemma heap_hashes_frame [simp]:
  "heap_hashes (v\<lparr>sv_minipoolEvents := p\<rparr>) = heap_hashes v"
  "heap_hashes (v\<lparr>sv_membershipContent := m\<rparr>) = heap_hashes v"
  "heap_hashes (v\<lparr>sv_content := c\<rparr>) = heap_hashes v"
  "heap_hashes (v\<lparr>sv_miniblockInfo := i\<rparr>) = heap_hashes v"
  "heap_hashes (v\<lparr>sv_syncCookie := ck\<rparr>) = heap_hashes v"
  "heap_hashes (v\<lparr>sv_prevSnapshotMiniblockNum := k\<rparr>) = heap_hashes v"
  "heap_hashes (v\<lparr>sv_prevMiniblockHash := h, sv_prevMiniblockNum := n\<rparr>) = heap_hashes v"
  "heap_hashes (v\<lparr>sv_streamStatus := st\<rparr>) = heap_hashes v"
  "heap_hashes (v\<lparr>sv_lastEventNum := k\<rparr>) = heap_hashes v"
  "heap_hashes (v\<lparr>sv_lastEventNum := k, sv_prevMiniblockHash := h, sv_prevMiniblockNum := n\<rparr>) = heap_hashes v"
  by (simp_all add: heap_hashes_def)

text \<open>Every content keeps the identity of the event it handles.\<close>

lemma and_then_event:
  assumes "se_hashStr (snd (st_of r)) = h"
    and "\<And>c e. se_hashStr e = h \<Longrightarrow> se_hashStr (snd (st_of (f (c, e)))) = h"
  shows "se_hashStr (snd (st_of (and_then r f))) = h"
  using assms by (cases "st_of r") (auto simp: st_of_and_then)

lemma space_event [simp]:
  "se_hashStr (snd (st_of (space_appendEvent E se e c))) = se_hashStr e"
  "se_hashStr (snd (st_of (space_prependEvent e c))) = se_hashStr e"
  by (simp_all add: space_appendEvent_def space_prependEvent_def
      split: option.split payload.split SpacePayload_content.split)

lemma channel_event [simp]:
  "se_hashStr (snd (st_of (channel_appendEvent E ct ee e c))) = se_hashStr e"
  by (auto simp: channel_appendEvent_def split: option.split payload.split ChannelPayload_content.split
      intro!: and_then_event)

lemma dm_event [simp]:
  "se_hashStr (snd (st_of (dm_appendEvent E ct ee se e c))) = se_hashStr e"
  "se_hashStr (snd (st_of (dm_prependEvent E ct ee e c))) = se_hashStr e"
  by (auto simp: dm_appendEvent_def dm_prependEvent_def
      split: option.split payload.split DmChannelPayload_content.split intro!: and_then_event)

lemma gdm_event [simp]:
  "se_hashStr (snd (st_of (gdm_appendEvent E ct ee se e c))) = se_hashStr e"
  "se_hashStr (snd (st_of (gdm_prependEvent E ct ee e c))) = se_hashStr e"
  by (auto simp: gdm_appendEvent_def gdm_prependEvent_def gdm_message_def
      split: option.split payload.split GdmChannelPayload_content.split intro!: and_then_event)

lemma content_event [simp]:
  "se_hashStr (snd (st_of (content_appendEvent E ct ee se e c))) = se_hashStr e"
  "se_hashStr (snd (st_of (content_prependEvent E ct ee e c))) = se_hashStr e"
  by (simp_all add: content_appendEvent_def content_prependEvent_def split: content.split)

lemma on_members_sels [simp]:
  "st_of (on_members f v) = v\<lparr>sv_membershipContent := st_of (f (sv_membershipContent v))\<rparr>"
  "exn_of (on_members f v) = exn_of (f (sv_membershipContent v))"
  by (simp_all add: on_members_def)

lemma on_content_sels [simp]:
  "st_of (on_content f v) = v\<lparr>sv_content := st_of (f (sv_content v))\<rparr>"
  "exn_of (on_content f v) = exn_of (f (sv_content v))"
  by (simp_all add: on_content_def)

lemma on_content_event_st:
  "st_of (on_content_event f r v) =
     set_event r (snd (st_of (f (event_of v r) (sv_content v))))
       (v\<lparr>sv_content := fst (st_of (f (event_of v r) (sv_content v)))\<rparr>)"
  by (simp add: on_content_event_def split: prod.split)

lemma updateMiniblockInfo_frame [simp]:
  "sv_minipoolEvents (updateMiniblockInfo h a b v) = sv_minipoolEvents v"
  "sv_heap (updateMiniblockInfo h a b v) = sv_heap v"
  "sv_membershipContent (updateMiniblockInfo h a b v) = sv_membershipContent v"
  "sv_content (updateMiniblockInfo h a b v) = sv_content v"
  "event_of (updateMiniblockInfo h a b v) r = event_of v r"
  "heap_hashes (updateMiniblockInfo h a b v) = heap_hashes v"
  by (simp_all add: updateMiniblockInfo_def Let_def event_of_def heap_hashes_def split: option.split)

subsection \<open>Invariant\<close>

text \<open>The minipool holds every event under its hash; the range of miniblocks is not empty; the
  member list is in sync.\<close>

definition pool_ok :: "string list \<Rightarrow> (string, event_ref) jsmap \<Rightarrow> bool" where
  "pool_ok hs pool \<longleftrightarrow>
     distinct (map fst pool) \<and> (\<forall>k r. map_get pool k = Some r \<longrightarrow> r < length hs \<and> hs ! r = k)"

definition info_ok :: "MiniblockInfo option \<Rightarrow> bool" where
  "info_ok i \<longleftrightarrow> (case i of None \<Rightarrow> True | Some info \<Rightarrow> mi_min info \<le> mi_max info)"

definition sv_inv :: "StreamView \<Rightarrow> bool" where
  "sv_inv v \<longleftrightarrow> pool_ok (heap_hashes v) (sv_minipoolEvents v) \<and> info_ok (sv_miniblockInfo v) \<and>
     members_inv (sv_membershipContent v)"

lemma sv_inv_pool: "sv_inv v \<Longrightarrow> pool_ok (heap_hashes v) (sv_minipoolEvents v)"
  by (simp add: sv_inv_def)

lemma pool_ok_delete: "pool_ok hs pool \<Longrightarrow> pool_ok hs (map_delete k pool)"
  by (auto simp: pool_ok_def)

lemma pool_ok_set: "pool_ok hs pool \<Longrightarrow> r < length hs \<Longrightarrow> pool_ok hs (map_set (hs ! r) r pool)"
  by (auto simp: pool_ok_def)

lemma pool_ok_append: "pool_ok hs pool \<Longrightarrow> pool_ok (hs @ hs') pool"
  by (fastforce simp: pool_ok_def nth_append)

lemma pool_ok_new: "pool_ok hs pool \<Longrightarrow> n = length hs \<Longrightarrow> pool_ok (hs @ [k]) (map_set k n pool)"
  using pool_ok_set[of "hs @ [k]" pool n] pool_ok_append[of hs pool "[k]"] by simp

lemma pool_ok_has: "pool_ok hs pool \<Longrightarrow> map_get pool k = Some r \<Longrightarrow> r < length hs \<and> hs ! r = k"
  by (simp add: pool_ok_def)

lemma updateMiniblockInfo_ok:
  "info_ok (sv_miniblockInfo v) \<Longrightarrow> info_ok (sv_miniblockInfo (updateMiniblockInfo h a b v))"
  by (auto simp: updateMiniblockInfo_def info_ok_def Let_def split: option.splits)

lemma members_view_inv:
  "members_inv m \<Longrightarrow> members_inv (st_of (members_prependEvent E se e m))"
  "members_inv m \<Longrightarrow> members_inv (st_of (members_onDecryptedContent E' eid d se m))"
  by (simp_all add: members_inv_core[OF prependEvent_core] members_inv_core[OF onDecryptedContent_core])

text \<open>What processing an event keeps: the invariant and the hashes of the store.\<close>

definition keeps :: "StreamView \<Rightarrow> StreamView \<Rightarrow> bool" where
  "keeps v v' \<longleftrightarrow> heap_hashes v' = heap_hashes v \<and> (sv_inv v \<longrightarrow> sv_inv v')"

lemma keeps_refl [simp, intro]: "keeps v v"
  by (simp add: keeps_def)

lemma keeps_trans: "keeps u v \<Longrightarrow> keeps v w \<Longrightarrow> keeps u w"
  by (simp add: keeps_def)

lemma keeps_length: "keeps v v' \<Longrightarrow> length (sv_heap v') = length (sv_heap v)"
  unfolding keeps_def by (metis length_heap_hashes)

lemma keeps_and_then:
  assumes "keeps v (st_of r)" "\<And>v1. keeps v v1 \<Longrightarrow> keeps v (st_of (f v1))"
  shows "keeps v (st_of (and_then r f))"
  using assms by (simp add: st_of_and_then)

lemma keeps_on_content: "keeps v (st_of (on_content f v))"
  by (simp add: keeps_def sv_inv_def)

lemma keeps_on_members:
  "(members_inv (sv_membershipContent v) \<Longrightarrow> members_inv (st_of (f (sv_membershipContent v)))) \<Longrightarrow>
   keeps v (st_of (on_members f v))"
  by (simp add: keeps_def sv_inv_def)

lemma keeps_set_event: "se_hashStr e = se_hashStr (event_of v r) \<Longrightarrow> keeps v (set_event r e v)"
  by (simp add: keeps_def sv_inv_def)

lemma keeps_on_content_event:
  assumes "\<And>e c. se_hashStr (snd (st_of (f e c))) = se_hashStr e"
  shows "keeps v (st_of (on_content_event f r v))"
  using assms by (simp add: keeps_def sv_inv_def on_content_event_st)

lemma keeps_confirm_event: "keeps (fst vc) (fst (st_of (confirm_event E h se ih vc)))"
proof -
  obtain v c where vc: "vc = (v, c)" by (cases vc)
  obtain i hash where ih: "ih = (i, hash)" by (cases ih)
  let ?id = "bin_toHexString E hash"
  show ?thesis
  proof (cases "map_get (sv_minipoolEvents v) ?id")
    case None
    then show ?thesis by (simp add: vc ih confirm_event_def)
  next
    case (Some r)
    let ?e = "(event_of v r)\<lparr>se_miniblockNum := Some (mh_miniblockNum h),
        se_confirmedEventNum := Some (mh_eventNumOffset h + int i)\<rparr>"
    let ?v1 = "set_event r ?e (v\<lparr>sv_minipoolEvents := map_delete ?id (sv_minipoolEvents v)\<rparr>)"
    have k: "keeps v ?v1" by (auto simp: keeps_def sv_inv_def intro: pool_ok_delete)
    have "keeps ?v1 (st_of (on_members (members_onConfirmedEvent E se ?e) ?v1))"
      by (intro keeps_on_members members_onConfirmedEvent_inv)
    moreover have "keeps ?v1 (st_of (on_content (content_onConfirmedEvent ?e) ?v1))"
      by (rule keeps_on_content)
    ultimately show ?thesis
      using Some k unfolding vc ih confirm_event_def
      by (auto simp: Let_def st_of_and_then split: option.split payload.split intro: keeps_trans)
  qed
qed

lemma keeps_for_each_fst:
  assumes "\<And>x s. x \<in> set xs \<Longrightarrow> keeps (fst s) (fst (st_of (f x s)))"
  shows "keeps (fst s) (fst (st_of (for_each f xs s)))"
  by (rule for_each_inv) (auto intro: keeps_trans assms)

lemma keeps_processMiniblockHeader: "keeps v (fst (st_of (processMiniblockHeader E h se v)))"
  unfolding processMiniblockHeader_def
  using keeps_for_each_fst[where s = "(v, [])" and f = "confirm_event E h se", OF keeps_confirm_event]
  by simp

lemma keeps_append_header: "keeps v (fst (st_of (append_header E r h se v)))"
proof -
  let ?v1 = "v\<lparr>sv_prevMiniblockHash := map_option pe_hash (se_remoteEvent (event_of v r)),
      sv_prevMiniblockNum := Some (mh_miniblockNum h)\<rparr>"
  let ?v2 = "updateMiniblockInfo h (Some (mh_miniblockNum h)) None ?v1"
  let ?v3 = "set_event r ((event_of ?v2 r)\<lparr>
      se_confirmedEventNum := Some (mh_eventNumOffset h + int (length (mh_eventHashes h))),
      se_miniblockNum := Some (mh_miniblockNum h)\<rparr>) ?v2"
  have "keeps v ?v2" by (auto simp: keeps_def sv_inv_def intro: updateMiniblockInfo_ok)
  moreover have "keeps ?v2 ?v3" by (rule keeps_set_event) simp
  ultimately have "keeps v (fst (st_of (processMiniblockHeader E h se ?v3)))"
    using keeps_processMiniblockHeader keeps_trans by blast
  then show ?thesis
    unfolding append_header_def by (auto simp: Let_def split: prod.split option.split)
qed

lemma keeps_processAppendedEvent:
  assumes "r < length (sv_heap v)"
  shows "keeps v (fst (st_of (processAppendedEvent E r ct ee se v)))"
proof -
  let ?e = "event_of v r"
  let ?v = "if is_header ?e then v
    else v\<lparr>sv_minipoolEvents := map_set (se_hashStr ?e) r (sv_minipoolEvents v)\<rparr>"
  have k: "keeps v ?v"
    using pool_ok_set[of "heap_hashes v" "sv_minipoolEvents v" r] assms
    by (auto simp: keeps_def sv_inv_def heap_hashes_nth)
  have "keeps ?v (fst (st_of (append_header E r h se ?v)))" for h by (rule keeps_append_header)
  moreover have "keeps ?v (st_of (on_members (members_appendEvent E ct ee se ?e) ?v))"
    by (intro keeps_on_members members_appendEvent_inv)
  moreover have "keeps ?v (st_of (on_content_event (content_appendEvent E ct ee se) r ?v))"
    by (rule keeps_on_content_event) simp
  ultimately show ?thesis
    using k unfolding processAppendedEvent_def
    by (auto simp: Let_def split: option.split payload.split intro: keeps_trans)
qed

lemma keeps_processPrependedEvent: "keeps v (st_of (processPrependedEvent E r ct ee se v))"
proof -
  have "keeps v ((updateMiniblockInfo h a b v)\<lparr>sv_prevSnapshotMiniblockNum := n\<rparr>)" for h a b n
    by (auto simp: keeps_def sv_inv_def intro: updateMiniblockInfo_ok)
  moreover have "keeps v (st_of (on_members (members_prependEvent E se (event_of v r)) v))"
    by (intro keeps_on_members members_view_inv)
  moreover have "keeps v (st_of (on_content_event (content_prependEvent E ct ee) r v))"
    by (rule keeps_on_content_event) simp
  ultimately show ?thesis
    unfolding processPrependedEvent_def by (auto split: option.split payload.split)
qed

subsection \<open>Batches\<close>

lemma new_event_sels [simp]:
  "fst (new_event e v) = length (sv_heap v)" "sv_heap (snd (new_event e v)) = sv_heap v @ [e]"
  "sv_minipoolEvents (snd (new_event e v)) = sv_minipoolEvents v"
  "heap_hashes (snd (new_event e v)) = heap_hashes v @ [se_hashStr e]"
  by (simp_all add: new_event_def heap_hashes_def)

lemma new_event_inv: "sv_inv v \<Longrightarrow> sv_inv (snd (new_event e v))"
  by (simp add: sv_inv_def new_event_def heap_hashes_def pool_ok_append)

lemma new_events_inv:
  "sv_inv v \<Longrightarrow> sv_inv (snd (new_events es v))"
  "heap_hashes (snd (new_events es v)) = heap_hashes v @ map se_hashStr es"
  by (simp_all add: sv_inv_def new_events_def heap_hashes_def pool_ok_append)

text \<open>Every event of a batch is in the list of appended or in the list of updated events.\<close>

definition batch_ok :: "ParsedEvent list \<Rightarrow> StreamView \<Rightarrow> batch \<Rightarrow> bool" where
  "batch_ok es v b \<longleftrightarrow>
     (\<forall>r \<in> set (ba_appended b @ ba_updated b). r < length (heap_hashes v)) \<and>
     mset (map (\<lambda>r. heap_hashes v ! r) (ba_appended b @ ba_updated b)) = mset (map pe_hashStr es)"

lemma batch_ok_hashes:
  assumes "batch_ok es v b" "heap_hashes v' = heap_hashes v @ hs"
  shows "batch_ok es v' b"
proof -
  have "map (\<lambda>r. heap_hashes v' ! r) (ba_appended b @ ba_updated b) =
      map (\<lambda>r. heap_hashes v ! r) (ba_appended b @ ba_updated b)"
    using assms by (intro map_cong) (auto simp: batch_ok_def nth_append)
  moreover have "length (heap_hashes v) \<le> length (heap_hashes v')"
    unfolding assms(2) by (simp only: length_append le_add1)
  ultimately show ?thesis using assms(1) unfolding batch_ok_def
    by (metis order_less_le_trans)
qed

lemma batch_ok_snoc:
  assumes "batch_ok es v b" "r < length (heap_hashes v)" "heap_hashes v ! r = pe_hashStr p"
  shows "batch_ok (es @ [p]) v (b\<lparr>ba_updated := ba_updated b @ [r]\<rparr>)"
    "batch_ok (es @ [p]) v (b\<lparr>ba_appended := ba_appended b @ [r], ba_confirmed := c\<rparr>)"
  using assms by (auto simp: batch_ok_def)

lemma processAppendedEvent_ok:
  "map_get (sv_minipoolEvents v) (se_hashStr (event_of v r)) = None \<Longrightarrow>
   exn_of (processAppendedEvent E r ct ee se v) = None"
  by (simp add: processAppendedEvent_def Let_def)

lemma append_one_ok:
  assumes "sv_inv v" "batch_ok es v b"
  shows "exn_of (append_one E cts ee se p (v, b)) = None \<and>
    sv_inv (fst (st_of (append_one E cts ee se p (v, b)))) \<and>
    batch_ok (es @ [p]) (fst (st_of (append_one E cts ee se p (v, b))))
      (snd (st_of (append_one E cts ee se p (v, b))))"
proof (cases "map_get (sv_minipoolEvents v) (pe_hashStr p)")
  case (Some r)
  let ?v = "set_event r ((event_of v r)\<lparr>se_remoteEvent := Some p\<rparr>) v"
  have r: "r < length (heap_hashes v)" "heap_hashes v ! r = pe_hashStr p"
    using pool_ok_has[OF sv_inv_pool[OF assms(1)] Some] by simp_all
  have "keeps v ?v" by (rule keeps_set_event) simp
  then have "sv_inv ?v" "heap_hashes ?v = heap_hashes v" using assms(1) by (auto simp: keeps_def)
  moreover have "batch_ok (es @ [p]) ?v (b\<lparr>ba_updated := ba_updated b @ [r]\<rparr>)"
    using batch_ok_snoc(1)[of es ?v b r p] assms(2) r calculation(2) by (simp add: batch_ok_def)
  ultimately show ?thesis using Some by (simp add: append_one_def)
next
  case None
  let ?e = "makeRemoteTimelineEvent p (sv_lastEventNum v) None None"
  let ?v0 = "v\<lparr>sv_lastEventNum := sv_lastEventNum v + 1\<rparr>"
  let ?r = "length (sv_heap v)" and ?v1 = "v\<lparr>sv_lastEventNum := sv_lastEventNum v + 1, sv_heap := sv_heap v @ [?e]\<rparr>"
  let ?p = "processAppendedEvent E ?r (get_cleartext cts (se_hashStr ?e)) ee se ?v1"
  have ne: "new_event ?e ?v0 = (?r, ?v1)" by (simp add: new_event_def)
  have hash: "se_hashStr ?e = pe_hashStr p" by (simp add: makeRemoteTimelineEvent_def)
  have ev: "event_of ?v1 ?r = ?e" by (simp add: event_of_def)
  have hs: "heap_hashes ?v1 = heap_hashes v @ [pe_hashStr p]" by (simp add: heap_hashes_def hash)
  have inv1: "sv_inv ?v1" using assms(1) hs by (auto simp: sv_inv_def pool_ok_append)
  have "exn_of ?p = None" using None by (intro processAppendedEvent_ok) (simp add: ev hash)
  moreover have k: "keeps ?v1 (fst (st_of ?p))" by (rule keeps_processAppendedEvent) simp
  moreover have "batch_ok (es @ [p]) (fst (st_of ?p))
      (b\<lparr>ba_appended := ba_appended b @ [?r], ba_confirmed := c\<rparr>)" for c
  proof (rule batch_ok_snoc(2))
    show "batch_ok es (fst (st_of ?p)) b"
      using batch_ok_hashes[OF assms(2)] k hs by (simp add: keeps_def)
  next
    have "heap_hashes (fst (st_of ?p)) = heap_hashes v @ [pe_hashStr p]" using k hs by (simp add: keeps_def)
    then show "?r < length (heap_hashes (fst (st_of ?p)))"
      "heap_hashes (fst (st_of ?p)) ! ?r = pe_hashStr p"
      by (simp_all add: nth_append del: length_heap_hashes)
        (simp_all add: length_heap_hashes)
  qed
  ultimately show ?thesis
    using None inv1 unfolding append_one_def
    by (cases "st_of ?p") (simp add: ne Let_def keeps_def)
qed

lemma append_all_ok:
  assumes "sv_inv v" "batch_ok es0 v b"
  shows "exn_of (for_each (append_one E cts ee se) es (v, b)) = None \<and>
    sv_inv (fst (st_of (for_each (append_one E cts ee se) es (v, b)))) \<and>
    batch_ok (es0 @ es) (fst (st_of (for_each (append_one E cts ee se) es (v, b))))
      (snd (st_of (for_each (append_one E cts ee se) es (v, b))))"
  using assms
proof (induction es arbitrary: es0 v b)
  case Nil
  then show ?case by simp
next
  case (Cons p es)
  obtain v1 b1 where s: "st_of (append_one E cts ee se p (v, b)) = (v1, b1)"
    by (cases "st_of (append_one E cts ee se p (v, b))")
  note one = append_one_ok[OF Cons.prems, of E cts ee se p]
  show ?case
    using Cons.IH[of v1 "es0 @ [p]" b1] one by (simp add: and_then_sels s)
qed

lemma appendStreamAndCookie_ok:
  assumes r_def: "r = appendStreamAndCookie E cookie es cts ee se v" and "sv_inv v"
  shows "exn_of r = None" "sv_inv (fst (st_of r))" "batch_ok es (fst (st_of r)) (snd (st_of r))"
    "sv_syncCookie (fst (st_of r)) = Some cookie"
proof -
  let ?b = "\<lparr>ba_appended = [], ba_updated = [], ba_confirmed = []\<rparr>"
  have b: "batch_ok [] v ?b" by (simp add: batch_ok_def)
  let ?f = "for_each (append_one E cts ee se) es (v, ?b)"
  note all = append_all_ok[OF assms(2) b, of E cts ee se es]
  have r: "st_of r = ((fst (st_of ?f))\<lparr>sv_syncCookie := Some cookie\<rparr>, snd (st_of ?f))" "exn_of r = None"
    using all unfolding r_def appendStreamAndCookie_def
    by (simp_all add: and_then_sels split: prod.split)
  show "exn_of r = None" "sv_syncCookie (fst (st_of r)) = Some cookie" using r by simp_all
  show "sv_inv (fst (st_of r))" using r all by (simp add: sv_inv_def)
  show "batch_ok es (fst (st_of r)) (snd (st_of r))" using r all by (simp add: batch_ok_def)
qed

subsection \<open>Sequences of calls\<close>

lemma prepend_refs_keeps: "keeps v (st_of (prepend_refs E cts ee se rs v))"
  unfolding prepend_refs_def
  by (rule for_each_inv) (auto intro: keeps_trans keeps_processPrependedEvent)

lemma prepend_refs_ok: "exn_of (prepend_refs E cts ee se rs v) = None"
proof -
  have "exn_of (for_each (\<lambda>r v. processPrependedEvent E r (c r v) ee se v) xs v) = None" for c xs v
    by (induction xs arbitrary: v) (simp_all add: exn_of_and_then processPrependedEvent_def)
  then show ?thesis by (simp add: prepend_refs_def)
qed

lemma prependEvents_ok:
  assumes "sv_inv v"
  shows "sv_inv (fst (st_of (prependEvents E mbs cts t ee se v)))"
    "exn_of (prependEvents E mbs cts t ee se v) = None"
proof -
  let ?n = "new_events (concat (map block_events mbs)) v"
  have "keeps (snd ?n) (st_of (prepend_refs E cts ee se (fst ?n) (snd ?n)))"
    by (rule prepend_refs_keeps)
  then have "sv_inv (st_of (prepend_refs E cts ee se (fst ?n) (snd ?n)))"
    using new_events_inv(1)[OF assms] by (simp add: keeps_def)
  then show "sv_inv (fst (st_of (prependEvents E mbs cts t ee se v)))"
    unfolding prependEvents_def
    by (cases ?n) (auto simp: Let_def st_of_and_then prepend_refs_ok sv_inv_def info_ok_def split: option.splits)
  show "exn_of (prependEvents E mbs cts t ee se v) = None"
    unfolding prependEvents_def
    by (cases ?n) (simp add: Let_def exn_of_and_then prepend_refs_ok)
qed

lemma appendEvents_inv: "sv_inv v \<Longrightarrow> sv_inv (st_of (appendEvents E es cookie cts v))"
  by (simp add: appendEvents_def then_with_sels appendStreamAndCookie_ok[OF refl])

lemma appendLocalEvent_inv:
  assumes "sv_inv v"
  shows "sv_inv (fst (st_of (appendLocalEvent nano now msg status em v)))"
  using assms unfolding sv_inv_def appendLocalEvent_def
  by (simp add: Let_def new_event_def st_of_and_then heap_hashes_def pool_ok_new)

lemma pool_ok_rename:
  assumes "pool_ok hs pool" "map_get pool k = Some r"
  shows "pool_ok (hs[r := k']) (map_set k' r (map_delete k pool))"
proof -
  have "r < length hs" using assms by (auto simp: pool_ok_def)
  moreover have "hs[r := k'] ! r' = j" if "map_get pool j = Some r'" "j \<noteq> k" for j r'
  proof -
    have "hs ! r = k" "hs ! r' = j" "r' < length hs" using assms that(1) by (auto simp: pool_ok_def)
    then show ?thesis using that(2) by (metis nth_list_update_neq)
  qed
  moreover have "r' < length hs" if "map_get pool j = Some r'" for j r'
    using assms(1) that by (auto simp: pool_ok_def)
  moreover have "distinct (map fst (map_set k' r (map_delete k pool)))"
    using assms(1) by (auto simp: pool_ok_def)
  ultimately show ?thesis unfolding pool_ok_def by auto
qed

lemma updateLocalEvent_inv:
  assumes "sv_inv v"
  shows "sv_inv (st_of (updateLocalEvent lid h status em v))"
proof -
  let ?get = "map_get (sv_minipoolEvents v)"
  have "sv_inv (st_of (updateLocalEvent lid h status em v))"
    if "(case ?get lid of Some r \<Rightarrow> Some r | None \<Rightarrow> ?get h) = Some r" for r
  proof -
    have "\<exists>k. ?get k = Some r" using that by (cases "?get lid") (simp; blast)+
    then obtain k where k: "?get k = Some r" by blast
    have r: "r < length (sv_heap v)" "se_hashStr (event_of v r) = k"
      using pool_ok_has[OF sv_inv_pool[OF assms] k] by (auto simp: heap_hashes_nth)
    have "pool_ok ((heap_hashes v)[r := h]) (map_set h r (map_delete k (sv_minipoolEvents v)))"
      by (rule pool_ok_rename[OF sv_inv_pool[OF assms] k])
    moreover have "heap_hashes (set_event r e v) = (heap_hashes v)[r := se_hashStr e]" for e
      by (simp add: heap_hashes_def set_event_def map_update)
    ultimately show ?thesis
      using that r assms unfolding updateLocalEvent_def
      by (auto simp: Let_def sv_inv_def split: option.split)
  qed
  then show ?thesis
    using assms by (cases "case ?get lid of Some r \<Rightarrow> Some r | None \<Rightarrow> ?get h")
      (auto simp: updateLocalEvent_def)
qed

lemma updateDecryptedContent_inv: "sv_inv v \<Longrightarrow> sv_inv (st_of (updateDecryptedContent E eid d v))"
  by (auto simp: updateDecryptedContent_def st_of_and_then sv_inv_def intro: members_view_inv)

datatype (plugins only: code) sv_call =
    SvAppend "ParsedEvent list" SyncCookie "(string, cleartext) jsmap option"
  | SvPrepend "ParsedMiniblock list" "(string, cleartext) jsmap option" bool
  | SvAppendLocal string int ChannelMessage LocalEventStatus
  | SvUpdateLocal string string LocalEventStatus
  | SvDecrypted string DecryptedContent
  | SvDecryptedError string DecryptionSessionError

text \<open>The methods of \<open>Stream\<close>, each with the stream as emitter.\<close>

definition stream_step ::
  "'a protocol_externs_scheme \<Rightarrow> sv_call \<Rightarrow> StreamView \<Rightarrow> (StreamView, sv_out) res" where
  "stream_step E call v =
     (case call of
        SvAppend es cookie cts \<Rightarrow> appendEvents E es cookie cts v
      | SvPrepend mbs cts terminus \<Rightarrow> map_res fst (prependEvents E mbs cts terminus True True v)
      | SvAppendLocal nano11 now msg status \<Rightarrow> map_res fst (appendLocalEvent nano11 now msg status True v)
      | SvUpdateLocal lid h status \<Rightarrow> updateLocalEvent lid h status True v
      | SvDecrypted eid d \<Rightarrow> updateDecryptedContent E eid d v
      | SvDecryptedError eid e \<Rightarrow> updateDecryptedContentError eid e v)"

interpretation svc: component sv_inv "stream_step E" for E
  by unfold_locales
    (auto simp: stream_step_def updateDecryptedContentError_def split: sv_call.splits
      intro: appendEvents_inv prependEvents_ok(1) appendLocalEvent_inv updateLocalEvent_inv
        updateDecryptedContent_inv)

subsection \<open>Initialization\<close>

lemma sv_inv_frame:
  "sv_inv (v\<lparr>sv_lastEventNum := n, sv_prevMiniblockHash := h, sv_prevMiniblockNum := k\<rparr>) = sv_inv v"
  "sv_inv (v\<lparr>sv_prevSnapshotMiniblockNum := j\<rparr>) = sv_inv v"
  "sv_inv (v\<lparr>sv_lastEventNum := n\<rparr>) = sv_inv v"
  "sv_inv (v\<lparr>sv_streamStatus := st\<rparr>) = sv_inv v"
  by (simp_all add: sv_inv_def heap_hashes_def)

lemma then_with_inv:
  assumes "I (fst (st_of r))" "\<And>x v. I v \<Longrightarrow> I (st_of (f x v))"
  shows "I (st_of (then_with r f))"
  using assms by (simp add: then_with_sels)

lemma content_onAppendLocalEvent_ok: "exn_of (content_onAppendLocalEvent em e c) = None"
  by (simp add: content_onAppendLocalEvent_def dm_onAppendLocalEvent_def gdm_onAppendLocalEvent_def
      split: content.split)

lemma restore_local_inv: "sv_inv (fst vr) \<Longrightarrow> sv_inv (fst (st_of (restore_local em e vr)))"
  using new_event_inv[of "(fst vr)\<lparr>sv_lastEventNum := sv_lastEventNum (fst vr) + 1\<rparr>"
      "e\<lparr>se_eventNum := sv_lastEventNum (fst vr)\<rparr>"]
  by (cases vr) (simp add: restore_local_def Let_def new_event_def sv_inv_frame sv_inv_def)

lemma finish_initialize_inv:
  assumes "sv_inv v"
  shows "sv_inv (st_of (finish_initialize em es p t a v))"
proof -
  have "sv_inv (fst (st_of (for_each (restore_local em) es (v, []))))"
    by (rule for_each_inv) (auto intro: restore_local_inv assms)
  then show ?thesis
    unfolding finish_initialize_def
    by (rule then_with_inv) (simp add: Let_def sv_inv_frame)
qed

lemma append_rest_keeps:
  assumes "\<forall>r \<in> set rs. r < length (sv_heap v)"
  shows "keeps v (st_of (append_rest E cts em rs v))"
  unfolding append_rest_def
  by (rule for_each_inv)
    (use assms in \<open>auto intro: keeps_trans[OF _ keeps_processAppendedEvent] simp: keeps_length\<close>)

lemma initialize_minipool_inv:
  assumes "sv_inv v"
  shows "sv_inv (st_of (initialize_minipool E cookie es pmbs n cts les em tes v))"
  unfolding initialize_minipool_def
proof (rule then_with_inv[of sv_inv])
  show "sv_inv (fst (st_of (appendStreamAndCookie E cookie es cts em False v)))"
    by (rule appendStreamAndCookie_ok(2)[OF refl assms])
next
  fix b v1
  assume "sv_inv v1"
  then have v2: "sv_inv (v1\<lparr>sv_prevSnapshotMiniblockNum := n\<rparr>)" by (simp only: sv_inv_frame)
  show "sv_inv (st_of (let v2 = v1\<lparr>sv_prevSnapshotMiniblockNum := n\<rparr>
       in case pmbs of
            [] \<Rightarrow> finish_initialize em les [] tes (ba_appended b) v2
          | pmb # _ \<Rightarrow> then_with (prependEvents E pmbs cts (mh_miniblockNum (mb_header pmb) = 0) em False v2)
              (\<lambda>prepended. finish_initialize em les prepended tes (ba_appended b))))"
    unfolding Let_def
    by (cases pmbs) (simp_all only: list.case finish_initialize_inv[OF v2]
        then_with_inv[of sv_inv, OF prependEvents_ok(1)[OF v2] finish_initialize_inv])
qed

lemma initialize_blocks_inv:
  assumes "sv_inv v"
  shows "sv_inv (fst (st_of (initialize_blocks E mb0 blocks cts em v)))"
proof -
  obtain b0 v1 where 1: "new_events (block_events mb0) v = (b0, v1)" by fastforce
  obtain rest v2 where 2: "new_events (concat (map block_events blocks)) v1 = (rest, v2)" by fastforce
  have inv2: "sv_inv v2"
    using new_events_inv(1)[OF assms, of "block_events mb0"] new_events_inv(1)[of v1] 1 2
    by (metis snd_conv)
  have r: "\<forall>r \<in> set rest. r < length (sv_heap v2)" using 2 by (auto simp: new_events_def)
  let ?v3 = "st_of (prepend_refs E cts em False b0 v2)"
  have k3: "keeps v2 ?v3" by (rule prepend_refs_keeps)
  moreover have "keeps ?v3 (st_of (append_rest E cts em rest ?v3))"
    using append_rest_keeps r keeps_length[OF k3] by metis
  ultimately have "sv_inv ?v3" "sv_inv (st_of (append_rest E cts em rest ?v3))"
    using inv2 by (simp_all add: keeps_def)
  then show ?thesis
    unfolding initialize_blocks_def 1 2 by (simp add: 1 2 Let_def st_of_and_then sv_inv_frame)
qed

text \<open>Once the snapshot has been applied, the invariant holds, and the rest of \<open>initialize\<close> keeps
  it.\<close>

lemma initialize_inv:
  assumes "exn_of (initialize E cookie es snap (mb0 # blocks) pmbs n cts les em v0) = None"
    and "exn_of (applySnapshot E (last (mb_events mb0)) snap cts em v0) = None \<Longrightarrow>
      sv_inv (st_of (applySnapshot E (last (mb_events mb0)) snap cts em v0))"
  shows "sv_inv (st_of (initialize E cookie es snap (mb0 # blocks) pmbs n cts les em v0))"
proof -
  have ne: "mb_events mb0 \<noteq> []" and ok: "exn_of (applySnapshot E (last (mb_events mb0)) snap cts em v0) = None"
    using assms(1) by (auto simp: initialize_def exn_of_and_then split: if_splits)
  have "initialize E cookie es snap (mb0 # blocks) pmbs n cts les em v0 =
      and_then (applySnapshot E (last (mb_events mb0)) snap cts em v0) (\<lambda>v1.
        then_with (initialize_blocks E mb0 blocks cts em v1)
          (initialize_minipool E cookie es pmbs n cts les em))"
    using ne by (simp add: initialize_def)
  then show ?thesis
    using then_with_inv[of sv_inv, OF initialize_blocks_inv[OF assms(2)[OF ok]] initialize_minipool_inv]
    by (simp only: st_of_and_then ok if_True simp_thms)
qed

lemma applySnapshot_inv:
  assumes "new_StreamView E userId streamId views = Inr v0"
    and "migrateSnapshot E snap = Inr snap'" "sn_members snap' = Some ms"
    and "distinct (map (\<lambda>s. userIdFromAddress E (sm_userAddress s)) (mss_joined ms))"
    and "\<forall>s \<in> set (mss_joined ms). solicitations_ok (sm_solicitations s)"
    and "exn_of (applySnapshot E ev snap cts em v0) = None"
  shows "sv_inv (st_of (applySnapshot E ev snap cts em v0))"
proof -
  have v0: "sv_heap v0 = []" "sv_minipoolEvents v0 = []" "sv_miniblockInfo v0 = None"
    "sv_membershipContent v0 = new_Members streamId (vw_streamMemberIds views)"
    using assms(1) by (auto simp: new_StreamView_def bindE_Inr_iff)
  let ?c = "content_applySnapshot E cts em (sn_content snap') (sv_content v0)"
  let ?m = "members_applySnapshot E ev snap' cts em (sv_membershipContent v0)"
  have eq: "applySnapshot E ev snap cts em v0 =
      and_then (on_content (content_applySnapshot E cts em (sn_content snap')) v0)
        (on_members (members_applySnapshot E ev snap' cts em))"
    by (simp only: applySnapshot_def assms(2) sum.case)
  have ok: "exn_of ?c = None" "exn_of ?m = None"
    using assms(6) unfolding eq exn_of_and_then by (simp_all split: if_splits)
  have st: "st_of (applySnapshot E ev snap cts em v0) =
      v0\<lparr>sv_content := st_of ?c, sv_membershipContent := st_of ?m\<rparr>"
    unfolding eq st_of_and_then by (simp add: ok)
  have "members_inv (st_of ?m)"
    using members_applySnapshot_inv[OF assms(3) _ assms(4,5)] ok(2) unfolding v0(4) by blast
  then show ?thesis
    unfolding st sv_inv_def by (simp add: v0 info_ok_def pool_ok_def)
qed

subsection \<open>Confirmation\<close>

text \<open>What a miniblock header writes into the event at position \<open>i\<close>.\<close>

definition confirmed_as :: "miniblock_header \<Rightarrow> nat \<Rightarrow> StreamTimelineEvent \<Rightarrow> StreamTimelineEvent" where
  "confirmed_as header i e =
     e\<lparr>se_miniblockNum := Some (mh_miniblockNum header),
       se_confirmedEventNum := Some (mh_eventNumOffset header + int i)\<rparr>"

definition is_member_event :: "StreamTimelineEvent \<Rightarrow> bool" where
  "is_member_event e = (case event_payload e of Some (PlMember _) \<Rightarrow> True | _ \<Rightarrow> False)"

lemma confirmed_as_sels [simp]:
  "event_payload (confirmed_as h i e) = event_payload e"
  "isConfirmedEvent (confirmed_as h i e) = isRemoteEvent e"
  "se_hashStr (confirmed_as h i e) = se_hashStr e"
  by (simp_all add: confirmed_as_def event_payload_def isConfirmedEvent_def isRemoteEvent_def)

lemma confirm_event_step:
  fixes res
  assumes "map_get (sv_minipoolEvents v) (bin_toHexString E hash) = Some r"
    and "res = confirm_event E h se (i, hash) (v, c)"
  shows "sv_heap (fst (st_of res)) = (sv_heap v)[r := confirmed_as h i (event_of v r)]"
    and "sv_minipoolEvents (fst (st_of res)) = map_delete (bin_toHexString E hash) (sv_minipoolEvents v)"
    and "snd (st_of res) = (if exn_of res = None then c @ [r] else c)"
    and "exn_of res \<noteq> None \<Longrightarrow> \<not> isRemoteEvent (event_of v r) \<or> is_member_event (event_of v r)"
    and "isRemoteEvent (event_of v r) = False \<Longrightarrow> exn_of res \<noteq> None"
proof -
  let ?e = "confirmed_as h i (event_of v r)"
  let ?v1 = "set_event r ?e
    (v\<lparr>sv_minipoolEvents := map_delete (bin_toHexString E hash) (sv_minipoolEvents v)\<rparr>)"
  let ?h = "case event_payload (event_of v r) of
      Some (PlMember _) \<Rightarrow> on_members (members_onConfirmedEvent E se ?e) ?v1
    | None \<Rightarrow> ok ?v1 []
    | Some _ \<Rightarrow> on_content (content_onConfirmedEvent ?e) ?v1"
  have eq: "res = (if \<not> isRemoteEvent (event_of v r) then throw (throwWithCode None) (?v1, c)
      else and_then (map_res (\<lambda>v. (v, c)) ?h) (\<lambda>(v, c). ok (v, c @ [r]) []))"
    using assms(1) unfolding assms(2) confirm_event_def
    by (simp add: Let_def confirmed_as_def[symmetric])
  have h: "sv_heap (st_of ?h) = (sv_heap v)[r := ?e]"
    "sv_minipoolEvents (st_of ?h) = map_delete (bin_toHexString E hash) (sv_minipoolEvents v)"
    "exn_of ?h \<noteq> None \<Longrightarrow> is_member_event (event_of v r)"
    by (auto simp: set_event_def is_member_event_def content_onConfirmedEvent_def
        split: option.splits payload.splits)
  have v1: "sv_heap ?v1 = (sv_heap v)[r := ?e]"
    "sv_minipoolEvents ?v1 = map_delete (bin_toHexString E hash) (sv_minipoolEvents v)"
    by (simp_all add: set_event_def)
  show "sv_heap (fst (st_of res)) = (sv_heap v)[r := ?e]"
    "sv_minipoolEvents (fst (st_of res)) = map_delete (bin_toHexString E hash) (sv_minipoolEvents v)"
    "snd (st_of res) = (if exn_of res = None then c @ [r] else c)"
    "exn_of res \<noteq> None \<Longrightarrow> \<not> isRemoteEvent (event_of v r) \<or> is_member_event (event_of v r)"
    "isRemoteEvent (event_of v r) = False \<Longrightarrow> exn_of res \<noteq> None"
    using h v1 unfolding eq by (auto simp: and_then_sels simp del: not_None_eq split: if_splits)
qed

text \<open>The loop confirms a prefix of the listed events: it runs to the end, or it stops at an event
  that is only local or whose member handler throws.\<close>

lemma confirm_loop:
  fixes res
  assumes "pool_ok (heap_hashes v) (sv_minipoolEvents v)"
    and "distinct (map (bin_toHexString E) hs)"
    and "\<forall>hash \<in> set hs. map_has (sv_minipoolEvents v) (bin_toHexString E hash)"
    and "res = for_each (confirm_event E h se) (zip [k..<k + length hs] hs) (v, c)"
    and "ref = (\<lambda>i. the (map_get (sv_minipoolEvents v) (bin_toHexString E (hs ! i))))"
  shows "\<exists>n \<le> length hs.
    snd (st_of res) = c @ map ref [0..<n] \<and> (exn_of res = None \<longleftrightarrow> n = length hs) \<and>
    (\<forall>i < length hs. event_of (fst (st_of res)) (ref i) =
       (if i \<le> n then confirmed_as h (k + i) (event_of v (ref i)) else event_of v (ref i))) \<and>
    (\<forall>j. map_get (sv_minipoolEvents (fst (st_of res))) j =
       (if j \<in> set (map (bin_toHexString E) (take (Suc n) hs)) then None
        else map_get (sv_minipoolEvents v) j)) \<and>
    (n < length hs \<longrightarrow> \<not> isRemoteEvent (event_of v (ref n)) \<or> is_member_event (event_of v (ref n))) \<and>
    (\<forall>r. r \<notin> ref ` {..<length hs} \<longrightarrow> event_of (fst (st_of res)) r = event_of v r)"
  using assms
proof (induction hs arbitrary: v c k res ref)
  case Nil
  then show ?case by simp
next
  case (Cons hash hs)
  let ?id = "bin_toHexString E"
  obtain r where r: "map_get (sv_minipoolEvents v) (?id hash) = Some r" using Cons.prems(3) by auto
  let ?one = "confirm_event E h se (k, hash) (v, c)"
  note step = confirm_event_step[OF r refl, of h se k c]
  let ?v1 = "fst (st_of ?one)" and ?rest = "zip [Suc k..<Suc k + length hs] hs"
  have zip: "zip [k..<k + length (hash # hs)] (hash # hs) = (k, hash) # ?rest"
    by (simp add: upt_conv_Cons del: upt_Suc)
  have res: "res = and_then ?one (for_each (confirm_event E h se) ?rest)"
    unfolding Cons.prems(4) zip by simp
  have rl: "r < length (sv_heap v)" "heap_hashes v ! r = ?id hash"
    using pool_ok_has[OF Cons.prems(1) r] by auto
  have ref0: "ref 0 = r" by (simp add: Cons.prems(5) r)
  have ev1: "event_of ?v1 r' = (if r' = r then confirmed_as h k (event_of v r) else event_of v r')" for r'
    using rl(1) unfolding event_of_def step(1) by (simp add: nth_list_update)
  have refS: "ref (Suc i) \<noteq> r" if il: "i < length hs" for i
  proof -
    have m: "?id (hs ! i) \<noteq> ?id hash" using Cons.prems(2) nth_mem[OF il] by (auto simp: image_iff)
    obtain r' where r': "map_get (sv_minipoolEvents v) (?id (hs ! i)) = Some r'"
      using Cons.prems(3) nth_mem[OF il] by auto
    show ?thesis
      using pool_ok_has[OF Cons.prems(1) r'] r' rl(2) m by (auto simp: Cons.prems(5))
  qed
  show ?case
  proof (cases "exn_of ?one")
    case (Some e)
    show ?thesis
    proof (intro exI[of _ 0] conjI allI impI)
      fix i assume "i < length (hash # hs)"
      then show "event_of (fst (st_of res)) (ref i) =
        (if i \<le> 0 then confirmed_as h (k + i) (event_of v (ref i)) else event_of v (ref i))"
        using Some ref0 refS by (cases i) (simp_all add: res and_then_sels ev1)
    next
      fix r' assume "r' \<notin> ref ` {..<length (hash # hs)}"
      then have "r' \<noteq> r" using ref0 by (auto simp: image_iff)
      then show "event_of (fst (st_of res)) r' = event_of v r'" using Some by (simp add: res and_then_sels ev1)
    qed (use Some step ref0 in \<open>auto simp: res and_then_sels\<close>)
  next
    case None
    obtain v1 c1 where vc: "st_of ?one = (v1, c1)" by fastforce
    have c1: "c1 = c @ [r]" using step(3) None vc by simp
    have pool1: "sv_minipoolEvents v1 = map_delete (?id hash) (sv_minipoolEvents v)"
      using step(2) vc by simp
    have get1: "map_get (sv_minipoolEvents v1) j =
        (if j = ?id hash then None else map_get (sv_minipoolEvents v) j)" for j
      by (simp only: pool1 map_get_delete)
    have "keeps v v1" using keeps_confirm_event[of "(v, c)" E h se "(k, hash)"] vc by simp
    then have p1: "pool_ok (heap_hashes v1) (sv_minipoolEvents v1)"
      unfolding pool1 keeps_def using Cons.prems(1) pool_ok_delete by metis
    have d: "distinct (map ?id hs)" "\<forall>hash' \<in> set hs. ?id hash' \<noteq> ?id hash"
      using Cons.prems(2) by (auto simp: image_iff)
    have has1: "\<forall>hash' \<in> set hs. map_has (sv_minipoolEvents v1) (?id hash')"
      using Cons.prems(3) d(2) by (simp add: get1)
    let ?ref1 = "\<lambda>i. the (map_get (sv_minipoolEvents v1) (?id (hs ! i)))"
    have ref1: "?ref1 i = ref (Suc i)" if "i < length hs" for i
      using d(2) that by (simp add: Cons.prems(5) get1)
    define res1 where "res1 = for_each (confirm_event E h se) ?rest (v1, c1)"
    have out: "st_of res = st_of res1" "exn_of res = exn_of res1"
      using None vc unfolding res res1_def by (simp_all add: and_then_sels)
    obtain n where n: "n \<le> length hs" "snd (st_of res1) = c1 @ map ?ref1 [0..<n]"
      "exn_of res1 = None \<longleftrightarrow> n = length hs"
      "\<forall>i < length hs. event_of (fst (st_of res1)) (?ref1 i) =
        (if i \<le> n then confirmed_as h (Suc k + i) (event_of v1 (?ref1 i)) else event_of v1 (?ref1 i))"
      "\<forall>j. map_get (sv_minipoolEvents (fst (st_of res1))) j =
        (if j \<in> set (map ?id (take (Suc n) hs)) then None else map_get (sv_minipoolEvents v1) j)"
      "n < length hs \<longrightarrow> \<not> isRemoteEvent (event_of v1 (?ref1 n)) \<or> is_member_event (event_of v1 (?ref1 n))"
      "\<forall>r. r \<notin> ?ref1 ` {..<length hs} \<longrightarrow> event_of (fst (st_of res1)) r = event_of v1 r"
      using Cons.IH[OF p1 d(1) has1 res1_def refl] by (elim exE conjE) (rule that)
    have ev1': "event_of v1 r' = (if r' = r then confirmed_as h k (event_of v r) else event_of v r')" for r'
      using ev1 vc by simp
    have img: "?ref1 ` {..<length hs} = (ref \<circ> Suc) ` {..<length hs}" by (rule image_cong) (simp_all add: ref1)
    show ?thesis
    proof (intro exI[of _ "Suc n"] conjI allI impI)
      show "Suc n \<le> length (hash # hs)" using n(1) by simp
      have "map ref [0..<Suc n] = r # map (ref \<circ> Suc) [0..<n]"
        by (simp add: upt_conv_Cons ref0 map_Suc_upt[symmetric] del: upt_Suc)
      moreover have "map ?ref1 [0..<n] = map (ref \<circ> Suc) [0..<n]"
        using n(1) ref1 by (intro map_cong) auto
      ultimately show "snd (st_of res) = c @ map ref [0..<Suc n]" unfolding out n(2) c1 by simp
      show "exn_of res = None \<longleftrightarrow> Suc n = length (hash # hs)" unfolding out using n(3) by simp
      show "event_of (fst (st_of res)) (ref i) =
          (if i \<le> Suc n then confirmed_as h (k + i) (event_of v (ref i)) else event_of v (ref i))"
        if i: "i < length (hash # hs)" for i
      proof (cases i)
        case 0
        have "r \<notin> ?ref1 ` {..<length hs}" unfolding img using refS by auto
        then show ?thesis unfolding out 0 ref0 using n(7) by (simp add: ev1')
      next
        case (Suc j)
        then have j: "j < length hs" using i by simp
        show ?thesis unfolding out Suc using n(4)[rule_format, OF j] refS[OF j] by (simp add: ref1[OF j] ev1')
      qed
      show "map_get (sv_minipoolEvents (fst (st_of res))) j =
          (if j \<in> set (map ?id (take (Suc (Suc n)) (hash # hs))) then None
           else map_get (sv_minipoolEvents v) j)" for j
        unfolding out n(5)[rule_format] get1 by auto
      show "\<not> isRemoteEvent (event_of v (ref (Suc n))) \<or> is_member_event (event_of v (ref (Suc n)))"
        if "Suc n < length (hash # hs)"
        using n(6) that refS[of n] by (simp add: ref1 ev1')
      show "event_of (fst (st_of res)) r' = event_of v r'" if "r' \<notin> ref ` {..<length (hash # hs)}" for r'
      proof -
        have "r' \<notin> ?ref1 ` {..<length hs}" "r' \<noteq> r"
          unfolding img using that ref0 by (auto simp: image_iff)
        then show ?thesis unfolding out using n(7) by (simp add: ev1')
      qed
    qed
  qed
qed

lemma header_not_listed:
  assumes "pool_ok (heap_hashes v) pool" "map_get pool k = Some r'" "r < length (sv_heap v)"
    and "map_get pool (se_hashStr (event_of v r)) = None"
  shows "r' \<noteq> r"
  using pool_ok_has[OF assms(1,2)] assms(2-4) by (auto simp: heap_hashes_nth)

text \<open>
  C12. A miniblock header confirms the events it lists, in order: when the number of the block is new
  and all listed events wait in the minipool, there is a prefix of the list whose events leave the
  minipool with the number of the block and consecutive confirmed event numbers, and appending the
  header never throws. The prefix is the whole list, and is reported as confirmed, unless it ends at
  an event that has only been created locally or at a member event (whose handler may throw). In
  that case the call reports nothing as confirmed, the offending event is marked and dropped from the
  minipool, and the events listed after it stay in the minipool as they were.
\<close>

theorem miniblock_confirms_prefix:
  assumes "sv_inv v" and "r < length (sv_heap v)"
    and "event_payload (event_of v r) = Some (PlMiniblockHeader h)"
    and "map_get (sv_minipoolEvents v) (se_hashStr (event_of v r)) = None"
    and "(case sv_miniblockInfo v of None \<Rightarrow> -1 | Some info \<Rightarrow> mi_max info) < mh_miniblockNum h"
    and "distinct (map (bin_toHexString E) (mh_eventHashes h))"
    and "\<forall>hash \<in> set (mh_eventHashes h). map_has (sv_minipoolEvents v) (bin_toHexString E hash)"
    and "ref = (\<lambda>i. the (map_get (sv_minipoolEvents v) (bin_toHexString E (mh_eventHashes h ! i))))"
    and "processAppendedEvent E r ct ee se v = ((v', confirmed), os, e)"
  shows "e = None \<and> (\<exists>n \<le> length (mh_eventHashes h).
    confirmed = (if n = length (mh_eventHashes h) then Some (map ref [0..<n]) else None) \<and>
    (\<forall>i < length (mh_eventHashes h). event_of v' (ref i) =
       (if i \<le> n then confirmed_as h i (event_of v (ref i)) else event_of v (ref i))) \<and>
    (\<forall>j. map_get (sv_minipoolEvents v') j =
       (if j \<in> set (map (bin_toHexString E) (take (Suc n) (mh_eventHashes h))) then None
        else map_get (sv_minipoolEvents v) j)) \<and>
    (n < length (mh_eventHashes h) \<longrightarrow>
       \<not> isRemoteEvent (event_of v (ref n)) \<or> is_member_event (event_of v (ref n))))"
proof -
  let ?v2 = "updateMiniblockInfo h (Some (mh_miniblockNum h)) None
    (v\<lparr>sv_prevMiniblockHash := map_option pe_hash (se_remoteEvent (event_of v r)),
       sv_prevMiniblockNum := Some (mh_miniblockNum h)\<rparr>)"
  let ?e = "(event_of v r)\<lparr>se_confirmedEventNum :=
      Some (mh_eventNumOffset h + int (length (mh_eventHashes h))), se_miniblockNum := Some (mh_miniblockNum h)\<rparr>"
  define v3 where "v3 = set_event r ?e ?v2"
  define res where "res = for_each (confirm_event E h se)
    (zip [0..<0 + length (mh_eventHashes h)] (mh_eventHashes h)) (v3, [])"
  have hs3: "heap_hashes v3 = heap_hashes v" unfolding v3_def by simp
  have pool3: "sv_minipoolEvents v3 = sv_minipoolEvents v" by (simp add: v3_def)
  have ok3: "pool_ok (heap_hashes v3) (sv_minipoolEvents v3)"
    unfolding hs3 pool3 by (rule sv_inv_pool[OF assms(1)])
  have ev3: "event_of v3 (ref i) = event_of v (ref i)" if i: "i < length (mh_eventHashes h)" for i
  proof -
    obtain r' where "map_get (sv_minipoolEvents v) (bin_toHexString E (mh_eventHashes h ! i)) = Some r'"
      using assms(7) nth_mem[OF i] by auto
    then have "ref i \<noteq> r"
      using header_not_listed[OF sv_inv_pool[OF assms(1)] _ assms(2,4)] by (auto simp: assms(8))
    then show ?thesis unfolding v3_def using assms(2) by (simp add: event_of_set_event)
  qed
  have "processAppendedEvent E r ct ee se v =
      caught (case res of
                ((v4, c), os, None) \<Rightarrow> ((v4, Some c), os, None)
              | ((v4, c), os, Some e) \<Rightarrow> ((v4, None), os, Some e))"
    using assms(3-5) unfolding processAppendedEvent_def append_header_def processMiniblockHeader_def
    by (simp add: Let_def is_header_def v3_def res_def)
  then have out: "v' = fst (st_of res)" "confirmed = (if exn_of res = None then Some (snd (st_of res)) else None)"
    "e = None"
    unfolding assms(9) by (auto split: prod.splits option.splits)
  note loop = confirm_loop[OF ok3 assms(6) _ res_def assms(8)[folded pool3]]
  have "\<forall>hash \<in> set (mh_eventHashes h). map_has (sv_minipoolEvents v3) (bin_toHexString E hash)"
    unfolding pool3 by (rule assms(7))
  from loop[OF this] show ?thesis
    unfolding out by (elim exE conjE, intro conjI exI) (auto simp: ev3 pool3)
qed

subsection \<open>Consistency of a view\<close>

text \<open>
  C2. A stream view stays consistent: after a new view has been initialized from a snapshot of
  distinct members, any calls of the stream (appended and prepended blocks, local events, their
  updates, decrypted contents), failing ones included, leave every minipool event stored under its
  own hash, a range of miniblocks that is not empty, and an observable member list that is sorted
  and has exactly the joined users.
\<close>

theorem stream_view_consistent:
  assumes "new_StreamView E userId streamId views = Inr v0"
    and "migrateSnapshot E snap = Inr snap'" and "sn_members snap' = Some ms"
    and "distinct (map (\<lambda>s. userIdFromAddress E (sm_userAddress s)) (mss_joined ms))"
    and "\<forall>s \<in> set (mss_joined ms). solicitations_ok (sm_solicitations s)"
    and "exn_of (initialize E cookie es snap mbs pmbs n cts les em v0) = None"
    and v: "v = fold (\<lambda>x v. st_of (stream_step E x v)) calls
      (st_of (initialize E cookie es snap mbs pmbs n cts les em v0))"
  shows "(\<forall>k r. map_get (sv_minipoolEvents v) k = Some r \<longrightarrow>
       r < length (sv_heap v) \<and> se_hashStr (event_of v r) = k) \<and>
    (\<forall>info. sv_miniblockInfo v = Some info \<longrightarrow> mi_min info \<le> mi_max info) \<and>
    sorted (streamMemberIds (sv_membershipContent v)) \<and>
    set (streamMemberIds (sv_membershipContent v)) = fst ` set (m_joined (sv_membershipContent v))"
proof -
  obtain mb0 blocks where mbs: "mbs = mb0 # blocks"
    using assms(6) by (cases mbs) (auto simp: initialize_def)
  have "sv_inv v"
    unfolding v mbs
    by (intro svc.run_inv initialize_inv assms(6)[unfolded mbs] applySnapshot_inv[OF assms(1-5)])
  note inv = this[unfolded sv_inv_def]
  have "r < length (sv_heap v) \<and> se_hashStr (event_of v r) = k"
    if "map_get (sv_minipoolEvents v) k = Some r" for k r
    using pool_ok_has[OF conjunct1[OF inv] that] by (auto simp: heap_hashes_nth)
  then show ?thesis
    using inv by (auto simp: info_ok_def members_inv_def ids_ok_def)
qed

subsection \<open>No event is lost\<close>

lemma nonempty_list [simp]: "(case nonempty xs of None \<Rightarrow> [] | Some ys \<Rightarrow> ys) = xs"
  by (simp add: nonempty_def)

text \<open>
  C30. A batch of events is handled to its end: whatever the handlers of the single events throw,
  \<open>appendEvents\<close> returns, stores the sync cookie, keeps the view consistent, and its last output is
  one call of the timelines view whose appended and updated events are exactly the events of the
  batch, each reported once.
\<close>

theorem append_reports_every_event:
  assumes "sv_inv v" and "res = appendEvents E es cookie cts v"
  shows "exn_of res = None \<and> sv_inv (st_of res) \<and> sv_syncCookie (st_of res) = Some cookie \<and>
    (\<exists>os ch. outs_of res = os @ [TlUpdated (sv_streamId (st_of res)) ch] \<and>
      mset (map se_hashStr ((case ch_appended ch of None \<Rightarrow> [] | Some xs \<Rightarrow> xs) @
                            (case ch_updated ch of None \<Rightarrow> [] | Some xs \<Rightarrow> xs))) =
      mset (map pe_hashStr es))"
proof -
  let ?a = "appendStreamAndCookie E cookie es cts True True v"
  note a = appendStreamAndCookie_ok[OF refl assms(1), where E = E and cookie = cookie and es = es
      and cts = cts and ee = True and se = True]
  let ?v = "fst (st_of ?a)" and ?b = "snd (st_of ?a)"
  let ?ch = "\<lparr>ch_prepended = None, ch_appended = nonempty (map (event_of ?v) (ba_appended ?b)),
      ch_updated = nonempty (map (event_of ?v) (ba_updated ?b)),
      ch_confirmed = nonempty (map (event_of ?v) (ba_confirmed ?b))\<rparr>"
  have res: "st_of res = ?v" "exn_of res = None"
    "outs_of res = outs_of ?a @ [TlUpdated (sv_streamId ?v) ?ch]"
    unfolding assms(2) appendEvents_def by (simp_all add: then_with_sels a(1))
  have "map (\<lambda>r. heap_hashes ?v ! r) (ba_appended ?b @ ba_updated ?b) =
      map (\<lambda>r. se_hashStr (event_of ?v r)) (ba_appended ?b @ ba_updated ?b)"
    using a(3) by (intro map_cong) (auto simp: batch_ok_def heap_hashes_nth)
  then have "mset (map se_hashStr (map (event_of ?v) (ba_appended ?b) @ map (event_of ?v) (ba_updated ?b))) =
      mset (map pe_hashStr es)"
    using a(3) unfolding batch_ok_def by (metis (no_types, lifting) comp_apply list.map_comp map_append map_cong)
  then show ?thesis
    unfolding res by (intro conjI exI[of _ "outs_of ?a"] exI[of _ ?ch]) (simp_all add: a)
qed

subsection \<open>The range of miniblocks\<close>

definition range_grows :: "MiniblockInfo option \<Rightarrow> MiniblockInfo option \<Rightarrow> bool" where
  "range_grows i i' \<longleftrightarrow> (\<forall>a. i = Some a \<longrightarrow> (\<exists>b. i' = Some b \<and> mi_max a \<le> mi_max b \<and> mi_min b \<le> mi_min a \<and>
     (mi_min a \<noteq> 0 \<longrightarrow> mi_min b \<noteq> 0)))"

abbreviation grows :: "StreamView \<Rightarrow> StreamView \<Rightarrow> bool" where
  "grows v v' \<equiv> range_grows (sv_miniblockInfo v) (sv_miniblockInfo v')"

lemma range_grows_refl [simp, intro]: "range_grows i i"
  by (simp add: range_grows_def)

lemma range_grows_trans: "range_grows a b \<Longrightarrow> range_grows b c \<Longrightarrow> range_grows a c"
  unfolding range_grows_def by fastforce

lemma grows_updateMiniblockInfo: "grows v (updateMiniblockInfo h a b v)"
  by (auto simp: range_grows_def updateMiniblockInfo_def Let_def split: option.splits)

lemma info_confirm_event [simp]:
  "sv_miniblockInfo (fst (st_of (confirm_event E h se ih vc))) = sv_miniblockInfo (fst vc)"
  by (cases vc; cases ih)
    (auto simp: confirm_event_def Let_def st_of_and_then split: option.split payload.split)

lemma info_processMiniblockHeader [simp]:
  "sv_miniblockInfo (fst (st_of (processMiniblockHeader E h se v))) = sv_miniblockInfo v"
  unfolding processMiniblockHeader_def
  by (rule for_each_inv[where I = "\<lambda>s. sv_miniblockInfo (fst s) = sv_miniblockInfo v"]) simp_all

lemma grows_append_header: "grows v (fst (st_of (append_header E r h se v)))"
proof -
  let ?v2 = "updateMiniblockInfo h (Some (mh_miniblockNum h)) None
    (v\<lparr>sv_prevMiniblockHash := map_option pe_hash (se_remoteEvent (event_of v r)),
       sv_prevMiniblockNum := Some (mh_miniblockNum h)\<rparr>)"
  have g: "grows v ?v2"
    using grows_updateMiniblockInfo[of "v\<lparr>sv_prevMiniblockHash := map_option pe_hash
        (se_remoteEvent (event_of v r)), sv_prevMiniblockNum := Some (mh_miniblockNum h)\<rparr>"] by simp
  let ?v3 = "set_event r ((event_of ?v2 r)\<lparr>
      se_confirmedEventNum := Some (mh_eventNumOffset h + int (length (mh_eventHashes h))),
      se_miniblockNum := Some (mh_miniblockNum h)\<rparr>) ?v2"
  have "sv_miniblockInfo (fst (st_of (processMiniblockHeader E h se ?v3))) = sv_miniblockInfo ?v2"
    by simp
  then have g3: "grows v (fst (st_of (processMiniblockHeader E h se ?v3)))" using g by simp
  obtain a b os e where p: "processMiniblockHeader E h se ?v3 = ((a, b), os, e)" by (metis prod.exhaust)
  have "grows v a" using g3[unfolded p] by simp
  then show ?thesis
    unfolding append_header_def using p by (auto simp: Let_def split: option.split)
qed

lemma grows_processAppendedEvent: "grows v (fst (st_of (processAppendedEvent E r ct ee se v)))"
proof -
  let ?v = "if is_header (event_of v r) then v
    else v\<lparr>sv_minipoolEvents := map_set (se_hashStr (event_of v r)) r (sv_minipoolEvents v)\<rparr>"
  have "grows v (fst (st_of (append_header E r h se ?v)))" for h
    using grows_append_header[of ?v E r h se] by (auto split: if_splits)
  then show ?thesis
    unfolding processAppendedEvent_def
    by (auto simp: Let_def on_content_event_st split: option.split payload.split)
qed

lemma grows_processPrependedEvent: "grows v (st_of (processPrependedEvent E r ct ee se v))"
  using grows_updateMiniblockInfo unfolding processPrependedEvent_def
  by (auto simp: on_content_event_st split: option.split payload.split)

lemma grows_append_one: "grows (fst vb) (fst (st_of (append_one E cts ee se p vb)))"
proof -
  obtain v b where vb: "vb = (v, b)" by fastforce
  let ?e = "makeRemoteTimelineEvent p (sv_lastEventNum v) None None"
  let ?v1 = "v\<lparr>sv_lastEventNum := sv_lastEventNum v + 1, sv_heap := sv_heap v @ [?e]\<rparr>"
  have "grows v (fst (st_of (processAppendedEvent E (length (sv_heap v)) (get_cleartext cts (se_hashStr ?e))
      ee se ?v1)))"
    using grows_processAppendedEvent[of ?v1] by simp
  then show ?thesis
    unfolding vb append_one_def
    by (auto simp: Let_def new_event_def case_prod_unfold split: option.split)
qed

lemma grows_appendStreamAndCookie:
  "grows v (fst (st_of (appendStreamAndCookie E cookie es cts ee se v)))"
proof -
  have "grows v (fst (st_of (for_each (append_one E cts ee se) es
      (v, \<lparr>ba_appended = [], ba_updated = [], ba_confirmed = []\<rparr>))))"
    by (rule for_each_inv[where I = "\<lambda>s. grows v (fst s)"])
      (auto intro: range_grows_trans[OF _ grows_append_one])
  then show ?thesis
    by (simp add: appendStreamAndCookie_def st_of_and_then case_prod_unfold)
qed

lemma grows_prependEvents: "grows v (fst (st_of (prependEvents E mbs cts t ee se v)))"
proof -
  obtain p v1 where 1: "new_events (concat (map block_events mbs)) v = (p, v1)" by fastforce
  have "grows v1 (st_of (prepend_refs E cts ee se p v1))"
    unfolding prepend_refs_def
    by (rule for_each_inv[where I = "grows v1"])
      (auto intro: range_grows_trans[OF _ grows_processPrependedEvent])
  moreover have "sv_miniblockInfo v1 = sv_miniblockInfo v" using 1 by (auto simp: new_events_def)
  ultimately have "grows v (st_of (prepend_refs E cts ee se p v1))" by simp
  then show ?thesis
    unfolding prependEvents_def 1
    by (auto simp: 1 Let_def st_of_and_then prepend_refs_ok range_grows_def split: option.splits)
qed

lemma grows_stream_step: "grows v (st_of (stream_step E x v))"
proof (cases x)
  case (SvAppend es cookie cts)
  then show ?thesis
    by (simp add: stream_step_def appendEvents_def then_with_sels grows_appendStreamAndCookie)
next
  case (SvPrepend mbs cts t)
  then show ?thesis using grows_prependEvents by (simp add: stream_step_def)
qed (auto simp: stream_step_def appendLocalEvent_def updateLocalEvent_def updateDecryptedContent_def
    updateDecryptedContentError_def Let_def new_event_def st_of_and_then split: option.split)

text \<open>
  C17. The range of known miniblocks only grows: over any calls of the stream, the newest block
  number never decreases and the oldest never increases. The number 0 is never recorded as the oldest
  block of a view that started above it, even when the genesis block has been prepended.
\<close>

theorem miniblock_range_monotone:
  assumes "sv_miniblockInfo v = Some a"
    and "v' = fold (\<lambda>x v. st_of (stream_step E x v)) calls v"
  shows "\<exists>b. sv_miniblockInfo v' = Some b \<and> mi_max a \<le> mi_max b \<and> mi_min b \<le> mi_min a \<and>
    (mi_min a \<noteq> 0 \<longrightarrow> mi_min b \<noteq> 0)"
proof -
  have "grows v (fold (\<lambda>x v. st_of (stream_step E x v)) calls v)"
    by (induction calls arbitrary: v) (auto intro: range_grows_trans[OF grows_stream_step])
  then show ?thesis using assms by (simp add: range_grows_def)
qed

subsection \<open>Local events across a re-initialization\<close>

text \<open>The minipool only has keys of \<open>H\<close>, and the store only hashes of \<open>H\<close>.\<close>

definition pool_in :: "string set \<Rightarrow> StreamView \<Rightarrow> bool" where
  "pool_in H v \<longleftrightarrow> fst ` set (sv_minipoolEvents v) \<subseteq> H"

definition hashes_in :: "string set \<Rightarrow> StreamView \<Rightarrow> bool" where
  "hashes_in H v \<longleftrightarrow> pool_in H v \<and> set (heap_hashes v) \<subseteq> H"

lemma pool_in_cong: "sv_minipoolEvents v' = sv_minipoolEvents v \<Longrightarrow> pool_in H v' = pool_in H v"
  by (simp add: pool_in_def)

lemma pool_in_frame [simp]:
  "pool_in H (v\<lparr>sv_membershipContent := m\<rparr>) = pool_in H v"
  "pool_in H (v\<lparr>sv_content := c\<rparr>) = pool_in H v"
  "pool_in H (v\<lparr>sv_syncCookie := ck\<rparr>) = pool_in H v"
  "pool_in H (v\<lparr>sv_lastEventNum := n\<rparr>) = pool_in H v"
  "pool_in H (v\<lparr>sv_prevSnapshotMiniblockNum := i\<rparr>) = pool_in H v"
  "pool_in H (v\<lparr>sv_prevMiniblockHash := h, sv_prevMiniblockNum := k\<rparr>) = pool_in H v"
  "pool_in H (set_event r e v) = pool_in H v"
  "pool_in H (updateMiniblockInfo mh a b v) = pool_in H v"
  by (simp_all add: pool_in_def)

lemma pool_confirm_event:
  "pool_in H (fst vc) \<Longrightarrow> pool_in H (fst (st_of (confirm_event E h se ih vc)))"
proof -
  assume "pool_in H (fst vc)"
  then have "pool_in H ((fst vc)\<lparr>sv_minipoolEvents := map_delete k (sv_minipoolEvents (fst vc))\<rparr>)" for k
    by (auto simp: pool_in_def)
  with \<open>pool_in H (fst vc)\<close> show ?thesis
    by (cases vc; cases ih)
      (auto simp: confirm_event_def Let_def st_of_and_then split: option.split payload.split)
qed

lemma pool_processMiniblockHeader:
  "pool_in H v \<Longrightarrow> pool_in H (fst (st_of (processMiniblockHeader E h se v)))"
  unfolding processMiniblockHeader_def
  by (rule for_each_inv[where I = "\<lambda>s. pool_in H (fst s)"]) (simp_all add: pool_confirm_event)

lemma pool_append_header:
  assumes "pool_in H v"
  shows "pool_in H (fst (st_of (append_header E r h se v)))"
proof -
  let ?v2 = "updateMiniblockInfo h (Some (mh_miniblockNum h)) None
    (v\<lparr>sv_prevMiniblockHash := map_option pe_hash (se_remoteEvent (event_of v r)),
       sv_prevMiniblockNum := Some (mh_miniblockNum h)\<rparr>)"
  let ?v3 = "set_event r ((event_of ?v2 r)\<lparr>
      se_confirmedEventNum := Some (mh_eventNumOffset h + int (length (mh_eventHashes h))),
      se_miniblockNum := Some (mh_miniblockNum h)\<rparr>) ?v2"
  obtain a b os e where p: "processMiniblockHeader E h se ?v3 = ((a, b), os, e)" by (metis prod.exhaust)
  have "pool_in H ?v3" using assms by simp
  from pool_processMiniblockHeader[OF this, of E h se, unfolded p] have "pool_in H a" by simp
  then show ?thesis
    unfolding append_header_def using p assms by (auto simp: Let_def split: option.split)
qed

lemma hashes_kept:
  "r < length (sv_heap v) \<Longrightarrow>
   heap_hashes (fst (st_of (processAppendedEvent E r ct ee se v))) = heap_hashes v"
  by (rule conjunct1[OF keeps_processAppendedEvent[unfolded keeps_def]])

lemma hashes_processAppendedEvent:
  assumes "hashes_in H v" "r < length (sv_heap v)"
  shows "hashes_in H (fst (st_of (processAppendedEvent E r ct ee se v)))"
proof -
  let ?e = "event_of v r"
  define v1 where "v1 = (if is_header ?e then v
    else v\<lparr>sv_minipoolEvents := map_set (se_hashStr ?e) r (sv_minipoolEvents v)\<rparr>)"
  have "se_hashStr ?e \<in> set (heap_hashes v)"
    using nth_mem[of r "heap_hashes v"] assms(2) by (simp add: heap_hashes_nth)
  then have p: "pool_in H v" "pool_in H v1"
    using assms(1) by (auto simp: hashes_in_def pool_in_def v1_def)
  have "pool_in H (fst (st_of (processAppendedEvent E r ct ee se v)))"
    unfolding processAppendedEvent_def Let_def v1_def[symmetric]
    by (simp add: p pool_append_header on_content_event_st split: option.split payload.split)
  moreover have "heap_hashes (fst (st_of (processAppendedEvent E r ct ee se v))) = heap_hashes v"
    by (rule hashes_kept[OF assms(2)])
  ultimately show ?thesis using assms(1) by (simp add: hashes_in_def)
qed

lemma pool_processPrependedEvent [simp]:
  "sv_minipoolEvents (st_of (processPrependedEvent E r ct ee se v)) = sv_minipoolEvents v"
  unfolding processPrependedEvent_def
  by (auto simp: on_content_event_st split: option.split payload.split)

lemma pool_prepend_refs [simp]:
  "sv_minipoolEvents (st_of (prepend_refs E cts ee se rs v)) = sv_minipoolEvents v"
  unfolding prepend_refs_def
  by (rule for_each_inv[where I = "\<lambda>w. sv_minipoolEvents w = sv_minipoolEvents v"]) simp_all

lemma pool_prependEvents [simp]:
  "sv_minipoolEvents (fst (st_of (prependEvents E mbs cts t ee se v))) = sv_minipoolEvents v"
  unfolding prependEvents_def
  by (auto simp: Let_def st_of_and_then prepend_refs_ok new_events_def split: option.split)

lemma hashes_append_one:
  assumes "hashes_in H (fst vb)" "pe_hashStr p \<in> H"
  shows "hashes_in H (fst (st_of (append_one E cts ee se p vb)))"
proof -
  obtain v b where vb: "vb = (v, b)" by fastforce
  let ?e = "makeRemoteTimelineEvent p (sv_lastEventNum v) None None"
  let ?v1 = "v\<lparr>sv_lastEventNum := sv_lastEventNum v + 1, sv_heap := sv_heap v @ [?e]\<rparr>"
  have "hashes_in H ?v1"
    using assms by (auto simp: vb hashes_in_def pool_in_def heap_hashes_def makeRemoteTimelineEvent_def)
  then have new: "hashes_in H (fst (st_of (processAppendedEvent E (length (sv_heap v))
      (get_cleartext cts (se_hashStr ?e)) ee se ?v1)))"
    by (rule hashes_processAppendedEvent) simp
  have old: "hashes_in H (set_event r ((event_of v r)\<lparr>se_remoteEvent := Some p\<rparr>) v)" for r
    using assms(1) by (simp add: vb hashes_in_def)
  show ?thesis
    using new old unfolding vb append_one_def
    by (simp add: Let_def new_event_def case_prod_unfold split: option.split)
qed

lemma hashes_appendStreamAndCookie:
  assumes "hashes_in H v" "pe_hashStr ` set es \<subseteq> H"
  shows "hashes_in H (fst (st_of (appendStreamAndCookie E cookie es cts ee se v)))"
proof -
  have es: "pe_hashStr p \<in> H" if "p \<in> set es" for p using assms(2) that by auto
  have "hashes_in H (fst (st_of (for_each (append_one E cts ee se) es
      (v, \<lparr>ba_appended = [], ba_updated = [], ba_confirmed = []\<rparr>))))"
    by (rule for_each_inv[where I = "\<lambda>s. hashes_in H (fst s)"])
      (simp_all add: assms(1) hashes_append_one es)
  then show ?thesis
    by (simp add: appendStreamAndCookie_def st_of_and_then case_prod_unfold hashes_in_def)
qed

definition block_hashes :: "ParsedMiniblock list \<Rightarrow> string set" where
  "block_hashes mbs = (\<Union>mb \<in> set mbs. pe_hashStr ` set (mb_events mb))"

lemma block_events_hashes: "se_hashStr ` set (block_events mb) = pe_hashStr ` set (mb_events mb)"
proof -
  have "map se_hashStr (block_events mb) = map pe_hashStr (mb_events mb)"
    by (rule nth_equalityI) (simp_all add: block_events_def makeRemoteTimelineEvent_def Let_def)
  then show ?thesis by (metis list.set_map)
qed

lemma hashes_initialize_blocks:
  assumes "hashes_in H v" "block_hashes (mb0 # blocks) \<subseteq> H"
  shows "hashes_in H (fst (st_of (initialize_blocks E mb0 blocks cts em v)))"
proof -
  obtain b0 v1 where 1: "new_events (block_events mb0) v = (b0, v1)" by fastforce
  obtain rest v2 where 2: "new_events (concat (map block_events blocks)) v1 = (rest, v2)" by fastforce
  have hs: "heap_hashes v1 = heap_hashes v @ map se_hashStr (block_events mb0)"
    "heap_hashes v2 = heap_hashes v1 @ map se_hashStr (concat (map block_events blocks))"
    using new_events_inv(2)[of "block_events mb0" v]
      new_events_inv(2)[of "concat (map block_events blocks)" v1] 1 2 by simp_all
  have "sv_minipoolEvents v2 = sv_minipoolEvents v" using 1 2 by (auto simp: new_events_def)
  from pool_in_cong[OF this, of H] have "pool_in H v2" using assms(1) by (simp add: hashes_in_def)
  moreover have "set (heap_hashes v2) \<subseteq> H"
  proof -
    have "set (heap_hashes v2) = set (heap_hashes v) \<union> block_hashes (mb0 # blocks)"
      unfolding hs by (simp add: block_hashes_def image_UN block_events_hashes Un_assoc)
    then show ?thesis using assms by (simp add: hashes_in_def)
  qed
  ultimately have h2: "hashes_in H v2" by (simp add: hashes_in_def)
  have r: "\<forall>r \<in> set rest. r < length (sv_heap v2)" using 2 by (auto simp: new_events_def)
  let ?v3 = "st_of (prepend_refs E cts em False b0 v2)"
  have k3: "keeps v2 ?v3" by (rule prepend_refs_keeps)
  have h3: "hashes_in H ?v3"
    using h2 conjunct1[OF k3[unfolded keeps_def]] pool_in_cong[OF pool_prepend_refs, of H E cts em False b0 v2]
    by (simp add: hashes_in_def)
  have "hashes_in H (st_of (append_rest E cts em rest ?v3)) \<and>
      heap_hashes (st_of (append_rest E cts em rest ?v3)) = heap_hashes ?v3"
    unfolding append_rest_def
  proof (rule for_each_inv[where I = "\<lambda>w. hashes_in H w \<and> heap_hashes w = heap_hashes ?v3"])
    fix x w
    assume x: "x \<in> set rest" and w: "hashes_in H w \<and> heap_hashes w = heap_hashes ?v3"
    have "length (heap_hashes w) = length (sv_heap v2)" using w k3 by (simp only: keeps_def length_heap_hashes)
    then have xl: "x < length (sv_heap w)" using r x by simp
    show "hashes_in H (st_of (map_res fst (processAppendedEvent E x
          (get_cleartext cts (se_hashStr (event_of w x))) em False w))) \<and>
        heap_hashes (st_of (map_res fst (processAppendedEvent E x
          (get_cleartext cts (se_hashStr (event_of w x))) em False w))) = heap_hashes ?v3"
      using w by (simp add: hashes_processAppendedEvent xl hashes_kept)
  qed (use h3 in simp)
  then show ?thesis
    unfolding initialize_blocks_def using h3
    by (simp add: 1 2 Let_def st_of_and_then hashes_in_def)
qed

text \<open>Restored local events are stored, and are not put into the minipool.\<close>

lemma restore_all:
  assumes "res = for_each (restore_local em) les (v, rs)" "\<forall>r \<in> set rs. r < length (sv_heap v)"
  shows "exn_of res = None" "sv_minipoolEvents (fst (st_of res)) = sv_minipoolEvents v"
    "\<exists>es. sv_heap (fst (st_of res)) = sv_heap v @ es"
    "\<forall>e \<in> set les. \<exists>r \<in> set (snd (st_of res)).
       se_hashStr (event_of (fst (st_of res)) r) = se_hashStr e \<and>
       se_localEvent (event_of (fst (st_of res)) r) = se_localEvent e"
    "set rs \<subseteq> set (snd (st_of res))"
proof -
  have "exn_of res = None \<and> sv_minipoolEvents (fst (st_of res)) = sv_minipoolEvents v \<and>
    (\<exists>es. sv_heap (fst (st_of res)) = sv_heap v @ es) \<and>
    (\<forall>e \<in> set les. \<exists>r \<in> set (snd (st_of res)).
       se_hashStr (event_of (fst (st_of res)) r) = se_hashStr e \<and>
       se_localEvent (event_of (fst (st_of res)) r) = se_localEvent e) \<and>
    set rs \<subseteq> set (snd (st_of res))"
    using assms
  proof (induction les arbitrary: v rs res)
    case Nil
    then show ?case by simp
  next
    case (Cons e les)
    let ?e = "e\<lparr>se_eventNum := sv_lastEventNum v\<rparr>"
    let ?v1 = "v\<lparr>sv_lastEventNum := sv_lastEventNum v + 1, sv_heap := sv_heap v @ [?e]\<rparr>"
    let ?v2 = "?v1\<lparr>sv_content := st_of (content_onAppendLocalEvent em ?e (sv_content v))\<rparr>"
    have one: "st_of (restore_local em e (v, rs)) = (?v2, rs @ [length (sv_heap v)])"
      "exn_of (restore_local em e (v, rs)) = None"
      by (simp_all add: restore_local_def Let_def new_event_def content_onAppendLocalEvent_ok)
    define res1 where "res1 = for_each (restore_local em) les (?v2, rs @ [length (sv_heap v)])"
    have res: "st_of res = st_of res1" "exn_of res = exn_of res1"
      unfolding Cons.prems(1) res1_def by (simp_all add: and_then_sels one)
    have "\<forall>r \<in> set (rs @ [length (sv_heap v)]). r < length (sv_heap ?v2)" using Cons.prems(2) by auto
    note ih = Cons.IH[OF res1_def this]
    then obtain es where es: "sv_heap (fst (st_of res1)) = sv_heap v @ ?e # es" by auto
    then have "event_of (fst (st_of res1)) (length (sv_heap v)) = ?e" by (simp add: event_of_def)
    moreover have "length (sv_heap v) \<in> set (snd (st_of res1))" using ih by auto
    ultimately have "\<exists>r \<in> set (snd (st_of res1)).
        se_hashStr (event_of (fst (st_of res1)) r) = se_hashStr e \<and>
        se_localEvent (event_of (fst (st_of res1)) r) = se_localEvent e"
      by (intro bexI[of _ "length (sv_heap v)"]) simp_all
    then show ?case using ih es unfolding res by auto
  qed
  then show "exn_of res = None" "sv_minipoolEvents (fst (st_of res)) = sv_minipoolEvents v"
    "\<exists>es. sv_heap (fst (st_of res)) = sv_heap v @ es"
    "\<forall>e \<in> set les. \<exists>r \<in> set (snd (st_of res)).
       se_hashStr (event_of (fst (st_of res)) r) = se_hashStr e \<and>
       se_localEvent (event_of (fst (st_of res)) r) = se_localEvent e"
    "set rs \<subseteq> set (snd (st_of res))" by blast+
qed

text \<open>The event \<open>e\<close> is among those the timelines view is told of.\<close>

definition announces :: "StreamTimelineEvent \<Rightarrow> sv_out list \<Rightarrow> bool" where
  "announces e os \<longleftrightarrow> (\<exists>sid es e'. TlInitialized sid es \<in> set os \<and> e' \<in> set es \<and>
     se_hashStr e' = se_hashStr e \<and> se_localEvent e' = se_localEvent e)"

lemma announces_append: "announces e os \<Longrightarrow> announces e (os' @ os)"
  by (auto simp: announces_def)

lemma finish_initialize_local:
  assumes "e \<in> set les"
  shows "announces e (outs_of (finish_initialize em les p t a v))"
    "sv_minipoolEvents (st_of (finish_initialize em les p t a v)) = sv_minipoolEvents v"
proof -
  let ?r = "for_each (restore_local em) les (v, [])"
  note r = restore_all[OF refl, where rs = "[]" and v = v and em = em and les = les, simplified]
  obtain x where x: "x \<in> set (snd (st_of ?r))"
    "se_hashStr (event_of (fst (st_of ?r)) x) = se_hashStr e"
    "se_localEvent (event_of (fst (st_of ?r)) x) = se_localEvent e"
    using r(4) assms by blast
  let ?v' = "fst (st_of ?r)"
  let ?v1 = "?v'\<lparr>sv_streamStatus := setIsInitialized (sv_streamId ?v') True (sv_streamStatus ?v')\<rparr>"
  let ?es = "map (event_of ?v1) (p @ t @ snd (st_of ?r) @ a)"
  have outs: "TlInitialized (sv_streamId ?v1) ?es \<in> set (outs_of (finish_initialize em les p t a v))"
    unfolding finish_initialize_def by (simp add: then_with_sels r(1) Let_def)
  have "event_of ?v' x \<in> set ?es" using x(1) by simp
  with outs x(2,3) show "announces e (outs_of (finish_initialize em les p t a v))"
    unfolding announces_def by blast
  show "sv_minipoolEvents (st_of (finish_initialize em les p t a v)) = sv_minipoolEvents v"
    unfolding finish_initialize_def by (simp add: then_with_sels r(1,2) Let_def)
qed

lemma initialize_minipool_local:
  assumes "e \<in> set les" "hashes_in H v" "pe_hashStr ` set es \<subseteq> H"
    and "res = initialize_minipool E cookie es pmbs n cts les em tes v" "exn_of res = None"
  shows "announces e (outs_of res) \<and> pool_in H (st_of res)"
proof -
  let ?a = "appendStreamAndCookie E cookie es cts em False v"
  let ?v2 = "(fst (st_of ?a))\<lparr>sv_prevSnapshotMiniblockNum := n\<rparr>"
  have a: "exn_of ?a = None" using assms(4,5) by (auto simp: initialize_minipool_def then_with_sels split: if_splits)
  have p2: "pool_in H ?v2" using hashes_appendStreamAndCookie[OF assms(2,3), where E = E and
        cookie = cookie and cts = cts and ee = em and se = False] by (simp add: hashes_in_def)
  let ?f = "\<lambda>p v. finish_initialize em les p tes (ba_appended (snd (st_of ?a))) v"
  have fin: "announces e (outs_of (?f p w))" "pool_in H w \<Longrightarrow> pool_in H (st_of (?f p w))" for p w
    using finish_initialize_local[OF assms(1)] pool_in_cong[OF finish_initialize_local(2)[OF assms(1)]]
    by blast+
  show ?thesis
  proof (cases pmbs)
    case Nil
    then have "st_of res = st_of (?f [] ?v2)" "outs_of res = outs_of ?a @ outs_of (?f [] ?v2)"
      unfolding assms(4) initialize_minipool_def by (simp_all add: then_with_sels a Let_def)
    then show ?thesis using fin p2 announces_append by metis
  next
    case (Cons pmb rest)
    let ?p = "prependEvents E pmbs cts (mh_miniblockNum (mb_header pmb) = 0) em False ?v2"
    have "res = (let r = then_with ?p ?f in (st_of r, outs_of ?a @ outs_of r, exn_of r))"
      unfolding assms(4) initialize_minipool_def Cons
      by (rule prod_eqI; (rule prod_eqI)?) (simp_all add: then_with_sels a Let_def)
    moreover have "exn_of ?p = None"
      using assms(5) calculation by (auto simp: Let_def then_with_sels split: if_splits)
    ultimately have "st_of res = st_of (?f (snd (st_of ?p)) (fst (st_of ?p)))"
      "outs_of res = (outs_of ?a @ outs_of ?p) @ outs_of (?f (snd (st_of ?p)) (fst (st_of ?p)))"
      by (simp_all add: then_with_sels Let_def)
    moreover have "pool_in H (fst (st_of ?p))" using p2 pool_in_cong[OF pool_prependEvents] by blast
    ultimately show ?thesis using fin announces_append by metis
  qed
qed

text \<open>A local event does not survive a re-initialization of its stream: \<open>Stream.initialize\<close> hands
  the unsent local events of the old view to the timeline of the new one, but the new view does not
  keep them in its minipool. The timeline shows the event, and the next update of its status (the
  id of the sent event \<open>h\<close>, or a failure) throws, whenever neither id is the hash of an event of the
  response.
\<close>

theorem restored_local_event_orphaned:
  assumes "res = stream_initialize E views cookie es snap mbs pmbs n cts v" and "exn_of res = None"
    and "e \<in> set (pending_local_events v)"
    and "se_hashStr e \<notin> pe_hashStr ` set es \<union> block_hashes mbs"
    and "h \<notin> pe_hashStr ` set es \<union> block_hashes mbs"
  shows "announces e (outs_of res) \<and>
    updateLocalEvent (se_hashStr e) h status em (st_of res) = throw (throwWithCode None) (st_of res)"
proof -
  let ?H = "pe_hashStr ` set es \<union> block_hashes mbs" and ?les = "pending_local_events v"
  obtain new where new: "new_StreamView E (sv_userId v) (sv_streamId v) (views_of v views) = Inr new"
    using assms(1,2) by (cases "new_StreamView E (sv_userId v) (sv_streamId v) (views_of v views)")
      (simp_all add: stream_initialize_def)
  have v0: "sv_heap new = []" "sv_minipoolEvents new = []"
    using new by (auto simp: new_StreamView_def bindE_Inr_iff)
  have res: "res = initialize E cookie es snap mbs pmbs n cts ?les True new"
    using assms(1) new by (simp add: stream_initialize_def)
  obtain mb0 blocks where mbs: "mbs = mb0 # blocks" "mb_events mb0 \<noteq> []"
    using assms(2) unfolding res by (cases mbs) (auto simp: initialize_def split: if_splits)
  let ?s = "applySnapshot E (last (mb_events mb0)) snap cts True new"
  let ?b = "initialize_blocks E mb0 blocks cts True (st_of ?s)"
  let ?m = "initialize_minipool E cookie es pmbs n cts ?les True (snd (st_of ?b)) (fst (st_of ?b))"
  have eq: "res = and_then ?s (\<lambda>v1. then_with (initialize_blocks E mb0 blocks cts True v1)
      (initialize_minipool E cookie es pmbs n cts ?les True))"
    unfolding res mbs(1) using mbs(2) by (simp add: initialize_def)
  have ok: "exn_of ?s = None" "exn_of ?b = None" "exn_of ?m = None"
    using assms(2) unfolding eq exn_of_and_then then_with_sels by (simp_all split: if_splits)
  have out: "st_of res = st_of ?m" "outs_of res = (outs_of ?s @ outs_of ?b) @ outs_of ?m"
    unfolding eq and_then_sels then_with_sels by (simp_all add: ok)
  have "hashes_in ?H (st_of ?s)"
    using ok(1) unfolding applySnapshot_def
    by (auto simp: hashes_in_def pool_in_def heap_hashes_def st_of_and_then v0 split: sum.split)
  then have "hashes_in ?H (fst (st_of ?b))"
    by (rule hashes_initialize_blocks) (simp add: mbs(1))
  then have fin: "announces e (outs_of ?m) \<and> pool_in ?H (st_of ?m)"
    using initialize_minipool_local[OF assms(3) _ _ refl ok(3)] by simp
  then have "map_get (sv_minipoolEvents (st_of res)) (se_hashStr e) = None"
    "map_get (sv_minipoolEvents (st_of res)) h = None"
    using assms(4,5) unfolding out pool_in_def map_get_None_iff by blast+
  then show ?thesis
    using fin announces_append unfolding out by (auto simp: updateLocalEvent_def)
qed

subsection \<open>A concrete stream\<close>

definition demo_channel_id :: string where
  "demo_channel_id = ''20'' @ replicate 62 (CHR ''0'')"

definition demo_header :: "int \<Rightarrow> bytes list \<Rightarrow> miniblock_header" where
  "demo_header n hashes = MiniblockHeader n [] None hashes None 0 0 None [] None"

definition demo_miniblock :: "int \<Rightarrow> ParsedMiniblock" where
  "demo_miniblock n = \<lparr>mb_hash = [], mb_header = demo_header n [],
     mb_events = [demo_parsed ''h0'' user0 (PlMiniblockHeader (demo_header n []))]\<rparr>"

definition demo_cookie :: SyncCookie where
  "demo_cookie = \<lparr>sc_nodeAddress = [], sc_streamId = [], sc_minipoolGen = 0, sc_prevMiniblockHash = []\<rparr>"

definition demo_local :: StreamTimelineEvent where
  "demo_local = \<lparr>se_hashStr = ''~1'', se_creatorUserId = user0, se_eventNum = 0, se_createdAtEpochMs = 0,
     se_localEvent = Some \<lparr>le_localId = ''~1'', le_channelMessage = None, le_status = Sending\<rparr>,
     se_remoteEvent = None, se_decryptedContent = None, se_decryptedContentError = None,
     se_miniblockNum = None, se_confirmedEventNum = None\<rparr>"

definition demo_view :: "StreamTimelineEvent list \<Rightarrow> (string, event_ref) jsmap \<Rightarrow> StreamView" where
  "demo_view heap pool = \<lparr>sv_streamId = demo_channel_id, sv_userId = user0, sv_heap = heap,
     sv_minipoolEvents = pool, sv_prevMiniblockHash = None, sv_prevMiniblockNum = None,
     sv_lastEventNum = 0, sv_prevSnapshotMiniblockNum = 0,
     sv_miniblockInfo = Some \<lparr>mi_max = 3, mi_min = 1, mi_terminusReached = False\<rparr>,
     sv_syncCookie = None, sv_membershipContent = new_Members demo_channel_id [],
     sv_content = CChannel (new_ChannelContent demo_channel_id), sv_streamStatus = []\<rparr>"

definition demo_views :: StreamsViews where
  "demo_views = \<lparr>vw_spaceStreams = [], vw_dmStreams = [], vw_gdmStreams = [], vw_userStreams = [],
     vw_userSettingsStreams = [], vw_streamMemberIds = [], vw_streamStatus = []\<rparr>"

definition demo_channel_snapshot :: snapshot where
  "demo_channel_snapshot =
     Snapshot (Some (MembersSnapshot [] [] None [] [])) 5 (Some (ScChannel None))"

lemma demo_members_new: "members_inv (new_Members sid [])"
  by (simp add: members_inv_def joined_ok_def ids_ok_def new_Members_def streamMemberIds_def
      memberIds_get_def record_get_def)

lemma demo_view_inv: "pool_ok (map se_hashStr heap) pool \<Longrightarrow> sv_inv (demo_view heap pool)"
  by (simp add: sv_inv_def demo_view_def heap_hashes_def info_ok_def demo_members_new)

definition demo_new :: "StreamsViews \<Rightarrow> StreamView" where
  "demo_new views = \<lparr>sv_streamId = demo_channel_id, sv_userId = user0, sv_heap = [], sv_minipoolEvents = [],
     sv_prevMiniblockHash = None, sv_prevMiniblockNum = None, sv_lastEventNum = 0,
     sv_prevSnapshotMiniblockNum = 0, sv_miniblockInfo = None, sv_syncCookie = None,
     sv_membershipContent = new_Members demo_channel_id (vw_streamMemberIds views),
     sv_content = CChannel (new_ChannelContent demo_channel_id), sv_streamStatus = vw_streamStatus views\<rparr>"

lemma demo_new_view: "new_StreamView demo_externs user0 demo_channel_id views = Inr (demo_new views)"
proof -
  have "starts_with ''20'' demo_channel_id" "\<not> starts_with ''10'' demo_channel_id"
    by (simp_all add: starts_with_def demo_channel_id_def)
  then show ?thesis
    by (simp add: new_StreamView_def new_content_def isSpaceStreamId_def isChannelStreamId_def
        has_prefix_def streamIdAsString_def ethereumAddressAsString_def demo_new_def)
qed

lemma demo_migrate: "migrateSnapshot demo_externs demo_channel_snapshot = Inr demo_channel_snapshot"
  by (simp add: migrateSnapshot_def demo_channel_snapshot_def SNAPSHOT_MIGRATIONS_def)

lemma empty_metadata: "exn_of (memberMetadata_applySnapshot E [] [] [] [] cts em m) = None"
  by (simp add: memberMetadata_applySnapshot_def exn_of_and_then sortPayloads_def on_usernames_def
      on_displayNames_def on_ensAddresses_def on_nfts_def ensAddresses_applySnapshot_def)

lemma empty_members:
  "exn_of (members_applySnapshot E ev demo_channel_snapshot None em (new_Members sid w)) = None"
  by (simp add: demo_channel_snapshot_def members_applySnapshot_def Let_def new_Members_def
      initSolicitations_def List.map_filter_def exn_of_and_then on_metadata_def empty_metadata)

lemma demo_apply:
  "exn_of (applySnapshot demo_externs ev demo_channel_snapshot None em (demo_new views)) = None"
proof -
  have "sn_content demo_channel_snapshot = Some (ScChannel None)" by (simp add: demo_channel_snapshot_def)
  then show ?thesis
    unfolding applySnapshot_def demo_migrate
    by (simp add: exn_of_and_then demo_new_def content_applySnapshot_def empty_members)
qed

lemma demo_blocks:
  "exn_of (initialize_blocks E (demo_miniblock 3) [] None em v) = None"
proof -
  have "exn_of (append_rest E None em [] v') = None" for v' by (simp add: append_rest_def)
  then show ?thesis
    by (simp add: initialize_blocks_def Let_def new_events_def exn_of_and_then prepend_refs_ok)
qed

lemma demo_minipool:
  "exn_of (initialize_minipool E demo_cookie [] [] 0 None les em tes v) = None"
  by (simp add: initialize_minipool_def then_with_sels appendStreamAndCookie_def Let_def
      finish_initialize_def restore_all(1)[OF refl])

lemma demo_initialize:
  "exn_of (initialize demo_externs demo_cookie [] demo_channel_snapshot [demo_miniblock 3] [] 0 None les em
     (demo_new views)) = None"
proof -
  have "mb_events (demo_miniblock 3) \<noteq> []" by (simp add: demo_miniblock_def)
  then show ?thesis
    unfolding initialize_def list.case
    by (simp add: exn_of_and_then demo_apply then_with_sels demo_blocks demo_minipool)
qed

lemma demo_view_empty: "sv_inv (demo_view [] [])"
  by (rule demo_view_inv) (simp add: pool_ok_def)

definition demo_pool_heap :: "StreamTimelineEvent list" where
  "demo_pool_heap = [demo_remote ''01'' user0 (PlChannel None), demo_local,
     demo_remote ''h9'' user0 (PlMiniblockHeader (demo_header 4 [[1]]))]"

definition demo_pool_view :: StreamView where
  "demo_pool_view = demo_view demo_pool_heap [(''01'', 0), (''~1'', 1)]"

lemma demo_pool_inv: "sv_inv demo_pool_view"
  unfolding demo_pool_view_def
  by (rule demo_view_inv)
    (auto simp: pool_ok_def demo_pool_heap_def demo_local_def split: if_splits)

lemma demo_pool_events [simp]:
  "event_of demo_pool_view 0 = demo_remote ''01'' user0 (PlChannel None)"
  "event_of demo_pool_view 1 = demo_local" "event_of demo_pool_view (Suc 0) = demo_local"
  "event_of demo_pool_view 2 = demo_remote ''h9'' user0 (PlMiniblockHeader (demo_header 4 [[1]]))"
  "sv_minipoolEvents demo_pool_view = [(''01'', 0), (''~1'', 1)]" "length (sv_heap demo_pool_view) = 3"
  by (simp_all add: demo_pool_view_def demo_view_def event_of_def demo_pool_heap_def)

theorem miniblock_confirms_prefix_witness:
  "\<exists>v' confirmed os. processAppendedEvent demo_externs 2 None True True demo_pool_view =
      ((v', confirmed), os, None) \<and>
    event_of v' 0 = confirmed_as (demo_header 4 [[1]]) 0 (demo_remote ''01'' user0 (PlChannel None)) \<and>
    map_get (sv_minipoolEvents v') ''01'' = None \<and> map_get (sv_minipoolEvents v') ''~1'' = Some 1 \<and>
    confirmed = Some [0]"
proof -
  let ?h = "demo_header 4 [[1]]"
  have id: "bin_toHexString demo_externs [1] = ''01''" by (simp add: bin_toHexString_def) code_simp
  have hs: "mh_eventHashes ?h = [[1]]" "mh_miniblockNum ?h = 4" by (simp_all add: demo_header_def)
  obtain v' c os e where p: "processAppendedEvent demo_externs 2 None True True demo_pool_view =
      ((v', c), os, e)" by (metis prod.exhaust)
  have info: "sv_miniblockInfo demo_pool_view = Some \<lparr>mi_max = 3, mi_min = 1, mi_terminusReached = False\<rparr>"
    by (simp add: demo_pool_view_def demo_view_def)
  have remote: "isRemoteEvent (demo_remote ''01'' user0 (PlChannel None))"
    "\<not> is_member_event (demo_remote ''01'' user0 (PlChannel None))"
    by (simp_all add: isRemoteEvent_def is_member_event_def)
  have "e = None \<and> (\<exists>n \<le> 1. c = (if n = 1 then Some (map (\<lambda>i. 0) [0..<n]) else None) \<and>
      event_of v' 0 = confirmed_as ?h 0 (demo_remote ''01'' user0 (PlChannel None)) \<and>
      (\<forall>j. map_get (sv_minipoolEvents v') j = (if j = ''01'' then None
         else map_get (sv_minipoolEvents demo_pool_view) j)) \<and> (n < 1 \<longrightarrow> False))"
    using miniblock_confirms_prefix[OF demo_pool_inv _ _ _ _ _ _ refl p, of ?h] hs id remote
    by (auto simp: info le_Suc_eq)
  then show ?thesis using p by (auto simp: le_Suc_eq)
qed

theorem stream_view_consistent_witness:
  "\<exists>v info. v = fold (\<lambda>x v. st_of (stream_step demo_externs x v))
      [SvAppend [demo_parsed ''h1'' user0 (PlChannel None)] demo_cookie None]
      (st_of (initialize demo_externs demo_cookie [] demo_channel_snapshot [demo_miniblock 3] [] 0 None [] True
        (demo_new demo_views))) \<and>
    (\<forall>k r. map_get (sv_minipoolEvents v) k = Some r \<longrightarrow> se_hashStr (event_of v r) = k) \<and>
    set (streamMemberIds (sv_membershipContent v)) = fst ` set (m_joined (sv_membershipContent v))"
  using stream_view_consistent[OF demo_new_view demo_migrate, of
      "MembersSnapshot [] [] None [] []" demo_cookie "[]" "[demo_miniblock 3]" "[]" 0 None "[]" True
      demo_views _ "[SvAppend [demo_parsed ''h1'' user0 (PlChannel None)] demo_cookie None]", OF _ _ _ demo_initialize refl]
  by (simp add: demo_channel_snapshot_def)

theorem append_reports_every_event_witness:
  "\<exists>res. res = appendEvents demo_externs
      [demo_parsed ''h1'' user0 (PlChannel None), demo_parsed ''h2'' user0 (PlMedia None)] demo_cookie None
      (demo_view [] []) \<and>
    exn_of res = None \<and> sv_syncCookie (st_of res) = Some demo_cookie \<and>
    (\<exists>os ch. outs_of res = os @ [TlUpdated (sv_streamId (st_of res)) ch] \<and>
      mset (map se_hashStr ((case ch_appended ch of None \<Rightarrow> [] | Some xs \<Rightarrow> xs) @
                            (case ch_updated ch of None \<Rightarrow> [] | Some xs \<Rightarrow> xs))) = {#''h1'', ''h2''#})"
  using append_reports_every_event[OF demo_view_empty refl, of demo_externs
      "[demo_parsed ''h1'' user0 (PlChannel None), demo_parsed ''h2'' user0 (PlMedia None)]" demo_cookie None]
  by simp

theorem miniblock_range_monotone_witness:
  "\<exists>v b. v = fold (\<lambda>x v. st_of (stream_step demo_externs x v)) [SvPrepend [demo_miniblock 0] None True]
      (demo_view [] []) \<and>
    sv_miniblockInfo v = Some b \<and> 3 \<le> mi_max b \<and> mi_min b \<le> 1 \<and> mi_min (b :: MiniblockInfo) \<noteq> 0"
proof -
  have "sv_miniblockInfo (demo_view [] []) = Some \<lparr>mi_max = 3, mi_min = 1, mi_terminusReached = False\<rparr>"
    by (simp add: demo_view_def)
  from miniblock_range_monotone[OF this refl, of demo_externs "[SvPrepend [demo_miniblock 0] None True]"]
  show ?thesis by simp
qed

theorem restored_local_event_orphaned_witness:
  "\<exists>res. res = stream_initialize demo_externs demo_views demo_cookie [] demo_channel_snapshot
      [demo_miniblock 3] [] 0 None demo_pool_view \<and>
    announces demo_local (outs_of res) \<and>
    exn_of (updateLocalEvent ''~1'' ''02'' Sent True (st_of res)) \<noteq> None"
proof -
  let ?res = "stream_initialize demo_externs demo_views demo_cookie [] demo_channel_snapshot
      [demo_miniblock 3] [] 0 None demo_pool_view"
  have hash: "se_hashStr demo_local = ''~1''" by (simp add: demo_local_def)
  have "demo_local \<in> set (pending_local_events demo_pool_view)"
    by (simp add: pending_local_events_def isLocalEvent_def) (simp add: demo_local_def)
  moreover have "block_hashes [demo_miniblock 3] = {''h0''}"
    by (simp add: block_hashes_def demo_miniblock_def)
  moreover have "exn_of ?res = None"
    using demo_initialize demo_new_view[of "views_of demo_pool_view demo_views"]
    by (simp add: stream_initialize_def demo_pool_view_def demo_view_def)
  ultimately show ?thesis
    using restored_local_event_orphaned[OF refl, of demo_externs demo_views demo_cookie "[]"
        demo_channel_snapshot "[demo_miniblock 3]" "[]" 0 None demo_pool_view demo_local "''02''" Sent True]
    by (simp add: hash)
qed

end
