(* ===== verification/Timelines.thy ===== *)
theory Timelines
  imports TimelineEvents StreamView
begin

section \<open>Timelines\<close>

text \<open>
  \<open>packages/sdk/src/views/streams/timelinesModel.ts\<close> and
  \<open>packages/sdk/src/views/streams/timelines.ts\<close>: the timelines that an application shows, with
  their threads, reactions and tips, and the calls that a stream view makes on them.

  A \<open>Record\<close> is an association list; ids are not names of properties of \<open>Object.prototype\<close>. An
  operation gives the new state, or the exception it throws: \<open>removeReaction\<close> reads the keys of a
  missing object. Nothing is said about the state that a throwing operation leaves: the sets of
  the thread statistics are shared between the old and the new state and may have changed.
  The comparator of \<open>insertTimelineEvent\<close> never returns 0, so the order of events with the same
  number depends on the engine; the model has the order of V8, whose sort puts a later element of
  the list before an earlier one that compares as not smaller.
\<close>

subsection \<open>The state\<close>

record ThreadStatsData =
  ts_replyEventIds :: "string jsset"
  ts_userIds :: "string jsset"
  ts_latestTs :: int
  ts_parentId :: string
  ts_parentEvent :: "TimelineEvent option"
  ts_parentMessageContent :: "ChannelMessageEvent option"
  ts_isParticipating :: bool

record TimelineEventConfirmation =
  cf_eventId :: string
  cf_confirmedEventNum :: "int option"
  cf_confirmedInBlockNum :: "int option"

type_synonym MessageReactions = "(string, (string, string) jsmap) jsmap"
type_synonym MessageTips = "TimelineEvent list"
type_synonym TimelinesMap = "(string, TimelineEvent list) jsmap"
type_synonym ThreadStatsMap = "(string, (string, ThreadStatsData) jsmap) jsmap"
type_synonym ThreadsMap = "(string, TimelinesMap) jsmap"
type_synonym ReactionsMap = "(string, (string, MessageReactions) jsmap) jsmap"
type_synonym TipsMap = "(string, (string, MessageTips) jsmap) jsmap"

record TimelinesViewModel =
  tm_timelines :: TimelinesMap
  tm_replacedEvents :: "(string, (TimelineEvent \<times> TimelineEvent) list) jsmap"
  tm_pendingReplacedEvents :: "(string, (string, TimelineEvent) jsmap) jsmap"
  tm_threadsStats :: ThreadStatsMap
  tm_threads :: ThreadsMap
  tm_reactions :: ReactionsMap
  tm_tips :: TipsMap
  tm_lastestEventByUser :: "(string, TimelineEvent) jsmap"

text \<open>The optional chain \<open>m[k]?.[k']\<close>, and \<open>{ ...m, [k]: { ...m[k], [k']: v } }\<close>.\<close>

definition get2 :: "('a, ('b, 'c) jsmap) jsmap \<Rightarrow> 'a \<Rightarrow> 'b \<Rightarrow> 'c option" where
  "get2 m k k' = map_get (map_get_or m k []) k'"

definition set2 :: "'a \<Rightarrow> 'b \<Rightarrow> 'c \<Rightarrow> ('a, ('b, 'c) jsmap) jsmap \<Rightarrow> ('a, ('b, 'c) jsmap) jsmap" where
  "set2 k k' v m = map_set k (map_set k' v (map_get_or m k [])) m"

lemma get2_set2 [simp]:
  "get2 (set2 k k' v m) a b = (if a = k \<and> b = k' then Some v else get2 m a b)"
  by (auto simp: get2_def set2_def)

subsection \<open>Replacing an event\<close>

definition getChannelMessageContent :: "TimelineEvent option \<Rightarrow> ChannelMessageEvent option" where
  "getChannelMessageContent event =
     (case event of
        Some e \<Rightarrow> (case tl_content e of Some (ChannelMessageContent m) \<Rightarrow> Some m | _ \<Rightarrow> None)
      | None \<Rightarrow> None)"

definition getMessageSenderId :: "TimelineEvent \<Rightarrow> string option" where
  "getMessageSenderId event =
     (case tl_content event of
        Some (ChannelMessageContent _) \<Rightarrow> Some (tl_senderId event)
      | Some (TokenTransferEvent _ _ _ _ _) \<Rightarrow> Some (tl_senderId event)
      | _ \<Rightarrow> None)"

definition is_redacted_content :: "TimelineEvent \<Rightarrow> bool" where
  "is_redacted_content event \<longleftrightarrow> (case tl_content event of Some (RedactedEvent _) \<Rightarrow> True | _ \<Rightarrow> False)"

definition canReplaceEvent :: "TimelineEvent \<Rightarrow> TimelineEvent \<Rightarrow> bool" where
  "canReplaceEvent prev next \<longleftrightarrow>
     tl_content next = Some (RedactedEvent True) \<or> tl_senderId next = tl_senderId prev"

text \<open>\<open>a ?? b\<close>.\<close>

definition nullish :: "'a option \<Rightarrow> 'a option \<Rightarrow> 'a option" where
  "nullish a b = (case a of Some x \<Rightarrow> Some x | None \<Rightarrow> b)"

definition with_threadId :: "string option \<Rightarrow> ChannelMessageEvent \<Rightarrow> ChannelMessageEvent" where
  "with_threadId threadId m =
     ChannelMessageEvent threadId (cme_threadPreview m) (cme_replyId m) (cme_replyPreview m) (cme_body m)
       (cme_mentions m) (cme_editsEventId m) (cme_content m) (cme_attachments m)"

definition toReplacedMessageEvent :: "TimelineEvent \<Rightarrow> TimelineEvent \<Rightarrow> TimelineEvent" where
  "toReplacedMessageEvent prev next =
     (let isLocalId = starts_with ''~'' (tl_eventId prev);
          replaced = next\<lparr>tl_eventNum := tl_eventNum prev,
            tl_latestEventId := tl_eventId next,
            tl_latestEventNum := tl_eventNum next,
            tl_confirmedEventNum := nullish (tl_confirmedEventNum prev) (tl_confirmedEventNum next),
            tl_confirmedInBlockNum := nullish (tl_confirmedInBlockNum prev) (tl_confirmedInBlockNum next),
            tl_createdAtEpochMs := tl_createdAtEpochMs prev,
            tl_updatedAtEpochMs := Some (tl_createdAtEpochMs next)\<rparr>
      in if \<not> canReplaceEvent prev next then prev
         else case (getChannelMessageContent (Some next), getChannelMessageContent (Some prev)) of
           (Some nextContent, Some prevContent) \<Rightarrow>
             replaced\<lparr>tl_eventId := (if \<not> isLocalId then tl_eventId prev else tl_eventId next),
               tl_content := Some (ChannelMessageContent (with_threadId (cme_threadId prevContent) nextContent)),
               tl_threadParentId := tl_threadParentId prev,
               tl_reactionParentId := tl_reactionParentId prev,
               tl_senderId := tl_senderId prev\<rparr>
         | _ \<Rightarrow>
             if is_redacted_content next then
               replaced\<lparr>tl_eventId := tl_eventId prev,
                 tl_threadParentId := tl_threadParentId prev,
                 tl_reactionParentId := tl_reactionParentId prev\<rparr>
             else if is_redacted_content prev then
               prev\<lparr>tl_latestEventId := tl_eventId next,
                 tl_latestEventNum := tl_eventNum next,
                 tl_confirmedEventNum := nullish (tl_confirmedEventNum prev) (tl_confirmedEventNum next),
                 tl_confirmedInBlockNum :=
                   nullish (tl_confirmedInBlockNum prev) (tl_confirmedInBlockNum next)\<rparr>
             else
               replaced\<lparr>tl_eventId := (if isLocalId then tl_eventId next else tl_eventId prev)\<rparr>)"

definition makeRedactionEvent :: "TimelineEvent \<Rightarrow> exn + TimelineEvent" where
  "makeRedactionEvent redactionAction =
     (case tl_content redactionAction of
        Some (RedactionActionEvent _ adminRedaction) \<Rightarrow>
          Inr (redactionAction\<lparr>tl_content := Some (RedactedEvent adminRedaction),
                 tl_fallbackContent := ''~Redacted~'',
                 tl_isRedacted := True\<rparr>)
      | _ \<Rightarrow> Inl JsError)"

subsection \<open>Timelines of a map\<close>

definition removeTimelineEvent :: "string \<Rightarrow> nat \<Rightarrow> TimelinesMap \<Rightarrow> TimelinesMap" where
  "removeTimelineEvent streamId eventIndex timelines =
     map_set streamId (remove_at eventIndex (map_get_or timelines streamId [])) timelines"

definition insertTimelineEvent :: "string \<Rightarrow> TimelineEvent \<Rightarrow> TimelinesMap \<Rightarrow> TimelinesMap" where
  "insertTimelineEvent streamId timelineEvent timelines =
     map_set streamId (sort_key tl_eventNum (rev (timelineEvent # map_get_or timelines streamId []))) timelines"

definition appendTimelineEvent :: "string \<Rightarrow> TimelineEvent \<Rightarrow> TimelinesMap \<Rightarrow> TimelinesMap" where
  "appendTimelineEvent streamId timelineEvent timelines =
     map_set streamId (map_get_or timelines streamId [] @ [timelineEvent]) timelines"

definition prependTimelineEvent :: "string \<Rightarrow> TimelineEvent \<Rightarrow> TimelinesMap \<Rightarrow> TimelinesMap" where
  "prependTimelineEvent streamId timelineEvent timelines =
     map_set streamId (timelineEvent # map_get_or timelines streamId []) timelines"

definition replaceTimelineEvent ::
  "string \<Rightarrow> TimelineEvent \<Rightarrow> nat \<Rightarrow> TimelineEvent list \<Rightarrow> TimelinesMap \<Rightarrow> TimelinesMap" where
  "replaceTimelineEvent streamId newEvent eventIndex timeline timelines =
     map_set streamId (take eventIndex timeline @ newEvent # drop (Suc eventIndex) timeline) timelines"

subsection \<open>Thread statistics\<close>

definition makeNewThreadStats ::
  "TimelineEvent \<Rightarrow> string \<Rightarrow> TimelineEvent list option \<Rightarrow> ThreadStatsData" where
  "makeNewThreadStats event parentId timeline =
     (let parent = find (\<lambda>t. tl_eventId t = parentId) (case timeline of Some ts \<Rightarrow> ts | None \<Rightarrow> [])
      in \<lparr>ts_replyEventIds = [], ts_userIds = [], ts_latestTs = tl_createdAtEpochMs event,
          ts_parentId = parentId, ts_parentEvent = parent,
          ts_parentMessageContent = getChannelMessageContent parent, ts_isParticipating = False\<rparr>)"

definition addThreadStat ::
  "TimelineEvent \<Rightarrow> string \<Rightarrow> ThreadStatsData option \<Rightarrow> TimelineEvent list option \<Rightarrow> string \<Rightarrow> ThreadStatsData" where
  "addThreadStat event parentId entry timeline userId =
     (let updated = (case entry of Some e \<Rightarrow> e | None \<Rightarrow> makeNewThreadStats event parentId timeline)
      in if is_redacted_content event then updated
         else let userIds = (case truthy_str (getMessageSenderId event) of
                               Some senderId \<Rightarrow> set_add senderId (ts_userIds updated)
                             | None \<Rightarrow> ts_userIds updated)
              in updated\<lparr>ts_replyEventIds := set_add (tl_eventId event) (ts_replyEventIds updated),
                         ts_latestTs := max (ts_latestTs updated) (tl_createdAtEpochMs event),
                         ts_userIds := userIds,
                         ts_isParticipating :=
                           (ts_isParticipating updated \<or> userId \<in> set userIds
                            \<or> map_option tl_senderId (ts_parentEvent updated) = Some userId
                            \<or> tl_isMentioned event)\<rparr>)"

definition addThreadStats ::
  "string \<Rightarrow> TimelineEvent \<Rightarrow> ThreadStatsMap \<Rightarrow> TimelineEvent list option \<Rightarrow> string \<Rightarrow> ThreadStatsMap" where
  "addThreadStats streamId timelineEvent threadsStats timeline userId =
     (case truthy_str (tl_threadParentId timelineEvent) of
        Some parentId \<Rightarrow>
          set2 streamId parentId
            (addThreadStat timelineEvent parentId (get2 threadsStats streamId parentId) timeline userId) threadsStats
      | None \<Rightarrow>
          (case get2 threadsStats streamId (tl_eventId timelineEvent) of
             Some entry \<Rightarrow>
               set2 streamId (tl_eventId timelineEvent)
                 (entry\<lparr>ts_parentEvent := Some timelineEvent,
                        ts_parentMessageContent := getChannelMessageContent (Some timelineEvent),
                        ts_isParticipating :=
                          (ts_isParticipating entry
                           \<or> \<not> is_redacted_content timelineEvent \<and> ts_replyEventIds entry \<noteq> []
                             \<and> (tl_senderId timelineEvent = userId \<or> tl_isMentioned timelineEvent))\<rparr>)
                 threadsStats
           | None \<Rightarrow> threadsStats))"

definition removeThreadStat :: "string \<Rightarrow> TimelineEvent \<Rightarrow> ThreadStatsMap \<Rightarrow> ThreadStatsMap" where
  "removeThreadStat streamId timelineEvent threadsStats =
     (case truthy_str (tl_threadParentId timelineEvent) of
        None \<Rightarrow> threadsStats
      | Some parentId \<Rightarrow>
          (case get2 threadsStats streamId parentId of
             None \<Rightarrow> threadsStats
           | Some entry \<Rightarrow>
               let replyEventIds = set_del (tl_eventId timelineEvent) (ts_replyEventIds entry);
                   updated = map_get_or threadsStats streamId []
               in map_set streamId
                    (if replyEventIds = [] then map_delete parentId updated
                     else map_set parentId
                       (entry\<lparr>ts_replyEventIds := replyEventIds,
                              ts_userIds := (case truthy_str (getMessageSenderId timelineEvent) of
                                               Some senderId \<Rightarrow> set_del senderId (ts_userIds entry)
                                             | None \<Rightarrow> ts_userIds entry)\<rparr>) updated)
                    threadsStats))"

subsection \<open>Tips\<close>

definition tip_ref :: "TimelineEvent \<Rightarrow> string option" where
  "tip_ref event =
     (if isMessageTipEvent event
      then (case tl_content event of Some (TipEvent _ _ _ _ refEventId _) \<Rightarrow> Some refEventId | _ \<Rightarrow> None)
      else None)"

datatype direction = Append | Prepend

definition addTip ::
  "TimelineEvent \<Rightarrow> string \<Rightarrow> (string, MessageTips) jsmap option \<Rightarrow> direction \<Rightarrow> (string, MessageTips) jsmap" where
  "addTip event refEventId tips direction =
     (case tips of
        None \<Rightarrow> [(refEventId, [event])]
      | Some ts \<Rightarrow>
          (case direction of
             Append \<Rightarrow> map_set refEventId (map_get_or ts refEventId [] @ [event]) ts
           | Prepend \<Rightarrow> map_set refEventId (event # map_get_or ts refEventId []) ts))"

definition addTips :: "string \<Rightarrow> TimelineEvent \<Rightarrow> TipsMap \<Rightarrow> direction \<Rightarrow> TipsMap" where
  "addTips streamId event tips direction =
     (case tip_ref event of
        None \<Rightarrow> tips
      | Some refEventId \<Rightarrow> map_set streamId (addTip event refEventId (map_get tips streamId) direction) tips)"

definition removeTip :: "string \<Rightarrow> TimelineEvent \<Rightarrow> TipsMap \<Rightarrow> TipsMap" where
  "removeTip streamId event tips =
     (case tip_ref event of
        None \<Rightarrow> tips
      | Some refEventId \<Rightarrow>
          (case get2 tips streamId refEventId of
             None \<Rightarrow> tips
           | Some ts \<Rightarrow> set2 streamId refEventId (filter (\<lambda>t. tl_eventId t \<noteq> tl_eventId event) ts) tips))"

subsection \<open>Reactions\<close>

definition reaction_name :: "TimelineEvent \<Rightarrow> string option" where
  "reaction_name event = (case tl_content event of Some (ReactionEvent _ reaction) \<Rightarrow> Some reaction | _ \<Rightarrow> None)"

definition addReaction :: "TimelineEvent \<Rightarrow> MessageReactions option \<Rightarrow> MessageReactions" where
  "addReaction event entry =
     (let es = (case entry of Some e \<Rightarrow> e | None \<Rightarrow> [])
      in case reaction_name event of
           None \<Rightarrow> es
         | Some reactionName \<Rightarrow> set2 reactionName (tl_senderId event) (tl_eventId event) es)"

definition addReactions :: "string \<Rightarrow> TimelineEvent \<Rightarrow> ReactionsMap \<Rightarrow> ReactionsMap" where
  "addReactions streamId event reactions =
     (case truthy_str (tl_reactionParentId event) of
        None \<Rightarrow> reactions
      | Some parentId \<Rightarrow>
          set2 streamId parentId (addReaction event (get2 reactions streamId parentId)) reactions)"

definition removeReaction :: "string \<Rightarrow> TimelineEvent \<Rightarrow> ReactionsMap \<Rightarrow> exn + ReactionsMap" where
  "removeReaction streamId event reactions =
     (case truthy_str (tl_reactionParentId event) of
        None \<Rightarrow> Inr reactions
      | Some parentId \<Rightarrow>
          (case (get2 reactions streamId parentId, reaction_name event) of
             (Some entry, Some reactionName) \<Rightarrow>
               (case map_get entry reactionName of
                  None \<Rightarrow> Inl JsError
                | Some users \<Rightarrow>
                    let left = map_delete (tl_senderId event) users
                    in Inr (set2 streamId parentId
                         (if left = [] then map_delete reactionName entry else map_set reactionName left entry)
                         reactions))
           | _ \<Rightarrow> Inr reactions))"

subsection \<open>Threads\<close>

definition removeThreadEvent :: "string \<Rightarrow> TimelineEvent \<Rightarrow> ThreadsMap \<Rightarrow> ThreadsMap" where
  "removeThreadEvent streamId event threads =
     (case truthy_str (tl_threadParentId event) of
        None \<Rightarrow> threads
      | Some parentId \<Rightarrow>
          (case get2 threads streamId parentId of
             None \<Rightarrow> threads
           | Some thread \<Rightarrow>
               (case find_index (\<lambda>e. tl_eventId e = tl_eventId event) thread of
                  None \<Rightarrow> threads
                | Some threadEventIndex \<Rightarrow>
                    map_set streamId (removeTimelineEvent parentId threadEventIndex (map_get_or threads streamId []))
                      threads)))"

definition insertThreadEvent :: "string \<Rightarrow> TimelineEvent \<Rightarrow> ThreadsMap \<Rightarrow> ThreadsMap" where
  "insertThreadEvent streamId timelineEvent threads =
     (case truthy_str (tl_threadParentId timelineEvent) of
        None \<Rightarrow> threads
      | Some parentId \<Rightarrow>
          map_set streamId (insertTimelineEvent parentId timelineEvent (map_get_or threads streamId [])) threads)"

subsection \<open>Operations of the model\<close>

definition emptyModel :: TimelinesViewModel where
  "emptyModel = \<lparr>tm_timelines = [], tm_replacedEvents = [], tm_pendingReplacedEvents = [],
     tm_threadsStats = [], tm_threads = [], tm_reactions = [], tm_tips = [], tm_lastestEventByUser = []\<rparr>"

definition initializeStream :: "TimelinesViewModel \<Rightarrow> string \<Rightarrow> TimelinesViewModel" where
  "initializeStream state streamId =
     state\<lparr>tm_timelines := map_set streamId [] (tm_timelines state),
           tm_threadsStats := map_set streamId [] (tm_threadsStats state),
           tm_threads := map_set streamId [] (tm_threads state),
           tm_reactions := map_set streamId [] (tm_reactions state),
           tm_tips := map_set streamId [] (tm_tips state)\<rparr>"

definition reset_stream :: "string \<Rightarrow> TimelinesViewModel \<Rightarrow> TimelinesViewModel" where
  "reset_stream streamId prev =
     prev\<lparr>tm_timelines := map_delete streamId (tm_timelines prev),
          tm_replacedEvents := map_delete streamId (tm_replacedEvents prev),
          tm_pendingReplacedEvents := map_delete streamId (tm_pendingReplacedEvents prev),
          tm_threadsStats := map_delete streamId (tm_threadsStats prev),
          tm_threads := map_delete streamId (tm_threads prev),
          tm_reactions := map_delete streamId (tm_reactions prev),
          tm_tips := map_delete streamId (tm_tips prev)\<rparr>"

definition reset :: "string list \<Rightarrow> TimelinesViewModel \<Rightarrow> TimelinesViewModel" where
  "reset streamIds prev = fold reset_stream streamIds prev"

abbreviation timeline_of :: "TimelinesViewModel \<Rightarrow> string \<Rightarrow> TimelineEvent list" where
  "timeline_of state streamId \<equiv> map_get_or (tm_timelines state) streamId []"

definition removeEvent :: "TimelinesViewModel \<Rightarrow> string \<Rightarrow> string \<Rightarrow> exn + TimelinesViewModel" where
  "removeEvent state streamId eventId =
     (case find_index (\<lambda>e. tl_eventId e = eventId) (timeline_of state streamId) of
        None \<Rightarrow> Inr state
      | Some eventIndex \<Rightarrow>
          let event = timeline_of state streamId ! eventIndex
          in bindE (removeReaction streamId event (tm_reactions state)) (\<lambda>reactions.
             Inr (state\<lparr>tm_timelines := removeTimelineEvent streamId eventIndex (tm_timelines state),
                        tm_threadsStats := removeThreadStat streamId event (tm_threadsStats state),
                        tm_threads := removeThreadEvent streamId event (tm_threads state),
                        tm_reactions := reactions,
                        tm_tips := removeTip streamId event (tm_tips state)\<rparr>)))"

definition appendEvent ::
  "TimelinesViewModel \<Rightarrow> string \<Rightarrow> string \<Rightarrow> TimelineEvent \<Rightarrow> TimelinesViewModel" where
  "appendEvent state userId streamId timelineEvent =
     state\<lparr>tm_timelines := appendTimelineEvent streamId timelineEvent (tm_timelines state),
           tm_threadsStats := addThreadStats streamId timelineEvent (tm_threadsStats state)
             (map_get (tm_timelines state) streamId) userId,
           tm_threads := insertThreadEvent streamId timelineEvent (tm_threads state),
           tm_reactions := addReactions streamId timelineEvent (tm_reactions state),
           tm_tips := addTips streamId timelineEvent (tm_tips state) Append\<rparr>"

definition prependEvent ::
  "TimelinesViewModel \<Rightarrow> string \<Rightarrow> string \<Rightarrow> TimelineEvent \<Rightarrow> TimelinesViewModel" where
  "prependEvent state userId streamId inTimelineEvent =
     (let timelineEvent =
            (case get2 (tm_pendingReplacedEvents state) streamId (tl_eventId inTimelineEvent) of
               Some replacement \<Rightarrow> toReplacedMessageEvent inTimelineEvent replacement
             | None \<Rightarrow> inTimelineEvent)
      in state\<lparr>tm_timelines := prependTimelineEvent streamId timelineEvent (tm_timelines state),
               tm_threadsStats := addThreadStats streamId timelineEvent (tm_threadsStats state)
                 (map_get (tm_timelines state) streamId) userId,
               tm_threads := insertThreadEvent streamId timelineEvent (tm_threads state),
               tm_reactions := addReactions streamId timelineEvent (tm_reactions state),
               tm_tips := addTips streamId timelineEvent (tm_tips state) Prepend\<rparr>)"

text \<open>The condition that \<open>replaceEvent\<close> searches with.\<close>

definition matches :: "string \<Rightarrow> TimelineEvent \<Rightarrow> TimelineEvent \<Rightarrow> bool" where
  "matches replacedMsgId timelineEvent e \<longleftrightarrow>
     tl_eventId e = replacedMsgId
     \<or> truthy_str (tl_localEventId e) \<noteq> None \<and> tl_localEventId e = tl_localEventId timelineEvent"

text \<open>Record a replacement whose event is not in the timeline.\<close>

definition addPendingReplacement ::
  "TimelinesViewModel \<Rightarrow> string \<Rightarrow> string \<Rightarrow> TimelineEvent \<Rightarrow> TimelinesViewModel" where
  "addPendingReplacement state streamId replacedMsgId timelineEvent =
     (case get2 (tm_pendingReplacedEvents state) streamId replacedMsgId of
        Some pending \<Rightarrow>
          if tl_latestEventNum pending > tl_latestEventNum timelineEvent then state
          else state\<lparr>tm_pendingReplacedEvents :=
                 set2 streamId replacedMsgId timelineEvent (tm_pendingReplacedEvents state)\<rparr>
      | None \<Rightarrow>
          state\<lparr>tm_pendingReplacedEvents :=
            set2 streamId replacedMsgId timelineEvent (tm_pendingReplacedEvents state)\<rparr>)"

text \<open>The threads after \<open>newEvent\<close> replaced an event: at its place in its thread, if it has one.\<close>

definition replaceInThread ::
  "string \<Rightarrow> (TimelineEvent \<Rightarrow> bool) \<Rightarrow> TimelineEvent \<Rightarrow> ThreadsMap \<Rightarrow> ThreadsMap option" where
  "replaceInThread streamId P newEvent threads =
     (case truthy_str (tl_threadParentId newEvent) of
        None \<Rightarrow> None
      | Some threadParentId \<Rightarrow>
          (case get2 threads streamId threadParentId of
             None \<Rightarrow> None
           | Some threadTimeline \<Rightarrow>
               (case find_index P threadTimeline of
                  None \<Rightarrow> None
                | Some threadEventIndex \<Rightarrow>
                    Some (map_set streamId
                      (replaceTimelineEvent threadParentId newEvent threadEventIndex threadTimeline
                        (map_get_or threads streamId [])) threads))))"

definition addReplacedEvent ::
  "string \<Rightarrow> TimelineEvent \<Rightarrow> TimelineEvent \<Rightarrow> (string, (TimelineEvent \<times> TimelineEvent) list) jsmap \<Rightarrow>
   (string, (TimelineEvent \<times> TimelineEvent) list) jsmap" where
  "addReplacedEvent streamId oldEvent newEvent replacedEvents =
     map_set streamId (map_get_or replacedEvents streamId [] @ [(oldEvent, newEvent)]) replacedEvents"

definition replaceEvent ::
  "TimelinesViewModel \<Rightarrow> string \<Rightarrow> string \<Rightarrow> string \<Rightarrow> TimelineEvent \<Rightarrow> exn + TimelinesViewModel" where
  "replaceEvent state userId streamId replacedMsgId timelineEvent =
     (let timeline = timeline_of state streamId
      in case find_index (matches replacedMsgId timelineEvent) timeline of
           None \<Rightarrow> Inr (addPendingReplacement state streamId replacedMsgId timelineEvent)
         | Some eventIndex \<Rightarrow>
             let oldEvent = timeline ! eventIndex;
                 newEvent = toReplacedMessageEvent oldEvent timelineEvent
             in if tl_latestEventNum timelineEvent < tl_latestEventNum oldEvent then Inr state
                else bindE (removeReaction streamId oldEvent (tm_reactions state)) (\<lambda>reactions.
                  Inr (state\<lparr>
                    tm_timelines := replaceTimelineEvent streamId newEvent eventIndex timeline (tm_timelines state),
                    tm_replacedEvents := addReplacedEvent streamId oldEvent newEvent (tm_replacedEvents state),
                    tm_threadsStats := addThreadStats streamId newEvent
                      (removeThreadStat streamId oldEvent (tm_threadsStats state))
                      (map_get (tm_timelines state) streamId) userId,
                    tm_threads :=
                      (case replaceInThread streamId (matches replacedMsgId timelineEvent) newEvent (tm_threads state) of
                         Some threads \<Rightarrow> threads
                       | None \<Rightarrow> insertThreadEvent streamId newEvent (tm_threads state)),
                    tm_reactions := addReactions streamId newEvent reactions,
                    tm_tips := addTips streamId newEvent (removeTip streamId oldEvent (tm_tips state)) Append\<rparr>)))"

definition confirmEvent ::
  "TimelinesViewModel \<Rightarrow> string \<Rightarrow> TimelineEventConfirmation \<Rightarrow> TimelinesViewModel" where
  "confirmEvent state streamId confirmation =
     (let timeline = timeline_of state streamId;
          P = (\<lambda>e. tl_eventId e = cf_eventId confirmation)
      in case find_index P timeline of
           None \<Rightarrow> state
         | Some eventIndex \<Rightarrow>
             let oldEvent = timeline ! eventIndex;
                 newEvent = oldEvent\<lparr>tl_confirmedEventNum := cf_confirmedEventNum confirmation,
                                     tl_confirmedInBlockNum := cf_confirmedInBlockNum confirmation\<rparr>
             in state\<lparr>
                  tm_timelines := replaceTimelineEvent streamId newEvent eventIndex timeline (tm_timelines state),
                  tm_replacedEvents := addReplacedEvent streamId oldEvent newEvent (tm_replacedEvents state),
                  tm_threads :=
                    (case replaceInThread streamId P newEvent (tm_threads state) of
                       Some threads \<Rightarrow> threads
                     | None \<Rightarrow> tm_threads state)\<rparr>)"

definition updateLatest :: "TimelineEvent \<Rightarrow> TimelinesViewModel \<Rightarrow> TimelinesViewModel" where
  "updateLatest event state =
     (let prevTime = (case map_get (tm_lastestEventByUser state) (tl_senderId event) of
                        Some e \<Rightarrow> tl_createdAtEpochMs e
                      | None \<Rightarrow> 0)
      in if prevTime < tl_createdAtEpochMs event
         then state\<lparr>tm_lastestEventByUser := map_set (tl_senderId event) event (tm_lastestEventByUser state)\<rparr>
         else state)"

definition processEvent ::
  "TimelinesViewModel \<Rightarrow> TimelineEvent \<Rightarrow> string \<Rightarrow> string \<Rightarrow> string option \<Rightarrow> exn + TimelinesViewModel" where
  "processEvent state event userId streamId updatingEventId =
     (let place = (\<lambda>state.
            case truthy_str updatingEventId of
              Some updating \<Rightarrow> replaceEvent state userId streamId updating event
            | None \<Rightarrow> Inr (appendEvent state userId streamId event))
      in bindE
        (case truthy_str (getRedactsId (tl_content event)) of
           Some redactsEventId \<Rightarrow>
             bindE (makeRedactionEvent event) (\<lambda>redactedEvent.
             bindE (replaceEvent state userId streamId redactsEventId redactedEvent) place)
         | None \<Rightarrow>
             (case truthy_str (getEditsId (tl_content event)) of
                Some editsEventId \<Rightarrow>
                  bindE (case truthy_str updatingEventId of
                           Some updating \<Rightarrow> removeEvent state streamId updating
                         | None \<Rightarrow> Inr state) (\<lambda>state.
                  replaceEvent state userId streamId editsEventId event)
              | None \<Rightarrow> place state))
        (\<lambda>state. Inr (updateLatest event state)))"

definition model_appendEvents ::
  "TimelineEvent list \<Rightarrow> string \<Rightarrow> string \<Rightarrow> bool \<Rightarrow> TimelinesViewModel \<Rightarrow> exn + TimelinesViewModel" where
  "model_appendEvents events userId streamId initializing state =
     foldE (\<lambda>event state. processEvent state event userId streamId None) events
       (if initializing then initializeStream state streamId else state)"

definition prependOne ::
  "string \<Rightarrow> string \<Rightarrow> TimelineEvent \<Rightarrow> TimelinesViewModel \<Rightarrow> exn + TimelinesViewModel" where
  "prependOne userId streamId event state =
     (case truthy_str (getRedactsId (tl_content event)) of
        Some redactsEventId \<Rightarrow>
          bindE (makeRedactionEvent event) (\<lambda>redactedEvent.
          replaceEvent (prependEvent state userId streamId event) userId streamId redactsEventId redactedEvent)
      | None \<Rightarrow>
          (case truthy_str (getEditsId (tl_content event)) of
             Some editsEventId \<Rightarrow> replaceEvent state userId streamId editsEventId event
           | None \<Rightarrow> Inr (prependEvent state userId streamId event)))"

definition model_prependEvents ::
  "TimelineEvent list \<Rightarrow> string \<Rightarrow> string \<Rightarrow> TimelinesViewModel \<Rightarrow> exn + TimelinesViewModel" where
  "model_prependEvents events userId streamId state = foldE (prependOne userId streamId) (rev events) state"

definition updateEvents ::
  "TimelineEvent list \<Rightarrow> string \<Rightarrow> string \<Rightarrow> TimelinesViewModel \<Rightarrow> exn + TimelinesViewModel" where
  "updateEvents events userId streamId state =
     foldE (\<lambda>event state. processEvent state event userId streamId (Some (tl_eventId event))) events state"

definition updateEvent ::
  "TimelineEvent \<Rightarrow> string \<Rightarrow> string \<Rightarrow> string \<Rightarrow> TimelinesViewModel \<Rightarrow> exn + TimelinesViewModel" where
  "updateEvent event userId streamId replacingEventId state =
     processEvent state event userId streamId (Some replacingEventId)"

definition confirmEvents ::
  "TimelineEventConfirmation list \<Rightarrow> string \<Rightarrow> TimelinesViewModel \<Rightarrow> TimelinesViewModel" where
  "confirmEvents confirmations streamId state =
     fold (\<lambda>confirmation state. confirmEvent state streamId confirmation) confirmations state"

subsection \<open>The timelines view\<close>

text \<open>The delegate may throw; the one of the client (\<open>client.ts\<close>) asks the user settings stream.\<close>

record TimelinesView =
  tv_value :: TimelinesViewModel
  tv_streamIds :: "string jsset"
  tv_userId :: string
  tv_delegate :: "(TimelineEvent \<Rightarrow> exn + bool) option"
  tv_eventFilter :: "RiverTimelineEvent jsset"

definition newTimelinesView :: "string \<Rightarrow> (TimelineEvent \<Rightarrow> exn + bool) option \<Rightarrow> TimelinesView" where
  "newTimelinesView userId delegate =
     \<lparr>tv_value = emptyModel, tv_streamIds = [], tv_userId = userId, tv_delegate = delegate,
      tv_eventFilter = [RtFulfillment, RtKeySolicitation]\<rparr>"

definition isDMMessageEventBlocked ::
  "string option \<Rightarrow> SettingsContent option \<Rightarrow> TimelineEvent \<Rightarrow> exn + bool" where
  "isDMMessageEventBlocked userSettingsStreamId settings event =
     (case truthy_str userSettingsStreamId of
        None \<Rightarrow> Inr False
      | Some _ \<Rightarrow>
          bindE (of_option (throwWithCode None) settings) (\<lambda>content.
          Inr (isUserBlockedAt content (tl_senderId event) (tl_eventNum event))))"

definition filterFn ::
  "'a externs_scheme \<Rightarrow> TimelinesView \<Rightarrow> string \<Rightarrow> TimelineEvent \<Rightarrow> exn + bool" where
  "filterFn E view streamId event =
     bindE (case tv_delegate view of
              Some isBlocked \<Rightarrow> if isDMChannelStreamId E (Str streamId) then isBlocked event else Inr False
            | None \<Rightarrow> Inr False) (\<lambda>blocked.
     Inr (\<not> blocked \<and> (case tl_content event of
                          None \<Rightarrow> True
                        | Some c \<Rightarrow> kind_of c \<notin> set (tv_eventFilter view))))"

fun filterE :: "('a \<Rightarrow> exn + bool) \<Rightarrow> 'a list \<Rightarrow> exn + 'a list" where
  "filterE P [] = Inr []"
| "filterE P (x # xs) = bindE (P x) (\<lambda>b. bindE (filterE P xs) (\<lambda>ys. Inr (if b then x # ys else ys)))"

definition toEvents ::
  "'a protocol_externs_scheme \<Rightarrow> TimelinesView \<Rightarrow> string \<Rightarrow> StreamTimelineEvent list \<Rightarrow>
   exn + TimelineEvent list" where
  "toEvents E view streamId events =
     bindE (mapE (\<lambda>event. toEvent E event (tv_userId view)) events) (filterE (filterFn E view streamId))"

definition setState ::
  "TimelinesView \<Rightarrow> (TimelinesViewModel \<Rightarrow> exn + TimelinesViewModel) \<Rightarrow> exn + TimelinesView" where
  "setState view fn = bindE (fn (tv_value view)) (\<lambda>value. Inr (view\<lparr>tv_value := value\<rparr>))"

definition tl_streamInitialized ::
  "'a protocol_externs_scheme \<Rightarrow> TimelinesView \<Rightarrow> string \<Rightarrow> StreamTimelineEvent list \<Rightarrow> exn + TimelinesView" where
  "tl_streamInitialized E view streamId messages =
     (let view = view\<lparr>tv_streamIds := set_add streamId (tv_streamIds view)\<rparr>
      in bindE (toEvents E view streamId messages) (\<lambda>timelineEvents.
         setState view (model_appendEvents timelineEvents (tv_userId view) streamId True)))"

text \<open>A part of a change that is \<open>undefined\<close> is skipped.\<close>

definition change_part ::
  "'x option \<Rightarrow> ('x \<Rightarrow> TimelinesView \<Rightarrow> exn + TimelinesView) \<Rightarrow> TimelinesView \<Rightarrow> exn + TimelinesView" where
  "change_part part f view = (case part of None \<Rightarrow> Inr view | Some x \<Rightarrow> f x view)"

definition tl_streamUpdated ::
  "'a protocol_externs_scheme \<Rightarrow> TimelinesView \<Rightarrow> string \<Rightarrow> StreamChange \<Rightarrow> exn + TimelinesView" where
  "tl_streamUpdated E view streamId change =
     bindE (change_part (ch_prepended change) (\<lambda>prepended view.
              bindE (toEvents E view streamId prepended) (\<lambda>events.
              setState view (model_prependEvents events (tv_userId view) streamId)))
            (view\<lparr>tv_streamIds := set_add streamId (tv_streamIds view)\<rparr>)) (\<lambda>view.
     bindE (change_part (ch_appended change) (\<lambda>appended view.
              bindE (toEvents E view streamId appended) (\<lambda>events.
              setState view (model_appendEvents events (tv_userId view) streamId False))) view) (\<lambda>view.
     bindE (change_part (ch_updated change) (\<lambda>updated view.
              bindE (toEvents E view streamId updated) (\<lambda>events.
              setState view (updateEvents events (tv_userId view) streamId))) view) (\<lambda>view.
     change_part (ch_confirmed change) (\<lambda>confirmed view.
       let confirmations = map (\<lambda>event. \<lparr>cf_eventId = se_hashStr event,
               cf_confirmedEventNum = se_confirmedEventNum event,
               cf_confirmedInBlockNum = se_miniblockNum event\<rparr>) confirmed
       in setState view (\<lambda>value. Inr (confirmEvents confirmations streamId value))) view)))"

text \<open>\<open>this.value.timelines[streamId].find(...)\<close> throws when the stream has no timeline.\<close>

definition find_event :: "TimelinesView \<Rightarrow> string \<Rightarrow> string \<Rightarrow> exn + TimelineEvent option" where
  "find_event view streamId eventId =
     bindE (of_option JsError (map_get (tm_timelines (tv_value view)) streamId)) (\<lambda>timeline.
     Inr (find (\<lambda>event. tl_eventId event = eventId) timeline))"

definition tl_streamEventDecrypted ::
  "TimelinesView \<Rightarrow> string \<Rightarrow> string \<Rightarrow> DecryptedContent \<Rightarrow> exn + (TimelinesView \<times> TimelineEvent option)" where
  "tl_streamEventDecrypted view streamId eventId decryptedContent =
     bindE (find_event view streamId eventId) (\<lambda>found.
     case found of
       None \<Rightarrow> Inr (view, None)
     | Some prevEvent \<Rightarrow>
         let newEvent = toDecryptedEvent prevEvent decryptedContent (tv_userId view)
         in bindE (if newEvent \<noteq> prevEvent
                   then setState view (updateEvent newEvent (tv_userId view) streamId eventId)
                   else Inr view) (\<lambda>view. Inr (view, Some newEvent)))"

definition tl_streamEventDecryptedContentError ::
  "TimelinesView \<Rightarrow> string \<Rightarrow> string \<Rightarrow> DecryptionSessionError \<Rightarrow> exn + TimelinesView" where
  "tl_streamEventDecryptedContentError view streamId eventId error =
     bindE (find_event view streamId eventId) (\<lambda>found.
     case found of
       None \<Rightarrow> Inr view
     | Some prevEvent \<Rightarrow>
         if is_undecrypted prevEvent
         then setState view (updateEvent (toDecryptedContentErrorEvent prevEvent error) (tv_userId view) streamId eventId)
         else Inr view)"

definition tl_streamLocalEventUpdated ::
  "'a protocol_externs_scheme \<Rightarrow> TimelinesView \<Rightarrow> string \<Rightarrow> string \<Rightarrow> StreamTimelineEvent \<Rightarrow>
   exn + TimelinesView" where
  "tl_streamLocalEventUpdated E view streamId localEventId localEvent =
     (let view = view\<lparr>tv_streamIds := set_add streamId (tv_streamIds view)\<rparr>
      in bindE (toEvent E localEvent (tv_userId view)) (\<lambda>event.
         bindE (filterFn E view streamId event) (\<lambda>keep.
         if keep then setState view (updateEvent event (tv_userId view) streamId localEventId)
         else Inr view)))"

text \<open>What a stream view sends, applied to the timelines view.\<close>

definition tl_apply ::
  "'a protocol_externs_scheme \<Rightarrow> TimelinesView \<Rightarrow> sv_out \<Rightarrow> exn + TimelinesView" where
  "tl_apply E view o1 =
     (case o1 of
        Emitted _ \<Rightarrow> Inr view
      | TlInitialized streamId messages \<Rightarrow> tl_streamInitialized E view streamId messages
      | TlUpdated streamId change \<Rightarrow> tl_streamUpdated E view streamId change
      | TlEventDecrypted streamId eventId content _ \<Rightarrow>
          bindE (tl_streamEventDecrypted view streamId eventId content) (\<lambda>r. Inr (fst r))
      | TlEventDecryptedContentError streamId eventId error \<Rightarrow>
          tl_streamEventDecryptedContentError view streamId eventId error
      | TlLocalEventUpdated streamId localEventId event \<Rightarrow>
          tl_streamLocalEventUpdated E view streamId localEventId event)"

subsection \<open>Lemmas on the model\<close>

lemma map_get_or_delete [simp]:
  "map_get_or (map_delete k m) k' d = (if k' = k then d else map_get_or m k' d)"
  by (simp add: map_get_or_def delete_conv)

lemma set_replace_at:
  assumes "i < length xs"
  shows "set (take i xs @ y # drop (Suc i) xs) = insert y (set (remove_at i xs))"
    and "set xs \<subseteq> insert (xs ! i) (set (remove_at i xs))"
proof -
  show "set (take i xs @ y # drop (Suc i) xs) = insert y (set (remove_at i xs))"
    by (auto simp: remove_at_def)
  have "set xs = set (take i xs @ xs ! i # drop (Suc i) xs)"
    using assms by (simp only: id_take_nth_drop[symmetric])
  then show "set xs \<subseteq> insert (xs ! i) (set (remove_at i xs))"
    by (auto simp: remove_at_def)
qed

lemma replace_at_eq_update: "i < length xs \<Longrightarrow> take i xs @ y # drop (Suc i) xs = xs[i := y]"
  by (simp add: upd_conv_take_nth_drop)

lemma updateLatest_frame [simp]:
  "tm_timelines (updateLatest event state) = tm_timelines state"
  "tm_reactions (updateLatest event state) = tm_reactions state"
  "tm_pendingReplacedEvents (updateLatest event state) = tm_pendingReplacedEvents state"
  by (simp_all add: updateLatest_def Let_def)

lemma appendEvent_timelines [simp]:
  "timeline_of (appendEvent state u sid e) sid' =
     (if sid' = sid then timeline_of state sid @ [e] else timeline_of state sid')"
  "tm_pendingReplacedEvents (appendEvent state u sid e) = tm_pendingReplacedEvents state"
  "tm_reactions (appendEvent state u sid e) = addReactions sid e (tm_reactions state)"
  by (simp_all add: appendEvent_def appendTimelineEvent_def)

definition pending_applied :: "TimelinesViewModel \<Rightarrow> string \<Rightarrow> TimelineEvent \<Rightarrow> TimelineEvent" where
  "pending_applied state streamId e =
     (case get2 (tm_pendingReplacedEvents state) streamId (tl_eventId e) of
        Some replacement \<Rightarrow> toReplacedMessageEvent e replacement
      | None \<Rightarrow> e)"

lemma prependEvent_timelines [simp]:
  "timeline_of (prependEvent state u sid e) sid' =
     (if sid' = sid then pending_applied state sid e # timeline_of state sid else timeline_of state sid')"
  "tm_pendingReplacedEvents (prependEvent state u sid e) = tm_pendingReplacedEvents state"
  by (simp_all add: prependEvent_def prependTimelineEvent_def pending_applied_def Let_def)

lemma addPendingReplacement_frame [simp]:
  "tm_timelines (addPendingReplacement state sid i e) = tm_timelines state"
  "tm_reactions (addPendingReplacement state sid i e) = tm_reactions state"
  by (simp_all add: addPendingReplacement_def split: option.split)

text \<open>The timelines after \<open>replaceEvent\<close>.\<close>

lemma replaceEvent_timelines:
  assumes "replaceEvent state u sid i ev = Inr state'"
  shows "timeline_of state' sid' =
    (case find_index (matches i ev) (timeline_of state sid) of
       Some k \<Rightarrow>
         if sid' = sid \<and> \<not> tl_latestEventNum ev < tl_latestEventNum (timeline_of state sid ! k)
         then (timeline_of state sid)[k := toReplacedMessageEvent (timeline_of state sid ! k) ev]
         else timeline_of state sid'
     | None \<Rightarrow> timeline_of state sid')"
proof (cases "find_index (matches i ev) (timeline_of state sid)")
  case None
  with assms show ?thesis by (simp add: replaceEvent_def Let_def) (auto simp: addPendingReplacement_frame)
next
  case (Some k)
  then have k: "k < length (timeline_of state sid)" using find_index_SomeD by metis
  from assms Some k show ?thesis
    by (auto simp: replaceEvent_def Let_def bindE_Inr_iff replaceTimelineEvent_def replace_at_eq_update
        split: if_splits)
qed

lemma not_replaced: "\<not> canReplaceEvent prev next \<Longrightarrow> toReplacedMessageEvent prev next = prev"
  by (simp add: toReplacedMessageEvent_def Let_def)

lemma replaceEvent_keeps:
  assumes "replaceEvent state u sid i ev = Inr state'" "e \<in> set (timeline_of state sid')"
    "\<not> canReplaceEvent e ev"
  shows "e \<in> set (timeline_of state' sid')"
proof (cases "find_index (matches i ev) (timeline_of state sid)")
  case None
  with replaceEvent_timelines[OF assms(1), of sid'] assms(2) show ?thesis by simp
next
  case (Some k)
  then have k: "k < length (timeline_of state sid)" using find_index_SomeD by metis
  show ?thesis
  proof (cases "sid' = sid")
    case True
    from assms(2) True obtain j where j: "j < length (timeline_of state sid)" "timeline_of state sid ! j = e"
      by (auto simp: in_set_conv_nth)
    have "e \<in> set ((timeline_of state sid)[k := toReplacedMessageEvent (timeline_of state sid ! k) ev])"
    proof (cases "j = k")
      case True
      with j not_replaced[OF assms(3)] assms(2) show ?thesis by (metis list_update_id nth_mem)
    next
      case False
      with j show ?thesis by (metis length_list_update nth_list_update_neq nth_mem)
    qed
    with replaceEvent_timelines[OF assms(1), of sid'] assms(2) True Some show ?thesis by simp
  next
    case False
    with replaceEvent_timelines[OF assms(1), of sid'] assms(2) Some show ?thesis by simp
  qed
qed

text \<open>Only the sender of an event and an admin redaction may act on it.\<close>

definition mayActOn :: "TimelineEvent \<Rightarrow> TimelineEvent \<Rightarrow> bool" where
  "mayActOn event e \<longleftrightarrow>
     tl_senderId event = tl_senderId e \<or> tl_content event = Some (RedactedEvent True)
     \<or> (\<exists>r. tl_content event = Some (RedactionActionEvent r True))"

lemma redaction_cannot:
  assumes "makeRedactionEvent event = Inr red" "\<not> mayActOn event e"
  shows "\<not> canReplaceEvent e red"
  using assms
  by (auto simp: makeRedactionEvent_def mayActOn_def canReplaceEvent_def
      split: option.splits TimelineEvent_OneOf.splits)

lemma event_cannot: "\<not> mayActOn event e \<Longrightarrow> \<not> canReplaceEvent e event"
  by (simp add: mayActOn_def canReplaceEvent_def)

lemma processEvent_keeps:
  assumes p: "processEvent state event u sid None = Inr state'" and e: "e \<in> set (timeline_of state sid')"
    and n: "\<not> mayActOn event e"
  shows "e \<in> set (timeline_of state' sid')"
proof (cases "truthy_str (getRedactsId (tl_content event))")
  case (Some r)
  from p Some obtain red s1 where red: "makeRedactionEvent event = Inr red"
    and s1: "replaceEvent state u sid r red = Inr s1"
    and s': "state' = updateLatest event (appendEvent s1 u sid event)"
    by (auto simp: processEvent_def Let_def bindE_Inr_iff truthy_str_def)
  from replaceEvent_keeps[OF s1 e redaction_cannot[OF red n]] show ?thesis by (auto simp: s')
next
  case None
  show ?thesis
  proof (cases "truthy_str (getEditsId (tl_content event))")
    case (Some i)
    from p None Some obtain s1 where s1: "replaceEvent state u sid i event = Inr s1"
      and s': "state' = updateLatest event s1"
      by (auto simp: processEvent_def Let_def bindE_Inr_iff truthy_str_def)
    from replaceEvent_keeps[OF s1 e event_cannot[OF n]] show ?thesis by (simp add: s')
  next
    case None2: None
    from p None None2 have "state' = updateLatest event (appendEvent state u sid event)"
      by (simp add: processEvent_def Let_def truthy_str_def)
    with e show ?thesis by auto
  qed
qed

lemma prependOne_keeps:
  assumes p: "prependOne u sid event state = Inr state'" and e: "e \<in> set (timeline_of state sid')"
    and n: "\<not> mayActOn event e"
  shows "e \<in> set (timeline_of state' sid')"
proof (cases "truthy_str (getRedactsId (tl_content event))")
  case (Some r)
  from p Some obtain red where red: "makeRedactionEvent event = Inr red"
    and s': "replaceEvent (prependEvent state u sid event) u sid r red = Inr state'"
    by (auto simp: prependOne_def bindE_Inr_iff)
  have "e \<in> set (timeline_of (prependEvent state u sid event) sid')" using e by auto
  from replaceEvent_keeps[OF s' this redaction_cannot[OF red n]] show ?thesis .
next
  case None
  with p e replaceEvent_keeps[OF _ e event_cannot[OF n]] show ?thesis
    by (auto simp: prependOne_def split: option.splits)
qed

text \<open>An event that neither edits nor redacts is placed as it is.\<close>

definition plain :: "TimelineEvent \<Rightarrow> bool" where
  "plain e \<longleftrightarrow> truthy_str (getRedactsId (tl_content e)) = None \<and> truthy_str (getEditsId (tl_content e)) = None"

abbreviation process_one where
  "process_one userId streamId event state \<equiv> processEvent state event userId streamId None"

lemma plain_process_one:
  "plain e \<Longrightarrow> process_one u sid e state = Inr (updateLatest e (appendEvent state u sid e))"
  by (simp add: plain_def processEvent_def Let_def truthy_str_def)

lemma plain_prependOne: "plain e \<Longrightarrow> prependOne u sid e state = Inr (prependEvent state u sid e)"
  by (simp add: plain_def prependOne_def)

lemma plain_append_each:
  assumes "\<forall>e \<in> set es. plain e"
  shows "\<exists>state'. foldE (process_one u sid) es state = Inr state'
    \<and> timeline_of state' sid = timeline_of state sid @ es"
  using assms
proof (induction es arbitrary: state)
  case Nil
  then show ?case by simp
next
  case (Cons e es)
  obtain s where "foldE (process_one u sid) es (updateLatest e (appendEvent state u sid e)) = Inr s"
    "timeline_of s sid = timeline_of (updateLatest e (appendEvent state u sid e)) sid @ es"
    using Cons by (metis list.set_intros(2))
  with Cons.prems show ?case by (simp add: plain_process_one)
qed

lemma pending_applied_cong:
  "tm_pendingReplacedEvents s = tm_pendingReplacedEvents t \<Longrightarrow> pending_applied s = pending_applied t"
  by (simp add: pending_applied_def fun_eq_iff)

lemma plain_prepend_each:
  assumes "\<forall>e \<in> set es. plain e"
  shows "\<exists>state'. foldE (prependOne u sid) (rev es) state = Inr state'
    \<and> timeline_of state' sid = map (pending_applied state sid) es @ timeline_of state sid
    \<and> tm_pendingReplacedEvents state' = tm_pendingReplacedEvents state"
  using assms
proof (induction es)
  case Nil
  then show ?case by simp
next
  case (Cons e es)
  then obtain s where s: "foldE (prependOne u sid) (rev es) state = Inr s"
    "timeline_of s sid = map (pending_applied state sid) es @ timeline_of state sid"
    "tm_pendingReplacedEvents s = tm_pendingReplacedEvents state" by auto
  with Cons.prems pending_applied_cong[OF s(3)] show ?case
    by (simp add: foldE_append plain_prependOne)
qed

lemma matches_remote: "tl_localEventId ev = None \<Longrightarrow> matches i ev e \<longleftrightarrow> tl_eventId e = i"
  by (auto simp: matches_def truthy_str_def)

lemma find_index_matches:
  assumes "tl_localEventId ev = None" "\<forall>e \<in> set es. tl_eventId e \<noteq> tl_eventId msg"
  shows "find_index (matches (tl_eventId msg) ev) (es @ msg # es') = Some (length es)"
  using assms by (induction es) (auto simp: matches_remote)

lemma removeReaction_other: "reaction_name e = None \<Longrightarrow> removeReaction sid e rs = Inr rs"
  by (simp add: removeReaction_def split: option.split)

text \<open>A replacement of an event that is in the timeline.\<close>

lemma replaceEvent_found:
  assumes "timeline_of state sid = es @ msg # es'" "\<forall>e \<in> set es. tl_eventId e \<noteq> tl_eventId msg"
    "tl_localEventId ev = None" "tl_latestEventNum msg \<le> tl_latestEventNum ev"
    "removeReaction sid msg (tm_reactions state) = Inr rs"
  obtains state' where "replaceEvent state u sid (tl_eventId msg) ev = Inr state'"
    "timeline_of state' sid = es @ toReplacedMessageEvent msg ev # es'"
    "tm_reactions state' = addReactions sid (toReplacedMessageEvent msg ev) rs"
proof -
  have r: "replaceEvent state u sid (tl_eventId msg) ev \<noteq> Inl x" for x
    using assms by (simp add: replaceEvent_def Let_def find_index_matches)
  then obtain s' where s': "replaceEvent state u sid (tl_eventId msg) ev = Inr s'"
    by (cases "replaceEvent state u sid (tl_eventId msg) ev") auto
  have t: "timeline_of s' sid = es @ toReplacedMessageEvent msg ev # es'"
    using replaceEvent_timelines[OF s', of sid] assms by (simp add: find_index_matches)
  have "tm_reactions s' = addReactions sid (toReplacedMessageEvent msg ev) rs"
    using s' assms by (simp add: replaceEvent_def Let_def find_index_matches bindE_Inr_iff)
      (auto simp: addReactions_def)
  from that[OF s' t this] show thesis .
qed

lemma replaceEvent_missing:
  assumes "\<forall>e \<in> set (timeline_of state sid). tl_eventId e \<noteq> i" "tl_localEventId ev = None"
  shows "replaceEvent state u sid i ev = Inr (addPendingReplacement state sid i ev)"
proof -
  have "find_index (matches i ev) (timeline_of state sid) = None"
    using assms by (simp add: find_index_None_iff matches_remote)
  then show ?thesis by (simp add: replaceEvent_def Let_def)
qed

text \<open>The event that an edit or a redaction replaces, and what replaces it.\<close>

definition target_of :: "TimelineEvent \<Rightarrow> string option" where
  "target_of event =
     (case truthy_str (getRedactsId (tl_content event)) of
        Some r \<Rightarrow> Some r
      | None \<Rightarrow> truthy_str (getEditsId (tl_content event)))"

definition replacement_of :: "TimelineEvent \<Rightarrow> TimelineEvent" where
  "replacement_of event = (case makeRedactionEvent event of Inr red \<Rightarrow> red | Inl _ \<Rightarrow> event)"

abbreviation redacts :: "TimelineEvent \<Rightarrow> bool" where
  "redacts event \<equiv> truthy_str (getRedactsId (tl_content event)) \<noteq> None"

lemma getRedactsId_Some:
  "getRedactsId (tl_content ev) = Some r \<Longrightarrow> \<exists>b. tl_content ev = Some (RedactionActionEvent r b)"
  by (auto simp: getRedactsId_def split: option.splits TimelineEvent_OneOf.splits)

lemma getEditsId_Some:
  "getEditsId (tl_content ev) = Some i \<Longrightarrow> \<exists>m. tl_content ev = Some (ChannelMessageContent m)"
  by (auto simp: getEditsId_def split: option.splits TimelineEvent_OneOf.splits)

lemma not_redaction: "tl_content ev = Some (ChannelMessageContent m) \<Longrightarrow> makeRedactionEvent ev = Inl JsError"
  by (simp add: makeRedactionEvent_def)

lemma target_cases:
  assumes "target_of ev = Some i"
  obtains (redaction) red where "truthy_str (getRedactsId (tl_content ev)) = Some i"
      "makeRedactionEvent ev = Inr red" "replacement_of ev = red"
  | (edit) "truthy_str (getRedactsId (tl_content ev)) = None" "truthy_str (getEditsId (tl_content ev)) = Some i"
      "replacement_of ev = ev"
proof (cases "truthy_str (getRedactsId (tl_content ev))")
  case None
  then have "replacement_of ev = ev" if "truthy_str (getEditsId (tl_content ev)) = Some i"
    using that not_redaction[of ev] getEditsId_Some[of ev] by (auto simp: replacement_of_def truthy_str_Some_iff)
  with None assms edit show thesis by (simp add: target_of_def)
next
  case (Some r)
  then obtain b where "tl_content ev = Some (RedactionActionEvent r b)"
    using getRedactsId_Some[of ev r] by (auto simp: truthy_str_Some_iff)
  with Some assms redaction show thesis
    by (simp add: target_of_def makeRedactionEvent_def replacement_of_def)
qed

lemma replacement_of_frame [simp]:
  "tl_localEventId (replacement_of ev) = tl_localEventId ev"
  "tl_latestEventNum (replacement_of ev) = tl_latestEventNum ev"
  "tl_senderId (replacement_of ev) = tl_senderId ev"
  "tl_eventNum (replacement_of ev) = tl_eventNum ev"
  "tl_eventId (replacement_of ev) = tl_eventId ev"
  by (auto simp: replacement_of_def makeRedactionEvent_def split: option.splits TimelineEvent_OneOf.splits)

lemma append_replacing:
  assumes "target_of ev = Some i"
  shows "process_one u sid ev state =
    bindE (replaceEvent state u sid i (replacement_of ev))
      (\<lambda>s. Inr (updateLatest ev (if redacts ev then appendEvent s u sid ev else s)))"
  using assms
proof (cases rule: target_cases)
  case (redaction red)
  then show ?thesis
    by (simp add: processEvent_def Let_def truthy_str_def[of None] bindE_def split: sum.split)
next
  case edit
  then show ?thesis by (simp add: processEvent_def Let_def truthy_str_def[of None])
qed

lemma prepend_replacing:
  assumes "target_of ev = Some i"
  shows "prependOne u sid ev state =
    replaceEvent (if redacts ev then prependEvent state u sid ev else state) u sid i (replacement_of ev)"
  using assms by (cases rule: target_cases) (simp_all add: prependOne_def)

text \<open>Events for the examples: Alice sends a message and redacts it, Bob edits it.\<close>

definition demo_event :: "string \<Rightarrow> string \<Rightarrow> int \<Rightarrow> TimelineEvent_OneOf \<Rightarrow> TimelineEvent" where
  "demo_event eventId senderId num content =
     \<lparr>tl_eventId = eventId, tl_localEventId = None, tl_eventNum = num, tl_latestEventId = eventId,
      tl_latestEventNum = num, tl_status = RECEIVED, tl_createdAtEpochMs = num, tl_updatedAtEpochMs = None,
      tl_content = Some content, tl_fallbackContent = [], tl_isEncrypting = False, tl_isLocalPending = False,
      tl_isSendFailed = False, tl_confirmedEventNum = None, tl_confirmedInBlockNum = None,
      tl_threadParentId = None, tl_replyParentId = None,
      tl_reactionParentId = getReactionParentId (Some content),
      tl_isMentioned = False, tl_isRedacted = False, tl_senderId = senderId, tl_sessionId = None\<rparr>"

definition demo_text :: "string \<Rightarrow> string option \<Rightarrow> TimelineEvent_OneOf" where
  "demo_text body edits =
     ChannelMessageContent (ChannelMessageEvent None None None None body [] edits MtText (Some []))"

definition demo_msg :: TimelineEvent where
  "demo_msg = demo_event ''e1'' ''alice'' 1 (demo_text ''hello'' None)"

definition demo_redaction :: TimelineEvent where
  "demo_redaction = demo_event ''e2'' ''alice'' 2 (RedactionActionEvent ''e1'' False)"

definition demo_edit :: TimelineEvent where
  "demo_edit = demo_event ''e3'' ''bob'' 3 (demo_text ''changed'' (Some ''e1''))"

definition demo_model :: TimelinesViewModel where
  "demo_model = appendEvent emptyModel ''me'' ''s'' demo_msg"

lemmas demo_events = demo_msg_def demo_redaction_def demo_edit_def demo_event_def demo_text_def

text \<open>
  C8. Nobody but its sender changes an event of a timeline: after appending or prepending any events,
  none of which is sent by the sender of \<open>e\<close> or is a redaction by an admin, \<open>e\<close> is still in its
  timeline, with every field unchanged.\<close>

theorem others_events_kept:
  assumes "model_appendEvents events userId streamId False state = Inr state'
      \<or> model_prependEvents events userId streamId state = Inr state'"
    and "e \<in> set (timeline_of state streamId')"
    and "\<forall>event \<in> set events. \<not> mayActOn event e"
  shows "e \<in> set (timeline_of state' streamId')"
proof -
  have a: "e \<in> set (timeline_of state' streamId')"
    if "foldE (\<lambda>event state. processEvent state event userId streamId None) events state = Inr state'"
    using that assms(2) by (rule foldE_inv) (use assms(3) processEvent_keeps in blast)
  have b: "e \<in> set (timeline_of state' streamId')"
    if "foldE (prependOne userId streamId) (rev events) state = Inr state'"
    using that assms(2) by (rule foldE_inv) (use assms(3) prependOne_keeps in \<open>metis set_rev\<close>)
  from assms(1) a b show ?thesis by (auto simp: model_appendEvents_def model_prependEvents_def)
qed

theorem others_events_kept_witness:
  "\<exists>state'. model_appendEvents [demo_edit] ''me'' ''s'' False demo_model = Inr state'
     \<and> demo_msg \<in> set (timeline_of state' ''s'')"
proof -
  have "\<not> isl (model_appendEvents [demo_edit] ''me'' ''s'' False demo_model)" by code_simp
  then obtain state' where s: "model_appendEvents [demo_edit] ''me'' ''s'' False demo_model = Inr state'"
    by (auto simp: isl_def) (metis sum.exhaust)
  have "demo_msg \<in> set (timeline_of demo_model ''s'')" by (simp add: demo_model_def)
  moreover have "\<not> mayActOn demo_edit demo_msg" by (simp add: mayActOn_def demo_events)
  ultimately show ?thesis using s others_events_kept[OF disjI1[OF s]] by auto
qed

subsection \<open>Loading history and receiving live\<close>

text \<open>A stream of which nothing is shown yet.\<close>

definition fresh :: "TimelinesViewModel \<Rightarrow> string \<Rightarrow> bool" where
  "fresh state streamId \<longleftrightarrow>
     timeline_of state streamId = [] \<and> map_get_or (tm_pendingReplacedEvents state) streamId [] = []"

lemma fresh_pending: "fresh state sid \<Longrightarrow> get2 (tm_pendingReplacedEvents state) sid i = None"
  by (simp add: fresh_def get2_def)

lemma fresh_pending_applied: "fresh state sid \<Longrightarrow> pending_applied state sid e = e"
  by (simp add: pending_applied_def fresh_pending)

lemma live_replacement:
  assumes "fresh state sid" "\<forall>e \<in> set (es @ msg # es'). plain e"
    "\<forall>e \<in> set es. tl_eventId e \<noteq> tl_eventId msg" "reaction_name msg = None"
    "target_of ev = Some (tl_eventId msg)" "tl_localEventId ev = None"
    "tl_latestEventNum msg \<le> tl_latestEventNum ev"
  obtains live where "foldE (process_one u sid) (es @ msg # es' @ [ev]) state = Inr live"
    "timeline_of live sid =
       es @ toReplacedMessageEvent msg (replacement_of ev) # es' @ (if redacts ev then [ev] else [])"
proof -
  obtain s1 where s1: "foldE (process_one u sid) (es @ msg # es') state = Inr s1"
    "timeline_of s1 sid = es @ msg # es'"
    using plain_append_each[OF assms(2), of u sid state] assms(1) by (auto simp: fresh_def)
  obtain s2 where s2: "replaceEvent s1 u sid (tl_eventId msg) (replacement_of ev) = Inr s2"
    "timeline_of s2 sid = es @ toReplacedMessageEvent msg (replacement_of ev) # es'"
    by (rule replaceEvent_found[OF s1(2) assms(3), of "replacement_of ev" "tm_reactions s1" u])
      (use assms in \<open>auto simp: removeReaction_other\<close>)
  have "process_one u sid ev s1 =
      Inr (updateLatest ev (if redacts ev then appendEvent s2 u sid ev else s2))"
    by (simp only: append_replacing[OF assms(5)] s2 bindE_simps)
  then have "foldE (process_one u sid) ((es @ msg # es') @ [ev]) state =
      Inr (updateLatest ev (if redacts ev then appendEvent s2 u sid ev else s2))"
    by (simp only: foldE_append[of _ "es @ msg # es'"] s1(1) bindE_simps foldE.simps)
  with s2(2) show thesis by (intro that) auto
qed

lemma pending_applied_set:
  assumes "tm_pendingReplacedEvents s = set2 sid i r p" "get2 p sid (tl_eventId e) = None"
  shows "pending_applied s sid e = (if tl_eventId e = i then toReplacedMessageEvent e r else e)"
  using assms by (simp add: pending_applied_def)

lemma history_pending:
  assumes "fresh state sid" "target_of ev = Some i" "tl_localEventId ev = None" "tl_eventId ev \<noteq> i"
  obtains s where "prependOne u sid ev state = Inr s"
    "timeline_of s sid = (if redacts ev then [ev] else [])"
    "tm_pendingReplacedEvents s = set2 sid i (replacement_of ev) (tm_pendingReplacedEvents state)"
proof -
  let ?s = "if redacts ev then prependEvent state u sid ev else state"
  have t: "timeline_of ?s sid = (if redacts ev then [ev] else [])"
    using assms(1) by (auto simp: fresh_pending_applied fresh_def)
  have p: "tm_pendingReplacedEvents ?s = tm_pendingReplacedEvents state" by simp
  have r: "prependOne u sid ev state = Inr (addPendingReplacement ?s sid i (replacement_of ev))"
    unfolding prepend_replacing[OF assms(2)]
    by (rule replaceEvent_missing) (use t assms in \<open>auto split: if_splits\<close>)
  have "tm_pendingReplacedEvents (addPendingReplacement ?s sid i (replacement_of ev)) =
      set2 sid i (replacement_of ev) (tm_pendingReplacedEvents state)"
    using fresh_pending[OF assms(1)] p by (simp add: addPendingReplacement_def)
  with that[OF r] t show thesis by simp
qed

text \<open>
  C11. Loading history shows the same timeline as receiving the events live: for a list of events that
  neither edit nor redact, followed by an edit or a redaction of one of them, prepending the list
  (newest first, so the replacement waits for its target) and appending it give the same
  timeline, in which the target is replaced. The ids are distinct, the replacement was not sent
  from this device, its number is not below its target's, and the target is not a reaction.\<close>

theorem history_equals_live:
  assumes "fresh state streamId" "\<forall>e \<in> set (es @ msg # es'). plain e"
    "distinct (map tl_eventId (es @ msg # es' @ [event]))" "reaction_name msg = None"
    "target_of event = Some (tl_eventId msg)" "tl_localEventId event = None"
    "tl_latestEventNum msg \<le> tl_latestEventNum event"
  shows "\<exists>live history.
    model_appendEvents (es @ msg # es' @ [event]) userId streamId False state = Inr live
    \<and> model_prependEvents (es @ msg # es' @ [event]) userId streamId state = Inr history
    \<and> timeline_of history streamId = timeline_of live streamId
    \<and> timeline_of live streamId ! length es = toReplacedMessageEvent msg (replacement_of event)"
proof -
  let ?tl = "es @ toReplacedMessageEvent msg (replacement_of event) # es' @ (if redacts event then [event] else [])"
  have ids: "\<forall>e \<in> set es. tl_eventId e \<noteq> tl_eventId msg" "\<forall>e \<in> set es'. tl_eventId e \<noteq> tl_eventId msg"
    using assms(3) by (auto simp: image_iff)
  obtain live where live: "foldE (process_one userId streamId) (es @ msg # es' @ [event]) state = Inr live"
    "timeline_of live streamId = ?tl"
    by (rule live_replacement[OF assms(1,2) ids(1) assms(4-7), of userId])
  obtain s where s: "prependOne userId streamId event state = Inr s"
    "timeline_of s streamId = (if redacts event then [event] else [])"
    "tm_pendingReplacedEvents s =
      set2 streamId (tl_eventId msg) (replacement_of event) (tm_pendingReplacedEvents state)"
    by (rule history_pending[OF assms(1,5,6), of userId]) (use assms(3) in auto)
  obtain h where h: "foldE (prependOne userId streamId) (rev (es @ msg # es')) s = Inr h"
    "timeline_of h streamId = map (pending_applied s streamId) (es @ msg # es') @ timeline_of s streamId"
    using plain_prepend_each[OF assms(2), of userId streamId s] by auto
  note applied = pending_applied_set[OF s(3) fresh_pending[OF assms(1)]]
  have keep: "map (pending_applied s streamId) xs = xs" if "\<forall>e \<in> set xs. tl_eventId e \<noteq> tl_eventId msg" for xs
    using that by (intro map_idI) (simp add: applied)
  have "timeline_of h streamId = ?tl"
    by (simp add: h(2) s(2) keep ids applied)
  moreover have "foldE (prependOne userId streamId) (rev (es @ msg # es' @ [event])) state = Inr h"
    using s(1) h(1) by simp
  ultimately show ?thesis
    using live by (auto simp: model_appendEvents_def model_prependEvents_def nth_append)
qed

lemmas event_evaluation = getRedactsId_def getEditsId_def getReactionParentId_def truthy_str_def plain_def
  reaction_name_def target_of_def fresh_def emptyModel_def map_get_or_def
  get2_def


theorem history_equals_live_witness:
  "\<exists>live history. model_appendEvents [demo_msg, demo_redaction] ''me'' ''s'' False emptyModel = Inr live
     \<and> model_prependEvents [demo_msg, demo_redaction] ''me'' ''s'' emptyModel = Inr history
     \<and> timeline_of history ''s'' = timeline_of live ''s''
     \<and> timeline_of live ''s'' ! 0 = toReplacedMessageEvent demo_msg (replacement_of demo_redaction)"
  using history_equals_live[of emptyModel "''s''" "[]" demo_msg "[]" demo_redaction "''me''"]
  by (simp add: event_evaluation demo_events)

lemma toReplaced_redacted:
  assumes "canReplaceEvent prev next" "tl_content next = Some (RedactedEvent b)"
  shows "tl_content (toReplacedMessageEvent prev next) = Some (RedactedEvent b)"
    "tl_eventId (toReplacedMessageEvent prev next) = tl_eventId prev"
    "tl_senderId (toReplacedMessageEvent prev next) = tl_senderId next"
    "tl_latestEventNum (toReplacedMessageEvent prev next) = tl_eventNum next"
    "tl_reactionParentId (toReplacedMessageEvent prev next) = tl_reactionParentId prev"
  using assms by (simp_all add: toReplacedMessageEvent_def Let_def is_redacted_content_def getChannelMessageContent_def)

text \<open>A redaction by the sender of an event.\<close>

definition redactsOwn :: "TimelineEvent \<Rightarrow> TimelineEvent \<Rightarrow> bool" where
  "redactsOwn event msg \<longleftrightarrow>
     getRedactsId (tl_content event) = Some (tl_eventId msg) \<and> tl_senderId event = tl_senderId msg"

lemma redactsOwnD:
  assumes "redactsOwn event msg" "tl_eventId msg \<noteq> []"
  shows "target_of event = Some (tl_eventId msg)" "redacts event" "canReplaceEvent msg (replacement_of event)"
    "\<exists>b. tl_content (replacement_of event) = Some (RedactedEvent b)"
proof -
  from assms obtain b where c: "tl_content event = Some (RedactionActionEvent (tl_eventId msg) b)"
    and s: "tl_senderId event = tl_senderId msg"
    using getRedactsId_Some[of event] by (auto simp: redactsOwn_def)
  have r: "replacement_of event =
      event\<lparr>tl_content := Some (RedactedEvent b), tl_fallbackContent := ''~Redacted~'', tl_isRedacted := True\<rparr>"
    by (simp add: replacement_of_def makeRedactionEvent_def c)
  have "truthy_str (getRedactsId (tl_content event)) = Some (tl_eventId msg)"
    using assms by (simp add: redactsOwn_def truthy_str_Some_iff)
  then show "target_of event = Some (tl_eventId msg)" "redacts event" by (simp_all add: target_of_def)
  show "canReplaceEvent msg (replacement_of event)" by (simp add: r canReplaceEvent_def s)
  show "\<exists>b. tl_content (replacement_of event) = Some (RedactedEvent b)" by (simp add: r)
qed

lemma edit_target:
  assumes "getEditsId (tl_content edit) = Some i" "i \<noteq> []"
  shows "target_of edit = Some i" "\<not> redacts edit" "replacement_of edit = edit"
    "tl_content edit \<noteq> Some (RedactedEvent x)"
  using assms getEditsId_Some[OF assms(1)]
  by (auto simp: target_of_def getRedactsId_def truthy_str_def neq_Nil_conv replacement_of_def not_redaction)

text \<open>History: a newer pending replacement suppresses an older one.\<close>

lemma history_superseded:
  assumes "fresh state sid" "plain msg" "target_of edit = Some (tl_eventId msg)" "\<not> redacts edit"
    "replacement_of edit = edit" "tl_localEventId edit = None"
    "target_of red = Some (tl_eventId msg)" "redacts red" "tl_localEventId red = None"
    "tl_latestEventNum red < tl_latestEventNum edit"
    "tl_eventId red \<noteq> tl_eventId msg" "tl_eventId edit \<noteq> tl_eventId msg"
  obtains history where "model_prependEvents [msg, red, edit] u sid state = Inr history"
    "timeline_of history sid = [toReplacedMessageEvent msg edit, red]"
proof -
  obtain h1 where h1: "prependOne u sid edit state = Inr h1" "timeline_of h1 sid = []"
    "tm_pendingReplacedEvents h1 = set2 sid (tl_eventId msg) edit (tm_pendingReplacedEvents state)"
    by (rule history_pending[OF assms(1,3,6,12), of u]) (use assms(4,5) in auto)
  note applied = pending_applied_set[OF h1(3) fresh_pending[OF assms(1)]]
  let ?h = "prependEvent h1 u sid red"
  have t: "timeline_of ?h sid = [red]" using assms(11) h1(2) by (simp add: applied)
  have "prependOne u sid red h1 = Inr (addPendingReplacement ?h sid (tl_eventId msg) (replacement_of red))"
    unfolding prepend_replacing[OF assms(7)] if_P[OF assms(8)]
    by (rule replaceEvent_missing) (use t assms(9,11) in auto)
  moreover have "addPendingReplacement ?h sid (tl_eventId msg) (replacement_of red) = ?h"
    using assms(10) by (simp add: addPendingReplacement_def h1(3))
  ultimately have h2: "prependOne u sid red h1 = Inr ?h" by simp
  have "model_prependEvents [msg, red, edit] u sid state = Inr (prependEvent ?h u sid msg)"
    by (simp add: model_prependEvents_def h1(1) h2 plain_prependOne assms(2))
  moreover have "timeline_of (prependEvent ?h u sid msg) sid = [toReplacedMessageEvent msg edit, red]"
    using t applied[of msg] pending_applied_cong[of ?h h1] by simp
  ultimately show thesis by (rule that)
qed

text \<open>
  C38. An edit by somebody else hides a redaction in loaded history. The sender of a message redacts
  it, and later another user sends an edit of that message, which \<open>canReplaceEvent\<close> refuses. Live, the message
  is shown redacted. When the same three events are prepended, the edit is the pending replacement, it
  suppresses the older redaction, and is then refused itself: the message is shown as it was sent.\<close>

theorem edit_hides_redaction:
  assumes "fresh state streamId" "plain msg" "reaction_name msg = None"
    "redactsOwn red msg" "tl_localEventId red = None" "tl_eventNum red = tl_latestEventNum red"
    "getEditsId (tl_content edit) = Some (tl_eventId msg)" "tl_localEventId edit = None"
    "tl_senderId edit \<noteq> tl_senderId msg"
    "tl_latestEventNum msg \<le> tl_latestEventNum red" "tl_latestEventNum red < tl_latestEventNum edit"
    "distinct [tl_eventId msg, tl_eventId red, tl_eventId edit, []]"
  shows "\<exists>live history shown.
    model_appendEvents [msg, red, edit] userId streamId False state = Inr live
    \<and> timeline_of live streamId = [shown, red] \<and> is_redacted_content shown \<and> tl_eventId shown = tl_eventId msg
    \<and> model_prependEvents [msg, red, edit] userId streamId state = Inr history
    \<and> timeline_of history streamId = [msg, red]"
proof -
  have id: "tl_eventId msg \<noteq> []" using assms(12) by auto
  note own = redactsOwnD[OF assms(4) id]
  obtain b where b: "tl_content (replacement_of red) = Some (RedactedEvent b)" using own(4) by blast
  let ?r = "toReplacedMessageEvent msg (replacement_of red)"
  note r = toReplaced_redacted[OF own(3) b]
  have senders: "tl_senderId red = tl_senderId msg" using assms(4) by (simp add: redactsOwn_def)
  note edit = edit_target[OF assms(7) id]
  obtain s1 where s1: "foldE (process_one userId streamId) [msg, red] state = Inr s1"
    "timeline_of s1 streamId = [] @ ?r # [red]"
    by (rule live_replacement[OF assms(1) _ _ assms(3) own(1) assms(5,10), of "[]" "[]" userId])
      (use assms(2) own(2) in auto)
  obtain s2 where s2: "replaceEvent s1 userId streamId (tl_eventId ?r) edit = Inr s2"
    "timeline_of s2 streamId = [] @ toReplacedMessageEvent ?r edit # [red]"
    by (rule replaceEvent_found[OF s1(2), of edit "tm_reactions s1" userId])
      (use assms r in \<open>auto simp: removeReaction_other reaction_name_def\<close>)
  have same: "toReplacedMessageEvent ?r edit = ?r"
    by (rule not_replaced) (use assms(9) r senders edit(4) in \<open>simp add: canReplaceEvent_def\<close>)
  have "process_one userId streamId edit s1 = Inr (updateLatest edit s2)"
    using s2(1) edit r(2) by (simp add: append_replacing)
  then have live: "foldE (process_one userId streamId) ([msg, red] @ [edit]) state = Inr (updateLatest edit s2)"
    unfolding foldE_append s1(1) by simp
  obtain history where "model_prependEvents [msg, red, edit] userId streamId state = Inr history"
    "timeline_of history streamId = [toReplacedMessageEvent msg edit, red]"
    by (rule history_superseded[OF assms(1,2) edit(1-3) assms(8) own(1,2) assms(5,11), of userId])
      (use assms(12) in auto)
  moreover have "toReplacedMessageEvent msg edit = msg"
    by (rule not_replaced) (use assms(9) edit(4) in \<open>simp add: canReplaceEvent_def\<close>)
  ultimately show ?thesis
    using live s2(2) same r by (auto simp: is_redacted_content_def model_appendEvents_def)
qed

theorem edit_hides_redaction_witness:
  "\<exists>live history shown.
     model_appendEvents [demo_msg, demo_redaction, demo_edit] ''me'' ''s'' False emptyModel = Inr live
     \<and> timeline_of live ''s'' = [shown, demo_redaction] \<and> is_redacted_content shown
     \<and> tl_eventId shown = tl_eventId demo_msg
     \<and> model_prependEvents [demo_msg, demo_redaction, demo_edit] ''me'' ''s'' emptyModel = Inr history
     \<and> timeline_of history ''s'' = [demo_msg, demo_redaction]"
  by (rule edit_hides_redaction) (simp_all add: event_evaluation demo_events redactsOwn_def)

subsection \<open>Reactions that are redacted\<close>

definition isReaction :: "string \<Rightarrow> string \<Rightarrow> TimelineEvent \<Rightarrow> bool" where
  "isReaction parentId reaction e \<longleftrightarrow>
     tl_content e = Some (ReactionEvent parentId reaction) \<and> tl_reactionParentId e = Some parentId \<and> parentId \<noteq> []"

lemma reaction_plain: "isReaction p n e \<Longrightarrow> plain e"
  by (simp add: isReaction_def plain_def getRedactsId_def getEditsId_def truthy_str_def)

lemma get2_addReactions:
  assumes "tl_reactionParentId e = Some p" "p \<noteq> []"
  shows "get2 (addReactions sid e rs) sid p = Some (addReaction e (get2 rs sid p))"
proof -
  have "truthy_str (tl_reactionParentId e) = Some p" using assms by (simp add: truthy_str_Some_iff)
  then show ?thesis by (simp add: addReactions_def)
qed

lemma addReactions_other: "tl_reactionParentId e = None \<Longrightarrow> addReactions sid e rs = rs"
  by (simp add: addReactions_def truthy_str_def)

lemma removeReaction_eq:
  assumes "isReaction p n e" "get2 rs sid p = Some entry"
  shows "removeReaction sid e rs =
    (case map_get entry n of
       None \<Rightarrow> Inl JsError
     | Some users \<Rightarrow>
         Inr (set2 sid p (if map_delete (tl_senderId e) users = [] then map_delete n entry
                          else map_set n (map_delete (tl_senderId e) users) entry) rs))"
proof -
  have "truthy_str (tl_reactionParentId e) = Some p" "reaction_name e = Some n"
    using assms by (simp_all add: truthy_str_Some_iff isReaction_def reaction_name_def)
  with assms(2) show ?thesis by (simp add: removeReaction_def Let_def split: option.split)
qed

lemma replaceEvent_throws:
  assumes "timeline_of state sid = es @ msg # es'" "\<forall>e \<in> set es. tl_eventId e \<noteq> tl_eventId msg"
    "tl_localEventId ev = None" "tl_latestEventNum msg \<le> tl_latestEventNum ev"
    "removeReaction sid msg (tm_reactions state) = Inl x"
  shows "replaceEvent state u sid (tl_eventId msg) ev = Inl x"
  using assms by (simp add: replaceEvent_def Let_def find_index_matches)

lemma two_reactions:
  assumes "fresh state sid" "get2 (tm_reactions state) sid p = None"
    "isReaction p n r1" "isReaction p n r2" "tl_senderId r2 = tl_senderId r1"
  obtains s where "foldE (process_one u sid) [r1, r2] state = Inr s"
    "timeline_of s sid = [r1, r2]"
    "get2 (tm_reactions s) sid p = Some [(n, [(tl_senderId r1, tl_eventId r2)])]"
proof -
  let ?s = "updateLatest r2 (appendEvent (updateLatest r1 (appendEvent state u sid r1)) u sid r2)"
  have "foldE (process_one u sid) [r1, r2] state = Inr ?s"
    using assms by (simp add: plain_process_one reaction_plain)
  moreover have "timeline_of ?s sid = [r1, r2]" using assms(1) by (simp add: fresh_def)
  moreover have "get2 (tm_reactions ?s) sid p = Some [(n, [(tl_senderId r1, tl_eventId r2)])]"
    using assms(2-5) by (simp add: get2_addReactions isReaction_def addReaction_def reaction_name_def set2_def
        map_get_or_def)
  ultimately show thesis by (rule that)
qed

text \<open>Redacting a reaction that was sent twice throws. A user sends the same reaction to a message twice
  and redacts both events: the first redaction deletes the entry of the reaction, and the second
  makes \<open>removeReaction\<close> read the keys of a missing object, so processing the events throws.\<close>

theorem redacting_repeated_reaction_throws:
  assumes "fresh state streamId" "get2 (tm_reactions state) streamId parentId = None"
    "isReaction parentId reaction r1" "isReaction parentId reaction r2" "tl_senderId r2 = tl_senderId r1"
    "redactsOwn d1 r1" "redactsOwn d2 r2"
    "tl_localEventId d1 = None" "tl_localEventId d2 = None" "tl_reactionParentId d1 = None"
    "tl_latestEventNum r1 \<le> tl_latestEventNum d1" "tl_latestEventNum r2 \<le> tl_latestEventNum d2"
    "distinct [tl_eventId r1, tl_eventId r2, []]"
  shows "model_appendEvents [r1, r2, d1, d2] userId streamId False state = Inl JsError"
proof -
  have ids: "tl_eventId r1 \<noteq> []" "tl_eventId r2 \<noteq> []" "tl_eventId r1 \<noteq> tl_eventId r2"
    using assms(13) by auto
  note own1 = redactsOwnD[OF assms(6) ids(1)] and own2 = redactsOwnD[OF assms(7) ids(2)]
  obtain b where b: "tl_content (replacement_of d1) = Some (RedactedEvent b)" using own1(4) by blast
  let ?r = "toReplacedMessageEvent r1 (replacement_of d1)"
  note r = toReplaced_redacted[OF own1(3) b]
  have parent: "tl_reactionParentId ?r = Some parentId" "parentId \<noteq> []" "reaction_name ?r = None"
    using r assms(3) by (simp_all add: isReaction_def reaction_name_def)
  obtain s1 where s1: "foldE (process_one userId streamId) [r1, r2] state = Inr s1"
    "timeline_of s1 streamId = [] @ r1 # [r2]"
    "get2 (tm_reactions s1) streamId parentId = Some [(reaction, [(tl_senderId r1, tl_eventId r2)])]"
    using two_reactions[OF assms(1-5), of userId] by auto
  have rm: "removeReaction streamId r1 (tm_reactions s1) = Inr (set2 streamId parentId [] (tm_reactions s1))"
    by (simp add: removeReaction_eq[OF assms(3) s1(3)])
  obtain s2 where s2: "replaceEvent s1 userId streamId (tl_eventId r1) (replacement_of d1) = Inr s2"
    "timeline_of s2 streamId = [] @ ?r # [r2]"
    "tm_reactions s2 = addReactions streamId ?r (set2 streamId parentId [] (tm_reactions s1))"
    by (rule replaceEvent_found[OF s1(2) _ _ _ rm, of "replacement_of d1" userId]) (use assms(8,11) in auto)
  let ?s3 = "updateLatest d1 (appendEvent s2 userId streamId d1)"
  have d1: "process_one userId streamId d1 s1 = Inr ?s3"
    using s2(1) own1(1,2) by (simp add: append_replacing)
  have "get2 (tm_reactions ?s3) streamId parentId = Some []"
    by (simp add: s2(3) addReactions_other[OF assms(10)] get2_addReactions[OF parent(1,2)] addReaction_def parent(3))
  from removeReaction_eq[OF assms(4) this]
  have "removeReaction streamId r2 (tm_reactions ?s3) = Inl JsError" by simp
  with s2(2) r(2) ids have "replaceEvent ?s3 userId streamId (tl_eventId r2) (replacement_of d2) = Inl JsError"
    by (intro replaceEvent_throws[of _ _ "[?r]" r2 "[d1]"]) (use assms(9,12) in auto)
  then have d2: "process_one userId streamId d2 ?s3 = Inl JsError"
    by (simp add: append_replacing[OF own2(1)])
  have "foldE (process_one userId streamId) ([r1, r2] @ [d1, d2]) state = Inl JsError"
    unfolding foldE_append s1(1) by (simp add: d1 d2)
  then show ?thesis by (simp add: model_appendEvents_def)
qed

theorem redacting_repeated_reaction_throws_witness:
  "model_appendEvents
     [demo_event ''r1'' ''alice'' 1 (ReactionEvent ''e1'' ''ok''),
      demo_event ''r2'' ''alice'' 2 (ReactionEvent ''e1'' ''ok''),
      demo_event ''d1'' ''alice'' 3 (RedactionActionEvent ''r1'' False),
      demo_event ''d2'' ''alice'' 4 (RedactionActionEvent ''r2'' False)]
     ''me'' ''s'' False emptyModel = Inl JsError"
  by (rule redacting_repeated_reaction_throws[of _ _ "''e1''" "''ok''"])
    (simp_all add: event_evaluation demo_event_def redactsOwn_def isReaction_def)

subsection \<open>Confirmations\<close>

definition confirm_with :: "TimelineEventConfirmation \<Rightarrow> TimelineEvent \<Rightarrow> TimelineEvent" where
  "confirm_with c e = e\<lparr>tl_confirmedEventNum := cf_confirmedEventNum c, tl_confirmedInBlockNum := cf_confirmedInBlockNum c\<rparr>"

definition confirm_first :: "TimelineEventConfirmation \<Rightarrow> TimelineEvent list \<Rightarrow> TimelineEvent list" where
  "confirm_first c es =
     (case find_index (\<lambda>e. tl_eventId e = cf_eventId c) es of None \<Rightarrow> es | Some k \<Rightarrow> es[k := confirm_with c (es ! k)])"

lemma confirm_first_simps [simp]:
  "confirm_first c [] = []"
  "confirm_first c (e # es) = (if tl_eventId e = cf_eventId c then confirm_with c e # es else e # confirm_first c es)"
  by (auto simp: confirm_first_def split: option.split)

lemma confirmEvent_timelines:
  "timeline_of (confirmEvent state sid c) sid' =
     (if sid' = sid then confirm_first c (timeline_of state sid) else timeline_of state sid')"
proof (cases "find_index (\<lambda>e. tl_eventId e = cf_eventId c) (timeline_of state sid)")
  case None
  then show ?thesis by (simp add: confirmEvent_def confirm_first_def)
next
  case (Some k)
  then have "k < length (timeline_of state sid)" using find_index_SomeD by metis
  with Some show ?thesis
    by (simp add: confirmEvent_def confirm_first_def Let_def replaceTimelineEvent_def replace_at_eq_update
        confirm_with_def)
qed

lemma find_confirm_first:
  "find (\<lambda>e. tl_eventId e = i) (confirm_first c es) =
     (if i = cf_eventId c then map_option (confirm_with c) (find (\<lambda>e. tl_eventId e = i) es)
      else find (\<lambda>e. tl_eventId e = i) es)"
proof -
  have "tl_eventId (confirm_with c e) = tl_eventId e" for e by (simp add: confirm_with_def)
  then show ?thesis by (induction es) auto
qed

lemma confirmEvents_Cons:
  "confirmEvents (c # cs) sid state = confirmEvents cs sid (confirmEvent state sid c)"
  by (simp add: confirmEvents_def)

lemma find_confirmEvents_other:
  assumes "i \<notin> cf_eventId ` set cs"
  shows "find (\<lambda>e. tl_eventId e = i) (timeline_of (confirmEvents cs sid state) sid) =
    find (\<lambda>e. tl_eventId e = i) (timeline_of state sid)"
  using assms
proof (induction cs arbitrary: state)
  case Nil
  then show ?case by (simp add: confirmEvents_def)
next
  case (Cons c cs)
  then show ?case by (simp add: confirmEvents_Cons confirmEvent_timelines find_confirm_first)
qed

lemma find_confirmEvents:
  assumes "distinct (map cf_eventId cs)" "c \<in> set cs"
  shows "find (\<lambda>e. tl_eventId e = cf_eventId c) (timeline_of (confirmEvents cs sid state) sid) =
    map_option (confirm_with c) (find (\<lambda>e. tl_eventId e = cf_eventId c) (timeline_of state sid))"
  using assms
proof (induction cs arbitrary: state)
  case Nil
  then show ?case by simp
next
  case (Cons d cs)
  show ?case
  proof (cases "c = d")
    case True
    with Cons.prems show ?thesis
      by (simp add: confirmEvents_Cons confirmEvent_timelines find_confirm_first find_confirmEvents_other)
  next
    case False
    with Cons.prems have c: "c \<in> set cs" "distinct (map cf_eventId cs)" "cf_eventId c \<noteq> cf_eventId d"
      by (auto simp: image_iff)
    from Cons.IH[OF c(2,1)] c(3) show ?thesis
      by (simp add: confirmEvents_Cons confirmEvent_timelines find_confirm_first)
  qed
qed

lemma confirmEvents_strip:
  assumes "\<And>c e. f (confirm_with c e) = f e"
  shows "map f (timeline_of (confirmEvents cs sid state) sid') = map f (timeline_of state sid')"
proof -
  have first: "map f (confirm_first c es) = map f es" for c es by (induction es) (auto simp: assms)
  show ?thesis
    by (induction cs arbitrary: state)
      (auto simp: confirmEvents_Cons confirmEvent_timelines first confirmEvents_def[of "[]"])
qed

text \<open>When a stream view reports confirmed events, the timelines view sets the block number and event
  number of exactly these: the first event with the id of a confirmed event carries its numbers
  and no timeline changes in anything but these two numbers.\<close>

theorem confirmed_numbers_shown:
  assumes "distinct (map se_hashStr confirmed)"
  shows "\<exists>view'. tl_streamUpdated E view streamId (no_change\<lparr>ch_confirmed := Some confirmed\<rparr>) = Inr view'
    \<and> (\<forall>event \<in> set confirmed.
         find (\<lambda>e. tl_eventId e = se_hashStr event) (timeline_of (tv_value view') streamId) =
         map_option (\<lambda>e. e\<lparr>tl_confirmedEventNum := se_confirmedEventNum event,
                           tl_confirmedInBlockNum := se_miniblockNum event\<rparr>)
           (find (\<lambda>e. tl_eventId e = se_hashStr event) (timeline_of (tv_value view) streamId)))
    \<and> (\<forall>streamId'.
         map (\<lambda>e. e\<lparr>tl_confirmedEventNum := None, tl_confirmedInBlockNum := None\<rparr>)
           (timeline_of (tv_value view') streamId') =
         map (\<lambda>e. e\<lparr>tl_confirmedEventNum := None, tl_confirmedInBlockNum := None\<rparr>)
           (timeline_of (tv_value view) streamId'))"
proof -
  let ?c = "\<lambda>event. \<lparr>cf_eventId = se_hashStr event, cf_confirmedEventNum = se_confirmedEventNum event,
    cf_confirmedInBlockNum = se_miniblockNum event\<rparr>"
  let ?v = "view\<lparr>tv_streamIds := set_add streamId (tv_streamIds view),
    tv_value := confirmEvents (map ?c confirmed) streamId (tv_value view)\<rparr>"
  have u: "tl_streamUpdated E view streamId (no_change\<lparr>ch_confirmed := Some confirmed\<rparr>) = Inr ?v"
    by (simp add: tl_streamUpdated_def no_change_def change_part_def setState_def Let_def)
  have d: "distinct (map cf_eventId (map ?c confirmed))" using assms by (simp add: comp_def)
  show ?thesis
  proof (intro exI[of _ ?v] conjI ballI allI u)
    fix event assume "event \<in> set confirmed"
    then have "?c event \<in> set (map ?c confirmed)" by auto
    from find_confirmEvents[OF d this, of streamId "tv_value view"]
    show "find (\<lambda>e. tl_eventId e = se_hashStr event) (timeline_of (tv_value ?v) streamId) =
         map_option (\<lambda>e. e\<lparr>tl_confirmedEventNum := se_confirmedEventNum event,
                           tl_confirmedInBlockNum := se_miniblockNum event\<rparr>)
           (find (\<lambda>e. tl_eventId e = se_hashStr event) (timeline_of (tv_value view) streamId))"
      by (simp add: confirm_with_def[abs_def])
  qed (simp add: confirmEvents_strip confirm_with_def)
qed

definition demo_confirmed :: StreamTimelineEvent where
  "demo_confirmed = \<lparr>se_hashStr = ''e1'', se_creatorUserId = ''alice'', se_eventNum = 1, se_createdAtEpochMs = 1,
     se_localEvent = None, se_remoteEvent = None, se_decryptedContent = None, se_decryptedContentError = None,
     se_miniblockNum = Some 5, se_confirmedEventNum = Some 9\<rparr>"

theorem confirmed_numbers_shown_witness:
  "\<exists>view'. tl_streamUpdated demo_externs (newTimelinesView ''me'' None\<lparr>tv_value := demo_model\<rparr>) ''s''
       (no_change\<lparr>ch_confirmed := Some [demo_confirmed]\<rparr>) = Inr view'
     \<and> find (\<lambda>e. tl_eventId e = ''e1'') (timeline_of (tv_value view') ''s'') =
         Some (demo_msg\<lparr>tl_confirmedEventNum := Some 9, tl_confirmedInBlockNum := Some 5\<rparr>)"
proof -
  let ?v = "newTimelinesView ''me'' None\<lparr>tv_value := demo_model\<rparr>"
  have t: "timeline_of demo_model ''s'' = [demo_msg]"
    by (simp add: demo_model_def) (simp add: emptyModel_def map_get_or_def)
  have d: "distinct (map se_hashStr [demo_confirmed])" by simp
  have "find (\<lambda>e. tl_eventId e = se_hashStr demo_confirmed) [demo_msg] = Some demo_msg"
    by (simp add: demo_confirmed_def demo_msg_def demo_event_def)
  with confirmed_numbers_shown[OF d, of demo_externs ?v "''s''"] show ?thesis
    by (auto simp: t demo_confirmed_def)
qed

end
