(* ===== verification/UnreadMarkers.thy ===== *)
theory UnreadMarkers
  imports Timelines
begin

text \<open>
  The unread markers of channels and threads (\<open>views/streams/unreadMarkersTransform.ts\<close>): a transform that folds the markers stored in
  the user's settings and the changes of the timelines into one record of markers. The comparisons of object identity with the
  previous input are an argument, the record \<open>identity\<close>. The theory shows that the binary search and the scan behind a marker
  find the first unread event of a sorted timeline, that the windows of markers stay well formed and never move back, and
  what becomes of the mentions.
\<close>

section \<open>Model\<close>

type_synonym markers = "(string, FullyReadMarker) jsmap"

record Input =
  in_userId :: string
  in_myRemoteFullyReadMarkers :: "(string, markers) jsmap"
  in_timelinesView :: TimelinesViewModel

text \<open>Which objects of the input are the same as in the previous one: the markers of a stream, the view, its map of timelines, and
  the timeline of a channel.\<close>

record identity =
  same_markers :: "string \<Rightarrow> bool"
  same_view :: bool
  same_timelines :: bool
  same_events :: "string \<Rightarrow> bool"

definition isDiffableStreamTimeline :: "'a externs_scheme \<Rightarrow> string \<Rightarrow> bool" where
  "isDiffableStreamTimeline E streamId \<longleftrightarrow>
     isChannelStreamId E (Str streamId) \<or> isDMChannelStreamId E (Str streamId) \<or> isGDMChannelStreamId E (Str streamId)"

definition maxBigint :: "int \<Rightarrow> int \<Rightarrow> int" where
  "maxBigint x y = (if x > y then x else y)"

definition isCountedAsUnread :: "TimelineEvent \<Rightarrow> string \<Rightarrow> bool" where
  "isCountedAsUnread event myUserId =
     (case tl_content event of
        Some (ChannelMessageContent _) \<Rightarrow> tl_senderId event \<noteq> myUserId
      | Some (ChannelMessageEncryptedEvent _) \<Rightarrow> tl_senderId event \<noteq> myUserId
      | _ \<Rightarrow> False)"

text \<open>The loop of the binary search; \<open>high\<close> starts at -1 for an empty timeline.\<close>

function search_loop :: "TimelineEvent list \<Rightarrow> int \<Rightarrow> int \<Rightarrow> int \<Rightarrow> nat" where
  "search_loop events eventNum low high =
     (if low \<le> high
      then let mid = (low + high) div 2
           in if tl_eventNum (events ! nat mid) < eventNum then search_loop events eventNum (mid + 1) high
              else if mid = 0 \<or> tl_eventNum (events ! nat (mid - 1)) < eventNum then nat mid
              else search_loop events eventNum low (mid - 1)
      else length events)"
  by pat_completeness auto

termination
  by (relation "measure (\<lambda>(_, _, low, high). nat (high - low + 1))") auto

declare search_loop.simps [simp del]

definition indexOfFirstEventNumEqualToOrGreaterThan :: "TimelineEvent list \<Rightarrow> int \<Rightarrow> nat" where
  "indexOfFirstEventNumEqualToOrGreaterThan events eventNum = search_loop events eventNum 0 (int (length events) - 1)"

definition marker_of :: "string \<Rightarrow> TimelineEvent \<Rightarrow> string" where
  "marker_of channelId event = (case tl_threadParentId event of None \<Rightarrow> channelId | Some p \<Rightarrow> p)"

fun scan_unread :: "string \<Rightarrow> string \<Rightarrow> string \<Rightarrow> int \<Rightarrow> TimelineEvent list \<Rightarrow> TimelineEvent option" where
  "scan_unread userId channelId markerId endWindow [] = None"
| "scan_unread userId channelId markerId endWindow (event # events) =
     (if tl_eventNum event > endWindow then None
      else if marker_of channelId event = markerId \<and> isCountedAsUnread event userId then Some event
      else scan_unread userId channelId markerId endWindow events)"

definition firstUnreadEvent ::
  "TimelineEvent list \<Rightarrow> string \<Rightarrow> string \<Rightarrow> string \<Rightarrow> int \<Rightarrow> int \<Rightarrow> exn + TimelineEvent option" where
  "firstUnreadEvent events userId channelId markerId beginWindow endWindow =
     (if \<not> beginWindow \<le> endWindow then Inl (throwWithCode None)
      else Inr (scan_unread userId channelId markerId endWindow
        (drop (indexOfFirstEventNumEqualToOrGreaterThan events beginWindow) events)))"

text \<open>When the server has an update, the local state follows it.\<close>

definition remote_marker :: "string \<times> FullyReadMarker \<Rightarrow> markers \<times> nat \<Rightarrow> markers \<times> nat" where
  "remote_marker km s =
     (case km of (key, marker) \<Rightarrow> case s of (updated, markersUpdated) \<Rightarrow>
      if (case map_get updated key of None \<Rightarrow> True | Some m \<Rightarrow> fr_beginUnreadWindow m < fr_beginUnreadWindow marker)
      then (map_set key marker updated, Suc markersUpdated) else (updated, markersUpdated))"

definition updateFullyReadMarkersFromRemote :: "(string, markers) jsmap \<Rightarrow> markers \<Rightarrow> markers" where
  "updateFullyReadMarkersFromRemote fullyReadMarkersMap state =
     (case fold (\<lambda>(_, fullyReadMarkers). fold remote_marker fullyReadMarkers) fullyReadMarkersMap (state, 0) of
        (updated, markersUpdated) \<Rightarrow> if markersUpdated > 0 then updated else state)"

subsection \<open>Replaced events\<close>

definition new_thread_marker :: "string \<Rightarrow> string \<Rightarrow> FullyReadMarker \<Rightarrow> TimelineEvent \<Rightarrow> FullyReadMarker" where
  "new_thread_marker channelId userId channelMarker event =
     \<lparr>fr_channelId = channelId, fr_threadParentId = tl_threadParentId event, fr_eventId = tl_eventId event,
      fr_eventNum = tl_eventNum event, fr_beginUnreadWindow = fr_beginUnreadWindow channelMarker,
      fr_endUnreadWindow = fr_endUnreadWindow channelMarker, fr_isUnread = isCountedAsUnread event userId,
      fr_markedReadAtTs = 0, fr_mentions = (if tl_isMentioned event then 1 else 0)\<rparr>"

definition replaced_mentions :: "TimelineEvent \<Rightarrow> TimelineEvent \<Rightarrow> FullyReadMarker \<Rightarrow> int" where
  "replaced_mentions oldEvent newEvent marker =
     (if tl_isMentioned oldEvent = tl_isMentioned newEvent then fr_mentions marker
      else if tl_isMentioned oldEvent then fr_mentions marker - 1 else fr_mentions marker + 1)"

text \<open>The branch for an event in the unread window. Reading the last event of an empty timeline is a \<open>TypeError\<close>.\<close>

definition replaced_marker ::
  "string \<Rightarrow> string \<Rightarrow> TimelineEvent list \<Rightarrow> string \<Rightarrow> FullyReadMarker \<Rightarrow> TimelineEvent \<Rightarrow> TimelineEvent \<Rightarrow> exn + FullyReadMarker" where
  "replaced_marker channelId userId events markerId marker oldEvent newEvent =
     (let mentions = replaced_mentions oldEvent newEvent marker;
          endUnreadWindow = maxBigint (tl_eventNum newEvent) (fr_endUnreadWindow marker)
      in if tl_isRedacted newEvent \<and> \<not> tl_isRedacted oldEvent \<and> tl_eventNum newEvent = fr_eventNum marker
         then bindE (firstUnreadEvent events userId channelId markerId (fr_beginUnreadWindow marker) endUnreadWindow) (\<lambda>firstUnread.
              bindE (case firstUnread of
                       Some e \<Rightarrow> Inr e
                     | None \<Rightarrow> if events = [] then Inl JsError else Inr (last events)) (\<lambda>e.
              Inr (marker\<lparr>fr_eventId := tl_eventId e, fr_eventNum := tl_eventNum e, fr_endUnreadWindow := endUnreadWindow,
                          fr_isUnread := (firstUnread \<noteq> None), fr_mentions := mentions\<rparr>)))
         else
           let isNewFirstUnread = (isCountedAsUnread newEvent userId \<and> (\<not> fr_isUnread marker \<or> tl_eventNum newEvent \<le> fr_eventNum marker))
           in Inr (marker\<lparr>fr_eventId := (if isNewFirstUnread then tl_eventId newEvent else fr_eventId marker),
                          fr_eventNum := (if isNewFirstUnread then tl_eventNum newEvent else fr_eventNum marker),
                          fr_endUnreadWindow := endUnreadWindow,
                          fr_isUnread := (fr_isUnread marker \<or> isNewFirstUnread), fr_mentions := mentions\<rparr>))"

definition replaced_step ::
  "string \<Rightarrow> string \<Rightarrow> TimelineEvent list \<Rightarrow> FullyReadMarker \<Rightarrow> TimelineEvent \<times> TimelineEvent \<Rightarrow> markers \<times> bool \<Rightarrow> exn + markers \<times> bool" where
  "replaced_step channelId userId events channelMarker event s =
     (case event of (oldEvent, newEvent) \<Rightarrow> case s of (updated, didUpdate) \<Rightarrow>
      if tl_eventNum newEvent > fr_endUnreadWindow channelMarker then Inr (updated, didUpdate)
      else let markerId = marker_of channelId newEvent
           in case map_get updated markerId of
                None \<Rightarrow> Inr (map_set markerId (new_thread_marker channelId userId channelMarker newEvent) updated, True)
              | Some marker \<Rightarrow>
                  if tl_eventNum newEvent < fr_beginUnreadWindow marker then Inr (updated, didUpdate)
                  else bindE (replaced_marker channelId userId events markerId marker oldEvent newEvent) (\<lambda>m.
                       Inr (map_set markerId m updated, True)))"

definition diffReplaced ::
  "string \<Rightarrow> string \<Rightarrow> TimelineEvent list \<Rightarrow> (TimelineEvent \<times> TimelineEvent) list \<Rightarrow> (TimelineEvent \<times> TimelineEvent) list \<Rightarrow>
   markers \<Rightarrow> exn + markers \<times> bool" where
  "diffReplaced channelId userId events replacedEvents prevReplacedEvents updated =
     (if length replacedEvents = length prevReplacedEvents then Inr (updated, False)
      else case map_get updated channelId of
             None \<Rightarrow> Inr (updated, False)
           | Some channelMarker \<Rightarrow>
               foldE (replaced_step channelId userId events channelMarker) (drop (length prevReplacedEvents) replacedEvents)
                 (updated, False))"

subsection \<open>Added events\<close>

text \<open>The loop from the newest event down, which collects the new events of each marker in order.\<close>

definition segments :: "string \<Rightarrow> int \<Rightarrow> TimelineEvent list \<Rightarrow> (string, TimelineEvent list) jsmap" where
  "segments channelId prevEndUnreadWindow events =
     fold (\<lambda>event eventsMap.
        if tl_eventNum event > prevEndUnreadWindow
        then map_set (marker_of channelId event) (event # map_get_or eventsMap (marker_of channelId event) []) eventsMap
        else eventsMap) (rev events) []"

text \<open>The operator \<open>??\<close> binds weaker than \<open>+\<close>: the mentions of the new events count only when there is no marker yet.\<close>

definition added_mentions :: "FullyReadMarker option \<Rightarrow> TimelineEvent list \<Rightarrow> int" where
  "added_mentions prevMarker eventSegment =
     (case prevMarker of Some m \<Rightarrow> fr_mentions m | None \<Rightarrow> 0 + int (length (filter tl_isMentioned eventSegment)))"

text \<open>The new marker, or none when its window would be empty.\<close>

definition added_marker ::
  "string \<Rightarrow> string \<Rightarrow> TimelineEvent list \<Rightarrow> string \<Rightarrow> FullyReadMarker option \<Rightarrow> TimelineEvent list \<Rightarrow> exn + FullyReadMarker option" where
  "added_marker channelId userId events markerId prevMarker eventSegment =
     (let beginUnreadWindow = (case prevMarker of Some m \<Rightarrow> fr_beginUnreadWindow m | None \<Rightarrow> tl_eventNum (hd eventSegment));
          endUnreadWindow = tl_eventNum (last eventSegment)
      in if beginUnreadWindow > endUnreadWindow then Inr None
         else bindE (firstUnreadEvent events userId channelId markerId beginUnreadWindow endUnreadWindow) (\<lambda>firstUnread.
              let e = (case firstUnread of Some e \<Rightarrow> e | None \<Rightarrow> last eventSegment)
              in Inr (Some \<lparr>fr_channelId = channelId, fr_threadParentId = (if markerId \<noteq> channelId then Some markerId else None),
                    fr_eventId = tl_eventId e, fr_eventNum = tl_eventNum e, fr_beginUnreadWindow = beginUnreadWindow,
                    fr_endUnreadWindow = endUnreadWindow, fr_isUnread = (firstUnread \<noteq> None),
                    fr_markedReadAtTs = (case prevMarker of Some m \<Rightarrow> fr_markedReadAtTs m | None \<Rightarrow> 0),
                    fr_mentions = added_mentions prevMarker eventSegment\<rparr>)))"

definition added_step ::
  "string \<Rightarrow> string \<Rightarrow> TimelineEvent list \<Rightarrow> string \<times> TimelineEvent list \<Rightarrow> markers \<times> bool \<Rightarrow> exn + markers \<times> bool" where
  "added_step channelId userId events entry s =
     (case entry of (markerId, eventSegment) \<Rightarrow> case s of (updated, _) \<Rightarrow>
      bindE (added_marker channelId userId events markerId (map_get updated markerId) eventSegment) (\<lambda>marker.
      Inr (case marker of None \<Rightarrow> updated | Some m \<Rightarrow> map_set markerId m updated, True)))"

definition diffAdded :: "string \<Rightarrow> string \<Rightarrow> TimelineEvent list \<Rightarrow> markers \<Rightarrow> exn + markers \<times> bool" where
  "diffAdded channelId userId events updated =
     (let prevEndUnreadWindow = (case map_get updated channelId of Some m \<Rightarrow> fr_endUnreadWindow m | None \<Rightarrow> -1)
      in foldE (added_step channelId userId events) (segments channelId prevEndUnreadWindow events) (updated, False))"

subsection \<open>The transform\<close>

definition diff_channel ::
  "identity \<Rightarrow> string \<Rightarrow> TimelinesViewModel \<Rightarrow> TimelinesViewModel \<Rightarrow> string \<Rightarrow> markers \<Rightarrow> exn + markers" where
  "diff_channel same userId timelineState prev channelId state =
     (if same_events same channelId then Inr state
      else
        let events = map_get_or (tm_timelines timelineState) channelId []
        in bindE (diffReplaced channelId userId events (map_get_or (tm_replacedEvents timelineState) channelId [])
                    (map_get_or (tm_replacedEvents prev) channelId []) state) (\<lambda>(updated, resultReplaced).
           bindE (diffAdded channelId userId events updated) (\<lambda>(updated, resultAdded).
           Inr (if resultReplaced \<or> resultAdded then updated else state))))"

definition diffTimeline ::
  "'a externs_scheme \<Rightarrow> identity \<Rightarrow> TimelinesViewModel \<Rightarrow> TimelinesViewModel \<Rightarrow> string \<Rightarrow> markers \<Rightarrow> exn + markers" where
  "diffTimeline E same timelineState prev userId state =
     (if tm_timelines prev = [] \<or> same_timelines same then Inr state
      else foldE (diff_channel same userId timelineState prev)
             (filter (isDiffableStreamTimeline E) (map fst (tm_timelines timelineState))) state)"

definition unreadMarkersTransform ::
  "'a externs_scheme \<Rightarrow> identity \<Rightarrow> Input \<Rightarrow> Input \<Rightarrow> markers option \<Rightarrow> exn + markers" where
  "unreadMarkersTransform E same val prev state =
     (let state0 = (case state of None \<Rightarrow> [] | Some m \<Rightarrow> m);
          state1 = fold (\<lambda>(streamId, fullyReadMarkers) state.
                     if same_markers same streamId then state
                     else updateFullyReadMarkersFromRemote [(streamId, fullyReadMarkers)] state)
                   (in_myRemoteFullyReadMarkers val) state0
      in if same_view same then Inr state1
         else diffTimeline E same (in_timelinesView val) (in_timelinesView prev) (in_userId val) state1)"

section \<open>Properties\<close>

subsection \<open>The binary search\<close>

text \<open>The first event that is large enough, at \<open>k\<close>, stays between \<open>low\<close> and \<open>high\<close>.\<close>

lemma search_loop_correct:
  assumes "\<And>i. i < length events \<Longrightarrow> tl_eventNum (events ! i) < n \<longleftrightarrow> i < k" "k \<le> length events"
    and "0 \<le> low" "low \<le> int k" "high < int (length events)" "k < length events \<longrightarrow> int k \<le> high"
  shows "search_loop events n low high = k"
  using assms
proof (induction events n low high rule: search_loop.induct)
  case (1 events n low high)
  let ?mid = "(low + high) div 2"
  show ?case
  proof (cases "low \<le> high")
    case True
    then have m: "0 \<le> ?mid" "low \<le> ?mid" "?mid \<le> high" "nat ?mid < length events" using 1(5,7) by auto
    have lt: "tl_eventNum (events ! nat ?mid) < n \<longleftrightarrow> nat ?mid < k" using 1(3)[OF m(4)] .
    have lt': "tl_eventNum (events ! nat (?mid - 1)) < n \<longleftrightarrow> nat (?mid - 1) < k" using m by (intro 1(3)) auto
    show ?thesis
    proof (cases "nat ?mid < k")
      case less: True
      then have "search_loop events n (?mid + 1) high = k" using True lt m 1(3-8) by (intro 1(1)) auto
      then show ?thesis using True lt less by (subst search_loop.simps) (simp add: Let_def)
    next
      case ge: False
      show ?thesis
      proof (cases "?mid = 0 \<or> nat (?mid - 1) < k")
        case found: True
        then have "nat ?mid = k" using ge m(1) by auto
        then show ?thesis using True lt lt' ge found by (subst search_loop.simps) (auto simp: Let_def)
      next
        case beyond: False
        then have "int k \<le> ?mid - 1" using m(1) by (auto simp: not_less nat_le_iff le_nat_iff)
        then have "search_loop events n low (?mid - 1) = k" using beyond True lt lt' ge m 1(3-8) by (intro 1(2)) auto
        then show ?thesis using True lt lt' ge beyond by (subst search_loop.simps) (simp add: Let_def)
      qed
    qed
  next
    case False
    then show ?thesis using 1(4,6,8) by (subst search_loop.simps) auto
  qed
qed

definition first_at_least :: "TimelineEvent list \<Rightarrow> int \<Rightarrow> nat" where
  "first_at_least events n = length (takeWhile (\<lambda>e. tl_eventNum e < n) events)"

lemma first_at_least_iff:
  assumes "sorted (map tl_eventNum events)" "i < length events"
  shows "tl_eventNum (events ! i) < n \<longleftrightarrow> i < first_at_least events n"
proof
  assume i: "i < first_at_least events n"
  then have "takeWhile (\<lambda>e. tl_eventNum e < n) events ! i \<in> set (takeWhile (\<lambda>e. tl_eventNum e < n) events)"
    by (simp add: first_at_least_def)
  then show "tl_eventNum (events ! i) < n" using i by (auto simp: takeWhile_nth first_at_least_def dest: set_takeWhileD)
next
  assume l: "tl_eventNum (events ! i) < n"
  show "i < first_at_least events n"
  proof (rule ccontr)
    assume "\<not> i < first_at_least events n"
    then have le: "first_at_least events n \<le> i" by simp
    then have "\<not> tl_eventNum (events ! first_at_least events n) < n"
      using nth_length_takeWhile[of "\<lambda>e. tl_eventNum e < n" events] assms(2) by (simp add: first_at_least_def)
    moreover have "tl_eventNum (events ! first_at_least events n) \<le> tl_eventNum (events ! i)"
      using sorted_nth_mono[OF assms(1), of "first_at_least events n" i] le assms(2) by simp
    ultimately show False using l by simp
  qed
qed

lemma indexOfFirst_sorted:
  assumes "sorted (map tl_eventNum events)"
  shows "indexOfFirstEventNumEqualToOrGreaterThan events n = first_at_least events n"
  unfolding indexOfFirstEventNumEqualToOrGreaterThan_def
  by (rule search_loop_correct)
    (auto simp: first_at_least_iff[OF assms] first_at_least_def length_takeWhile_le)

lemma scan_unread_find:
  "sorted (map tl_eventNum events) \<Longrightarrow> scan_unread userId channelId markerId b events
   = find (\<lambda>e. tl_eventNum e \<le> b \<and> marker_of channelId e = markerId \<and> isCountedAsUnread e userId) events"
  by (induction events) (auto simp: find_None_iff2)

lemma find_skip: "\<forall>x \<in> set xs. \<not> P x \<Longrightarrow> find P (xs @ ys) = find P ys"
  by (induction xs) auto

text \<open>On a sorted timeline, the search and the scan that stops at the end of the window find the first unread event of the window.\<close>

lemma firstUnread_find:
  assumes "sorted (map tl_eventNum events)" "a \<le> b"
  shows "firstUnreadEvent events userId channelId markerId a b =
    Inr (find (\<lambda>e. a \<le> tl_eventNum e \<and> tl_eventNum e \<le> b \<and> marker_of channelId e = markerId \<and> isCountedAsUnread e userId) events)"
proof -
  let ?P = "\<lambda>e. a \<le> tl_eventNum e \<and> tl_eventNum e \<le> b \<and> marker_of channelId e = markerId \<and> isCountedAsUnread e userId"
  let ?Q = "\<lambda>e. tl_eventNum e \<le> b \<and> marker_of channelId e = markerId \<and> isCountedAsUnread e userId"
  let ?k = "first_at_least events a"
  have d: "drop ?k events = dropWhile (\<lambda>e. tl_eventNum e < a) events"
    by (simp add: first_at_least_def dropWhile_eq_drop)
  have "tl_eventNum (events ! i) \<ge> a" if "?k \<le> i" "i < length events" for i
    using first_at_least_iff[OF assms(1) that(2), of a] that(1) by simp
  then have "\<forall>e \<in> set (drop ?k events). a \<le> tl_eventNum e" by (auto simp: in_set_conv_nth)
  then have "find ?Q (drop ?k events) = find ?P (drop ?k events)" by (intro find_cong) auto
  also have "\<dots> = find ?P (takeWhile (\<lambda>e. tl_eventNum e < a) events @ dropWhile (\<lambda>e. tl_eventNum e < a) events)"
    unfolding d by (rule find_skip[symmetric]) (auto dest: set_takeWhileD)
  finally have "find ?Q (drop ?k events) = find ?P events" by simp
  moreover have "sorted (map tl_eventNum (drop ?k events))" using assms(1) by (simp add: drop_map[symmetric] sorted_wrt_drop)
  ultimately show ?thesis
    using assms(2) by (simp add: firstUnreadEvent_def indexOfFirst_sorted[OF assms(1)] scan_unread_find)
qed

subsection \<open>Added events\<close>

abbreviation added_of :: "string \<Rightarrow> int \<Rightarrow> string \<Rightarrow> TimelineEvent list \<Rightarrow> TimelineEvent list" where
  "added_of channelId e k events \<equiv> filter (\<lambda>x. tl_eventNum x > e \<and> marker_of channelId x = k) events"

lemma segments_Nil [simp]: "segments c e [] = []"
  by (simp add: segments_def)

lemma segments_Cons:
  "segments c e (x # xs) = (if tl_eventNum x > e
     then map_set (marker_of c x) (x # map_get_or (segments c e xs) (marker_of c x) []) (segments c e xs) else segments c e xs)"
  by (simp add: segments_def)

lemma segments_get:
  "map_get (segments c e events) k = (if added_of c e k events = [] then None else Some (added_of c e k events))"
  by (induction events) (auto simp: segments_Cons map_get_or_def)

lemma segments_distinct: "distinct (map fst (segments c e events))"
  by (induction events) (auto simp: segments_Cons intro: distinct_keys_set)

lemma added_marker_total: "\<exists>r. added_marker c u events k prev seg = Inr r"
  by (simp add: added_marker_def firstUnreadEvent_def Let_def)

definition added :: "string \<Rightarrow> string \<Rightarrow> TimelineEvent list \<Rightarrow> string \<Rightarrow> FullyReadMarker option \<Rightarrow> TimelineEvent list \<Rightarrow> FullyReadMarker option" where
  "added c u events k prev seg = projr (added_marker c u events k prev seg)"

lemma added_step_eq:
  "added_step c u events (k, seg) (m, b)
   = Inr (case added c u events k (map_get m k) seg of None \<Rightarrow> m | Some x \<Rightarrow> map_set k x m, True)"
proof -
  obtain r where "added_marker c u events k (map_get m k) seg = Inr r" using added_marker_total by blast
  then show ?thesis by (simp add: added_step_def added_def)
qed

text \<open>Each entry changes its own marker only.\<close>

lemma added_fold:
  assumes "distinct (map fst entries)"
  shows "\<exists>m' b'. foldE (added_step c u events) entries (m, b) = Inr (m', b') \<and>
    (\<forall>k. map_get m' k = (case map_get entries k of
        None \<Rightarrow> map_get m k
      | Some seg \<Rightarrow> (case added c u events k (map_get m k) seg of None \<Rightarrow> map_get m k | Some x \<Rightarrow> Some x)))"
  using assms
proof (induction entries arbitrary: m b)
  case (Cons entry entries)
  obtain k0 seg where e: "entry = (k0, seg)" by (cases entry)
  define m1 where "m1 = (case added c u events k0 (map_get m k0) seg of None \<Rightarrow> m | Some x \<Rightarrow> map_set k0 x m)"
  have k0: "map_get entries k0 = None" using Cons.prems e by (auto simp: map_get_None_iff)
  obtain m' b' where r: "foldE (added_step c u events) entries (m1, True) = Inr (m', b')"
    "\<And>k. map_get m' k = (case map_get entries k of
        None \<Rightarrow> map_get m1 k
      | Some seg \<Rightarrow> (case added c u events k (map_get m1 k) seg of None \<Rightarrow> map_get m1 k | Some x \<Rightarrow> Some x))"
    using Cons.IH[of m1 True] Cons.prems by auto
  have own: "map_get m1 k0 = (case added c u events k0 (map_get m k0) seg of None \<Rightarrow> map_get m k0 | Some x \<Rightarrow> Some x)"
    by (simp add: m1_def split: option.split)
  have other: "map_get m1 k = map_get m k" if "k \<noteq> k0" for k using that by (simp add: m1_def split: option.split)
  have "foldE (added_step c u events) (entry # entries) (m, b) = Inr (m', b')"
    using r(1) by (simp add: e added_step_eq m1_def[symmetric])
  moreover have "map_get m' k = (case map_get (entry # entries) k of None \<Rightarrow> map_get m k
      | Some seg \<Rightarrow> (case added c u events k (map_get m k) seg of None \<Rightarrow> map_get m k | Some x \<Rightarrow> Some x))" for k
    using r(2)[of k] k0 own other[of k] by (cases "k = k0") (simp_all add: e cong: option.case_cong)
  ultimately show ?case by blast
qed simp

definition prev_end :: "string \<Rightarrow> markers \<Rightarrow> int" where
  "prev_end c m = (case map_get m c of Some x \<Rightarrow> fr_endUnreadWindow x | None \<Rightarrow> -1)"

definition window_begin :: "string \<Rightarrow> string \<Rightarrow> TimelineEvent list \<Rightarrow> markers \<Rightarrow> int" where
  "window_begin c k events m =
     (case map_get m k of Some x \<Rightarrow> fr_beginUnreadWindow x | None \<Rightarrow> tl_eventNum (hd (added_of c (prev_end c m) k events)))"

lemma diffAdded_get:
  "\<exists>m' b'. diffAdded c u events m = Inr (m', b') \<and>
    (\<forall>k. map_get m' k = (if added_of c (prev_end c m) k events = [] then map_get m k
       else case added c u events k (map_get m k) (added_of c (prev_end c m) k events) of None \<Rightarrow> map_get m k | Some x \<Rightarrow> Some x))"
proof -
  obtain m' b' where f: "diffAdded c u events m = Inr (m', b')" and
    g: "\<And>k. map_get m' k = (case map_get (segments c (prev_end c m) events) k of None \<Rightarrow> map_get m k
      | Some seg \<Rightarrow> (case added c u events k (map_get m k) seg of None \<Rightarrow> map_get m k | Some x \<Rightarrow> Some x))"
    using added_fold[OF segments_distinct[of c "prev_end c m" events], of c u events m False]
    by (auto simp: diffAdded_def prev_end_def[symmetric] Let_def)
  have "map_get m' k = (if added_of c (prev_end c m) k events = [] then map_get m k
       else case added c u events k (map_get m k) (added_of c (prev_end c m) k events) of None \<Rightarrow> map_get m k | Some x \<Rightarrow> Some x)" for k
    using g[of k] segments_get[of c "prev_end c m" events k] by (cases "added_of c (prev_end c m) k events = []") simp_all
  with f show ?thesis by blast
qed

lemma added_empty:
  assumes "window_begin c k events m > tl_eventNum (last (added_of c (prev_end c m) k events))"
  shows "added c u events k (map_get m k) (added_of c (prev_end c m) k events) = None"
  using assms by (simp add: added_def added_marker_def window_begin_def Let_def)

lemma added_window:
  assumes "sorted (map tl_eventNum events)"
    and "\<not> window_begin c k events m > tl_eventNum (last (added_of c (prev_end c m) k events))"
  shows "\<exists>x. added c u events k (map_get m k) (added_of c (prev_end c m) k events) = Some x \<and>
    fr_beginUnreadWindow x = window_begin c k events m \<and>
    fr_endUnreadWindow x = tl_eventNum (last (added_of c (prev_end c m) k events)) \<and>
    fr_mentions x = added_mentions (map_get m k) (added_of c (prev_end c m) k events) \<and>
    (case find (\<lambda>e. window_begin c k events m \<le> tl_eventNum e \<and> tl_eventNum e \<le> tl_eventNum (last (added_of c (prev_end c m) k events))
        \<and> marker_of c e = k \<and> isCountedAsUnread e u) events of
       Some e \<Rightarrow> fr_isUnread x \<and> fr_eventId x = tl_eventId e \<and> fr_eventNum x = tl_eventNum e
     | None \<Rightarrow> \<not> fr_isUnread x \<and> fr_eventId x = tl_eventId (last (added_of c (prev_end c m) k events))
         \<and> fr_eventNum x = tl_eventNum (last (added_of c (prev_end c m) k events)))"
  using assms(2) firstUnread_find[OF assms(1), of "window_begin c k events m" "tl_eventNum (last (added_of c (prev_end c m) k events))" u c k]
  by (simp add: added_def added_marker_def window_begin_def[symmetric] Let_def split: option.split)

text \<open>
  C25. The markers of a timeline with new events. Let the timeline be sorted, and let the events that are newer than the window of
  the channel's marker contain some of the marker in question, a channel or a thread. The transform sets that marker's window
  to begin where it began before, or with the first of the new events, and to end with the last of them, unless that window
  is empty; the marker says unread exactly when an event of the window belongs to it and counts as unread, and then names the first such
  event, otherwise the last event of the window. Markers without new events stay as they are.\<close>

theorem unread_markers_correct:
  assumes "sorted (map tl_eventNum events)"
  shows "\<exists>m' b. diffAdded c u events m = Inr (m', b) \<and>
    (\<forall>k. let new = added_of c (prev_end c m) k events; begin = window_begin c k events m
         in if new = [] \<or> begin > tl_eventNum (last new) then map_get m' k = map_get m k
            else \<exists>x. map_get m' k = Some x \<and> fr_beginUnreadWindow x = begin \<and> fr_endUnreadWindow x = tl_eventNum (last new) \<and>
              (case find (\<lambda>e. begin \<le> tl_eventNum e \<and> tl_eventNum e \<le> tl_eventNum (last new) \<and> marker_of c e = k \<and> isCountedAsUnread e u) events of
                 Some e \<Rightarrow> fr_isUnread x \<and> fr_eventId x = tl_eventId e \<and> fr_eventNum x = tl_eventNum e
               | None \<Rightarrow> \<not> fr_isUnread x \<and> fr_eventId x = tl_eventId (last new) \<and> fr_eventNum x = tl_eventNum (last new)))"
proof -
  obtain m' b where d: "diffAdded c u events m = Inr (m', b)" and
    g: "\<And>k. map_get m' k = (if added_of c (prev_end c m) k events = [] then map_get m k
       else case added c u events k (map_get m k) (added_of c (prev_end c m) k events) of None \<Rightarrow> map_get m k | Some x \<Rightarrow> Some x)"
    using diffAdded_get[of c u events m] by blast
  show ?thesis
  proof (intro exI conjI allI, rule d, unfold Let_def, goal_cases)
    case (1 k)
    show ?case
    proof (cases "added_of c (prev_end c m) k events = [] \<or> window_begin c k events m > tl_eventNum (last (added_of c (prev_end c m) k events))")
      case True
      then show ?thesis using g[of k] added_empty[where events = events and c = c and m = m and k = k and u = u] by auto
    next
      case False
      then show ?thesis using g[of k] added_window[OF assms, where c = c and m = m and k = k and u = u] by auto
    qed
  qed
qed

text \<open>
  C34. Mentions are counted once. When a channel or a thread has a marker, new events that mention the user do not change the number of
  its mentions, however many they are; they are counted only when the marker is made.\<close>

theorem later_mentions_not_counted:
  assumes "map_get m k = Some x" "diffAdded c u events m = Inr (m', b)"
  shows "\<exists>x'. map_get m' k = Some x' \<and> fr_mentions x' = fr_mentions x"
proof -
  have "fr_mentions y = fr_mentions x" if "added c u events k (Some x) seg = Some y" for seg y
    using that by (auto simp: added_def added_marker_def firstUnreadEvent_def added_mentions_def Let_def split: if_splits)
  then show ?thesis using diffAdded_get[of c u events m] assms by (auto split: option.splits if_splits)
qed

subsection \<open>Windows\<close>

definition windows_ok :: "markers \<Rightarrow> bool" where
  "windows_ok m \<longleftrightarrow> (\<forall>k x. map_get m k = Some x \<longrightarrow> fr_beginUnreadWindow x \<le> fr_endUnreadWindow x)"

definition read_on :: "markers \<Rightarrow> markers \<Rightarrow> bool" where
  "read_on m m' \<longleftrightarrow> (\<forall>k x. map_get m k = Some x \<longrightarrow> (\<exists>x'. map_get m' k = Some x' \<and> fr_beginUnreadWindow x \<le> fr_beginUnreadWindow x'))"

definition follows :: "markers \<Rightarrow> markers \<Rightarrow> bool" where
  "follows m m' \<longleftrightarrow> (windows_ok m \<longrightarrow> windows_ok m') \<and> read_on m m'"

lemma follows_refl [simp]: "follows m m"
  by (auto simp: follows_def read_on_def)

lemma follows_trans: "follows a b \<Longrightarrow> follows b c \<Longrightarrow> follows a c"
  unfolding follows_def read_on_def by (meson order_trans)

lemma follows_set:
  assumes "windows_ok m \<Longrightarrow> fr_beginUnreadWindow x \<le> fr_endUnreadWindow x"
    and "\<And>y. map_get m k = Some y \<Longrightarrow> fr_beginUnreadWindow y \<le> fr_beginUnreadWindow x"
  shows "follows m (map_set k x m)"
  using assms by (auto simp: follows_def read_on_def windows_ok_def)

lemma diffAdded_follows: "\<exists>m' b. diffAdded c u events m = Inr (m', b) \<and> follows m m'"
proof -
  have a: "fr_beginUnreadWindow y \<le> fr_endUnreadWindow y \<and> (\<forall>x. prev = Some x \<longrightarrow> fr_beginUnreadWindow y = fr_beginUnreadWindow x)"
    if "added c u events k prev seg = Some y" for k prev seg y
    using that by (auto simp: added_def added_marker_def firstUnreadEvent_def Let_def split: if_splits)
  obtain m' b where d: "diffAdded c u events m = Inr (m', b)" and
    g: "\<And>k. map_get m' k = (if added_of c (prev_end c m) k events = [] then map_get m k
       else case added c u events k (map_get m k) (added_of c (prev_end c m) k events) of None \<Rightarrow> map_get m k | Some x \<Rightarrow> Some x)"
    using diffAdded_get[of c u events m] by blast
  have "\<exists>y. map_get m' k = Some y \<and> fr_beginUnreadWindow y = fr_beginUnreadWindow x" if "map_get m k = Some x" for k x
    using g[of k] a[of k "map_get m k"] that by (auto split: if_splits option.splits)
  moreover have "fr_beginUnreadWindow y \<le> fr_endUnreadWindow y" if "windows_ok m" "map_get m' k = Some y" for k y
    using g[of k] a[of k "map_get m k"] that by (auto simp: windows_ok_def split: if_splits option.splits)
  ultimately have "follows m m'" unfolding follows_def read_on_def windows_ok_def[of m'] by (metis order_refl)
  with d show ?thesis by blast
qed

lemma replaced_marker_ok:
  assumes "events \<noteq> []" "fr_beginUnreadWindow x \<le> fr_endUnreadWindow x"
  shows "\<exists>y. replaced_marker c u events k x old new = Inr y \<and> fr_beginUnreadWindow y = fr_beginUnreadWindow x \<and>
    fr_beginUnreadWindow y \<le> fr_endUnreadWindow y"
  using assms by (auto simp: replaced_marker_def maxBigint_def firstUnreadEvent_def Let_def split: option.split)

lemma replaced_step_ok:
  assumes "events \<noteq> []" "fr_beginUnreadWindow cm \<le> fr_endUnreadWindow cm" "windows_ok (fst s)"
  shows "\<exists>s'. replaced_step c u events cm event s = Inr s' \<and> follows (fst s) (fst s')"
proof -
  obtain old new m b where e: "event = (old, new)" "s = (m, b)" by (cases event, cases s) auto
  show ?thesis
  proof (cases "map_get m (marker_of c new)")
    case None
    have "follows m (map_set (marker_of c new) (new_thread_marker c u cm new) m)"
      by (rule follows_set) (use assms(2) None in \<open>simp_all add: new_thread_marker_def\<close>)
    then show ?thesis using None by (cases "tl_eventNum new > fr_endUnreadWindow cm") (auto simp: e replaced_step_def Let_def)
  next
    case (Some x)
    then have "fr_beginUnreadWindow x \<le> fr_endUnreadWindow x" using assms(3) by (auto simp: e windows_ok_def)
    then obtain y where y: "replaced_marker c u events (marker_of c new) x old new = Inr y"
      "fr_beginUnreadWindow y = fr_beginUnreadWindow x" "fr_beginUnreadWindow y \<le> fr_endUnreadWindow y"
      using replaced_marker_ok[OF assms(1)] by blast
    have "follows m (map_set (marker_of c new) y m)" by (rule follows_set) (use y Some in simp_all)
    then show ?thesis using Some y(1) by (cases "tl_eventNum new > fr_endUnreadWindow cm") (auto simp: e replaced_step_def Let_def)
  qed
qed

lemma diffReplaced_follows:
  assumes "events \<noteq> []" "windows_ok m"
  shows "\<exists>m' b. diffReplaced c u events rs ps m = Inr (m', b) \<and> follows m m'"
proof (cases "length rs = length ps \<or> map_get m c = None")
  case False
  then obtain cm where cm: "map_get m c = Some cm" "length rs \<noteq> length ps" by auto
  have "fr_beginUnreadWindow cm \<le> fr_endUnreadWindow cm" using assms(2) cm(1) by (auto simp: windows_ok_def)
  note step = replaced_step_ok[OF assms(1) this, of _ c u]
  have "\<exists>s'. foldE (replaced_step c u events cm) (drop (length ps) rs) (m, False) = Inr s' \<and> follows m (fst s')"
  proof (rule foldE_total[where I = "\<lambda>s. follows m (fst s)"])
    fix x and s :: "markers \<times> bool"
    assume f: "follows m (fst s)"
    then have "windows_ok (fst s)" using assms(2) by (simp add: follows_def)
    then show "\<exists>s'. replaced_step c u events cm x s = Inr s' \<and> follows m (fst s')"
      using step[of s x] follows_trans[OF f] by blast
  qed simp
  then show ?thesis using cm by (auto simp: diffReplaced_def)
qed (auto simp: diffReplaced_def)

lemma diff_channel_follows:
  assumes "map_get_or (tm_timelines t) c [] \<noteq> []" "windows_ok m"
  shows "\<exists>m'. diff_channel same u t p c m = Inr m' \<and> follows m m'"
proof -
  let ?es = "map_get_or (tm_timelines t) c []"
  obtain m1 b1 where 1: "diffReplaced c u ?es (map_get_or (tm_replacedEvents t) c []) (map_get_or (tm_replacedEvents p) c []) m
      = Inr (m1, b1)" "follows m m1"
    using diffReplaced_follows[OF assms] by blast
  obtain m2 b2 where 2: "diffAdded c u ?es m1 = Inr (m2, b2)" "follows m1 m2" using diffAdded_follows by blast
  show ?thesis using follows_trans[OF 1(2) 2(2)] 1(1) 2(1) by (simp add: diff_channel_def Let_def)
qed

lemma remote_fold_follows:
  assumes "windows_ok ms" "distinct (map fst ms)"
  shows "follows m (fst (fold remote_marker ms (m, n)))"
proof -
  have "follows m (fst (fold remote_marker xs (m, n)))"
    if "\<forall>(k, x) \<in> set xs. fr_beginUnreadWindow x \<le> fr_endUnreadWindow x" for xs m n
    using that
  proof (induction xs arbitrary: m n)
    case (Cons kx xs)
    obtain k x where kx: "kx = (k, x)" by (cases kx)
    have "follows m (fst (remote_marker kx (m, n)))"
      using Cons.prems by (auto simp: kx remote_marker_def split: option.split intro!: follows_set)
    then show ?case
      using Cons.IH[of "fst (remote_marker kx (m, n))" "snd (remote_marker kx (m, n))"] Cons.prems
      by (auto intro: follows_trans)
  qed simp
  moreover have "\<forall>(k, x) \<in> set ms. fr_beginUnreadWindow x \<le> fr_endUnreadWindow x"
    using assms by (auto simp: windows_ok_def)
  ultimately show ?thesis by blast
qed

lemma remote_follows:
  assumes "windows_ok ms" "distinct (map fst ms)"
  shows "follows m (updateFullyReadMarkersFromRemote [(i, ms)] m)"
  using remote_fold_follows[OF assms, of m 0] by (auto simp: updateFullyReadMarkersFromRemote_def split: prod.split)

text \<open>
  C26. The transform always succeeds and never moves a marker back. If the windows of the stored markers and of those the server sends
  begin before they end, and no timeline is empty, then the transform returns markers: their windows begin before they end as
  well, every marker is kept, and no window begins earlier than before. The stored markers of one stream have distinct keys.\<close>

theorem markers_never_move_back:
  assumes "windows_ok state"
    and "\<forall>(i, ms) \<in> set (in_myRemoteFullyReadMarkers val). windows_ok ms \<and> distinct (map fst ms)"
    and "\<forall>(c, events) \<in> set (tm_timelines (in_timelinesView val)). events \<noteq> []"
  shows "\<exists>state'. unreadMarkersTransform E same val prev (Some state) = Inr state' \<and> windows_ok state' \<and>
    (\<forall>k x. map_get state k = Some x \<longrightarrow> (\<exists>x'. map_get state' k = Some x' \<and> fr_beginUnreadWindow x \<le> fr_beginUnreadWindow x'))"
proof -
  let ?f = "\<lambda>(streamId, fullyReadMarkers) state. if same_markers same streamId then state
      else updateFullyReadMarkersFromRemote [(streamId, fullyReadMarkers)] state"
  let ?s1 = "fold ?f (in_myRemoteFullyReadMarkers val) state"
  have "follows s (fold ?f xs s)" if "\<forall>(i, ms) \<in> set xs. windows_ok ms \<and> distinct (map fst ms)" for xs s
    using that
  proof (induction xs arbitrary: s)
    case (Cons x xs)
    have "follows s (?f x s)" using Cons.prems remote_follows by (cases x) auto
    then show ?case using Cons.IH[of "?f x s"] Cons.prems by (auto intro: follows_trans)
  qed simp
  then have s1: "follows state ?s1" using assms(2) by blast
  let ?t = "in_timelinesView val" and ?p = "in_timelinesView prev"
  have "\<exists>s'. foldE (diff_channel same (in_userId val) ?t ?p) (filter (isDiffableStreamTimeline E) (map fst (tm_timelines ?t))) ?s1 = Inr s'
      \<and> follows state s'"
  proof (rule foldE_total[where I = "follows state"])
    fix c s
    assume c: "c \<in> set (filter (isDiffableStreamTimeline E) (map fst (tm_timelines ?t)))" and f: "follows state s"
    then obtain events where "map_get (tm_timelines ?t) c = Some events" by (metis filter_is_subset map_of_eq_None_iff not_Some_eq set_map subsetD)
    then have "map_get_or (tm_timelines ?t) c [] \<noteq> []" using assms(3) by (auto simp: map_get_or_def dest: map_of_SomeD)
    moreover have "windows_ok s" using f assms(1) by (simp add: follows_def)
    ultimately show "\<exists>s'. diff_channel same (in_userId val) ?t ?p c s = Inr s' \<and> follows state s'"
      using diff_channel_follows follows_trans[OF f] by blast
  qed (rule s1)
  then have "\<exists>s'. unreadMarkersTransform E same val prev (Some state) = Inr s' \<and> follows state s'"
    using s1 by (auto simp: unreadMarkersTransform_def diffTimeline_def Let_def)
  then show ?thesis using assms(1) unfolding follows_def read_on_def by blast
qed

subsection \<open>Examples\<close>

definition demo_timeline :: "TimelineEvent list" where
  "demo_timeline = [demo_msg, demo_redaction, demo_edit\<lparr>tl_isMentioned := True\<rparr>]"

definition demo_marker :: FullyReadMarker where
  "demo_marker = \<lparr>fr_channelId = ''c'', fr_threadParentId = None, fr_eventId = ''e1'', fr_eventNum = 1, fr_beginUnreadWindow = 2,
     fr_endUnreadWindow = 2, fr_isUnread = False, fr_markedReadAtTs = 0, fr_mentions = 0\<rparr>"

definition demo_input :: Input where
  "demo_input = \<lparr>in_userId = ''alice'', in_myRemoteFullyReadMarkers = [(''c'', [(''c'', demo_marker)])],
     in_timelinesView = emptyModel\<lparr>tm_timelines := [(''c'', demo_timeline)]\<rparr>\<rparr>"

lemma demo_sorted: "sorted (map tl_eventNum demo_timeline)"
  by (simp add: demo_timeline_def demo_events)

theorem unread_markers_correct_witness:
  "\<exists>m' b x. diffAdded ''c'' ''alice'' demo_timeline [] = Inr (m', b) \<and> map_get m' ''c'' = Some x \<and> fr_isUnread x \<and>
     fr_eventId x = ''e3'' \<and> fr_beginUnreadWindow x = 1 \<and> fr_endUnreadWindow x = 3"
proof -
  have n: "added_of ''c'' (prev_end ''c'' []) ''c'' demo_timeline = demo_timeline"
    by (simp add: demo_timeline_def demo_events marker_of_def prev_end_def)
  have w: "window_begin ''c'' ''c'' demo_timeline [] = 1"
    by (simp add: window_begin_def n) (simp add: demo_timeline_def demo_events)
  have l: "demo_timeline \<noteq> []" "tl_eventNum (last demo_timeline) = 3" by (simp_all add: demo_timeline_def demo_events)
  have f: "find (\<lambda>e. 1 \<le> tl_eventNum e \<and> tl_eventNum e \<le> 3 \<and> marker_of ''c'' e = ''c'' \<and> isCountedAsUnread e ''alice'') demo_timeline
      = Some (demo_edit\<lparr>tl_isMentioned := True\<rparr>)" "tl_eventId (demo_edit\<lparr>tl_isMentioned := True\<rparr>) = ''e3''"
    by (simp_all add: demo_timeline_def demo_events marker_of_def isCountedAsUnread_def)
  show ?thesis
    using unread_markers_correct[OF demo_sorted, of "''c''" "''alice''" "[]"]
    apply (elim exE conjE)
    subgoal premises p for m' b
      using p(1) spec[OF p(2), of "''c''"] unfolding Let_def n w l(2) f(1) using l(1) f(2) by auto
    done
qed

theorem later_mentions_not_counted_witness:
  "\<exists>m' b x. diffAdded ''c'' ''alice'' demo_timeline [(''c'', demo_marker)] = Inr (m', b) \<and> map_get m' ''c'' = Some x \<and> fr_mentions x = 0"
proof -
  obtain m' b where d: "diffAdded ''c'' ''alice'' demo_timeline [(''c'', demo_marker)] = Inr (m', b)"
    using diffAdded_follows by blast
  show ?thesis using later_mentions_not_counted[OF _ d, of "''c''" demo_marker] d by (simp add: demo_marker_def)
qed

theorem markers_never_move_back_witness:
  "\<exists>state' x. unreadMarkersTransform demo_externs \<lparr>same_markers = \<lambda>_. False, same_view = False, same_timelines = False, same_events = \<lambda>_. False\<rparr>
       demo_input demo_input (Some [(''c'', demo_marker)]) = Inr state' \<and> map_get state' ''c'' = Some x \<and> 2 \<le> fr_beginUnreadWindow x"
proof -
  have w: "windows_ok [(''c'', demo_marker)]" by (simp add: windows_ok_def demo_marker_def)
  have r: "\<forall>(i, ms) \<in> set (in_myRemoteFullyReadMarkers demo_input). windows_ok ms \<and> distinct (map fst ms)"
    using w by (simp add: demo_input_def)
  have t: "\<forall>(c, events) \<in> set (tm_timelines (in_timelinesView demo_input)). events \<noteq> []"
    by (simp add: demo_input_def demo_timeline_def)
  obtain state' where u: "unreadMarkersTransform demo_externs \<lparr>same_markers = \<lambda>_. False, same_view = False, same_timelines = False,
       same_events = \<lambda>_. False\<rparr> demo_input demo_input (Some [(''c'', demo_marker)]) = Inr state'"
    and k: "\<forall>k x. map_get [(''c'', demo_marker)] k = Some x \<longrightarrow>
      (\<exists>x'. map_get state' k = Some x' \<and> fr_beginUnreadWindow x \<le> fr_beginUnreadWindow x')"
    using markers_never_move_back[OF w r t] by blast
  from k[rule_format, of "''c''" demo_marker] obtain x where "map_get state' ''c'' = Some x" "2 \<le> fr_beginUnreadWindow x"
    by (auto simp: demo_marker_def)
  with u show ?thesis by blast
qed

end
