(* ===== verification/MessageTags.thy ===== *)
theory MessageTags
  imports Timelines
begin

text \<open>
  The tags that a client sends beside an encrypted event (\<open>tags.ts\<close>), from which nodes derive notifications: the kind of the
  interaction, who is mentioned, who takes part in the conversation, and the thread. The timeline of the stream view is an
  argument. The theory states exactly whom the participants of a thread list, and how often, and that the thread of a tip is never found.
\<close>

section \<open>Model\<close>

definition MIT_REPLY :: nat where "MIT_REPLY = 1"
definition MIT_REACTION :: nat where "MIT_REACTION = 2"
definition MIT_POST :: nat where "MIT_POST = 3"
definition MIT_EDIT :: nat where "MIT_EDIT = 4"
definition MIT_REDACTION :: nat where "MIT_REDACTION = 5"
definition MIT_TIP :: nat where "MIT_TIP = 6"
definition MIT_TRADE :: nat where "MIT_TRADE = 7"

definition getMessageInteractionType :: "ChannelMessage \<Rightarrow> nat" where
  "getMessageInteractionType message =
     (case message of
        Some (CmReaction _ _) \<Rightarrow> MIT_REACTION
      | Some (CmPost p) \<Rightarrow>
          if truthy_str (po_threadId p) \<noteq> None then MIT_REPLY
          else if truthy_str (po_replyId p) \<noteq> None then MIT_REPLY
          else MIT_POST
      | Some (CmEdit _ _) \<Rightarrow> MIT_EDIT
      | Some (CmRedaction _ _) \<Rightarrow> MIT_REDACTION
      | None \<Rightarrow> 0)"

definition text_mentions :: "ChannelMessage \<Rightarrow> Mention list option" where
  "text_mentions message =
     (case message of
        Some (CmPost p) \<Rightarrow> (case po_content p of Some (PcText _ mentions _) \<Rightarrow> Some mentions | _ \<Rightarrow> None)
      | _ \<Rightarrow> None)"

definition getGroupMentionTypes :: "ChannelMessage \<Rightarrow> nat list" where
  "getGroupMentionTypes message =
     (case text_mentions message of
        Some mentions \<Rightarrow> if find (\<lambda>m. mn_mentionBehavior m = Some AtChannel) mentions \<noteq> None then [1] else []
      | None \<Rightarrow> [])"

abbreviation address :: "'a externs_scheme \<Rightarrow> string \<Rightarrow> exn + bytes" where
  "address E userId \<equiv> of_option LibError (addressFromUserId E userId)"

definition getMentionedUserAddresses :: "'a externs_scheme \<Rightarrow> ChannelMessage \<Rightarrow> exn + bytes list" where
  "getMentionedUserAddresses E message =
     (case text_mentions message of
        Some mentions \<Rightarrow>
          mapE (\<lambda>m. address E (mn_userId m)) (filter (\<lambda>m. mn_mentionBehavior m = None \<and> length (mn_userId m) > 0) mentions)
      | None \<Rightarrow> Inr [])"

text \<open>A set of byte arrays compares identities, and every call of \<open>addressFromUserId\<close> makes a new array: \<open>add\<close> always appends.\<close>

definition participantsFromParentEventId :: "'a externs_scheme \<Rightarrow> string \<Rightarrow> TimelineEvent list \<Rightarrow> exn + bytes list" where
  "participantsFromParentEventId E parentId timeline =
     bindE (case find (\<lambda>x. tl_eventId x = parentId) timeline of
              Some parentEvent \<Rightarrow>
                if tl_senderId parentEvent \<noteq> [] then bindE (address E (tl_senderId parentEvent)) (\<lambda>a. Inr [a]) else Inr []
            | None \<Rightarrow> Inr []) (\<lambda>participating.
     foldE (\<lambda>event participating.
        case tl_content event of
          Some (ChannelMessageContent m) \<Rightarrow>
            if cme_threadId m = Some parentId
            then bindE (address E (tl_senderId event)) (\<lambda>a. Inr (participating @ [a])) else Inr participating
        | _ \<Rightarrow> Inr participating) timeline participating)"

definition getParticipatingUserAddresses :: "'a externs_scheme \<Rightarrow> ChannelMessage \<Rightarrow> TimelineEvent list \<Rightarrow> exn + bytes list" where
  "getParticipatingUserAddresses E message timeline =
     (case message of
        Some (CmReaction refEventId _) \<Rightarrow>
          (case find (\<lambda>x. tl_eventId x = refEventId) timeline of
             Some event \<Rightarrow> bindE (address E (tl_senderId event)) (\<lambda>a. Inr [a])
           | None \<Rightarrow> Inr [])
      | Some (CmPost p) \<Rightarrow>
          (case (case truthy_str (po_threadId p) of Some t \<Rightarrow> Some t | None \<Rightarrow> truthy_str (po_replyId p)) of
             Some parentId \<Rightarrow> participantsFromParentEventId E parentId timeline
           | None \<Rightarrow> Inr [])
      | _ \<Rightarrow> Inr [])"

definition from_hex :: "'a externs_scheme \<Rightarrow> string option \<Rightarrow> exn + bytes option" where
  "from_hex E s = (case truthy_str s of None \<Rightarrow> Inr None | Some h \<Rightarrow> bindE (of_option LibError (bin_fromHexString E h)) (\<lambda>b. Inr (Some b)))"

definition getParentThreadId :: "'a externs_scheme \<Rightarrow> string option \<Rightarrow> TimelineEvent list \<Rightarrow> exn + bytes option" where
  "getParentThreadId E eventId timeline =
     (case truthy_str eventId of
        None \<Rightarrow> Inr None
      | Some i \<Rightarrow>
          (case find (\<lambda>x. tl_eventId x = i) timeline of
             None \<Rightarrow> Inr None
           | Some event \<Rightarrow>
               (case tl_content event of
                  Some (ChannelMessageContent m) \<Rightarrow> from_hex E (cme_threadId m)
                | _ \<Rightarrow> Inr None)))"

definition getThreadId :: "'a externs_scheme \<Rightarrow> ChannelMessage \<Rightarrow> TimelineEvent list \<Rightarrow> exn + bytes option" where
  "getThreadId E message timeline =
     (case message of
        Some (CmPost p) \<Rightarrow> from_hex E (po_threadId p)
      | Some (CmReaction refEventId _) \<Rightarrow> getParentThreadId E (Some refEventId) timeline
      | Some (CmEdit refEventId _) \<Rightarrow> getParentThreadId E (Some refEventId) timeline
      | Some (CmRedaction refEventId _) \<Rightarrow> getParentThreadId E (Some refEventId) timeline
      | None \<Rightarrow> Inr None)"

definition unsafe_makeTags :: "'a externs_scheme \<Rightarrow> ChannelMessage \<Rightarrow> exn + Tags" where
  "unsafe_makeTags E message =
     bindE (getMentionedUserAddresses E message) (\<lambda>mentioned.
     bindE (case message of Some (CmPost p) \<Rightarrow> from_hex E (po_threadId p) | _ \<Rightarrow> Inr None) (\<lambda>threadId.
     Inr \<lparr>tg_messageInteractionType = getMessageInteractionType message, tg_groupMentionTypes = getGroupMentionTypes message,
          tg_mentionedUserAddresses = mentioned, tg_participatingUserAddresses = [], tg_threadId = threadId\<rparr>))"

definition makeTags :: "'a externs_scheme \<Rightarrow> ChannelMessage \<Rightarrow> TimelineEvent list \<Rightarrow> exn + Tags" where
  "makeTags E message timeline =
     bindE (getMentionedUserAddresses E message) (\<lambda>mentioned.
     bindE (getParticipatingUserAddresses E message timeline) (\<lambda>participating.
     bindE (getThreadId E message timeline) (\<lambda>threadId.
     Inr \<lparr>tg_messageInteractionType = getMessageInteractionType message, tg_groupMentionTypes = getGroupMentionTypes message,
          tg_mentionedUserAddresses = mentioned, tg_participatingUserAddresses = participating, tg_threadId = threadId\<rparr>)))"

definition makeTipTags :: "'a externs_scheme \<Rightarrow> string \<Rightarrow> string \<Rightarrow> TimelineEvent list \<Rightarrow> exn + Tags" where
  "makeTipTags E messageId toUserId timeline =
     bindE (address E toUserId) (\<lambda>a.
     bindE (getParentThreadId E (Some messageId) timeline) (\<lambda>threadId.
     Inr \<lparr>tg_messageInteractionType = MIT_TIP, tg_groupMentionTypes = [], tg_mentionedUserAddresses = [],
          tg_participatingUserAddresses = [a], tg_threadId = threadId\<rparr>))"

definition makeTransferTags :: "'a externs_scheme \<Rightarrow> TokenTransfer \<Rightarrow> TimelineEvent list \<Rightarrow> exn + Tags" where
  "makeTransferTags E event timeline =
     bindE (participantsFromParentEventId E (bin_toHexString E (tt_messageId event)) timeline) (\<lambda>participating.
     bindE (getParentThreadId E (Some (bin_toHexString E (tt_messageId event))) timeline) (\<lambda>threadId.
     Inr \<lparr>tg_messageInteractionType = MIT_TRADE, tg_groupMentionTypes = [], tg_mentionedUserAddresses = [],
          tg_participatingUserAddresses = participating, tg_threadId = threadId\<rparr>))"

section \<open>Properties\<close>

subsection \<open>Participants of a thread\<close>

definition is_reply :: "string \<Rightarrow> TimelineEvent \<Rightarrow> bool" where
  "is_reply parentId event = (case tl_content event of Some (ChannelMessageContent m) \<Rightarrow> cme_threadId m = Some parentId | _ \<Rightarrow> False)"

text \<open>Who is listed, in order: the sender of the parent event, if it is in the timeline, and the sender of each reply.\<close>

definition thread_senders :: "string \<Rightarrow> TimelineEvent list \<Rightarrow> string list" where
  "thread_senders parentId timeline =
     (case find (\<lambda>x. tl_eventId x = parentId) timeline of
        Some e \<Rightarrow> if tl_senderId e = [] then [] else [tl_senderId e]
      | None \<Rightarrow> []) @ map tl_senderId (filter (is_reply parentId) timeline)"

lemma replies_fold:
  "foldE (\<lambda>event participating.
      case tl_content event of
        Some (ChannelMessageContent m) \<Rightarrow>
          if cme_threadId m = Some parentId
          then bindE (address E (tl_senderId event)) (\<lambda>a. Inr (participating @ [a])) else Inr participating
      | _ \<Rightarrow> Inr participating) timeline ps
   = bindE (mapE (address E) (map tl_senderId (filter (is_reply parentId) timeline))) (\<lambda>as. Inr (ps @ as))"
  (is "foldE ?f timeline ps = _")
proof (induction timeline arbitrary: ps)
  case (Cons e timeline)
  have "?f e ps = (if is_reply parentId e then bindE (address E (tl_senderId e)) (\<lambda>a. Inr (ps @ [a])) else Inr ps)"
    by (simp add: is_reply_def split: option.split TimelineEvent_OneOf.split)
  then show ?case
    by (cases "address E (tl_senderId e)"; cases "mapE (address E) (map tl_senderId (filter (is_reply parentId) timeline))")
      (simp_all add: Cons.IH)
qed simp

lemma participants_eq: "participantsFromParentEventId E parentId timeline = mapE (address E) (thread_senders parentId timeline)"
  by (simp add: participantsFromParentEventId_def replies_fold thread_senders_def mapE_append bindE_assoc split: option.split)

text \<open>
  C35. The participants of a thread. A post in a thread, or in reply to an event, is tagged with exactly the addresses of the sender of
  the parent event and of the senders of the replies that the timeline has; it is tagged with as many addresses as there are
  such events, so that a user who has replied several times is listed as often.\<close>

theorem thread_participants:
  assumes "truthy_str (po_threadId p) = Some parentId \<or> truthy_str (po_threadId p) = None \<and> truthy_str (po_replyId p) = Some parentId"
    and "makeTags E (Some (CmPost p)) timeline = Inr tags"
  shows "set (map Some (tg_participatingUserAddresses tags)) = addressFromUserId E ` set (thread_senders parentId timeline) \<and>
    length (tg_participatingUserAddresses tags) = length (thread_senders parentId timeline) \<and>
    tg_messageInteractionType tags = MIT_REPLY"
proof -
  have "mapE (address E) (thread_senders parentId timeline) = Inr (tg_participatingUserAddresses tags)"
    using assms by (auto simp: makeTags_def bindE_Inr_iff getParticipatingUserAddresses_def participants_eq)
  then have m: "map (addressFromUserId E) (thread_senders parentId timeline) = map Some (tg_participatingUserAddresses tags)"
    by (auto simp: mapE_Inr_iff intro: nth_equalityI)
  then have "length (thread_senders parentId timeline) = length (tg_participatingUserAddresses tags)"
    by (metis length_map)
  moreover have "tg_messageInteractionType tags = MIT_REPLY"
    using assms by (auto simp: makeTags_def bindE_Inr_iff getMessageInteractionType_def)
  ultimately show ?thesis using m by (metis set_map)
qed

subsection \<open>Tips\<close>

text \<open>The thread of a tip is never found. The message id of a tip is the hex string that the contract interface decodes, with the
  prefix 0x; ids of timeline events have none. So a tip for a message in a thread is sent without the id of the thread.\<close>

theorem tip_thread_not_found:
  assumes "starts_with ''0x'' messageId" "\<forall>e \<in> set timeline. \<not> starts_with ''0x'' (tl_eventId e)"
    and "makeTipTags E messageId toUserId timeline = Inr tags"
  shows "tg_threadId tags = None"
proof -
  have "find (\<lambda>x. tl_eventId x = messageId) timeline = None" using assms(1,2) by (auto simp: find_None_iff)
  then have "getParentThreadId E (Some messageId) timeline = Inr None"
    by (cases messageId) (simp_all add: getParentThreadId_def)
  then show ?thesis using assms(3) by (auto simp: makeTipTags_def bindE_Inr_iff)
qed

subsection \<open>Examples\<close>

text \<open>A thread that one user has started and answered twice.\<close>

definition demo_reply :: "string \<Rightarrow> int \<Rightarrow> TimelineEvent" where
  "demo_reply eventId num = Timelines.demo_event eventId user0 num
     (ChannelMessageContent (ChannelMessageEvent (Some ''e1'') None None None ''hi'' [] None MtText (Some [])))"

definition demo_thread :: "TimelineEvent list" where
  "demo_thread = [Timelines.demo_event ''e1'' user0 1 (demo_text ''hello'' None), demo_reply ''e2'' 2, demo_reply ''e3'' 3]"

definition demo_post :: post where
  "demo_post = Post (Some ''e1'') None None None (Some (PcText ''again'' [] []))"

lemma demo_senders: "thread_senders ''e1'' demo_thread = [user0, user0, user0]"
  by (simp add: thread_senders_def demo_thread_def demo_reply_def Timelines.demo_event_def demo_text_def is_reply_def user0_def)

lemma demo_address: "\<exists>a. addressFromUserId demo_externs user0 = Some a" "\<exists>b. bin_fromHexString demo_externs ''e1'' = Some b"
proof -
  have "addressFromUserId plain_externs user0 \<noteq> None" by code_simp
  moreover have "x_arrayify demo_externs = x_arrayify plain_externs" by (simp add: demo_externs_def)
  ultimately show "\<exists>a. addressFromUserId demo_externs user0 = Some a"
    by (simp add: addressFromUserId_def cong: option.case_cong)
  have "bin_fromHexString plain_externs ''e1'' \<noteq> None" by code_simp
  then show "\<exists>b. bin_fromHexString demo_externs ''e1'' = Some b" by (simp add: bin_fromHexString_def demo_externs_def)
qed

theorem thread_participants_witness:
  "\<exists>tags a. makeTags demo_externs (Some (CmPost demo_post)) demo_thread = Inr tags \<and> addressFromUserId demo_externs user0 = Some a \<and>
     set (tg_participatingUserAddresses tags) = {a} \<and> length (tg_participatingUserAddresses tags) = 3"
proof -
  obtain a b where a: "addressFromUserId demo_externs user0 = Some a" "bin_fromHexString demo_externs ''e1'' = Some b"
    using demo_address by blast
  obtain tags where t: "makeTags demo_externs (Some (CmPost demo_post)) demo_thread = Inr tags"
    using a by (simp add: makeTags_def getMentionedUserAddresses_def text_mentions_def getParticipatingUserAddresses_def
        participants_eq demo_senders getThreadId_def from_hex_def demo_post_def)
  have "truthy_str (po_threadId demo_post) = Some ''e1''" by (simp add: demo_post_def)
  then have "set (map Some (tg_participatingUserAddresses tags)) = {Some a}" "length (tg_participatingUserAddresses tags) = 3"
    using thread_participants[OF _ t, of "''e1''"] a(1) by (simp_all add: demo_senders)
  then have "set (tg_participatingUserAddresses tags) = {a}" by auto
  then show ?thesis using t a(1) \<open>length (tg_participatingUserAddresses tags) = 3\<close> by blast
qed

theorem tip_thread_not_found_witness:
  "\<exists>tags. makeTipTags demo_externs ''0xe2'' user0 demo_thread = Inr tags \<and> tg_threadId tags = None"
proof -
  obtain a where a: "addressFromUserId demo_externs user0 = Some a" using demo_address by blast
  have e: "starts_with ''0x'' ''0xe2''" "\<forall>e \<in> set demo_thread. \<not> starts_with ''0x'' (tl_eventId e)"
    by (simp_all add: starts_with_def demo_thread_def demo_reply_def Timelines.demo_event_def)
  obtain tags where t: "makeTipTags demo_externs ''0xe2'' user0 demo_thread = Inr tags"
    using a by (simp add: makeTipTags_def getParentThreadId_def demo_thread_def demo_reply_def Timelines.demo_event_def)
  show ?thesis using tip_thread_not_found[OF e t] t by blast
qed

end
