(* ===== verification/StreamTypes.thy ===== *)
theory StreamTypes
  imports StreamView
begin

text \<open>
  The kind of a stream view. The constructor of \<open>StreamStateView\<close> chooses the content of a view by the prefix of the stream id, and
  every getter of a content throws when the view has another one. The theory shows that the choice is never undone: the
  methods of the contents stay in their class, and with them every method of the view and of the stream; and that a
  snapshot of another kind cannot initialize the view.
\<close>

section \<open>Kinds\<close>

definition kind_table :: "(StreamPrefix \<times> string) list" where
  "kind_table = [(Space, ''spaceContent''), (Channel, ''channelContent''), (DM, ''dmChannelContent''), (GDM, ''gdmChannelContent''),
     (Media, ''mediaContent''), (User, ''userContent''), (UserSettings, ''userSettingsContent''),
     (UserMetadata, ''userMetadataContent''), (UserInbox, ''userInboxContent'')]"

definition kind_of_id :: "'a externs_scheme \<Rightarrow> string \<Rightarrow> string option" where
  "kind_of_id E streamId = map_option snd (find (\<lambda>(p, k). has_prefix E p (Str streamId)) kind_table)"

definition kind_of_snapshot :: "snapshot \<Rightarrow> string option" where
  "kind_of_snapshot s =
     (case sn_content s of
        Some (ScSpace _) \<Rightarrow> Some ''spaceContent''
      | Some (ScChannel _) \<Rightarrow> Some ''channelContent''
      | Some (ScDmChannel _) \<Rightarrow> Some ''dmChannelContent''
      | Some (ScGdmChannel _) \<Rightarrow> Some ''gdmChannelContent''
      | Some (ScMedia _) \<Rightarrow> Some ''mediaContent''
      | Some (ScUser _) \<Rightarrow> Some ''userContent''
      | Some (ScUserMetadata _) \<Rightarrow> Some ''userMetadataContent''
      | Some (ScUserSettings _) \<Rightarrow> Some ''userSettingsContent''
      | Some (ScUserInbox _) \<Rightarrow> Some ''userInboxContent''
      | _ \<Rightarrow> None)"

lemma new_content_kind: "new_content E streamId views = Inr c \<Longrightarrow> kind_of_id E streamId = Some (contentKind c)"
  by (auto simp: new_content_def kind_of_id_def kind_table_def contentKind_def isSpaceStreamId_def isChannelStreamId_def
      isDMChannelStreamId_def isGDMChannelStreamId_def isMediaStreamId_def isUserStreamId_def isUserSettingsStreamId_def
      isUserDeviceStreamId_def isUserInboxStreamId_def bindE_Inr_iff split: if_splits)

section \<open>Every method keeps the kind\<close>

lemma content_kinds [simp]:
  "contentKind (fst (st_of (content_appendEvent E ct ee se e c))) = contentKind c"
  "contentKind (fst (st_of (content_prependEvent E ct ee e c))) = contentKind c"
  "contentKind (st_of (content_onConfirmedEvent e c)) = contentKind c"
  "contentKind (st_of (content_onDecryptedContent i d em c)) = contentKind c"
  "contentKind (st_of (content_onAppendLocalEvent em e c)) = contentKind c"
  "contentKind (st_of (content_applySnapshot E cts em s c)) = contentKind c"
  by (cases c; simp add: content_appendEvent_def content_prependEvent_def content_onConfirmedEvent_def content_onDecryptedContent_def
      content_onAppendLocalEvent_def content_applySnapshot_def contentKind_def with_event_def Let_def
      split: option.split snapshot_content.split)+

definition view_type :: "StreamView \<Rightarrow> string \<times> string \<times> string" where
  "view_type v = (sv_streamId v, sv_userId v, contentKind (sv_content v))"

lemma type_frame [simp]:
  "view_type (set_event r e v) = view_type v" "view_type (snd (new_event e v)) = view_type v"
  "view_type (snd (new_events es v)) = view_type v" "view_type (updateMiniblockInfo h a b v) = view_type v"
  "view_type (v\<lparr>sv_minipoolEvents := p\<rparr>) = view_type v" "view_type (v\<lparr>sv_lastEventNum := n\<rparr>) = view_type v"
  "view_type (v\<lparr>sv_heap := hp\<rparr>) = view_type v" "view_type (v\<lparr>sv_prevMiniblockHash := x\<rparr>) = view_type v"
  "view_type (v\<lparr>sv_prevMiniblockNum := m\<rparr>) = view_type v" "view_type (v\<lparr>sv_syncCookie := k\<rparr>) = view_type v"
  "view_type (v\<lparr>sv_prevSnapshotMiniblockNum := j\<rparr>) = view_type v" "view_type (v\<lparr>sv_miniblockInfo := i\<rparr>) = view_type v"
  "view_type (v\<lparr>sv_streamStatus := st\<rparr>) = view_type v"
  "view_type (v\<lparr>sv_membershipContent := ms\<rparr>) = view_type v"
  "contentKind c = contentKind (sv_content v) \<Longrightarrow> view_type (v\<lparr>sv_content := c\<rparr>) = view_type v"
  by (simp_all add: view_type_def set_event_def new_event_def new_events_def updateMiniblockInfo_def Let_def split: option.split)

lemma type_confirm_event [simp]: "view_type (fst (st_of (confirm_event E h se ih vc))) = view_type (fst vc)"
  by (cases vc; cases ih)
    (auto simp: confirm_event_def Let_def st_of_and_then split: option.split payload.split)

lemma type_processMiniblockHeader [simp]: "view_type (fst (st_of (processMiniblockHeader E h se v))) = view_type v"
  unfolding processMiniblockHeader_def
  by (rule for_each_inv[where I = "\<lambda>s. view_type (fst s) = view_type v"]) simp_all

lemma type_append_header [simp]: "view_type (fst (st_of (append_header E r h se v))) = view_type v"
proof -
  have "view_type (fst (st_of (case p of ((v4, c), os, None) \<Rightarrow> ((v4, Some c), os, None) | ((v4, c), os, Some e) \<Rightarrow> ((v4, None), os, Some e))))
      = view_type (fst (st_of p))" for p :: "(StreamView \<times> event_ref list, sv_out) res"
    by (cases p) (auto split: option.split)
  then show ?thesis by (simp add: append_header_def Let_def)
qed

lemma type_processAppendedEvent [simp]: "view_type (fst (st_of (processAppendedEvent E r ct ee se v))) = view_type v"
  by (simp add: processAppendedEvent_def Let_def on_content_event_st split: option.split payload.split)

lemma type_processPrependedEvent [simp]: "view_type (st_of (processPrependedEvent E r ct ee se v)) = view_type v"
  by (simp add: processPrependedEvent_def on_content_event_st split: option.split payload.split)

lemma type_append_one [simp]: "view_type (fst (st_of (append_one E cts ee se p vb))) = view_type (fst vb)"
  by (cases vb) (simp add: append_one_def Let_def new_event_def case_prod_unfold split: option.split)

lemma type_appendStreamAndCookie [simp]: "view_type (fst (st_of (appendStreamAndCookie E k es cts ee se v))) = view_type v"
proof -
  have "view_type (fst (st_of (for_each (append_one E cts ee se) es
      (v, \<lparr>ba_appended = [], ba_updated = [], ba_confirmed = []\<rparr>)))) = view_type v"
    by (rule for_each_inv[where I = "\<lambda>s. view_type (fst s) = view_type v"]) simp_all
  then show ?thesis by (simp add: appendStreamAndCookie_def st_of_and_then case_prod_unfold)
qed

lemma type_prepend_refs [simp]: "view_type (st_of (prepend_refs E cts ee se rs v)) = view_type v"
  unfolding prepend_refs_def by (rule for_each_inv[where I = "\<lambda>s. view_type s = view_type v"]) simp_all

lemma type_append_rest [simp]: "view_type (st_of (append_rest E cts em rs v)) = view_type v"
  unfolding append_rest_def by (rule for_each_inv[where I = "\<lambda>s. view_type s = view_type v"]) simp_all

lemma type_prependEvents [simp]: "view_type (fst (st_of (prependEvents E mbs cts t ee se v))) = view_type v"
  by (simp add: prependEvents_def new_events_def Let_def st_of_and_then split: option.split)

lemma type_stream_step: "view_type (st_of (stream_step E x v)) = view_type v"
  by (cases x) (simp_all add: stream_step_def appendEvents_def then_with_sels appendLocalEvent_def updateLocalEvent_def
      updateDecryptedContent_def updateDecryptedContentError_def Let_def new_event_def st_of_and_then split: option.split)

lemma type_finish_initialize: "view_type (st_of (finish_initialize em es p t a v)) = view_type v"
proof -
  have r: "view_type (fst (st_of (restore_local em e vr))) = view_type (fst vr)" for e vr
    by (cases vr) (simp add: restore_local_def Let_def new_event_def)
  have "view_type (fst (st_of (for_each (restore_local em) es (v, [])))) = view_type v"
    by (rule for_each_inv[where I = "\<lambda>s. view_type (fst s) = view_type v"]) (simp_all add: r)
  then show ?thesis by (simp add: finish_initialize_def then_with_sels Let_def)
qed

lemma type_initialize: "view_type (st_of (initialize E k es snap mbs pmbs n cts les em v)) = view_type v"
proof -
  have a: "view_type (st_of (applySnapshot E e snap cts em v)) = view_type v" for e v
    by (simp add: applySnapshot_def st_of_and_then split: sum.split)
  have b: "view_type (fst (st_of (initialize_blocks E mb0 bs cts em v))) = view_type v" for mb0 bs v
    by (simp add: initialize_blocks_def new_events_def Let_def st_of_and_then)
  have m: "view_type (st_of (initialize_minipool E k es pmbs n cts les em tes v)) = view_type v" for tes v
    by (simp add: initialize_minipool_def then_with_sels Let_def type_finish_initialize split: list.split)
  show ?thesis by (simp add: initialize_def st_of_and_then then_with_sels a b m split: list.split)
qed

section \<open>Snapshots\<close>

lemma migrateSnapshot_kind:
  assumes "migrateSnapshot E s = Inr s'"
  shows "kind_of_snapshot s' = kind_of_snapshot s"
proof -
  have m: "kind_of_snapshot (map_content f s) = kind_of_snapshot s"
    if "\<And>c m v. kind_of_snapshot (Snapshot m v (Some (f c))) = kind_of_snapshot (Snapshot m v (Some c))" for f s
    using that by (cases s; cases "sn_content s") (auto simp: map_content_def kind_of_snapshot_def)
  have j: "kind_of_snapshot (map_joined g s) = kind_of_snapshot s" for g s
    by (simp add: map_joined_def kind_of_snapshot_def)
  have "kind_of_snapshot (snapshotMigration0001 E s) = kind_of_snapshot s" for s
    unfolding snapshotMigration0001_def
    by (rule trans[OF m j]) (auto simp: kind_of_snapshot_def split: snapshot_content.split)
  moreover have "kind_of_snapshot (snapshotMigration0002 E s) = kind_of_snapshot s" for s
    unfolding snapshotMigration0002_def by (rule m) (auto simp: kind_of_snapshot_def split: snapshot_content.split)
  moreover have "kind_of_snapshot (snapshotMigration0003 s) = kind_of_snapshot s" for s
    unfolding snapshotMigration0003_def by (rule m) (auto simp: kind_of_snapshot_def split: snapshot_content.split)
  moreover have "kind_of_snapshot (snapshotMigration0004 E s b) = kind_of_snapshot s" for s b
    by (simp add: snapshotMigration0004_def Let_def j split: option.split)
  ultimately have step: "\<forall>f \<in> set (SNAPSHOT_MIGRATIONS E). \<forall>s. kind_of_snapshot (f s) = kind_of_snapshot s"
    by (simp add: SNAPSHOT_MIGRATIONS_def snapshotMigration0000_def)
  have fold: "kind_of_snapshot (fold (\<lambda>f. f) fs s) = kind_of_snapshot s"
    if "\<forall>f \<in> set fs. \<forall>s. kind_of_snapshot (f s) = kind_of_snapshot s" for fs s
    using that by (induction fs arbitrary: s) auto
  have "kind_of_snapshot (set_version v (fold (\<lambda>f. f) (drop i (SNAPSHOT_MIGRATIONS E)) s)) = kind_of_snapshot s" for v i
    using fold[of "drop i (SNAPSHOT_MIGRATIONS E)" s] step in_set_dropD[of _ i "SNAPSHOT_MIGRATIONS E"]
    by (auto simp: set_version_def kind_of_snapshot_def)
  then show ?thesis using assms by (auto simp: migrateSnapshot_def Let_def split: if_splits)
qed

lemma content_applySnapshot_kind:
  "exn_of (content_applySnapshot E cts em (sn_content s) c) = None \<Longrightarrow> kind_of_snapshot s = Some (contentKind c)"
  by (auto simp: content_applySnapshot_def kind_of_snapshot_def contentKind_def Let_def
      split: option.splits snapshot_content.splits content.splits)

text \<open>
  C23. The kind of a stream is fixed by its id. Whatever is received, in whatever order, with failing calls, a failing
  initialization and a second one included, the content of a view is the one the prefix of the stream id stands for, and its stream
  and its user stay the same; and a snapshot can only initialize the view if, before all migrations, it is of that kind.\<close>

theorem stream_kind_fixed:
  assumes "new_StreamView E userId streamId views = Inr v0"
    and "r0 = initialize E cookie es snap mbs pmbs n cts les em v0"
    and "v = fold (\<lambda>x v. st_of (stream_step E x v)) calls (st_of r0)"
    and "r = stream_initialize E views' cookie' es' snap' mbs' pmbs' n' cts' v"
    and "w \<in> {v, st_of r}"
  shows "kind_of_id E streamId = Some (contentKind (sv_content w)) \<and> sv_streamId w = streamId \<and> sv_userId w = userId \<and>
    (exn_of r0 = None \<longrightarrow> kind_of_snapshot snap = kind_of_id E streamId) \<and>
    (exn_of r = None \<longrightarrow> kind_of_snapshot snap' = kind_of_id E streamId)"
proof -
  have new: "\<exists>k. view_type v0 = (i, u, k) \<and> kind_of_id E i = Some k" if "new_StreamView E u i vs = Inr v0" for u i vs v0
    using that new_content_kind by (fastforce simp: new_StreamView_def bindE_Inr_iff view_type_def)
  have snap: "kind_of_snapshot sn = Some (contentKind (sv_content v0))"
    if i: "exn_of (initialize E ck ev sn bs ps k ct ls b v0) = None" for ck ev sn bs ps k ct ls b v0
  proof -
    obtain mb0 where "exn_of (applySnapshot E mb0 sn ct b v0) = None"
      using i by (cases bs) (auto simp: initialize_def exn_of_and_then split: if_splits)
    then obtain sn' where "migrateSnapshot E sn = Inr sn'" "exn_of (content_applySnapshot E ct b (sn_content sn') (sv_content v0)) = None"
      by (auto simp: applySnapshot_def exn_of_and_then split: sum.splits if_splits)
    then show ?thesis using content_applySnapshot_kind migrateSnapshot_kind by metis
  qed
  have tv: "view_type v = view_type v0"
    unfolding assms(3) assms(2) by (induction calls rule: rev_induct) (simp_all add: type_stream_step type_initialize)
  obtain k where k: "view_type v0 = (streamId, userId, k)" "kind_of_id E streamId = Some k" using new[OF assms(1)] by blast
  have v: "sv_streamId v = streamId" "sv_userId v = userId" using tv k(1) by (simp_all add: view_type_def)
  have "view_type (st_of r) = (streamId, userId, k) \<and> (exn_of r = None \<longrightarrow> kind_of_snapshot snap' = Some k)"
  proof (cases "new_StreamView E userId streamId (views_of v views')")
    case (Inl e)
    then show ?thesis using tv k by (simp add: assms(4) stream_initialize_def v)
  next
    case (Inr v1)
    have v1: "view_type v1 = (streamId, userId, k)" using new[OF Inr] k(2) by auto
    then have "contentKind (sv_content v1) = k" by (simp add: view_type_def)
    then show ?thesis using v1 Inr snap by (simp add: assms(4) stream_initialize_def v type_initialize)
  qed
  moreover have "exn_of r0 = None \<Longrightarrow> kind_of_snapshot snap = Some k"
    using snap[of cookie es snap mbs pmbs n cts les em v0] k(1) by (simp add: assms(2) view_type_def)
  ultimately show ?thesis using assms(5) tv k by (auto simp: view_type_def)
qed

theorem stream_kind_fixed_witness:
  "let v = fold (\<lambda>x v. st_of (stream_step demo_externs x v))
       [SvAppend [demo_parsed ''h1'' user0 (PlChannel None), demo_parsed ''h2'' user0 (PlMedia None)] demo_cookie None]
       (st_of (initialize demo_externs demo_cookie [] demo_channel_snapshot [demo_miniblock 3] [] 0 None [] True
         (demo_new demo_views)))
   in kind_of_id demo_externs demo_channel_id = Some (contentKind (sv_content v)) \<and>
      kind_of_snapshot demo_channel_snapshot = kind_of_id demo_externs demo_channel_id"
  unfolding Let_def
  using stream_kind_fixed[OF demo_new_view[of demo_views] refl refl refl insertI1, where snap = demo_channel_snapshot]
    demo_initialize[of "[]" True demo_views]
  by blast

end
