(* ===== verification/Entitlement.thy ===== *)
theory Entitlement
  imports Utils
begin

section \<open>Entitlement rules\<close>

text \<open>
  \<open>packages/web3/src/space/entitlements/entitlement.ts\<close> and \<open>ConvertersEntitlements.ts\<close>: rule
  trees, their flat encoding for the contracts, their construction from a list of checks, and
  their evaluation.

  The ABI codecs of \<open>viem\<close> and \<open>ethers\<close>, \<open>isAddress\<close>, and the answers of the chains are the fields of
  \<open>chain_externs\<close>; a call that throws returns \<open>None\<close>. A promise that rejects is \<open>Inl\<close>. The two operands
  of a logical operation are evaluated concurrently and the one that settles first may interrupt the
  other: the argument \<open>leftFirst\<close> says for each node, named by its path from the root, whether its left
  operand settles first. \<open>Promise.any\<close> returns the first entitled wallet to answer, which \<open>x_pick\<close>
  selects. Whether the abort signal is already raised when the timers of the mock checks are started is
  the argument \<open>aborted\<close>; an abort after one operand has decided the result has no effect on it. Chain
  ids are below \<open>2 ^ 53\<close>, so \<open>Number(chainId)\<close> is exact.
\<close>

subsection \<open>Types\<close>

datatype OperationType = OpNONE | OpCHECK | OpLOGICAL | OpUNKNOWN nat

datatype CheckOperationType =
    CheckNONE | MOCK | ERC20 | ERC721 | ERC1155 | ISENTITLED | ETH_BALANCE | CheckUNKNOWN nat

datatype LogicalOperationType = LogicalNONE | LogicalAND | LogicalOR | LogicalUNKNOWN nat

definition checkOpString :: "CheckOperationType \<Rightarrow> string" where
  "checkOpString operation =
     (case operation of
        CheckNONE \<Rightarrow> ''NONE'' | MOCK \<Rightarrow> ''MOCK'' | ERC20 \<Rightarrow> ''ERC20'' | ERC721 \<Rightarrow> ''ERC721''
      | ERC1155 \<Rightarrow> ''ERC1155'' | ISENTITLED \<Rightarrow> ''ISENTITLED'' | ETH_BALANCE \<Rightarrow> ''ETH_BALANCE''
      | CheckUNKNOWN _ \<Rightarrow> ''UNKNOWN'')"

record ContractOperation =
  co_opType :: OperationType
  co_index :: nat

record ContractLogicalOperation =
  cl_logOpType :: LogicalOperationType
  cl_leftOperationIndex :: nat
  cl_rightOperationIndex :: nat

definition isContractLogicalOperation :: "ContractOperation \<Rightarrow> bool" where
  "isContractLogicalOperation operation \<longleftrightarrow> co_opType operation = OpLOGICAL"

record CheckOperation =
  ck1_opType :: CheckOperationType
  ck1_chainId :: int
  ck1_contractAddress :: string
  ck1_threshold :: int

record CheckOperationV2 =
  ck_checkType :: CheckOperationType
  ck_chainId :: int
  ck_contractAddress :: string
  ck_params :: string

text \<open>A child of a logical operation that was read from an index out of range is \<open>undefined\<close>.\<close>

datatype Operation =
    CheckOp CheckOperationV2
  | LogicalOp LogicalOperationType "Operation option" "Operation option"
  | NoOperation

record RuleData =
  rd1_operations :: "ContractOperation list"
  rd1_checkOperations :: "CheckOperation list"
  rd1_logicalOperations :: "ContractLogicalOperation list"

record RuleDataV2 =
  rd_operations :: "ContractOperation list"
  rd_checkOperations :: "CheckOperationV2 list"
  rd_logicalOperations :: "ContractLogicalOperation list"

definition NoopRuleData :: RuleDataV2 where
  "NoopRuleData = \<lparr>rd_operations = [], rd_checkOperations = [], rd_logicalOperations = []\<rparr>"

record XchainConfig =
  xc_supportedRpcUrls :: "(int, string) jsmap"
  xc_etherNativeNetworkIds :: "int list"
  xc_ethereumNetworkIds :: "int list"

record chain_externs =
  x_encodeThreshold :: "int \<Rightarrow> string option"
  x_decodeThreshold :: "string \<Rightarrow> int option"
  x_encodeERC1155 :: "int \<times> int \<Rightarrow> string option"
  x_decodeERC1155 :: "string \<Rightarrow> (int \<times> int) option"
  x_encodeRuleData :: "RuleData \<Rightarrow> string option"
  x_decodeRuleData :: "string \<Rightarrow> RuleData option"
  x_encodeRuleDataV2 :: "RuleDataV2 \<Rightarrow> string option"
  x_decodeRuleDataV2 :: "string \<Rightarrow> RuleDataV2 option"
  x_encodeUsers :: "string list \<Rightarrow> string option"
  x_decodeUsers :: "string \<Rightarrow> string list list option"
  x_validAddress :: "string \<Rightarrow> bool"
  x_ready :: "string \<Rightarrow> bool"
  x_balanceOf :: "string \<Rightarrow> string \<Rightarrow> string \<Rightarrow> int option"
  x_balanceOf1155 :: "string \<Rightarrow> string \<Rightarrow> string \<Rightarrow> int \<Rightarrow> int option"
  x_isEntitled :: "string \<Rightarrow> string \<Rightarrow> string \<Rightarrow> string \<Rightarrow> bool option"
  x_getBalance :: "string \<Rightarrow> string \<Rightarrow> int option"
  x_pick :: "string list \<Rightarrow> string"

definition zeroAddress :: string where
  "zeroAddress = ''0x0000000000000000000000000000000000000000''"

definition MOCK_ADDRESS :: string where
  "MOCK_ADDRESS = ''0xdeadbeefdeadbeefdeadbeefdeadbeefdeadbeef''"

definition isValidAddress :: "'a chain_externs_scheme \<Rightarrow> string \<Rightarrow> bool" where
  "isValidAddress X value \<longleftrightarrow> x_validAddress X value \<and> value \<noteq> zeroAddress"

subsection \<open>Codecs\<close>

definition encodeThresholdParams :: "'a chain_externs_scheme \<Rightarrow> int \<Rightarrow> exn + string" where
  "encodeThresholdParams X threshold =
     (if threshold < 0 then Inl JsError else of_option LibError (x_encodeThreshold X threshold))"

definition decodeThresholdParams :: "'a chain_externs_scheme \<Rightarrow> string \<Rightarrow> exn + int" where
  "decodeThresholdParams X params = of_option LibError (x_decodeThreshold X params)"

definition encodeERC1155Params :: "'a chain_externs_scheme \<Rightarrow> int \<Rightarrow> int \<Rightarrow> exn + string" where
  "encodeERC1155Params X threshold tokenId =
     (if threshold < 0 then Inl JsError
      else if tokenId < 0 then Inl JsError
      else of_option LibError (x_encodeERC1155 X (threshold, tokenId)))"

definition decodeERC1155Params :: "'a chain_externs_scheme \<Rightarrow> string \<Rightarrow> exn + int \<times> int" where
  "decodeERC1155Params X params = of_option LibError (x_decodeERC1155 X params)"

definition encodeRuleData :: "'a chain_externs_scheme \<Rightarrow> RuleData \<Rightarrow> exn + string" where
  "encodeRuleData X ruleData = of_option LibError (x_encodeRuleData X ruleData)"

definition decodeRuleData :: "'a chain_externs_scheme \<Rightarrow> string \<Rightarrow> exn + RuleData" where
  "decodeRuleData X entitlementData = of_option LibError (x_decodeRuleData X entitlementData)"

definition encodeRuleDataV2 :: "'a chain_externs_scheme \<Rightarrow> RuleDataV2 \<Rightarrow> exn + string" where
  "encodeRuleDataV2 X ruleData =
     (if rd_operations ruleData = [] then Inr ''0x'' else of_option LibError (x_encodeRuleDataV2 X ruleData))"

definition decodeRuleDataV2 :: "'a chain_externs_scheme \<Rightarrow> string \<Rightarrow> exn + RuleDataV2" where
  "decodeRuleDataV2 X entitlementData =
     (if entitlementData = ''0x'' then Inr NoopRuleData
      else of_option LibError (x_decodeRuleDataV2 X entitlementData))"

text \<open>The laws of the parameter codecs: what is encoded is decoded, for 256-bit numbers.\<close>

definition params_codec :: "'a chain_externs_scheme \<Rightarrow> bool" where
  "params_codec X \<longleftrightarrow>
     (\<forall>t. 0 \<le> t \<and> t < 2 ^ 256 \<longrightarrow>
        (\<exists>s. x_encodeThreshold X t = Some s \<and> x_decodeThreshold X s = Some t)) \<and>
     (\<forall>t i. 0 \<le> t \<and> t < 2 ^ 256 \<and> 0 \<le> i \<and> i < 2 ^ 256 \<longrightarrow>
        (\<exists>s. x_encodeERC1155 X (t, i) = Some s \<and> x_decodeERC1155 X s = Some (t, i)))"

subsection \<open>Trees and their flat form\<close>

text \<open>One iteration of \<open>postOrderArrayToTree\<close>; the head of the list is the top of the stack.\<close>

definition stack_op :: "Operation \<Rightarrow> Operation list \<Rightarrow> exn + Operation list" where
  "stack_op op stack =
     (case op of
        LogicalOp t _ _ \<Rightarrow>
          (case stack of
             right # left # rest \<Rightarrow> Inr (LogicalOp t (Some left) (Some right) # rest)
           | _ \<Rightarrow> Inl JsError)
      | _ \<Rightarrow> Inr (op # stack))"

definition postOrderArrayToTree :: "Operation list \<Rightarrow> exn + Operation" where
  "postOrderArrayToTree operations =
     bindE (foldE stack_op operations []) (\<lambda>stack.
     case stack of root # _ \<Rightarrow> Inr root | [] \<Rightarrow> Inl JsError)"

text \<open>\<open>a[i]\<close>: \<open>undefined\<close> out of range.\<close>

definition at :: "'x list \<Rightarrow> nat \<Rightarrow> 'x option" where
  "at xs i = (if i < length xs then Some (xs ! i) else None)"

definition decode_op :: "RuleDataV2 \<Rightarrow> ContractOperation \<Rightarrow> Operation list \<Rightarrow> exn + Operation list" where
  "decode_op data operation decodedOperations =
     (case co_opType operation of
        OpCHECK \<Rightarrow>
          bindE (of_option JsError (at (rd_checkOperations data) (co_index operation))) (\<lambda>check.
          Inr (decodedOperations @ [CheckOp check]))
      | OpLOGICAL \<Rightarrow>
          bindE (of_option JsError (at (rd_logicalOperations data) (co_index operation))) (\<lambda>logical.
          Inr (decodedOperations @ [LogicalOp (cl_logOpType logical)
            (at decodedOperations (cl_leftOperationIndex logical))
            (at decodedOperations (cl_rightOperationIndex logical))]))
      | OpNONE \<Rightarrow> Inr (decodedOperations @ [NoOperation])
      | OpUNKNOWN _ \<Rightarrow> Inl JsError)"

definition ruleDataToOperations :: "RuleDataV2 \<Rightarrow> exn + Operation list" where
  "ruleDataToOperations data = foldE (decode_op data) (rd_operations data) []"

definition push_check :: "CheckOperationV2 \<Rightarrow> RuleDataV2 \<Rightarrow> RuleDataV2" where
  "push_check c data =
     data\<lparr>rd_checkOperations := rd_checkOperations data @ [c],
          rd_operations := rd_operations data @
            [\<lparr>co_opType = OpCHECK, co_index = length (rd_checkOperations data)\<rparr>]\<rparr>"

definition push_logical :: "LogicalOperationType \<Rightarrow> nat \<Rightarrow> nat \<Rightarrow> RuleDataV2 \<Rightarrow> RuleDataV2" where
  "push_logical t left right data =
     data\<lparr>rd_logicalOperations := rd_logicalOperations data @
            [\<lparr>cl_logOpType = t, cl_leftOperationIndex = left, cl_rightOperationIndex = right\<rparr>],
          rd_operations := rd_operations data @
            [\<lparr>co_opType = OpLOGICAL, co_index = length (rd_logicalOperations data)\<rparr>]\<rparr>"

text \<open>An \<open>undefined\<close> child makes \<open>isLogicalOperation\<close> throw.\<close>

fun postOrderTraversal :: "Operation \<Rightarrow> RuleDataV2 \<Rightarrow> exn + RuleDataV2" where
  "postOrderTraversal (LogicalOp t (Some left) (Some right)) data =
     bindE (postOrderTraversal left data) (\<lambda>data1.
     bindE (postOrderTraversal right data1) (\<lambda>data2.
     Inr (push_logical t (length (rd_operations data1) - 1) (length (rd_operations data2) - 1) data2)))"
| "postOrderTraversal (LogicalOp t None right) data = Inl JsError"
| "postOrderTraversal (LogicalOp t (Some left) None) data =
     bindE (postOrderTraversal left data) (\<lambda>_. Inl JsError)"
| "postOrderTraversal (CheckOp c) data = Inr (push_check c data)"
| "postOrderTraversal NoOperation data = Inl JsError"

definition treeToRuleData :: "Operation \<Rightarrow> exn + RuleDataV2" where
  "treeToRuleData root = postOrderTraversal root NoopRuleData"

subsection \<open>Checks\<close>

text \<open>Balances of the wallets; a call that throws counts as 0.\<close>

definition entitled_by_balance :: "(string \<times> int) list \<Rightarrow> int \<Rightarrow> string" where
  "entitled_by_balance walletBalances threshold =
     (let walletsWithAsset = filter (\<lambda>b. snd b > 0) walletBalances;
          accumulatedBalance = sum_list (map snd walletsWithAsset)
      in if walletsWithAsset \<noteq> [] \<and> accumulatedBalance \<ge> threshold then fst (hd walletsWithAsset)
         else zeroAddress)"

definition or_zero :: "int option \<Rightarrow> int" where
  "or_zero b = (case b of Some n \<Rightarrow> n | None \<Rightarrow> 0)"

definition evaluateContractBalanceAcrossWallets ::
  "'a chain_externs_scheme \<Rightarrow> string \<Rightarrow> int \<Rightarrow> string \<Rightarrow> string list \<Rightarrow> string" where
  "evaluateContractBalanceAcrossWallets X contractAddress threshold provider linkedWallets =
     entitled_by_balance (map (\<lambda>w. (w, or_zero (x_balanceOf X provider contractAddress w))) linkedWallets) threshold"

definition evaluateERC721Operation ::
  "'a chain_externs_scheme \<Rightarrow> CheckOperationV2 \<Rightarrow> string \<Rightarrow> string list \<Rightarrow> exn + string" where
  "evaluateERC721Operation X operation provider linkedWallets =
     bindE (decodeThresholdParams X (ck_params operation)) (\<lambda>threshold.
     Inr (evaluateContractBalanceAcrossWallets X (ck_contractAddress operation) threshold provider linkedWallets))"

definition evaluateERC20Operation ::
  "'a chain_externs_scheme \<Rightarrow> CheckOperationV2 \<Rightarrow> string \<Rightarrow> string list \<Rightarrow> exn + string" where
  "evaluateERC20Operation X operation provider linkedWallets =
     bindE (decodeThresholdParams X (ck_params operation)) (\<lambda>threshold.
     Inr (evaluateContractBalanceAcrossWallets X (ck_contractAddress operation) threshold provider linkedWallets))"

definition evaluateERC1155Operation ::
  "'a chain_externs_scheme \<Rightarrow> CheckOperationV2 \<Rightarrow> string \<Rightarrow> string list \<Rightarrow> exn + string" where
  "evaluateERC1155Operation X operation provider linkedWallets =
     bindE (decodeERC1155Params X (ck_params operation)) (\<lambda>(threshold, tokenId).
     Inr (entitled_by_balance
       (map (\<lambda>w. (w, or_zero (x_balanceOf1155 X provider (ck_contractAddress operation) w tokenId))) linkedWallets)
       threshold))"

definition evaluateEthBalanceOperation ::
  "'a chain_externs_scheme \<Rightarrow> CheckOperationV2 \<Rightarrow> string list \<Rightarrow> string list \<Rightarrow> exn + string" where
  "evaluateEthBalanceOperation X operation providers linkedWallets =
     bindE (decodeThresholdParams X (ck_params operation)) (\<lambda>threshold.
     Inr (entitled_by_balance
       (concat (map (\<lambda>w. map (\<lambda>p. (w, or_zero (x_getBalance X p w))) providers) linkedWallets)) threshold))"

definition evaluateCrossChainEntitlementOperation ::
  "'a chain_externs_scheme \<Rightarrow> CheckOperationV2 \<Rightarrow> string \<Rightarrow> string list \<Rightarrow> exn + string" where
  "evaluateCrossChainEntitlementOperation X operation provider linkedWallets =
     (let entitled = filter (\<lambda>w. x_isEntitled X provider (ck_contractAddress operation) w (ck_params operation)
                                 = Some True) linkedWallets
      in Inr (if entitled = [] then zeroAddress else x_pick X entitled))"

definition evaluateMockOperation ::
  "'a chain_externs_scheme \<Rightarrow> bool \<Rightarrow> CheckOperationV2 \<Rightarrow> exn + string" where
  "evaluateMockOperation X aborted operation =
     bindE (decodeThresholdParams X (ck_params operation)) (\<lambda>delay.
     Inr (if aborted then zeroAddress else if ck_chainId operation = 1 then MOCK_ADDRESS else zeroAddress))"

definition findProviderFromChainId ::
  "'a chain_externs_scheme \<Rightarrow> XchainConfig \<Rightarrow> int \<Rightarrow> exn + string option" where
  "findProviderFromChainId X xchainConfig chainId =
     (case map_get (xc_supportedRpcUrls xchainConfig) chainId of
        None \<Rightarrow> Inr None
      | Some url \<Rightarrow> if x_ready X url then Inr (Some url) else Inl LibError)"

definition providers_of :: "'a chain_externs_scheme \<Rightarrow> XchainConfig \<Rightarrow> int list \<Rightarrow> exn + string list" where
  "providers_of X xchainConfig chainIds =
     (let urls = List.map_filter (map_get (xc_supportedRpcUrls xchainConfig)) chainIds
      in if list_all (x_ready X) urls then Inr urls else Inl LibError)"

definition findEtherChainProviders :: "'a chain_externs_scheme \<Rightarrow> XchainConfig \<Rightarrow> exn + string list" where
  "findEtherChainProviders X xchainConfig = providers_of X xchainConfig (xc_etherNativeNetworkIds xchainConfig)"

definition findEthereumProviders :: "'a chain_externs_scheme \<Rightarrow> XchainConfig \<Rightarrow> exn + string list" where
  "findEthereumProviders X xchainConfig = providers_of X xchainConfig (xc_ethereumNetworkIds xchainConfig)"

text \<open>The validation of a check operation before its evaluation.\<close>

definition validateCheckOperation :: "'a chain_externs_scheme \<Rightarrow> CheckOperationV2 \<Rightarrow> exn + unit" where
  "validateCheckOperation X operation =
     bindE (guardE (ck_checkType operation = ETH_BALANCE \<or> \<not> ck_chainId operation < 0) JsError) (\<lambda>_.
     bindE (guardE (ck_checkType operation = ETH_BALANCE \<or> ck_contractAddress operation \<noteq> zeroAddress) JsError) (\<lambda>_.
     if ck_checkType operation \<in> {ERC20, ERC721, ETH_BALANCE} then
       bindE (decodeThresholdParams X (ck_params operation)) (\<lambda>threshold.
       guardE (\<not> threshold \<le> 0) JsError)
     else if ck_checkType operation = ERC1155 then
       bindE (decodeERC1155Params X (ck_params operation)) (\<lambda>(threshold, tokenId).
       bindE (guardE (\<not> tokenId < 0) JsError) (\<lambda>_.
       guardE (\<not> threshold \<le> 0) JsError))
     else Inr ()))"

text \<open>Evaluate on the provider of the chain of the check; without a provider nobody is entitled.\<close>

definition on_provider ::
  "'a chain_externs_scheme \<Rightarrow> XchainConfig \<Rightarrow> int \<Rightarrow> (string \<Rightarrow> exn + string) \<Rightarrow> exn + string" where
  "on_provider X xchainConfig chainId f =
     bindE (findProviderFromChainId X xchainConfig chainId) (\<lambda>provider.
     case provider of None \<Rightarrow> Inr zeroAddress | Some url \<Rightarrow> f url)"

definition evaluateCheckOperation ::
  "'a chain_externs_scheme \<Rightarrow> bool \<Rightarrow> string list \<Rightarrow> XchainConfig \<Rightarrow> CheckOperationV2 \<Rightarrow> exn + string" where
  "evaluateCheckOperation X aborted linkedWallets xchainConfig operation =
     (case ck_checkType operation of
        MOCK \<Rightarrow> evaluateMockOperation X aborted operation
      | CheckNONE \<Rightarrow> Inl JsError
      | _ \<Rightarrow>
          bindE (validateCheckOperation X operation) (\<lambda>_.
          case ck_checkType operation of
            ISENTITLED \<Rightarrow> on_provider X xchainConfig (ck_chainId operation)
              (\<lambda>p. evaluateCrossChainEntitlementOperation X operation p linkedWallets)
          | ETH_BALANCE \<Rightarrow>
              bindE (findEtherChainProviders X xchainConfig) (\<lambda>providers.
              if providers = [] then Inr zeroAddress
              else evaluateEthBalanceOperation X operation providers linkedWallets)
          | ERC1155 \<Rightarrow> on_provider X xchainConfig (ck_chainId operation)
              (\<lambda>p. evaluateERC1155Operation X operation p linkedWallets)
          | ERC20 \<Rightarrow> on_provider X xchainConfig (ck_chainId operation)
              (\<lambda>p. evaluateERC20Operation X operation p linkedWallets)
          | ERC721 \<Rightarrow> on_provider X xchainConfig (ck_chainId operation)
              (\<lambda>p. evaluateERC721Operation X operation p linkedWallets)
          | _ \<Rightarrow> Inl JsError))"

subsection \<open>Evaluation of trees\<close>

text \<open>The results of the two operands of a logical operation. The operand that settles first decides
  alone when it rejects, or when it is false (AND) or true (OR); then the other is interrupted.\<close>

definition evaluateAndOperation ::
  "'a chain_externs_scheme \<Rightarrow> bool \<Rightarrow> exn + string \<Rightarrow> exn + string \<Rightarrow> exn + string" where
  "evaluateAndOperation X leftFirst left right =
     (let (first, second) = (if leftFirst then (left, right) else (right, left))
      in bindE first (\<lambda>a.
         if \<not> isValidAddress X a then Inr zeroAddress
         else bindE second (\<lambda>b. if isValidAddress X b then left else Inr zeroAddress)))"

definition evaluateOrOperation ::
  "'a chain_externs_scheme \<Rightarrow> bool \<Rightarrow> exn + string \<Rightarrow> exn + string \<Rightarrow> exn + string" where
  "evaluateOrOperation X leftFirst left right =
     (let (first, second) = (if leftFirst then (left, right) else (right, left))
      in bindE first (\<lambda>a.
         if isValidAddress X a then Inr a
         else bindE second (\<lambda>b. Inr (if isValidAddress X b then b else zeroAddress))))"

fun evaluateTree ::
  "'a chain_externs_scheme \<Rightarrow> bool \<Rightarrow> (bool list \<Rightarrow> bool) \<Rightarrow> string list \<Rightarrow> XchainConfig \<Rightarrow> bool list \<Rightarrow>
   Operation option \<Rightarrow> exn + string" where
  "evaluateTree X aborted leftFirst ws cfg path None = Inr zeroAddress"
| "evaluateTree X aborted leftFirst ws cfg path (Some (LogicalOp t left right)) =
     (if t = LogicalAND \<or> t = LogicalOR then
        if left = None \<or> right = None then Inr zeroAddress
        else (if t = LogicalAND then evaluateAndOperation X (leftFirst path)
              else evaluateOrOperation X (leftFirst path))
               (evaluateTree X aborted leftFirst ws cfg (True # path) left)
               (evaluateTree X aborted leftFirst ws cfg (False # path) right)
      else Inl JsError)"
| "evaluateTree X aborted leftFirst ws cfg path (Some (CheckOp c)) = evaluateCheckOperation X aborted ws cfg c"
| "evaluateTree X aborted leftFirst ws cfg path (Some NoOperation) = Inl JsError"

text \<open>\<open>controller.abort()\<close> is called before the evaluation is awaited, so the signal is raised as soon as
  the checks have been started.\<close>

definition evaluateOperationsForEntitledWallet ::
  "'a chain_externs_scheme \<Rightarrow> (bool list \<Rightarrow> bool) \<Rightarrow> Operation list \<Rightarrow> string list \<Rightarrow> XchainConfig \<Rightarrow> exn + string" where
  "evaluateOperationsForEntitledWallet X leftFirst operations linkedWallets xchainConfig =
     (if operations = [] then Inr zeroAddress
      else bindE (postOrderArrayToTree operations) (\<lambda>root.
           evaluateTree X True leftFirst linkedWallets xchainConfig [] (Some root)))"

subsection \<open>Rules from lists of checks\<close>

record DecodedCheckOperation =
  dc_type :: CheckOperationType
  dc_chainId :: "int option"
  dc_address :: "string option"
  dc_threshold :: "int option"
  dc_tokenId :: "int option"
  dc_byteEncodedParams :: "string option"

definition default :: "'x \<Rightarrow> 'x option \<Rightarrow> 'x" where
  "default d x = (case x of Some y \<Rightarrow> y | None \<Rightarrow> d)"

definition check_params :: "'a chain_externs_scheme \<Rightarrow> DecodedCheckOperation \<Rightarrow> exn + string" where
  "check_params X op =
     (case dc_type op of
        ERC20 \<Rightarrow> encodeThresholdParams X (default 1 (dc_threshold op))
      | ERC721 \<Rightarrow> encodeThresholdParams X (default 1 (dc_threshold op))
      | ETH_BALANCE \<Rightarrow> encodeThresholdParams X (default 0 (dc_threshold op))
      | ERC1155 \<Rightarrow> encodeERC1155Params X (default 1 (dc_threshold op)) (default 0 (dc_tokenId op))
      | ISENTITLED \<Rightarrow> Inr (default ''0x'' (dc_byteEncodedParams op))
      | _ \<Rightarrow> Inr ''0x'')"

definition encode_check :: "'a chain_externs_scheme \<Rightarrow> DecodedCheckOperation \<Rightarrow> exn + CheckOperationV2" where
  "encode_check X op =
     bindE (check_params X op) (\<lambda>params.
     Inr \<lparr>ck_checkType = dc_type op, ck_chainId = default 1 (dc_chainId op),
          ck_contractAddress = default zeroAddress (dc_address op), ck_params = params\<rparr>)"

text \<open>One round of the loop joins neighbours; an odd one out goes to the next level.\<close>

fun pair_level :: "LogicalOperationType \<Rightarrow> Operation list \<Rightarrow> Operation list" where
  "pair_level logicalOp (left # right # operations) =
     LogicalOp logicalOp (Some left) (Some right) # pair_level logicalOp operations"
| "pair_level logicalOp operations = operations"

lemma length_pair_level [termination_simp]: "length (pair_level t ops) = (length ops + 1) div 2"
  by (induction t ops rule: pair_level.induct) auto

fun pair_all :: "LogicalOperationType \<Rightarrow> Operation list \<Rightarrow> Operation list" where
  "pair_all logicalOp operations =
     (if length operations > 1 then pair_all logicalOp (pair_level logicalOp operations) else operations)"

declare pair_all.simps [simp del]

definition createOperationsTree ::
  "'a chain_externs_scheme \<Rightarrow> DecodedCheckOperation list \<Rightarrow> LogicalOperationType \<Rightarrow> exn + RuleDataV2" where
  "createOperationsTree X checkOp logicalOp =
     (if checkOp = [] then
        Inr \<lparr>rd_operations = [\<lparr>co_opType = OpNONE, co_index = 0\<rparr>], rd_checkOperations = [],
             rd_logicalOperations = []\<rparr>
      else bindE (mapE (encode_check X) checkOp) (\<lambda>checks.
           treeToRuleData (hd (pair_all logicalOp (map CheckOp checks)))))"

text \<open>\<open>createExternalTokenStruct\<close> and \<open>createExternalNFTStruct\<close>: the chain id and the type default to the
  given values. The threshold is encoded into a field that \<open>createOperationsTree\<close> does not read.\<close>

definition externalStruct ::
  "'a chain_externs_scheme \<Rightarrow> int \<Rightarrow> CheckOperationType \<Rightarrow> string list \<Rightarrow> int option \<Rightarrow> CheckOperationType option \<Rightarrow>
   int option \<Rightarrow> LogicalOperationType option \<Rightarrow> exn + RuleDataV2" where
  "externalStruct X defaultChain defaultType addresses chainId type threshold logicalOp =
     (if addresses = [] then Inr NoopRuleData
      else bindE (mapE (\<lambda>address. bindE (encodeThresholdParams X (default 1 threshold)) (\<lambda>_.
             Inr \<lparr>dc_type = default defaultType type, dc_chainId = Some (default defaultChain chainId),
                  dc_address = Some address, dc_threshold = None, dc_tokenId = None,
                  dc_byteEncodedParams = None\<rparr>)) addresses) (\<lambda>checks.
           createOperationsTree X checks (default LogicalOR logicalOp)))"

definition createExternalTokenStruct ::
  "'a chain_externs_scheme \<Rightarrow> string list \<Rightarrow> int option \<Rightarrow> CheckOperationType option \<Rightarrow> int option \<Rightarrow>
   LogicalOperationType option \<Rightarrow> exn + RuleDataV2" where
  "createExternalTokenStruct X = externalStruct X 1 ERC20"

definition createExternalNFTStruct ::
  "'a chain_externs_scheme \<Rightarrow> string list \<Rightarrow> int option \<Rightarrow> CheckOperationType option \<Rightarrow> int option \<Rightarrow>
   LogicalOperationType option \<Rightarrow> exn + RuleDataV2" where
  "createExternalNFTStruct X = externalStruct X 31337 ERC721"

definition decode_check :: "'a chain_externs_scheme \<Rightarrow> CheckOperationV2 \<Rightarrow> exn + DecodedCheckOperation list" where
  "decode_check X operation =
     (let op = \<lparr>dc_type = ck_checkType operation, dc_chainId = Some (ck_chainId operation),
                dc_address = Some (ck_contractAddress operation), dc_threshold = None, dc_tokenId = None,
                dc_byteEncodedParams = None\<rparr>
      in if ck_checkType operation = ERC1155 then
           bindE (decodeERC1155Params X (ck_params operation)) (\<lambda>(threshold, tokenId).
           Inr [op\<lparr>dc_threshold := Some threshold, dc_tokenId := Some tokenId\<rparr>])
         else if ck_checkType operation \<in> {ERC20, ERC721, ETH_BALANCE} then
           bindE (decodeThresholdParams X (ck_params operation)) (\<lambda>threshold.
           Inr [op\<lparr>dc_threshold := Some threshold\<rparr>])
         else if ck_checkType operation = ISENTITLED then
           Inr [op\<lparr>dc_byteEncodedParams := Some (ck_params operation)\<rparr>]
         else Inr [])"

definition createDecodedCheckOperationFromTree ::
  "'a chain_externs_scheme \<Rightarrow> RuleDataV2 \<Rightarrow> exn + DecodedCheckOperation list" where
  "createDecodedCheckOperationFromTree X entitlementData =
     bindE (ruleDataToOperations entitlementData) (\<lambda>operations.
     bindE (mapE (\<lambda>operation. case operation of CheckOp c \<Rightarrow> decode_check X c | _ \<Rightarrow> Inr []) operations)
       (\<lambda>subsets. Inr (concat subsets)))"

subsection \<open>The builder of checks\<close>

record CheckBuilder =
  cb_type :: "CheckOperationType option"
  cb_chainId :: "int option"
  cb_threshold :: "int option"
  cb_address :: "string option"
  cb_tokenId :: "int option"
  cb_byteEncodedParams :: "string option"

definition newBuilder :: CheckBuilder where
  "newBuilder = \<lparr>cb_type = None, cb_chainId = None, cb_threshold = None, cb_address = None, cb_tokenId = None,
     cb_byteEncodedParams = None\<rparr>"

definition setType :: "CheckOperationType \<Rightarrow> CheckBuilder \<Rightarrow> CheckBuilder" where
  "setType checkOpType b = b\<lparr>cb_type := Some checkOpType\<rparr>"

definition setChainId :: "int \<Rightarrow> CheckBuilder \<Rightarrow> CheckBuilder" where
  "setChainId chainId b = b\<lparr>cb_chainId := Some chainId\<rparr>"

definition setThreshold :: "int \<Rightarrow> CheckBuilder \<Rightarrow> CheckBuilder" where
  "setThreshold threshold b = b\<lparr>cb_threshold := Some threshold\<rparr>"

definition setAddress :: "string \<Rightarrow> CheckBuilder \<Rightarrow> CheckBuilder" where
  "setAddress address b = b\<lparr>cb_address := Some address\<rparr>"

definition setTokenId :: "int \<Rightarrow> CheckBuilder \<Rightarrow> CheckBuilder" where
  "setTokenId tokenId b = b\<lparr>cb_tokenId := Some tokenId\<rparr>"

definition setByteEncodedParams :: "string \<Rightarrow> CheckBuilder \<Rightarrow> CheckBuilder" where
  "setByteEncodedParams params b = b\<lparr>cb_byteEncodedParams := Some params\<rparr>"

definition build :: "CheckBuilder \<Rightarrow> exn + DecodedCheckOperation" where
  "build b =
     bindE (of_option JsError (cb_type b)) (\<lambda>type.
     bindE (guardE (type \<in> {ERC1155, ERC20, ERC721, ISENTITLED} \<longrightarrow> cb_chainId b \<noteq> None) JsError) (\<lambda>_.
     bindE (guardE (type \<in> {ERC1155, ERC20, ERC721, ISENTITLED} \<longrightarrow> cb_address b \<noteq> None) JsError) (\<lambda>_.
     bindE (guardE (type \<in> {ERC1155, ETH_BALANCE, ERC20, ERC721} \<longrightarrow> cb_threshold b \<noteq> None) JsError) (\<lambda>_.
     bindE (guardE (type = ERC1155 \<longrightarrow> cb_tokenId b \<noteq> None) JsError) (\<lambda>_.
     bindE (guardE (type = ISENTITLED \<longrightarrow> cb_byteEncodedParams b \<noteq> None) JsError) (\<lambda>_.
     let op = \<lparr>dc_type = type, dc_chainId = cb_chainId b, dc_address = cb_address b, dc_threshold = None,
               dc_tokenId = None, dc_byteEncodedParams = None\<rparr>
     in case type of
          ERC20 \<Rightarrow> Inr (op\<lparr>dc_threshold := cb_threshold b\<rparr>)
        | ERC721 \<Rightarrow> Inr (op\<lparr>dc_threshold := cb_threshold b\<rparr>)
        | ERC1155 \<Rightarrow> Inr (op\<lparr>dc_threshold := cb_threshold b, dc_tokenId := cb_tokenId b\<rparr>)
        | ETH_BALANCE \<Rightarrow>
            Inr (op\<lparr>dc_chainId := None, dc_address := None, dc_threshold := cb_threshold b\<rparr>)
        | ISENTITLED \<Rightarrow> Inr (op\<lparr>dc_byteEncodedParams := cb_byteEncodedParams b\<rparr>)
        | _ \<Rightarrow> Inl JsError))))))"

subsection \<open>ConvertersEntitlements.ts\<close>

datatype EntitlementModuleType = UserEntitlementModule | RuleEntitlementModule | RuleEntitlementV2Module

record EntitlementStruct =
  es_module :: string
  es_data :: string

definition encodeUsers :: "'a chain_externs_scheme \<Rightarrow> string list \<Rightarrow> exn + string" where
  "encodeUsers X users = of_option LibError (x_encodeUsers X users)"

definition decodeUsers :: "'a chain_externs_scheme \<Rightarrow> string \<Rightarrow> exn + string list" where
  "decodeUsers X encodedData =
     bindE (of_option LibError (x_decodeUsers X encodedData)) (\<lambda>decodedData.
     Inr (case decodedData of [] \<Rightarrow> [] | u # _ \<Rightarrow> u))"

definition createUserEntitlementStruct ::
  "'a chain_externs_scheme \<Rightarrow> string \<Rightarrow> string list \<Rightarrow> exn + EntitlementStruct" where
  "createUserEntitlementStruct X moduleAddress users =
     bindE (encodeUsers X users) (\<lambda>data. Inr \<lparr>es_module = moduleAddress, es_data = data\<rparr>)"

definition createRuleEntitlementStruct ::
  "'a chain_externs_scheme \<Rightarrow> string \<Rightarrow> RuleData \<Rightarrow> exn + EntitlementStruct" where
  "createRuleEntitlementStruct X moduleAddress ruleData =
     bindE (encodeRuleData X ruleData) (\<lambda>data. Inr \<lparr>es_module = moduleAddress, es_data = data\<rparr>)"

definition createRuleEntitlementV2Struct ::
  "'a chain_externs_scheme \<Rightarrow> string \<Rightarrow> RuleDataV2 \<Rightarrow> exn + EntitlementStruct" where
  "createRuleEntitlementV2Struct X moduleAddress ruleData =
     bindE (encodeRuleDataV2 X ruleData) (\<lambda>data. Inr \<lparr>es_module = moduleAddress, es_data = data\<rparr>)"

definition check_v1_to_v2 :: "'a chain_externs_scheme \<Rightarrow> CheckOperation \<Rightarrow> exn + CheckOperationV2" where
  "check_v1_to_v2 X op =
     (let result = \<lambda>params. \<lparr>ck_checkType = ck1_opType op, ck_chainId = ck1_chainId op,
            ck_contractAddress = ck1_contractAddress op, ck_params = params\<rparr>
      in if ck1_opType op \<in> {MOCK, ERC20, ERC721, ETH_BALANCE} then
           bindE (encodeThresholdParams X (ck1_threshold op)) (\<lambda>params. Inr (result params))
         else if ck1_opType op = ISENTITLED then Inr (result ''0x'')
         else Inl JsError)"

definition convertRuleDataV1ToV2 :: "'a chain_externs_scheme \<Rightarrow> RuleData \<Rightarrow> exn + RuleDataV2" where
  "convertRuleDataV1ToV2 X ruleData =
     bindE (mapE (check_v1_to_v2 X) (rd1_checkOperations ruleData)) (\<lambda>checkOperations.
     Inr \<lparr>rd_operations = rd1_operations ruleData, rd_checkOperations = checkOperations,
          rd_logicalOperations = rd1_logicalOperations ruleData\<rparr>)"

definition check_v2_to_v1 :: "'a chain_externs_scheme \<Rightarrow> CheckOperationV2 \<Rightarrow> exn + CheckOperation" where
  "check_v2_to_v1 X op =
     (let result = \<lambda>threshold. \<lparr>ck1_opType = ck_checkType op, ck1_chainId = ck_chainId op,
            ck1_contractAddress = ck_contractAddress op, ck1_threshold = threshold\<rparr>
      in if ck_checkType op \<in> {MOCK, ERC20, ERC721, ETH_BALANCE} then
           bindE (decodeThresholdParams X (ck_params op)) (\<lambda>threshold. Inr (result threshold))
         else if ck_checkType op = ISENTITLED then Inr (result 0)
         else Inl JsError)"

definition convertRuleDataV2ToV1 :: "'a chain_externs_scheme \<Rightarrow> RuleDataV2 \<Rightarrow> exn + RuleData" where
  "convertRuleDataV2ToV1 X ruleData =
     bindE (mapE (check_v2_to_v1 X) (rd_checkOperations ruleData)) (\<lambda>checkOperations.
     Inr \<lparr>rd1_operations = rd_operations ruleData, rd1_checkOperations = checkOperations,
          rd1_logicalOperations = rd_logicalOperations ruleData\<rparr>)"

text \<open>The address of the last module of a type; an empty address counts as missing.\<close>

definition module_address ::
  "EntitlementModuleType \<Rightarrow> (EntitlementModuleType \<times> string) list \<Rightarrow> exn + string" where
  "module_address type modules =
     of_option JsError (truthy_str (map_option snd (find (\<lambda>m. fst m = type) (rev modules))))"

definition entitlement_structs ::
  "'a chain_externs_scheme \<Rightarrow> EntitlementModuleType \<Rightarrow> (EntitlementModuleType \<times> string) list \<Rightarrow> string list \<Rightarrow> bool \<Rightarrow>
   (string \<Rightarrow> exn + EntitlementStruct) \<Rightarrow> exn + EntitlementStruct list" where
  "entitlement_structs X ruleType modules users hasRules ruleStruct =
     bindE (module_address UserEntitlementModule modules) (\<lambda>userEntitlementAddress.
     bindE (module_address ruleType modules) (\<lambda>ruleEntitlementAddress.
     bindE (if users \<noteq> [] then bindE (createUserEntitlementStruct X userEntitlementAddress users) (\<lambda>e. Inr [e])
            else Inr []) (\<lambda>userEntitlements.
     bindE (if hasRules then bindE (ruleStruct ruleEntitlementAddress) (\<lambda>e. Inr [e]) else Inr [])
       (\<lambda>ruleEntitlements. Inr (userEntitlements @ ruleEntitlements)))))"

definition createLegacyEntitlementStruct ::
  "'a chain_externs_scheme \<Rightarrow> (EntitlementModuleType \<times> string) list \<Rightarrow> string list \<Rightarrow> RuleData \<Rightarrow>
   exn + EntitlementStruct list" where
  "createLegacyEntitlementStruct X modules users ruleData =
     entitlement_structs X RuleEntitlementModule modules users (rd1_operations ruleData \<noteq> [])
       (\<lambda>address. createRuleEntitlementStruct X address ruleData)"

definition createEntitlementStruct ::
  "'a chain_externs_scheme \<Rightarrow> (EntitlementModuleType \<times> string) list \<Rightarrow> string list \<Rightarrow> RuleDataV2 \<Rightarrow>
   exn + EntitlementStruct list" where
  "createEntitlementStruct X modules users ruleData =
     entitlement_structs X RuleEntitlementV2Module modules users (rd_operations ruleData \<noteq> [])
       (\<lambda>address. createRuleEntitlementV2Struct X address ruleData)"

subsection \<open>The flat form of a tree\<close>

fun wf_tree :: "Operation \<Rightarrow> bool" where
  "wf_tree (CheckOp c) = True"
| "wf_tree (LogicalOp t (Some left) (Some right)) =
     ((t = LogicalAND \<or> t = LogicalOR) \<and> wf_tree left \<and> wf_tree right)"
| "wf_tree op = False"

text \<open>The operations below a tree in post-order; the last one is the tree itself.\<close>

fun post :: "Operation \<Rightarrow> Operation list" where
  "post (LogicalOp t (Some left) (Some right)) =
     post left @ post right @ [LogicalOp t (Some left) (Some right)]"
| "post op = [op]"

fun checks_of :: "Operation \<Rightarrow> CheckOperationV2 list" where
  "checks_of (CheckOp c) = [c]"
| "checks_of (LogicalOp t (Some left) (Some right)) = checks_of left @ checks_of right"
| "checks_of op = []"

lemma post_last: "\<exists>xs. post op = xs @ [op]"
  by (cases op rule: post.cases) auto

lemma stack_post: "wf_tree op \<Longrightarrow> foldE stack_op (post op) stack = Inr (op # stack)"
  by (induction op arbitrary: stack rule: wf_tree.induct) (auto simp: foldE_append stack_op_def)

definition extended ::
  "RuleDataV2 \<Rightarrow> ContractOperation list \<Rightarrow> CheckOperationV2 list \<Rightarrow> ContractLogicalOperation list \<Rightarrow> RuleDataV2" where
  "extended d os cs ls = \<lparr>rd_operations = rd_operations d @ os, rd_checkOperations = rd_checkOperations d @ cs,
     rd_logicalOperations = rd_logicalOperations d @ ls\<rparr>"

lemma extended_sels [simp]:
  "rd_operations (extended d os cs ls) = rd_operations d @ os"
  "rd_checkOperations (extended d os cs ls) = rd_checkOperations d @ cs"
  "rd_logicalOperations (extended d os cs ls) = rd_logicalOperations d @ ls"
  by (simp_all add: extended_def)

lemma extended_extended [simp]: "extended (extended d a b c) a' b' c' = extended d (a @ a') (b @ b') (c @ c')"
  by (simp add: extended_def)

lemma push_extended:
  "push_check c d = extended d [\<lparr>co_opType = OpCHECK, co_index = length (rd_checkOperations d)\<rparr>] [c] []"
  "push_logical t l r d = extended d [\<lparr>co_opType = OpLOGICAL, co_index = length (rd_logicalOperations d)\<rparr>] []
     [\<lparr>cl_logOpType = t, cl_leftOperationIndex = l, cl_rightOperationIndex = r\<rparr>]"
  by (simp_all add: push_check_def push_logical_def extended_def)

lemma at_append [simp]: "at (xs @ x # ys) (length xs) = Some x"
  by (simp add: at_def)

text \<open>What is appended for a tree decodes to its post-order list, wherever its arrays end up in.\<close>

definition decodes ::
  "RuleDataV2 \<Rightarrow> ContractOperation list \<Rightarrow> CheckOperationV2 list \<Rightarrow> ContractLogicalOperation list \<Rightarrow> Operation \<Rightarrow> bool" where
  "decodes d os cs ls op \<longleftrightarrow>
     (\<forall>(data :: RuleDataV2) cs' ls' acc.
        rd_checkOperations data = rd_checkOperations d @ cs @ cs' \<longrightarrow>
        rd_logicalOperations data = rd_logicalOperations d @ ls @ ls' \<longrightarrow>
        length acc = length (rd_operations d) \<longrightarrow> foldE (decode_op data) os acc = Inr (acc @ post op))"

lemma decodesD:
  fixes data :: RuleDataV2
  assumes "decodes d os cs ls op" "rd_checkOperations data = rd_checkOperations d @ cs @ cs'"
    "rd_logicalOperations data = rd_logicalOperations d @ ls @ ls'" "length acc = length (rd_operations d)"
  shows "foldE (decode_op data) os acc = Inr (acc @ post op)"
  using assms unfolding decodes_def by blast

lemma decodes_logical:
  assumes "decodes d os1 cs1 ls1 left" "length os1 = length (post left)"
    "decodes (extended d os1 cs1 ls1) os2 cs2 ls2 right" "length os2 = length (post right)"
  shows "decodes d
    (os1 @ os2 @ [\<lparr>co_opType = OpLOGICAL, co_index = length (rd_logicalOperations d) + length ls1 + length ls2\<rparr>])
    (cs1 @ cs2)
    (ls1 @ ls2 @ [\<lparr>cl_logOpType = t, cl_leftOperationIndex = length (rd_operations d) + length os1 - 1,
       cl_rightOperationIndex = length (rd_operations d) + length os1 + length os2 - 1\<rparr>])
    (LogicalOp t (Some left) (Some right))"
  unfolding decodes_def
proof (intro allI impI)
  fix data :: RuleDataV2 and cs' ls' and acc :: "Operation list"
  let ?l = "\<lparr>cl_logOpType = t, cl_leftOperationIndex = length (rd_operations d) + length os1 - 1,
     cl_rightOperationIndex = length (rd_operations d) + length os1 + length os2 - 1\<rparr>"
  assume c: "rd_checkOperations data = rd_checkOperations d @ (cs1 @ cs2) @ cs'"
    and l: "rd_logicalOperations data = rd_logicalOperations d @ (ls1 @ ls2 @ [?l]) @ ls'"
    and a: "length acc = length (rd_operations d)"
  obtain xs where xs: "post left = xs @ [left]" using post_last by blast
  obtain ys where ys: "post right = ys @ [right]" using post_last by blast
  have 1: "foldE (decode_op data) os1 acc = Inr (acc @ post left)"
    by (rule decodesD[OF assms(1)]) (use c l a in auto)
  have 2: "foldE (decode_op data) os2 (acc @ post left) = Inr ((acc @ post left) @ post right)"
    by (rule decodesD[OF assms(3)]) (use c l a assms(2) in auto)
  have "at (rd_logicalOperations data) (length (rd_logicalOperations d) + length ls1 + length ls2) = Some ?l"
    using at_append[of "rd_logicalOperations d @ ls1 @ ls2" ?l ls'] l by (simp add: add.assoc)
  moreover have "at (acc @ post left @ post right) (length (rd_operations d) + length os1 - 1) = Some left"
    using at_append[of "acc @ xs" left "post right"] a assms(2) xs by simp
  moreover have "at (acc @ post left @ post right) (length (rd_operations d) + length os1 + length os2 - 1) = Some right"
    using at_append[of "acc @ post left @ ys" right "[]"] a assms(2,4) ys by (simp add: add.assoc)
  ultimately show "foldE (decode_op data) (os1 @ os2 @ [\<lparr>co_opType = OpLOGICAL,
      co_index = length (rd_logicalOperations d) + length ls1 + length ls2\<rparr>]) acc =
      Inr (acc @ post (LogicalOp t (Some left) (Some right)))"
    by (simp add: foldE_append 1 2 decode_op_def)
qed

lemma traversal_decodes:
  assumes "wf_tree op"
  shows "\<exists>os cs ls. postOrderTraversal op d = Inr (extended d os cs ls) \<and> length os = length (post op)
    \<and> decodes d os cs ls op \<and> cs = checks_of op"
  using assms
proof (induction op arbitrary: d rule: wf_tree.induct)
  case (1 c)
  have "decodes d [\<lparr>co_opType = OpCHECK, co_index = length (rd_checkOperations d)\<rparr>] [c] [] (CheckOp c)"
    unfolding decodes_def by (auto simp: decode_op_def)
  then show ?case
    by (intro exI[of _ "[\<lparr>co_opType = OpCHECK, co_index = length (rd_checkOperations d)\<rparr>]"] exI[of _ "[c]"]
        exI[of _ "[]"]) (simp add: push_extended)
next
  case (2 t left right)
  have wf: "wf_tree left" "wf_tree right" using 2(3) by auto
  obtain os1 ls1 where L: "postOrderTraversal left d = Inr (extended d os1 (checks_of left) ls1)"
    "length os1 = length (post left)" "decodes d os1 (checks_of left) ls1 left"
    using 2(1)[OF wf(1), of d] by blast
  obtain os2 ls2 where R: "postOrderTraversal right (extended d os1 (checks_of left) ls1) =
      Inr (extended (extended d os1 (checks_of left) ls1) os2 (checks_of right) ls2)"
    "length os2 = length (post right)" "decodes (extended d os1 (checks_of left) ls1) os2 (checks_of right) ls2 right"
    using 2(2)[OF wf(2), of "extended d os1 (checks_of left) ls1"] by blast
  note D = decodes_logical[OF L(3,2) R(3,2), of t]
  have "postOrderTraversal (LogicalOp t (Some left) (Some right)) d = Inr (extended d
    (os1 @ os2 @ [\<lparr>co_opType = OpLOGICAL, co_index = length (rd_logicalOperations d) + length ls1 + length ls2\<rparr>])
    (checks_of left @ checks_of right)
    (ls1 @ ls2 @ [\<lparr>cl_logOpType = t, cl_leftOperationIndex = length (rd_operations d) + length os1 - 1,
       cl_rightOperationIndex = length (rd_operations d) + length os1 + length os2 - 1\<rparr>]))"
    using L(1) R(1) by (simp add: push_extended add.assoc)
  with D L(2) R(2) show ?case by (intro exI conjI) auto
qed auto

lemma operations_of_tree:
  assumes "wf_tree op"
  obtains data where "treeToRuleData op = Inr data" "ruleDataToOperations data = Inr (post op)"
    "rd_checkOperations data = checks_of op"
proof -
  obtain os cs ls where t: "postOrderTraversal op NoopRuleData = Inr (extended NoopRuleData os cs ls)"
    "decodes NoopRuleData os cs ls op" "cs = checks_of op"
    using traversal_decodes[OF assms, of NoopRuleData] by blast
  have "foldE (decode_op (extended NoopRuleData os cs ls)) os [] = Inr ([] @ post op)"
    by (rule decodesD[OF t(2), where cs' = "[]" and ls' = "[]"]) (auto simp: NoopRuleData_def)
  with t that[of "extended NoopRuleData os cs ls"] show thesis
    by (simp add: treeToRuleData_def ruleDataToOperations_def NoopRuleData_def)
qed

lemma tree_of_post: "wf_tree op \<Longrightarrow> postOrderArrayToTree (post op) = Inr op"
  by (simp add: postOrderArrayToTree_def stack_post)

text \<open>
  C29. A rule tree survives its flat encoding: for every tree of checks and AND/OR operations,
  \<open>treeToRuleData\<close> gives rule data, \<open>ruleDataToOperations\<close> reads its operations, and \<open>postOrderArrayToTree\<close>
  rebuilds the tree.\<close>

theorem rule_data_roundtrip:
  assumes "wf_tree tree"
  shows "\<exists>data operations. treeToRuleData tree = Inr data \<and> ruleDataToOperations data = Inr operations
    \<and> postOrderArrayToTree operations = Inr tree"
  using operations_of_tree[OF assms] tree_of_post[OF assms] by metis

definition demo_check :: "CheckOperationType \<Rightarrow> int \<Rightarrow> CheckOperationV2" where
  "demo_check t chain = \<lparr>ck_checkType = t, ck_chainId = chain, ck_contractAddress = ''0xc0'', ck_params = ''5''\<rparr>"

definition demo_tree :: Operation where
  "demo_tree = LogicalOp LogicalOR
     (Some (LogicalOp LogicalAND (Some (CheckOp (demo_check ERC20 1))) (Some (CheckOp (demo_check ERC721 10)))))
     (Some (CheckOp (demo_check ISENTITLED 1)))"

theorem rule_data_roundtrip_witness:
  "\<exists>data operations. treeToRuleData demo_tree = Inr data \<and> ruleDataToOperations data = Inr operations
    \<and> postOrderArrayToTree operations = Inr demo_tree"
  by (rule rule_data_roundtrip) (simp add: demo_tree_def)

subsection \<open>Evaluation under every schedule\<close>

definition check_holds ::
  "'a chain_externs_scheme \<Rightarrow> bool \<Rightarrow> string list \<Rightarrow> XchainConfig \<Rightarrow> CheckOperationV2 \<Rightarrow> bool" where
  "check_holds X aborted ws cfg c \<longleftrightarrow>
     (case evaluateCheckOperation X aborted ws cfg c of Inr w \<Rightarrow> isValidAddress X w | Inl _ \<Rightarrow> False)"

text \<open>The Boolean meaning of a tree, from the truth of its checks.\<close>

fun holds :: "(CheckOperationV2 \<Rightarrow> bool) \<Rightarrow> Operation \<Rightarrow> bool" where
  "holds P (CheckOp c) = P c"
| "holds P (LogicalOp t (Some left) (Some right)) =
     (if t = LogicalAND then holds P left \<and> holds P right else holds P left \<or> holds P right)"
| "holds P op = False"

lemma zero_not_valid [simp]: "\<not> isValidAddress X zeroAddress"
  by (simp add: isValidAddress_def)

lemma and_valid:
  "evaluateAndOperation X f (Inr l) (Inr r) = Inr w \<Longrightarrow> isValidAddress X w \<longleftrightarrow> isValidAddress X l \<and> isValidAddress X r"
  "\<exists>w. evaluateAndOperation X f (Inr l) (Inr r) = Inr w"
  by (auto simp: evaluateAndOperation_def split: if_splits)

lemma or_valid:
  "evaluateOrOperation X f (Inr l) (Inr r) = Inr w \<Longrightarrow> isValidAddress X w \<longleftrightarrow> isValidAddress X l \<or> isValidAddress X r"
  "\<exists>w. evaluateOrOperation X f (Inr l) (Inr r) = Inr w"
  by (auto simp: evaluateOrOperation_def split: if_splits)

lemma and_sound:
  assumes "evaluateAndOperation X f l r = Inr w" "isValidAddress X w"
  shows "\<exists>a b. l = Inr a \<and> r = Inr b \<and> isValidAddress X a \<and> isValidAddress X b"
  using assms by (cases f) (auto simp: evaluateAndOperation_def bindE_Inr_iff split: if_splits)

lemma or_sound:
  assumes "evaluateOrOperation X f l r = Inr w" "isValidAddress X w"
  shows "(\<exists>a. l = Inr a \<and> isValidAddress X a) \<or> (\<exists>b. r = Inr b \<and> isValidAddress X b)"
  using assms by (cases f) (auto simp: evaluateOrOperation_def bindE_Inr_iff split: if_splits)

lemma evaluation_total:
  assumes "wf_tree op" "\<forall>c \<in> set (checks_of op). \<not> isl (evaluateCheckOperation X ab ws cfg c)"
  shows "\<exists>w. evaluateTree X ab leftFirst ws cfg path (Some op) = Inr w
    \<and> (isValidAddress X w \<longleftrightarrow> holds (check_holds X ab ws cfg) op)"
  using assms
proof (induction op arbitrary: path rule: wf_tree.induct)
  case (1 c)
  then show ?case by (cases "evaluateCheckOperation X ab ws cfg c") (auto simp: check_holds_def)
next
  case (2 t left right)
  obtain l where l: "evaluateTree X ab leftFirst ws cfg (True # path) (Some left) = Inr l"
    "isValidAddress X l \<longleftrightarrow> holds (check_holds X ab ws cfg) left" using 2 by force
  obtain r where r: "evaluateTree X ab leftFirst ws cfg (False # path) (Some right) = Inr r"
    "isValidAddress X r \<longleftrightarrow> holds (check_holds X ab ws cfg) right" using 2 by force
  show ?case
  proof (cases "t = LogicalAND")
    case True
    then show ?thesis using and_valid[of X "leftFirst path" l r] l r by auto
  next
    case False
    then have "t = LogicalOR" using 2(3) by simp
    then show ?thesis using or_valid[of X "leftFirst path" l r] l r by auto
  qed
qed auto

lemma evaluation_sound:
  assumes "wf_tree op" "evaluateTree X ab leftFirst ws cfg path (Some op) = Inr w" "isValidAddress X w"
  shows "holds (check_holds X ab ws cfg) op"
  using assms
proof (induction op arbitrary: path w rule: wf_tree.induct)
  case (1 c)
  then show ?case by (simp add: check_holds_def)
next
  case (2 t left right)
  show ?case
  proof (cases "t = LogicalAND")
    case True
    with 2(4) have "evaluateAndOperation X (leftFirst path)
        (evaluateTree X ab leftFirst ws cfg (True # path) (Some left))
        (evaluateTree X ab leftFirst ws cfg (False # path) (Some right)) = Inr w" by simp
    from and_sound[OF this 2(5)] 2(1,2,3) True show ?thesis by auto
  next
    case False
    then have t: "t = LogicalOR" using 2(3) by simp
    with 2(4) have "evaluateOrOperation X (leftFirst path)
        (evaluateTree X ab leftFirst ws cfg (True # path) (Some left))
        (evaluateTree X ab leftFirst ws cfg (False # path) (Some right)) = Inr w" by simp
    from or_sound[OF this 2(5)] 2(1,2,3) t show ?thesis by auto
  qed
qed auto

text \<open>
  C19. The concurrent evaluation of a rule computes its Boolean meaning, whichever operand settles first
  at each node. When no check rejects, the evaluation returns a wallet, and the zero address otherwise,
  exactly according to the truth of the checks; and even when checks reject, an entitled wallet is
  returned only if the rule holds with the rejecting checks counted as false.\<close>

theorem evaluation_schedule_independent:
  assumes "wf_tree tree"
  shows "((\<forall>c \<in> set (checks_of tree). \<not> isl (evaluateCheckOperation X aborted wallets config c)) \<longrightarrow>
      (\<exists>w. evaluateTree X aborted leftFirst wallets config [] (Some tree) = Inr w
        \<and> (isValidAddress X w \<longleftrightarrow> holds (check_holds X aborted wallets config) tree)))
    \<and> (\<forall>w. evaluateTree X aborted leftFirst wallets config [] (Some tree) = Inr w \<and> isValidAddress X w \<longrightarrow>
      holds (check_holds X aborted wallets config) tree)"
  using evaluation_total[OF assms] evaluation_sound[OF assms] by blast

text \<open>A chain on which \<open>''w2''\<close> holds 7 of every token, for the examples. Numbers are encoded in unary.\<close>

definition unary :: "int \<Rightarrow> string" where
  "unary n = replicate (nat n) (CHR ''1'')"

definition demo_chain :: chain_externs where
  "demo_chain = \<lparr>x_encodeThreshold = (\<lambda>t. Some (unary t)), x_decodeThreshold = (\<lambda>s. Some (int (length s))),
     x_encodeERC1155 = (\<lambda>(t, i). Some (unary t @ CHR ''2'' # unary i)),
     x_decodeERC1155 = (\<lambda>s. Some (int (length (takeWhile (\<lambda>c. c = CHR ''1'') s)),
       int (length (dropWhile (\<lambda>c. c = CHR ''1'') s) - 1))),
     x_encodeRuleData = (\<lambda>_. None), x_decodeRuleData = (\<lambda>_. None),
     x_encodeRuleDataV2 = (\<lambda>_. None), x_decodeRuleDataV2 = (\<lambda>_. None),
     x_encodeUsers = (\<lambda>_. None), x_decodeUsers = (\<lambda>_. None),
     x_validAddress = (\<lambda>a. a \<noteq> []), x_ready = (\<lambda>_. True),
     x_balanceOf = (\<lambda>_ _ w. Some (if w = ''w2'' then 7 else 0)), x_balanceOf1155 = (\<lambda>_ _ _ _. None),
     x_isEntitled = (\<lambda>_ _ _ _. Some False), x_getBalance = (\<lambda>_ _. None), x_pick = hd\<rparr>"

lemma demo_chain_codec: "params_codec demo_chain"
proof -
  have "takeWhile (\<lambda>c. c = CHR ''1'') (unary t @ CHR ''2'' # xs) = unary t"
    "dropWhile (\<lambda>c. c = CHR ''1'') (unary t @ CHR ''2'' # xs) = CHR ''2'' # xs" for t xs
    by (simp_all add: unary_def takeWhile_append dropWhile_append)
  then show ?thesis by (auto simp: params_codec_def demo_chain_def) (auto simp: unary_def)
qed

definition demo_config :: XchainConfig where
  "demo_config = \<lparr>xc_supportedRpcUrls = [(1, ''url1''), (10, ''url10'')], xc_etherNativeNetworkIds = [1],
     xc_ethereumNetworkIds = [1]\<rparr>"

lemmas check_evaluation = evaluateCheckOperation_def validateCheckOperation_def decodeThresholdParams_def
  on_provider_def findProviderFromChainId_def evaluateERC20Operation_def evaluateERC721Operation_def
  evaluateContractBalanceAcrossWallets_def evaluateCrossChainEntitlementOperation_def entitled_by_balance_def
  or_zero_def zeroAddress_def demo_chain_def demo_config_def demo_check_def

theorem evaluation_schedule_independent_witness:
  "\<exists>w. evaluateTree demo_chain False (\<lambda>_. False) [''w1'', ''w2''] demo_config [] (Some demo_tree) = Inr w
     \<and> (isValidAddress demo_chain w \<longleftrightarrow> holds (check_holds demo_chain False [''w1'', ''w2''] demo_config) demo_tree)"
proof -
  have "wf_tree demo_tree" by (simp add: demo_tree_def)
  moreover have "\<forall>c \<in> set (checks_of demo_tree).
      \<not> isl (evaluateCheckOperation demo_chain False [''w1'', ''w2''] demo_config c)"
    by (simp add: demo_tree_def check_evaluation)
  ultimately show ?thesis
    using evaluation_schedule_independent[of demo_tree demo_chain False "[''w1'', ''w2'']" demo_config "\<lambda>_. False"]
    by blast
qed

subsection \<open>Rules made from lists of checks\<close>

lemma pair_level_checks: "concat (map checks_of (pair_level t ops)) = concat (map checks_of ops)"
  by (induction t ops rule: pair_level.induct) auto

lemma pair_level_wf:
  "t = LogicalAND \<or> t = LogicalOR \<Longrightarrow> list_all wf_tree (pair_level t ops) = list_all wf_tree ops"
  by (induction t ops rule: pair_level.induct) auto

lemma pair_level_or: "list_ex (holds P) (pair_level LogicalOR ops) = list_ex (holds P) ops"
  by (induction LogicalOR ops rule: pair_level.induct) auto

lemma pair_level_and: "list_all (holds P) (pair_level LogicalAND ops) = list_all (holds P) ops"
  by (induction LogicalAND ops rule: pair_level.induct) auto

text \<open>The loop of \<open>createOperationsTree\<close> ends with one tree.\<close>

lemma pair_all_single: "ops \<noteq> [] \<Longrightarrow> \<exists>op. pair_all t ops = [op]"
proof (induction t ops rule: pair_all.induct)
  case (1 t ops)
  show ?case
  proof (cases "length ops > 1")
    case True
    then have "pair_level t ops \<noteq> []" by (cases "(t, ops)" rule: pair_level.cases) auto
    from 1(1)[OF True this] True show ?thesis by (simp add: pair_all.simps[of t ops])
  next
    case False
    then have "pair_all t ops = ops" by (simp add: pair_all.simps[of t ops])
    moreover obtain op where "ops = [op]" using False 1(2) by (cases ops) auto
    ultimately show ?thesis by blast
  qed
qed

lemma pair_all_invariant:
  assumes "\<And>ops. f (pair_level t ops) = f ops"
  shows "f (pair_all t ops) = f ops"
proof (induction "length ops" arbitrary: ops rule: less_induct)
  case less
  show ?case
  proof (cases "length ops > 1")
    case True
    then have "length (pair_level t ops) < length ops" by (simp add: length_pair_level)
    from less[OF this] True show ?thesis by (simp add: pair_all.simps[of t ops] assms)
  next
    case False
    then show ?thesis by (simp add: pair_all.simps[of t ops])
  qed
qed

lemma paired_tree:
  assumes "checks \<noteq> []" "t = LogicalAND \<or> t = LogicalOR"
  obtains op where "pair_all t (map CheckOp checks) = [op]" "wf_tree op" "checks_of op = checks"
    "holds P op \<longleftrightarrow> (if t = LogicalAND then list_all P checks else list_ex P checks)"
proof -
  let ?ops = "map CheckOp checks"
  obtain op where op: "pair_all t ?ops = [op]" using pair_all_single[of ?ops t] assms(1) by auto
  have "wf_tree op"
    using pair_all_invariant[of "list_all wf_tree" t ?ops, OF pair_level_wf[OF assms(2)]] op
    by (simp add: list_all_iff)
  moreover have "checks_of op = checks"
    using pair_all_invariant[of "\<lambda>ops. concat (map checks_of ops)" t ?ops] op
    by (simp add: pair_level_checks comp_def)
  moreover have "holds P op \<longleftrightarrow> (if t = LogicalAND then list_all P checks else list_ex P checks)"
    using pair_all_invariant[of "list_all (holds P)" LogicalAND ?ops, OF pair_level_and]
      pair_all_invariant[of "list_ex (holds P)" LogicalOR ?ops, OF pair_level_or] assms(2) op
    by (auto simp: list_all_iff list_ex_iff)
  ultimately show thesis by (rule that[OF op])
qed

lemma mapE_nonempty: "mapE f xs = Inr ys \<Longrightarrow> xs \<noteq> [] \<Longrightarrow> ys \<noteq> []"
  by (auto simp: mapE_Inr_iff)

lemma post_nonempty: "post op \<noteq> []"
  using post_last[of op] by auto

text \<open>
  C28. A rule made from a list of checks means what it says. For a non-empty list of checks whose
  parameters can be encoded, \<open>createOperationsTree\<close> terminates with rule data; when no check rejects,
  evaluating the rule data returns an entitled wallet exactly if some check holds (OR) or all checks
  hold (AND), under every schedule.\<close>

theorem operations_tree_meaning:
  assumes "checkOps \<noteq> []" "logicalOp = LogicalAND \<or> logicalOp = LogicalOR"
    "mapE (encode_check X) checkOps = Inr checks"
    "\<forall>c \<in> set checks. \<not> isl (evaluateCheckOperation X True wallets config c)"
  shows "\<exists>data operations w. createOperationsTree X checkOps logicalOp = Inr data
    \<and> ruleDataToOperations data = Inr operations
    \<and> evaluateOperationsForEntitledWallet X leftFirst operations wallets config = Inr w
    \<and> (isValidAddress X w \<longleftrightarrow>
         (if logicalOp = LogicalAND then \<forall>c \<in> set checks. check_holds X True wallets config c
          else \<exists>c \<in> set checks. check_holds X True wallets config c))"
proof -
  let ?P = "check_holds X True wallets config"
  obtain op where op: "pair_all logicalOp (map CheckOp checks) = [op]" "wf_tree op" "checks_of op = checks"
    "holds ?P op \<longleftrightarrow> (if logicalOp = LogicalAND then list_all ?P checks else list_ex ?P checks)"
    using paired_tree[OF mapE_nonempty[OF assms(3,1)] assms(2), of ?P] by blast
  obtain data where data: "treeToRuleData op = Inr data" "ruleDataToOperations data = Inr (post op)"
    using operations_of_tree[OF op(2)] by blast
  obtain w where w: "evaluateTree X True leftFirst wallets config [] (Some op) = Inr w"
    "isValidAddress X w \<longleftrightarrow> holds ?P op"
    using evaluation_total[OF op(2), of X True wallets config leftFirst "[]"] assms(4) op(3) by auto
  have "createOperationsTree X checkOps logicalOp = Inr data"
    using assms(1,3) op(1) data(1) by (simp add: createOperationsTree_def)
  moreover have "evaluateOperationsForEntitledWallet X leftFirst (post op) wallets config = Inr w"
    by (simp add: evaluateOperationsForEntitledWallet_def post_nonempty tree_of_post[OF op(2)] w(1))
  ultimately show ?thesis
    using data(2) w(2) op(4) by (auto simp: list_all_iff list_ex_iff)
qed

lemma createOperationsTree_checks:
  assumes "checkOps \<noteq> []" "logicalOp = LogicalAND \<or> logicalOp = LogicalOR"
    "createOperationsTree X checkOps logicalOp = Inr data"
  shows "mapE (encode_check X) checkOps = Inr (rd_checkOperations data)
    \<and> (\<exists>op. ruleDataToOperations data = Inr (post op) \<and> wf_tree op \<and> checks_of op = rd_checkOperations data)"
proof -
  from assms(1,3) obtain checks where ch: "mapE (encode_check X) checkOps = Inr checks"
    "treeToRuleData (hd (pair_all logicalOp (map CheckOp checks))) = Inr data"
    by (auto simp: createOperationsTree_def bindE_Inr_iff)
  obtain op where op: "pair_all logicalOp (map CheckOp checks) = [op]" "wf_tree op" "checks_of op = checks"
    using paired_tree[OF mapE_nonempty[OF ch(1) assms(1)] assms(2)] by blast
  obtain data' where "treeToRuleData op = Inr data'" "ruleDataToOperations data' = Inr (post op)"
    "rd_checkOperations data' = checks_of op"
    using operations_of_tree[OF op(2)] by blast
  with ch op show ?thesis by auto
qed

definition demo_token :: "string \<Rightarrow> int \<Rightarrow> DecodedCheckOperation" where
  "demo_token address threshold = \<lparr>dc_type = ERC20, dc_chainId = Some 1, dc_address = Some address,
     dc_threshold = Some threshold, dc_tokenId = None, dc_byteEncodedParams = None\<rparr>"

theorem operations_tree_meaning_witness:
  "\<exists>data operations w. createOperationsTree demo_chain [demo_token ''a'' 3, demo_token ''b'' 9] LogicalOR = Inr data
    \<and> ruleDataToOperations data = Inr operations
    \<and> evaluateOperationsForEntitledWallet demo_chain (\<lambda>_. True) operations [''w1'', ''w2''] demo_config = Inr w
    \<and> isValidAddress demo_chain w"
proof -
  define checks where "checks = map (\<lambda>(a, t). \<lparr>ck_checkType = ERC20, ck_chainId = 1, ck_contractAddress = a,
    ck_params = unary t\<rparr>) [(''a'', 3), (''b'', 9)]"
  have "mapE (encode_check demo_chain) [demo_token ''a'' 3, demo_token ''b'' 9] = Inr checks"
    by (simp add: encode_check_def check_params_def encodeThresholdParams_def demo_token_def default_def demo_chain_def
        checks_def)
  moreover have "\<forall>c \<in> set checks. \<not> isl (evaluateCheckOperation demo_chain True [''w1'', ''w2''] demo_config c)"
    "\<exists>c \<in> set checks. check_holds demo_chain True [''w1'', ''w2''] demo_config c"
    by (simp_all add: checks_def check_holds_def isValidAddress_def unary_def check_evaluation)
  ultimately show ?thesis
    using operations_tree_meaning[of "[demo_token ''a'' 3, demo_token ''b'' 9]" LogicalOR demo_chain checks
        "[''w1'', ''w2'']" demo_config "\<lambda>_. True"] by simp
qed

text \<open>Reading the checks of a rule back.\<close>

definition with_defaults :: "DecodedCheckOperation \<Rightarrow> DecodedCheckOperation" where
  "with_defaults op =
     op\<lparr>dc_chainId := Some (default 1 (dc_chainId op)), dc_address := Some (default zeroAddress (dc_address op))\<rparr>"

definition word256 :: "int option \<Rightarrow> bool" where
  "word256 n \<longleftrightarrow> (case n of Some k \<Rightarrow> 0 \<le> k \<and> k < 2 ^ 256 | None \<Rightarrow> True)"

definition built :: "DecodedCheckOperation \<Rightarrow> bool" where
  "built op \<longleftrightarrow>
     (if dc_type op = ERC1155 then dc_threshold op \<noteq> None \<and> dc_tokenId op \<noteq> None \<and> dc_byteEncodedParams op = None
      else if dc_type op = ISENTITLED then
        dc_threshold op = None \<and> dc_tokenId op = None \<and> dc_byteEncodedParams op \<noteq> None
      else dc_type op \<in> {ERC20, ERC721, ETH_BALANCE} \<and> dc_threshold op \<noteq> None \<and> dc_tokenId op = None
        \<and> dc_byteEncodedParams op = None)"

lemma build_built:
  assumes "build b = Inr op"
  shows "built op"
proof -
  obtain type where t: "cb_type b = Some type"
    using assms by (cases "cb_type b") (auto simp: build_def)
  show ?thesis
    using assms t by (cases type) (auto simp: build_def built_def guardE_def split: if_splits)
qed

lemma params_codec_threshold:
  "params_codec X \<Longrightarrow> 0 \<le> k \<Longrightarrow> k < 2 ^ 256 \<Longrightarrow>
   \<exists>s. encodeThresholdParams X k = Inr s \<and> decodeThresholdParams X s = Inr k"
  by (fastforce simp: params_codec_def encodeThresholdParams_def decodeThresholdParams_def)

lemma params_codec_ERC1155:
  "params_codec X \<Longrightarrow> 0 \<le> k \<Longrightarrow> k < 2 ^ 256 \<Longrightarrow> 0 \<le> i \<Longrightarrow> i < 2 ^ 256 \<Longrightarrow>
   \<exists>s. encodeERC1155Params X k i = Inr s \<and> decodeERC1155Params X s = Inr (k, i)"
  by (fastforce simp: params_codec_def encodeERC1155Params_def decodeERC1155Params_def)

lemma encode_decode_check:
  assumes "params_codec X" "built op" "word256 (dc_threshold op)" "word256 (dc_tokenId op)"
  shows "\<exists>c. encode_check X op = Inr c \<and> decode_check X c = Inr [with_defaults op]"
proof (cases "dc_type op")
  case ERC1155
  with assms(2) obtain k i where "dc_threshold op = Some k" "dc_tokenId op = Some i" "dc_byteEncodedParams op = None"
    by (auto simp: built_def)
  with assms(3,4) params_codec_ERC1155[OF assms(1), of k i] ERC1155 show ?thesis
    by (auto simp: word256_def encode_check_def check_params_def decode_check_def with_defaults_def default_def Let_def)
next
  case ISENTITLED
  with assms(2) show ?thesis
    by (auto simp: built_def encode_check_def check_params_def decode_check_def with_defaults_def default_def Let_def)
next
  case ERC20
  with assms(2) obtain k where "dc_threshold op = Some k" "dc_tokenId op = None" "dc_byteEncodedParams op = None"
    by (auto simp: built_def)
  with assms(3) params_codec_threshold[OF assms(1), of k] ERC20 show ?thesis
    by (auto simp: word256_def encode_check_def check_params_def decode_check_def with_defaults_def default_def Let_def)
next
  case ERC721
  with assms(2) obtain k where "dc_threshold op = Some k" "dc_tokenId op = None" "dc_byteEncodedParams op = None"
    by (auto simp: built_def)
  with assms(3) params_codec_threshold[OF assms(1), of k] ERC721 show ?thesis
    by (auto simp: word256_def encode_check_def check_params_def decode_check_def with_defaults_def default_def Let_def)
next
  case ETH_BALANCE
  with assms(2) obtain k where "dc_threshold op = Some k" "dc_tokenId op = None" "dc_byteEncodedParams op = None"
    by (auto simp: built_def)
  with assms(3) params_codec_threshold[OF assms(1), of k] ETH_BALANCE show ?thesis
    by (auto simp: word256_def encode_check_def check_params_def decode_check_def with_defaults_def default_def Let_def)
qed (use assms(2) in \<open>simp_all add: built_def\<close>)

lemma decode_post:
  assumes "wf_tree op" "mapE (decode_check X) (checks_of op) = Inr dss"
  shows "\<exists>subsets. mapE (\<lambda>operation. case operation of CheckOp c \<Rightarrow> decode_check X c | _ \<Rightarrow> Inr []) (post op) = Inr subsets
    \<and> concat subsets = concat dss"
  using assms
proof (induction op arbitrary: dss rule: wf_tree.induct)
  case (2 t left right)
  from 2(4) obtain ds1 ds2 where "mapE (decode_check X) (checks_of left) = Inr ds1"
    "mapE (decode_check X) (checks_of right) = Inr ds2" "dss = ds1 @ ds2"
    by (auto simp: mapE_append bindE_Inr_iff)
  with 2(1)[of ds1] 2(2)[of ds2] 2(3) show ?case
    by (auto simp: mapE_append)
qed auto

lemma mapE_compose:
  assumes "\<forall>x \<in> set xs. \<exists>y. f x = Inr y \<and> g y = Inr [h x]"
  shows "\<exists>ys. mapE f xs = Inr ys \<and> mapE g ys = Inr (map (\<lambda>x. [h x]) xs)"
  using assms by (induction xs) auto

text \<open>The checks a rule was made of are read back from it, in order, with the defaults filled in.\<close>

lemma checks_read_back:
  assumes "params_codec X" "checkOps \<noteq> []" "logicalOp = LogicalAND \<or> logicalOp = LogicalOR"
    "\<forall>op \<in> set checkOps. built op \<and> word256 (dc_threshold op) \<and> word256 (dc_tokenId op)"
  shows "\<exists>data. createOperationsTree X checkOps logicalOp = Inr data
    \<and> createDecodedCheckOperationFromTree X data = Inr (map with_defaults checkOps)"
proof -
  obtain checks where ch: "mapE (encode_check X) checkOps = Inr checks"
    "mapE (decode_check X) checks = Inr (map (\<lambda>op. [with_defaults op]) checkOps)"
    using mapE_compose[of checkOps "encode_check X" "decode_check X" with_defaults]
      encode_decode_check[OF assms(1)] assms(4) by blast
  obtain op where op: "pair_all logicalOp (map CheckOp checks) = [op]" "wf_tree op" "checks_of op = checks"
    using paired_tree[OF mapE_nonempty[OF ch(1) assms(2)] assms(3)] by blast
  obtain data where data: "treeToRuleData op = Inr data" "ruleDataToOperations data = Inr (post op)"
    using operations_of_tree[OF op(2)] by blast
  have "createOperationsTree X checkOps logicalOp = Inr data"
    using assms(2) ch(1) op(1) data(1) by (simp add: createOperationsTree_def)
  moreover have "createDecodedCheckOperationFromTree X data = Inr (map with_defaults checkOps)"
    using decode_post[OF op(2), of X] ch(2) data(2) op(3)
    by (fastforce simp: createDecodedCheckOperationFromTree_def)
  ultimately show ?thesis by blast
qed

text \<open>A rule of V1 converted to V2 and back is the same, except for the threshold of an \<open>ISENTITLED\<close> check,
  which V2 does not keep.\<close>

lemma rule_v1_v2_roundtrip:
  assumes "params_codec X" "convertRuleDataV1ToV2 X r = Inr v"
    "\<forall>op \<in> set (rd1_checkOperations r). word256 (Some (ck1_threshold op))
       \<and> (ck1_opType op = ISENTITLED \<longrightarrow> ck1_threshold op = 0)"
  shows "convertRuleDataV2ToV1 X v = Inr r"
proof -
  from assms(2) obtain cs where cs: "mapE (check_v1_to_v2 X) (rd1_checkOperations r) = Inr cs"
    "v = \<lparr>rd_operations = rd1_operations r, rd_checkOperations = cs, rd_logicalOperations = rd1_logicalOperations r\<rparr>"
    by (auto simp: convertRuleDataV1ToV2_def bindE_Inr_iff)
  have "check_v2_to_v1 X c = Inr op"
    if "check_v1_to_v2 X op = Inr c" "op \<in> set (rd1_checkOperations r)" for op c
  proof -
    have "word256 (Some (ck1_threshold op))" using assms(3) that(2) by blast
    then obtain s where "encodeThresholdParams X (ck1_threshold op) = Inr s"
      "decodeThresholdParams X s = Inr (ck1_threshold op)"
      using params_codec_threshold[OF assms(1)] by (auto simp: word256_def)
    then show ?thesis
      using that assms(3) by (auto simp: check_v1_to_v2_def check_v2_to_v1_def Let_def split: if_splits)
  qed
  with cs(1) have "mapE (check_v2_to_v1 X) cs = Inr (rd1_checkOperations r)"
    by (auto simp: mapE_Inr_iff)
  with cs(2) show ?thesis by (simp add: convertRuleDataV2ToV1_def)
qed

text \<open>The threshold given to \<open>createExternalTokenStruct\<close> (and to \<open>createExternalNFTStruct\<close>, with its other defaults)
  is ignored: it is encoded into a field \<open>params\<close> that \<open>createOperationsTree\<close> does not read, so any two
  thresholds give the same rule, and each of its ERC20 checks asks for a balance of 1.\<close>

theorem external_threshold_ignored:
  assumes "params_codec X" "word256 threshold" "word256 threshold'"
  shows "createExternalTokenStruct X addresses chainId type threshold logicalOp =
      createExternalTokenStruct X addresses chainId type threshold' logicalOp
    \<and> (\<forall>data. createExternalTokenStruct X addresses chainId None threshold (Some LogicalOR) = Inr data \<longrightarrow>
         (\<forall>c \<in> set (rd_checkOperations data). decodeThresholdParams X (ck_params c) = Inr 1))"
proof -
  have m: "externalStruct X 1 ERC20 addresses chainId ty t lo =
      (if addresses = [] then Inr NoopRuleData
       else createOperationsTree X (map (\<lambda>a. \<lparr>dc_type = default ERC20 ty, dc_chainId = Some (default 1 chainId),
         dc_address = Some a, dc_threshold = None, dc_tokenId = None, dc_byteEncodedParams = None\<rparr>) addresses)
         (default LogicalOR lo))" if "word256 t" for ty t lo
  proof -
    have "0 \<le> default 1 t \<and> default 1 t < 2 ^ 256" using that by (cases t) (simp_all add: word256_def default_def)
    then obtain s where "encodeThresholdParams X (default 1 t) = Inr s"
      using params_codec_threshold[OF assms(1), of "default 1 t"] by blast
    then have "mapE (\<lambda>a. bindE (encodeThresholdParams X (default 1 t)) (\<lambda>_. Inr (f a))) as = Inr (map f as)"
      for f :: "string \<Rightarrow> DecodedCheckOperation" and as by (induction as) simp_all
    then show ?thesis by (simp add: externalStruct_def)
  qed
  have "decodeThresholdParams X (ck_params c) = Inr 1"
    if d: "createExternalTokenStruct X addresses chainId None threshold (Some LogicalOR) = Inr data"
      and c: "c \<in> set (rd_checkOperations data)" for data c
  proof (cases "addresses = []")
    case True
    with d c show ?thesis by (auto simp: createExternalTokenStruct_def externalStruct_def NoopRuleData_def)
  next
    case False
    with d obtain checks where ch: "mapE (encode_check X) (map (\<lambda>a. \<lparr>dc_type = ERC20, dc_chainId = Some (default 1 chainId),
         dc_address = Some a, dc_threshold = None, dc_tokenId = None, dc_byteEncodedParams = None\<rparr>) addresses) = Inr checks"
      "rd_checkOperations data = checks"
      using createOperationsTree_checks[of _ LogicalOR X data]
      by (auto simp: createExternalTokenStruct_def m[OF assms(2)] default_def)
    with c obtain a where "encode_check X \<lparr>dc_type = ERC20, dc_chainId = Some (default 1 chainId),
         dc_address = Some a, dc_threshold = None, dc_tokenId = None, dc_byteEncodedParams = None\<rparr> = Inr c"
      by (auto simp: mapE_Inr_iff in_set_conv_nth)
    with params_codec_threshold[OF assms(1), of 1] show ?thesis
      by (auto simp: encode_check_def check_params_def default_def)
  qed
  then show ?thesis by (simp add: createExternalTokenStruct_def m[OF assms(2)] m[OF assms(3)])
qed

theorem external_threshold_ignored_witness:
  "createExternalTokenStruct demo_chain [''a''] None None (Some 100) None =
   createExternalTokenStruct demo_chain [''a''] None None (Some 1) None"
  using external_threshold_ignored[OF demo_chain_codec, of "Some 100" "Some 1" "[''a'']" None None None]
  by (simp add: word256_def)

end
