(* ===== verification/Caches.thy ===== *)
theory Caches
  imports Utils
begin

text \<open>
  The caches of the web3 package: \<open>packages/web3/src/cache\<close> (\<open>Keyable.ts\<close>, \<open>EntitlementCache.ts\<close>,
  \<open>SimpleCache.ts\<close>).

  The TTL cache they are built on is a library; it is a record of operations \<open>ttl\<close>, and \<open>ttl_laws\<close> states what
  its documentation promises: a value that was set is returned until it is deleted, expires or is evicted.

  Methods that await are functions of a state that return a result or an exception and the state they leave
  (type \<open>io\<close>). The class \<open>SimpleCache\<close>, which merges concurrent fetches, is modelled twice: as such a
  function for callers that run alone, and as a step relation with any number of calls, fetches and
  invalidations interleaved.
\<close>

subsection \<open>Results of methods\<close>

type_synonym ('s, 'a) io = "'s \<Rightarrow> (exn + 'a) \<times> 's"

definition retS :: "'a \<Rightarrow> ('s, 'a) io" where
  "retS x s = (Inr x, s)"

definition liftS :: "exn + 'a \<Rightarrow> ('s, 'a) io" where
  "liftS r s = (r, s)"

definition bindS :: "('s, 'a) io \<Rightarrow> ('a \<Rightarrow> ('s, 'b) io) \<Rightarrow> ('s, 'b) io" where
  "bindS m f s = (case m s of (Inl e, s1) \<Rightarrow> (Inl e, s1) | (Inr x, s1) \<Rightarrow> f x s1)"

text \<open>The outcomes of promises that are all awaited, whether they reject or not.\<close>

fun settleS :: "('x \<Rightarrow> ('s, 'a) io) \<Rightarrow> 'x list \<Rightarrow> 's \<Rightarrow> (exn + 'a) list \<times> 's" where
  "settleS f [] s = ([], s)"
| "settleS f (x # xs) s = (let (r, s1) = f x s; (rs, s2) = settleS f xs s1 in (r # rs, s2))"

lemma io_simps [simp]:
  "retS x s = (Inr x, s)" "liftS r s = (r, s)" "bindS (retS x) f = f x" "bindS (liftS (Inr x)) f = f x"
  "bindS (liftS (Inl e)) f = liftS (Inl e)"
  by (auto simp: retS_def liftS_def bindS_def)

lemma bindS_apply:
  "m s = (Inr x, s1) \<Longrightarrow> bindS m f s = f x s1"
  "m s = (Inl e, s1) \<Longrightarrow> bindS m f s = (Inl e, s1)"
  by (simp_all add: bindS_def)

lemma length_settleS [simp]: "length (fst (settleS f xs s)) = length xs"
  by (induction xs arbitrary: s) (simp_all add: Let_def case_prod_beta)

subsection \<open>Keyable.ts\<close>

definition BannedTokenIdsRequest :: "string \<Rightarrow> string" where
  "BannedTokenIdsRequest spaceId = ''bannedTokenIds:'' @ spaceId"

definition OwnerOfTokenRequest :: "string \<Rightarrow> int \<Rightarrow> string" where
  "OwnerOfTokenRequest spaceId tokenId = ''ownerOfToken:'' @ spaceId @ '':'' @ int_toString tokenId"

definition IsTokenBanned :: "string \<Rightarrow> int \<Rightarrow> string" where
  "IsTokenBanned spaceId tokenId = ''isBanned:'' @ spaceId @ '':'' @ int_toString tokenId"

definition EntitlementRequest :: "string \<Rightarrow> string \<Rightarrow> string \<Rightarrow> string \<Rightarrow> string" where
  "EntitlementRequest spaceId channelId userId permission =
     ''{spaceId:'' @ spaceId @ '',channelId:'' @ channelId @ '',userId:'' @ userId @ '',permission:'' @ permission @ ''}''"

subsection \<open>The TTL cache\<close>

record ('c, 'v) ttl =
  t_get :: "'c \<Rightarrow> string \<Rightarrow> 'v option"
  t_set :: "string \<Rightarrow> 'v \<Rightarrow> 'c \<Rightarrow> 'c"
  t_delete :: "string \<Rightarrow> 'c \<Rightarrow> 'c"
  t_clear :: "'c \<Rightarrow> 'c"
  t_pass :: "nat \<Rightarrow> 'c \<Rightarrow> 'c"

definition ttl_laws :: "('c, 'v) ttl \<Rightarrow> bool" where
  "ttl_laws T \<longleftrightarrow>
     (\<forall>c k v. t_get T (t_set T k v c) k = Some v) \<and>
     (\<forall>c k k' v. k' \<noteq> k \<longrightarrow> t_get T (t_set T k v c) k' \<in> {None, t_get T c k'}) \<and>
     (\<forall>c k k'. t_get T (t_delete T k c) k' = (if k' = k then None else t_get T c k')) \<and>
     (\<forall>c k. t_get T (t_clear T c) k = None) \<and>
     (\<forall>n c k. t_get T (t_pass T n c) k \<in> {None, t_get T c k})"

lemma ttl_get_set [simp]: "ttl_laws T \<Longrightarrow> t_get T (t_set T k v c) k = Some v"
  unfolding ttl_laws_def by blast

lemma ttl_get_delete [simp]:
  "ttl_laws T \<Longrightarrow> t_get T (t_delete T k c) k' = (if k' = k then None else t_get T c k')"
  unfolding ttl_laws_def by blast

text \<open>An instance that never drops a value, for concrete runs.\<close>

definition demo_ttl :: "((string \<times> 'v) list, 'v) ttl" where
  "demo_ttl = \<lparr>t_get = map_get, t_set = (\<lambda>k v. map_set k v), t_delete = (\<lambda>k. map_delete k), t_clear = (\<lambda>_. []),
     t_pass = (\<lambda>_ c. c)\<rparr>"

lemma demo_ttl_laws: "ttl_laws demo_ttl"
  by (simp add: ttl_laws_def demo_ttl_def)

subsection \<open>EntitlementCache.ts\<close>

record 'v CacheResult =
  cr_value :: 'v
  cacheHit :: bool
  isPositive :: bool

record 'c EntitlementCache =
  negativeCache :: 'c
  positiveCache :: 'c

definition ec_invalidate :: "('c, 'v CacheResult) ttl \<Rightarrow> string \<Rightarrow> 'c EntitlementCache \<Rightarrow> 'c EntitlementCache" where
  "ec_invalidate T key ec =
     ec\<lparr>negativeCache := t_delete T key (negativeCache ec), positiveCache := t_delete T key (positiveCache ec)\<rparr>"

text \<open>The lookup of \<open>executeUsingCache\<close>; the object found is marked as a hit.\<close>

definition ec_lookup :: "('c, 'v CacheResult) ttl \<Rightarrow> string \<Rightarrow> 'c EntitlementCache \<Rightarrow> 'v CacheResult option" where
  "ec_lookup T key ec =
     (case t_get T (negativeCache ec) key of
        Some r \<Rightarrow> Some (r\<lparr>cacheHit := True\<rparr>)
      | None \<Rightarrow> map_option (\<lambda>r. r\<lparr>cacheHit := True\<rparr>) (t_get T (positiveCache ec) key))"

definition ec_store ::
  "('c, 'v CacheResult) ttl \<Rightarrow> string \<Rightarrow> 'v CacheResult \<Rightarrow> 'c EntitlementCache \<Rightarrow> 'c EntitlementCache" where
  "ec_store T key result ec =
     (if isPositive result then ec\<lparr>positiveCache := t_set T key result (positiveCache ec)\<rparr>
      else ec\<lparr>negativeCache := t_set T key result (negativeCache ec)\<rparr>)"

text \<open>\<open>executeUsingCache\<close> on a cache that is a field of a larger state; the fetch may change that state.\<close>

definition ec_executeUsingCache ::
  "('c, 'v CacheResult) ttl \<Rightarrow> ('s \<Rightarrow> 'c EntitlementCache) \<Rightarrow> (('c EntitlementCache \<Rightarrow> 'c EntitlementCache) \<Rightarrow> 's \<Rightarrow> 's) \<Rightarrow>
   string \<Rightarrow> ('s, 'v CacheResult) io \<Rightarrow> ('s, 'v CacheResult) io" where
  "ec_executeUsingCache T sel upd key onCacheMiss s =
     (case ec_lookup T key (sel s) of
        Some r \<Rightarrow> (Inr r, s)
      | None \<Rightarrow>
          (case onCacheMiss s of
             (Inl e, s1) \<Rightarrow> (Inl e, s1)
           | (Inr result, s1) \<Rightarrow> (Inr result, upd (ec_store T key result) s1)))"

subsection \<open>SimpleCache.ts\<close>

text \<open>A call that runs alone.\<close>

definition sc_executeUsingCache ::
  "('c, 'v) ttl \<Rightarrow> ('s \<Rightarrow> 'c) \<Rightarrow> (('c \<Rightarrow> 'c) \<Rightarrow> 's \<Rightarrow> 's) \<Rightarrow> string \<Rightarrow> ('s, 'v) io \<Rightarrow> ('s, 'v) io" where
  "sc_executeUsingCache T sel upd key fetchFn s =
     (case t_get T (sel s) key of
        Some v \<Rightarrow> (Inr v, s)
      | None \<Rightarrow>
          (case fetchFn s of
             (Inl e, s1) \<Rightarrow> (Inl e, s1)
           | (Inr fetchedValue, s1) \<Rightarrow> (Inr fetchedValue, upd (t_set T key fetchedValue) s1)))"

text \<open>
  The cache with concurrent callers. A fetch has a number; \<open>inflight\<close> are the fetches whose promise is pending,
  \<open>failing\<close> those whose promise has been rejected and whose \<open>finally\<close> has not run yet. A caller waits for a fetch
  or has its answer.
\<close>

record ('c, 'v) SimpleCache =
  sc_cache :: 'c
  pendingFetches :: "(string \<times> nat) list"
  inflight :: "(nat \<times> string) list"
  failing :: "(nat \<times> string) list"
  nextFetch :: nat
  sc_waiting :: "(nat \<times> nat) list"
  sc_answers :: "(nat \<times> (exn + 'v)) list"

definition newSimpleCache :: "'c \<Rightarrow> ('c, 'v) SimpleCache" where
  "newSimpleCache c = \<lparr>sc_cache = c, pendingFetches = [], inflight = [], failing = [], nextFetch = 0,
     sc_waiting = [], sc_answers = []\<rparr>"

text \<open>\<open>executeUsingCache\<close> up to its first suspension.\<close>

definition sc_call :: "('c, 'v) ttl \<Rightarrow> nat \<Rightarrow> string \<Rightarrow> ('c, 'v) SimpleCache \<Rightarrow> ('c, 'v) SimpleCache" where
  "sc_call T caller key s =
     (case t_get T (sc_cache s) key of
        Some v \<Rightarrow> s\<lparr>sc_answers := sc_answers s @ [(caller, Inr v)]\<rparr>
      | None \<Rightarrow>
          (case map_get (pendingFetches s) key of
             Some f \<Rightarrow> s\<lparr>sc_waiting := sc_waiting s @ [(caller, f)]\<rparr>
           | None \<Rightarrow> s\<lparr>pendingFetches := map_set key (nextFetch s) (pendingFetches s),
                        inflight := inflight s @ [(nextFetch s, key)],
                        sc_waiting := sc_waiting s @ [(caller, nextFetch s)],
                        nextFetch := Suc (nextFetch s)\<rparr>))"

text \<open>The callers that await a fetch continue with its outcome.\<close>

definition answer :: "nat \<Rightarrow> exn + 'v \<Rightarrow> ('c, 'v) SimpleCache \<Rightarrow> ('c, 'v) SimpleCache" where
  "answer f r s =
     s\<lparr>sc_waiting := filter (\<lambda>w. snd w \<noteq> f) (sc_waiting s),
       sc_answers := sc_answers s @ map (\<lambda>w. (fst w, r)) (filter (\<lambda>w. snd w = f) (sc_waiting s))\<rparr>"

definition sc_resolve :: "('c, 'v) ttl \<Rightarrow> nat \<Rightarrow> string \<Rightarrow> 'v \<Rightarrow> ('c, 'v) SimpleCache \<Rightarrow> ('c, 'v) SimpleCache" where
  "sc_resolve T f key v s =
     answer f (Inr v)
       (s\<lparr>sc_cache := t_set T key v (sc_cache s), pendingFetches := map_delete key (pendingFetches s),
          inflight := filter (\<lambda>x. fst x \<noteq> f) (inflight s)\<rparr>)"

text \<open>A rejected fetch removes itself in its \<open>catch\<close> handler; the \<open>finally\<close> of its caller runs later.\<close>

definition sc_reject :: "nat \<Rightarrow> string \<Rightarrow> exn \<Rightarrow> ('c, 'v) SimpleCache \<Rightarrow> ('c, 'v) SimpleCache" where
  "sc_reject f key e s =
     answer f (Inl e)
       (s\<lparr>pendingFetches := map_delete key (pendingFetches s), inflight := filter (\<lambda>x. fst x \<noteq> f) (inflight s),
          failing := failing s @ [(f, key)]\<rparr>)"

definition sc_finally :: "nat \<Rightarrow> string \<Rightarrow> ('c, 'v) SimpleCache \<Rightarrow> ('c, 'v) SimpleCache" where
  "sc_finally f key s =
     s\<lparr>pendingFetches := map_delete key (pendingFetches s), failing := filter (\<lambda>x. fst x \<noteq> f) (failing s)\<rparr>"

definition sc_add :: "('c, 'v) ttl \<Rightarrow> string \<Rightarrow> 'v \<Rightarrow> ('c, 'v) SimpleCache \<Rightarrow> ('c, 'v) SimpleCache" where
  "sc_add T key v s = s\<lparr>sc_cache := t_set T key v (sc_cache s)\<rparr>"

definition sc_remove :: "('c, 'v) ttl \<Rightarrow> string \<Rightarrow> ('c, 'v) SimpleCache \<Rightarrow> ('c, 'v) SimpleCache" where
  "sc_remove T key s = s\<lparr>sc_cache := t_delete T key (sc_cache s)\<rparr>"

definition sc_clear :: "('c, 'v) ttl \<Rightarrow> ('c, 'v) SimpleCache \<Rightarrow> ('c, 'v) SimpleCache" where
  "sc_clear T s = s\<lparr>sc_cache := t_clear T (sc_cache s)\<rparr>"

inductive sc_step :: "('c, 'v) ttl \<Rightarrow> ('c, 'v) SimpleCache \<Rightarrow> ('c, 'v) SimpleCache \<Rightarrow> bool" for T where
  step_call: "sc_step T s (sc_call T caller key s)"
| step_resolve: "(f, key) \<in> set (inflight s) \<Longrightarrow> sc_step T s (sc_resolve T f key v s)"
| step_reject: "(f, key) \<in> set (inflight s) \<Longrightarrow> sc_step T s (sc_reject f key e s)"
| step_finally: "(f, key) \<in> set (failing s) \<Longrightarrow> sc_step T s (sc_finally f key s)"
| step_add: "sc_step T s (sc_add T key v s)"
| step_remove: "sc_step T s (sc_remove T key s)"
| step_clear: "sc_step T s (sc_clear T s)"
| step_pass: "sc_step T s (s\<lparr>sc_cache := t_pass T n (sc_cache s)\<rparr>)"

subsection \<open>Lookups after stores\<close>

lemma ec_lookup_invalidate [simp]: "ttl_laws T \<Longrightarrow> ec_lookup T key (ec_invalidate T key ec) = None"
  by (simp add: ec_lookup_def ec_invalidate_def)

lemma ec_lookup_store:
  "ttl_laws T \<Longrightarrow> ec_lookup T key ec = None \<Longrightarrow> ec_lookup T key (ec_store T key r ec) = Some (r\<lparr>cacheHit := True\<rparr>)"
  by (auto simp: ec_lookup_def ec_store_def split: option.splits)

lemma ec_execute_hit:
  "ec_lookup T key (sel s) = Some r \<Longrightarrow> ec_executeUsingCache T sel upd key m s = (Inr r, s)"
  by (simp add: ec_executeUsingCache_def)

lemma sc_execute_hit: "t_get T (sel s) key = Some v \<Longrightarrow> sc_executeUsingCache T sel upd key m s = (Inr v, s)"
  by (simp add: sc_executeUsingCache_def)

subsection \<open>Concurrent callers\<close>

definition sc_inv :: "('c, 'v) SimpleCache \<Rightarrow> bool" where
  "sc_inv s \<longleftrightarrow>
     distinct (map fst (inflight s)) \<and> (\<forall>x \<in> set (inflight s). fst x < nextFetch s) \<and>
     distinct (map fst (pendingFetches s)) \<and>
     (\<forall>k f. (k, f) \<in> set (pendingFetches s) \<longrightarrow> (f, k) \<in> set (inflight s)) \<and>
     (\<forall>w \<in> set (sc_waiting s). snd w \<in> fst ` set (inflight s))"

lemma sc_inv_new [simp]: "sc_inv (newSimpleCache c)"
  by (simp add: sc_inv_def newSimpleCache_def)

lemma in_map_set: "(k', f) \<in> set (map_set k v m) \<Longrightarrow> k' = k \<and> f = v \<or> (k', f) \<in> set m"
  by (induction m) (auto split: if_splits)

lemma in_map_delete: "(k', f) \<in> set (map_delete k m) \<longleftrightarrow> k' \<noteq> k \<and> (k', f) \<in> set m"
  by (induction m) (auto simp: AList.delete_eq)

lemma sc_inv_call: "sc_inv s \<Longrightarrow> sc_inv (sc_call T caller key s)"
proof -
  assume inv: "sc_inv s"
  show ?thesis
  proof (cases "t_get T (sc_cache s) key")
    case (Some v)
    with inv show ?thesis by (simp add: sc_call_def sc_inv_def)
  next
    case miss: None
    show ?thesis
    proof (cases "map_get (pendingFetches s) key")
      case (Some f)
      then have "(key, f) \<in> set (pendingFetches s)" by (rule map_of_SomeD)
      then have "(f, key) \<in> set (inflight s)" using inv by (simp add: sc_inv_def)
      then have "f \<in> fst ` set (inflight s)" by force
      with inv miss Some show ?thesis by (simp add: sc_call_def sc_inv_def)
    next
      case None
      have "nextFetch s \<notin> fst ` set (inflight s)" using inv by (auto simp: sc_inv_def)
      with inv miss None show ?thesis
        by (auto simp: sc_call_def sc_inv_def distinct_keys_set less_SucI dest!: in_map_set)
    qed
  qed
qed

lemma filter_fst: "(f', k') \<in> set (inflight s) \<Longrightarrow> distinct (map fst (inflight s)) \<Longrightarrow> (f, k) \<in> set (inflight s) \<Longrightarrow>
   f' = f \<Longrightarrow> k' = k"
  by (metis Some_eq_map_of_iff option.inject)

text \<open>What settling a fetch does to the lists of fetches, whatever its outcome.\<close>

lemma sc_inv_settled:
  assumes inv: "sc_inv s" and f: "(f, key) \<in> set (inflight s)"
  shows "sc_inv (answer f r (s\<lparr>sc_cache := c, pendingFetches := map_delete key (pendingFetches s),
     inflight := filter (\<lambda>x. fst x \<noteq> f) (inflight s), failing := fl\<rparr>))"
proof -
  have d: "distinct (map fst (inflight s))" using inv by (simp add: sc_inv_def)
  have "f' \<noteq> f" if "(k', f') \<in> set (pendingFetches s)" "k' \<noteq> key" for k' f'
  proof -
    have "(f', k') \<in> set (inflight s)" using that(1) inv by (simp add: sc_inv_def)
    with f that(2) filter_fst[OF _ d] show ?thesis by blast
  qed
  with inv show ?thesis
    by (auto simp: sc_inv_def answer_def in_map_delete distinct_keys_delete distinct_map_filter image_iff) force
qed

lemma sc_inv_step: "sc_step T s s' \<Longrightarrow> sc_inv s \<Longrightarrow> sc_inv s'"
proof (induction rule: sc_step.induct)
  case (step_call s caller key)
  then show ?case by (rule sc_inv_call)
next
  case (step_resolve f key s v)
  then show ?case using sc_inv_settled[of s f key, where r = "Inr v" and fl = "failing s"] by (simp add: sc_resolve_def)
next
  case (step_reject f key s e)
  then show ?case using sc_inv_settled[of s f key, where r = "Inl e" and c = "sc_cache s"] by (simp add: sc_reject_def)
next
  case (step_finally f key s)
  then show ?case by (auto simp: sc_inv_def sc_finally_def in_map_delete distinct_keys_delete)
qed (simp_all add: sc_inv_def sc_add_def sc_remove_def sc_clear_def)

lemma sc_inv_reachable: "(sc_step T)\<^sup>*\<^sup>* (newSimpleCache c) s \<Longrightarrow> sc_inv s"
  by (induction rule: rtranclp_induct) (auto intro: sc_inv_step)

text \<open>When no fetch is in flight, nobody waits and no fetch is pending.\<close>

lemma sc_idle: "sc_inv s \<Longrightarrow> inflight s = [] \<Longrightarrow> sc_waiting s = [] \<and> pendingFetches s = []"
  by (cases "sc_waiting s"; cases "pendingFetches s") (auto simp: sc_inv_def)

text \<open>Until a fetch is rejected, there is one fetch per key.\<close>

definition coalesced :: "('c, 'v) SimpleCache \<Rightarrow> bool" where
  "coalesced s \<longleftrightarrow> failing s = [] \<and> (\<forall>x \<in> set (inflight s). map_get (pendingFetches s) (snd x) = Some (fst x))"

lemma coalesced_step: "sc_step T s s' \<Longrightarrow> sc_inv s \<Longrightarrow> coalesced s \<Longrightarrow> failing s' = [] \<Longrightarrow> coalesced s'"
proof (induction rule: sc_step.induct)
  case (step_call s caller key)
  then show ?case by (fastforce simp: coalesced_def sc_call_def split: option.splits)
next
  case (step_resolve f key s v)
  have "map_get (pendingFetches s) key = Some f" using step_resolve(1,3) by (auto simp: coalesced_def)
  with step_resolve(3) show ?case by (auto simp: coalesced_def sc_resolve_def answer_def)
next
  case (step_reject f key s e)
  then show ?case by (simp add: sc_reject_def answer_def)
next
  case (step_finally f key s)
  then show ?case by (simp add: coalesced_def)
qed (simp_all add: coalesced_def sc_add_def sc_remove_def sc_clear_def)

text \<open>The fetches in flight settle, each with its outcome.\<close>

fun settle :: "('c, 'v) ttl \<Rightarrow> (nat \<Rightarrow> exn + 'v) \<Rightarrow> (nat \<times> string) list \<Rightarrow> ('c, 'v) SimpleCache \<Rightarrow> ('c, 'v) SimpleCache" where
  "settle T out [] s = s"
| "settle T out ((f, key) # fs) s =
     settle T out fs (case out f of Inr v \<Rightarrow> sc_resolve T f key v s | Inl e \<Rightarrow> sc_reject f key e s)"

lemma settle_one:
  fixes s :: "('c, 'v) SimpleCache" and out :: "nat \<Rightarrow> exn + 'v" and T :: "('c, 'v) ttl"
  defines "s' \<equiv> \<lambda>f key. (case out f of Inr v \<Rightarrow> sc_resolve T f key v s | Inl e \<Rightarrow> sc_reject f key e s)"
  shows "inflight (s' f key) = filter (\<lambda>x. fst x \<noteq> f) (inflight s)"
    "sc_waiting (s' f key) = filter (\<lambda>w. snd w \<noteq> f) (sc_waiting s)"
    "sc_answers (s' f key) = sc_answers s @ map (\<lambda>w. (fst w, out f)) (filter (\<lambda>w. snd w = f) (sc_waiting s))"
  by (auto simp: s'_def sc_resolve_def sc_reject_def answer_def split: sum.splits)

lemma settle_step:
  "(f, key) \<in> set (inflight s) \<Longrightarrow>
   sc_step T s (case out f of Inr v \<Rightarrow> sc_resolve T f key v s | Inl e \<Rightarrow> sc_reject f key e s)"
  by (cases "out f") (auto intro: step_resolve step_reject)

lemma settle_all:
  assumes "inflight s = fs" "distinct (map fst fs)"
  shows "(sc_step T)\<^sup>*\<^sup>* s (settle T out fs s) \<and> inflight (settle T out fs s) = []
    \<and> set (sc_answers s) \<subseteq> set (sc_answers (settle T out fs s))
    \<and> (\<forall>w \<in> set (sc_waiting s). snd w \<in> fst ` set fs \<longrightarrow> (fst w, out (snd w)) \<in> set (sc_answers (settle T out fs s)))"
  using assms
proof (induction fs arbitrary: s)
  case (Cons x fs)
  obtain f key where x: "x = (f, key)" by (cases x)
  define s1 where "s1 = (case out f of Inr v \<Rightarrow> sc_resolve T f key v s | Inl e \<Rightarrow> sc_reject f key e s)"
  note one = settle_one[where out = out and T = T and s = s and f = f and key = key, folded s1_def]
  have "inflight s1 = fs" using one(1) Cons.prems x by (auto intro!: filter_True) 
  from Cons.IH[OF this] Cons.prems(2) have IH: "(sc_step T)\<^sup>*\<^sup>* s1 (settle T out fs s1)"
    "inflight (settle T out fs s1) = []" "set (sc_answers s1) \<subseteq> set (sc_answers (settle T out fs s1))"
    "\<forall>w \<in> set (sc_waiting s1). snd w \<in> fst ` set fs \<longrightarrow> (fst w, out (snd w)) \<in> set (sc_answers (settle T out fs s1))"
    by simp_all
  have "sc_step T s s1" using Cons.prems(1) x unfolding s1_def by (intro settle_step) simp
  with IH(1) have "(sc_step T)\<^sup>*\<^sup>* s (settle T out fs s1)" by (rule converse_rtranclp_into_rtranclp[rotated])
  moreover have "(fst w, out (snd w)) \<in> set (sc_answers (settle T out fs s1))"
    if w: "w \<in> set (sc_waiting s)" "snd w \<in> fst ` set (x # fs)" for w
  proof (cases "snd w = f")
    case True
    then have "(fst w, out (snd w)) \<in> set (sc_answers s1)" using w(1) one(3) by auto
    with IH(3) show ?thesis by blast
  next
    case False
    then have "w \<in> set (sc_waiting s1)" using w(1) one(2) by simp
    with IH(4) False w(2) x show ?thesis by auto
  qed
  ultimately show ?case using IH(2,3) one(3) x by (auto simp: s1_def[symmetric])
qed simp

text \<open>
  C20. Concurrent callers of a \<open>SimpleCache\<close> are all answered. In every state that calls, settling fetches,
  added, removed, cleared and expiring values reach from a new cache: when no fetch is in flight, nobody
  waits and no fetch is registered as pending; and once the fetches in flight settle, with whatever
  outcomes, every waiting caller has the outcome of its fetch, and no pending fetch is left behind.\<close>

theorem every_caller_answered:
  fixes out :: "nat \<Rightarrow> exn + 'v"
  assumes "(sc_step T)\<^sup>*\<^sup>* (newSimpleCache c) s" "s' = settle T out (inflight s) s"
  shows "(inflight s = [] \<longrightarrow> sc_waiting s = [] \<and> pendingFetches s = [])
    \<and> (sc_step T)\<^sup>*\<^sup>* s s' \<and> sc_waiting s' = [] \<and> pendingFetches s' = []
    \<and> (\<forall>(caller, f) \<in> set (sc_waiting s). (caller, out f) \<in> set (sc_answers s'))"
proof -
  have inv: "sc_inv s" using assms(1) by (rule sc_inv_reachable)
  then have d: "distinct (map fst (inflight s))" "\<forall>w \<in> set (sc_waiting s). snd w \<in> fst ` set (inflight s)"
    by (simp_all add: sc_inv_def)
  note all = settle_all[OF refl d(1), of T out, folded assms(2)]
  have "sc_inv s'" using sc_inv_reachable[of T c s'] assms(1) all by (auto intro: rtranclp_trans)
  with all sc_idle have "sc_waiting s' = [] \<and> pendingFetches s' = []" by blast
  with all d(2) sc_idle[OF inv] show ?thesis by fastforce
qed

definition demo_cache :: "((string \<times> int) list, int) SimpleCache" where
  "demo_cache = sc_call demo_ttl 3 ''b'' (sc_call demo_ttl 2 ''a'' (sc_call demo_ttl 1 ''a'' (newSimpleCache [])))"

theorem every_caller_answered_witness:
  "sc_waiting demo_cache = [(1, 0), (2, 0), (3, 1)] \<and>
   {(1, Inr 7), (2, Inr 7), (3, Inl LibError)} \<subseteq>
     set (sc_answers (settle demo_ttl (\<lambda>f. if f = 0 then Inr 7 else Inl LibError) (inflight demo_cache) demo_cache))"
proof -
  have "(sc_step demo_ttl)\<^sup>*\<^sup>* (newSimpleCache []) demo_cache"
    unfolding demo_cache_def
    by (rule rtranclp.rtrancl_into_rtrancl, rule rtranclp.rtrancl_into_rtrancl, rule r_into_rtranclp)
      (rule step_call)+
  moreover have w: "sc_waiting demo_cache = [(1, 0), (2, 0), (3, 1)]"
    by (simp add: demo_cache_def sc_call_def newSimpleCache_def demo_ttl_def)
  ultimately show ?thesis
    using every_caller_answered[of demo_ttl "[]" demo_cache _ "\<lambda>f. if f = 0 then Inr 7 else Inl LibError"] by force
qed

text \<open>A value removed from a \<open>SimpleCache\<close> comes back when a fetch for it is in flight: \<open>remove\<close> does not
  reach the pending fetch, so the value that was read before the removal is stored afterwards, and the
  next caller gets it.\<close>

theorem removed_value_returns:
  assumes "ttl_laws T" "t_get T (sc_cache s) key = None" "map_get (pendingFetches s) key = None"
  shows "\<exists>s1 s2 s3. sc_step T s s1 \<and> (nextFetch s, key) \<in> set (inflight s1)
    \<and> s2 = sc_remove T key s1
    \<and> sc_step T s2 s3 \<and> t_get T (sc_cache s3) key = Some oldValue
    \<and> sc_answers (sc_call T caller key s3) = sc_answers s3 @ [(caller, Inr oldValue)]"
proof -
  define s1 where "s1 = sc_call T 0 key s"
  have 1: "sc_step T s s1" unfolding s1_def by (rule step_call)
  have f: "(nextFetch s, key) \<in> set (inflight s1)" using assms(2,3) by (simp add: s1_def sc_call_def)
  then have f2: "(nextFetch s, key) \<in> set (inflight (sc_remove T key s1))" by (simp add: sc_remove_def)
  define s3 where "s3 = sc_resolve T (nextFetch s) key oldValue (sc_remove T key s1)"
  have "sc_step T (sc_remove T key s1) s3" unfolding s3_def by (rule step_resolve[OF f2])
  moreover have got: "t_get T (sc_cache s3) key = Some oldValue"
    using assms(1) by (simp add: s3_def sc_resolve_def answer_def)
  moreover from got have "sc_answers (sc_call T caller key s3) = sc_answers s3 @ [(caller, Inr oldValue)]"
    by (simp add: sc_call_def)
  ultimately show ?thesis using 1 f by blast
qed

theorem removed_value_returns_witness:
  "\<exists>s1 s2 s3. sc_step demo_ttl (newSimpleCache []) s1 \<and> s2 = sc_remove demo_ttl ''isBanned'' s1
    \<and> sc_step demo_ttl s2 s3 \<and> t_get demo_ttl (sc_cache s3) ''isBanned'' = Some False"
  using removed_value_returns[OF demo_ttl_laws, of "newSimpleCache []" "''isBanned''" False 1]
  by (fastforce simp: newSimpleCache_def demo_ttl_def)

end
