(* ===== verification/Transactions.thy ===== *)
theory Transactions
  imports Utils
begin

text \<open>
  Sending transactions: \<open>wrapTransaction\<close> of \<open>packages/web3/src/space-dapp/wrapTransaction.ts\<close>, which submits a
  transaction, polls until it is confirmed and resubmits it when that fails.

  The chain and the clock are arguments: what the n-th submission returns, what the i-th poll of that
  submission returns, and how much time has passed when the poll has been handled. Both loops of the
  code are \<open>while (true)\<close>; they are partial functions, so that not returning would be the value \<open>None\<close>.
\<close>

subsection \<open>wrapTransaction.ts\<close>

text \<open>What \<open>tx.wait(0)\<close> does: it throws (with the code \<open>CALL_EXCEPTION\<close> or another one), returns no receipt, or
  a receipt with a status.\<close>

datatype poll = PollThrows bool | PollPending | PollReceipt int

record 'tx chain_run =
  r_submit :: "nat \<Rightarrow> exn + 'tx"
  r_poll :: "nat \<Rightarrow> nat \<Rightarrow> poll"
  r_elapsed :: "nat \<Rightarrow> nat \<Rightarrow> int"

text \<open>The clock advances from one poll to the next: the loop sleeps 100 ms in between.\<close>

definition clock_advances :: "int \<Rightarrow> 'tx chain_run \<Rightarrow> bool" where
  "clock_advances d R \<longleftrightarrow> 0 < d \<and> (\<forall>n. 0 \<le> r_elapsed R n 0 \<and> (\<forall>i. r_elapsed R n i + d \<le> r_elapsed R n (Suc i)))"

partial_function (option) confirmTransaction :: "'tx chain_run \<Rightarrow> nat \<Rightarrow> nat \<Rightarrow> (exn + unit) option" where
  "confirmTransaction R n i =
     (case r_poll R n i of
        PollThrows callException \<Rightarrow>
          if callException then Some (Inl LibError)
          else if r_elapsed R n i > 20000 then Some (Inl JsError) else confirmTransaction R n (Suc i)
      | PollPending \<Rightarrow>
          if r_elapsed R n i > 20000 then Some (Inl JsError) else confirmTransaction R n (Suc i)
      | PollReceipt status \<Rightarrow> Some (if status = 1 then Inr () else Inl JsError))"

definition run_attempt :: "'tx chain_run \<Rightarrow> nat \<Rightarrow> (exn + 'tx) option" where
  "run_attempt R n =
     (case r_submit R n of
        Inl e \<Rightarrow> Some (Inl e)
      | Inr tx \<Rightarrow> map_option (\<lambda>r. bindE r (\<lambda>_. Inr tx)) (confirmTransaction R n 0))"

text \<open>The loop returns the result and the number of submissions.\<close>

partial_function (option) runTx :: "nat \<Rightarrow> 'tx chain_run \<Rightarrow> nat \<Rightarrow> ((exn + 'tx) \<times> nat) option" where
  "runTx retryLimit R retryCount =
     Option.bind (run_attempt R retryCount) (\<lambda>r.
     case r of
       Inr tx \<Rightarrow> Some (Inr tx, Suc retryCount)
     | Inl e \<Rightarrow> if Suc retryCount \<ge> retryLimit then Some (Inl JsError, Suc retryCount)
                else runTx retryLimit R (Suc retryCount))"

text \<open>\<open>(txnOpts?.retryCount ?? isTestEnv()) ? 3 : 0\<close>\<close>

definition retryLimit :: "nat option \<Rightarrow> bool \<Rightarrow> nat" where
  "retryLimit retryCount isTestEnv =
     (if (case retryCount of Some n \<Rightarrow> n \<noteq> 0 | None \<Rightarrow> isTestEnv) then 3 else 0)"

definition wrapTransaction :: "nat option \<Rightarrow> bool \<Rightarrow> 'tx chain_run \<Rightarrow> ((exn + 'tx) \<times> nat) option" where
  "wrapTransaction retryCount isTestEnv R = runTx (retryLimit retryCount isTestEnv) R 0"

subsection \<open>Termination\<close>

definition handled :: "'tx chain_run \<Rightarrow> nat \<Rightarrow> nat \<Rightarrow> bool" where
  "handled R n i \<longleftrightarrow> (\<exists>st. r_poll R n i = PollReceipt st) \<or> r_poll R n i = PollThrows True \<or> r_elapsed R n i > 20000"

definition confirmed :: "'tx chain_run \<Rightarrow> nat \<Rightarrow> bool" where
  "confirmed R n \<longleftrightarrow> (\<exists>i. r_poll R n i = PollReceipt 1 \<and> (\<forall>j < i. \<not> handled R n j))"

lemma elapsed_grows: "clock_advances d R \<Longrightarrow> int i * d \<le> r_elapsed R n i"
proof (induction i)
  case (Suc i)
  then have "r_elapsed R n i + d \<le> r_elapsed R n (Suc i)" by (simp add: clock_advances_def)
  with Suc show ?case by (simp add: algebra_simps)
qed (simp add: clock_advances_def)

lemma eventually_handled:
  assumes "clock_advances d R"
  shows "\<exists>i \<le> 20001. handled R n i"
proof -
  have "int 20001 * d \<le> r_elapsed R n 20001" by (rule elapsed_grows[OF assms])
  moreover have "int 20001 * 1 \<le> int 20001 * d"
    using assms by (intro mult_left_mono) (simp_all add: clock_advances_def)
  ultimately show ?thesis by (intro exI[of _ 20001]) (simp add: handled_def)
qed

lemma confirm_unhandled:
  "\<not> handled R n i \<Longrightarrow> confirmTransaction R n i = confirmTransaction R n (Suc i)"
  by (subst confirmTransaction.simps) (auto simp: handled_def split: poll.splits if_splits)

lemma confirm_handled:
  "handled R n i \<Longrightarrow> \<exists>r. confirmTransaction R n i = Some r \<and> (r = Inr () \<longleftrightarrow> r_poll R n i = PollReceipt 1)"
  by (subst confirmTransaction.simps) (auto simp: handled_def split: poll.splits if_splits)

lemma confirm_first:
  "(\<And>j. j < i \<Longrightarrow> \<not> handled R n j) \<Longrightarrow> confirmTransaction R n 0 = confirmTransaction R n i"
  by (induction i) (simp_all add: confirm_unhandled)

lemma confirm_returns:
  assumes "clock_advances d R"
  shows "\<exists>r. confirmTransaction R n 0 = Some r \<and> (r = Inr () \<longleftrightarrow> confirmed R n)"
proof -
  define i where "i = (LEAST i. handled R n i)"
  obtain k where "handled R n k" using eventually_handled[OF assms, of n] by blast
  then have i: "handled R n i" unfolding i_def by (rule LeastI)
  have j: "\<not> handled R n j" if "j < i" for j using that unfolding i_def by (rule not_less_Least)
  obtain r where "confirmTransaction R n i = Some r" "r = Inr () \<longleftrightarrow> r_poll R n i = PollReceipt 1"
    using confirm_handled[OF i] by blast
  moreover have "confirmed R n \<longleftrightarrow> r_poll R n i = PollReceipt 1"
  proof
    assume "confirmed R n"
    then obtain k where k: "r_poll R n k = PollReceipt 1" "\<And>j. j < k \<Longrightarrow> \<not> handled R n j"
      by (auto simp: confirmed_def)
    then have "handled R n k" by (simp add: handled_def)
    with i j k(2) have "k = i" by (metis linorder_neqE_nat)
    with k(1) show "r_poll R n i = PollReceipt 1" by simp
  next
    assume "r_poll R n i = PollReceipt 1"
    with j show "confirmed R n" unfolding confirmed_def by blast
  qed
  ultimately show ?thesis using confirm_first[of i R n] j by metis
qed

definition succeeds :: "'tx chain_run \<Rightarrow> nat \<Rightarrow> 'tx \<Rightarrow> bool" where
  "succeeds R n tx \<longleftrightarrow> r_submit R n = Inr tx \<and> confirmed R n"

lemma attempt_returns:
  assumes "clock_advances d R"
  shows "\<exists>r. run_attempt R n = Some r \<and> (\<forall>tx. r = Inr tx \<longleftrightarrow> succeeds R n tx)"
proof -
  obtain r where "confirmTransaction R n 0 = Some r" "r = Inr () \<longleftrightarrow> confirmed R n"
    using confirm_returns[OF assms, of n] by blast
  then show ?thesis
    by (cases r; cases "r_submit R n") (auto simp: run_attempt_def succeeds_def)
qed

definition tx_result :: "'tx chain_run \<Rightarrow> nat \<Rightarrow> exn + 'tx \<Rightarrow> nat \<Rightarrow> bool" where
  "tx_result R limit r k \<longleftrightarrow>
     (case r of Inr tx \<Rightarrow> (\<exists>n. k = Suc n \<and> succeeds R n tx \<and> (\<forall>m < n. \<forall>tx. \<not> succeeds R m tx))
              | Inl e \<Rightarrow> (\<forall>m < k. \<forall>tx. \<not> succeeds R m tx) \<and> k = max 1 limit)"

lemma runTx_returns:
  assumes "clock_advances d R" "\<And>m tx. m < n \<Longrightarrow> \<not> succeeds R m tx" "n < max 1 limit"
  shows "\<exists>r k. runTx limit R n = Some (r, k) \<and> k \<le> max 1 limit \<and> tx_result R limit r k"
  using assms(2,3)
proof (induction "max 1 limit - n" arbitrary: n)
  case (Suc l)
  obtain r where r: "run_attempt R n = Some r" "\<And>tx. r = Inr tx \<longleftrightarrow> succeeds R n tx"
    using attempt_returns[OF assms(1), of n] by blast
  show ?case
  proof (cases r)
    case (Inr tx)
    then have "runTx limit R n = Some (Inr tx, Suc n)" using r(1) by (subst runTx.simps) simp
    moreover have "tx_result R limit (Inr tx) (Suc n)" using Inr r(2) Suc.prems(1) by (simp add: tx_result_def)
    ultimately show ?thesis using Suc.prems(2) by (intro exI conjI) auto
  next
    case (Inl e)
    have failed: "\<not> succeeds R m tx" if "m < Suc n" for m tx
      using that Inl r(2)[of tx] Suc.prems(1)[of m tx] by (cases "m = n") auto
    show ?thesis
    proof (cases "Suc n \<ge> limit")
      case True
      then have "runTx limit R n = Some (Inl JsError, Suc n)" using r(1) Inl by (subst runTx.simps) simp
      moreover have "tx_result R limit (Inl JsError) (Suc n)"
        using True Suc.prems(2) failed by (simp add: tx_result_def)
      ultimately show ?thesis using Suc.prems(2) by (intro exI conjI) auto
    next
      case False
      then have "runTx limit R n = runTx limit R (Suc n)" using r(1) Inl by (subst runTx.simps) simp
      moreover have "l = max 1 limit - Suc n" "Suc n < max 1 limit" using Suc.hyps(2) False by auto
      ultimately show ?thesis using Suc.hyps(1)[of "Suc n", OF _ failed] by simp
    qed
  qed
qed linarith

text \<open>
  C27. \<open>wrapTransaction\<close> always returns, although both of its loops have no exit condition: with a clock that
  advances, it submits the transaction at most once, or at most three times if a non-zero \<open>retryCount\<close> is
  given (whatever its value) or, without one, in tests. It returns a transaction only if that was confirmed
  with status 1, and the one it returns is the first such; it throws only after all its submissions failed.\<close>

theorem wrapTransaction_terminates:
  assumes "clock_advances d R"
  shows "\<exists>result submissions. wrapTransaction retryCount isTestEnv R = Some (result, submissions)
    \<and> submissions \<le> (if retryCount = None \<and> isTestEnv \<or> (\<exists>n > 0. retryCount = Some n) then 3 else 1)
    \<and> (case result of
         Inr tx \<Rightarrow> (\<exists>n. submissions = Suc n \<and> succeeds R n tx \<and> (\<forall>m < n. \<forall>tx. \<not> succeeds R m tx))
       | Inl e \<Rightarrow> (\<forall>m < submissions. \<forall>tx. \<not> succeeds R m tx)
                  \<and> submissions = max 1 (retryLimit retryCount isTestEnv))"
proof -
  define limit where "limit = retryLimit retryCount isTestEnv"
  obtain r k where rk: "runTx limit R 0 = Some (r, k)" "k \<le> max 1 limit" "tx_result R limit r k"
    using runTx_returns[OF assms, of 0 limit] by (auto simp: less_max_iff_disj)
  have "k \<le> (if retryCount = None \<and> isTestEnv \<or> (\<exists>n > 0. retryCount = Some n) then 3 else 1)"
    using rk(2) by (cases retryCount) (auto simp: limit_def retryLimit_def split: if_splits)
  with rk(1,3) show ?thesis unfolding wrapTransaction_def limit_def tx_result_def by blast
qed

text \<open>The first submission is rejected by the node, the second is confirmed at its third poll.\<close>

definition demo_run :: "string chain_run" where
  "demo_run = \<lparr>r_submit = (\<lambda>n. if n = 0 then Inl LibError else Inr ''0xabc''),
     r_poll = (\<lambda>n i. if i < 2 then PollPending else PollReceipt 1),
     r_elapsed = (\<lambda>n i. 100 * (int i + 1))\<rparr>"

theorem wrapTransaction_terminates_witness:
  "wrapTransaction (Some 1) False demo_run = Some (Inr ''0xabc'', 2) \<and>
   (\<exists>result submissions. wrapTransaction (Some 1) False demo_run = Some (result, submissions) \<and> submissions \<le> 3)"
proof -
  have "clock_advances 100 demo_run" by (simp add: clock_advances_def demo_run_def)
  from wrapTransaction_terminates[OF this, of "Some 1" False]
  have "\<exists>result submissions. wrapTransaction (Some 1) False demo_run = Some (result, submissions) \<and> submissions \<le> 3"
    by auto
  moreover have "wrapTransaction (Some 1) False demo_run = Some (Inr ''0xabc'', 2)"
  proof -
    have "confirmTransaction demo_run 1 2 = Some (Inr ())"
      by (subst confirmTransaction.simps) (simp add: demo_run_def)
    then have "run_attempt demo_run 1 = Some (Inr ''0xabc'')"
      using confirm_first[of 2 demo_run 1] by (simp add: run_attempt_def handled_def demo_run_def)
    moreover have "run_attempt demo_run 0 = Some (Inl LibError)" by (simp add: run_attempt_def demo_run_def)
    ultimately have "runTx 3 demo_run 1 = Some (Inr ''0xabc'', 2)" "runTx 3 demo_run 0 = runTx 3 demo_run 1"
      by (subst runTx.simps, simp)+
    then show ?thesis by (simp add: wrapTransaction_def retryLimit_def)
  qed
  ultimately show ?thesis by blast
qed

end
