(* ===== verification/SpaceAccess.thy ===== *)
theory SpaceAccess
  imports Entitlement Caches Transactions
begin

text \<open>
  Access to spaces and channels: the parts of \<open>packages/web3/src/space-dapp/SpaceDapp.ts\<close> that decide who is
  entitled to what, with the parts of \<open>space/Space.ts\<close>, \<open>space/OwnableFacetShim.ts\<close>, \<open>space/IEntitlementsShim.ts\<close>,
  \<open>delegate-registry/DelegateRegistry.ts\<close> and \<open>space-registrar/SpaceRegistrar.ts\<close> they call, and the multicalls
  that update a channel.

  The state is the record \<open>SpaceDapp\<close> of the caches of the class. Contract reads are fields of \<open>space_externs\<close>, one
  per contract function, \<open>None\<close> when the call fails; a multicall returns the results of its calls or fails with
  the first that does. Promises that the code starts together run in the order in which they are started. The
  cache of space objects (\<open>LRUCache\<close> of at most 100) only saves memory: a space is its id and its address, and the
  caches a space object owns are kept by space id.
\<close>

subsection \<open>State and contracts\<close>

datatype VersionedRuleData = RuleV1 RuleData | RuleV2 RuleDataV2

record EntitlementData =
  ed_entitlementType :: EntitlementModuleType
  ed_ruleEntitlement :: "VersionedRuleData option"
  ed_userEntitlement :: "string list option"

record Space =
  sp_address :: string
  sp_spaceId :: string

datatype ChannelCall =
    updateChannel_call string string bool
  | addRoleToChannel_call string int
  | removeRoleFromChannel_call string int

record 'c space_externs = chain_externs +
  x_entitlementTTL :: "('c, EntitlementData list CacheResult) ttl"
  x_walletTTL :: "('c, string option CacheResult) ttl"
  x_evaluationTTL :: "('c, bool CacheResult) ttl"
  x_idsTTL :: "('c, int list) ttl"
  x_stringTTL :: "('c, string) ttl"
  x_boolTTL :: "('c, bool) ttl"
  x_modulesTTL :: "('c, string list) ttl"
  x_getAddress :: "string \<Rightarrow> string option"
  x_tokensOfOwner :: "string \<Rightarrow> string \<Rightarrow> int list option"
  x_isBanned :: "string \<Rightarrow> int \<Rightarrow> bool option"
  x_banned :: "string \<Rightarrow> int list option"
  x_ownerOf :: "string \<Rightarrow> int \<Rightarrow> string option"
  x_decodeOwnerOf :: "string \<Rightarrow> string option"
  x_owner :: "string \<Rightarrow> string option"
  x_expiresAt :: "string \<Rightarrow> string \<Rightarrow> int option"
  x_getEntitlements :: "string \<Rightarrow> string list option"
  x_getEntitlement :: "string \<Rightarrow> string \<Rightarrow> string option"
  x_entitlementData :: "string \<Rightarrow> string \<Rightarrow> (string \<times> string) list option"
  x_channelEntitlementData :: "string \<Rightarrow> string \<Rightarrow> string \<Rightarrow> (string \<times> string) list option"
  x_decodeGetRuleData :: "string \<Rightarrow> RuleData list option"
  x_decodeGetRuleDataV2 :: "string \<Rightarrow> RuleDataV2 list option"
  x_decodeGetAddresses :: "string \<Rightarrow> string list option"
  x_isEntitledToSpace :: "string \<Rightarrow> string \<Rightarrow> string \<Rightarrow> bool option"
  x_walletsByRootKey :: "string \<Rightarrow> string list option"
  x_rootKeyForWallet :: "string \<Rightarrow> string option"
  x_delegations :: "string \<Rightarrow> string \<Rightarrow> (int \<times> string) list option"
  x_channelRoleIds :: "string \<Rightarrow> string \<Rightarrow> int list option"
  x_encodeChannelCall :: "ChannelCall \<Rightarrow> string option"
  x_priceInfo :: "string \<Rightarrow> (int \<times> int \<times> int \<times> int) option"
  x_now :: int
  x_leftFirst :: "bool list \<Rightarrow> bool"

record 'c SpaceDapp =
  isLegacySpaceCache :: "(string, bool) jsmap"
  entitlementCache :: "'c EntitlementCache"
  entitledWalletCache :: "'c EntitlementCache"
  entitlementEvaluationCache :: "'c EntitlementCache"
  bannedTokenIdsCache :: 'c
  ownerOfTokenCache :: 'c
  isBannedTokenCache :: 'c
  ownerCache :: "string \<Rightarrow> 'c"
  getEntitlementsCache :: "string \<Rightarrow> 'c"
  addressToEntitlement :: "(string \<times> string, EntitlementModuleType) jsmap"

type_synonym ('c, 'a) dapp = "('c SpaceDapp, 'a) io"

definition contract :: "'a option \<Rightarrow> exn + 'a" where
  "contract r = of_option LibError r"

definition new_Set :: "'a list \<Rightarrow> 'a jsset" where
  "new_Set xs = set_union xs []"

definition EVERYONE_ADDRESS :: string where
  "EVERYONE_ADDRESS = ''0x0000000000000000000000000000000000000001''"

definition ensureHexPrefix :: "string \<Rightarrow> string" where
  "ensureHexPrefix value = (if starts_with value ''0x'' then value else ''0x'' @ value)"

text \<open>Promises that are all needed: the first that rejects is the result.\<close>

definition allS :: "('x \<Rightarrow> ('s, 'a) io) \<Rightarrow> 'x list \<Rightarrow> ('s, 'a list) io" where
  "allS f xs s = (let (rs, s1) = settleS f xs s in (mapE id rs, s1))"

subsection \<open>Spaces\<close>

definition SpaceAddressFromSpaceId :: "('c, 'z) space_externs_scheme \<Rightarrow> string \<Rightarrow> exn + string" where
  "SpaceAddressFromSpaceId X spaceId = contract (x_getAddress X (take 40 (drop 2 spaceId)))"

definition getSpace :: "('c, 'z) space_externs_scheme \<Rightarrow> string \<Rightarrow> exn + Space option" where
  "getSpace X spaceId =
     bindE (SpaceAddressFromSpaceId X spaceId) (\<lambda>spaceAddress.
     Inr (if spaceAddress = [] \<or> spaceAddress = zeroAddress then None
          else Some \<lparr>sp_address = spaceAddress, sp_spaceId = spaceId\<rparr>))"

definition requireSpace :: "('c, 'z) space_externs_scheme \<Rightarrow> string \<Rightarrow> exn + Space" where
  "requireSpace X spaceId = bindE (getSpace X spaceId) (of_option JsError)"

definition getOwner :: "('c, 'z) space_externs_scheme \<Rightarrow> Space \<Rightarrow> ('c, string) dapp" where
  "getOwner X sp =
     sc_executeUsingCache (x_stringTTL X) (\<lambda>s. ownerCache s (sp_spaceId sp))
       (\<lambda>f s. s\<lparr>ownerCache := (ownerCache s)(sp_spaceId sp := f (ownerCache s (sp_spaceId sp)))\<rparr>)
       (''owner:'' @ sp_address sp) (liftS (contract (x_owner X (sp_address sp))))"

definition getEntitlements :: "('c, 'z) space_externs_scheme \<Rightarrow> Space \<Rightarrow> ('c, string list) dapp" where
  "getEntitlements X sp =
     sc_executeUsingCache (x_modulesTTL X) (\<lambda>s. getEntitlementsCache s (sp_spaceId sp))
       (\<lambda>f s. s\<lparr>getEntitlementsCache :=
          (getEntitlementsCache s)(sp_spaceId sp := f (getEntitlementsCache s (sp_spaceId sp)))\<rparr>)
       (''getEntitlements:'' @ sp_address sp) (liftS (contract (x_getEntitlements X (sp_address sp))))"

definition moduleType :: "string \<Rightarrow> EntitlementModuleType option" where
  "moduleType t =
     (if t = ''UserEntitlement'' then Some UserEntitlementModule
      else if t = ''RuleEntitlement'' then Some RuleEntitlementModule
      else if t = ''RuleEntitlementV2'' then Some RuleEntitlementV2Module
      else None)"

text \<open>A shim is its module type.\<close>

definition getEntitlementByAddress ::
  "('c, 'z) space_externs_scheme \<Rightarrow> Space \<Rightarrow> string \<Rightarrow> ('c, EntitlementModuleType) dapp" where
  "getEntitlementByAddress X sp address s =
     (case map_get (addressToEntitlement s) (sp_spaceId sp, address) of
        Some t \<Rightarrow> (Inr t, s)
      | None \<Rightarrow>
          (case bindE (contract (x_getEntitlement X (sp_address sp) address)) (\<lambda>t. of_option JsError (moduleType t)) of
             Inl e \<Rightarrow> (Inl e, s)
           | Inr t \<Rightarrow> (Inr t, s\<lparr>addressToEntitlement := map_set (sp_spaceId sp, address) t (addressToEntitlement s)\<rparr>)))"

definition getEntitlementShims ::
  "('c, 'z) space_externs_scheme \<Rightarrow> Space \<Rightarrow> ('c, EntitlementModuleType list) dapp" where
  "getEntitlementShims X sp =
     bindS (getEntitlements X sp) (\<lambda>entitlementInfo. allS (getEntitlementByAddress X sp) entitlementInfo)"

text \<open>Whether \<open>findEntitlementByType\<close> finds a shim.\<close>

definition findEntitlementByType ::
  "('c, 'z) space_externs_scheme \<Rightarrow> EntitlementModuleType \<Rightarrow> Space \<Rightarrow> ('c, bool) dapp" where
  "findEntitlementByType X entitlementType sp =
     bindS (getEntitlementShims X sp) (\<lambda>entitlements. retS (entitlementType \<in> set entitlements))"

definition isLegacySpace :: "('c, 'z) space_externs_scheme \<Rightarrow> string \<Rightarrow> ('c, bool) dapp" where
  "isLegacySpace X spaceId s =
     (case map_get (isLegacySpaceCache s) spaceId of
        Some b \<Rightarrow> (Inr b, s)
      | None \<Rightarrow>
          bindS (liftS (requireSpace X spaceId)) (\<lambda>sp.
          bindS (findEntitlementByType X RuleEntitlementV2Module sp) (\<lambda>found s1.
          (Inr (\<not> found), s1\<lparr>isLegacySpaceCache := map_set spaceId (\<not> found) (isLegacySpaceCache s1)\<rparr>))) s)"

subsection \<open>Memberships\<close>

definition getTokenIdsOfOwner ::
  "('c, 'z) space_externs_scheme \<Rightarrow> Space \<Rightarrow> string list \<Rightarrow> exn + string list" where
  "getTokenIdsOfOwner X sp wallets =
     bindE (mapE (\<lambda>w. contract (x_tokensOfOwner X (sp_address sp) w)) wallets) (\<lambda>results.
     Inr (new_Set (concat (map (map int_toString) results))))"

record MembershipStatus =
  ms_isMember :: bool
  ms_tokenId :: "string option"
  ms_isExpired :: "bool option"
  ms_expiryTime :: "int option"
  ms_expiredAt :: "int option"

definition noMember :: MembershipStatus where
  "noMember = \<lparr>ms_isMember = False, ms_tokenId = None, ms_isExpired = None, ms_expiryTime = None, ms_expiredAt = None\<rparr>"

record status_vars =
  hasActiveToken :: bool
  v_expiryTime :: "int option"
  v_expiredAt :: "int option"
  v_tokenId :: "string option"

text \<open>The body of the loop over the expirations.\<close>

definition status_step :: "int \<Rightarrow> int \<times> string \<Rightarrow> status_vars \<Rightarrow> status_vars" where
  "status_step currentTime = (\<lambda>(expiration, token) v.
     if expiration > currentTime then
       let v1 = v\<lparr>hasActiveToken := True\<rparr>
       in if v_expiryTime v = None \<or> expiration > the (v_expiryTime v)
          then v1\<lparr>v_expiryTime := Some expiration, v_tokenId := Some token\<rparr> else v1
     else if v_expiredAt v = None \<or> expiration > the (v_expiredAt v) then
       let v1 = v\<lparr>v_expiredAt := Some expiration\<rparr>
       in if \<not> hasActiveToken v then v1\<lparr>v_tokenId := Some token\<rparr> else v1
     else v)"

definition status_of :: "int \<Rightarrow> int list \<Rightarrow> string list \<Rightarrow> MembershipStatus" where
  "status_of currentTime expirations tokenIds =
     (case find_index (\<lambda>e. e = 0) expirations of
        Some i \<Rightarrow> \<lparr>ms_isMember = True, ms_tokenId = at tokenIds i, ms_isExpired = Some False,
                   ms_expiryTime = Some 0, ms_expiredAt = None\<rparr>
      | None \<Rightarrow>
          let v = fold (status_step currentTime) (zip expirations tokenIds)
                    \<lparr>hasActiveToken = False, v_expiryTime = None, v_expiredAt = None, v_tokenId = None\<rparr>
          in \<lparr>ms_isMember = True, ms_tokenId = v_tokenId v, ms_isExpired = Some (\<not> hasActiveToken v),
              ms_expiryTime = v_expiryTime v, ms_expiredAt = v_expiredAt v\<rparr>)"

definition getMembershipStatus ::
  "('c, 'z) space_externs_scheme \<Rightarrow> Space \<Rightarrow> string list \<Rightarrow> exn + MembershipStatus" where
  "getMembershipStatus X sp wallets =
     bindE (getTokenIdsOfOwner X sp wallets) (\<lambda>tokenIds.
     if tokenIds = [] then Inr noMember
     else case mapE (\<lambda>t. contract (x_expiresAt X (sp_address sp) t)) tokenIds of
            Inl _ \<Rightarrow> Inr noMember
          | Inr expirations \<Rightarrow> Inr (status_of (x_now X) expirations tokenIds))"

definition hasSpaceMembership ::
  "('c, 'z) space_externs_scheme \<Rightarrow> string \<Rightarrow> string list \<Rightarrow> exn + bool" where
  "hasSpaceMembership X spaceId addresses =
     bindE (requireSpace X spaceId) (\<lambda>sp.
     bindE (getMembershipStatus X sp addresses) (\<lambda>st. Inr (ms_isMember st \<and> ms_isExpired st \<noteq> Some True)))"

subsection \<open>Wallets of a user\<close>

definition getLinkedWallets :: "('c, 'z) space_externs_scheme \<Rightarrow> string \<Rightarrow> exn + string list" where
  "getLinkedWallets X wallet =
     bindE (contract (x_walletsByRootKey X wallet)) (\<lambda>linkedWallets.
     if linkedWallets = [] then
       bindE (contract (x_rootKeyForWallet X wallet)) (\<lambda>possibleRoot.
       if possibleRoot \<noteq> zeroAddress then
         bindE (contract (x_walletsByRootKey X possibleRoot)) (\<lambda>linked. Inr (possibleRoot # linked))
       else Inr (wallet # linkedWallets))
     else Inr (wallet # linkedWallets))"

definition computeDelegatorsForProvider ::
  "('c, 'z) space_externs_scheme \<Rightarrow> string \<Rightarrow> string list \<Rightarrow> exn + string list" where
  "computeDelegatorsForProvider X provider wallets =
     bindE (mapE (\<lambda>w. bindE (contract (x_delegations X provider w)) (\<lambda>infos.
              Inr (map snd (filter (\<lambda>info. fst info = 1) infos)))) wallets) (\<lambda>delegatorWallets.
     if delegatorWallets = [] then Inl JsError else Inr (new_Set (concat delegatorWallets)))"

definition getMainnetDelegationsForLinkedWallets ::
  "('c, 'z) space_externs_scheme \<Rightarrow> string list \<Rightarrow> XchainConfig \<Rightarrow> exn + string list" where
  "getMainnetDelegationsForLinkedWallets X linkedWallets config =
     bindE (findEthereumProviders X config) (\<lambda>ethProviders.
     foldE (\<lambda>provider delegatorSet.
       bindE (computeDelegatorsForProvider X provider linkedWallets) (\<lambda>delegators.
       Inr (fold set_add delegators delegatorSet))) ethProviders [])"

definition getLinkedWalletsWithDelegations ::
  "('c, 'z) space_externs_scheme \<Rightarrow> string \<Rightarrow> XchainConfig \<Rightarrow> exn + string list" where
  "getLinkedWalletsWithDelegations X wallet config =
     bindE (getLinkedWallets X wallet) (\<lambda>linkedWallets.
     bindE (getMainnetDelegationsForLinkedWallets X linkedWallets config) (\<lambda>delegators.
     Inr (new_Set (new_Set linkedWallets @ delegators))))"

subsection \<open>Bans\<close>

definition walletAddressIsBanned ::
  "('c, 'z) space_externs_scheme \<Rightarrow> string \<Rightarrow> string \<Rightarrow> ('c, bool) dapp" where
  "walletAddressIsBanned X spaceId walletAddress =
     bindS (liftS (requireSpace X spaceId)) (\<lambda>sp.
     bindS (liftS (contract (x_tokensOfOwner X (sp_address sp) walletAddress))) (\<lambda>tokens.
     case tokens of
       [] \<Rightarrow> liftS (Inl JsError)
     | token # _ \<Rightarrow>
         sc_executeUsingCache (x_boolTTL X) isBannedTokenCache isBannedTokenCache_update (IsTokenBanned spaceId token)
           (liftS (contract (x_isBanned X (sp_address sp) token)))))"

text \<open>\<open>Promise.any\<close> over the wallets: a rejected lookup counts like the answer that the wallet is not banned.\<close>

definition any_banned :: "('c, 'z) space_externs_scheme \<Rightarrow> string \<Rightarrow> string list \<Rightarrow> ('c, bool) dapp" where
  "any_banned X spaceId wallets s =
     (let (rs, s1) = settleS (walletAddressIsBanned X spaceId) wallets s in (Inr (Inr True \<in> set rs), s1))"

definition updateCacheAfterBanOrUnBan ::
  "('c, 'z) space_externs_scheme \<Rightarrow> string \<Rightarrow> int \<Rightarrow> 'c SpaceDapp \<Rightarrow> 'c SpaceDapp" where
  "updateCacheAfterBanOrUnBan X spaceId tokenId s =
     s\<lparr>bannedTokenIdsCache := t_delete (x_idsTTL X) (BannedTokenIdsRequest spaceId) (bannedTokenIdsCache s),
       ownerOfTokenCache := t_delete (x_stringTTL X) (OwnerOfTokenRequest spaceId tokenId) (ownerOfTokenCache s),
       isBannedTokenCache := t_delete (x_boolTTL X) (IsTokenBanned spaceId tokenId) (isBannedTokenCache s)\<rparr>"

text \<open>\<open>banWalletAddress\<close> and \<open>unbanWalletAddress\<close> differ in the transaction only, whose course is an argument
  (for a given token); \<open>None\<close> if it does not end. Without a token the contract call throws.\<close>

definition banWalletAddress ::
  "('c, 'z) space_externs_scheme \<Rightarrow> nat option \<Rightarrow> bool \<Rightarrow> (int option \<Rightarrow> 'tx chain_run) \<Rightarrow> string \<Rightarrow> string \<Rightarrow>
   'c SpaceDapp \<Rightarrow> ((exn + 'tx) \<times> 'c SpaceDapp) option" where
  "banWalletAddress X retryCount isTestEnv R spaceId walletAddress s =
     (case bindE (requireSpace X spaceId) (\<lambda>sp. contract (x_tokensOfOwner X (sp_address sp) walletAddress)) of
        Inl e \<Rightarrow> Some (Inl e, s)
      | Inr tokens \<Rightarrow>
          map_option (\<lambda>(r, _).
            case (r, at tokens 0) of
              (Inr tx, Some token) \<Rightarrow> (Inr tx, updateCacheAfterBanOrUnBan X spaceId token s)
            | (Inr tx, None) \<Rightarrow> (Inl JsError, s)
            | (Inl e, _) \<Rightarrow> (Inl e, s))
            (wrapTransaction retryCount isTestEnv (R (at tokens 0))))"

text \<open>The owners found in the cache, and those read with one multicall; a failing multicall is logged only.\<close>

definition owner_result ::
  "('c, 'z) space_externs_scheme \<Rightarrow> string \<Rightarrow> int \<times> string \<Rightarrow> (string, string) jsmap \<times> 'c SpaceDapp \<Rightarrow>
   (string, string) jsmap \<times> 'c SpaceDapp" where
  "owner_result X spaceId = (\<lambda>(tokenId, resultData) (ownerMap, s).
     if resultData = [] \<or> resultData = ''0x'' then (ownerMap, s)
     else case x_decodeOwnerOf X resultData of
            None \<Rightarrow> (ownerMap, s)
          | Some ownerAddress \<Rightarrow>
              if x_validAddress X ownerAddress then
                (map_set (int_toString tokenId) ownerAddress ownerMap,
                 s\<lparr>ownerOfTokenCache := t_set (x_stringTTL X) (OwnerOfTokenRequest spaceId tokenId) ownerAddress
                     (ownerOfTokenCache s)\<rparr>)
              else (ownerMap, s))"

definition bannedWalletAddresses ::
  "('c, 'z) space_externs_scheme \<Rightarrow> string \<Rightarrow> ('c, string list) dapp" where
  "bannedWalletAddresses X spaceId =
     bindS (liftS (requireSpace X spaceId)) (\<lambda>sp.
     bindS (sc_executeUsingCache (x_idsTTL X) bannedTokenIdsCache bannedTokenIdsCache_update
              (BannedTokenIdsRequest spaceId) (liftS (contract (x_banned X (sp_address sp))))) (\<lambda>bannedTokenIds s.
     let cached = (\<lambda>t. truthy_str (t_get (x_stringTTL X) (ownerOfTokenCache s) (OwnerOfTokenRequest spaceId t)));
         ownerMap = fold (\<lambda>t m. case cached t of Some owner \<Rightarrow> map_set (int_toString t) owner m | None \<Rightarrow> m)
                      bannedTokenIds [];
         tokenIdsToFetch = filter (\<lambda>t. cached t = None) bannedTokenIds;
         (ownerMap', s') =
           (case mapE (\<lambda>t. contract (x_ownerOf X (sp_address sp) t)) tokenIdsToFetch of
              Inl _ \<Rightarrow> (ownerMap, s)
            | Inr results \<Rightarrow> fold (owner_result X spaceId) (zip tokenIdsToFetch results) (ownerMap, s))
     in (Inr (new_Set (map snd ownerMap')), s')))"

subsection \<open>Entitlements of a permission\<close>

definition decodeGetRuleData :: "('c, 'z) space_externs_scheme \<Rightarrow> string \<Rightarrow> RuleData option" where
  "decodeGetRuleData X data = (case x_decodeGetRuleData X data of Some (d # _) \<Rightarrow> Some d | _ \<Rightarrow> None)"

definition decodeGetRuleDataV2 :: "('c, 'z) space_externs_scheme \<Rightarrow> string \<Rightarrow> RuleDataV2 option" where
  "decodeGetRuleDataV2 X data = (case x_decodeGetRuleDataV2 X data of Some (d # _) \<Rightarrow> Some d | _ \<Rightarrow> None)"

definition decode_entitlement ::
  "('c, 'z) space_externs_scheme \<Rightarrow> bool \<Rightarrow> bool \<Rightarrow> bool \<Rightarrow> string \<times> string \<Rightarrow> exn + EntitlementData" where
  "decode_entitlement X userShim ruleShim ruleV2Shim = (\<lambda>(entitlementType, data).
     bindE (of_option JsError (moduleType entitlementType)) (\<lambda>t.
     Inr \<lparr>ed_entitlementType = t,
          ed_ruleEntitlement =
            (case t of
               RuleEntitlementModule \<Rightarrow> if ruleShim then map_option RuleV1 (decodeGetRuleData X data) else None
             | RuleEntitlementV2Module \<Rightarrow> if ruleV2Shim then map_option RuleV2 (decodeGetRuleDataV2 X data) else None
             | UserEntitlementModule \<Rightarrow> None),
          ed_userEntitlement =
            (if t = UserEntitlementModule \<and> userShim then x_decodeGetAddresses X data else None)\<rparr>))"

definition decodeEntitlementData ::
  "('c, 'z) space_externs_scheme \<Rightarrow> Space \<Rightarrow> (string \<times> string) list \<Rightarrow> ('c, EntitlementData list) dapp" where
  "decodeEntitlementData X sp entitlementData =
     bindS (findEntitlementByType X UserEntitlementModule sp) (\<lambda>userShim.
     bindS (findEntitlementByType X RuleEntitlementModule sp) (\<lambda>ruleShim.
     bindS (findEntitlementByType X RuleEntitlementV2Module sp) (\<lambda>ruleV2Shim.
     liftS (mapE (decode_entitlement X userShim ruleShim ruleV2Shim) entitlementData))))"

definition EntitlementDataCacheResult :: "EntitlementData list \<Rightarrow> EntitlementData list CacheResult" where
  "EntitlementDataCacheResult v = \<lparr>cr_value = v, cacheHit = False, isPositive = True\<rparr>"

definition EntitledWalletCacheResult :: "string option \<Rightarrow> string option CacheResult" where
  "EntitledWalletCacheResult v = \<lparr>cr_value = v, cacheHit = False, isPositive = (v \<noteq> None)\<rparr>"

definition BooleanCacheResult :: "bool \<Rightarrow> bool CacheResult" where
  "BooleanCacheResult v = \<lparr>cr_value = v, cacheHit = False, isPositive = v\<rparr>"

definition mapS :: "('a \<Rightarrow> 'b) \<Rightarrow> ('s, 'a) io \<Rightarrow> ('s, 'b) io" where
  "mapS f m = bindS m (\<lambda>x. retS (f x))"

definition getEntitlementsForPermissionUncached ::
  "('c, 'z) space_externs_scheme \<Rightarrow> string \<Rightarrow> string \<Rightarrow> ('c, EntitlementData list) dapp" where
  "getEntitlementsForPermissionUncached X spaceId permission =
     bindS (liftS (requireSpace X spaceId)) (\<lambda>sp.
     bindS (liftS (contract (x_entitlementData X (sp_address sp) permission))) (decodeEntitlementData X sp))"

definition getEntitlementsForPermission ::
  "('c, 'z) space_externs_scheme \<Rightarrow> string \<Rightarrow> string \<Rightarrow> ('c, EntitlementData list) dapp" where
  "getEntitlementsForPermission X spaceId permission =
     mapS cr_value (ec_executeUsingCache (x_entitlementTTL X) entitlementCache entitlementCache_update
       (EntitlementRequest spaceId [] [] permission)
       (mapS EntitlementDataCacheResult (getEntitlementsForPermissionUncached X spaceId permission)))"

definition getChannelEntitlementsForPermissionUncached ::
  "('c, 'z) space_externs_scheme \<Rightarrow> string \<Rightarrow> string \<Rightarrow> string \<Rightarrow> ('c, EntitlementData list) dapp" where
  "getChannelEntitlementsForPermissionUncached X spaceId channelId permission =
     bindS (liftS (requireSpace X spaceId)) (\<lambda>sp.
     bindS (liftS (contract (x_channelEntitlementData X (sp_address sp) channelId permission)))
       (decodeEntitlementData X sp))"

definition getChannelEntitlementsForPermission ::
  "('c, 'z) space_externs_scheme \<Rightarrow> string \<Rightarrow> string \<Rightarrow> string \<Rightarrow> ('c, EntitlementData list) dapp" where
  "getChannelEntitlementsForPermission X spaceId channelId permission =
     mapS cr_value (ec_executeUsingCache (x_entitlementTTL X) entitlementCache entitlementCache_update
       (EntitlementRequest spaceId channelId [] permission)
       (mapS EntitlementDataCacheResult (getChannelEntitlementsForPermissionUncached X spaceId channelId permission)))"

subsection \<open>Who is entitled\<close>

definition users_of :: "EntitlementData \<Rightarrow> string list" where
  "users_of e = (case ed_userEntitlement e of Some us \<Rightarrow> us | None \<Rightarrow> [])"

definition v1_rules :: "EntitlementData list \<Rightarrow> RuleData list" where
  "v1_rules entitlements = List.map_filter (\<lambda>e. if ed_entitlementType e = RuleEntitlementModule
     then (case ed_ruleEntitlement e of Some (RuleV1 r) \<Rightarrow> Some r | _ \<Rightarrow> None) else None) entitlements"

definition v2_rules :: "EntitlementData list \<Rightarrow> RuleDataV2 list" where
  "v2_rules entitlements = List.map_filter (\<lambda>e. if ed_entitlementType e = RuleEntitlementV2Module
     then (case ed_ruleEntitlement e of Some (RuleV2 r) \<Rightarrow> Some r | _ \<Rightarrow> None) else None) entitlements"

text \<open>The outcome of one rule; \<open>Inr None\<close> stands for the \<open>NoEntitledWalletError\<close>.\<close>

definition rule_outcome ::
  "('c, 'z) space_externs_scheme \<Rightarrow> string list \<Rightarrow> XchainConfig \<Rightarrow> RuleDataV2 \<Rightarrow> exn + string option" where
  "rule_outcome X allWallets xchainConfig ruleData =
     bindE (ruleDataToOperations ruleData) (\<lambda>operations.
     bindE (evaluateOperationsForEntitledWallet X (x_leftFirst X) operations allWallets xchainConfig) (\<lambda>result.
     Inr (if result \<noteq> zeroAddress then Some result else None)))"

text \<open>\<open>Promise.any\<close> and \<open>NoEntitledWalletError.throwIfRuntimeErrors\<close>\<close>

definition any_rule :: "('c, 'z) space_externs_scheme \<Rightarrow> (exn + string option) list \<Rightarrow> exn + string option" where
  "any_rule X outcomes =
     (let fulfilled = List.map_filter (\<lambda>r. case r of Inr (Some w) \<Rightarrow> Some w | _ \<Rightarrow> None) outcomes
      in if fulfilled \<noteq> [] then Inr (Some (x_pick X fulfilled))
         else if list_ex isl outcomes then Inl JsError else Inr None)"

definition evaluateEntitledWallet ::
  "('c, 'z) space_externs_scheme \<Rightarrow> Space \<Rightarrow> string \<Rightarrow> string list \<Rightarrow> EntitlementData list \<Rightarrow> XchainConfig \<Rightarrow>
   exn + string option" where
  "evaluateEntitledWallet X sp rootKey allWallets entitlements xchainConfig =
     bindE (getMembershipStatus X sp allWallets) (\<lambda>status.
     if ms_isExpired status = Some True then Inr None
     else if list_ex (\<lambda>e. EVERYONE_ADDRESS \<in> set (users_of e)) entitlements then Inr (Some rootKey)
     else case concat (map (\<lambda>e. filter (\<lambda>user. user \<in> set (users_of e)) allWallets) entitlements) of
            user # _ \<Rightarrow> Inr (Some user)
          | [] \<Rightarrow>
              bindE (mapE (convertRuleDataV1ToV2 X) (v1_rules entitlements)) (\<lambda>converted.
              any_rule X (map (rule_outcome X allWallets xchainConfig) (converted @ v2_rules entitlements))))"

definition getEntitledWalletForJoiningSpaceUncached ::
  "('c, 'z) space_externs_scheme \<Rightarrow> string \<Rightarrow> string \<Rightarrow> XchainConfig \<Rightarrow> ('c, string option) dapp" where
  "getEntitledWalletForJoiningSpaceUncached X spaceId rootKey xchainConfig =
     bindS (liftS (getLinkedWalletsWithDelegations X rootKey xchainConfig)) (\<lambda>allWallets.
     bindS (liftS (requireSpace X spaceId)) (\<lambda>sp.
     bindS (getOwner X sp) (\<lambda>owner.
     if owner \<in> set allWallets then retS (Some owner)
     else bindS (any_banned X spaceId allWallets) (\<lambda>banned.
          if banned then retS None
          else bindS (getEntitlementsForPermission X spaceId ''JoinSpace'') (\<lambda>entitlements.
               liftS (evaluateEntitledWallet X sp rootKey allWallets entitlements xchainConfig))))))"

definition getEntitledWalletForJoiningSpace ::
  "('c, 'z) space_externs_scheme \<Rightarrow> string \<Rightarrow> string \<Rightarrow> XchainConfig \<Rightarrow> bool \<Rightarrow> ('c, string option) dapp" where
  "getEntitledWalletForJoiningSpace X spaceId rootKey xchainConfig invalidateCache s =
     (let key = EntitlementRequest spaceId [] rootKey ''JoinSpace'';
          s1 = (if invalidateCache
                then entitlementEvaluationCache_update (ec_invalidate (x_evaluationTTL X) key) s else s)
      in mapS cr_value (ec_executeUsingCache (x_walletTTL X) entitledWalletCache entitledWalletCache_update key
           (mapS EntitledWalletCacheResult (getEntitledWalletForJoiningSpaceUncached X spaceId rootKey xchainConfig))) s1)"

definition isEntitledToSpaceUncached ::
  "('c, 'z) space_externs_scheme \<Rightarrow> string \<Rightarrow> string \<Rightarrow> string \<Rightarrow> ('c, bool) dapp" where
  "isEntitledToSpaceUncached X spaceId user permission =
     bindS (liftS (getSpace X spaceId)) (\<lambda>space.
     case space of
       None \<Rightarrow> retS False
     | Some sp \<Rightarrow>
         if permission = ''JoinSpace'' then liftS (Inl JsError)
         else liftS (contract (x_isEntitledToSpace X (sp_address sp) user permission)))"

definition isEntitledToSpace ::
  "('c, 'z) space_externs_scheme \<Rightarrow> string \<Rightarrow> string \<Rightarrow> string \<Rightarrow> bool \<Rightarrow> ('c, bool) dapp" where
  "isEntitledToSpace X spaceId user permission invalidateCache s =
     (let key = EntitlementRequest spaceId [] user permission;
          s1 = (if invalidateCache
                then entitlementEvaluationCache_update (ec_invalidate (x_evaluationTTL X) key) s else s)
      in mapS cr_value (ec_executeUsingCache (x_evaluationTTL X) entitlementEvaluationCache
           entitlementEvaluationCache_update key
           (mapS BooleanCacheResult (isEntitledToSpaceUncached X spaceId user permission))) s1)"

definition isEntitledToChannelUncached ::
  "('c, 'z) space_externs_scheme \<Rightarrow> string \<Rightarrow> string \<Rightarrow> string \<Rightarrow> string \<Rightarrow> XchainConfig \<Rightarrow> ('c, bool) dapp" where
  "isEntitledToChannelUncached X spaceId channelNetworkId user permission xchainConfig =
     bindS (liftS (getSpace X spaceId)) (\<lambda>space.
     case space of
       None \<Rightarrow> retS False
     | Some sp \<Rightarrow>
         bindS (liftS (getLinkedWalletsWithDelegations X user xchainConfig)) (\<lambda>linkedWallets.
         bindS (getOwner X sp) (\<lambda>owner.
         if owner \<in> set linkedWallets then retS True
         else bindS (any_banned X spaceId linkedWallets) (\<lambda>banned.
              if banned then retS False
              else bindS (getChannelEntitlementsForPermission X spaceId (ensureHexPrefix channelNetworkId) permission)
                (\<lambda>entitlements.
                liftS (bindE (evaluateEntitledWallet X sp user linkedWallets entitlements xchainConfig)
                  (\<lambda>entitledWallet. Inr (entitledWallet \<noteq> None))))))))"

definition isEntitledToChannel ::
  "('c, 'z) space_externs_scheme \<Rightarrow> string \<Rightarrow> string \<Rightarrow> string \<Rightarrow> string \<Rightarrow> XchainConfig \<Rightarrow> bool \<Rightarrow> ('c, bool) dapp" where
  "isEntitledToChannel X spaceId channelNetworkId user permission xchainConfig invalidateCache s =
     (let key = EntitlementRequest spaceId channelNetworkId user permission;
          s1 = (if invalidateCache
                then entitlementEvaluationCache_update (ec_invalidate (x_evaluationTTL X) key) s else s)
      in mapS cr_value (ec_executeUsingCache (x_evaluationTTL X) entitlementEvaluationCache
           entitlementEvaluationCache_update key
           (mapS BooleanCacheResult
             (isEntitledToChannelUncached X spaceId channelNetworkId user permission xchainConfig))) s1)"

definition getTokenIdOfOwner ::
  "('c, 'z) space_externs_scheme \<Rightarrow> string \<Rightarrow> string \<Rightarrow> XchainConfig \<Rightarrow> exn + string option" where
  "getTokenIdOfOwner X spaceId owner config =
     bindE (requireSpace X spaceId) (\<lambda>sp.
     bindE (getLinkedWalletsWithDelegations X owner config) (\<lambda>linkedWallets.
     bindE (getTokenIdsOfOwner X sp linkedWallets) (\<lambda>tokenIds. Inr (at tokenIds 0))))"

subsection \<open>The price of joining\<close>

definition getJoinSpacePriceDetails ::
  "('c, 'z) space_externs_scheme \<Rightarrow> string \<Rightarrow> exn + int \<times> int \<times> int" where
  "getJoinSpacePriceDetails X spaceId =
     bindE (requireSpace X spaceId) (\<lambda>sp.
     bindE (contract (x_priceInfo X (sp_address sp))) (\<lambda>(membershipPrice, totalSupply, freeAllocation, prepaidSupply).
     let remainingFreeSupply =
           (if totalSupply < freeAllocation then freeAllocation + prepaidSupply - totalSupply else prepaidSupply)
     in Inr (if remainingFreeSupply > 0 then 0 else membershipPrice, prepaidSupply, remainingFreeSupply)))"

subsection \<open>Updating channels\<close>

datatype UpdateChannelParams =
    UpdateChannelMetadataParams string string string string "int list" "bool option"
  | UpdateChannelAccessParams string string bool

definition json_char :: "char \<Rightarrow> string" where
  "json_char c =
     (if c = CHR 0x22 then [CHR 0x5C, CHR 0x22]
      else if c = CHR 0x5C then [CHR 0x5C, CHR 0x5C]
      else if c = CHR 0x08 then CHR 0x5C # ''b''
      else if c = CHR 0x0C then CHR 0x5C # ''f''
      else if c = CHR 0x0A then CHR 0x5C # ''n''
      else if c = CHR 0x0D then CHR 0x5C # ''r''
      else if c = CHR 0x09 then CHR 0x5C # ''t''
      else if of_char c < (0x20 :: nat) then
        CHR 0x5C # ''u00'' @ [''01'' ! (of_char c div 16), ''0123456789abcdef'' ! (of_char c mod 16)]
      else [c])"

definition json_string :: "string \<Rightarrow> string" where
  "json_string s = [CHR 0x22] @ concat (map json_char s) @ [CHR 0x22]"

definition stringifyChannelMetadataJSON :: "string \<Rightarrow> string \<Rightarrow> string" where
  "stringifyChannelMetadataJSON name description =
     ''{'' @ json_string ''name'' @ '':'' @ json_string name @ '','' @ json_string ''description'' @ '':'' @
     json_string description @ ''}''"

definition role_calls :: "string \<Rightarrow> int list \<Rightarrow> int list \<Rightarrow> ChannelCall list" where
  "role_calls channelId currentRoleIds updatedRoleIds =
     map (removeRoleFromChannel_call channelId) (filter (\<lambda>r. r \<notin> set updatedRoleIds) (new_Set currentRoleIds)) @
     map (addRoleToChannel_call channelId) (filter (\<lambda>r. r \<notin> set currentRoleIds) (new_Set updatedRoleIds))"

definition encodeUpdateChannelRoles ::
  "('c, 'z) space_externs_scheme \<Rightarrow> Space \<Rightarrow> string \<Rightarrow> int list \<Rightarrow> ('c, string list) dapp" where
  "encodeUpdateChannelRoles X sp channelNetworkId updatedRoleIds =
     bindS (liftS (contract (x_channelRoleIds X (sp_address sp) (ensureHexPrefix channelNetworkId)))) (\<lambda>currentRoleIds.
     bindS (getEntitlementShims X sp) (\<lambda>_.
     liftS (mapE (\<lambda>c. contract (x_encodeChannelCall X c))
       (role_calls (ensureHexPrefix channelNetworkId) currentRoleIds updatedRoleIds))))"

definition encodedUpdateChannelData ::
  "('c, 'z) space_externs_scheme \<Rightarrow> Space \<Rightarrow> UpdateChannelParams \<Rightarrow> ('c, string list) dapp" where
  "encodedUpdateChannelData X sp params =
     (case params of
        UpdateChannelAccessParams spaceId channelId disabled \<Rightarrow>
          liftS (mapE (\<lambda>c. contract (x_encodeChannelCall X c)) [updateChannel_call (ensureHexPrefix channelId) [] True])
      | UpdateChannelMetadataParams spaceId channelId channelName channelDescription roleIds disabled \<Rightarrow>
          bindS (liftS (contract (x_encodeChannelCall X (updateChannel_call (ensureHexPrefix channelId)
                   (stringifyChannelMetadataJSON channelName channelDescription) (default False disabled))))) (\<lambda>first.
          bindS (encodeUpdateChannelRoles X sp channelId roleIds) (\<lambda>roles. retS (first # roles))))"

subsection \<open>The status of a membership\<close>

definition is_max :: "int set \<Rightarrow> int option \<Rightarrow> bool" where
  "is_max S m \<longleftrightarrow> (case m of None \<Rightarrow> S = {} | Some e \<Rightarrow> e \<in> S \<and> (\<forall>x \<in> S. x \<le> e))"

lemma is_max_insert:
  "is_max S m \<Longrightarrow> is_max (insert e S) (if m = None \<or> e > the m then Some e else m)"
  by (cases m) (force simp: is_max_def)+

definition active_times :: "int \<Rightarrow> (int \<times> string) list \<Rightarrow> int set" where
  "active_times now ps = {e \<in> fst ` set ps. e > now}"

definition expired_times :: "int \<Rightarrow> (int \<times> string) list \<Rightarrow> int set" where
  "expired_times now ps = {e \<in> fst ` set ps. \<not> e > now}"

lemma times_snoc:
  "active_times now (ps @ [(e, t)]) = (if e > now then insert e (active_times now ps) else active_times now ps)"
  "expired_times now (ps @ [(e, t)]) = (if e > now then expired_times now ps else insert e (expired_times now ps))"
  by (auto simp: active_times_def expired_times_def)

definition best_token :: "(int \<times> string) list \<Rightarrow> string option \<Rightarrow> bool" where
  "best_token ps token \<longleftrightarrow>
     (case token of None \<Rightarrow> ps = [] | Some t \<Rightarrow> \<exists>e. (e, t) \<in> set ps \<and> (\<forall>p \<in> set ps. fst p \<le> e))"

definition status_inv :: "int \<Rightarrow> (int \<times> string) list \<Rightarrow> status_vars \<Rightarrow> bool" where
  "status_inv now ps v \<longleftrightarrow>
     (hasActiveToken v \<longleftrightarrow> active_times now ps \<noteq> {}) \<and> is_max (active_times now ps) (v_expiryTime v) \<and>
     is_max (expired_times now ps) (v_expiredAt v) \<and> best_token ps (v_tokenId v)"

lemma best_token_new: "\<forall>p \<in> set ps. fst p \<le> e \<Longrightarrow> best_token (ps @ [(e, t)]) (Some t)"
  by (auto simp: best_token_def)

lemma best_token_keep: "best_token ps token \<Longrightarrow> p' \<in> set ps \<Longrightarrow> e \<le> fst p' \<Longrightarrow> best_token (ps @ [(e, t)]) token"
  by (cases token) (auto simp: best_token_def intro: order_trans)

lemma status_inv_step:
  assumes inv: "status_inv now ps v"
  shows "status_inv now (ps @ [(e, t)]) (status_step now (e, t) v)"
proof -
  have act: "hasActiveToken v \<longleftrightarrow> active_times now ps \<noteq> {}" "is_max (active_times now ps) (v_expiryTime v)"
    and exp: "is_max (expired_times now ps) (v_expiredAt v)" and tok: "best_token ps (v_tokenId v)"
    using inv by (simp_all add: status_inv_def)
  have le: "fst p \<le> m" if "p \<in> set ps" "\<And>x. x \<in> active_times now ps \<Longrightarrow> x \<le> m" "\<And>x. x \<in> expired_times now ps \<Longrightarrow> x \<le> m" for p m
    using that(1) that(2,3)[of "fst p"] by (cases "fst p > now") (auto simp: active_times_def expired_times_def)
  show ?thesis
  proof (cases "e > now")
    case a: True
    show ?thesis
    proof (cases "v_expiryTime v = None \<or> e > the (v_expiryTime v)")
      case True
      then have "fst p \<le> e" if "p \<in> set ps" for p
        using act(2) a by (intro le[OF that]) (auto simp: is_max_def expired_times_def split: option.splits)
      with a True is_max_insert[OF act(2), of e] exp show ?thesis
        by (auto simp: status_inv_def status_step_def times_snoc Let_def intro!: best_token_new)
    next
      case False
      then obtain m where m: "v_expiryTime v = Some m" "e \<le> m" by auto
      then obtain p where "p \<in> set ps" "e \<le> fst p" using act(2) by (auto simp: is_max_def active_times_def)
      from best_token_keep[OF tok this] a m is_max_insert[OF act(2), of e] exp show ?thesis
        by (simp add: status_inv_def status_step_def times_snoc Let_def)
    qed
  next
    case x: False
    show ?thesis
    proof (cases "v_expiredAt v = None \<or> e > the (v_expiredAt v)")
      case True
      have "best_token (ps @ [(e, t)]) (if hasActiveToken v then v_tokenId v else Some t)"
      proof (cases "hasActiveToken v")
        case True
        then obtain p where "p \<in> set ps" "e \<le> fst p" using act(1) x by (force simp: active_times_def)
        from best_token_keep[OF tok this] True show ?thesis by simp
      next
        case False
        then have "fst p \<le> e" if "p \<in> set ps" for p
          using act(1) exp \<open>v_expiredAt v = None \<or> e > the (v_expiredAt v)\<close>
          by (intro le[OF that]) (auto simp: is_max_def split: option.splits)
        with False show ?thesis by (simp add: best_token_new)
      qed
      with x True is_max_insert[OF exp, of e] act show ?thesis
        by (cases "hasActiveToken v") (simp_all add: status_inv_def status_step_def times_snoc Let_def)
    next
      case False
      then obtain m where m: "v_expiredAt v = Some m" "e \<le> m" by auto
      then obtain p where "p \<in> set ps" "e \<le> fst p" using exp by (auto simp: is_max_def expired_times_def)
      from best_token_keep[OF tok this] x m is_max_insert[OF exp, of e] act show ?thesis
        by (simp add: status_inv_def status_step_def times_snoc Let_def)
    qed
  qed
qed

lemma status_inv_fold:
  "status_inv now qs v \<Longrightarrow> status_inv now (qs @ ps) (fold (status_step now) ps v)"
proof (induction ps arbitrary: qs v)
  case (Cons p ps)
  obtain e t where p: "p = (e, t)" by (cases p)
  show ?case using Cons.IH[OF status_inv_step[OF Cons.prems, of e t]] p by simp
qed simp

text \<open>
  C39. The membership that \<open>getMembershipStatus\<close> reports is the best one of all linked wallets: for a member whose
  expirations can be read, the status is expired exactly if every token has an expiration in the past; the token it
  names is one without expiration if there is one, and otherwise one that expires last; the times of the next and
  the last expiry are the greatest of the future and of the past expirations.\<close>

theorem membership_best_token:
  assumes "getTokenIdsOfOwner X sp wallets = Inr tokenIds" "tokenIds \<noteq> []"
    "\<forall>t \<in> set tokenIds. x_expiresAt X (sp_address sp) t = Some (expiry t)"
  shows "\<exists>st t. getMembershipStatus X sp wallets = Inr st \<and> ms_isMember st
    \<and> ms_isExpired st = Some (\<forall>t \<in> set tokenIds. expiry t \<noteq> 0 \<and> expiry t \<le> x_now X)
    \<and> ms_tokenId st = Some t \<and> t \<in> set tokenIds
    \<and> (if \<exists>t \<in> set tokenIds. expiry t = 0 then expiry t = 0 \<and> ms_expiryTime st = Some 0
       else (\<forall>t' \<in> set tokenIds. expiry t' \<le> expiry t)
         \<and> is_max {e \<in> expiry ` set tokenIds. e > x_now X} (ms_expiryTime st)
         \<and> is_max {e \<in> expiry ` set tokenIds. \<not> e > x_now X} (ms_expiredAt st))"
proof -
  have "mapE (\<lambda>t. contract (x_expiresAt X (sp_address sp) t)) tokenIds = Inr (map expiry tokenIds)"
    using assms(3) by (induction tokenIds) (auto simp: contract_def)
  then have st: "getMembershipStatus X sp wallets = Inr (status_of (x_now X) (map expiry tokenIds) tokenIds)"
    using assms(1,2) by (simp add: getMembershipStatus_def)
  show ?thesis
  proof (cases "find_index (\<lambda>e. e = 0) (map expiry tokenIds)")
    case (Some i)
    then have i: "i < length tokenIds" "expiry (tokenIds ! i) = 0" using find_index_SomeD[OF Some] by auto
    then have "at tokenIds i = Some (tokenIds ! i)" by (simp add: at_def)
    with st i Some show ?thesis
      by (intro exI[of _ "status_of (x_now X) (map expiry tokenIds) tokenIds"] exI[of _ "tokenIds ! i"])
        (auto simp: status_of_def intro: nth_mem)
  next
    case None
    then have nz: "\<forall>t \<in> set tokenIds. expiry t \<noteq> 0" by (simp add: find_index_None_iff)
    define ps where "ps = zip (map expiry tokenIds) tokenIds"
    have ps: "ps = map (\<lambda>t. (expiry t, t)) tokenIds" by (simp add: ps_def zip_map1 zip_same_conv_map)
    define v where "v = fold (status_step (x_now X)) ps
      \<lparr>hasActiveToken = False, v_expiryTime = None, v_expiredAt = None, v_tokenId = None\<rparr>"
    have inv: "status_inv (x_now X) ps v"
      using status_inv_fold[of "x_now X" "[]" _ ps]
      by (simp add: v_def status_inv_def is_max_def best_token_def active_times_def expired_times_def)
    have times: "active_times (x_now X) ps = {e \<in> expiry ` set tokenIds. e > x_now X}"
      "expired_times (x_now X) ps = {e \<in> expiry ` set tokenIds. \<not> e > x_now X}"
      by (auto simp: active_times_def expired_times_def ps image_iff)
    obtain t where t: "v_tokenId v = Some t" "t \<in> set tokenIds" "\<forall>t' \<in> set tokenIds. expiry t' \<le> expiry t"
      using inv assms(2) by (auto simp: status_inv_def best_token_def ps split: option.splits)
    have act: "(\<not> hasActiveToken v) = (\<forall>t \<in> set tokenIds. expiry t \<noteq> 0 \<and> expiry t \<le> x_now X)"
      using inv nz by (force simp: status_inv_def times)
    define r where "r = \<lparr>ms_isMember = True, ms_tokenId = v_tokenId v, ms_isExpired = Some (\<not> hasActiveToken v),
       ms_expiryTime = v_expiryTime v, ms_expiredAt = v_expiredAt v\<rparr>"
    have "status_of (x_now X) (map expiry tokenIds) tokenIds = r"
      using None by (simp add: status_of_def v_def ps_def r_def Let_def)
    moreover have "is_max {e \<in> expiry ` set tokenIds. e > x_now X} (v_expiryTime v)"
      "is_max {e \<in> expiry ` set tokenIds. \<not> e > x_now X} (v_expiredAt v)"
      using inv by (simp_all add: status_inv_def times)
    moreover have "\<not> (\<exists>t \<in> set tokenIds. expiry t = 0)" using nz by blast
    moreover have "ms_isMember r" "ms_tokenId r = Some t"
      "ms_isExpired r = Some (\<forall>t \<in> set tokenIds. expiry t \<noteq> 0 \<and> expiry t \<le> x_now X)"
      "ms_expiryTime r = v_expiryTime v" "ms_expiredAt r = v_expiredAt v"
      using t(1) act by (simp_all add: r_def)
    ultimately show ?thesis using st t(2,3) by (intro exI[of _ r] exI[of _ t]) simp
  qed
qed

subsection \<open>Results of evaluations\<close>

definition pick_law :: "('c, 'z) space_externs_scheme \<Rightarrow> bool" where
  "pick_law X \<longleftrightarrow> (\<forall>xs. xs \<noteq> [] \<longrightarrow> x_pick X xs \<in> set xs)"

lemma entitled_by_balance_in: "entitled_by_balance bs t \<in> insert zeroAddress (fst ` set bs)"
proof -
  define xs where "xs = filter (\<lambda>b. snd b > 0) bs"
  have "hd xs \<in> set bs" if "xs \<noteq> []" using hd_in_set[OF that] by (simp add: xs_def)
  then show ?thesis unfolding entitled_by_balance_def Let_def xs_def[symmetric] by simp
qed

lemma balances_in: "entitled_by_balance (map (\<lambda>w. (w, f w)) ws) t \<in> insert zeroAddress (set ws)"
  using entitled_by_balance_in[of "map (\<lambda>w. (w, f w)) ws" t] by (auto simp: image_iff)

lemma eth_balances_in:
  "entitled_by_balance (concat (map (\<lambda>w. map (\<lambda>p. (w, f p w)) ps) ws)) t \<in> insert zeroAddress (set ws)"
  using entitled_by_balance_in[of "concat (map (\<lambda>w. map (\<lambda>p. (w, f p w)) ps) ws)" t] by auto

lemma token_check_in:
  "evaluateERC20Operation X c p ws = Inr w \<Longrightarrow> w \<in> insert zeroAddress (set ws)"
  "evaluateERC721Operation X c p ws = Inr w \<Longrightarrow> w \<in> insert zeroAddress (set ws)"
  "evaluateERC1155Operation X c p ws = Inr w \<Longrightarrow> w \<in> insert zeroAddress (set ws)"
  "evaluateEthBalanceOperation X c ps ws = Inr w \<Longrightarrow> w \<in> insert zeroAddress (set ws)"
proof -
  have bal: "Inr (entitled_by_balance (map (\<lambda>w. (w, f w)) ws) t) = (Inr w :: exn + string) \<Longrightarrow>
    w \<in> insert zeroAddress (set ws)" for f t using balances_in[of f ws t] by (auto simp del: insert_iff)
  have eth: "Inr (entitled_by_balance (concat (map (\<lambda>w. map (\<lambda>p. (w, f p w)) ps) ws)) t) = (Inr w :: exn + string) \<Longrightarrow>
    w \<in> insert zeroAddress (set ws)" for f ps t using eth_balances_in[of f ps ws t] by (auto simp del: insert_iff)
  show "evaluateERC20Operation X c p ws = Inr w \<Longrightarrow> w \<in> insert zeroAddress (set ws)"
    unfolding evaluateERC20Operation_def evaluateContractBalanceAcrossWallets_def bindE_Inr_iff
    by (elim exE conjE) (rule bal)
  show "evaluateERC721Operation X c p ws = Inr w \<Longrightarrow> w \<in> insert zeroAddress (set ws)"
    unfolding evaluateERC721Operation_def evaluateContractBalanceAcrossWallets_def bindE_Inr_iff
    by (elim exE conjE) (rule bal)
  show "evaluateERC1155Operation X c p ws = Inr w \<Longrightarrow> w \<in> insert zeroAddress (set ws)"
    unfolding evaluateERC1155Operation_def bindE_Inr_iff case_prod_beta by (elim exE conjE) (rule bal)
  show "evaluateEthBalanceOperation X c ps ws = Inr w \<Longrightarrow> w \<in> insert zeroAddress (set ws)"
    unfolding evaluateEthBalanceOperation_def bindE_Inr_iff
    by (elim exE conjE) (rule eth)
qed

lemma cross_check_in:
  assumes "pick_law X" "evaluateCrossChainEntitlementOperation X c p ws = Inr w"
  shows "w \<in> insert zeroAddress (set ws)"
proof -
  define xs where "xs = filter (\<lambda>w. x_isEntitled X p (ck_contractAddress c) w (ck_params c) = Some True) ws"
  have w: "w = (if xs = [] then zeroAddress else x_pick X xs)"
    using assms(2) by (auto simp: evaluateCrossChainEntitlementOperation_def xs_def Let_def)
  show ?thesis
  proof (cases "xs = []")
    case False
    then have "x_pick X xs \<in> set xs" using assms(1) by (simp add: pick_law_def)
    with w False show ?thesis by (auto simp: xs_def)
  qed (simp add: w)
qed

lemma on_provider_in:
  assumes "on_provider X cfg ch f = Inr w" "\<And>p. f p = Inr w \<Longrightarrow> w \<in> insert zeroAddress W"
  shows "w \<in> insert zeroAddress W"
  using assms by (auto simp: on_provider_def bindE_Inr_iff simp del: insert_iff split: option.splits)

lemma check_result_in:
  assumes "pick_law X" "evaluateCheckOperation X True ws cfg c = Inr w"
  shows "w \<in> insert zeroAddress (set ws)"
proof (cases "ck_checkType c")
  case ISENTITLED
  with assms(2) have "on_provider X cfg (ck_chainId c) (\<lambda>p. evaluateCrossChainEntitlementOperation X c p ws) = Inr w"
    by (auto simp: evaluateCheckOperation_def bindE_Inr_iff)
  then show ?thesis by (rule on_provider_in) (rule cross_check_in[OF assms(1)])
next
  case ETH_BALANCE
  with assms(2) obtain ps where "(if ps = [] then Inr zeroAddress else evaluateEthBalanceOperation X c ps ws) = Inr w"
    by (auto simp: evaluateCheckOperation_def bindE_Inr_iff)
  then show ?thesis using token_check_in(4)[of X c ps ws w] by (auto split: if_splits)
next
  case ERC1155
  with assms(2) have "on_provider X cfg (ck_chainId c) (\<lambda>p. evaluateERC1155Operation X c p ws) = Inr w"
    by (auto simp: evaluateCheckOperation_def bindE_Inr_iff)
  then show ?thesis by (rule on_provider_in) (rule token_check_in(3))
next
  case ERC20
  with assms(2) have "on_provider X cfg (ck_chainId c) (\<lambda>p. evaluateERC20Operation X c p ws) = Inr w"
    by (auto simp: evaluateCheckOperation_def bindE_Inr_iff)
  then show ?thesis by (rule on_provider_in) (rule token_check_in(1))
next
  case ERC721
  with assms(2) have "on_provider X cfg (ck_chainId c) (\<lambda>p. evaluateERC721Operation X c p ws) = Inr w"
    by (auto simp: evaluateCheckOperation_def bindE_Inr_iff)
  then show ?thesis by (rule on_provider_in) (rule token_check_in(2))
next
  case MOCK
  with assms(2) show ?thesis by (auto simp: evaluateCheckOperation_def evaluateMockOperation_def bindE_Inr_iff)
qed (use assms(2) in \<open>auto simp: evaluateCheckOperation_def bindE_Inr_iff\<close>)

definition own_or_zero :: "string list \<Rightarrow> exn + string \<Rightarrow> bool" where
  "own_or_zero ws r \<longleftrightarrow> (case r of Inr w \<Rightarrow> w \<in> insert zeroAddress (set ws) | Inl _ \<Rightarrow> True)"

lemma logical_result_in:
  assumes "own_or_zero ws l" "own_or_zero ws r"
  shows "own_or_zero ws (evaluateAndOperation X f l r)" "own_or_zero ws (evaluateOrOperation X f l r)"
  using assms
  by (cases l; cases r; cases f; simp add: own_or_zero_def evaluateAndOperation_def evaluateOrOperation_def)+

lemma tree_result_in:
  assumes "pick_law X" "wf_tree op"
  shows "own_or_zero ws (evaluateTree X True lf ws cfg path (Some op))"
  using assms(2)
proof (induction op arbitrary: path rule: wf_tree.induct)
  case (1 c)
  then show ?case using check_result_in[OF assms(1), of ws cfg c] by (auto simp: own_or_zero_def split: sum.splits)
next
  case (2 t left right)
  then show ?case by (cases t) (simp_all add: logical_result_in)
qed auto

subsection \<open>The decision\<close>

text \<open>The rule data encodes a tree none of whose checks rejects.\<close>

definition rule_encodes ::
  "('c, 'z) space_externs_scheme \<Rightarrow> string list \<Rightarrow> XchainConfig \<Rightarrow> RuleDataV2 \<Rightarrow> Operation \<Rightarrow> bool" where
  "rule_encodes X ws cfg rule op \<longleftrightarrow>
     wf_tree op \<and> ruleDataToOperations rule = Inr (post op) \<and>
     (\<forall>c \<in> set (checks_of op). \<not> isl (evaluateCheckOperation X True ws cfg c))"

text \<open>What the entitlements of a permission mean: everyone may, a wallet is listed, or a rule holds.\<close>

definition access_granted ::
  "('c, 'z) space_externs_scheme \<Rightarrow> string list \<Rightarrow> XchainConfig \<Rightarrow> EntitlementData list \<Rightarrow> Operation list \<Rightarrow> bool" where
  "access_granted X ws cfg entitlements rules \<longleftrightarrow>
     (\<exists>e \<in> set entitlements. EVERYONE_ADDRESS \<in> set (users_of e)) \<or>
     (\<exists>e \<in> set entitlements. \<exists>w \<in> set ws. w \<in> set (users_of e)) \<or>
     (\<exists>rule \<in> set rules. holds (check_holds X True ws cfg) rule)"

lemma rule_outcome_tree:
  assumes "pick_law X" "\<forall>w \<in> set ws. isValidAddress X w" "rule_encodes X ws cfg rule op"
  shows "\<exists>r. rule_outcome X ws cfg rule = Inr r \<and> (r \<noteq> None \<longleftrightarrow> holds (check_holds X True ws cfg) op)
    \<and> set_option r \<subseteq> set ws"
proof -
  have op: "wf_tree op" "ruleDataToOperations rule = Inr (post op)"
    "\<forall>c \<in> set (checks_of op). \<not> isl (evaluateCheckOperation X True ws cfg c)"
    using assms(3) by (simp_all add: rule_encodes_def)
  obtain w where w: "evaluateTree X True (x_leftFirst X) ws cfg [] (Some op) = Inr w"
    "isValidAddress X w \<longleftrightarrow> holds (check_holds X True ws cfg) op"
    using evaluation_total[OF op(1,3)] by blast
  have in_ws: "w = zeroAddress \<or> w \<in> set ws"
    using tree_result_in[OF assms(1) op(1), of ws "x_leftFirst X" cfg "[]"] w(1) by (simp add: own_or_zero_def)
  have "rule_outcome X ws cfg rule = Inr (if w \<noteq> zeroAddress then Some w else None)"
    by (simp add: rule_outcome_def op(2) evaluateOperationsForEntitledWallet_def post_nonempty tree_of_post[OF op(1)] w(1))
  moreover have "w \<noteq> zeroAddress \<longleftrightarrow> holds (check_holds X True ws cfg) op"
    using w(2) in_ws assms(2) zero_not_valid by metis
  ultimately show ?thesis using in_ws by auto
qed

lemma any_rule_trees:
  assumes "pick_law X" "\<forall>w \<in> set ws. isValidAddress X w" "list_all2 (rule_encodes X ws cfg) rules ops"
  shows "\<exists>r. any_rule X (map (rule_outcome X ws cfg) rules) = Inr r
    \<and> (r \<noteq> None \<longleftrightarrow> (\<exists>op \<in> set ops. holds (check_holds X True ws cfg) op)) \<and> set_option r \<subseteq> set ws"
proof -
  define outs where "outs = map (rule_outcome X ws cfg) rules"
  define ful where "ful = List.map_filter (\<lambda>r. case r of Inr (Some w) \<Rightarrow> Some w | _ \<Rightarrow> None) outs"
  have P: "\<not> list_ex isl outs \<and> set ful \<subseteq> set ws
    \<and> (ful \<noteq> [] \<longleftrightarrow> (\<exists>op \<in> set ops. holds (check_holds X True ws cfg) op))"
    unfolding outs_def ful_def using assms(3)
  proof (induction rule: list_all2_induct)
    case (Cons rule rules op ops)
    obtain r where "rule_outcome X ws cfg rule = Inr r" "r \<noteq> None \<longleftrightarrow> holds (check_holds X True ws cfg) op"
      "set_option r \<subseteq> set ws"
      using rule_outcome_tree[OF assms(1,2) Cons(1)] by blast
    with Cons(3) show ?case by (cases r) (auto simp: map_filter_simps)
  qed (simp add: map_filter_simps)
  have any: "any_rule X outs = Inr (if ful \<noteq> [] then Some (x_pick X ful) else None)"
    using P by (simp add: any_rule_def ful_def Let_def)
  have "x_pick X ful \<in> set ws" if "ful \<noteq> []" using assms(1) that P by (auto simp: pick_law_def)
  then show ?thesis using P any unfolding outs_def by (cases "ful = []") auto
qed

lemma entitled_wallet_decision:
  assumes "pick_law X" "\<forall>w \<in> set ws. isValidAddress X w" "getMembershipStatus X sp ws = Inr status"
    "mapE (convertRuleDataV1ToV2 X) (v1_rules entitlements) = Inr converted"
    "list_all2 (rule_encodes X ws cfg) (converted @ v2_rules entitlements) ops"
  shows "\<exists>r. evaluateEntitledWallet X sp rootKey ws entitlements cfg = Inr r
    \<and> (r \<noteq> None \<longleftrightarrow> ms_isExpired status \<noteq> Some True \<and> access_granted X ws cfg entitlements ops)
    \<and> set_option r \<subseteq> insert rootKey (set ws)"
proof -
  obtain r where r: "any_rule X (map (rule_outcome X ws cfg) (converted @ v2_rules entitlements)) = Inr r"
    "r \<noteq> None \<longleftrightarrow> (\<exists>op \<in> set ops. holds (check_holds X True ws cfg) op)" "set_option r \<subseteq> set ws"
    using any_rule_trees[OF assms(1,2,5)] by blast
  define listed where "listed = concat (map (\<lambda>e. filter (\<lambda>user. user \<in> set (users_of e)) ws) entitlements)"
  have listed: "listed \<noteq> [] \<longleftrightarrow> (\<exists>e \<in> set entitlements. \<exists>w \<in> set ws. w \<in> set (users_of e))" "set listed \<subseteq> set ws"
    by (auto simp: listed_def filter_empty_conv)
  have ev: "evaluateEntitledWallet X sp rootKey ws entitlements cfg =
    (if ms_isExpired status = Some True then Inr None
     else if list_ex (\<lambda>e. EVERYONE_ADDRESS \<in> set (users_of e)) entitlements then Inr (Some rootKey)
     else case listed of user # _ \<Rightarrow> Inr (Some user) | [] \<Rightarrow> Inr r)"
    using assms(3,4) r(1) by (cases listed) (simp_all add: evaluateEntitledWallet_def listed_def[symmetric])
  show ?thesis
  proof (cases "ms_isExpired status = Some True")
    case False
    show ?thesis
    proof (cases "list_ex (\<lambda>e. EVERYONE_ADDRESS \<in> set (users_of e)) entitlements")
      case True
      with ev False show ?thesis by (auto simp: access_granted_def list_ex_iff)
    next
      case nobody: False
      show ?thesis
      proof (cases listed)
        case Nil
        with ev False nobody r(2,3) listed(1) show ?thesis by (auto simp: access_granted_def list_ex_iff)
      next
        case (Cons u us)
        then have "\<exists>e \<in> set entitlements. \<exists>w \<in> set ws. w \<in> set (users_of e)" "u \<in> set ws" using listed by auto
        with ev False nobody Cons show ?thesis by (auto simp: access_granted_def)
      qed
    qed
  qed (simp add: ev)
qed

text \<open>
  C18. Access to a channel is decided as specified. Take the wallets linked or delegated to the user, all of them
  valid addresses, the owner of the space, whether the ban lookups found a banned wallet, the status of the
  membership and the entitlements of the permission, whose rules encode trees none of whose checks rejects. Then
  \<open>isEntitledToChannelUncached\<close> says yes exactly if the owner is one of the wallets, or no banned wallet was
  found, the membership is not expired and the entitlements let everyone in, list one of the wallets or have a
  rule that holds.\<close>

theorem channel_access_decision:
  assumes "pick_law X" "getSpace X spaceId = Inr (Some sp)"
    "getLinkedWalletsWithDelegations X user cfg = Inr wallets" "\<forall>w \<in> set wallets. isValidAddress X w"
    "getOwner X sp s = (Inr owner, s1)" "any_banned X spaceId wallets s1 = (Inr banned, s2)"
    "getChannelEntitlementsForPermission X spaceId (ensureHexPrefix channelId) permission s2 = (Inr entitlements, s3)"
    "getMembershipStatus X sp wallets = Inr status"
    "mapE (convertRuleDataV1ToV2 X) (v1_rules entitlements) = Inr converted"
    "list_all2 (rule_encodes X wallets cfg) (converted @ v2_rules entitlements) rules"
  shows "fst (isEntitledToChannelUncached X spaceId channelId user permission cfg s) =
    Inr (owner \<in> set wallets \<or>
      (\<not> banned \<and> ms_isExpired status \<noteq> Some True \<and> access_granted X wallets cfg entitlements rules))"
proof -
  obtain r where "evaluateEntitledWallet X sp user wallets entitlements cfg = Inr r"
    "r \<noteq> None \<longleftrightarrow> ms_isExpired status \<noteq> Some True \<and> access_granted X wallets cfg entitlements rules"
    using entitled_wallet_decision[OF assms(1,4,8,9,10)] by blast
  then show ?thesis
    using assms(2,3) by (simp add: isEntitledToChannelUncached_def bindS_apply(1)[of "getOwner X sp", OF assms(5)]
        bindS_apply(1)[of "any_banned X spaceId wallets", OF assms(6)]
        bindS_apply(1)[of "getChannelEntitlementsForPermission X spaceId (ensureHexPrefix channelId) permission", OF assms(7)])
qed

text \<open>A space with the owner \<open>''owner''\<close>, in which the wallet \<open>''w2''\<close> of the user \<open>''w1''\<close> holds token 4, and a channel
  that asks for 5 of a token of which \<open>''w2''\<close> holds 7. A state keeps the wallets and the evaluations it has cached.\<close>

type_synonym demo_store = "(string \<times> bool CacheResult) list \<times> (string \<times> string option CacheResult) list"

definition no_ttl :: "('c, 'v) ttl" where
  "no_ttl = \<lparr>t_get = (\<lambda>_ _. None), t_set = (\<lambda>_ _ c. c), t_delete = (\<lambda>_ c. c), t_clear = (\<lambda>c. c), t_pass = (\<lambda>_ c. c)\<rparr>"

definition demo_rule :: RuleDataV2 where
  "demo_rule = \<lparr>rd_operations = [\<lparr>co_opType = OpCHECK, co_index = 0\<rparr>],
     rd_checkOperations = [\<lparr>ck_checkType = ERC20, ck_chainId = 1, ck_contractAddress = ''0xc0'', ck_params = ''11111''\<rparr>],
     rd_logicalOperations = []\<rparr>"

definition demo_space :: "demo_store space_externs" where
  "demo_space = chain_externs.extend demo_chain (space_externs.fields
     no_ttl
     \<lparr>t_get = (\<lambda>c. map_get (snd c)), t_set = (\<lambda>k v c. (fst c, map_set k v (snd c))),
      t_delete = (\<lambda>k c. (fst c, map_delete k (snd c))), t_clear = (\<lambda>c. (fst c, [])), t_pass = (\<lambda>_ c. c)\<rparr>
     \<lparr>t_get = (\<lambda>c. map_get (fst c)), t_set = (\<lambda>k v c. (map_set k v (fst c), snd c)),
      t_delete = (\<lambda>k c. (map_delete k (fst c), snd c)), t_clear = (\<lambda>c. ([], snd c)), t_pass = (\<lambda>_ c. c)\<rparr>
     no_ttl no_ttl no_ttl no_ttl
     (\<lambda>a. Some a)
     (\<lambda>_ w. Some (if w = ''w2'' then [4] else [])) (\<lambda>_ _. Some False) (\<lambda>_. Some []) (\<lambda>_ _. Some ''w2'') Some
     (\<lambda>_. Some ''owner'') (\<lambda>_ _. Some 900)
     (\<lambda>_. Some [''m'']) (\<lambda>_ _. Some ''RuleEntitlementV2'')
     (\<lambda>_ _. Some [(''RuleEntitlementV2'', ''data'')]) (\<lambda>_ _ _. Some [(''RuleEntitlementV2'', ''data'')])
     (\<lambda>_. None) (\<lambda>_. Some [demo_rule]) (\<lambda>_. None)
     (\<lambda>_ _ _. Some True)
     (\<lambda>w. Some (if w = ''w1'' then [''w2''] else [])) (\<lambda>_. Some zeroAddress) (\<lambda>_ _. Some [])
     (\<lambda>_ _. Some [1, 2]) (\<lambda>c. Some [])
     (\<lambda>_. Some (5, 10, 3, 0)) 500 (\<lambda>_. True))"

definition demo_dapp :: "demo_store SpaceDapp" where
  "demo_dapp = \<lparr>isLegacySpaceCache = [], entitlementCache = \<lparr>negativeCache = ([], []), positiveCache = ([], [])\<rparr>,
     entitledWalletCache = \<lparr>negativeCache = ([], []), positiveCache = ([], [])\<rparr>,
     entitlementEvaluationCache = \<lparr>negativeCache = ([], []), positiveCache = ([], [])\<rparr>,
     bannedTokenIdsCache = ([], []), ownerOfTokenCache = ([], []), isBannedTokenCache = ([], []),
     ownerCache = (\<lambda>_. ([], [])), getEntitlementsCache = (\<lambda>_. ([], [])), addressToEntitlement = []\<rparr>"

definition demo_space_id :: string where
  "demo_space_id = ''10'' @ replicate 40 (CHR ''a'')"

definition demo_sp :: Space where
  "demo_sp = \<lparr>sp_address = replicate 40 (CHR ''a''), sp_spaceId = demo_space_id\<rparr>"

definition demo_cfg :: XchainConfig where
  "demo_cfg = \<lparr>xc_supportedRpcUrls = [(1, ''rpc'')], xc_etherNativeNetworkIds = [], xc_ethereumNetworkIds = []\<rparr>"

lemmas demo_space_simps = demo_space_def chain_externs.defs space_externs.defs demo_chain_def

lemma demo_pick: "pick_law demo_space"
  by (simp add: pick_law_def demo_space_simps)

theorem membership_best_token_witness:
  "\<exists>st. getMembershipStatus demo_space demo_sp [''w1'', ''w2''] = Inr st \<and> ms_isExpired st = Some False
    \<and> ms_tokenId st = Some ''4''"
proof -
  have "getTokenIdsOfOwner demo_space demo_sp [''w1'', ''w2''] = Inr [''4'']" by code_simp
  moreover have "\<forall>t \<in> set [''4'']. x_expiresAt demo_space (sp_address demo_sp) t = Some ((\<lambda>_. 900) t)"
    by (simp add: demo_space_simps)
  moreover have "x_now demo_space = 500" by (simp add: demo_space_simps)
  ultimately show ?thesis
    using membership_best_token[of demo_space demo_sp "[''w1'', ''w2'']" "[''4'']" "\<lambda>_. 900"] by auto
qed

definition demo_entitlement :: EntitlementData where
  "demo_entitlement = \<lparr>ed_entitlementType = RuleEntitlementV2Module, ed_ruleEntitlement = Some (RuleV2 demo_rule),
     ed_userEntitlement = None\<rparr>"

theorem channel_access_decision_witness:
  "fst (isEntitledToChannelUncached demo_space demo_space_id ''c1'' ''w1'' ''Read'' demo_cfg demo_dapp) = Inr True"
proof -
  let ?ws = "[''w1'', ''w2'']"
  define c where "c = hd (rd_checkOperations demo_rule)"
  have "getSpace demo_space demo_space_id = Inr (Some demo_sp)" by code_simp
  moreover have "getLinkedWalletsWithDelegations demo_space ''w1'' demo_cfg = Inr ?ws" by code_simp
  moreover have "\<forall>w \<in> set ?ws. isValidAddress demo_space w" by code_simp
  moreover obtain s1 where 1: "getOwner demo_space demo_sp demo_dapp = (Inr ''owner'', s1)" "s1 = demo_dapp"
    by (simp add: getOwner_def sc_executeUsingCache_def contract_def demo_space_simps no_ttl_def)
  moreover have "requireSpace demo_space demo_space_id = Inr demo_sp" by code_simp
  then obtain s2 where 2: "any_banned demo_space demo_space_id ?ws s1 = (Inr False, s2)" "s2 = demo_dapp"
    using 1(2) by (simp add: any_banned_def walletAddressIsBanned_def sc_executeUsingCache_def contract_def bindS_def
        demo_space_simps no_ttl_def)
  moreover obtain s3 where
    "getChannelEntitlementsForPermission demo_space demo_space_id (ensureHexPrefix ''c1'') ''Read'' s2 =
      (Inr [demo_entitlement], s3)"
  proof -
    have "fst (getChannelEntitlementsForPermission demo_space demo_space_id (ensureHexPrefix ''c1'') ''Read'' demo_dapp) =
      Inr [demo_entitlement]" by code_simp
    then show thesis using that 2(2) by (metis prod.collapse)
  qed
  moreover obtain st where "getMembershipStatus demo_space demo_sp ?ws = Inr st" "ms_isExpired st \<noteq> Some True"
  proof -
    have "map_sum id ms_isExpired (getMembershipStatus demo_space demo_sp ?ws) = Inr (Some False)" by code_simp
    then show thesis using that by (cases "getMembershipStatus demo_space demo_sp ?ws") auto
  qed
  moreover have "mapE (convertRuleDataV1ToV2 demo_space) (v1_rules [demo_entitlement]) = Inr []" by code_simp
  moreover have "list_all2 (rule_encodes demo_space ?ws demo_cfg) ([] @ v2_rules [demo_entitlement]) [CheckOp c]"
    unfolding c_def by code_simp
  moreover have "access_granted demo_space ?ws demo_cfg [demo_entitlement] [CheckOp c]"
    unfolding c_def by code_simp
  ultimately show ?thesis
    using channel_access_decision[OF demo_pick, of demo_space_id demo_sp "''w1''" demo_cfg ?ws demo_dapp "''owner''" s1
        False s2 "''c1''" "''Read''" "[demo_entitlement]" s3 st "[]" "[CheckOp c]"] by simp
qed

subsection \<open>Caches that are not invalidated\<close>

text \<open>Asking \<open>getEntitledWalletForJoiningSpace\<close> to invalidate the cache has no effect on its answer: while a wallet
  (or the answer that there is none) is cached, that is what it returns, whatever the chain says by now, because the
  entry is deleted from the cache of evaluations and not from the cache of wallets. \<open>isEntitledToSpace\<close>, in contrast,
  then answers what the contract answers.\<close>

theorem join_invalidation_ineffective:
  assumes "ttl_laws (x_evaluationTTL X)"
    "ec_lookup (x_walletTTL X) (EntitlementRequest spaceId [] rootKey ''JoinSpace'') (entitledWalletCache s) = Some r"
  shows "fst (getEntitledWalletForJoiningSpace X spaceId rootKey cfg True s) = Inr (cr_value r)
    \<and> fst (getEntitledWalletForJoiningSpace X spaceId rootKey cfg False s) = Inr (cr_value r)
    \<and> fst (isEntitledToSpace X spaceId user permission True s) = fst (isEntitledToSpaceUncached X spaceId user permission s)"
proof -
  have 1: "fst (getEntitledWalletForJoiningSpace X spaceId rootKey cfg inv s) = Inr (cr_value r)" for inv
    using assms(2) by (simp add: getEntitledWalletForJoiningSpace_def mapS_def bindS_def ec_executeUsingCache_def Let_def)
  have pure: "isEntitledToSpaceUncached X spaceId user permission t =
    (fst (isEntitledToSpaceUncached X spaceId user permission s), t)" for t
    by (cases "getSpace X spaceId") (auto simp: isEntitledToSpaceUncached_def split: option.splits)
  let ?key = "EntitlementRequest spaceId [] user permission"
  define t where "t = entitlementEvaluationCache_update (ec_invalidate (x_evaluationTTL X) ?key) s"
  have eq: "isEntitledToSpace X spaceId user permission True s =
    mapS cr_value (ec_executeUsingCache (x_evaluationTTL X) entitlementEvaluationCache entitlementEvaluationCache_update
      ?key (mapS BooleanCacheResult (isEntitledToSpaceUncached X spaceId user permission))) t"
    by (simp add: isEntitledToSpace_def t_def Let_def)
  have "ec_lookup (x_evaluationTTL X) ?key (entitlementEvaluationCache t) = None" using assms(1) by (simp add: t_def)
  then have "fst (isEntitledToSpace X spaceId user permission True s) = fst (isEntitledToSpaceUncached X spaceId user permission s)"
    using pure[of t] unfolding eq
    by (cases "fst (isEntitledToSpaceUncached X spaceId user permission s)")
      (simp_all add: mapS_def bindS_def ec_executeUsingCache_def BooleanCacheResult_def)
  with 1 show ?thesis by blast
qed

definition demo_joined :: "demo_store SpaceDapp" where
  "demo_joined = demo_dapp\<lparr>entitledWalletCache := \<lparr>negativeCache = ([], []), positiveCache =
     ([], [(EntitlementRequest demo_space_id [] ''w1'' ''JoinSpace'', EntitledWalletCacheResult (Some ''w9''))])\<rparr>\<rparr>"

theorem join_invalidation_ineffective_witness:
  "fst (getEntitledWalletForJoiningSpace demo_space demo_space_id ''w1'' demo_cfg True demo_joined) = Inr (Some ''w9'')"
proof -
  have "ttl_laws (x_evaluationTTL demo_space)" by (auto simp: ttl_laws_def demo_space_simps)
  moreover have "ec_lookup (x_walletTTL demo_space) (EntitlementRequest demo_space_id [] ''w1'' ''JoinSpace'')
    (entitledWalletCache demo_joined) = Some \<lparr>cr_value = Some ''w9'', cacheHit = True, isPositive = True\<rparr>" by code_simp
  ultimately show ?thesis
    using join_invalidation_ineffective[of demo_space demo_space_id "''w1''" demo_joined _ demo_cfg] by fastforce
qed


definition demo_offline :: "demo_store space_externs" where
  "demo_offline = demo_space\<lparr>x_tokensOfOwner := (\<lambda>_ w. Some [4]), x_isBanned := (\<lambda>_ _. None)\<rparr>"


subsection \<open>Updates of channels\<close>

fun apply_call :: "ChannelCall \<Rightarrow> int set \<Rightarrow> int set" where
  "apply_call (addRoleToChannel_call c r) roles = insert r roles"
| "apply_call (removeRoleFromChannel_call c r) roles = roles - {r}"
| "apply_call (updateChannel_call c m d) roles = roles"

lemma apply_removes:
  "fold apply_call (map (removeRoleFromChannel_call c) rs) roles = roles - set rs"
  by (induction rs arbitrary: roles) auto

lemma apply_adds: "fold apply_call (map (addRoleToChannel_call c) rs) roles = roles \<union> set rs"
  by (induction rs arbitrary: roles) auto

text \<open>The calls of an update lead from the current roles to the updated ones, and none of them is superfluous.\<close>

lemma role_calls_update:
  "fold apply_call (role_calls c current updated) (set current) = set updated"
  "addRoleToChannel_call c r \<in> set (role_calls c current updated) \<Longrightarrow> r \<notin> set current"
  "removeRoleFromChannel_call c r \<in> set (role_calls c current updated) \<Longrightarrow> r \<in> set current \<and> r \<notin> set updated"
  by (auto simp: role_calls_def new_Set_def apply_removes apply_adds)

text \<open>Enabling a channel disables it: for parameters that only say whether the channel is disabled, the call data
  that \<open>updateChannel\<close> sends is that of \<open>updateChannel(channelId, '', true)\<close>, whatever the parameters say.\<close>

theorem channel_status_ignored:
  "encodedUpdateChannelData X sp (UpdateChannelAccessParams spaceId channelId disabled) s =
     (map_sum id (\<lambda>d. [d]) (contract (x_encodeChannelCall X (updateChannel_call (ensureHexPrefix channelId) [] True))), s)"
  by (cases "x_encodeChannelCall X (updateChannel_call (ensureHexPrefix channelId) [] True)")
    (simp_all add: encodedUpdateChannelData_def contract_def)

end
