(* ===== verification/Decryption.thy ===== *)
theory Decryption
  imports StreamView Complex_Main
begin

section \<open>The decryption queue\<close>

text \<open>
  \<open>packages/sdk/src/decryptionExtensions.ts\<close>, the class \<open>BaseDecryptionExtensions\<close>, with the methods of its
  subclass in \<open>packages/sdk/src/clientDecryptionExtensions.ts\<close>.

  The state is the record \<open>Decryption\<close>: the queues, the failures that wait for keys, and the timer. A tick takes one
  job off the queues (\<open>tick\<close>) and ends later (\<open>finish\<close>), when the calls it awaits have returned; any other operation
  can come in between. Calls of the client and of the crypto store are answered by the environment, a record
  \<open>dec_env\<close> that is an argument of every operation; what the code asks them to do is in the outputs \<open>dec_out\<close>.

  Items of the queues are objects that are compared by identity, so each carries the number it was created with.
\<close>

subsection \<open>Data\<close>

datatype DecryptionStatus = StInitializing | StUpdating | StWorking | StIdle | StDone

record EncryptedContentItem =
  ei_ref :: nat
  ei_streamId :: string
  ei_eventId :: string
  ei_kind :: content_kind
  ei_encryptedData :: EncryptedData

record NewGroupSessionItem =
  ng_streamId :: string
  ng_sessions :: GroupEncryptionSessions

record KeySolicitationItem =
  ki_streamId :: string
  ki_fromUserId :: string
  ki_fromUserAddress :: bytes
  ki_solicitation :: KeySolicitationContent
  ki_respondAfter :: rat
  ki_sigBundle :: EventSignatureBundle
  ki_hashStr :: string

record GroupEncryptionSession =
  ge_streamId :: string
  ge_sessionId :: string
  ge_sessionKey :: string
  ge_algorithm :: string

record StreamTasks =
  encryptedContent :: "EncryptedContentItem list"
  keySolicitations :: "KeySolicitationItem list"
  isMissingKeys :: bool
  keySolicitationsNeedsSort :: bool

datatype PriorityTask = UploadDeviceKeys | DownloadNewMessages

text \<open>What a tick takes off the queues, and what is left of it when its first suspension is reached.\<close>

datatype work =
    WorkTask PriorityTask
  | WorkSession NewGroupSessionItem
  | WorkContent EncryptedContentItem
  | WorkMissingKeys string
  | WorkSolicitation KeySolicitationItem

datatype job =
    JobTask PriorityTask
  | JobSession NewGroupSessionItem
  | JobContent EncryptedContentItem
  | JobMissingKeys string "string list"
  | JobSolicitation KeySolicitationItem
  | JobDone

text \<open>How \<open>decryptGroupEvent\<close> ends: an error has a \<open>message\<close> or has none.\<close>

datatype decrypted = DecryptOk | DecryptFails "string option"

datatype dec_out =
    StatusChanged DecryptionStatus
  | DeviceKeysUploaded
  | MessagesDownloaded
  | SessionsImported string "GroupEncryptionSession list"
  | InboxAcked
  | ContentDecrypted EncryptedContentItem
  | DecryptionFailed EncryptedContentItem bool
  | SolicitationSent string bool "string list"
  | FulfillmentSent string bytes string "string list"
  | SessionsShared string KeySolicitationItem "GroupEncryptionSession list" string

record dec_config =
  dc_userId :: string
  dc_deviceKey :: string
  dc_isMobileSafari :: bool
  dc_disableSignatureValidation :: bool

record dec_env =
  e_now :: int
  e_random :: "nat \<Rightarrow> rat"
  e_view :: "string \<Rightarrow> StreamView option"
  e_userInboxStreamId :: "string option"
  e_isEntitled :: "string \<Rightarrow> string \<Rightarrow> string \<Rightarrow> string \<Rightarrow> exn + bool"
  e_hasSessionKey :: "string \<Rightarrow> string \<Rightarrow> string \<Rightarrow> exn + bool"
  e_decryptSessionKeys :: "string \<Rightarrow> string \<Rightarrow> exn + string list"
  e_importSessionKeys :: "string \<Rightarrow> GroupEncryptionSession list \<Rightarrow> exn + unit"
  e_getGroupSessionIds :: "string \<Rightarrow> exn + string list"
  e_exportGroupSession :: "string \<Rightarrow> string \<Rightarrow> exn + GroupEncryptionSession option"
  e_decryptGroupEvent :: "EncryptedContentItem \<Rightarrow> decrypted"
  e_sendKeySolicitation :: "string \<Rightarrow> bool \<Rightarrow> string list \<Rightarrow> exn + unit"
  e_sendKeyFulfillment :: "string \<Rightarrow> bytes \<Rightarrow> string \<Rightarrow> string list \<Rightarrow> exn + string option"
  e_shareSessions :: "string \<Rightarrow> GroupEncryptionSession list \<Rightarrow> string \<Rightarrow> exn + unit"
  e_task :: "PriorityTask \<Rightarrow> exn + unit"
  e_ack :: "exn + unit"

record Decryption =
  dq_status :: DecryptionStatus
  priorityTasks :: "PriorityTask list"
  newGroupSession :: "NewGroupSessionItem list"
  ownKeySolicitations :: "KeySolicitationItem list"
  streamQueues :: "(string, StreamTasks) jsmap"
  upToDateStreams :: "string jsset"
  highPriorityIds :: "string jsset"
  recentStreamIds :: "string list"
  decryptionFailures :: "(string, (string, EncryptedContentItem list) jsmap) jsmap"
  dq_timer :: bool
  dq_timeoutId :: bool
  dq_job :: "job option"
  dq_recheck :: bool
  dq_started :: bool
  dq_onStopFn :: bool
  isMobileSafariBackgrounded :: bool
  validatedEvents :: "(string, bool) jsmap"
  dq_nextRef :: nat

type_synonym dec_res = "(Decryption, dec_out) res"

definition emptyTasks :: StreamTasks where
  "emptyTasks = \<lparr>encryptedContent = [], keySolicitations = [], isMissingKeys = False, keySolicitationsNeedsSort = False\<rparr>"

definition newDecryption :: "string jsset \<Rightarrow> Decryption" where
  "newDecryption upToDate = \<lparr>dq_status = StInitializing, priorityTasks = [], newGroupSession = [], ownKeySolicitations = [],
     streamQueues = [], upToDateStreams = upToDate, highPriorityIds = [], recentStreamIds = [], decryptionFailures = [],
     dq_timer = False, dq_timeoutId = False, dq_job = None, dq_recheck = False, dq_started = False, dq_onStopFn = True,
     isMobileSafariBackgrounded = False, validatedEvents = [], dq_nextRef = 0\<rparr>"

subsection \<open>Queues\<close>

definition sortKeySolicitations :: "StreamTasks \<Rightarrow> StreamTasks" where
  "sortKeySolicitations t =
     t\<lparr>keySolicitations := sort_key ki_respondAfter (keySolicitations t), keySolicitationsNeedsSort := False\<rparr>"

definition tasks_isEmpty :: "StreamTasks \<Rightarrow> bool" where
  "tasks_isEmpty t \<longleftrightarrow> encryptedContent t = [] \<and> keySolicitations t = [] \<and> \<not> isMissingKeys t"

definition getQueue :: "string \<Rightarrow> Decryption \<Rightarrow> StreamTasks" where
  "getQueue streamId d = map_get_or (streamQueues d) streamId emptyTasks"

text \<open>\<open>getQueue\<close> creates the queue if there is none; the queue is then changed in place.\<close>

definition on_queue :: "string \<Rightarrow> (StreamTasks \<Rightarrow> StreamTasks) \<Rightarrow> Decryption \<Rightarrow> Decryption" where
  "on_queue streamId f d = d\<lparr>streamQueues := map_set streamId (f (getQueue streamId d)) (streamQueues d)\<rparr>"

definition queues_isEmpty :: "Decryption \<Rightarrow> bool" where
  "queues_isEmpty d \<longleftrightarrow> list_all (\<lambda>q. tasks_isEmpty (snd q)) (streamQueues d)"

definition dequeueUpToDate ::
  "rat \<Rightarrow> string jsset \<Rightarrow> KeySolicitationItem list \<Rightarrow> (KeySolicitationItem \<times> KeySolicitationItem list) option" where
  "dequeueUpToDate now upToDate items =
     (case items of
        [] \<Rightarrow> None
      | i # _ \<Rightarrow>
          if ki_respondAfter i > now then None
          else case find_index (\<lambda>x. ki_respondAfter x \<le> now \<and> ki_streamId x \<in> set upToDate) items of
                 None \<Rightarrow> None
               | Some k \<Rightarrow> Some (items ! k, remove_at k items))"

definition takeFirst :: "nat \<Rightarrow> 'x list \<Rightarrow> 'x list" where
  "takeFirst n xs = take n xs"

text \<open>The loop compares the arrays from index \<open>0\<close>, after their lengths.\<close>

definition sortedArraysEqual :: "string list \<Rightarrow> string list \<Rightarrow> bool" where
  "sortedArraysEqual a b \<longleftrightarrow> length a = length b \<and> list_all2 (=) a b"

definition setStatus :: "DecryptionStatus \<Rightarrow> Decryption \<Rightarrow> dec_res" where
  "setStatus status d =
     (if dq_status d \<noteq> status then ok (d\<lparr>dq_status := status\<rparr>) [StatusChanged status] else ok d [])"

subsection \<open>Methods of the subclass\<close>

definition hasStream :: "dec_env \<Rightarrow> string \<Rightarrow> bool" where
  "hasStream v streamId \<longleftrightarrow> e_view v streamId \<noteq> None"

definition isUserInboxStreamUpToDate :: "dec_env \<Rightarrow> Decryption \<Rightarrow> bool" where
  "isUserInboxStreamUpToDate v d \<longleftrightarrow>
     (case e_userInboxStreamId v of None \<Rightarrow> False | Some s \<Rightarrow> s \<in> set (upToDateStreams d))"

definition getKeySolicitations :: "dec_config \<Rightarrow> dec_env \<Rightarrow> string \<Rightarrow> KeySolicitationContent list" where
  "getKeySolicitations C v streamId =
     (case e_view v streamId of
        None \<Rightarrow> []
      | Some view \<Rightarrow>
          (case map_get (m_joined (sv_membershipContent view)) (dc_userId C) of
             None \<Rightarrow> [] | Some m \<Rightarrow> mem_solicitations m))"

text \<open>\<open>k\<close> is the number of earlier calls of \<open>Math.random\<close> in the same operation.\<close>

definition getRespondDelayMSForKeySolicitation ::
  "dec_config \<Rightarrow> dec_env \<Rightarrow> nat \<Rightarrow> string \<Rightarrow> string \<Rightarrow> exn + rat" where
  "getRespondDelayMSForKeySolicitation C v k streamId userId =
     (case e_view v streamId of
        None \<Rightarrow> Inl (throwWithCode None)
      | Some view \<Rightarrow>
          let numMembers = length (joinedParticipants (sv_membershipContent view));
              maxWaitTimeSeconds = max 5 (min 30 numMembers);
              waitTime = of_nat maxWaitTimeSeconds * 1000 * e_random v k
          in Inr (if userId = dc_userId C then waitTime * (1 / 2) else waitTime))"

definition isUserEntitledToKeyExchange :: "dec_env \<Rightarrow> string \<Rightarrow> string \<Rightarrow> bool \<Rightarrow> exn + bool" where
  "isUserEntitledToKeyExchange v streamId userId skipOnChainValidation =
     (case e_view v streamId of
        None \<Rightarrow> Inl (throwWithCode None)
      | Some view \<Rightarrow>
          if \<not> userIsEntitledToKeyExchange view userId then Inr False
          else case sv_content view of
                 CChannel channel \<Rightarrow>
                   if skipOnChainValidation then Inr True
                   else e_isEntitled v (cc_spaceId channel) streamId userId ''Read''
               | _ \<Rightarrow> Inr True)"

definition getPriorityForStream :: "'a externs_scheme \<Rightarrow> string jsset \<Rightarrow> string jsset \<Rightarrow> string \<Rightarrow> nat" where
  "getPriorityForStream E highPriority recent streamId =
     (let isChannel = isChannelStreamId E (Str streamId);
          isDmOrGdm = isDMChannelStreamId E (Str streamId) \<or> isGDMChannelStreamId E (Str streamId)
      in if isUserDeviceStreamId E (Str streamId) \<or> isUserInboxStreamId E (Str streamId)
            \<or> isUserStreamId E (Str streamId) \<or> isUserSettingsStreamId E (Str streamId) then 0
         else if (isDmOrGdm \<or> isChannel) \<and> streamId \<in> set highPriority then 1
         else if streamId \<in> set recent then 2
         else if isChannel \<and> (case spaceIdFromChannelId E streamId of Inr s \<Rightarrow> s \<in> set highPriority | Inl _ \<Rightarrow> False)
         then 3
         else if isDmOrGdm then 4
         else if streamId \<in> set highPriority then 5
         else if isChannel then 6
         else 7)"

definition bundle_event :: "EventSignatureBundle \<Rightarrow> stream_event" where
  "bundle_event b = StreamEvent (sg_creatorAddress b) (sg_delegateSig b) [] None 0 (sg_delegateExpiryEpochMs b) None None None"

definition isValidEvent ::
  "'a sign_externs_scheme \<Rightarrow> dec_config \<Rightarrow> KeySolicitationItem \<Rightarrow> Decryption \<Rightarrow> Decryption \<times> bool" where
  "isValidEvent E C item d =
     (if \<not> dc_disableSignatureValidation C then (d, True)
      else case sg_signature (ki_sigBundle item) of
             None \<Rightarrow> (d, False)
           | Some signature \<Rightarrow>
               (case map_get (validatedEvents d) (ki_hashStr item) of
                  Some isValid \<Rightarrow> (d, isValid)
                | None \<Rightarrow>
                    let isValid = (case checkEventSignature E (bundle_event (ki_sigBundle item))
                                          (sg_hash (ki_sigBundle item)) signature of Inr _ \<Rightarrow> True | Inl _ \<Rightarrow> False)
                    in (d\<lparr>validatedEvents := map_set (ki_hashStr item) isValid (validatedEvents d)\<rparr>, isValid)))"

subsection \<open>Scheduling\<close>

definition mainQueues_isEmpty :: "Decryption \<Rightarrow> bool" where
  "mainQueues_isEmpty d \<longleftrightarrow> priorityTasks d = [] \<and> newGroupSession d = [] \<and> ownKeySolicitations d = []"

definition checkStartTicking :: "dec_env \<Rightarrow> Decryption \<Rightarrow> dec_res" where
  "checkStartTicking v d =
     (if \<not> dq_started d \<or> dq_timeoutId d \<or> \<not> dq_onStopFn d \<or> \<not> isUserInboxStreamUpToDate v d
         \<or> isMobileSafariBackgrounded d
      then ok d []
      else if mainQueues_isEmpty d \<and> queues_isEmpty d then setStatus StDone d
      else ok (d\<lparr>dq_timeoutId := True, dq_timer := True\<rparr>) [])"

subsection \<open>Enqueueing\<close>

definition enqueueNewGroupSessions ::
  "'a externs_scheme \<Rightarrow> dec_env \<Rightarrow> GroupEncryptionSessions \<Rightarrow> Decryption \<Rightarrow> dec_res" where
  "enqueueNewGroupSessions E v sessions d =
     checkStartTicking v (d\<lparr>newGroupSession := newGroupSession d
        @ [\<lparr>ng_streamId = bin_toHexString E (ges_streamId sessions), ng_sessions = sessions\<rparr>]\<rparr>)"

definition push_recent :: "string \<Rightarrow> string list \<Rightarrow> string list" where
  "push_recent streamId recent =
     (if starts_with ''20'' streamId \<or> starts_with ''88'' streamId \<or> starts_with ''77'' streamId
      then let r = recent @ [streamId] in if length r > 5 then tl r else r
      else recent)"

definition enqueueNewEncryptedContent ::
  "dec_env \<Rightarrow> string \<Rightarrow> string \<Rightarrow> content_kind \<Rightarrow> EncryptedData \<Rightarrow> Decryption \<Rightarrow> dec_res" where
  "enqueueNewEncryptedContent v streamId eventId kind encryptedData d =
     (let item = \<lparr>ei_ref = dq_nextRef d, ei_streamId = streamId, ei_eventId = eventId, ei_kind = kind,
                   ei_encryptedData = encryptedData\<rparr>;
          d1 = d\<lparr>recentStreamIds := push_recent streamId (recentStreamIds d), dq_nextRef := Suc (dq_nextRef d)\<rparr>
      in checkStartTicking v (on_queue streamId (\<lambda>q. q\<lparr>encryptedContent := encryptedContent q @ [item]\<rparr>) d1))"

definition push_solicitation :: "dec_config \<Rightarrow> KeySolicitationItem \<Rightarrow> Decryption \<Rightarrow> Decryption" where
  "push_solicitation C item d =
     (if ki_fromUserId item = dc_userId C
      then d\<lparr>ownKeySolicitations := ownKeySolicitations d @ [item]\<rparr>
      else on_queue (ki_streamId item) (\<lambda>q. q\<lparr>keySolicitations := keySolicitations q @ [item]\<rparr>) d)"

definition solicit ::
  "dec_config \<Rightarrow> dec_env \<Rightarrow> nat \<Rightarrow> string \<Rightarrow> string \<Rightarrow> string \<Rightarrow> bytes \<Rightarrow> KeySolicitationContent \<Rightarrow>
   EventSignatureBundle \<Rightarrow> Decryption \<Rightarrow> dec_res" where
  "solicit C v k streamId eventHashStr fromUserId fromUserAddress keySolicitation sigBundle d =
     (case getRespondDelayMSForKeySolicitation C v k streamId fromUserId of
        Inl e \<Rightarrow> throw e d
      | Inr delay \<Rightarrow>
          ok (push_solicitation C \<lparr>ki_streamId = streamId, ki_fromUserId = fromUserId,
                ki_fromUserAddress = fromUserAddress, ki_solicitation = keySolicitation,
                ki_respondAfter = of_int (e_now v) + delay, ki_sigBundle = sigBundle, ki_hashStr = eventHashStr\<rparr> d) [])"

definition enqueueInitKeySolicitations ::
  "dec_config \<Rightarrow> dec_env \<Rightarrow> string \<Rightarrow> string \<Rightarrow> (string \<times> bytes \<times> KeySolicitationContent list) list \<Rightarrow>
   EventSignatureBundle \<Rightarrow> Decryption \<Rightarrow> dec_res" where
  "enqueueInitKeySolicitations C v streamId eventHashStr members sigBundle d =
     (let d1 = on_queue streamId (\<lambda>q. q\<lparr>keySolicitations := []\<rparr>) d;
          d2 = d1\<lparr>ownKeySolicitations := filter (\<lambda>x. ki_streamId x \<noteq> streamId) (ownKeySolicitations d1)\<rparr>;
          calls = concat (map (\<lambda>(u, a, ss). map (\<lambda>s. (u, a, s))
                    (filter (\<lambda>s. ks_deviceKey s \<noteq> dc_deviceKey C \<and> ks_sessionIds s \<noteq> []) ss)) members)
      in and_then (for_each (\<lambda>(k, u, a, s). solicit C v k streamId eventHashStr u a s sigBundle)
                     (zip [0..<length calls] calls) d2) (\<lambda>d3.
         checkStartTicking v (on_queue streamId (\<lambda>q. q\<lparr>keySolicitationsNeedsSort := True\<rparr>) d3)))"

definition remove_first :: "('x \<Rightarrow> bool) \<Rightarrow> 'x list \<Rightarrow> 'x list" where
  "remove_first P xs = (case find_index P xs of None \<Rightarrow> xs | Some i \<Rightarrow> remove_at i xs)"

definition enqueueKeySolicitation ::
  "dec_config \<Rightarrow> dec_env \<Rightarrow> string \<Rightarrow> string \<Rightarrow> string \<Rightarrow> bytes \<Rightarrow> KeySolicitationContent \<Rightarrow>
   EventSignatureBundle \<Rightarrow> Decryption \<Rightarrow> dec_res" where
  "enqueueKeySolicitation C v streamId eventHashStr fromUserId fromUserAddress keySolicitation sigBundle d =
     (if ks_deviceKey keySolicitation = dc_deviceKey C then ok d []
      else
        let same = (\<lambda>x. ki_streamId x = streamId \<and> ks_deviceKey (ki_solicitation x) = ks_deviceKey keySolicitation);
            d1 = (if fromUserId = dc_userId C
                  then (on_queue streamId id d)\<lparr>ownKeySolicitations := remove_first same (ownKeySolicitations d)\<rparr>
                  else on_queue streamId (\<lambda>q. q\<lparr>keySolicitations := remove_first same (keySolicitations q)\<rparr>) d)
        in if ks_sessionIds keySolicitation \<noteq> [] \<or> ks_isNewDevice keySolicitation
           then and_then (solicit C v 0 streamId eventHashStr fromUserId fromUserAddress keySolicitation sigBundle
                    (on_queue streamId (\<lambda>q. q\<lparr>keySolicitationsNeedsSort := True\<rparr>) d1)) (checkStartTicking v)
           else ok d1 [])"

definition setStreamUpToDate :: "dec_env \<Rightarrow> string \<Rightarrow> Decryption \<Rightarrow> dec_res" where
  "setStreamUpToDate v streamId d = checkStartTicking v (d\<lparr>upToDateStreams := set_add streamId (upToDateStreams d)\<rparr>)"

definition resetUpToDateStreams :: "dec_env \<Rightarrow> Decryption \<Rightarrow> dec_res" where
  "resetUpToDateStreams v d = checkStartTicking v (d\<lparr>upToDateStreams := []\<rparr>)"

definition retryDecryptionFailures :: "dec_env \<Rightarrow> string \<Rightarrow> Decryption \<Rightarrow> dec_res" where
  "retryDecryptionFailures v streamId d =
     (if map_get_or (decryptionFailures d) streamId [] \<noteq> []
      then checkStartTicking v (on_queue streamId (\<lambda>q. q\<lparr>isMissingKeys := True\<rparr>) d)
      else ok (on_queue streamId id d) [])"

definition enqueueNewMessageDownload :: "Decryption \<Rightarrow> Decryption" where
  "enqueueNewMessageDownload d = d\<lparr>priorityTasks := priorityTasks d @ [DownloadNewMessages]\<rparr>"

definition setHighPriorityStreams :: "string list \<Rightarrow> Decryption \<Rightarrow> Decryption" where
  "setHighPriorityStreams streamIds d = d\<lparr>highPriorityIds := set_union [] streamIds\<rparr>"

definition start :: "dec_env \<Rightarrow> Decryption \<Rightarrow> dec_res" where
  "start v d =
     (if dq_started d then throw (throwWithCode None) d
      else let d1 = d\<lparr>dq_started := True, priorityTasks := priorityTasks d @ [UploadDeviceKeys]\<rparr>
           in checkStartTicking v (enqueueNewMessageDownload d1))"

text \<open>\<open>stop\<close> with the \<open>stopTicking\<close> it awaits: a tick in progress is not interrupted.\<close>

definition stop :: "Decryption \<Rightarrow> dec_res" where
  "stop d = ok (d\<lparr>dq_onStopFn := False, dq_timeoutId := False, dq_timer := False\<rparr>) []"

definition visibilityChanged :: "dec_config \<Rightarrow> dec_env \<Rightarrow> bool \<Rightarrow> Decryption \<Rightarrow> dec_res" where
  "visibilityChanged C v hidden d =
     (if \<not> dc_isMobileSafari C \<or> \<not> dq_started d \<or> \<not> dq_onStopFn d then ok d []
      else let d1 = d\<lparr>isMobileSafariBackgrounded := hidden\<rparr>
           in if hidden then ok d1 [] else checkStartTicking v d1)"

subsection \<open>A tick\<close>

definition stream_order :: "'a externs_scheme \<Rightarrow> Decryption \<Rightarrow> string list" where
  "stream_order E d =
     sort_key (getPriorityForStream E (highPriorityIds d) (recentStreamIds d)) (map fst (streamQueues d))"

fun tick_streams :: "rat \<Rightarrow> string list \<Rightarrow> Decryption \<Rightarrow> Decryption \<times> work option" where
  "tick_streams now [] d = (d, None)"
| "tick_streams now (streamId # streamIds) d =
     (if streamId \<notin> set (upToDateStreams d) then tick_streams now streamIds d
      else
        let q = getQueue streamId d
        in case encryptedContent q of
             item # rest \<Rightarrow> (on_queue streamId (\<lambda>_. q\<lparr>encryptedContent := rest\<rparr>) d, Some (WorkContent item))
           | [] \<Rightarrow>
               if isMissingKeys q
               then (on_queue streamId (\<lambda>_. q\<lparr>isMissingKeys := False\<rparr>) d, Some (WorkMissingKeys streamId))
               else
                 let q1 = (if keySolicitationsNeedsSort q then sortKeySolicitations q else q)
                 in case dequeueUpToDate now (upToDateStreams d) (keySolicitations q1) of
                      Some (item, rest) \<Rightarrow>
                        (on_queue streamId (\<lambda>_. q1\<lparr>keySolicitations := rest\<rparr>) d, Some (WorkSolicitation item))
                    | None \<Rightarrow> tick_streams now streamIds (on_queue streamId (\<lambda>_. q1) d))"

definition dequeue :: "'a externs_scheme \<Rightarrow> rat \<Rightarrow> Decryption \<Rightarrow> Decryption \<times> work option" where
  "dequeue E now d =
     (case priorityTasks d of
        t # ts \<Rightarrow> (d\<lparr>priorityTasks := ts\<rparr>, Some (WorkTask t))
      | [] \<Rightarrow>
          (case newGroupSession d of
             s # ss \<Rightarrow> (d\<lparr>newGroupSession := ss\<rparr>, Some (WorkSession s))
           | [] \<Rightarrow>
               (case ownKeySolicitations d of
                  k # ks \<Rightarrow> (d\<lparr>ownKeySolicitations := ks\<rparr>, Some (WorkSolicitation k))
                | [] \<Rightarrow> tick_streams now (stream_order E d) d)))"

definition work_status :: "work option \<Rightarrow> DecryptionStatus" where
  "work_status w = (case w of None \<Rightarrow> StIdle | Some (WorkTask _) \<Rightarrow> StUpdating | Some _ \<Rightarrow> StWorking)"

text \<open>The part of each \<open>process...\<close> method before it suspends. An exception there ends the promise of the tick, and is
  logged.\<close>

definition missing_session_ids :: "string \<Rightarrow> Decryption \<Rightarrow> string list" where
  "missing_session_ids streamId d =
     takeFirst 100 (sort (map fst (map_get_or (decryptionFailures d) streamId [])))"

definition begin_missing :: "dec_config \<Rightarrow> dec_env \<Rightarrow> string \<Rightarrow> Decryption \<Rightarrow> job" where
  "begin_missing C v streamId d =
     (if missing_session_ids streamId d = [] \<or> \<not> hasStream v streamId then JobDone
      else case isUserEntitledToKeyExchange v streamId (dc_userId C) True of
             Inr True \<Rightarrow> JobMissingKeys streamId (missing_session_ids streamId d)
           | _ \<Rightarrow> JobDone)"

definition begin_work ::
  "'a sign_externs_scheme \<Rightarrow> dec_config \<Rightarrow> dec_env \<Rightarrow> work option \<Rightarrow> Decryption \<Rightarrow> Decryption \<times> job" where
  "begin_work E C v w d =
     (case w of
        None \<Rightarrow> (d, JobDone)
      | Some (WorkTask t) \<Rightarrow> (d, JobTask t)
      | Some (WorkSession s) \<Rightarrow> (d, JobSession s)
      | Some (WorkContent i) \<Rightarrow> (d, JobContent i)
      | Some (WorkMissingKeys streamId) \<Rightarrow> (d, begin_missing C v streamId d)
      | Some (WorkSolicitation item) \<Rightarrow>
          if \<not> hasStream v (ki_streamId item) then (d, JobDone)
          else case isValidEvent E C item d of (d1, isValid) \<Rightarrow> (d1, if isValid then JobSolicitation item else JobDone))"

definition tick :: "'a sign_externs_scheme \<Rightarrow> dec_config \<Rightarrow> dec_env \<Rightarrow> Decryption \<Rightarrow> dec_res" where
  "tick E C v d =
     (case dequeue E (of_int (e_now v)) d of
        (d1, w) \<Rightarrow> and_then (setStatus (work_status w) d1) (\<lambda>d2.
          case begin_work E C v w d2 of (d3, j) \<Rightarrow> ok (d3\<lparr>dq_timer := False, dq_job := Some j\<rparr>) []))"

subsection \<open>The rest of a tick\<close>

definition finish_task :: "dec_env \<Rightarrow> PriorityTask \<Rightarrow> Decryption \<Rightarrow> dec_res" where
  "finish_task v t d =
     (case e_task v t of
        Inl e \<Rightarrow> throw e d
      | Inr _ \<Rightarrow> ok d [case t of UploadDeviceKeys \<Rightarrow> DeviceKeysUploaded | DownloadNewMessages \<Rightarrow> MessagesDownloaded])"

text \<open>\<open>parseGroupEncryptionAlgorithmId\<close> with the default \<open>GroupEncryption\<close>; \<open>None\<close> is \<open>unrecognized\<close>.\<close>

definition parseGroupEncryptionAlgorithmId :: "string \<Rightarrow> string option" where
  "parseGroupEncryptionAlgorithmId value =
     (if value = [] then Some ''r.group-encryption.v1.aes-sha2''
      else if value = ''r.group-encryption.v1.aes-sha2'' \<or> value = ''grpaes'' then Some value
      else None)"

definition needed_keys :: "dec_env \<Rightarrow> string \<Rightarrow> string \<Rightarrow> string list \<Rightarrow> exn + nat list" where
  "needed_keys v streamId algorithm sessionIds =
     foldE (\<lambda>i acc. bindE (e_hasSessionKey v streamId (sessionIds ! i) algorithm) (\<lambda>hasKeys.
              Inr (if hasKeys then acc else acc @ [i]))) [0..<length sessionIds] []"

text \<open>The failures of the imported sessions go back to the queue of the stream.\<close>

definition requeue_session :: "string \<Rightarrow> string \<Rightarrow> Decryption \<Rightarrow> Decryption" where
  "requeue_session streamId sessionId d =
     (case map_get (map_get_or (decryptionFailures d) streamId []) sessionId of
        None \<Rightarrow> d
      | Some items \<Rightarrow>
          (on_queue streamId (\<lambda>q. q\<lparr>encryptedContent := encryptedContent q @ items\<rparr>) d)
            \<lparr>decryptionFailures := map_set streamId
               (map_delete sessionId (map_get_or (decryptionFailures d) streamId [])) (decryptionFailures d)\<rparr>)"

definition importSessions :: "dec_env \<Rightarrow> string \<Rightarrow> GroupEncryptionSession list \<Rightarrow> Decryption \<Rightarrow> dec_res" where
  "importSessions v streamId sessions d =
     (case e_importSessionKeys v streamId sessions of
        Inl _ \<Rightarrow> ok d []
      | Inr _ \<Rightarrow> ok (fold (\<lambda>s. requeue_session streamId (ge_sessionId s)) sessions (on_queue streamId id d))
                    [SessionsImported streamId sessions])"

definition ack_if_last :: "dec_env \<Rightarrow> Decryption \<Rightarrow> dec_res" where
  "ack_if_last v d =
     (if newGroupSession d \<noteq> [] then ok d []
      else case e_ack v of Inl e \<Rightarrow> throw e d | Inr _ \<Rightarrow> ok d [InboxAcked])"

definition processNewGroupSession :: "dec_config \<Rightarrow> dec_env \<Rightarrow> NewGroupSessionItem \<Rightarrow> Decryption \<Rightarrow> dec_res" where
  "processNewGroupSession C v item d =
     (let streamId = ng_streamId item; session = ng_sessions item
      in case truthy_str (map_get (ges_ciphertexts session) (dc_deviceKey C)) of
           None \<Rightarrow> ok d []
         | Some ciphertext \<Rightarrow>
             (case parseGroupEncryptionAlgorithmId (ges_algorithm session) of
                None \<Rightarrow> ok d []
              | Some algorithm \<Rightarrow>
                  (case needed_keys v streamId algorithm (ges_sessionIds session) of
                     Inl e \<Rightarrow> throw e d
                   | Inr [] \<Rightarrow> ok d []
                   | Inr neededKeyIndexs \<Rightarrow>
                       (case e_decryptSessionKeys v ciphertext (ges_senderKey session) of
                          Inl e \<Rightarrow> throw e d
                        | Inr keys \<Rightarrow>
                            if length keys \<noteq> length (ges_sessionIds session) then throw (throwWithCode None) d
                            else and_then (importSessions v streamId
                                   (map (\<lambda>i. \<lparr>ge_streamId = streamId, ge_sessionId = ges_sessionIds session ! i,
                                      ge_sessionKey = keys ! i, ge_algorithm = algorithm\<rparr>) neededKeyIndexs) d)
                                 (ack_if_last v)))))"

text \<open>\<open>message.toLowerCase().includes('session not found')\<close>; no character outside ASCII has a letter of that text as its
  lower case.\<close>

fun str_includes :: "string \<Rightarrow> string \<Rightarrow> bool" where
  "str_includes p [] \<longleftrightarrow> p = []"
| "str_includes p (c # cs) \<longleftrightarrow> starts_with p (c # cs) \<or> str_includes p cs"

definition isSessionNotFoundError :: "string option \<Rightarrow> bool" where
  "isSessionNotFoundError err =
     (case err of None \<Rightarrow> False | Some message \<Rightarrow> str_includes ''session not found'' (toLowerCase message))"

definition failed_session_id :: "'a externs_scheme \<Rightarrow> EncryptedContentItem \<Rightarrow> string" where
  "failed_session_id E item =
     (if ed_sessionId (ei_encryptedData item) \<noteq> [] then ed_sessionId (ei_encryptedData item)
      else bin_toHexString E (ed_sessionIdBytes (ei_encryptedData item)))"

definition add_failure :: "string \<Rightarrow> EncryptedContentItem \<Rightarrow> Decryption \<Rightarrow> Decryption" where
  "add_failure sessionId item d =
     (let streamId = ei_streamId item;
          sessions = map_get_or (decryptionFailures d) streamId [];
          items = map_get_or sessions sessionId []
      in d\<lparr>decryptionFailures := map_set streamId
             (map_set sessionId (if ei_ref item \<in> ei_ref ` set items then items else items @ [item]) sessions)
             (decryptionFailures d)\<rparr>)"

definition processEncryptedContentItem ::
  "'a externs_scheme \<Rightarrow> dec_env \<Rightarrow> EncryptedContentItem \<Rightarrow> Decryption \<Rightarrow> dec_res" where
  "processEncryptedContentItem E v item d =
     (case e_decryptGroupEvent v item of
        DecryptOk \<Rightarrow> ok d [ContentDecrypted item]
      | DecryptFails err \<Rightarrow>
          let sessionNotFound = isSessionNotFoundError err;
              sessionId = failed_session_id E item
          in if sessionNotFound \<and> sessionId \<noteq> []
             then ok (on_queue (ei_streamId item) (\<lambda>q. q\<lparr>isMissingKeys := True\<rparr>) (add_failure sessionId item d))
                     [DecryptionFailed item True]
             else ok d [DecryptionFailed item sessionNotFound])"

definition processMissingKeys ::
  "dec_config \<Rightarrow> dec_env \<Rightarrow> string \<Rightarrow> string list \<Rightarrow> Decryption \<Rightarrow> dec_res" where
  "processMissingKeys C v streamId missingSessionIds d =
     (let existingKeyRequest = find (\<lambda>x. ks_deviceKey x = dc_deviceKey C) (getKeySolicitations C v streamId)
      in if (case existingKeyRequest of None \<Rightarrow> False | Some x \<Rightarrow> ks_isNewDevice x)
            \<or> sortedArraysEqual (case existingKeyRequest of None \<Rightarrow> [] | Some x \<Rightarrow> ks_sessionIds x) missingSessionIds
         then ok d []
         else case e_getGroupSessionIds v streamId of
                Inl e \<Rightarrow> throw e d
              | Inr knownSessionIds \<Rightarrow>
                  let isNewDevice = (knownSessionIds = [])
                  in case e_sendKeySolicitation v streamId isNewDevice missingSessionIds of
                       Inl e \<Rightarrow> throw e d
                     | Inr _ \<Rightarrow> ok d [SolicitationSent streamId isNewDevice missingSessionIds])"

definition group_by_algorithm :: "GroupEncryptionSession list \<Rightarrow> (string, GroupEncryptionSession list) jsmap" where
  "group_by_algorithm allSessions =
     fold (\<lambda>s acc. map_set (ge_algorithm s) (map_get_or acc (ge_algorithm s) [] @ [s]) acc) allSessions []"

text \<open>\<open>chunk\<close> of \<open>lodash\<close>, for a positive size.\<close>

fun chunks :: "nat \<Rightarrow> 'x list \<Rightarrow> 'x list list" where
  "chunks n [] = []"
| "chunks n (x # xs) = (x # take (n - 1) xs) # chunks n (drop (n - 1) xs)"

definition encryptAndShareGroupSessions ::
  "dec_env \<Rightarrow> KeySolicitationItem \<Rightarrow> string \<times> GroupEncryptionSession list \<Rightarrow> Decryption \<Rightarrow> dec_res" where
  "encryptAndShareGroupSessions v item kv d =
     (case kv of (algorithm, sessions) \<Rightarrow>
        for_each (\<lambda>c d. case e_shareSessions v (ki_streamId item) c algorithm of
                          Inl e \<Rightarrow> throw e d
                        | Inr _ \<Rightarrow> ok d [SessionsShared (ki_streamId item) item c algorithm])
          (chunks 100 sessions) d)"

definition reply_session_ids :: "KeySolicitationContent \<Rightarrow> string list \<Rightarrow> string list" where
  "reply_session_ids solicitation knownSessionIds =
     (if ks_isNewDevice solicitation then sort knownSessionIds
      else filter (\<lambda>x. x \<in> set (ks_sessionIds solicitation)) (sort knownSessionIds))"

definition export_sessions :: "dec_env \<Rightarrow> string \<Rightarrow> string list \<Rightarrow> exn + GroupEncryptionSession list" where
  "export_sessions v streamId sessionIds =
     foldE (\<lambda>i acc. bindE (e_exportGroupSession v streamId i) (\<lambda>s.
              Inr (case s of None \<Rightarrow> acc | Some g \<Rightarrow> acc @ [g]))) sessionIds []"

definition reply_sessions :: "dec_env \<Rightarrow> KeySolicitationItem \<Rightarrow> exn + GroupEncryptionSession list" where
  "reply_sessions v item =
     bindE (e_getGroupSessionIds v (ki_streamId item)) (\<lambda>knownSessionIds.
     let replySessionIds = reply_session_ids (ki_solicitation item) knownSessionIds
     in if replySessionIds = [] then Inr []
        else bindE (isUserEntitledToKeyExchange v (ki_streamId item) (ki_fromUserId item) False) (\<lambda>entitled.
             if entitled then export_sessions v (ki_streamId item) replySessionIds else Inr []))"

definition processKeySolicitation :: "dec_env \<Rightarrow> KeySolicitationItem \<Rightarrow> Decryption \<Rightarrow> dec_res" where
  "processKeySolicitation v item d =
     (case reply_sessions v item of
        Inl e \<Rightarrow> throw e d
      | Inr [] \<Rightarrow> ok d []
      | Inr allSessions \<Rightarrow>
          let sessionIds = sort (filter (\<lambda>x. x \<in> set (ks_sessionIds (ki_solicitation item)))
                             (map ge_sessionId allSessions));
              deviceKey = ks_deviceKey (ki_solicitation item)
          in case e_sendKeyFulfillment v (ki_streamId item) (ki_fromUserAddress item) deviceKey sessionIds of
               Inl e \<Rightarrow> throw e d
             | Inr (Some _) \<Rightarrow> ok d []
             | Inr None \<Rightarrow>
                 and_then (ok d [FulfillmentSent (ki_streamId item) (ki_fromUserAddress item) deviceKey sessionIds])
                   (for_each (encryptAndShareGroupSessions v item) (group_by_algorithm allSessions)))"

definition process_job ::
  "'a externs_scheme \<Rightarrow> dec_config \<Rightarrow> dec_env \<Rightarrow> job \<Rightarrow> Decryption \<Rightarrow> dec_res" where
  "process_job E C v j =
     (case j of
        JobTask t \<Rightarrow> finish_task v t
      | JobSession s \<Rightarrow> processNewGroupSession C v s
      | JobContent i \<Rightarrow> processEncryptedContentItem E v i
      | JobMissingKeys streamId ids \<Rightarrow> processMissingKeys C v streamId ids
      | JobSolicitation item \<Rightarrow> processKeySolicitation v item
      | JobDone \<Rightarrow> (\<lambda>d. ok d []))"

text \<open>The handlers of the promise of a tick: the exception is logged, the timer is free again, and a check is scheduled.\<close>

definition finish :: "'a externs_scheme \<Rightarrow> dec_config \<Rightarrow> dec_env \<Rightarrow> job \<Rightarrow> Decryption \<Rightarrow> dec_res" where
  "finish E C v j d =
     (case process_job E C v j d of
        (d1, os, _) \<Rightarrow> ok (d1\<lparr>dq_job := None, dq_timeoutId := False, dq_recheck := True\<rparr>) os)"

subsection \<open>The queue beside its client\<close>

text \<open>The listeners that the constructor registers, for the events of the stream views.\<close>

definition on_stream_event ::
  "'a externs_scheme \<Rightarrow> dec_config \<Rightarrow> dec_env \<Rightarrow> out \<Rightarrow> Decryption \<Rightarrow> dec_res" where
  "on_stream_event E C v ev d =
     (if \<not> dq_onStopFn d then ok d []
      else case ev of
        newGroupSessions sessions senderId \<Rightarrow> enqueueNewGroupSessions E v sessions d
      | newEncryptedContent streamId eventId content \<Rightarrow>
          enqueueNewEncryptedContent v streamId eventId (ec_kind content) (ec_content content) d
      | newKeySolicitation streamId h u a k b \<Rightarrow> enqueueKeySolicitation C v streamId h u a k b d
      | updatedKeySolicitation streamId h u a k b \<Rightarrow> enqueueKeySolicitation C v streamId h u a k b d
      | initKeySolicitations streamId h members b \<Rightarrow> enqueueInitKeySolicitations C v streamId h members b d
      | streamNewUserJoined streamId userId \<Rightarrow>
          if userId = dc_userId C then retryDecryptionFailures v streamId d else ok d []
      | streamInitialized streamId kind \<Rightarrow>
          ok (if isUserInboxStreamId E (Str streamId) then enqueueNewMessageDownload d else d) []
      | _ \<Rightarrow> ok d [])"

datatype dec_op =
    OpEvent out
  | OpUpToDate string
  | OpSyncActive bool
  | OpStart
  | OpStop
  | OpHighPriority "string list"
  | OpVisibility bool
  | OpTimer
  | OpFinish
  | OpRecheck

text \<open>One turn of the event loop. A timer fires only when it is set, and a tick ends only when there is one.\<close>

definition dec_step ::
  "'a sign_externs_scheme \<Rightarrow> dec_config \<Rightarrow> dec_env \<Rightarrow> dec_op \<Rightarrow> Decryption \<Rightarrow> dec_res" where
  "dec_step E C v op d =
     (case op of
        OpEvent ev \<Rightarrow> on_stream_event E C v ev d
      | OpUpToDate streamId \<Rightarrow> if dq_onStopFn d then setStreamUpToDate v streamId d else ok d []
      | OpSyncActive active \<Rightarrow> if dq_onStopFn d \<and> \<not> active then resetUpToDateStreams v d else ok d []
      | OpStart \<Rightarrow> start v d
      | OpStop \<Rightarrow> stop d
      | OpHighPriority streamIds \<Rightarrow> ok (setHighPriorityStreams streamIds d) []
      | OpVisibility hidden \<Rightarrow> visibilityChanged C v hidden d
      | OpTimer \<Rightarrow> if dq_timer d then tick E C v d else ok d []
      | OpFinish \<Rightarrow> (case dq_job d of None \<Rightarrow> ok d [] | Some j \<Rightarrow> finish E C v j d)
      | OpRecheck \<Rightarrow> if dq_recheck d then checkStartTicking v (d\<lparr>dq_recheck := False\<rparr>) else ok d [])"

text \<open>A run, each operation with its own environment, and what it made the client do. An exception of an operation goes to
  its caller.\<close>

fun dec_run ::
  "'a sign_externs_scheme \<Rightarrow> dec_config \<Rightarrow> (dec_env \<times> dec_op) list \<Rightarrow> Decryption \<Rightarrow> Decryption \<times> dec_out list" where
  "dec_run E C [] d = (d, [])"
| "dec_run E C ((v, op) # ops) d =
     (case dec_step E C v op d of (d1, os, _) \<Rightarrow>
        (case dec_run E C ops d1 of (d2, os') \<Rightarrow> (d2, os @ os')))"

end
