(* ===== verification/DecryptionRuns.thy ===== *)
theory DecryptionRuns
  imports Decryption
begin

text \<open>
  What the decryption queue of \<open>packages/sdk/src/decryptionExtensions.ts\<close> does over its runs: no item of encrypted content
  is lost, at most one tick is in progress and none starts after \<open>stop\<close>, the queues drain, and keys are shared with
  entitled users only. The proofs rest on three invariants of a run: the balance of the items (\<open>books\<close>), the timer
  (\<open>timer_inv\<close>), and, for the ticks alone, a well-founded load (\<open>load_order\<close>).
\<close>

section \<open>Properties of the queue\<close>

subsection \<open>Sums over a map\<close>

definition total :: "('v \<Rightarrow> 'n::comm_monoid_add) \<Rightarrow> ('k, 'v) jsmap \<Rightarrow> 'n" where
  "total f m = sum_list (map (\<lambda>kv. f (snd kv)) m)"

lemma total_Nil [simp]: "total f [] = 0"
  by (simp add: total_def)

lemma total_set:
  "total f (map_set k x m) + (case map_get m k of None \<Rightarrow> 0 | Some y \<Rightarrow> f y) = total f m + f x"
  by (induction m) (auto simp: total_def ac_simps)

lemma total_set_or:
  assumes "f z = 0"
  shows "total f (map_set k x m) + f (map_get_or m k z) = total f m + f x"
  using total_set[of f k x m] assms by (simp add: map_get_or_def split: option.splits)

lemma total_delete:
  assumes "distinct (map fst m)" "map_get m k = Some y"
  shows "total f (map_delete k m) + f y = total f m"
  using assms
proof (induction m)
  case (Cons a m)
  then show ?case
    by (cases a) (auto simp: total_def ac_simps delete_id split: if_splits)
qed simp

lemma total_mem:
  fixes f :: "'v \<Rightarrow> nat"
  assumes "(k, x) \<in> set m"
  shows "f x \<le> total f m"
  using assms by (induction m) (auto simp: total_def)

lemma total_eq_0_iff:
  fixes f :: "'v \<Rightarrow> nat"
  shows "total f m = 0 \<longleftrightarrow> (\<forall>kv \<in> set m. f (snd kv) = 0)"
  by (induction m) (auto simp: total_def)

subsection \<open>No encrypted content is lost\<close>

definition content_refs :: "EncryptedContentItem list \<Rightarrow> nat multiset" where
  "content_refs items = mset (map ei_ref items)"

definition queued :: "Decryption \<Rightarrow> nat multiset" where
  "queued d = total (\<lambda>q. content_refs (encryptedContent q)) (streamQueues d)"

definition failed :: "Decryption \<Rightarrow> nat multiset" where
  "failed d = total (total content_refs) (decryptionFailures d)"

definition in_progress :: "Decryption \<Rightarrow> nat multiset" where
  "in_progress d = (case dq_job d of Some (JobContent i) \<Rightarrow> {#ei_ref i#} | _ \<Rightarrow> {#})"

definition work_refs :: "work option \<Rightarrow> nat multiset" where
  "work_refs w = (case w of Some (WorkContent i) \<Rightarrow> {#ei_ref i#} | _ \<Rightarrow> {#})"

text \<open>An item is settled when its event is decrypted, or when its failure is reported and it is not kept for a later try.\<close>

definition settled :: "'a externs_scheme \<Rightarrow> dec_out \<Rightarrow> nat multiset" where
  "settled E ev =
     (case ev of
        ContentDecrypted i \<Rightarrow> {#ei_ref i#}
      | DecryptionFailed i missing \<Rightarrow> if missing \<and> failed_session_id E i \<noteq> [] then {#} else {#ei_ref i#}
      | _ \<Rightarrow> {#})"

definition all_settled :: "'a externs_scheme \<Rightarrow> dec_out list \<Rightarrow> nat multiset" where
  "all_settled E os = sum_list (map (settled E) os)"

lemma all_settled_simps [simp]:
  "all_settled E [] = {#}" "all_settled E (ev # os) = settled E ev + all_settled E os"
  "all_settled E (os @ os') = all_settled E os + all_settled E os'"
  by (simp_all add: all_settled_def)

lemma content_refs_simps [simp]:
  "content_refs [] = {#}" "content_refs (i # is) = {#ei_ref i#} + content_refs is"
  "content_refs (is @ is') = content_refs is + content_refs is'"
  by (simp_all add: content_refs_def)

lemma queued_on_queue:
  "queued (on_queue s f d) + content_refs (encryptedContent (getQueue s d))
   = queued d + content_refs (encryptedContent (f (getQueue s d)))"
proof -
  have "content_refs (encryptedContent emptyTasks) = 0" by (simp add: emptyTasks_def)
  from total_set_or[where f = "\<lambda>q. content_refs (encryptedContent q)", OF this]
  show ?thesis by (simp add: queued_def on_queue_def getQueue_def)
qed

lemma queued_on_queue_same:
  "encryptedContent (f (getQueue s d)) = encryptedContent (getQueue s d) \<Longrightarrow> queued (on_queue s f d) = queued d"
  using queued_on_queue[of s f d] by simp

lemma on_queue_frame [simp]:
  "decryptionFailures (on_queue s f d) = decryptionFailures d"
  "dq_job (on_queue s f d) = dq_job d"
  "dq_nextRef (on_queue s f d) = dq_nextRef d"
  "upToDateStreams (on_queue s f d) = upToDateStreams d"
  "newGroupSession (on_queue s f d) = newGroupSession d"
  "priorityTasks (on_queue s f d) = priorityTasks d"
  "ownKeySolicitations (on_queue s f d) = ownKeySolicitations d"
  "dq_status (on_queue s f d) = dq_status d"
  "dq_timer (on_queue s f d) = dq_timer d"
  "dq_timeoutId (on_queue s f d) = dq_timeoutId d"
  "dq_started (on_queue s f d) = dq_started d"
  "dq_onStopFn (on_queue s f d) = dq_onStopFn d"
  "dq_recheck (on_queue s f d) = dq_recheck d"
  "isMobileSafariBackgrounded (on_queue s f d) = isMobileSafariBackgrounded d"
  "failed (on_queue s f d) = failed d"
  by (simp_all add: on_queue_def failed_def)

text \<open>The balance of an operation: what it takes in as new items, and what it settles.\<close>

definition pending :: "Decryption \<Rightarrow> nat multiset" where
  "pending d = queued d + failed d + in_progress d"

definition failures_wf :: "Decryption \<Rightarrow> bool" where
  "failures_wf d \<longleftrightarrow> (\<forall>sm \<in> set (decryptionFailures d). distinct (map fst (snd sm)))"

definition issued :: "Decryption \<Rightarrow> nat multiset" where
  "issued d = mset [0..<dq_nextRef d]"

definition conserves :: "'a externs_scheme \<Rightarrow> Decryption \<Rightarrow> dec_res \<Rightarrow> bool" where
  "conserves E d r \<longleftrightarrow>
     pending (st_of r) + all_settled E (outs_of r) + issued d = pending d + issued (st_of r)
     \<and> (failures_wf d \<longrightarrow> failures_wf (st_of r))"

named_theorems conserving \<open>operations that keep the balance of the encrypted content\<close>

lemma conserves_and_then [conserving]:
  assumes r: "conserves E d r" and f: "\<And>s. conserves E s (f s)"
  shows "conserves E d (and_then r f)"
proof (cases "exn_of r = None")
  case True
  let ?s = "st_of r" and ?t = "f (st_of r)"
  have 1: "pending ?s + all_settled E (outs_of r) + issued d = pending d + issued ?s"
    using r by (simp add: conserves_def)
  have 2: "pending (st_of ?t) + all_settled E (outs_of ?t) + issued ?s
      = pending ?s + issued (st_of ?t)"
    using f[of ?s] by (simp add: conserves_def)
  have "pending (st_of ?t) + (all_settled E (outs_of r) + all_settled E (outs_of ?t)) + issued d
      + issued ?s
      = (pending (st_of ?t) + all_settled E (outs_of ?t) + issued ?s)
        + all_settled E (outs_of r) + issued d"
    by (simp add: ac_simps)
  also have "\<dots> = (pending ?s + all_settled E (outs_of r) + issued d) + issued (st_of ?t)"
    unfolding 2 by (simp add: ac_simps)
  also have "\<dots> = pending d + issued (st_of ?t) + issued ?s"
    unfolding 1 by (simp add: ac_simps)
  finally show ?thesis
    using True r f[of ?s] by (simp add: conserves_def and_then_sels)
next
  case False
  then obtain e where "exn_of r = Some e" by auto
  with r show ?thesis by (simp add: conserves_def and_then_sels)
qed

lemma conserves_ok_same:
  assumes "queued d' = queued d" "failed d' = failed d" "dq_job d' = dq_job d" "dq_nextRef d' = dq_nextRef d"
    "decryptionFailures d' = decryptionFailures d" "all_settled E os = {#}"
  shows "conserves E d (ok d' os)"
  using assms by (simp add: conserves_def pending_def in_progress_def failures_wf_def issued_def)

lemma conserves_refl [conserving, simp]: "conserves E d (ok d [])" "conserves E d (throw e d)"
  by (simp_all add: conserves_def)

lemma conserves_for_each [conserving]:
  assumes "\<And>x s. conserves E s (f x s)"
  shows "conserves E s (for_each f xs s)"
  using assms by (induction xs arbitrary: s) (auto intro: conserving)

lemma checkStartTicking_conserves [conserving]: "conserves E d (checkStartTicking v d)"
  by (auto simp: checkStartTicking_def setStatus_def queued_def failed_def settled_def intro!: conserves_ok_same)

text \<open>An operation that first changes something other than the items.\<close>

lemma conserves_from:
  assumes "conserves E d' r" "pending d' = pending d" "dq_nextRef d' = dq_nextRef d"
    "decryptionFailures d' = decryptionFailures d"
  shows "conserves E d r"
  using assms by (simp add: conserves_def failures_wf_def issued_def)

lemma pending_on_queue_same:
  "encryptedContent (f (getQueue s d)) = encryptedContent (getQueue s d) \<Longrightarrow> pending (on_queue s f d) = pending d"
  by (simp add: pending_def in_progress_def queued_on_queue_same)

lemma pending_frame [simp]:
  "pending (d\<lparr>newGroupSession := a\<rparr>) = pending d" "pending (d\<lparr>ownKeySolicitations := b\<rparr>) = pending d"
  "pending (d\<lparr>upToDateStreams := c\<rparr>) = pending d" "pending (d\<lparr>priorityTasks := e\<rparr>) = pending d"
  "pending (d\<lparr>highPriorityIds := c\<rparr>) = pending d" "pending (d\<lparr>dq_started := g\<rparr>) = pending d"
  "pending (d\<lparr>isMobileSafariBackgrounded := g\<rparr>) = pending d" "pending (d\<lparr>dq_onStopFn := g\<rparr>) = pending d"
  "pending (d\<lparr>dq_timeoutId := g\<rparr>) = pending d" "pending (d\<lparr>dq_timer := g\<rparr>) = pending d"
  "pending (d\<lparr>dq_recheck := g\<rparr>) = pending d" "pending (d\<lparr>dq_status := h\<rparr>) = pending d"
  "pending (d\<lparr>recentStreamIds := i\<rparr>) = pending d" "pending (d\<lparr>dq_nextRef := j\<rparr>) = pending d"
  "pending (d\<lparr>validatedEvents := k\<rparr>) = pending d"
  by (simp_all add: pending_def queued_def failed_def in_progress_def)

lemma solicit_conserves [conserving]: "conserves E d (solicit C v k s h u a ks b d)"
  by (auto simp: solicit_def push_solicitation_def pending_on_queue_same split: sum.splits
      intro!: conserves_from[OF conserves_refl(1)])

lemma enqueueInitKeySolicitations_conserves [conserving]:
  "conserves E d (enqueueInitKeySolicitations C v s h ms b d)"
  unfolding enqueueInitKeySolicitations_def Let_def
  by (rule conserves_from[where d' = "(on_queue s (\<lambda>q. q\<lparr>keySolicitations := []\<rparr>) d)\<lparr>ownKeySolicitations := x\<rparr>" for x])
    (auto simp: pending_on_queue_same intro!: conserving intro: conserves_from[OF checkStartTicking_conserves])

lemma enqueueKeySolicitation_conserves [conserving]:
  "conserves E d (enqueueKeySolicitation C v s h u a ks b d)"
proof -
  have *: "conserves E d (and_then (solicit C v 0 s h u' a ks b d') (checkStartTicking v))" "conserves E d (ok d' [])"
    if "pending d' = pending d" "dq_nextRef d' = dq_nextRef d" "decryptionFailures d' = decryptionFailures d" for d' u'
    by (rule conserves_from[OF conserves_and_then[OF solicit_conserves checkStartTicking_conserves] that],
        rule conserves_from[OF conserves_refl(1) that])
  show ?thesis
    unfolding enqueueKeySolicitation_def Let_def
    by (auto intro!: * simp: pending_on_queue_same)
qed

lemma enqueueNewGroupSessions_conserves [conserving]: "conserves E d (enqueueNewGroupSessions E' v ss d)"
  unfolding enqueueNewGroupSessions_def by (rule conserves_from[OF checkStartTicking_conserves]) simp_all

lemma enqueueNewEncryptedContent_conserves [conserving]: "conserves E d (enqueueNewEncryptedContent v s e k c d)"
proof -
  let ?i = "\<lparr>ei_ref = dq_nextRef d, ei_streamId = s, ei_eventId = e, ei_kind = k, ei_encryptedData = c\<rparr>"
  let ?d1 = "d\<lparr>recentStreamIds := push_recent s (recentStreamIds d), dq_nextRef := Suc (dq_nextRef d)\<rparr>"
  let ?d2 = "on_queue s (\<lambda>q. q\<lparr>encryptedContent := encryptedContent q @ [?i]\<rparr>) ?d1"
  have "queued ?d2 = queued ?d1 + {#dq_nextRef d#}"
    using queued_on_queue[of s "\<lambda>q. q\<lparr>encryptedContent := encryptedContent q @ [?i]\<rparr>" ?d1] by simp
  then have p: "pending ?d2 = pending d + {#dq_nextRef d#}"
    by (simp add: pending_def queued_def in_progress_def failed_def)
  have i: "issued ?d2 = issued d + {#dq_nextRef d#}"
    by (simp add: issued_def del: mset_upt)
  have "conserves E ?d2 (checkStartTicking v ?d2)" by (rule checkStartTicking_conserves)
  then show ?thesis
    unfolding enqueueNewEncryptedContent_def Let_def conserves_def
    by (auto simp: p i failures_wf_def ac_simps)
qed

lemma retryDecryptionFailures_conserves [conserving]: "conserves E d (retryDecryptionFailures v s d)"
  unfolding retryDecryptionFailures_def
  by (auto intro: conserves_from[OF checkStartTicking_conserves] conserves_from[OF conserves_refl(1)]
      simp: pending_on_queue_same)

lemma on_stream_event_conserves [conserving]: "conserves E d (on_stream_event E' C v ev d)"
  by (cases ev) (auto simp: on_stream_event_def enqueueNewMessageDownload_def intro!: conserving
      intro: conserves_from[OF conserves_refl(1)])

text \<open>Taking work off the queues changes nothing but the queues.\<close>

definition only_queues :: "Decryption \<Rightarrow> Decryption \<Rightarrow> bool" where
  "only_queues d d' \<longleftrightarrow>
     decryptionFailures d' = decryptionFailures d \<and> dq_job d' = dq_job d \<and> dq_nextRef d' = dq_nextRef d \<and>
     upToDateStreams d' = upToDateStreams d \<and> dq_timer d' = dq_timer d \<and> dq_timeoutId d' = dq_timeoutId d \<and>
     dq_started d' = dq_started d \<and> dq_onStopFn d' = dq_onStopFn d \<and> dq_recheck d' = dq_recheck d \<and>
     isMobileSafariBackgrounded d' = isMobileSafariBackgrounded d \<and> dq_status d' = dq_status d"

lemma only_queues_trans: "only_queues d d' \<Longrightarrow> only_queues d' d'' \<Longrightarrow> only_queues d d''"
  by (simp add: only_queues_def)

lemma only_queues_refl [simp]: "only_queues d d" "only_queues d (on_queue s f d)"
  "only_queues d (d\<lparr>priorityTasks := a\<rparr>)" "only_queues d (d\<lparr>newGroupSession := b\<rparr>)"
  "only_queues d (d\<lparr>ownKeySolicitations := c\<rparr>)"
  by (simp_all add: only_queues_def)

lemma only_queues_failed: "only_queues d d' \<Longrightarrow> failed d' = failed d"
  by (simp add: only_queues_def failed_def)

text \<open>The queue of a stream when its key solicitations are looked at, and the five ways the loop of a tick goes on.\<close>

definition ordered :: "StreamTasks \<Rightarrow> StreamTasks" where
  "ordered q = (if keySolicitationsNeedsSort q then sortKeySolicitations q else q)"

lemma ordered_sels [simp]:
  "encryptedContent (ordered q) = encryptedContent q" "isMissingKeys (ordered q) = isMissingKeys q"
  "set (keySolicitations (ordered q)) = set (keySolicitations q)"
  "length (keySolicitations (ordered q)) = length (keySolicitations q)"
  by (simp_all add: ordered_def sortKeySolicitations_def)

lemma tick_streams_blocked: "s \<notin> set (upToDateStreams d) \<Longrightarrow> tick_streams now (s # ss) d = tick_streams now ss d"
  by simp

lemma tick_streams_content:
  "s \<in> set (upToDateStreams d) \<Longrightarrow> encryptedContent (getQueue s d) = i # rest \<Longrightarrow>
   tick_streams now (s # ss) d = (on_queue s (\<lambda>_. (getQueue s d)\<lparr>encryptedContent := rest\<rparr>) d, Some (WorkContent i))"
  by (simp add: Let_def)

lemma tick_streams_missing:
  "s \<in> set (upToDateStreams d) \<Longrightarrow> encryptedContent (getQueue s d) = [] \<Longrightarrow> isMissingKeys (getQueue s d) \<Longrightarrow>
   tick_streams now (s # ss) d = (on_queue s (\<lambda>_. (getQueue s d)\<lparr>isMissingKeys := False\<rparr>) d, Some (WorkMissingKeys s))"
  by (simp add: Let_def)

lemma tick_streams_solicitation:
  "s \<in> set (upToDateStreams d) \<Longrightarrow> encryptedContent (getQueue s d) = [] \<Longrightarrow> \<not> isMissingKeys (getQueue s d) \<Longrightarrow>
   dequeueUpToDate now (upToDateStreams d) (keySolicitations (ordered (getQueue s d))) = Some (k, rest) \<Longrightarrow>
   tick_streams now (s # ss) d
   = (on_queue s (\<lambda>_. (ordered (getQueue s d))\<lparr>keySolicitations := rest\<rparr>) d, Some (WorkSolicitation k))"
  by (simp add: Let_def ordered_def)

lemma tick_streams_next:
  "s \<in> set (upToDateStreams d) \<Longrightarrow> encryptedContent (getQueue s d) = [] \<Longrightarrow> \<not> isMissingKeys (getQueue s d) \<Longrightarrow>
   dequeueUpToDate now (upToDateStreams d) (keySolicitations (ordered (getQueue s d))) = None \<Longrightarrow>
   tick_streams now (s # ss) d = tick_streams now ss (on_queue s (\<lambda>_. ordered (getQueue s d)) d)"
  by (simp add: Let_def ordered_def)

lemmas tick_streams_eqs = tick_streams_blocked tick_streams_content tick_streams_missing tick_streams_solicitation
  tick_streams_next

declare tick_streams.simps(2) [simp del]

lemma tick_streams_induct [case_names Nil blocked content missing solicitation idle]:
  assumes "\<And>d. P [] d"
    and "\<And>s ss d. s \<notin> set (upToDateStreams d) \<Longrightarrow> P ss d \<Longrightarrow> P (s # ss) d"
    and "\<And>s ss d i rest. s \<in> set (upToDateStreams d) \<Longrightarrow> encryptedContent (getQueue s d) = i # rest \<Longrightarrow> P (s # ss) d"
    and "\<And>s ss d. s \<in> set (upToDateStreams d) \<Longrightarrow> encryptedContent (getQueue s d) = [] \<Longrightarrow>
          isMissingKeys (getQueue s d) \<Longrightarrow> P (s # ss) d"
    and "\<And>s ss d k rest. s \<in> set (upToDateStreams d) \<Longrightarrow> encryptedContent (getQueue s d) = [] \<Longrightarrow>
          \<not> isMissingKeys (getQueue s d) \<Longrightarrow>
          dequeueUpToDate now (upToDateStreams d) (keySolicitations (ordered (getQueue s d))) = Some (k, rest) \<Longrightarrow>
          P (s # ss) d"
    and "\<And>s ss d. s \<in> set (upToDateStreams d) \<Longrightarrow> encryptedContent (getQueue s d) = [] \<Longrightarrow>
          \<not> isMissingKeys (getQueue s d) \<Longrightarrow>
          dequeueUpToDate now (upToDateStreams d) (keySolicitations (ordered (getQueue s d))) = None \<Longrightarrow>
          P ss (on_queue s (\<lambda>_. ordered (getQueue s d)) d) \<Longrightarrow> P (s # ss) d"
  shows "P ss d"
proof (induction ss arbitrary: d)
  case Nil
  show ?case by (rule assms(1))
next
  case (Cons s ss)
  show ?case
  proof (cases "s \<in> set (upToDateStreams d)")
    case up: True
    show ?thesis
    proof (cases "encryptedContent (getQueue s d)")
      case nil: Nil
      show ?thesis
      proof (cases "isMissingKeys (getQueue s d)")
        case nk: False
        show ?thesis
        proof (cases "dequeueUpToDate now (upToDateStreams d) (keySolicitations (ordered (getQueue s d)))")
          case None
          show ?thesis by (rule assms(6)[OF up nil nk None Cons.IH])
        next
          case (Some kr)
          then show ?thesis by (cases kr) (auto intro: assms(5)[OF up nil nk])
        qed
      qed (rule assms(4)[OF up nil])
    qed (rule assms(3)[OF up])
  qed (rule assms(2)[OF _ Cons.IH])
qed

lemma tick_streams_only_queues: "only_queues d (fst (tick_streams now ss d))"
proof (induction ss d rule: tick_streams_induct[where now = now])
  case (idle s ss d)
  then show ?case using only_queues_trans[OF only_queues_refl(2)] by (simp add: tick_streams_next)
qed (simp_all add: tick_streams_eqs)

lemma tick_streams_queued:
  "queued (fst (tick_streams now ss d)) + work_refs (snd (tick_streams now ss d)) = queued d"
proof (induction ss d rule: tick_streams_induct[where now = now])
  case (content s ss d i rest)
  then show ?case
    using queued_on_queue[of s "\<lambda>_. (getQueue s d)\<lparr>encryptedContent := rest\<rparr>" d]
    by (simp add: tick_streams_content work_refs_def)
qed (simp_all add: tick_streams_eqs queued_on_queue_same work_refs_def)

lemma dequeue_only_queues: "only_queues d (fst (dequeue E now d))"
  by (simp add: dequeue_def tick_streams_only_queues split: list.split)

lemma dequeue_queued: "queued (fst (dequeue E now d)) + work_refs (snd (dequeue E now d)) = queued d"
  using tick_streams_queued[of now "stream_order E d" d]
  by (auto simp: dequeue_def work_refs_def queued_def split: list.split)

lemma isValidEvent_frame:
  assumes "isValidEvent E C item d = (d', b)"
  shows "pending d' = pending d" "dq_nextRef d' = dq_nextRef d" "decryptionFailures d' = decryptionFailures d"
    "streamQueues d' = streamQueues d" "newGroupSession d' = newGroupSession d" "priorityTasks d' = priorityTasks d"
    "ownKeySolicitations d' = ownKeySolicitations d" "upToDateStreams d' = upToDateStreams d"
    "dq_job d' = dq_job d" "dq_timer d' = dq_timer d" "dq_timeoutId d' = dq_timeoutId d"
    "dq_started d' = dq_started d" "dq_onStopFn d' = dq_onStopFn d"
    "isMobileSafariBackgrounded d' = isMobileSafariBackgrounded d" "dq_recheck d' = dq_recheck d"
  using assms by (auto simp: isValidEvent_def Let_def split: if_splits option.splits)

lemma begin_missing_job: "begin_missing C v s d \<noteq> JobContent i" "begin_missing C v s d \<noteq> JobTask t"
  "begin_missing C v s d \<noteq> JobSession n" "begin_missing C v s d \<noteq> JobSolicitation k"
  by (simp_all add: begin_missing_def split: sum.split bool.split)

text \<open>What a job has of the work it comes from.\<close>

definition job_refs :: "job \<Rightarrow> nat multiset" where
  "job_refs j = (case j of JobContent i \<Rightarrow> {#ei_ref i#} | _ \<Rightarrow> {#})"

lemma begin_work_frame:
  assumes "begin_work E C v w d = (d', j)"
  shows "streamQueues d' = streamQueues d" "decryptionFailures d' = decryptionFailures d" "dq_nextRef d' = dq_nextRef d"
    "newGroupSession d' = newGroupSession d" "priorityTasks d' = priorityTasks d"
    "ownKeySolicitations d' = ownKeySolicitations d" "upToDateStreams d' = upToDateStreams d"
    "dq_timeoutId d' = dq_timeoutId d" "dq_started d' = dq_started d" "dq_onStopFn d' = dq_onStopFn d"
    "isMobileSafariBackgrounded d' = isMobileSafariBackgrounded d" "dq_recheck d' = dq_recheck d"
    "job_refs j = work_refs w"
  using assms
  by (auto simp: begin_work_def job_refs_def work_refs_def begin_missing_job isValidEvent_frame
      split: option.splits work.splits if_splits prod.splits job.splits)

lemma setStatus_frame [simp]:
  "streamQueues (st_of (setStatus x d)) = streamQueues d" "newGroupSession (st_of (setStatus x d)) = newGroupSession d"
  "priorityTasks (st_of (setStatus x d)) = priorityTasks d"
  "ownKeySolicitations (st_of (setStatus x d)) = ownKeySolicitations d"
  "decryptionFailures (st_of (setStatus x d)) = decryptionFailures d"
  "upToDateStreams (st_of (setStatus x d)) = upToDateStreams d"
  "dq_nextRef (st_of (setStatus x d)) = dq_nextRef d" "dq_job (st_of (setStatus x d)) = dq_job d"
  "dq_timer (st_of (setStatus x d)) = dq_timer d" "dq_timeoutId (st_of (setStatus x d)) = dq_timeoutId d"
  "dq_started (st_of (setStatus x d)) = dq_started d" "dq_onStopFn (st_of (setStatus x d)) = dq_onStopFn d"
  "isMobileSafariBackgrounded (st_of (setStatus x d)) = isMobileSafariBackgrounded d"
  "dq_recheck (st_of (setStatus x d)) = dq_recheck d"
  "dq_status (st_of (setStatus x d)) = x" "exn_of (setStatus x d) = None"
  "all_settled E (outs_of (setStatus x d)) = {#}"
  by (simp_all add: setStatus_def settled_def)

text \<open>A tick, as a dequeue and a job.\<close>

lemma tick_frame:
  assumes "dequeue E (of_int (e_now v)) d = (d1, w)"
  obtains j d' where "st_of (tick E C v d) = d'" "dq_job d' = Some j" "\<not> dq_timer d'" "job_refs j = work_refs w"
    "streamQueues d' = streamQueues d1" "decryptionFailures d' = decryptionFailures d"
    "dq_nextRef d' = dq_nextRef d" "newGroupSession d' = newGroupSession d1" "priorityTasks d' = priorityTasks d1"
    "ownKeySolicitations d' = ownKeySolicitations d1" "upToDateStreams d' = upToDateStreams d"
    "dq_timeoutId d' = dq_timeoutId d" "dq_started d' = dq_started d" "dq_onStopFn d' = dq_onStopFn d"
    "isMobileSafariBackgrounded d' = isMobileSafariBackgrounded d" "dq_recheck d' = dq_recheck d"
    "all_settled E (outs_of (tick E C v d)) = {#}"
    "j = snd (begin_work E C v w (st_of (setStatus (work_status w) d1)))"
proof -
  let ?d2 = "st_of (setStatus (work_status w) d1)"
  obtain d3 j where b: "begin_work E C v w ?d2 = (d3, j)" by (cases "begin_work E C v w ?d2")
  have o: "only_queues d d1" using dequeue_only_queues[of d E "of_int (e_now v)"] by (simp add: assms)
  have t: "st_of (tick E C v d) = d3\<lparr>dq_timer := False, dq_job := Some j\<rparr>"
    "all_settled E (outs_of (tick E C v d)) = {#}"
    by (simp_all add: tick_def assms and_then_sels b)
  show thesis
    by (rule that[OF t(1)]) (use o t(2) b begin_work_frame[OF b] in \<open>simp_all add: only_queues_def\<close>)
qed

lemma in_progress_Some [simp]: "dq_job d = Some j \<Longrightarrow> in_progress d = job_refs j"
  by (simp add: in_progress_def job_refs_def split: job.split)

lemma tick_conserves:
  assumes "dq_job d = None"
  shows "conserves E d (tick E C v d)"
proof -
  obtain d1 w where dq: "dequeue E (of_int (e_now v)) d = (d1, w)" by (cases "dequeue E (of_int (e_now v)) d")
  from tick_frame[OF dq, of C] obtain j d' where f: "st_of (tick E C v d) = d'" "dq_job d' = Some j" "job_refs j = work_refs w"
    "streamQueues d' = streamQueues d1" "decryptionFailures d' = decryptionFailures d" "dq_nextRef d' = dq_nextRef d"
    "all_settled E (outs_of (tick E C v d)) = {#}" by metis
  have "queued d1 + work_refs w = queued d"
    using dequeue_queued[of E "of_int (e_now v)" d] by (simp add: dq)
  then have "pending d' = pending d"
    using f assms by (simp add: pending_def queued_def failed_def in_progress_def[of d] ac_simps)
  then show ?thesis
    using f by (simp add: conserves_def issued_def failures_wf_def)
qed

lemma failed_set:
  "failed (d\<lparr>decryptionFailures := map_set s m (decryptionFailures d)\<rparr>)
     + total content_refs (map_get_or (decryptionFailures d) s []) = failed d + total content_refs m"
  using total_set_or[where f = "total content_refs" and z = "[]" and k = s and x = m and m = "decryptionFailures d"]
  by (simp add: failed_def)

lemma failures_wf_set:
  "failures_wf d \<Longrightarrow> distinct (map fst m) \<Longrightarrow>
   failures_wf (d\<lparr>decryptionFailures := map_set s m (decryptionFailures d)\<rparr>)"
proof -
  assume a: "failures_wf d" "distinct (map fst m)"
  have "sm \<in> set (map_set s m xs) \<Longrightarrow> sm = (s, m) \<or> sm \<in> set xs" for sm and xs :: "(string, (string, EncryptedContentItem list) jsmap) jsmap"
    by (induction xs) (auto split: if_splits)
  with a show ?thesis by (fastforce simp: failures_wf_def)
qed

lemma failures_wf_get: "failures_wf d \<Longrightarrow> distinct (map fst (map_get_or (decryptionFailures d) s []))"
  by (fastforce simp: failures_wf_def map_get_or_def dest: map_of_SomeD split: option.split)

lemma in_failed:
  assumes "map_get (map_get_or (decryptionFailures d) s []) x = Some items"
  shows "content_refs items \<subseteq># failed d"
proof -
  have sub: "map_get m k = Some y \<Longrightarrow> f y \<subseteq># total f m" for f :: "'v \<Rightarrow> 'n multiset" and m and k :: 'k and y
    by (induction m) (auto simp: total_def subset_mset.add_increasing subset_mset.add_increasing2 split: if_splits)
  have "content_refs items \<subseteq># total content_refs (map_get_or (decryptionFailures d) s [])"
    by (rule sub[OF assms])
  also have "\<dots> \<subseteq># failed d"
    using assms sub[of "decryptionFailures d" s _ "total content_refs"]
    by (auto simp: failed_def map_get_or_def split: option.splits)
  finally show ?thesis .
qed

lemma add_failure_failed:
  assumes "ei_ref i \<notin># failed d"
  shows "failed (add_failure x i d) = failed d + {#ei_ref i#}" and "queued (add_failure x i d) = queued d"
    "in_progress (add_failure x i d) = in_progress d" "dq_nextRef (add_failure x i d) = dq_nextRef d"
    "failures_wf d \<Longrightarrow> failures_wf (add_failure x i d)" "dq_job (add_failure x i d) = dq_job d"
proof -
  let ?ss = "map_get_or (decryptionFailures d) (ei_streamId i) []" and ?is = "map_get_or (map_get_or (decryptionFailures d) (ei_streamId i) []) x []"
  have fresh: "ei_ref i \<notin> ei_ref ` set ?is"
  proof (cases "map_get ?ss x")
    case (Some items)
    then have "ei_ref i \<notin># content_refs items"
      using in_failed[of d "ei_streamId i" x items] assms mset_subset_eqD by metis
    then show ?thesis using Some by (simp add: map_get_or_def content_refs_def)
  qed (simp add: map_get_or_def)
  have ss: "total content_refs (map_set x (?is @ [i]) ?ss) = total content_refs ?ss + {#ei_ref i#}"
    using total_set_or[where f = content_refs and z = "[]" and k = x and x = "?is @ [i]" and m = ?ss] by (simp add: ac_simps)
  show "failed (add_failure x i d) = failed d + {#ei_ref i#}"
    using failed_set[where d = d and s = "ei_streamId i" and m = "map_set x (?is @ [i]) ?ss"] fresh by (simp add: add_failure_def Let_def ss)
  show "queued (add_failure x i d) = queued d" "in_progress (add_failure x i d) = in_progress d"
    "dq_nextRef (add_failure x i d) = dq_nextRef d" "dq_job (add_failure x i d) = dq_job d"
    by (simp_all add: add_failure_def Let_def queued_def in_progress_def)
  show "failures_wf (add_failure x i d)" if "failures_wf d"
    unfolding add_failure_def Let_def by (rule failures_wf_set[OF that]) (simp add: failures_wf_get[OF that] del: if_image_distrib)
qed

lemma requeue_session_held:
  assumes "failures_wf d"
  shows "queued (requeue_session s x d) + failed (requeue_session s x d) = queued d + failed d"
    "in_progress (requeue_session s x d) = in_progress d" "dq_nextRef (requeue_session s x d) = dq_nextRef d"
    "failures_wf (requeue_session s x d)" "dq_job (requeue_session s x d) = dq_job d"
proof -
  let ?m = "map_get_or (decryptionFailures d) s []"
  have *: "queued (requeue_session s x d) + failed (requeue_session s x d) = queued d + failed d
     \<and> failures_wf (requeue_session s x d)"
  proof (cases "map_get ?m x")
    case (Some items)
    let ?d1 = "on_queue s (\<lambda>q. q\<lparr>encryptedContent := encryptedContent q @ items\<rparr>) d"
    have r: "requeue_session s x d = ?d1\<lparr>decryptionFailures := map_set s (map_delete x ?m) (decryptionFailures ?d1)\<rparr>"
      using Some by (simp add: requeue_session_def)
    have q: "queued ?d1 = queued d + content_refs items"
      using queued_on_queue[of s "\<lambda>q. q\<lparr>encryptedContent := encryptedContent q @ items\<rparr>" d] by simp
    have q2: "queued (requeue_session s x d) = queued ?d1" unfolding r by (simp add: queued_def)
    have f: "failed (requeue_session s x d) + total content_refs ?m = failed d + total content_refs (map_delete x ?m)"
      unfolding r using failed_set[where d = ?d1 and s = s and m = "map_delete x ?m"] by simp
    have t: "total content_refs (map_delete x ?m) + content_refs items = total content_refs ?m"
      by (rule total_delete[OF failures_wf_get[OF assms] Some])
    have "(failed (requeue_session s x d) + content_refs items) + total content_refs (map_delete x ?m)
        = failed d + total content_refs (map_delete x ?m)"
      using f unfolding t[symmetric] by (simp only: ac_simps)
    then have fd: "failed d = failed (requeue_session s x d) + content_refs items" by (simp only: add_right_cancel)
    have "queued (requeue_session s x d) + failed (requeue_session s x d) = queued d + failed d"
      unfolding q2 q fd by (simp only: ac_simps)
    moreover have "failures_wf (requeue_session s x d)"
      unfolding r by (rule failures_wf_set) (use assms in \<open>simp_all add: failures_wf_def failures_wf_get[OF assms] distinct_delete\<close>)
    ultimately show ?thesis by simp
  qed (simp add: requeue_session_def assms)
  show "queued (requeue_session s x d) + failed (requeue_session s x d) = queued d + failed d"
    "failures_wf (requeue_session s x d)" using * by simp_all
  show "in_progress (requeue_session s x d) = in_progress d" "dq_nextRef (requeue_session s x d) = dq_nextRef d"
    "dq_job (requeue_session s x d) = dq_job d"
    by (simp_all add: requeue_session_def in_progress_def split: option.split)
qed

lemma fold_requeue_held:
  assumes "failures_wf d"
  shows "let d' = fold (\<lambda>g. requeue_session s (ge_sessionId g)) gs d
    in queued d' + failed d' = queued d + failed d \<and> in_progress d' = in_progress d \<and> dq_nextRef d' = dq_nextRef d
       \<and> failures_wf d' \<and> dq_job d' = dq_job d"
  using assms
proof (induction gs arbitrary: d)
  case (Cons g gs)
  from Cons.IH[OF requeue_session_held(4)[OF Cons.prems]] show ?case
    using requeue_session_held[OF Cons.prems] by (simp add: Let_def)
qed simp

text \<open>Jobs other than the decryption of an item keep the balance whenever they run.\<close>

lemma importSessions_conserves:
  assumes "failures_wf d"
  shows "conserves E d (importSessions v s gs d)"
proof -
  let ?d1 = "on_queue s id d"
  have wf: "failures_wf ?d1" using assms by (simp add: failures_wf_def)
  have "pending ?d1 = pending d" by (simp add: pending_on_queue_same)
  then show ?thesis
    using fold_requeue_held[OF wf, of s gs]
    by (auto simp: importSessions_def conserves_def Let_def issued_def settled_def pending_def split: sum.split)
qed

lemma ack_if_last_conserves: "conserves E d (ack_if_last v d)"
  by (auto simp: ack_if_last_def settled_def split: sum.split intro!: conserves_ok_same)

lemma processNewGroupSession_conserves:
  assumes "failures_wf d"
  shows "conserves E d (processNewGroupSession C v item d)"
  by (auto simp: processNewGroupSession_def Let_def split: option.split sum.split list.split
      intro!: conserves_and_then importSessions_conserves assms ack_if_last_conserves)

lemma processMissingKeys_conserves: "conserves E d (processMissingKeys C v s ids d)"
  by (auto simp: processMissingKeys_def Let_def settled_def split: sum.split intro!: conserves_ok_same)

lemma encryptAndShareGroupSessions_conserves: "conserves E d (encryptAndShareGroupSessions v item kv d)"
  by (cases kv) (auto simp: encryptAndShareGroupSessions_def settled_def split: sum.split
      intro!: conserves_for_each conserves_ok_same)

lemma processKeySolicitation_conserves: "conserves E d (processKeySolicitation v item d)"
proof -
  have "conserves E d (and_then (ok d [FulfillmentSent a b c e])
     (for_each (encryptAndShareGroupSessions v item) kvs))" for a b c e kvs
    by (rule conserves_and_then) (auto simp: settled_def intro!: conserves_ok_same conserves_for_each
        encryptAndShareGroupSessions_conserves)
  then show ?thesis
    by (auto simp: processKeySolicitation_def Let_def split: sum.split list.split option.split simp del: and_then_ok)
qed

lemma finish_task_conserves: "conserves E d (finish_task v t d)"
  by (cases t) (auto simp: finish_task_def settled_def split: sum.split intro!: conserves_ok_same)

lemma process_job_conserves:
  assumes "failures_wf d" "\<And>i. j \<noteq> JobContent i"
  shows "conserves E d (process_job E C v j d)"
  using assms
  by (cases j) (auto simp: process_job_def intro: processNewGroupSession_conserves processMissingKeys_conserves
      processKeySolicitation_conserves finish_task_conserves)

text \<open>A job changes the queues of the streams and the failures only.\<close>

definition job_frame :: "Decryption \<Rightarrow> Decryption \<Rightarrow> bool" where
  "job_frame d d' \<longleftrightarrow>
     dq_job d' = dq_job d \<and> dq_nextRef d' = dq_nextRef d \<and> upToDateStreams d' = upToDateStreams d \<and>
     dq_timer d' = dq_timer d \<and> dq_timeoutId d' = dq_timeoutId d \<and> dq_started d' = dq_started d \<and>
     dq_onStopFn d' = dq_onStopFn d \<and> dq_recheck d' = dq_recheck d \<and> dq_status d' = dq_status d \<and>
     isMobileSafariBackgrounded d' = isMobileSafariBackgrounded d \<and> priorityTasks d' = priorityTasks d \<and>
     newGroupSession d' = newGroupSession d \<and> ownKeySolicitations d' = ownKeySolicitations d"

lemma job_frame_refl [simp]: "job_frame d d" "job_frame d (on_queue s f d)" "job_frame d (add_failure x i d)"
  "job_frame d (on_queue s f (add_failure x i d))" "job_frame d (requeue_session s x d)"
  by (simp_all add: job_frame_def add_failure_def Let_def requeue_session_def split: option.split)

lemma job_frame_trans: "job_frame d d' \<Longrightarrow> job_frame d' d'' \<Longrightarrow> job_frame d d''"
  by (simp add: job_frame_def)

lemma job_frame_for_each:
  assumes "\<And>x d. job_frame d (st_of (f x d))"
  shows "job_frame d (st_of (for_each f xs d))"
  by (rule for_each_inv[where I = "job_frame d"]) (auto intro: job_frame_trans assms)

lemma job_frame_fold:
  assumes "\<And>x d. job_frame d (f x d)"
  shows "job_frame d (fold f xs d)"
  by (induction xs arbitrary: d) (auto intro: job_frame_trans assms)

lemma job_frame_and_then:
  assumes "job_frame d (st_of r)" "\<And>s. job_frame s (st_of (f s))"
  shows "job_frame d (st_of (and_then r f))"
  by (rule and_then_inv[where I = "job_frame d"]) (auto intro: job_frame_trans assms)

lemma importSessions_frame: "job_frame d (st_of (importSessions v s gs d))"
  by (auto simp: importSessions_def split: sum.split
      intro!: job_frame_trans[OF job_frame_refl(2)[where s = s and f = id] job_frame_fold])

lemma ack_if_last_frame: "st_of (ack_if_last v d) = d"
  by (simp add: ack_if_last_def split: sum.split)

lemma processNewGroupSession_frame: "job_frame d (st_of (processNewGroupSession C v item d))"
  by (auto simp: processNewGroupSession_def Let_def split: option.split sum.split list.split
      intro!: job_frame_and_then importSessions_frame simp: ack_if_last_frame)

lemma encryptAndShareGroupSessions_state: "st_of (encryptAndShareGroupSessions v item kv d) = d"
  by (cases kv, simp add: encryptAndShareGroupSessions_def,
      rule for_each_inv[where I = "\<lambda>s. s = d"]) (auto split: sum.split)

lemma processKeySolicitation_state: "st_of (processKeySolicitation v item d) = d"
proof -
  have "st_of (for_each (encryptAndShareGroupSessions v item) kvs d) = d" for kvs
    by (rule for_each_inv[where I = "\<lambda>s. s = d"]) (auto simp: encryptAndShareGroupSessions_state)
  then show ?thesis
    by (auto simp: processKeySolicitation_def Let_def split: sum.split list.split option.split)
qed

lemma processMissingKeys_state: "st_of (processMissingKeys C v s ids d) = d"
  by (auto simp: processMissingKeys_def Let_def split: sum.split)

lemma finish_task_state: "st_of (finish_task v t d) = d"
  by (auto simp: finish_task_def split: sum.split)

lemma processEncryptedContentItem_frame: "job_frame d (st_of (processEncryptedContentItem E v i d))"
  by (auto simp: processEncryptedContentItem_def Let_def split: decrypted.split)

lemma process_job_frame: "job_frame d (st_of (process_job E C v j d))"
  by (cases j) (auto simp: process_job_def processNewGroupSession_frame processKeySolicitation_state
      processMissingKeys_state finish_task_state processEncryptedContentItem_frame)

lemma finish_sels:
  "st_of (finish E C v j d)
   = (st_of (process_job E C v j d))\<lparr>dq_job := None, dq_timeoutId := False, dq_recheck := True\<rparr>"
  "outs_of (finish E C v j d) = outs_of (process_job E C v j d)" "exn_of (finish E C v j d) = None"
  by (simp_all add: finish_def split: prod.split)

lemma pending_finish:
  "pending (d\<lparr>dq_job := None, dq_timeoutId := a, dq_recheck := b\<rparr>) + in_progress d = pending d"
  by (simp add: pending_def queued_def failed_def in_progress_def)

lemma processEncryptedContentItem_balance:
  assumes "ei_ref i \<notin># failed d"
  shows "pending (st_of (processEncryptedContentItem E v i d)) + all_settled E (outs_of (processEncryptedContentItem E v i d))
     = pending d + {#ei_ref i#}"
    "failures_wf d \<Longrightarrow> failures_wf (st_of (processEncryptedContentItem E v i d))"
proof -
  let ?x = "failed_session_id E i"
  have q: "pending (on_queue (ei_streamId i) (\<lambda>q. q\<lparr>isMissingKeys := True\<rparr>) (add_failure ?x i d)) = pending d + {#ei_ref i#}"
    using add_failure_failed[OF assms, of ?x] by (simp add: queued_on_queue_same pending_def in_progress_def ac_simps)
  show "pending (st_of (processEncryptedContentItem E v i d)) + all_settled E (outs_of (processEncryptedContentItem E v i d))
     = pending d + {#ei_ref i#}"
    by (auto simp: processEncryptedContentItem_def Let_def settled_def q split: decrypted.split)
  show "failures_wf (st_of (processEncryptedContentItem E v i d))" if "failures_wf d"
    using add_failure_failed(5)[OF assms that, of ?x] that
    by (auto simp: processEncryptedContentItem_def Let_def failures_wf_def split: decrypted.split)
qed

subsection \<open>Invariants of a run\<close>

text \<open>The timer and the tick: a timer is set only when no tick runs, and only between \<open>start\<close> and \<open>stop\<close>.\<close>

definition timer_inv :: "Decryption \<Rightarrow> bool" where
  "timer_inv d \<longleftrightarrow>
     (dq_timer d \<longrightarrow> dq_timeoutId d \<and> dq_job d = None) \<and>
     (dq_timeoutId d \<longrightarrow> dq_started d \<and> dq_onStopFn d \<and> (dq_timer d \<or> dq_job d \<noteq> None)) \<and>
     (dq_onStopFn d \<and> dq_job d \<noteq> None \<longrightarrow> dq_timeoutId d)"

definition same_timers :: "Decryption \<Rightarrow> Decryption \<Rightarrow> bool" where
  "same_timers d d' \<longleftrightarrow>
     dq_timer d' = dq_timer d \<and> dq_timeoutId d' = dq_timeoutId d \<and> dq_job d' = dq_job d \<and>
     dq_started d' = dq_started d \<and> dq_onStopFn d' = dq_onStopFn d"

lemma timer_inv_same: "same_timers d d' \<Longrightarrow> timer_inv d \<Longrightarrow> timer_inv d'"
  by (simp add: same_timers_def timer_inv_def)

lemma checkStartTicking_timer: "timer_inv d \<Longrightarrow> timer_inv (st_of (checkStartTicking v d))"
  by (auto simp: checkStartTicking_def setStatus_def timer_inv_def)

lemma check_after: "same_timers d d' \<Longrightarrow> timer_inv d \<Longrightarrow> timer_inv (st_of (checkStartTicking v d'))"
  by (rule checkStartTicking_timer, rule timer_inv_same)

lemma push_solicitation_timers: "same_timers d (push_solicitation C item d)"
  by (simp add: push_solicitation_def same_timers_def)

lemma solicit_timers: "same_timers d d' \<Longrightarrow> same_timers d (st_of (solicit C v k s h u a ks b d'))"
  using push_solicitation_timers[of d' C] by (auto simp: solicit_def same_timers_def split: sum.split)

lemma enqueueInitKeySolicitations_timer:
  assumes "timer_inv d"
  shows "timer_inv (st_of (enqueueInitKeySolicitations C v s h ms b d))"
proof -
  let ?f = "\<lambda>(k, u, a, ks). solicit C v k s h u a ks b"
  have loop: "same_timers d d2 \<Longrightarrow> same_timers d (st_of (for_each ?f xs d2))" for xs d2
    by (rule for_each_inv[where I = "same_timers d"]) (auto intro: solicit_timers)
  have "timer_inv (st_of (and_then (for_each ?f xs d2) (\<lambda>d3. checkStartTicking v (on_queue s g d3))))"
    if "same_timers d d2" for xs d2 g
    using loop[OF that, of xs] check_after[OF _ assms] timer_inv_same[OF _ assms]
    by (auto simp: st_of_and_then same_timers_def)
  then show ?thesis unfolding enqueueInitKeySolicitations_def Let_def by (simp add: same_timers_def)
qed

lemma enqueueKeySolicitation_timer:
  assumes "timer_inv d"
  shows "timer_inv (st_of (enqueueKeySolicitation C v s h u a ks b d))"
proof -
  have "timer_inv (st_of (and_then (solicit C v 0 s h u' a ks b d') (checkStartTicking v)))" "timer_inv d'"
    if "same_timers d d'" for d' u'
    using solicit_timers[OF that] check_after[OF _ assms] timer_inv_same[OF _ assms] that
    by (auto simp: st_of_and_then)
  then show ?thesis
    unfolding enqueueKeySolicitation_def Let_def by (simp add: same_timers_def assms)
qed

lemma on_stream_event_timer: "timer_inv d \<Longrightarrow> timer_inv (st_of (on_stream_event E C v ev d))"
  by (cases ev)
    (auto simp: on_stream_event_def enqueueNewGroupSessions_def enqueueNewEncryptedContent_def Let_def
      retryDecryptionFailures_def enqueueNewMessageDownload_def same_timers_def
      intro: enqueueInitKeySolicitations_timer enqueueKeySolicitation_timer check_after timer_inv_same)

lemma tick_timer: "timer_inv d \<Longrightarrow> dq_timer d \<Longrightarrow> timer_inv (st_of (tick E C v d))"
proof -
  assume i: "timer_inv d" "dq_timer d"
  obtain d1 w where dq: "dequeue E (of_int (e_now v)) d = (d1, w)" by (cases "dequeue E (of_int (e_now v)) d")
  from tick_frame[OF dq, of C] obtain j d' where "st_of (tick E C v d) = d'" "dq_job d' = Some j" "\<not> dq_timer d'"
    "dq_timeoutId d' = dq_timeoutId d" "dq_started d' = dq_started d" "dq_onStopFn d' = dq_onStopFn d" by metis
  then show ?thesis using i by (simp add: timer_inv_def)
qed

lemma finish_timer: "timer_inv d \<Longrightarrow> dq_job d = Some j \<Longrightarrow> timer_inv (st_of (finish E C v j d))"
  using process_job_frame[of d E C v j] by (auto simp: finish_sels timer_inv_def job_frame_def)

lemma dec_step_timer: "timer_inv d \<Longrightarrow> timer_inv (st_of (dec_step E C v op d))"
proof (cases op)
  case OpStart
  moreover assume "timer_inv d"
  moreover from this have "timer_inv (d\<lparr>dq_started := True, priorityTasks := x\<rparr>)" for x by (simp add: timer_inv_def)
  ultimately show ?thesis
    by (auto simp: dec_step_def start_def Let_def enqueueNewMessageDownload_def intro: checkStartTicking_timer)
qed (auto simp: dec_step_def setStreamUpToDate_def resetUpToDateStreams_def stop_def setHighPriorityStreams_def
    visibilityChanged_def Let_def same_timers_def split: option.split
    intro: on_stream_event_timer check_after timer_inv_same tick_timer finish_timer, auto simp: timer_inv_def)

interpretation decryption: component timer_inv "\<lambda>vo. dec_step E C (fst vo) (snd vo)" for E C
  by unfold_locales (rule dec_step_timer)

lemma dec_run_Cons [simp]:
  "dec_run E C ((v, op) # ops) d
   = (fst (dec_run E C ops (st_of (dec_step E C v op d))),
      outs_of (dec_step E C v op d) @ snd (dec_run E C ops (st_of (dec_step E C v op d))))"
  by (simp split: prod.split)

declare dec_run.simps(2) [simp del]

lemma dec_run_state: "fst (dec_run E C ops d) = fold (\<lambda>vo s. st_of (dec_step E C (fst vo) (snd vo) s)) ops d"
  by (induction ops arbitrary: d) auto

lemma timer_inv_new: "timer_inv (newDecryption up)"
  by (simp add: timer_inv_def newDecryption_def)

lemma dec_run_timer: "timer_inv (fst (dec_run E C ops (newDecryption up)))"
  unfolding dec_run_state by (rule decryption.run_inv, rule timer_inv_new)

text \<open>The balance over a run.\<close>

definition books :: "'a externs_scheme \<Rightarrow> Decryption \<Rightarrow> dec_out list \<Rightarrow> bool" where
  "books E d tr \<longleftrightarrow> issued d = pending d + all_settled E tr \<and> failures_wf d"

lemma books_conserves: "books E d tr \<Longrightarrow> conserves E d r \<Longrightarrow> books E (st_of r) (tr @ outs_of r)"
proof -
  assume b: "books E d tr" and c: "conserves E d r"
  have i: "issued d = pending d + all_settled E tr" using b by (simp add: books_def)
  have "pending (st_of r) + all_settled E (outs_of r) + (pending d + all_settled E tr) = pending d + issued (st_of r)"
    using c unfolding conserves_def i by simp
  then have "pending d + issued (st_of r) = pending d + (pending (st_of r) + (all_settled E tr + all_settled E (outs_of r)))"
    by (simp only: ac_simps)
  then have "issued (st_of r) = pending (st_of r) + (all_settled E tr + all_settled E (outs_of r))"
    by (simp only: add_left_cancel)
  then show ?thesis using b c by (simp add: books_def conserves_def)
qed

lemma books_fresh:
  assumes "books E d tr" "dq_job d = Some (JobContent i)"
  shows "ei_ref i \<notin># failed d"
proof
  assume m: "ei_ref i \<in># failed d"
  have "count (pending d) (ei_ref i) \<le> count (issued d) (ei_ref i)" using assms(1) by (simp add: books_def)
  also have "\<dots> \<le> 1" by (simp add: issued_def count_mset_set')
  finally have "count (failed d) (ei_ref i) + 1 \<le> 1" using assms(2) by (simp add: pending_def job_refs_def)
  then show False using m by (simp add: count_greater_zero_iff[symmetric] del: count_greater_zero_iff)
qed

lemma finish_conserves:
  assumes "books E d tr" "dq_job d = Some j"
  shows "conserves E d (finish E C v j d)"
proof -
  let ?d1 = "st_of (process_job E C v j d)"
  have wf: "failures_wf d" using assms(1) by (simp add: books_def)
  have fr: "job_frame d ?d1" by (rule process_job_frame)
  have ip: "in_progress ?d1 = job_refs j" "in_progress d = job_refs j" "issued ?d1 = issued d"
    using fr assms(2) by (simp_all add: job_frame_def issued_def)
  have bal: "pending ?d1 + all_settled E (outs_of (process_job E C v j d)) = pending d + job_refs j \<and> failures_wf ?d1"
  proof (cases "\<exists>i. j = JobContent i")
    case True
    then obtain i where j: "j = JobContent i" ..
    from processEncryptedContentItem_balance[OF books_fresh[OF assms(1) assms(2)[unfolded j]], of E v] wf show ?thesis
      by (simp add: j process_job_def job_refs_def)
  next
    case False
    then have jr: "job_refs j = {#}" by (auto simp: job_refs_def split: job.split)
    show ?thesis
      using process_job_conserves[OF wf, of j E C v] False fr jr ip(3) wf by (simp add: conserves_def)
  qed
  have p: "pending (st_of (finish E C v j d)) + job_refs j = pending ?d1"
    using pending_finish[where d = ?d1 and a = False and b = True] by (simp add: finish_sels ip)
  have "pending (st_of (finish E C v j d)) + all_settled E (outs_of (finish E C v j d)) + job_refs j = pending d + job_refs j"
    using bal unfolding finish_sels(2) p[symmetric] by (simp add: ac_simps)
  then have "pending (st_of (finish E C v j d)) + all_settled E (outs_of (finish E C v j d)) = pending d"
    by (simp only: add_right_cancel)
  then show ?thesis
    using bal ip(3) by (simp add: conserves_def finish_sels issued_def failures_wf_def)
qed

lemma dec_step_conserves:
  assumes "books E d tr" "timer_inv d"
  shows "conserves E d (dec_step E C v op d)"
proof -
  have t: "dq_timer d \<Longrightarrow> dq_job d = None" using assms(2) by (simp add: timer_inv_def)
  show ?thesis
    by (cases op) (auto simp: dec_step_def setStreamUpToDate_def resetUpToDateStreams_def stop_def start_def Let_def
        setHighPriorityStreams_def visibilityChanged_def enqueueNewMessageDownload_def split: option.split
        intro: on_stream_event_conserves tick_conserves t finish_conserves[OF assms(1)]
          conserves_from[OF checkStartTicking_conserves] conserves_from[OF conserves_refl(1)])
qed

lemma dec_run_books:
  assumes "books E d tr" "timer_inv d"
  shows "books E (fst (dec_run E C ops d)) (tr @ snd (dec_run E C ops d))"
  using assms
proof (induction ops arbitrary: d tr)
  case (Cons vo ops)
  obtain v op where vo: "vo = (v, op)" by (cases vo)
  let ?r = "dec_step E C v op d"
  have "books E (st_of ?r) (tr @ outs_of ?r)"
    by (rule books_conserves[OF Cons.prems(1) dec_step_conserves[OF Cons.prems]])
  from Cons.IH[OF this dec_step_timer[OF Cons.prems(2)]] show ?case by (simp add: vo)
qed simp

lemma books_new: "books E (newDecryption up) []"
  by (simp add: books_def issued_def pending_def queued_def failed_def in_progress_def failures_wf_def newDecryption_def)

text \<open>
  C5. No encrypted content is lost and none is handled twice: whatever the client, the crypto store and the network do,
  the items handed to the queue are at every moment exactly those that wait in the queue of a stream, wait for their keys
  among the failures, or are being decrypted, together with those that were settled, each once.\<close>

theorem encrypted_content_conserved:
  "mset [0..<dq_nextRef (fst (dec_run E C ops (newDecryption up)))]
   = queued (fst (dec_run E C ops (newDecryption up))) + failed (fst (dec_run E C ops (newDecryption up)))
     + in_progress (fst (dec_run E C ops (newDecryption up))) + all_settled E (snd (dec_run E C ops (newDecryption up)))"
  using dec_run_books[OF books_new timer_inv_new, of E C ops up] by (simp add: books_def issued_def pending_def)

subsection \<open>One tick at a time, none after \<open>stop\<close>\<close>

definition stopped :: "Decryption \<Rightarrow> bool" where
  "stopped d \<longleftrightarrow> \<not> dq_onStopFn d \<and> \<not> dq_timer d"

lemma stopped_check [simp]: "\<not> dq_onStopFn d \<Longrightarrow> checkStartTicking v d = ok d []"
  by (simp add: checkStartTicking_def)

lemma stopped_step:
  assumes "stopped d"
  shows "stopped (st_of (dec_step E C v op d))"
    and "dq_job (st_of (dec_step E C v op d)) \<in> {dq_job d, None}"
    and "dq_job d = None \<Longrightarrow> outs_of (dec_step E C v op d) = []"
proof -
  have fr: "job_frame d (st_of (process_job E C v j d))" for j by (rule process_job_frame)
  have s: "\<not> dq_onStopFn d" "\<not> dq_timer d" using assms by (simp_all add: stopped_def)
  show "stopped (st_of (dec_step E C v op d))" "dq_job (st_of (dec_step E C v op d)) \<in> {dq_job d, None}"
    "dq_job d = None \<Longrightarrow> outs_of (dec_step E C v op d) = []"
    using s fr
    by (cases op; simp add: dec_step_def on_stream_event_def stopped_def start_def stop_def setHighPriorityStreams_def
        visibilityChanged_def enqueueNewMessageDownload_def Let_def finish_sels job_frame_def split: option.split)+
qed

lemma stopped_run:
  assumes "stopped d"
  shows "stopped (fst (dec_run E C ops d)) \<and> dq_job (fst (dec_run E C ops d)) \<in> {dq_job d, None}
    \<and> (dq_job d = None \<longrightarrow> snd (dec_run E C ops d) = [])"
  using assms
proof (induction ops arbitrary: d)
  case (Cons vo ops)
  obtain v op where vo: "vo = (v, op)" by (cases vo)
  note step = stopped_step[OF Cons.prems, of E C v op]
  from Cons.IH[OF step(1)] step(2,3) show ?case by (auto simp: vo)
qed simp

text \<open>
  C21. The queue never works on two items at once: whenever its timer is set, no tick is in progress. After \<open>stop\<close> no
  tick starts any more, in whatever order the client and its timers go on: the tick in progress, if there is one, may end,
  and once it has ended nothing is done.\<close>

theorem single_tick_none_after_stop:
  assumes "d = fst (dec_run E C ops (newDecryption up))" "(d', os) = dec_run E C ((v, OpStop) # ops') d"
  shows "\<not> (dq_timer d \<and> dq_job d \<noteq> None) \<and> \<not> dq_timer d' \<and> dq_job d' \<in> {dq_job d, None}
    \<and> (dq_job d = None \<longrightarrow> os = [])"
proof -
  have "timer_inv d" unfolding assms(1) by (rule dec_run_timer)
  then have 1: "\<not> (dq_timer d \<and> dq_job d \<noteq> None)" by (simp add: timer_inv_def)
  let ?s = "st_of (dec_step E C v OpStop d)"
  have st: "stopped ?s" "dq_job ?s = dq_job d" "outs_of (dec_step E C v OpStop d) = []"
    by (simp_all add: stopped_def dec_step_def stop_def)
  have "d' = fst (dec_run E C ops' ?s)" "os = snd (dec_run E C ops' ?s)" 
    using arg_cong[OF assms(2), of fst] arg_cong[OF assms(2), of snd] st(3) by simp_all
  with stopped_run[OF st(1), of E C ops'] st(2) 1 show ?thesis by (simp add: stopped_def)
qed

subsection \<open>The queues drain\<close>

definition weight :: "StreamTasks \<Rightarrow> nat" where
  "weight q = 2 * length (encryptedContent q) + length (keySolicitations q) + (if isMissingKeys q then 1 else 0)"

definition main_load :: "Decryption \<Rightarrow> nat" where
  "main_load d = length (priorityTasks d) + length (newGroupSession d)"

definition stream_load :: "Decryption \<Rightarrow> nat" where
  "stream_load d = total weight (streamQueues d)"

definition load_order :: "(Decryption \<times> Decryption) set" where
  "load_order = inv_image (less_than <*lex*> less_than)
     (\<lambda>d. (main_load d, stream_load d + length (ownKeySolicitations d)))"

lemma wf_load_order: "wf load_order"
  by (auto simp: load_order_def)

lemma weight_0_iff: "weight q = 0 \<longleftrightarrow> tasks_isEmpty q"
  by (auto simp: weight_def tasks_isEmpty_def)

lemma stream_load_0_iff: "stream_load d = 0 \<longleftrightarrow> queues_isEmpty d"
  by (simp add: stream_load_def total_eq_0_iff weight_0_iff queues_isEmpty_def list_all_iff)

lemma stream_load_on_queue:
  "stream_load (on_queue s f d) + weight (getQueue s d) = stream_load d + weight (f (getQueue s d))"
proof -
  have "weight emptyTasks = 0" by (simp add: weight_def emptyTasks_def)
  from total_set_or[where f = weight, OF this] show ?thesis
    by (simp add: stream_load_def on_queue_def getQueue_def)
qed

definition work_weight :: "work option \<Rightarrow> nat" where
  "work_weight w = (case w of Some (WorkContent i) \<Rightarrow> 2 | Some (WorkMissingKeys s) \<Rightarrow> 1 | Some (WorkSolicitation k) \<Rightarrow> 1 | _ \<Rightarrow> 0)"

lemma dequeueUpToDate_length:
  "dequeueUpToDate now up items = Some (k, rest) \<Longrightarrow> length items = Suc (length rest) \<and> k \<in> set items \<and> set rest \<subseteq> set items"
  by (auto simp: dequeueUpToDate_def length_remove_at split: list.splits if_splits option.splits
      dest!: find_index_SomeD dest: set_remove_at_subset[THEN subsetD])

lemma weight_ordered [simp]: "weight (ordered q) = weight q"
  by (simp add: weight_def)

lemma tick_streams_load:
  "stream_load (fst (tick_streams now ss d)) + work_weight (snd (tick_streams now ss d)) = stream_load d"
proof (induction ss d rule: tick_streams_induct[where now = now])
  case (content s ss d i rest)
  then show ?case
    using stream_load_on_queue[of s "\<lambda>_. (getQueue s d)\<lparr>encryptedContent := rest\<rparr>" d]
    by (simp add: tick_streams_content work_weight_def weight_def)
next
  case (missing s ss d)
  then show ?case
    using stream_load_on_queue[of s "\<lambda>_. (getQueue s d)\<lparr>isMissingKeys := False\<rparr>" d]
    by (simp add: tick_streams_missing work_weight_def weight_def)
next
  case (solicitation s ss d k rest)
  then show ?case
    using stream_load_on_queue[of s "\<lambda>_. (ordered (getQueue s d))\<lparr>keySolicitations := rest\<rparr>" d]
      dequeueUpToDate_length[OF solicitation(4)]
    by (simp add: tick_streams_solicitation work_weight_def weight_def)
next
  case (idle s ss d)
  then show ?case
    using stream_load_on_queue[of s "\<lambda>_. ordered (getQueue s d)" d] by (simp add: tick_streams_next)
qed (simp_all add: tick_streams_eqs work_weight_def)

text \<open>When a stream can be worked on: it and the streams of its items are up to date, and its solicitations are due.\<close>

definition ready_queue :: "string set \<Rightarrow> rat \<Rightarrow> StreamTasks \<Rightarrow> bool" where
  "ready_queue U T q \<longleftrightarrow>
     (\<forall>i \<in> set (encryptedContent q). ei_streamId i \<in> U) \<and>
     (\<forall>k \<in> set (keySolicitations q). ki_streamId k \<in> U \<and> ki_respondAfter k \<le> T)"

definition ready_failures :: "string set \<Rightarrow> Decryption \<Rightarrow> bool" where
  "ready_failures U d \<longleftrightarrow>
     (\<forall>sm \<in> set (decryptionFailures d). fst sm \<in> U \<and> (\<forall>xi \<in> set (snd sm). \<forall>i \<in> set (snd xi). ei_streamId i \<in> U))"

definition ready_queues :: "string set \<Rightarrow> rat \<Rightarrow> Decryption \<Rightarrow> bool" where
  "ready_queues U T d \<longleftrightarrow>
     distinct (map fst (streamQueues d)) \<and> (\<forall>sq \<in> set (streamQueues d). fst sq \<in> U \<and> ready_queue U T (snd sq))"

lemma set_map_set: "kv \<in> set (map_set k x m) \<Longrightarrow> kv = (k, x) \<or> kv \<in> set m"
  by (induction m) (auto split: if_splits)

lemma ready_getQueue: "ready_queues U T d \<Longrightarrow> ready_queue U T (getQueue s d)"
  by (fastforce simp: ready_queues_def getQueue_def map_get_or_def ready_queue_def emptyTasks_def dest: map_of_SomeD
      split: option.split)

lemma ready_on_queue:
  "ready_queues U T d \<Longrightarrow> s \<in> U \<Longrightarrow> ready_queue U T (f (getQueue s d)) \<Longrightarrow> ready_queues U T (on_queue s f d)"
  by (auto simp: ready_queues_def on_queue_def dest!: set_map_set)

lemma ready_ordered [simp]: "ready_queue U T (ordered q) = ready_queue U T q"
  by (simp add: ready_queue_def)

definition work_ready :: "string set \<Rightarrow> work option \<Rightarrow> bool" where
  "work_ready U w \<longleftrightarrow>
     (case w of Some (WorkContent i) \<Rightarrow> ei_streamId i \<in> U | Some (WorkSession g) \<Rightarrow> ng_streamId g \<in> U | _ \<Rightarrow> True)"

lemma tick_streams_ready:
  assumes "ready_queues U T d" "set ss \<subseteq> U"
  shows "ready_queues U T (fst (tick_streams now ss d)) \<and> work_ready U (snd (tick_streams now ss d))"
  using assms
proof (induction ss d rule: tick_streams_induct[where now = now])
  case (content s ss d i rest)
  then show ?case using ready_getQueue[of U T d s]
    by (auto simp: tick_streams_content work_ready_def ready_queue_def intro!: ready_on_queue)
next
  case (missing s ss d)
  then show ?case using ready_getQueue[of U T d s]
    by (auto simp: tick_streams_missing work_ready_def ready_queue_def intro!: ready_on_queue)
next
  case (solicitation s ss d k rest)
  have "set rest \<subseteq> set (keySolicitations (getQueue s d))"
    using dequeueUpToDate_length[OF solicitation(4)] by simp
  then have "ready_queue U T ((ordered (getQueue s d))\<lparr>keySolicitations := rest\<rparr>)"
    using ready_getQueue[of U T d s] solicitation by (simp add: ready_queue_def subset_iff)
  then show ?case using solicitation by (simp add: tick_streams_solicitation work_ready_def ready_on_queue)
next
  case (idle s ss d)
  then show ?case using ready_getQueue[of U T d s]
    by (simp add: tick_streams_next ready_on_queue)
qed (auto simp: tick_streams_eqs work_ready_def)

lemma dequeueUpToDate_due:
  assumes "dequeueUpToDate now up items = None" "\<forall>k \<in> set items. ki_streamId k \<in> set up \<and> ki_respondAfter k \<le> now"
  shows "items = []"
proof (cases items)
  case (Cons k ks)
  with assms show ?thesis by (auto simp: dequeueUpToDate_def split: option.splits)
qed simp

text \<open>If every queued stream can be worked on, a tick without work has found the queues empty.\<close>

lemma tick_streams_none:
  assumes "snd (tick_streams now ss d) = None" "ready_queues (set (upToDateStreams d)) T d" "T \<le> now"
    "set ss \<subseteq> set (upToDateStreams d)" "s \<in> set ss"
  shows "tasks_isEmpty (getQueue s d)"
  using assms
proof (induction ss d rule: tick_streams_induct[where now = now])
  case (idle s' ss d)
  let ?q = "getQueue s' d" and ?d = "on_queue s' (\<lambda>_. ordered (getQueue s' d)) d"
  have r: "ready_queue (set (upToDateStreams d)) T ?q" by (rule ready_getQueue[OF idle.prems(2)])
  have "keySolicitations (ordered ?q) = []"
    by (rule dequeueUpToDate_due[OF idle(4)]) (use r idle.prems(3) in \<open>fastforce simp: ready_queue_def\<close>)
  then have "keySolicitations ?q = []" by (metis ordered_sels(3) set_empty)
  then have e: "tasks_isEmpty ?q" using idle(2,3) by (simp add: tasks_isEmpty_def)
  show ?case
  proof (cases "s = s'")
    case False
    have "ready_queues (set (upToDateStreams ?d)) T ?d" using idle.prems(2) r idle(1) by (simp add: ready_on_queue)
    then have "tasks_isEmpty (getQueue s ?d)"
      using idle.IH idle.prems False idle(1-4) by (simp add: tick_streams_next)
    then show ?thesis using False by (simp add: getQueue_def on_queue_def)
  qed (simp add: e)
qed (auto simp: tick_streams_eqs)

lemma set_stream_order [simp]: "set (stream_order E d) = fst ` set (streamQueues d)"
  by (simp add: stream_order_def)

lemma tick_streams_finds_work:
  assumes "ready_queues (set (upToDateStreams d)) T d" "T \<le> now" "stream_load d \<noteq> 0"
  shows "snd (tick_streams now (stream_order E d) d) \<noteq> None"
proof
  assume n: "snd (tick_streams now (stream_order E d) d) = None"
  have "tasks_isEmpty q" if "(s, q) \<in> set (streamQueues d)" for s q
  proof -
    have "tasks_isEmpty (getQueue s d)"
      by (rule tick_streams_none[OF n assms(1,2)]) (use assms(1) that in \<open>force simp: ready_queues_def\<close>)+
    moreover have "map_get (streamQueues d) s = Some q" using assms(1) that by (simp add: ready_queues_def)
    ultimately show ?thesis by (simp add: getQueue_def map_get_or_def)
  qed
  then have "queues_isEmpty d" by (auto simp: queues_isEmpty_def list_all_iff)
  with assms(3) show False by (simp add: stream_load_0_iff)
qed

text \<open>One tick takes off the load what its work weighs.\<close>

definition nothing_queued :: "Decryption \<Rightarrow> bool" where
  "nothing_queued d \<longleftrightarrow> mainQueues_isEmpty d \<and> queues_isEmpty d"

definition ready :: "string set \<Rightarrow> rat \<Rightarrow> Decryption \<Rightarrow> bool" where
  "ready U T d \<longleftrightarrow> ready_queues U T d \<and> ready_failures U d \<and> (\<forall>g \<in> set (newGroupSession d). ng_streamId g \<in> U)"

lemma dequeue_ready:
  assumes "ready U T d" "dequeue E now d = (d1, w)"
  shows "ready U T d1 \<and> work_ready U w"
proof -
  have s: "ready_queues U T (fst (tick_streams now (stream_order E d) d))
      \<and> work_ready U (snd (tick_streams now (stream_order E d) d))"
    by (rule tick_streams_ready) (use assms(1) in \<open>auto simp: ready_def ready_queues_def\<close>)
  have o: "decryptionFailures d1 = decryptionFailures d"
    using dequeue_only_queues[of d E now] by (simp add: assms(2) only_queues_def)
  have ts: "newGroupSession (fst (tick_streams now ss d')) = newGroupSession d'" for ss d'
    by (induction ss d' rule: tick_streams_induct[where now = now]) (simp_all add: tick_streams_eqs)
  show ?thesis
    using assms s o ts[of "stream_order E d" d]
    by (auto simp: dequeue_def ready_def ready_queues_def ready_failures_def work_ready_def split: list.splits)
qed

definition rest_load :: "Decryption \<Rightarrow> nat" where
  "rest_load d = stream_load d + length (ownKeySolicitations d)"

lemma load_order_iff:
  "(d', d) \<in> load_order \<longleftrightarrow> main_load d' < main_load d \<or> main_load d' = main_load d \<and> rest_load d' < rest_load d"
  by (auto simp: load_order_def rest_load_def)

text \<open>What a tick takes off the load: a task or a session, or one or two units of the rest.\<close>

definition lighter :: "work option \<Rightarrow> Decryption \<Rightarrow> Decryption \<Rightarrow> bool" where
  "lighter w d d1 \<longleftrightarrow>
     (case w of
        None \<Rightarrow> False
      | Some (WorkTask t) \<Rightarrow> main_load d1 < main_load d
      | Some (WorkSession g) \<Rightarrow> main_load d1 < main_load d
      | Some (WorkContent i) \<Rightarrow> main_load d1 = main_load d \<and> rest_load d1 + 2 = rest_load d
      | _ \<Rightarrow> main_load d1 = main_load d \<and> rest_load d1 + 1 = rest_load d)"

lemma tick_streams_main:
  "main_load (fst (tick_streams now ss d)) = main_load d"
  "ownKeySolicitations (fst (tick_streams now ss d)) = ownKeySolicitations d"
  by (induction ss d rule: tick_streams_induct[where now = now]) (simp_all add: tick_streams_eqs main_load_def)

lemma tick_streams_not_main: "snd (tick_streams now ss d) \<noteq> Some (WorkTask t)" "snd (tick_streams now ss d) \<noteq> Some (WorkSession g)"
  by (induction ss d rule: tick_streams_induct[where now = now]) (simp_all add: tick_streams_eqs)

lemma dequeue_lighter:
  assumes r: "ready (set (upToDateStreams d)) T d" "T \<le> now" and n: "\<not> nothing_queued d" and dq: "dequeue E now d = (d1, w)"
  shows "lighter w d d1"
proof (cases "mainQueues_isEmpty d")
  case False
  then show ?thesis
    using dq by (auto simp: dequeue_def mainQueues_isEmpty_def lighter_def main_load_def rest_load_def stream_load_def
        split: list.splits)
next
  case True
  then have m: "priorityTasks d = []" "newGroupSession d = []" "ownKeySolicitations d = []"
    by (simp_all add: mainQueues_isEmpty_def)
  let ?t = "tick_streams now (stream_order E d) d"
  have t: "?t = (d1, w)" using dq m by (simp add: dequeue_def)
  have "stream_load d \<noteq> 0" using n True by (simp add: nothing_queued_def stream_load_0_iff)
  then have w: "w \<noteq> None"
    using tick_streams_finds_work[of d T now E] r t by (simp add: ready_def)
  have nm: "w \<noteq> Some (WorkTask x)" "w \<noteq> Some (WorkSession g)" for x g
    using tick_streams_not_main[of now "stream_order E d" d] t by simp_all
  have l: "stream_load d1 + work_weight w = stream_load d" "main_load d1 = main_load d"
      "ownKeySolicitations d1 = ownKeySolicitations d"
    using tick_streams_load[of now "stream_order E d" d] tick_streams_main[of now "stream_order E d" d] t by simp_all
  show ?thesis
    using w nm l by (auto simp: lighter_def work_weight_def rest_load_def split: option.splits work.splits)
qed

text \<open>The end of a tick puts at most one unit back, and keeps the streams ready.\<close>

definition job_ready :: "string set \<Rightarrow> job \<Rightarrow> bool" where
  "job_ready U j \<longleftrightarrow> (case j of JobContent i \<Rightarrow> ei_streamId i \<in> U | JobSession g \<Rightarrow> ng_streamId g \<in> U | _ \<Rightarrow> True)"

lemma ready_failures_get:
  assumes "ready_failures U d" "xi \<in> set (map_get_or (decryptionFailures d) s [])" "j \<in> set (snd xi)"
  shows "ei_streamId j \<in> U"
proof (cases "map_get (decryptionFailures d) s")
  case (Some m)
  then have "(s, m) \<in> set (decryptionFailures d)" by (rule map_of_SomeD)
  with assms Some show ?thesis by (force simp: ready_failures_def map_get_or_def)
qed (use assms(2) in \<open>simp add: map_get_or_def\<close>)

lemma ready_failures_set:
  assumes "ready_failures U d" "s \<in> U" "\<And>xi j. xi \<in> set m \<Longrightarrow> j \<in> set (snd xi) \<Longrightarrow> ei_streamId j \<in> U"
  shows "ready_failures U (d\<lparr>decryptionFailures := map_set s m (decryptionFailures d)\<rparr>)"
  using assms by (auto simp: ready_failures_def dest!: set_map_set)

lemma add_failure_ready:
  assumes "ready_failures U d" "ei_streamId i \<in> U"
  shows "ready_failures U (add_failure x i d)"
proof -
  let ?ss = "map_get_or (decryptionFailures d) (ei_streamId i) []" and
    ?is = "map_get_or (map_get_or (decryptionFailures d) (ei_streamId i) []) x []"
  have "ei_streamId j \<in> U" if "j \<in> set ?is" for j
  proof (cases "map_get ?ss x")
    case (Some js)
    then show ?thesis
      using ready_failures_get[OF assms(1), of "(x, js)" "ei_streamId i" j] that
      by (simp add: map_get_or_def[of ?ss] map_of_SomeD[OF Some])
  qed (use that in \<open>simp add: map_get_or_def[of ?ss]\<close>)
  then show ?thesis
    unfolding add_failure_def Let_def
    by (intro ready_failures_set[OF assms]) (auto dest!: set_map_set intro: ready_failures_get[OF assms(1)] assms(2) split: if_splits)
qed

lemma requeue_session_ready:
  assumes "ready_queues U T d" "ready_failures U d" "s \<in> U"
  shows "ready_queues U T (requeue_session s x d) \<and> ready_failures U (requeue_session s x d)"
proof (cases "map_get (map_get_or (decryptionFailures d) s []) x")
  case None
  then show ?thesis using assms by (simp add: requeue_session_def)
next
  case (Some items)
  have f: "ei_streamId j \<in> U" if "j \<in> set (snd xi)" "xi \<in> set (map_get_or (decryptionFailures d) s [])" for j xi
    by (rule ready_failures_get[OF assms(2) that(2,1)])
  let ?d1 = "on_queue s (\<lambda>q. q\<lparr>encryptedContent := encryptedContent q @ items\<rparr>) d"
  have items: "\<forall>i \<in> set items. ei_streamId i \<in> U" using f[OF _ map_of_SomeD[OF Some]] by simp
  have q: "ready_queues U T ?d1"
    by (rule ready_on_queue[OF assms(1,3)]) (use ready_getQueue[OF assms(1), of s] items in \<open>auto simp: ready_queue_def\<close>)
  have del: "xi \<in> set (map_delete x m) \<Longrightarrow> xi \<in> set m" for xi and m :: "(string, EncryptedContentItem list) jsmap"
    by (induction m) (auto split: if_splits)
  have fl: "ready_failures U (d\<lparr>decryptionFailures :=
      map_set s (map_delete x (map_get_or (decryptionFailures d) s [])) (decryptionFailures d)\<rparr>)"
    by (rule ready_failures_set[OF assms(2,3)]) (rule f[OF _ del])
  show ?thesis
    using Some q fl by (simp add: requeue_session_def ready_queues_def ready_failures_def)
qed

lemma fold_requeue_ready:
  assumes "ready_queues U T d \<and> ready_failures U d" "s \<in> U"
  shows "ready_queues U T (fold (\<lambda>g. requeue_session s (ge_sessionId g)) gs d)
    \<and> ready_failures U (fold (\<lambda>g. requeue_session s (ge_sessionId g)) gs d)"
  using assms by (induction gs arbitrary: d) (auto simp: requeue_session_ready)

lemma importSessions_ready:
  assumes "ready_queues U T d" "ready_failures U d" "s \<in> U"
  shows "ready_queues U T (st_of (importSessions v s gs d)) \<and> ready_failures U (st_of (importSessions v s gs d))"
proof -
  have "ready_queues U T (on_queue s id d)" by (rule ready_on_queue) (simp_all add: assms ready_getQueue)
  moreover have "ready_failures U (on_queue s id d)" using assms(2) by (simp add: ready_failures_def)
  ultimately show ?thesis
    using assms fold_requeue_ready[of U T "on_queue s id d" s gs] by (simp add: importSessions_def split: sum.split)
qed

lemma processNewGroupSession_ready:
  assumes "ready_queues U T d" "ready_failures U d" "ng_streamId g \<in> U"
  shows "ready_queues U T (st_of (processNewGroupSession C v g d)) \<and> ready_failures U (st_of (processNewGroupSession C v g d))"
  using importSessions_ready[OF assms] assms
  by (auto simp: processNewGroupSession_def Let_def st_of_and_then ack_if_last_frame split: option.split sum.split list.split)

lemma processEncryptedContentItem_ready:
  assumes "ready_queues U T d" "ready_failures U d" "ei_streamId i \<in> U"
  shows "ready_queues U T (st_of (processEncryptedContentItem E v i d))
    \<and> ready_failures U (st_of (processEncryptedContentItem E v i d))"
proof -
  let ?x = "failed_session_id E i" and ?f = "\<lambda>q :: StreamTasks. q\<lparr>isMissingKeys := True\<rparr>"
  have q: "ready_queues U T (add_failure ?x i d)"
    using assms(1) by (simp add: ready_queues_def add_failure_def Let_def)
  have "ready_queues U T (on_queue (ei_streamId i) ?f (add_failure ?x i d))"
    by (rule ready_on_queue[OF q assms(3)]) (use ready_getQueue[OF q] in \<open>simp add: ready_queue_def\<close>)
  then show ?thesis
    using assms add_failure_ready[OF assms(2,3), of ?x]
    by (auto simp: processEncryptedContentItem_def Let_def ready_failures_def split: decrypted.split)
qed

lemma process_job_ready:
  assumes "ready U T d" "job_ready U j"
  shows "ready U T (st_of (process_job E C v j d))"
proof -
  have a: "ready_queues U T d" "ready_failures U d" using assms(1) by (simp_all add: ready_def)
  have "ready_queues U T (st_of (process_job E C v j d)) \<and> ready_failures U (st_of (process_job E C v j d))"
    using assms(2) a
    by (cases j) (simp_all add: process_job_def job_ready_def processNewGroupSession_ready processEncryptedContentItem_ready
        processKeySolicitation_state processMissingKeys_state finish_task_state)
  then show ?thesis
    using assms(1) process_job_frame[of d E C v j] by (simp add: ready_def job_frame_def)
qed

lemma processEncryptedContentItem_load:
  "stream_load (st_of (processEncryptedContentItem E v i d)) \<le> stream_load d + 1"
proof -
  let ?x = "failed_session_id E i" and ?f = "\<lambda>q :: StreamTasks. q\<lparr>isMissingKeys := True\<rparr>"
  have "stream_load (on_queue (ei_streamId i) ?f (add_failure ?x i d)) \<le> stream_load (add_failure ?x i d) + 1"
    using stream_load_on_queue[of "ei_streamId i" ?f "add_failure ?x i d"] by (simp add: weight_def split: if_splits)
  also have "stream_load (add_failure ?x i d) = stream_load d" by (simp add: stream_load_def add_failure_def Let_def)
  finally show ?thesis by (simp add: processEncryptedContentItem_def Let_def split: decrypted.split)
qed

lemma process_job_load:
  "main_load (st_of (process_job E C v j d)) = main_load d"
  "\<forall>g. j \<noteq> JobSession g \<Longrightarrow>
   rest_load (st_of (process_job E C v j d)) \<le> rest_load d + (if \<exists>i. j = JobContent i then 1 else 0)"
proof -
  have fr: "job_frame d (st_of (process_job E C v j d))" by (rule process_job_frame)
  then show "main_load (st_of (process_job E C v j d)) = main_load d" by (simp add: job_frame_def main_load_def)
  show "rest_load (st_of (process_job E C v j d)) \<le> rest_load d + (if \<exists>i. j = JobContent i then 1 else 0)"
    if "\<forall>g. j \<noteq> JobSession g"
    using that fr processEncryptedContentItem_load[of E v _ d]
    by (cases j) (simp_all add: process_job_def rest_load_def job_frame_def
        processKeySolicitation_state processMissingKeys_state finish_task_state)
qed

lemma begin_work_job:
  assumes "begin_work E C v w d = (d', j)"
  shows "j = JobSession g \<longleftrightarrow> w = Some (WorkSession g)" "j = JobContent i \<longleftrightarrow> w = Some (WorkContent i)"
  using assms by (auto simp: begin_work_def begin_missing_job split: option.splits work.splits if_splits prod.splits)

text \<open>A tick from its timer to its end.\<close>

definition tick_done :: "'a sign_externs_scheme \<Rightarrow> dec_config \<Rightarrow> dec_env \<Rightarrow> dec_env \<Rightarrow> Decryption \<Rightarrow> Decryption" where
  "tick_done E C v v' d = fst (dec_run E C [(v, OpTimer), (v', OpFinish)] d)"

lemma tick_done_load:
  fixes E :: "'a sign_externs_scheme" and C v v' d
  assumes t: "dq_timer d" and r: "ready (set (upToDateStreams d)) T d" and now: "T \<le> of_int (e_now v)"
  defines "d' \<equiv> tick_done E C v v' d"
  shows "ready (set (upToDateStreams d)) T d'" "\<not> nothing_queued d \<Longrightarrow> (d', d) \<in> load_order"
    "nothing_queued d \<Longrightarrow> nothing_queued d'"
    "dq_job d' = None" "\<not> dq_timer d'" "\<not> dq_timeoutId d'" "dq_recheck d'" "dq_started d' = dq_started d"
    "dq_onStopFn d' = dq_onStopFn d" "upToDateStreams d' = upToDateStreams d"
    "isMobileSafariBackgrounded d' = isMobileSafariBackgrounded d"
proof -
  let ?U = "set (upToDateStreams d)"
  obtain d1 w where dq: "dequeue E (of_int (e_now v)) d = (d1, w)" by (cases "dequeue E (of_int (e_now v)) d")
  from tick_frame[OF dq, of C] obtain j d2 where f: "st_of (tick E C v d) = d2" "dq_job d2 = Some j" "\<not> dq_timer d2"
    "streamQueues d2 = streamQueues d1" "decryptionFailures d2 = decryptionFailures d"
    "newGroupSession d2 = newGroupSession d1" "priorityTasks d2 = priorityTasks d1"
    "ownKeySolicitations d2 = ownKeySolicitations d1" "upToDateStreams d2 = upToDateStreams d"
    "dq_started d2 = dq_started d" "dq_onStopFn d2 = dq_onStopFn d"
    "isMobileSafariBackgrounded d2 = isMobileSafariBackgrounded d"
    and j: "j = snd (begin_work E C v w (st_of (setStatus (work_status w) d1)))" by metis
  let ?d3 = "st_of (process_job E C v' j d2)"
  have d': "d' = ?d3\<lparr>dq_job := None, dq_timeoutId := False, dq_recheck := True\<rparr>"
    unfolding d'_def tick_done_def using t f(1,2) by (simp add: dec_step_def finish_sels)
  note jw = begin_work_job[OF prod.collapse[symmetric], where w = w and d = "st_of (setStatus (work_status w) d1)"
      and E = E and C = C and v = v, folded j]
  have fr: "job_frame d2 ?d3" by (rule process_job_frame)
  have r1: "ready ?U T d1 \<and> work_ready ?U w" by (rule dequeue_ready[OF r dq])
  have r2: "ready ?U T d2"
    using r1 r f by (simp add: ready_def ready_queues_def ready_failures_def)
  have "job_ready ?U j" using r1 jw by (auto simp: job_ready_def work_ready_def split: job.split)
  from process_job_ready[OF r2 this, of E C v'] show "ready ?U T d'"
    by (simp add: d' ready_def ready_queues_def ready_failures_def)
  show "dq_job d' = None" "\<not> dq_timer d'" "\<not> dq_timeoutId d'" "dq_recheck d'" "dq_started d' = dq_started d"
    "dq_onStopFn d' = dq_onStopFn d" "upToDateStreams d' = upToDateStreams d"
    "isMobileSafariBackgrounded d' = isMobileSafariBackgrounded d"
    using fr f by (simp_all add: d' job_frame_def)
  have ld: "main_load d' = main_load ?d3" "rest_load d' = rest_load ?d3" "main_load d2 = main_load d1" "rest_load d2 = rest_load d1"
    using f by (simp_all add: d' main_load_def rest_load_def stream_load_def)
  note pl = process_job_load[where E = E and C = C and v = v' and j = j and d = d2]
  show "(d', d) \<in> load_order" if "\<not> nothing_queued d"
  proof -
    have "lighter w d d1" by (rule dequeue_lighter[OF r now that dq])
    then show ?thesis
      using pl jw by (auto simp: load_order_iff ld lighter_def split: option.splits work.splits if_splits)
  qed
  show "nothing_queued d'" if n: "nothing_queued d"
  proof -
    have "priorityTasks d = []" "newGroupSession d = []" "ownKeySolicitations d = []" "stream_load d = 0"
      using n by (simp_all add: nothing_queued_def mainQueues_isEmpty_def stream_load_0_iff)
    moreover from this have "tick_streams (of_int (e_now v)) (stream_order E d) d = (d1, w)" using dq by (simp add: dequeue_def)
    ultimately have "rest_load d1 = 0" "main_load d1 = 0" "\<forall>i. w \<noteq> Some (WorkContent i)" "\<forall>g. w \<noteq> Some (WorkSession g)"
      using tick_streams_load[of "of_int (e_now v)" "stream_order E d" d] tick_streams_main[of "of_int (e_now v)" "stream_order E d" d]
        tick_streams_not_main[of "of_int (e_now v)" "stream_order E d" d]
      by (auto simp: rest_load_def main_load_def work_weight_def)
    then have "rest_load d' = 0" "main_load d' = 0" using pl jw ld by auto
    then show ?thesis by (simp add: nothing_queued_def mainQueues_isEmpty_def rest_load_def main_load_def stream_load_0_iff)
  qed
qed

text \<open>The event loop with nothing but the ticks of the queue: the timer, the end of the tick, and the check it schedules.\<close>

fun turns :: "(nat \<Rightarrow> dec_env) \<Rightarrow> nat \<Rightarrow> (dec_env \<times> dec_op) list" where
  "turns envs 0 = []"
| "turns envs (Suc n) =
     (envs 0, OpTimer) # (envs 1, OpFinish) # (envs 2, OpRecheck) # turns (\<lambda>k. envs (k + 3)) n"

definition drained :: "Decryption \<Rightarrow> bool" where
  "drained d \<longleftrightarrow> nothing_queued d \<and> dq_status d = StDone \<and> dq_job d = None \<and> \<not> dq_timer d"

definition serves :: "(nat \<Rightarrow> dec_env) \<Rightarrow> rat \<Rightarrow> string set \<Rightarrow> bool" where
  "serves envs T U \<longleftrightarrow> (\<forall>k. T \<le> of_int (e_now (envs k)) \<and> (\<exists>s. e_userInboxStreamId (envs k) = Some s \<and> s \<in> U))"

definition scheduled :: "rat \<Rightarrow> Decryption \<Rightarrow> bool" where
  "scheduled T d \<longleftrightarrow> dq_timer d \<and> dq_started d \<and> dq_onStopFn d \<and> \<not> isMobileSafariBackgrounded d
     \<and> ready (set (upToDateStreams d)) T d \<and> dq_job d = None"

lemma turn_progress:
  fixes E :: "'a sign_externs_scheme" and C envs d
  assumes "scheduled T d" "serves envs T (set (upToDateStreams d))"
  defines "d' \<equiv> fst (dec_run E C (turns envs 1) d)"
  shows "drained d' \<or> scheduled T d' \<and> (d', d) \<in> load_order \<and> upToDateStreams d' = upToDateStreams d"
proof -
  let ?t = "tick_done E C (envs 0) (envs 1) d"
  have p: "dq_timer d" "ready (set (upToDateStreams d)) T d" "T \<le> of_int (e_now (envs 0))"
    using assms by (simp_all add: scheduled_def serves_def)
  note t = tick_done_load[OF p, where E = E and C = C and v' = "envs 1"]
  have d': "d' = st_of (checkStartTicking (envs 2) (?t\<lparr>dq_recheck := False\<rparr>))"
    unfolding d'_def using t(7) by (simp add: numeral_eq_Suc tick_done_def) (simp add: dec_step_def)
  have up: "isUserInboxStreamUpToDate (envs 2) (?t\<lparr>dq_recheck := False\<rparr>)"
    using spec[OF assms(2)[unfolded serves_def], of 2] t(10) by (auto simp: isUserInboxStreamUpToDate_def)
  have g: "dq_started ?t" "dq_onStopFn ?t" "\<not> isMobileSafariBackgrounded ?t" using t assms(1) by (simp_all add: scheduled_def)
  show ?thesis
  proof (cases "nothing_queued ?t")
    case True
    then have "d' = st_of (setStatus StDone (?t\<lparr>dq_recheck := False\<rparr>))"
      using t(6) up g by (simp add: d' checkStartTicking_def nothing_queued_def mainQueues_isEmpty_def queues_isEmpty_def)
    then show ?thesis
      using True t(4,5) by (simp add: drained_def nothing_queued_def mainQueues_isEmpty_def queues_isEmpty_def)
  next
    case False
    then have "\<not> nothing_queued d" using t(3) by blast
    then have l: "(?t, d) \<in> load_order" by (rule t(2))
    have "d' = ?t\<lparr>dq_recheck := False, dq_timeoutId := True, dq_timer := True\<rparr>"
      using False t(6) up g by (auto simp: d' checkStartTicking_def nothing_queued_def mainQueues_isEmpty_def queues_isEmpty_def)
    then show ?thesis
      using t(1,4,10) g l
      by (simp add: scheduled_def load_order_iff main_load_def rest_load_def stream_load_def ready_def ready_queues_def
          ready_failures_def)
  qed
qed

lemma scheduled_drains:
  assumes "scheduled T d" "serves envs T (set (upToDateStreams d))"
  shows "\<exists>n. drained (fst (dec_run E C (turns envs n) d))"
  using assms
proof (induction d arbitrary: envs rule: wf_induct_rule[OF wf_load_order])
  case (1 d)
  let ?d' = "fst (dec_run E C (turns envs 1) d)"
  from turn_progress[OF 1(2,3), of E C] show ?case
  proof
    assume "drained ?d'"
    then show ?thesis by blast
  next
    assume s: "scheduled T ?d' \<and> (?d', d) \<in> load_order \<and> upToDateStreams ?d' = upToDateStreams d"
    have "serves (\<lambda>k. envs (k + 3)) T (set (upToDateStreams ?d'))" using 1(3) s by (simp add: serves_def)
    with 1(1) s obtain n where "drained (fst (dec_run E C (turns (\<lambda>k. envs (k + 3)) n) ?d'))" by blast
    then have "drained (fst (dec_run E C (turns envs (Suc n)) d))" by (simp add: numeral_eq_Suc)
    then show ?thesis by blast
  qed
qed


subsection \<open>Keys are shared with those who may have them\<close>

lemma concat_chunks: "0 < n \<Longrightarrow> concat (chunks n xs) = xs"
  by (induction n xs rule: chunks.induct) auto

lemma chunks_bound: "0 < n \<Longrightarrow> c \<in> set (chunks n xs) \<Longrightarrow> c \<noteq> [] \<and> length c \<le> n \<and> set c \<subseteq> set xs"
proof (induction n xs rule: chunks.induct)
  case (2 n x xs)
  from \<open>c \<in> set (chunks n (x # xs))\<close> consider "c = x # take (n - 1) xs" | "c \<in> set (chunks n (drop (n - 1) xs))" by auto
  then show ?case
  proof cases
    case 1
    then show ?thesis using 2(2) set_take_subset[of "n - 1" xs] by auto
  next
    case c: 2
    then show ?thesis using 2(1)[OF 2(2) c] set_drop_subset[of "n - 1" xs] by auto
  qed
qed simp

definition grouped :: "(string, GroupEncryptionSession list) jsmap \<Rightarrow> GroupEncryptionSession list \<Rightarrow> bool" where
  "grouped m gs \<longleftrightarrow>
     total mset m = mset gs \<and> (\<forall>kv \<in> set m. \<forall>g \<in> set (snd kv). ge_algorithm g = fst kv)"

lemma grouped_step:
  assumes "grouped m gs"
  shows "grouped (map_set (ge_algorithm g) (map_get_or m (ge_algorithm g) [] @ [g]) m) (gs @ [g])"
proof -
  have "total mset (map_set (ge_algorithm g) (map_get_or m (ge_algorithm g) [] @ [g]) m) = total mset m + {#g#}"
    using total_set_or[where f = mset and z = "[]" and k = "ge_algorithm g" and x = "map_get_or m (ge_algorithm g) [] @ [g]"
        and m = m] by simp
  moreover have "\<forall>h \<in> set (map_get_or m a []). ge_algorithm h = a" for a
  proof (cases "map_get m a")
    case (Some hs)
    then show ?thesis using assms map_of_SomeD[OF Some] by (force simp: grouped_def map_get_or_def)
  qed (simp add: map_get_or_def)
  ultimately show ?thesis
    using assms by (auto simp: grouped_def dest!: set_map_set)
qed

lemma grouped_by_algorithm: "grouped (group_by_algorithm gs) gs"
proof -
  let ?f = "\<lambda>s acc. map_set (ge_algorithm s) (map_get_or acc (ge_algorithm s) [] @ [s]) acc"
  have step: "grouped m hs \<Longrightarrow> grouped (fold ?f gs m) (hs @ gs)" for m hs
  proof (induction gs arbitrary: m hs)
    case (Cons g gs)
    from Cons.IH[OF grouped_step[OF Cons.prems]] show ?case by simp
  qed simp
  have "grouped [] []" by (simp add: grouped_def)
  from step[OF this] show ?thesis by (simp add: group_by_algorithm_def)
qed

lemma grouped_member: "grouped m gs \<Longrightarrow> kv \<in> set m \<Longrightarrow> g \<in> set (snd kv) \<Longrightarrow> g \<in> set gs \<and> ge_algorithm g = fst kv"
proof -
  assume g: "grouped m gs" "kv \<in> set m" "g \<in> set (snd kv)"
  have "g \<in># total mset m" using g(2,3) by (induction m) (auto simp: total_def)
  then show ?thesis using g by (simp add: grouped_def)
qed

lemma export_sessions_mem:
  assumes "export_sessions v s ids = Inr gs" "g \<in> set gs"
  shows "\<exists>x \<in> set ids. e_exportGroupSession v s x = Inr (Some g)"
proof -
  have "\<forall>g \<in> set gs. \<exists>x \<in> set ids. e_exportGroupSession v s x = Inr (Some g)"
    using assms(1)[unfolded export_sessions_def]
    by (rule foldE_inv[where I = "\<lambda>gs. \<forall>g \<in> set gs. \<exists>x \<in> set ids. e_exportGroupSession v s x = Inr (Some g)"])
      (auto simp: bindE_Inr_iff split: option.splits)
  with assms(2) show ?thesis by blast
qed

text \<open>When a user may have the keys of a stream, as the environment answers.\<close>

definition may_have_keys :: "dec_env \<Rightarrow> string \<Rightarrow> string \<Rightarrow> bool" where
  "may_have_keys v streamId userId \<longleftrightarrow>
     (\<exists>view. e_view v streamId = Some view \<and> userIsEntitledToKeyExchange view userId \<and>
        (\<forall>c. sv_content view = CChannel c \<longrightarrow> e_isEntitled v (cc_spaceId c) streamId userId ''Read'' = Inr True))"

lemma isUserEntitledToKeyExchange_iff: "isUserEntitledToKeyExchange v s u False = Inr True \<longleftrightarrow> may_have_keys v s u"
  by (auto simp: isUserEntitledToKeyExchange_def may_have_keys_def split: option.split content.split)

lemma reply_sessions_mem:
  assumes "reply_sessions v item = Inr gs" "g \<in> set gs"
  shows "may_have_keys v (ki_streamId item) (ki_fromUserId item)"
    "\<exists>known x. e_getGroupSessionIds v (ki_streamId item) = Inr known \<and> x \<in> set known
       \<and> (ks_isNewDevice (ki_solicitation item) \<or> x \<in> set (ks_sessionIds (ki_solicitation item)))
       \<and> e_exportGroupSession v (ki_streamId item) x = Inr (Some g)"
proof -
  from assms obtain known where k: "e_getGroupSessionIds v (ki_streamId item) = Inr known"
    "isUserEntitledToKeyExchange v (ki_streamId item) (ki_fromUserId item) False = Inr True"
    "export_sessions v (ki_streamId item) (reply_session_ids (ki_solicitation item) known) = Inr gs"
    by (auto simp: reply_sessions_def bindE_Inr_iff Let_def split: if_splits)
  then show "may_have_keys v (ki_streamId item) (ki_fromUserId item)" by (simp add: isUserEntitledToKeyExchange_iff)
  from export_sessions_mem[OF k(3) assms(2)] obtain x where
    "x \<in> set (reply_session_ids (ki_solicitation item) known)" "e_exportGroupSession v (ki_streamId item) x = Inr (Some g)" ..
  then show "\<exists>known x. e_getGroupSessionIds v (ki_streamId item) = Inr known \<and> x \<in> set known
       \<and> (ks_isNewDevice (ki_solicitation item) \<or> x \<in> set (ks_sessionIds (ki_solicitation item)))
       \<and> e_exportGroupSession v (ki_streamId item) x = Inr (Some g)"
    using k(1) by (auto simp: reply_session_ids_def split: if_splits)
qed

lemma for_each_outs:
  "ev \<in> set (outs_of (for_each f xs s)) \<Longrightarrow> \<exists>x \<in> set xs. \<exists>s'. ev \<in> set (outs_of (f x s'))"
  by (induction xs arbitrary: s) (auto simp: outs_of_and_then split: if_splits)

lemma share_outs:
  assumes "ev \<in> set (outs_of (encryptAndShareGroupSessions v item kv d))"
  shows "\<exists>c \<in> set (chunks 100 (snd kv)). ev = SessionsShared (ki_streamId item) item c (fst kv)"
  using assms by (auto simp: encryptAndShareGroupSessions_def split: prod.splits sum.splits dest!: for_each_outs)

lemma processKeySolicitation_shares:
  assumes "SessionsShared s item' c a \<in> set (outs_of (processKeySolicitation v item d))"
  obtains gs where "s = ki_streamId item" "item' = item" "reply_sessions v item = Inr gs"
    "e_sendKeyFulfillment v s (ki_fromUserAddress item) (ks_deviceKey (ki_solicitation item))
       (sort (filter (\<lambda>x. x \<in> set (ks_sessionIds (ki_solicitation item))) (map ge_sessionId gs))) = Inr None"
    "c \<noteq> []" "length c \<le> 100" "\<forall>g \<in> set c. g \<in> set gs \<and> ge_algorithm g = a"
proof -
  from assms obtain g0 gs0 where r: "reply_sessions v item = Inr (g0 # gs0)"
    by (auto simp: processKeySolicitation_def split: sum.splits list.splits)
  let ?gs = "g0 # gs0"
  let ?send = "e_sendKeyFulfillment v (ki_streamId item) (ki_fromUserAddress item) (ks_deviceKey (ki_solicitation item))
       (sort (filter (\<lambda>x. x \<in> set (ks_sessionIds (ki_solicitation item))) (map ge_sessionId ?gs)))"
  have f: "?send = Inr None"
    using assms by (auto simp: processKeySolicitation_def r Let_def split: sum.splits option.splits)
  have "SessionsShared s item' c a \<in> set (outs_of (for_each (encryptAndShareGroupSessions v item) (group_by_algorithm ?gs) d))"
    using assms f by (simp add: processKeySolicitation_def r Let_def)
  from for_each_outs[OF this] obtain kv where kv: "kv \<in> set (group_by_algorithm ?gs)"
      "c \<in> set (chunks 100 (snd kv))" "s = ki_streamId item" "item' = item" "a = fst kv"
    by (auto dest!: share_outs)
  have c: "c \<noteq> [] \<and> length c \<le> 100 \<and> set c \<subseteq> set (snd kv)" by (rule chunks_bound) (simp_all add: kv)
  have "\<forall>g \<in> set c. g \<in> set ?gs \<and> ge_algorithm g = a"
    using grouped_member[OF grouped_by_algorithm kv(1)] c kv(5) by blast
  with that[OF kv(3,4) r] f c kv(3) show thesis by simp
qed

text \<open>Outside of the end of a tick nothing is sent.\<close>

definition quiet :: "dec_res \<Rightarrow> bool" where
  "quiet r \<longleftrightarrow> (\<forall>ev \<in> set (outs_of r). \<exists>x. ev = StatusChanged x)"

lemma quiet_check: "quiet (checkStartTicking v d)"
  by (simp add: quiet_def checkStartTicking_def setStatus_def)

lemma quiet_and_then: "quiet r \<Longrightarrow> (\<And>s. quiet (f s)) \<Longrightarrow> quiet (and_then r f)"
  by (auto simp: quiet_def outs_of_and_then)

lemma quiet_base: "quiet (ok d [])" "quiet (throw e d)"
  by (simp_all add: quiet_def)

lemma quiet_solicit: "quiet (solicit C v k s h u a ks b d)"
  by (simp add: solicit_def quiet_base split: sum.split)

lemma quiet_for_each: "(\<And>x s. quiet (f x s)) \<Longrightarrow> quiet (for_each f xs s)"
  by (induction xs arbitrary: s) (auto intro: quiet_and_then quiet_base)

lemma quiet_on_stream_event: "quiet (on_stream_event E C v ev d)"
  by (cases ev) (auto simp: on_stream_event_def enqueueNewGroupSessions_def enqueueNewEncryptedContent_def Let_def
      retryDecryptionFailures_def enqueueKeySolicitation_def enqueueInitKeySolicitations_def
      intro!: quiet_and_then quiet_check quiet_base quiet_solicit quiet_for_each)

lemma quiet_step:
  assumes "op \<noteq> OpFinish"
  shows "quiet (dec_step E C v op d)"
proof (cases "op = OpTimer")
  case True
  then show ?thesis
    by (auto simp: dec_step_def tick_def quiet_base setStatus_def split: prod.split intro!: quiet_and_then)
       (auto simp: quiet_def)
next
  case False
  with assms show ?thesis
    by (cases op) (auto simp: dec_step_def setStreamUpToDate_def resetUpToDateStreams_def stop_def start_def Let_def
        visibilityChanged_def intro!: quiet_on_stream_event quiet_check quiet_base)
qed

text \<open>
  C6. Keys leave the device only for those who may have them. Whenever the queue has sessions encrypted and shared, this
  answers a key solicitation it was working on, for the device of that solicitation; the user who asked is entitled to key
  exchange in the view of the stream, and for a channel the chain has granted \<open>Read\<close>; the sessions are at most a hundred of
  one algorithm, exported from the store under ids that were asked for, unless the device is new; and the fulfillment of the
  solicitation was accepted by the stream first.\<close>

theorem keys_shared_with_entitled_only:
  assumes "SessionsShared s item gs a \<in> set (outs_of (dec_step E C v op d))"
  shows "op = OpFinish \<and> dq_job d = Some (JobSolicitation item) \<and> s = ki_streamId item \<and>
    (\<exists>view. e_view v s = Some view \<and> userIsEntitledToKeyExchange view (ki_fromUserId item) \<and>
       (\<forall>c. sv_content view = CChannel c \<longrightarrow> e_isEntitled v (cc_spaceId c) s (ki_fromUserId item) ''Read'' = Inr True)) \<and>
    gs \<noteq> [] \<and> length gs \<le> 100 \<and>
    (\<forall>g \<in> set gs. ge_algorithm g = a \<and>
       (\<exists>known x. e_getGroupSessionIds v s = Inr known \<and> x \<in> set known
          \<and> (ks_isNewDevice (ki_solicitation item) \<or> x \<in> set (ks_sessionIds (ki_solicitation item)))
          \<and> e_exportGroupSession v s x = Inr (Some g))) \<and>
    (\<exists>ids. set ids \<subseteq> set (ks_sessionIds (ki_solicitation item)) \<and>
       e_sendKeyFulfillment v s (ki_fromUserAddress item) (ks_deviceKey (ki_solicitation item)) ids = Inr None)"
proof -
  have op: "op = OpFinish"
    using quiet_step[of op E C v d] assms by (auto simp: quiet_def)
  with assms obtain j where j: "dq_job d = Some j" "SessionsShared s item gs a \<in> set (outs_of (process_job E C v j d))"
    by (auto simp: dec_step_def finish_sels split: option.splits)
  have "\<exists>i. j = JobSolicitation i"
    using j(2) by (auto simp: process_job_def finish_task_def processNewGroupSession_def importSessions_def ack_if_last_def
        processEncryptedContentItem_def processMissingKeys_def Let_def outs_of_and_then
        split: job.splits sum.splits option.splits list.splits if_splits decrypted.splits PriorityTask.splits)
  then obtain i where i: "j = JobSolicitation i" ..
  with j(2) have "SessionsShared s item gs a \<in> set (outs_of (processKeySolicitation v i d))" by (simp add: process_job_def)
  from processKeySolicitation_shares[OF this] obtain all where a: "s = ki_streamId i" "item = i" "reply_sessions v i = Inr all"
    "e_sendKeyFulfillment v s (ki_fromUserAddress i) (ks_deviceKey (ki_solicitation i))
       (sort (filter (\<lambda>x. x \<in> set (ks_sessionIds (ki_solicitation i))) (map ge_sessionId all))) = Inr None"
    "gs \<noteq> []" "length gs \<le> 100" "\<forall>g \<in> set gs. g \<in> set all \<and> ge_algorithm g = a" .
  from a(5) obtain g where "g \<in> set gs" by (cases gs) auto
  with a(7) have "may_have_keys v s (ki_fromUserId i)" using reply_sessions_mem(1)[OF a(3)] a(1) by blast
  moreover have "\<forall>g \<in> set gs. \<exists>known x. e_getGroupSessionIds v s = Inr known \<and> x \<in> set known
      \<and> (ks_isNewDevice (ki_solicitation i) \<or> x \<in> set (ks_sessionIds (ki_solicitation i)))
      \<and> e_exportGroupSession v s x = Inr (Some g)"
    using reply_sessions_mem(2)[OF a(3)] a(1,7) by blast
  moreover have "\<exists>ids. set ids \<subseteq> set (ks_sessionIds (ki_solicitation i)) \<and>
      e_sendKeyFulfillment v s (ki_fromUserAddress i) (ks_deviceKey (ki_solicitation i)) ids = Inr None"
    by (rule exI, rule conjI[OF _ a(4)]) auto
  ultimately show ?thesis
    using op j(1) i a(1,2,5-7) unfolding may_have_keys_def by blast
qed

subsection \<open>The acknowledgement of the inbox\<close>

lemma tick_session:
  assumes "priorityTasks d = []" "newGroupSession d = g # gs"
  shows "st_of (tick E C v d) = (st_of (setStatus StWorking (d\<lparr>newGroupSession := gs\<rparr>)))\<lparr>dq_timer := False, dq_job := Some (JobSession g)\<rparr>"
    "InboxAcked \<notin> set (outs_of (tick E C v d))"
  using assms by (simp_all add: tick_def dequeue_def and_then_sels begin_work_def work_status_def setStatus_def)

lemma processNewGroupSession_not_last:
  "newGroupSession d \<noteq> [] \<Longrightarrow> InboxAcked \<notin> set (outs_of (processNewGroupSession C v g d))"
proof -
  assume "newGroupSession d \<noteq> []"
  then have "newGroupSession (st_of (importSessions v s gs d)) \<noteq> []" for s gs
    using importSessions_frame[of d v s gs] by (simp add: job_frame_def)
  then show ?thesis
    by (auto simp: processNewGroupSession_def Let_def outs_of_and_then ack_if_last_def importSessions_def
        split: option.splits sum.splits list.splits if_splits)
qed

text \<open>The inbox is to be acknowledged when all its sessions are processed; but if the last of the queued sessions is not
  for this device, nothing is acknowledged: neither for it nor for the session before it, although the queue of sessions
  is empty at the end.\<close>

theorem skipped_last_session_not_acked:
  assumes "dq_timer d" "priorityTasks d = []" "newGroupSession d = [g, g']"
    and "map_get (ges_ciphertexts (ng_sessions g')) (dc_deviceKey C) = None"
    and "dq_started d" "dq_onStopFn d" "\<not> isMobileSafariBackgrounded d" "isUserInboxStreamUpToDate v3 d"
    and "(d', os) = dec_run E C [(v1, OpTimer), (v2, OpFinish), (v3, OpRecheck), (v4, OpTimer), (v5, OpFinish)] d"
  shows "newGroupSession d' = [] \<and> InboxAcked \<notin> set os"
proof -
  define d1 where "d1 = st_of (dec_step E C v1 OpTimer d)"
  define d2 where "d2 = st_of (dec_step E C v2 OpFinish d1)"
  define d3 where "d3 = st_of (dec_step E C v3 OpRecheck d2)"
  define d4 where "d4 = st_of (dec_step E C v4 OpTimer d3)"
  note t = tick_session[OF assms(2,3), of E C v1]
  have d1: "dq_job d1 = Some (JobSession g)" "newGroupSession d1 = [g']" "priorityTasks d1 = []" "dq_started d1"
      "dq_onStopFn d1" "\<not> isMobileSafariBackgrounded d1" "upToDateStreams d1 = upToDateStreams d"
    and o1: "InboxAcked \<notin> set (outs_of (dec_step E C v1 OpTimer d))"
    using t assms(1,2,5-7) by (simp_all add: d1_def dec_step_def)
  have fr: "job_frame d1 (st_of (processNewGroupSession C v2 g d1))" by (rule processNewGroupSession_frame)
  have d2: "newGroupSession d2 = [g']" "priorityTasks d2 = []" "dq_started d2" "dq_onStopFn d2"
      "\<not> isMobileSafariBackgrounded d2" "upToDateStreams d2 = upToDateStreams d" "dq_recheck d2" "\<not> dq_timeoutId d2"
    and o2: "InboxAcked \<notin> set (outs_of (dec_step E C v2 OpFinish d1))"
    using d1 fr processNewGroupSession_not_last[of d1 C v2 g]
    by (simp_all add: d2_def dec_step_def finish_sels process_job_def job_frame_def)
  have up: "isUserInboxStreamUpToDate v3 (d2\<lparr>dq_recheck := False\<rparr>)"
    using assms(8) d2(6) by (auto simp: isUserInboxStreamUpToDate_def split: option.splits)
  have d3: "newGroupSession d3 = [g']" "priorityTasks d3 = []" "dq_timer d3"
    and o3: "InboxAcked \<notin> set (outs_of (dec_step E C v3 OpRecheck d2))"
    using d2 up by (simp_all add: d3_def dec_step_def checkStartTicking_def mainQueues_isEmpty_def)
  note t4 = tick_session[OF d3(2,1), of E C v4]
  have d4: "dq_job d4 = Some (JobSession g')" "newGroupSession d4 = []"
    and o4: "InboxAcked \<notin> set (outs_of (dec_step E C v4 OpTimer d3))"
    using t4 d3 by (simp_all add: d4_def dec_step_def)
  have "newGroupSession (st_of (dec_step E C v5 OpFinish d4)) = []" "outs_of (dec_step E C v5 OpFinish d4) = []"
    using d4 assms(4) by (simp_all add: dec_step_def finish_sels process_job_def processNewGroupSession_def)
  then show ?thesis
    using assms(9) o1 o2 o3 o4 by (simp add: d1_def[symmetric] d2_def[symmetric] d3_def[symmetric] d4_def[symmetric])
qed

subsection \<open>Instances\<close>

definition demo_config :: dec_config where
  "demo_config = \<lparr>dc_userId = ''me'', dc_deviceKey = ''dev'', dc_isMobileSafari = False, dc_disableSignatureValidation = False\<rparr>"

definition demo_session :: GroupEncryptionSession where
  "demo_session = \<lparr>ge_streamId = ''s'', ge_sessionId = ''x'', ge_sessionKey = ''k'', ge_algorithm = ''grpaes''\<rparr>"

definition demo_env :: dec_env where
  "demo_env = \<lparr>e_now = 0, e_random = (\<lambda>k. 0),
     e_view = (\<lambda>s. Some ((demo_view [] [])\<lparr>sv_membershipContent := (new_Members demo_channel_id [])\<lparr>m_joinedUsers := [''you'']\<rparr>\<rparr>)),
     e_userInboxStreamId = Some ''a1'', e_isEntitled = (\<lambda>sp s u p. Inr (u = ''you'')), e_hasSessionKey = (\<lambda>s x a. Inr False),
     e_decryptSessionKeys = (\<lambda>c k. Inr [''k'']), e_importSessionKeys = (\<lambda>s gs. Inr ()), e_getGroupSessionIds = (\<lambda>s. Inr [''x'']),
     e_exportGroupSession = (\<lambda>s x. Inr (Some demo_session)), e_decryptGroupEvent = (\<lambda>i. DecryptOk),
     e_sendKeySolicitation = (\<lambda>s n ids. Inr ()), e_sendKeyFulfillment = (\<lambda>s u k ids. Inr None),
     e_shareSessions = (\<lambda>s gs a. Inr ()), e_task = (\<lambda>t. Inr ()), e_ack = Inr ()\<rparr>"

lemma demo_env_sels [simp]:
  "e_userInboxStreamId demo_env = Some ''a1''" "e_now demo_env = 0"
  "e_getGroupSessionIds demo_env s = Inr [''x'']" "e_exportGroupSession demo_env s y = Inr (Some demo_session)"
  "e_sendKeyFulfillment demo_env s u k ids = Inr None" "e_shareSessions demo_env s gs a = Inr ()"
  by (simp_all add: demo_env_def)

definition demo_started :: Decryption where
  "demo_started = (newDecryption [''a1''])\<lparr>dq_started := True, priorityTasks := [UploadDeviceKeys, DownloadNewMessages],
     dq_timeoutId := True, dq_timer := True\<rparr>"

lemma demo_started_run: "fst (dec_run demo_externs demo_config [(demo_env, OpStart)] (newDecryption [''a1''])) = demo_started"
  by (simp add: dec_step_def start_def newDecryption_def demo_started_def Let_def enqueueNewMessageDownload_def
      checkStartTicking_def isUserInboxStreamUpToDate_def mainQueues_isEmpty_def)

lemma demo_started_ready: "ready {''a1''} 0 demo_started"
  by (simp add: ready_def ready_queues_def ready_failures_def demo_started_def newDecryption_def)

theorem single_tick_none_after_stop_witness:
  "dq_job demo_started = None \<and>
   \<not> dq_timer (fst (dec_run demo_externs demo_config [(demo_env, OpStop), (demo_env, OpTimer)] demo_started)) \<and>
   snd (dec_run demo_externs demo_config [(demo_env, OpStop), (demo_env, OpTimer)] demo_started) = []"
  using single_tick_none_after_stop[OF demo_started_run[symmetric] prod.collapse, of demo_env "[(demo_env, OpTimer)]"]
  by (simp add: demo_started_def newDecryption_def)


definition demo_solicitation :: KeySolicitationItem where
  "demo_solicitation = \<lparr>ki_streamId = ''s'', ki_fromUserId = ''you'', ki_fromUserAddress = [7],
     ki_solicitation = \<lparr>ks_deviceKey = ''other'', ks_fallbackKey = ''f'', ks_isNewDevice = False, ks_sessionIds = [''x'']\<rparr>,
     ki_respondAfter = 0, ki_sigBundle = \<lparr>sg_hash = [], sg_signature = None, sg_creatorAddress = [], sg_delegateSig = [],
       sg_delegateExpiryEpochMs = 0\<rparr>, ki_hashStr = ''h''\<rparr>"

theorem keys_shared_with_entitled_only_witness:
  "SessionsShared ''s'' demo_solicitation [demo_session] ''grpaes''
     \<in> set (outs_of (dec_step demo_externs demo_config demo_env OpFinish
         ((newDecryption [])\<lparr>dq_job := Some (JobSolicitation demo_solicitation)\<rparr>))) \<and>
   e_isEntitled demo_env [] ''s'' ''you'' ''Read'' = Inr True"
proof -
  have u: "isUserEntitledToKeyExchange demo_env ''s'' ''you'' False = Inr True"
    by (simp add: isUserEntitledToKeyExchange_def demo_env_def userIsEntitledToKeyExchange_def demo_view_def
        getUsersEntitledToKeyExchange_def joinedOrPendingJoinedParticipants_def)
  have "reply_sessions demo_env demo_solicitation = Inr [demo_session]"
    using u by (simp add: reply_sessions_def demo_solicitation_def reply_session_ids_def export_sessions_def)
  then have s: "SessionsShared ''s'' demo_solicitation [demo_session] ''grpaes''
     \<in> set (outs_of (dec_step demo_externs demo_config demo_env OpFinish
         ((newDecryption [])\<lparr>dq_job := Some (JobSolicitation demo_solicitation)\<rparr>)))"
    by (simp add: dec_step_def finish_sels process_job_def processKeySolicitation_def Let_def group_by_algorithm_def
        map_get_or_def encryptAndShareGroupSessions_def outs_of_and_then)
      (simp add: demo_solicitation_def demo_session_def ok_def)
  from keys_shared_with_entitled_only[OF s] s show ?thesis
    by (auto simp: demo_env_def demo_view_def new_ChannelContent_def demo_solicitation_def)
qed

definition demo_group_session :: NewGroupSessionItem where
  "demo_group_session = \<lparr>ng_streamId = ''a1'', ng_sessions = \<lparr>ges_streamId = [], ges_senderKey = ''s'', ges_sessionIds = [''x''],
     ges_ciphertexts = [(''other'', ''c'')], ges_algorithm = ''grpaes''\<rparr>\<rparr>"

theorem skipped_last_session_not_acked_witness:
  "\<exists>d' os. (d', os) = dec_run demo_externs demo_config [(demo_env, OpTimer), (demo_env, OpFinish), (demo_env, OpRecheck),
      (demo_env, OpTimer), (demo_env, OpFinish)]
      (demo_started\<lparr>priorityTasks := [], newGroupSession := [demo_group_session, demo_group_session]\<rparr>) \<and>
    newGroupSession d' = [] \<and> InboxAcked \<notin> set os"
proof -
  let ?d = "demo_started\<lparr>priorityTasks := [], newGroupSession := [demo_group_session, demo_group_session]\<rparr>"
  obtain d' os where r: "(d', os) = dec_run demo_externs demo_config [(demo_env, OpTimer), (demo_env, OpFinish),
      (demo_env, OpRecheck), (demo_env, OpTimer), (demo_env, OpFinish)] ?d" by (metis prod.collapse)
  have "newGroupSession d' = [] \<and> InboxAcked \<notin> set os"
    by (rule skipped_last_session_not_acked[where g = demo_group_session and g' = demo_group_session, OF _ _ _ _ _ _ _ _ r])
      (simp_all add: demo_started_def newDecryption_def demo_group_session_def demo_config_def isUserInboxStreamUpToDate_def)
  with r show ?thesis by blast
qed

end
