(* ===== verification/SyncLoop.thy ===== *)
theory SyncLoop
  imports Signing
begin

section \<open>The sync loop\<close>

text \<open>
  \<open>packages/sdk/src/syncedStreamsLoop.ts\<close>, the class \<open>SyncedStreamsLoop\<close>: it keeps one streaming call to a node open, adds
  streams to it and removes them, hands the updates to the streams, and connects again after an error.

  The state is the record \<open>SyncLoop\<close>. Three activities of the class suspend, and the record says where each of them stands: the
  loop itself (\<open>sl_loop\<close>), the tick that sends changes of the subscription and handles updates (\<open>sl_tick\<close>), and removals of
  streams that wait for the connection (\<open>sl_waiting\<close>, \<open>sl_resumed\<close>). A step of the model runs one of them to its next suspension,
  or is a call of a public method, a timer, or an answer of the node; steps come in any order. The calls of the node and
  of the streams are outputs. Time is an argument of each step.
\<close>

subsection \<open>States and data\<close>

datatype SyncState = Canceling | NotSyncing | Retrying | Starting | Syncing

fun stateConstraints :: "SyncState \<Rightarrow> SyncState list" where
  "stateConstraints NotSyncing = [Starting]"
| "stateConstraints Starting = [Syncing, Retrying, Canceling]"
| "stateConstraints Syncing = [Canceling, Retrying]"
| "stateConstraints Retrying = [Starting, Canceling, Syncing, Retrying]"
| "stateConstraints Canceling = [NotSyncing]"

datatype SyncOp = SYNC_UNSPECIFIED | SYNC_NEW | SYNC_CLOSE | SYNC_UPDATE | SYNC_PONG | SYNC_DOWN | SYNC_UNKNOWN nat

record SyncStreamsResponse =
  sr_syncId :: string
  sr_syncOp :: SyncOp
  sr_stream :: "StreamAndCookie option"
  sr_pongNonce :: string
  sr_streamId :: bytes

record NonceStats =
  ns_sequence :: nat
  ns_nonce :: string
  ns_pingAt :: int
  ns_receivedAt :: "int option"
  ns_duration :: "int option"

text \<open>An entry of the map of streams is an object: its number is its identity.\<close>

record streamRecord =
  sd_ref :: nat
  sd_syncCookie :: SyncCookie

datatype loop_pc = LoopNone | AwaitNext | AwaitRetry | LoopEnded

datatype tick_pc =
    TickModify "string option" "string list" "string list"
  | TickUnpack nat string StreamAndCookie
  | TickDone

record sync_config =
  cf_useModifySync :: bool
  cf_unpackEnvelopeOpts :: "UnpackEnvelopeOpts option"
  cf_isMobileSafari :: bool

record SyncLoop =
  sl_streams :: "(string, streamRecord) jsmap"
  sl_loop :: loop_pc
  sl_syncId :: "string option"
  sl_syncState :: SyncState
  sl_releaseRetryWait :: bool
  sl_currentRetryCount :: nat
  sl_forceStopTimer :: bool
  sl_backgrounded :: bool
  sl_responsesQueue :: "SyncStreamsResponse list"
  sl_tick :: "tick_pc option"
  sl_recheck :: bool
  sl_pendingSyncCookies :: "string list"
  sl_inFlightSyncCookies :: "string jsset"
  sl_pendingStreamsToDelete :: "string list"
  sl_waiting :: "string list"
  sl_resumed :: "string list"
  sl_lastLogInflightAt :: int
  sl_syncStartedAt :: "int option"
  sl_processedStreamCount :: nat
  sl_streamSyncStalled :: bool
  sl_highPriorityIds :: "string jsset"
  sl_nonces :: "(string, NonceStats) jsmap"
  sl_currentSequence :: nat
  sl_pingTimeout :: "nat option"
  sl_pingTimers :: "nat list"
  sl_pings :: nat
  sl_downCalls :: "(bytes \<times> string \<times> nat) list"
  sl_downTimers :: "(bytes \<times> string \<times> nat) list"
  sl_nextRef :: nat

datatype sync_out =
    SyncStateChange SyncState
  | SyncActive bool
  | SyncBatchCompleted nat
  | SyncTimedOut
  | RemovedFromSync string
  | StreamStopped string
  | StreamResetUpToDate string
  | StreamInit string ParsedStreamResponse
  | StreamAppend string ParsedStreamAndCookie
  | RpcSyncStreams "SyncCookie list"
  | RpcModifySync "string option" "SyncCookie list" "string list"
  | RpcCancelSync string
  | RpcAddStreamToSync string SyncCookie nat
  | RpcPingSync string string
  | RetryIn nat

type_synonym sync_res = "(SyncLoop, sync_out) res"

definition MAX_IN_FLIGHT_COOKIES :: nat where "MAX_IN_FLIGHT_COOKIES = 40"
definition MIN_IN_FLIGHT_COOKIES :: nat where "MIN_IN_FLIGHT_COOKIES = 10"
definition MAX_IN_FLIGHT_STREAMS_TO_DELETE :: nat where "MAX_IN_FLIGHT_STREAMS_TO_DELETE = 40"

text \<open>The constructor: a later entry with the id of an earlier one replaces it.\<close>

definition new_SyncLoop :: "'a externs_scheme \<Rightarrow> SyncCookie list \<Rightarrow> string jsset \<Rightarrow> SyncLoop" where
  "new_SyncLoop E cookies highPriorityIds =
     \<lparr>sl_streams = fold (\<lambda>(n, c). map_set (streamIdAsString E (Bytes (sc_streamId c))) \<lparr>sd_ref = n, sd_syncCookie = c\<rparr>)
        (zip [0..<length cookies] cookies) [],
      sl_loop = LoopNone, sl_syncId = None, sl_syncState = NotSyncing, sl_releaseRetryWait = False,
      sl_currentRetryCount = 0, sl_forceStopTimer = False, sl_backgrounded = False, sl_responsesQueue = [], sl_tick = None,
      sl_recheck = False, sl_pendingSyncCookies = [], sl_inFlightSyncCookies = [], sl_pendingStreamsToDelete = [],
      sl_waiting = [], sl_resumed = [], sl_lastLogInflightAt = 0, sl_syncStartedAt = None, sl_processedStreamCount = 0,
      sl_streamSyncStalled = False, sl_highPriorityIds = highPriorityIds, sl_nonces = [], sl_currentSequence = 0,
      sl_pingTimeout = None, sl_pingTimers = [], sl_pings = 0, sl_downCalls = [], sl_downTimers = [],
      sl_nextRef = length cookies\<rparr>"

definition priorityFromStreamId :: "'a externs_scheme \<Rightarrow> string jsset \<Rightarrow> string \<Rightarrow> nat" where
  "priorityFromStreamId E highPriorityIds streamId =
     (let dm = (\<lambda>s. isDMChannelStreamId E (Str s) \<or> isGDMChannelStreamId E (Str s))
      in if isUserDeviceStreamId E (Str streamId) \<or> isUserInboxStreamId E (Str streamId)
            \<or> isUserStreamId E (Str streamId) \<or> isUserSettingsStreamId E (Str streamId) then 0
         else if streamId \<in> set highPriorityIds then 1
         else if isChannelStreamId E (Str streamId)
         then (case spaceIdFromChannelId E streamId of Inr s \<Rightarrow> if s \<in> set highPriorityIds then 2 else 3 | Inl _ \<Rightarrow> 3)
         else if highPriorityIds \<noteq> [] \<and> dm (hd highPriorityIds) \<and> dm streamId then 4
         else if isSpaceStreamId E (Str streamId) then 5
         else 6)"

subsection \<open>Pings\<close>

definition stopPing :: "SyncLoop \<Rightarrow> SyncLoop" where
  "stopPing d = d\<lparr>sl_pingTimers := (case sl_pingTimeout d of None \<Rightarrow> sl_pingTimers d | Some t \<Rightarrow> filter (\<lambda>x. x \<noteq> t) (sl_pingTimers d)),
     sl_pingTimeout := None, sl_nonces := [], sl_currentSequence := 0\<rparr>"

definition sendKeepAlivePings :: "SyncLoop \<Rightarrow> SyncLoop" where
  "sendKeepAlivePings d =
     d\<lparr>sl_pingTimeout := Some (sl_nextRef d), sl_pingTimers := sl_pingTimers d @ [sl_nextRef d], sl_nextRef := Suc (sl_nextRef d)\<rparr>"

subsection \<open>The state machine\<close>

text \<open>The listeners of \<open>waitForSyncingState\<close> hear the change and resolve when the new state cannot become \<open>Syncing\<close> any more.\<close>

definition setSyncState :: "SyncState \<Rightarrow> SyncLoop \<Rightarrow> sync_res" where
  "setSyncState newState d =
     (if sl_syncState d = newState then throw JsError d
      else if newState \<notin> set (stateConstraints (sl_syncState d)) then throw JsError d
      else
        let d1 = d\<lparr>sl_syncState := newState\<rparr>
        in ok (if Syncing \<in> set (stateConstraints newState) then d1
               else d1\<lparr>sl_resumed := sl_resumed d1 @ sl_waiting d1, sl_waiting := []\<rparr>) [SyncStateChange newState])"

subsection \<open>Ticks\<close>

definition modifySync_failed :: "string option \<Rightarrow> string list \<Rightarrow> string list \<Rightarrow> SyncLoop \<Rightarrow> SyncLoop" where
  "modifySync_failed syncId streamsToAdd streamsToDelete d =
     (if sl_syncId d = syncId \<and> sl_syncState d = Syncing
      then let d1 = fold (\<lambda>x d. if x \<in> set (sl_inFlightSyncCookies d)
                                 then d\<lparr>sl_inFlightSyncCookies := set_del x (sl_inFlightSyncCookies d),
                                        sl_pendingSyncCookies := sl_pendingSyncCookies d @ [x]\<rparr>
                                 else d) streamsToAdd d
           in d1\<lparr>sl_pendingStreamsToDelete := sl_pendingStreamsToDelete d1 @ streamsToDelete\<rparr>
      else d)"

text \<open>An update for a stream in flight: the stream is not in flight any more, and progress is reported.\<close>

definition update_progress :: "int \<Rightarrow> string \<Rightarrow> SyncLoop \<Rightarrow> sync_res" where
  "update_progress now streamId d =
     (if streamId \<notin> set (sl_inFlightSyncCookies d) then ok d []
      else
        let d1 = d\<lparr>sl_inFlightSyncCookies := set_del streamId (sl_inFlightSyncCookies d),
                   sl_processedStreamCount := Suc (sl_processedStreamCount d)\<rparr>
        in if sl_inFlightSyncCookies d1 = [] \<or> now - sl_lastLogInflightAt d1 > 5000
           then if sl_inFlightSyncCookies d1 = [] \<and> sl_syncStartedAt d1 \<noteq> None
                then ok (d1\<lparr>sl_syncStartedAt := None, sl_processedStreamCount := 0, sl_streamSyncStalled := False,
                            sl_lastLogInflightAt := now\<rparr>) [SyncBatchCompleted (sl_processedStreamCount d1)]
                else ok (d1\<lparr>sl_streamSyncStalled := True, sl_lastLogInflightAt := now\<rparr>) []
           else ok d1 [])"

text \<open>\<open>onUpdate\<close> up to its first suspension.\<close>

definition onUpdate :: "'a externs_scheme \<Rightarrow> int \<Rightarrow> SyncStreamsResponse \<Rightarrow> SyncLoop \<Rightarrow> sync_res" where
  "onUpdate E now res d =
     (if sl_syncState d \<noteq> Syncing \<and> sl_syncState d \<noteq> Canceling then ok (d\<lparr>sl_tick := Some TickDone\<rparr>) []
      else case sr_stream res of
             None \<Rightarrow> ok (d\<lparr>sl_tick := Some TickDone\<rparr>) []
           | Some syncStream \<Rightarrow>
               let streamId = streamIdAsString E (Bytes (case sk_nextSyncCookie syncStream of None \<Rightarrow> [] | Some c \<Rightarrow> sc_streamId c))
               in and_then (update_progress now streamId d) (\<lambda>d1.
                  ok (d1\<lparr>sl_tick := Some (case map_get (sl_streams d1) streamId of
                                             None \<Rightarrow> TickDone
                                           | Some r \<Rightarrow> TickUnpack (sd_ref r) streamId syncStream)\<rparr>) []))"

definition tick_item :: "'a externs_scheme \<Rightarrow> int \<Rightarrow> SyncLoop \<Rightarrow> sync_res" where
  "tick_item E now d =
     (case sl_responsesQueue d of
        [] \<Rightarrow> ok (d\<lparr>sl_tick := Some TickDone\<rparr>) []
      | item # rest \<Rightarrow>
          let d1 = d\<lparr>sl_responsesQueue := rest\<rparr>
          in if Some (sr_syncId item) \<noteq> sl_syncId d1 then ok (d1\<lparr>sl_tick := Some TickDone\<rparr>) []
             else onUpdate E now item d1)"

text \<open>\<open>tick\<close> up to its first suspension: the call of \<open>modifySync\<close>, or the handling of one response.\<close>

definition sync_tick :: "'a externs_scheme \<Rightarrow> int \<Rightarrow> SyncLoop \<Rightarrow> sync_res" where
  "sync_tick E now d =
     (let deletable = filter (\<lambda>x. x \<notin> set (sl_inFlightSyncCookies d)) (sl_pendingStreamsToDelete d)
      in if sl_syncState d = Syncing
            \<and> (length (sl_inFlightSyncCookies d) \<le> MIN_IN_FLIGHT_COOKIES \<and> sl_pendingSyncCookies d \<noteq> [] \<or> deletable \<noteq> [])
         then
           let pending = sort_key (priorityFromStreamId E (sl_highPriorityIds d)) (sl_pendingSyncCookies d);
               streamsToAdd = take MAX_IN_FLIGHT_COOKIES pending;
               streamsToDelete = take MAX_IN_FLIGHT_STREAMS_TO_DELETE deletable;
               d1 = d\<lparr>sl_pendingSyncCookies := drop MAX_IN_FLIGHT_COOKIES pending,
                      sl_pendingStreamsToDelete :=
                        filter (\<lambda>x. x \<notin> set streamsToDelete) (drop MAX_IN_FLIGHT_STREAMS_TO_DELETE deletable),
                      sl_inFlightSyncCookies := fold set_add streamsToAdd (sl_inFlightSyncCookies d)\<rparr>;
               syncPos = List.map_filter (\<lambda>x. map_option sd_syncCookie (map_get (sl_streams d) x)) streamsToAdd
           in if list_all (\<lambda>x. streamIdAsBytes E (Str x) \<noteq> None) streamsToDelete
              then ok (d1\<lparr>sl_tick := Some (TickModify (sl_syncId d) streamsToAdd streamsToDelete)\<rparr>)
                      [RpcModifySync (sl_syncId d) syncPos streamsToDelete]
              else tick_item E now (modifySync_failed (sl_syncId d) streamsToAdd streamsToDelete d1)
         else tick_item E now d)"

definition sync_checkStartTicking :: "'a externs_scheme \<Rightarrow> int \<Rightarrow> SyncLoop \<Rightarrow> sync_res" where
  "sync_checkStartTicking E now d =
     (if sl_tick d \<noteq> None then ok d []
      else if sl_responsesQueue d = [] \<and> sl_pendingSyncCookies d = [] \<and> sl_pendingStreamsToDelete d = [] then ok d []
      else if sl_backgrounded d then ok d []
      else sync_tick E now d)"

text \<open>The node answers \<open>modifySync\<close>. The errors for single streams in a successful answer are only logged.\<close>

definition modifySync_answered :: "'a externs_scheme \<Rightarrow> int \<Rightarrow> bool \<Rightarrow> SyncLoop \<Rightarrow> sync_res" where
  "modifySync_answered E now success d =
     (case sl_tick d of
        Some (TickModify syncId streamsToAdd streamsToDelete) \<Rightarrow>
          tick_item E now (if success then d else modifySync_failed syncId streamsToAdd streamsToDelete d)
      | _ \<Rightarrow> ok d [])"

text \<open>The options of \<open>unpackStreamAndCookie\<close> for an update.\<close>

definition update_opts :: UnpackEnvelopeOpts where
  "update_opts = \<lparr>uo_disableHashValidation = Some False, uo_disableSignatureValidation = Some True\<rparr>"

definition set_cookie :: "nat \<Rightarrow> string \<Rightarrow> SyncCookie \<Rightarrow> SyncLoop \<Rightarrow> SyncLoop" where
  "set_cookie ref streamId cookie d =
     (case map_get (sl_streams d) streamId of
        Some r \<Rightarrow> if sd_ref r = ref then d\<lparr>sl_streams := map_set streamId (r\<lparr>sd_syncCookie := cookie\<rparr>) (sl_streams d)\<rparr> else d
      | None \<Rightarrow> d)"

definition update_unpacked :: "'a sign_externs_scheme \<Rightarrow> sync_config \<Rightarrow> SyncLoop \<Rightarrow> sync_res" where
  "update_unpacked E C d =
     (case sl_tick d of
        Some (TickUnpack ref streamId syncStream) \<Rightarrow>
          let d1 = d\<lparr>sl_tick := Some TickDone\<rparr>
          in if sk_syncReset syncStream
             then case unpackStream E (cf_unpackEnvelopeOpts C) (Some syncStream) of
                    Inl _ \<Rightarrow> ok d1 []
                  | Inr response \<Rightarrow>
                      ok (set_cookie ref streamId (sac_nextSyncCookie (psr_streamAndCookie response)) d1) [StreamInit streamId response]
             else case unpackStreamAndCookie E (Some update_opts) syncStream of
                    Inl _ \<Rightarrow> ok d1 []
                  | Inr streamAndCookie \<Rightarrow>
                      ok (set_cookie ref streamId (sac_nextSyncCookie streamAndCookie) d1) [StreamAppend streamId streamAndCookie]
      | _ \<Rightarrow> ok d [])"

definition tick_finally :: "SyncLoop \<Rightarrow> sync_res" where
  "tick_finally d = ok (if sl_tick d = Some TickDone then d\<lparr>sl_tick := None, sl_recheck := True\<rparr> else d) []"

subsection \<open>Streams\<close>

definition addStreamToSync :: "'a externs_scheme \<Rightarrow> int \<Rightarrow> string \<Rightarrow> SyncCookie \<Rightarrow> SyncLoop \<Rightarrow> sync_res" where
  "addStreamToSync E now streamId syncCookie d =
     (if map_has (sl_streams d) streamId then ok d []
      else sync_checkStartTicking E now
        (d\<lparr>sl_pendingStreamsToDelete :=
             (case find_index ((=) streamId) (sl_pendingStreamsToDelete d) of
                None \<Rightarrow> sl_pendingStreamsToDelete d | Some i \<Rightarrow> remove_at i (sl_pendingStreamsToDelete d)),
           sl_streams := map_set streamId \<lparr>sd_ref = sl_nextRef d, sd_syncCookie = syncCookie\<rparr> (sl_streams d),
           sl_pendingSyncCookies := sl_pendingSyncCookies d @ [streamId], sl_nextRef := Suc (sl_nextRef d)\<rparr>))"

text \<open>The rest of \<open>removeStreamFromSync\<close>, after \<open>waitForSyncingState\<close>.\<close>

definition remove_now :: "string \<Rightarrow> SyncLoop \<Rightarrow> sync_res" where
  "remove_now streamId d =
     (let d1 = d\<lparr>sl_inFlightSyncCookies := set_del streamId (sl_inFlightSyncCookies d)\<rparr>
      in if sl_syncState d = Syncing
         then ok (d1\<lparr>sl_pendingStreamsToDelete := sl_pendingStreamsToDelete d @ [streamId],
                     sl_streams := map_delete streamId (sl_streams d)\<rparr>) [StreamStopped streamId, RemovedFromSync streamId]
         else ok d1 [])"

definition removeStreamFromSync :: "string \<Rightarrow> SyncLoop \<Rightarrow> sync_res" where
  "removeStreamFromSync streamId d =
     (if \<not> map_has (sl_streams d) streamId then ok d []
      else case find_index ((=) streamId) (sl_pendingSyncCookies d) of
             Some i \<Rightarrow> ok (d\<lparr>sl_pendingSyncCookies := remove_at i (sl_pendingSyncCookies d),
                             sl_streams := map_delete streamId (sl_streams d)\<rparr>) [StreamStopped streamId]
           | None \<Rightarrow>
               if streamId \<in> set (sl_pendingStreamsToDelete d) then ok d []
               else if sl_syncState d = Starting \<or> sl_syncState d = Retrying
               then ok (d\<lparr>sl_waiting := sl_waiting d @ [streamId]\<rparr>) []
               else remove_now streamId d)"

definition resume_removal :: "SyncLoop \<Rightarrow> sync_res" where
  "resume_removal d =
     (case sl_resumed d of [] \<Rightarrow> ok d [] | streamId # rest \<Rightarrow> remove_now streamId (d\<lparr>sl_resumed := rest\<rparr>))"

subsection \<open>Responses of the node\<close>

definition syncStarted :: "'a externs_scheme \<Rightarrow> int \<Rightarrow> string \<Rightarrow> SyncLoop \<Rightarrow> sync_res" where
  "syncStarted E now syncId d =
     (if truthy_str (sl_syncId d) = None \<and> Syncing \<in> set (stateConstraints (sl_syncState d))
      then and_then (setSyncState Syncing d) (\<lambda>d1.
           and_then (ok (sendKeepAlivePings (d1\<lparr>sl_syncId := Some syncId, sl_currentRetryCount := 0\<rparr>)) [SyncActive True])
             (sync_checkStartTicking E now))
      else ok d [])"

text \<open>\<open>addStreamToSync\<close> of the node is called with the cookie of the stream; the call is retried when it fails.\<close>

definition syncDown :: "'a externs_scheme \<Rightarrow> bytes \<Rightarrow> (string \<times> nat) option \<Rightarrow> SyncLoop \<Rightarrow> sync_res" where
  "syncDown E streamId retryParams d =
     (case sl_syncId d of
        None \<Rightarrow> ok d []
      | Some syncId \<Rightarrow>
          if (case retryParams of None \<Rightarrow> False | Some (i, _) \<Rightarrow> i \<noteq> syncId) then ok d []
          else if streamId = [] \<or> sl_syncState d \<noteq> Syncing then ok d []
          else case map_get (sl_streams d) (streamIdAsString E (Bytes streamId)) of
                 None \<Rightarrow> ok d []
               | Some r \<Rightarrow>
                   let retryCount = (case retryParams of None \<Rightarrow> 0 | Some (_, n) \<Rightarrow> n)
                   in ok (d\<lparr>sl_downCalls := sl_downCalls d @ [(streamId, syncId, retryCount)]\<rparr>)
                         [RpcAddStreamToSync syncId (sd_syncCookie r) retryCount])"

definition syncDown_delay :: "nat \<Rightarrow> nat" where
  "syncDown_delay retryCount = min (1000 * 2 ^ retryCount) 60000"

text \<open>The \<open>k\<close>-th open call of \<open>addStreamToSync\<close> is answered, and the \<open>k\<close>-th timer of a retry fires.\<close>

definition syncDown_answered :: "nat \<Rightarrow> bool \<Rightarrow> SyncLoop \<Rightarrow> sync_res" where
  "syncDown_answered k success d =
     (if k < length (sl_downCalls d)
      then let call = sl_downCalls d ! k; d1 = d\<lparr>sl_downCalls := remove_at k (sl_downCalls d)\<rparr>
           in if success then ok d1 []
              else ok (d1\<lparr>sl_downTimers := sl_downTimers d @ [call]\<rparr>) [RetryIn (syncDown_delay (snd (snd call)))]
      else ok d [])"

definition syncDown_retried :: "'a externs_scheme \<Rightarrow> nat \<Rightarrow> SyncLoop \<Rightarrow> sync_res" where
  "syncDown_retried E k d =
     (if k < length (sl_downTimers d)
      then case sl_downTimers d ! k of
             (streamId, syncId, retryCount) \<Rightarrow>
               syncDown E streamId (Some (syncId, retryCount + 1)) (d\<lparr>sl_downTimers := remove_at k (sl_downTimers d)\<rparr>)
      else ok d [])"

definition syncClosed :: "SyncLoop \<Rightarrow> sync_res" where
  "syncClosed d = (let d1 = stopPing d in if sl_syncState d1 = Canceling then ok d1 [] else setSyncState Retrying d1)"

definition onPong :: "int \<Rightarrow> string \<Rightarrow> SyncLoop \<Rightarrow> SyncLoop" where
  "onPong now nonce d =
     (case map_get (sl_nonces d) nonce of
        None \<Rightarrow> d
      | Some n \<Rightarrow> d\<lparr>sl_nonces := map_set nonce (n\<lparr>ns_receivedAt := Some now, ns_duration := Some (now - ns_pingAt n)\<rparr>) (sl_nonces d)\<rparr>)"

definition handle_response :: "'a externs_scheme \<Rightarrow> int \<Rightarrow> SyncStreamsResponse \<Rightarrow> SyncLoop \<Rightarrow> sync_res" where
  "handle_response E now value d =
     (if sr_syncId value = [] then ok d []
      else case sr_syncOp value of
        SYNC_UNSPECIFIED \<Rightarrow> ok d []
      | SYNC_NEW \<Rightarrow> syncStarted E now (sr_syncId value) d
      | SYNC_CLOSE \<Rightarrow> syncClosed d
      | SYNC_UPDATE \<Rightarrow> sync_checkStartTicking E now (d\<lparr>sl_responsesQueue := sl_responsesQueue d @ [value]\<rparr>)
      | SYNC_PONG \<Rightarrow> ok (onPong now (sr_pongNonce value) d) []
      | SYNC_DOWN \<Rightarrow> syncDown E (sr_streamId value) None d
      | SYNC_UNKNOWN _ \<Rightarrow> ok d [])"

subsection \<open>The loop\<close>

text \<open>The \<open>finally\<close> block of the loop.\<close>

definition loop_finally :: "SyncLoop \<Rightarrow> sync_res" where
  "loop_finally d =
     (let d1 = (stopPing d)\<lparr>sl_streamSyncStalled := False, sl_loop := LoopEnded\<rparr>
      in if NotSyncing \<in> set (stateConstraints (sl_syncState d1))
         then and_then (setSyncState NotSyncing d1) (\<lambda>d2.
              ok (d2\<lparr>sl_streams := [], sl_releaseRetryWait := False, sl_syncId := None\<rparr>)
                 (map (\<lambda>sr. StreamStopped (fst sr)) (sl_streams d2) @ [SyncActive False]))
         else ok d1 [])"

text \<open>The start of an iteration, up to the first \<open>await\<close> of the iterator.\<close>

definition begin_iteration :: "'a externs_scheme \<Rightarrow> sync_config \<Rightarrow> int \<Rightarrow> SyncLoop \<Rightarrow> sync_res" where
  "begin_iteration E C now d =
     (let entries = sort_key (\<lambda>sr. priorityFromStreamId E (sl_highPriorityIds d) (fst sr)) (sl_streams d);
          d1 = d\<lparr>sl_inFlightSyncCookies := (if cf_useModifySync C then [] else map fst entries),
                 sl_pendingSyncCookies := (if cf_useModifySync C then map fst (sl_streams d) else []),
                 sl_pendingStreamsToDelete := [], sl_syncStartedAt := Some now, sl_processedStreamCount := 0\<rparr>;
          syncCookies = (if cf_useModifySync C then [] else map (\<lambda>sr. sd_syncCookie (snd sr)) entries)
      in and_then (if sl_syncState d1 = Retrying then setSyncState Starting d1 else ok d1 []) (\<lambda>d2.
         ok (d2\<lparr>sl_syncId := None, sl_loop := AwaitNext\<rparr>) [RpcSyncStreams syncCookies]))"

text \<open>The condition of the outer loop.\<close>

definition outer_loop :: "'a externs_scheme \<Rightarrow> sync_config \<Rightarrow> int \<Rightarrow> SyncLoop \<Rightarrow> sync_res" where
  "outer_loop E C now d =
     (if sl_syncState d \<in> {Starting, Syncing, Retrying} then begin_iteration E C now d else loop_finally d)"

text \<open>\<open>attemptRetry\<close>, up to its wait; without a wait the outer loop goes on.\<close>

definition attemptRetry :: "'a externs_scheme \<Rightarrow> sync_config \<Rightarrow> int \<Rightarrow> SyncLoop \<Rightarrow> sync_res" where
  "attemptRetry E C now d =
     (let d0 = stopPing d
      in if Retrying \<in> set (stateConstraints (sl_syncState d0))
         then and_then
           (if sl_syncState d0 \<noteq> Retrying
            then and_then (setSyncState Retrying d0) (\<lambda>d1.
                 ok (d1\<lparr>sl_syncId := None, sl_inFlightSyncCookies := [], sl_pendingSyncCookies := [],
                        sl_pendingStreamsToDelete := []\<rparr>)
                    (map (\<lambda>sr. StreamResetUpToDate (fst sr)) (sl_streams d1) @ [SyncActive False]))
            else ok d0 []) (\<lambda>d2.
           let nextRetryCount = (if sl_currentRetryCount d2 \<ge> 7 then 7 else sl_currentRetryCount d2 + 1)
           in ok (d2\<lparr>sl_currentRetryCount := nextRetryCount, sl_releaseRetryWait := True, sl_loop := AwaitRetry\<rparr>)
                 [RetryIn (2 ^ nextRetryCount * 1000)])
         else outer_loop E C now d0)"

datatype next_result = NextValue SyncStreamsResponse | NextDone | NextError

text \<open>The rest of an iteration after the iterator, or the promise that interrupts it, has settled.\<close>

definition on_next :: "'a externs_scheme \<Rightarrow> sync_config \<Rightarrow> int \<Rightarrow> next_result \<Rightarrow> SyncLoop \<Rightarrow> sync_res" where
  "on_next E C now r d =
     (if sl_loop d \<noteq> AwaitNext then ok d []
      else case r of
        NextDone \<Rightarrow> loop_finally d
      | NextError \<Rightarrow> attemptRetry E C now d
      | NextValue value \<Rightarrow>
          (case handle_response E now value d of
             (d1, os, Some _) \<Rightarrow> and_then (ok d1 os) (attemptRetry E C now)
           | (d1, os, None) \<Rightarrow>
               and_then (ok d1 os)
                 (if sl_syncState d1 = Syncing \<or> sl_syncState d1 = Starting then (\<lambda>d. ok d []) else outer_loop E C now)))"

definition createSyncLoop :: "'a externs_scheme \<Rightarrow> sync_config \<Rightarrow> int \<Rightarrow> SyncLoop \<Rightarrow> sync_res" where
  "createSyncLoop E C now d =
     (if Starting \<notin> set (stateConstraints (sl_syncState d)) then throw JsError d
      else and_then (setSyncState Starting d) (\<lambda>d1.
           if sl_loop d1 \<noteq> LoopNone then throw JsError d1 else outer_loop E C now d1))"

subsection \<open>Public methods and timers\<close>

definition releaseRetryWait :: "SyncLoop \<Rightarrow> SyncLoop" where
  "releaseRetryWait d = d\<lparr>sl_releaseRetryWait := False\<rparr>"

text \<open>The loop goes on when the wait of a retry was released.\<close>

definition resume_loop :: "'a externs_scheme \<Rightarrow> sync_config \<Rightarrow> int \<Rightarrow> SyncLoop \<Rightarrow> sync_res" where
  "resume_loop E C now d =
     (if sl_loop d = AwaitRetry \<and> \<not> sl_releaseRetryWait d then outer_loop E C now d else ok d [])"

definition stop_sync :: "SyncLoop \<Rightarrow> sync_res" where
  "stop_sync d =
     (let d0 = d\<lparr>sl_responsesQueue := []\<rparr>
      in if Canceling \<in> set (stateConstraints (sl_syncState d0))
         then and_then (setSyncState Canceling d0) (\<lambda>d1.
              let d2 = releaseRetryWait (stopPing d1)
              in case truthy_str (sl_syncId d2) of
                   None \<Rightarrow> ok d2 []
                 | Some syncId \<Rightarrow> ok (d2\<lparr>sl_forceStopTimer := True\<rparr>) [RpcCancelSync syncId])
         else ok d0 [])"

definition forceStopSyncStreams :: "'a externs_scheme \<Rightarrow> sync_config \<Rightarrow> int \<Rightarrow> SyncLoop \<Rightarrow> sync_res" where
  "forceStopSyncStreams E C now d =
     (if sl_forceStopTimer d then on_next E C now NextDone (d\<lparr>sl_forceStopTimer := False\<rparr>) else ok d [])"

definition onMobileSafariBackgrounded :: "'a externs_scheme \<Rightarrow> sync_config \<Rightarrow> int \<Rightarrow> bool \<Rightarrow> SyncLoop \<Rightarrow> sync_res" where
  "onMobileSafariBackgrounded E C now hidden d =
     (if \<not> cf_isMobileSafari C then ok d []
      else let d1 = d\<lparr>sl_backgrounded := hidden\<rparr>
           in if hidden then ok d1 [] else sync_checkStartTicking E now (releaseRetryWait d1))"

definition ping_fires :: "int \<Rightarrow> string \<Rightarrow> nat \<Rightarrow> SyncLoop \<Rightarrow> sync_res" where
  "ping_fires now nonce t d =
     (if t \<notin> set (sl_pingTimers d) then ok d []
      else
        let d1 = d\<lparr>sl_pingTimers := filter (\<lambda>x. x \<noteq> t) (sl_pingTimers d)\<rparr>
        in if sl_syncState d1 \<noteq> Syncing then ok d1 []
           else case truthy_str (sl_syncId d1) of
                  None \<Rightarrow> ok (sendKeepAlivePings d1) []
                | Some syncId \<Rightarrow>
                    ok (d1\<lparr>sl_nonces := map_set nonce \<lparr>ns_sequence = sl_currentSequence d1, ns_nonce = nonce, ns_pingAt = now,
                              ns_receivedAt = None, ns_duration = None\<rparr> (sl_nonces d1),
                           sl_currentSequence := Suc (sl_currentSequence d1), sl_pings := Suc (sl_pings d1)\<rparr>)
                       [RpcPingSync syncId nonce])"

definition ping_answered :: "'a externs_scheme \<Rightarrow> sync_config \<Rightarrow> int \<Rightarrow> bool \<Rightarrow> SyncLoop \<Rightarrow> sync_res" where
  "ping_answered E C now success d =
     (if sl_pings d = 0 then ok d []
      else let d1 = d\<lparr>sl_pings := sl_pings d - 1\<rparr>
           in if success then ok (if sl_syncState d1 = Syncing then sendKeepAlivePings d1 else d1) []
              else on_next E C now NextError d1)"

definition streamSyncStalled_fires :: "SyncLoop \<Rightarrow> sync_res" where
  "streamSyncStalled_fires d =
     (if \<not> sl_streamSyncStalled d then ok d []
      else ok (d\<lparr>sl_streamSyncStalled := False\<rparr>) (if sl_syncStartedAt d \<noteq> None then [SyncTimedOut] else []))"

datatype sync_op =
    SyStart | SyStop | SyAdd string SyncCookie | SyRemove string | SyHighPriority "string list" | SyOnline bool
  | SyVisibility bool | SyNext next_result | SyForceStop | SyRetryTimer | SyResumeLoop | SyResumeRemoval
  | SyModifyAnswered bool | SyUnpacked | SyTickEnd | SyRecheck | SyPing string nat | SyPingAnswered bool
  | SyDownAnswered nat bool | SyDownRetry nat | SyStalled

definition sync_step :: "'a sign_externs_scheme \<Rightarrow> sync_config \<Rightarrow> int \<times> sync_op \<Rightarrow> SyncLoop \<Rightarrow> sync_res" where
  "sync_step E C nop d =
     (case nop of (now, op) \<Rightarrow>
      case op of
        SyStart \<Rightarrow> createSyncLoop E C now d
      | SyStop \<Rightarrow> stop_sync d
      | SyAdd streamId cookie \<Rightarrow> addStreamToSync E now streamId cookie d
      | SyRemove streamId \<Rightarrow> removeStreamFromSync streamId d
      | SyHighPriority ids \<Rightarrow> ok (d\<lparr>sl_highPriorityIds := set_union [] ids\<rparr>) []
      | SyOnline online \<Rightarrow> ok (if online then releaseRetryWait d else d) []
      | SyVisibility hidden \<Rightarrow> onMobileSafariBackgrounded E C now hidden d
      | SyNext r \<Rightarrow> on_next E C now r d
      | SyForceStop \<Rightarrow> forceStopSyncStreams E C now d
      | SyRetryTimer \<Rightarrow> ok (releaseRetryWait d) []
      | SyResumeLoop \<Rightarrow> resume_loop E C now d
      | SyResumeRemoval \<Rightarrow> resume_removal d
      | SyModifyAnswered success \<Rightarrow> modifySync_answered E now success d
      | SyUnpacked \<Rightarrow> update_unpacked E C d
      | SyTickEnd \<Rightarrow> tick_finally d
      | SyRecheck \<Rightarrow> if sl_recheck d then sync_checkStartTicking E now (d\<lparr>sl_recheck := False\<rparr>) else ok d []
      | SyPing nonce t \<Rightarrow> ping_fires now nonce t d
      | SyPingAnswered success \<Rightarrow> ping_answered E C now success d
      | SyDownAnswered k success \<Rightarrow> syncDown_answered k success d
      | SyDownRetry k \<Rightarrow> syncDown_retried E k d
      | SyStalled \<Rightarrow> streamSyncStalled_fires d)"

section \<open>Properties of the sync loop\<close>

subsection \<open>State changes\<close>

declare and_then_ok [simp del]

text \<open>The state that the reported changes lead to, if each of them is allowed.\<close>

fun follow :: "SyncState \<Rightarrow> sync_out list \<Rightarrow> SyncState option" where
  "follow s [] = Some s"
| "follow s (SyncStateChange t # os) = (if t \<in> set (stateConstraints s) \<and> t \<noteq> s then follow t os else None)"
| "follow s (_ # os) = follow s os"

lemma follow_append: "follow s (os @ os') = (case follow s os of None \<Rightarrow> None | Some t \<Rightarrow> follow t os')"
  by (induction s os rule: follow.induct) auto

lemma follow_silent: "(\<And>t. SyncStateChange t \<notin> set os) \<Longrightarrow> follow s os = Some s"
proof (induction os)
  case (Cons ev os)
  then show ?case by (cases ev) (auto simp: image_iff)
qed simp

definition reports :: "SyncLoop \<Rightarrow> sync_res \<Rightarrow> bool" where
  "reports d r \<longleftrightarrow> follow (sl_syncState d) (outs_of r) = Some (sl_syncState (st_of r))"

named_theorems reporting \<open>operations report the changes of the state\<close>

lemma reports_and_then [reporting]: "reports d r \<Longrightarrow> (\<And>s. reports s (f s)) \<Longrightarrow> reports d (and_then r f)"
  by (cases "exn_of r") (simp_all add: reports_def and_then_sels follow_append)

lemma reports_from: "reports d' r \<Longrightarrow> sl_syncState d' = sl_syncState d \<Longrightarrow> reports d r"
  by (simp add: reports_def)

lemma reports_ok [reporting]:
  "sl_syncState d' = sl_syncState d \<Longrightarrow> (\<And>t. SyncStateChange t \<notin> set os) \<Longrightarrow> reports d (ok d' os)"
  by (simp add: reports_def follow_silent)

lemma reports_throw [reporting]: "sl_syncState d' = sl_syncState d \<Longrightarrow> reports d (throw e d')"
  by (simp add: reports_def)

lemma setSyncState_reports [reporting]: "reports d (setSyncState s d)"
  by (auto simp: setSyncState_def Let_def reports_def)

lemma pure_state [simp]:
  "sl_syncState (stopPing d) = sl_syncState d" "sl_syncState (sendKeepAlivePings d) = sl_syncState d"
  "sl_syncState (releaseRetryWait d) = sl_syncState d" "sl_syncState (onPong now n d) = sl_syncState d"
  "sl_syncState (set_cookie r i c d) = sl_syncState d"
  by (auto simp: stopPing_def sendKeepAlivePings_def releaseRetryWait_def onPong_def set_cookie_def split: option.split)

lemma fold_failed_state:
  "sl_syncState (fold (\<lambda>x d. if x \<in> set (sl_inFlightSyncCookies d)
      then d\<lparr>sl_inFlightSyncCookies := set_del x (sl_inFlightSyncCookies d),
             sl_pendingSyncCookies := sl_pendingSyncCookies d @ [x]\<rparr> else d) xs d) = sl_syncState d"
  by (induction xs arbitrary: d) auto

lemma modifySync_failed_state [simp]: "sl_syncState (modifySync_failed i a b d) = sl_syncState d"
  by (simp add: modifySync_failed_def Let_def fold_failed_state)

lemma update_progress_reports [reporting]: "reports d (update_progress now i d)"
  by (auto simp: update_progress_def Let_def intro!: reporting)

lemma onUpdate_reports [reporting]: "reports d (onUpdate E now r d)"
  by (auto simp: onUpdate_def Let_def split: option.split intro!: reporting)

lemma tick_item_reports: "sl_syncState d' = sl_syncState d \<Longrightarrow> reports d (tick_item E now d')"
  by (auto simp: tick_item_def Let_def split: list.split intro!: reporting intro: reports_from[OF onUpdate_reports])

lemma sync_tick_reports [reporting]: "reports d (sync_tick E now d)"
  by (auto simp: sync_tick_def Let_def intro!: reporting tick_item_reports)

lemma check_reports: "sl_syncState d' = sl_syncState d \<Longrightarrow> reports d (sync_checkStartTicking E now d')"
  by (auto simp: sync_checkStartTicking_def intro!: reporting intro: reports_from[OF sync_tick_reports])

lemma syncStarted_reports [reporting]: "reports d (syncStarted E now i d)"
  by (auto simp: syncStarted_def intro!: reporting check_reports)

lemma syncDown_reports: "sl_syncState d' = sl_syncState d \<Longrightarrow> reports d (syncDown E i p d')"
  by (auto simp: syncDown_def Let_def split: option.split intro!: reporting)

lemma syncClosed_reports [reporting]: "reports d (syncClosed d)"
  by (auto simp: syncClosed_def Let_def intro!: reporting intro: reports_from[OF setSyncState_reports])

lemma handle_response_reports [reporting]: "reports d (handle_response E now v d)"
  by (auto simp: handle_response_def split: SyncOp.split intro!: reporting check_reports syncDown_reports)

lemma loop_finally_reports [reporting]: "reports d (loop_finally d)"
  by (auto simp: loop_finally_def Let_def intro!: reports_and_then reports_ok intro: reports_from[OF setSyncState_reports])

lemma begin_iteration_reports [reporting]: "reports d (begin_iteration E C now d)"
  by (auto simp: begin_iteration_def Let_def intro!: reports_and_then reports_ok intro: reports_from[OF setSyncState_reports])

lemma outer_loop_reports [reporting]: "reports d (outer_loop E C now d)"
  by (auto simp: outer_loop_def intro!: reporting)

lemma attemptRetry_reports [reporting]: "reports d (attemptRetry E C now d)"
  unfolding attemptRetry_def Let_def
  by (auto intro!: reports_and_then reports_ok intro: reports_from[OF setSyncState_reports] reports_from[OF outer_loop_reports])

lemma on_next_reports: "sl_syncState d' = sl_syncState d \<Longrightarrow> reports d (on_next E C now r d')"
proof -
  assume s: "sl_syncState d' = sl_syncState d"
  have "reports d' (on_next E C now r d')"
  proof (cases r)
    case (NextValue v)
    obtain d1 os e where h: "handle_response E now v d' = (d1, os, e)" by (cases "handle_response E now v d'")
    have o: "reports d' (ok d1 os)" using handle_response_reports[of d' E now v] by (simp add: h reports_def)
    have "reports d' (and_then (ok d1 os) (attemptRetry E C now))" "reports d' (and_then (ok d1 os) (\<lambda>d. ok d []))"
      "reports d' (and_then (ok d1 os) (outer_loop E C now))"
      by (auto intro!: reports_and_then o attemptRetry_reports outer_loop_reports reports_ok)
    then show ?thesis
      by (auto simp: on_next_def NextValue h split: option.split intro!: reports_ok)
  qed (auto simp: on_next_def intro!: reporting)
  then show ?thesis by (rule reports_from) (rule s)
qed

lemma createSyncLoop_reports [reporting]: "reports d (createSyncLoop E C now d)"
  by (auto simp: createSyncLoop_def intro!: reporting)

lemma stop_sync_reports [reporting]: "reports d (stop_sync d)"
  by (auto simp: stop_sync_def Let_def split: option.split intro!: reports_and_then reports_ok
      intro: reports_from[OF setSyncState_reports])

lemma removals_report [reporting]: "reports d (removeStreamFromSync i d)" "reports d (resume_removal d)"
  by (auto simp: removeStreamFromSync_def resume_removal_def remove_now_def Let_def split: option.split list.split intro!: reports_ok)

lemma sync_step_reports: "reports d (sync_step E C nop d)"
proof (cases nop)
  case (Pair now op)
  show ?thesis
    by (cases op) (auto simp: Pair sync_step_def addStreamToSync_def onMobileSafariBackgrounded_def forceStopSyncStreams_def
        resume_loop_def modifySync_answered_def update_unpacked_def tick_finally_def ping_fires_def ping_answered_def
        syncDown_answered_def syncDown_retried_def streamSyncStalled_fires_def Let_def
        split: option.split tick_pc.split sum.split prod.split
        intro!: reporting check_reports on_next_reports tick_item_reports syncDown_reports)
qed

subsection \<open>The loop and the state\<close>

text \<open>The comments of the enum \<open>SyncState\<close>: which states have a sync id, and where the loop stands. A loop that has ended may have
  left any state but \<open>Retrying\<close> behind.\<close>

definition core :: "SyncLoop \<Rightarrow> loop_pc \<times> string option \<times> SyncState \<times> nat \<times> bool \<times> bool" where
  "core d = (sl_loop d, sl_syncId d, sl_syncState d, sl_currentRetryCount d, sl_releaseRetryWait d, sl_forceStopTimer d)"

definition sync_inv :: "SyncLoop \<Rightarrow> bool" where
  "sync_inv d \<longleftrightarrow>
     (case sl_syncState d of
        NotSyncing \<Rightarrow> sl_syncId d = None \<and> sl_loop d \<in> {LoopNone, LoopEnded}
      | Starting \<Rightarrow> sl_syncId d = None \<and> sl_loop d \<noteq> LoopNone
      | Syncing \<Rightarrow> sl_syncId d \<noteq> None \<and> sl_loop d \<in> {AwaitNext, LoopEnded}
      | Retrying \<Rightarrow> sl_syncId d = None \<and> sl_loop d = AwaitRetry
      | Canceling \<Rightarrow> sl_loop d \<noteq> LoopNone) \<and>
     (sl_syncState d = Canceling \<longrightarrow> \<not> sl_releaseRetryWait d \<or> sl_loop d \<noteq> AwaitRetry) \<and>
     sl_syncId d \<noteq> Some [] \<and> sl_currentRetryCount d \<le> 7"

lemma sync_inv_core: "core d' = core d \<Longrightarrow> sync_inv d' = sync_inv d"
  by (simp add: core_def sync_inv_def split: SyncState.split)

lemma sync_inv_from: "sync_inv d \<Longrightarrow> core d' = core d \<Longrightarrow> sync_inv d'"
  using sync_inv_core[of d' d] by simp

lemma core_pure [simp]:
  "core (stopPing d) = core d" "core (sendKeepAlivePings d) = core d" "core (onPong now n d) = core d"
  "core (set_cookie r i c d) = core d" "core (d\<lparr>sl_tick := t\<rparr>) = core d" "core (d\<lparr>sl_responsesQueue := q\<rparr>) = core d"
  by (auto simp: core_def stopPing_def sendKeepAlivePings_def onPong_def set_cookie_def split: option.split)

lemma modifySync_failed_core [simp]: "core (modifySync_failed i a b d) = core d"
proof -
  have "core (fold (\<lambda>x d. if x \<in> set (sl_inFlightSyncCookies d)
      then d\<lparr>sl_inFlightSyncCookies := set_del x (sl_inFlightSyncCookies d),
             sl_pendingSyncCookies := sl_pendingSyncCookies d @ [x]\<rparr> else d) xs d) = core d" for xs
    by (induction xs arbitrary: d) (auto simp: core_def)
  then show ?thesis by (simp add: modifySync_failed_def Let_def core_def)
qed

lemma core_and_then: "core (st_of r) = c \<Longrightarrow> (\<And>s. core s = c \<Longrightarrow> core (st_of (f s)) = c) \<Longrightarrow> core (st_of (and_then r f)) = c"
  by (simp add: st_of_and_then)

lemma onUpdate_core: "core (st_of (onUpdate E now r d)) = core d"
proof -
  have "core (st_of (update_progress now i d)) = core d" for i by (simp add: update_progress_def Let_def core_def)
  then show ?thesis by (auto simp: onUpdate_def Let_def split: option.split intro!: core_and_then)
qed

lemma tick_item_core [simp]: "core (st_of (tick_item E now d)) = core d"
  by (simp add: tick_item_def Let_def onUpdate_core split: list.split)

lemma sync_tick_core: "core (st_of (sync_tick E now d)) = core d"
  by (simp add: sync_tick_def Let_def) (simp add: core_def)

lemma check_core [simp]: "core (st_of (sync_checkStartTicking E now d)) = core d"
  by (simp add: sync_checkStartTicking_def sync_tick_core)

lemma syncDown_core [simp]: "core (st_of (syncDown E i p d)) = core d"
  by (simp add: syncDown_def Let_def core_def split: option.split)

lemma setSyncState_sels:
  "s \<noteq> sl_syncState d \<Longrightarrow> s \<in> set (stateConstraints (sl_syncState d)) \<Longrightarrow>
   core (st_of (setSyncState s d)) = (sl_loop d, sl_syncId d, s, sl_currentRetryCount d, sl_releaseRetryWait d, sl_forceStopTimer d)
   \<and> exn_of (setSyncState s d) = None \<and> sl_streams (st_of (setSyncState s d)) = sl_streams d
   \<and> outs_of (setSyncState s d) = [SyncStateChange s]"
  by (simp add: setSyncState_def Let_def core_def)

text \<open>What the parts of the loop make of it.\<close>

lemma loop_finally_inv:
  assumes "sl_syncState d \<in> {Starting, Syncing} \<longrightarrow> sync_inv d" "sl_syncState d \<noteq> Retrying" "sl_syncState d \<noteq> NotSyncing"
    "sl_currentRetryCount d \<le> 7"
  shows "sync_inv (st_of (loop_finally d))"
  using assms
  by (cases "sl_syncState d") (auto simp: loop_finally_def Let_def st_of_and_then setSyncState_def sync_inv_def stopPing_def)

lemma begin_iteration_inv:
  assumes "sl_syncState d \<in> {Starting, Retrying}" "sl_currentRetryCount d \<le> 7"
  shows "sync_inv (st_of (begin_iteration E C now d))"
  using assms by (auto simp: begin_iteration_def Let_def st_of_and_then setSyncState_def sync_inv_def)

lemma outer_loop_inv:
  assumes "sl_syncState d \<in> {Starting, Retrying, Canceling}" "sl_currentRetryCount d \<le> 7"
  shows "sync_inv (st_of (outer_loop E C now d))"
  using assms begin_iteration_inv[OF _ assms(2)] loop_finally_inv[of d] by (auto simp: outer_loop_def)

lemma attemptRetry_inv:
  assumes "sl_syncState d \<noteq> NotSyncing" "sl_currentRetryCount d \<le> 7" "sl_syncState d = Retrying \<longrightarrow> sl_syncId d = None"
  shows "sync_inv (st_of (attemptRetry E C now d))"
proof -
  have c: "sl_syncId (stopPing d) = sl_syncId d" "sl_currentRetryCount (stopPing d) = sl_currentRetryCount d"
    by (simp_all add: stopPing_def)
  show ?thesis
    using assms outer_loop_inv[of "stopPing d" E C now]
    by (cases "sl_syncState d") (auto simp: attemptRetry_def Let_def and_then_sels setSyncState_def sync_inv_def c)
qed

lemma check_exn [simp]: "exn_of (sync_checkStartTicking E now d) = None"
proof -
  have p: "exn_of (update_progress now i d) = None" for i d by (simp add: update_progress_def Let_def)
  have u: "exn_of (onUpdate E now r d) = None" for r d by (simp add: onUpdate_def Let_def p exn_of_and_then split: option.split)
  have t: "exn_of (tick_item E now d) = None" for d by (simp add: tick_item_def Let_def u split: list.split)
  show ?thesis by (simp add: sync_checkStartTicking_def sync_tick_def Let_def t)
qed

lemma core_sels:
  assumes "core d' = core d"
  shows "sl_loop d' = sl_loop d" "sl_syncId d' = sl_syncId d" "sl_syncState d' = sl_syncState d"
    "sl_currentRetryCount d' = sl_currentRetryCount d" "sl_releaseRetryWait d' = sl_releaseRetryWait d"
    "sl_forceStopTimer d' = sl_forceStopTimer d"
  using assms by (simp_all add: core_def)

text \<open>A response keeps the invariant, or closes the sync and leaves the state \<open>Retrying\<close> to the outer loop.\<close>

definition response_ok :: "sync_res \<Rightarrow> bool" where
  "response_ok r \<longleftrightarrow> exn_of r = None \<and>
     (sync_inv (st_of r) \<and> sl_syncState (st_of r) \<in> {Starting, Syncing, Canceling} \<or>
      sl_syncState (st_of r) = Retrying \<and> sl_currentRetryCount (st_of r) \<le> 7)"

lemma handle_response_core:
  assumes "sync_inv d" "sl_loop d = AwaitNext"
  shows "response_ok (handle_response E now v d)"
proof -
  have st: "sl_syncState d \<in> {Starting, Syncing, Canceling}" "sl_currentRetryCount d \<le> 7"
    using assms by (auto simp: sync_inv_def split: SyncState.splits)
  have keep: "sync_inv d' \<and> sl_syncState d' \<in> {Starting, Syncing, Canceling}" if "core d' = core d" for d'
    using sync_inv_core[OF that] core_sels[OF that] assms st by auto
  have new: "exn_of (syncStarted E now i d) = None \<and> sync_inv (st_of (syncStarted E now i d))
      \<and> sl_syncState (st_of (syncStarted E now i d)) \<in> {Starting, Syncing, Canceling}" if "i \<noteq> []" for i
  proof (cases "sl_syncState d = Starting")
    case True
    let ?d1 = "sendKeepAlivePings ((st_of (setSyncState Syncing d))\<lparr>sl_syncId := Some i, sl_currentRetryCount := 0\<rparr>)"
    have "sl_syncId d = None" using True assms by (simp add: sync_inv_def)
    then have r: "st_of (syncStarted E now i d) = st_of (sync_checkStartTicking E now ?d1)"
        "exn_of (syncStarted E now i d) = None"
      using True by (simp_all add: syncStarted_def and_then_sels setSyncState_def)
    have "core ?d1 = (AwaitNext, Some i, Syncing, 0, sl_releaseRetryWait d, sl_forceStopTimer d)"
      using True assms(2) by (simp add: setSyncState_def core_def sendKeepAlivePings_def)
    then have "core (st_of (syncStarted E now i d)) = (AwaitNext, Some i, Syncing, 0, sl_releaseRetryWait d, sl_forceStopTimer d)"
      unfolding r check_core .
    then show ?thesis using r(2) that by (simp add: core_def sync_inv_def)
  next
    case False
    then have "Syncing \<notin> set (stateConstraints (sl_syncState d))" using st by auto
    then show ?thesis using keep[of d] by (simp add: syncStarted_def)
  qed
  have close: "response_ok (syncClosed d)"
    using st keep[OF core_pure(1)] core_sels(4)[OF core_pure(1), of d]
    by (auto simp: response_ok_def syncClosed_def Let_def setSyncState_def)
  have down: "exn_of (syncDown E i p d) = None" for i p by (simp add: syncDown_def Let_def split: option.split)
  have same: "response_ok r" if "exn_of r = None" "core (st_of r) = core d" for r
    using keep[OF that(2)] that(1) unfolding response_ok_def by blast
  have "i \<noteq> [] \<Longrightarrow> response_ok (syncStarted E now i d)" for i using new[of i] unfolding response_ok_def by blast
  moreover have "response_ok (sync_checkStartTicking E now (d\<lparr>sl_responsesQueue := q\<rparr>))" for q by (rule same) simp_all
  moreover have "response_ok (ok (onPong now n d) [])" for n by (rule same) simp_all
  moreover have "response_ok (syncDown E i p d)" for i p by (rule same) (simp_all add: down)
  moreover have "response_ok (ok d [])" by (rule same) simp_all
  ultimately show ?thesis
    using close by (cases "sr_syncOp v") (simp_all add: handle_response_def)
qed

lemma on_next_value:
  assumes "sl_loop d = AwaitNext" "exn_of (handle_response E now v d) = None"
  shows "on_next E C now (NextValue v) d
    = and_then (ok (st_of (handle_response E now v d)) (outs_of (handle_response E now v d)))
        (if sl_syncState (st_of (handle_response E now v d)) = Syncing \<or> sl_syncState (st_of (handle_response E now v d)) = Starting
         then (\<lambda>d. ok d []) else outer_loop E C now)"
  using assms by (cases "handle_response E now v d") (simp add: on_next_def)

lemma on_next_inv:
  assumes "sync_inv d"
  shows "sync_inv (st_of (on_next E C now r d))"
proof (cases "sl_loop d = AwaitNext")
  case True
  have st: "sl_syncState d \<in> {Starting, Syncing, Canceling}" "sl_currentRetryCount d \<le> 7"
    using assms True by (auto simp: sync_inv_def split: SyncState.splits)
  show ?thesis
  proof (cases r)
    case (NextValue v)
    let ?h = "handle_response E now v d"
    note h = handle_response_core[OF assms True, of E now v, unfolded response_ok_def]
    show ?thesis
    proof (cases "sl_syncState (st_of ?h) = Syncing \<or> sl_syncState (st_of ?h) = Starting")
      case s: True
      have "sync_inv (st_of ?h)" using h s by auto
      then show ?thesis using h s on_next_value[OF True, of E now v C] by (simp add: NextValue st_of_and_then)
    next
      case s: False
      have "sl_syncState (st_of ?h) \<in> {Starting, Retrying, Canceling}" "sl_currentRetryCount (st_of ?h) \<le> 7"
        using h s by (auto simp: sync_inv_def[of "st_of ?h"])
      then have "sync_inv (st_of (outer_loop E C now (st_of ?h)))" by (rule outer_loop_inv)
      then show ?thesis using h s on_next_value[OF True, of E now v C] by (simp add: NextValue st_of_and_then)
    qed
  next
    case NextDone
    then show ?thesis using loop_finally_inv[of d] assms st by (auto simp: on_next_def True)
  next
    case NextError
    then show ?thesis using attemptRetry_inv[of d E C now] st by (auto simp: on_next_def True)
  qed
qed (simp add: on_next_def assms)

lemma createSyncLoop_inv:
  assumes i: "sync_inv d"
  shows "sync_inv (st_of (createSyncLoop E C now d))"
proof (cases "Starting \<in> set (stateConstraints (sl_syncState d))")
  case True
  then have s: "sl_syncState d \<in> {NotSyncing, Retrying}" by (cases "sl_syncState d") auto
  let ?d1 = "d\<lparr>sl_syncState := Starting\<rparr>"
  have "sync_inv (st_of (outer_loop E C now ?d1))" using i by (intro outer_loop_inv) (simp_all add: sync_inv_def)
  moreover have "sync_inv ?d1" if "sl_loop d \<noteq> LoopNone" using i s that by (auto simp: sync_inv_def)
  ultimately show ?thesis using s by (auto simp: createSyncLoop_def setSyncState_def st_of_and_then)
qed (simp add: createSyncLoop_def i)

lemma stop_sync_core:
  assumes "sl_syncState d \<in> {Starting, Syncing, Retrying}"
  shows "core (st_of (stop_sync d)) = (sl_loop d, sl_syncId d, Canceling, sl_currentRetryCount d, False,
      sl_forceStopTimer d \<or> truthy_str (sl_syncId d) \<noteq> None)"
proof -
  have "Canceling \<in> set (stateConstraints (sl_syncState d))" "sl_syncState d \<noteq> Canceling" using assms by auto
  then show ?thesis
    by (simp add: stop_sync_def Let_def setSyncState_def and_then_sels releaseRetryWait_def stopPing_def core_def split: option.split)
qed

lemma stop_sync_inv:
  assumes i: "sync_inv d"
  shows "sync_inv (st_of (stop_sync d))"
proof (cases "Canceling \<in> set (stateConstraints (sl_syncState d))")
  case True
  then have s: "sl_syncState d \<in> {Starting, Syncing, Retrying}" by (cases "sl_syncState d") simp_all
  have l: "sl_loop d \<noteq> LoopNone \<and> sl_syncId d \<noteq> Some [] \<and> sl_currentRetryCount d \<le> 7" using i s unfolding sync_inv_def by auto
  show ?thesis using l stop_sync_core[OF s] by (simp add: core_def sync_inv_def)
next
  case False
  then have "core (st_of (stop_sync d)) = core d" by (simp add: stop_sync_def)
  with i show ?thesis by (rule sync_inv_from)
qed

lemma releaseRetryWait_inv: "sync_inv d \<Longrightarrow> sync_inv (releaseRetryWait d)"
  by (auto simp: sync_inv_def releaseRetryWait_def split: SyncState.splits)

lemma resume_loop_inv: "sync_inv d \<Longrightarrow> sync_inv (st_of (resume_loop E C now d))"
  using outer_loop_inv[of d E C now] by (auto simp: resume_loop_def sync_inv_def[of d] split: SyncState.splits)

text \<open>The methods that do not move the loop.\<close>

lemma plain_core:
  "core (st_of (addStreamToSync E now i c d)) = core d"
  "core (st_of (removeStreamFromSync i d)) = core d"
  "core (st_of (resume_removal d)) = core d"
  "core (st_of (modifySync_answered E now b d)) = core d"
  "core (st_of (update_unpacked E' C d)) = core d"
  "core (st_of (tick_finally d)) = core d"
  "core (st_of (ping_fires now n t d)) = core d"
  "core (st_of (syncDown_answered k b d)) = core d"
  "core (st_of (syncDown_retried E k d)) = core d"
  "core (st_of (streamSyncStalled_fires d)) = core d"
  "core (st_of (sync_checkStartTicking E now (d\<lparr>sl_recheck := b\<rparr>))) = core d"
proof -
  have r: "core (st_of (remove_now i d)) = core d" for i d by (simp add: remove_now_def Let_def core_def)
  show "core (st_of (addStreamToSync E now i c d)) = core d"
    by (simp add: addStreamToSync_def) (simp add: core_def)
  show "core (st_of (removeStreamFromSync i d)) = core d"
    using r[of i d] by (simp add: removeStreamFromSync_def split: option.split) (simp add: core_def)
  show "core (st_of (resume_removal d)) = core d"
    by (simp add: resume_removal_def r split: list.split) (simp add: core_def)
  show "core (st_of (modifySync_answered E now b d)) = core d"
    by (simp add: modifySync_answered_def split: option.split tick_pc.split)
  show "core (st_of (update_unpacked E' C d)) = core d"
    by (simp add: update_unpacked_def Let_def split: option.split tick_pc.split sum.split)
  show "core (st_of (syncDown_retried E k d)) = core d"
    by (simp add: syncDown_retried_def split: prod.split) (simp add: core_def)
  show "core (st_of (sync_checkStartTicking E now (d\<lparr>sl_recheck := b\<rparr>))) = core d"
    by simp (simp add: core_def)
qed (simp_all add: core_def tick_finally_def ping_fires_def Let_def sendKeepAlivePings_def syncDown_answered_def
      streamSyncStalled_fires_def split: option.split)

lemma sync_step_inv:
  assumes i: "sync_inv d"
  shows "sync_inv (st_of (sync_step E C nop d))"
proof -
  obtain now op where nop: "nop = (now, op)" by (cases nop)
  note same = sync_inv_from[OF i]
  note plain = plain_core[THEN same]
  show ?thesis
  proof (cases op)
    case (SyVisibility hidden)
    let ?d1 = "d\<lparr>sl_backgrounded := hidden\<rparr>"
    have "sync_inv ?d1" by (rule same) (simp add: core_def)
    then have "sync_inv (st_of (sync_checkStartTicking E now (releaseRetryWait ?d1)))"
      using releaseRetryWait_inv sync_inv_from[OF _ check_core] by blast
    with \<open>sync_inv ?d1\<close> i show ?thesis
      by (cases hidden) (simp_all add: nop SyVisibility sync_step_def onMobileSafariBackgrounded_def Let_def)
  next
    case SyForceStop
    have "sync_inv (d\<lparr>sl_forceStopTimer := False\<rparr>)" using i by (simp add: sync_inv_def split: SyncState.splits)
    then show ?thesis using i by (simp add: nop SyForceStop sync_step_def forceStopSyncStreams_def on_next_inv)
  next
    case (SyPingAnswered success)
    let ?d1 = "d\<lparr>sl_pings := sl_pings d - 1\<rparr>"
    have "sync_inv ?d1" "sync_inv (sendKeepAlivePings ?d1)" by (rule same, simp add: core_def sendKeepAlivePings_def)+
    then show ?thesis using i by (simp add: nop SyPingAnswered sync_step_def ping_answered_def Let_def on_next_inv)
  next
    case (SyHighPriority ids)
    show ?thesis by (rule same) (simp add: nop SyHighPriority sync_step_def core_def)
  qed (simp_all add: nop sync_step_def plain i createSyncLoop_inv stop_sync_inv releaseRetryWait_inv resume_loop_inv on_next_inv)
qed

interpretation syncloop: component sync_inv "sync_step E C" for E C
  by unfold_locales (rule sync_step_inv)

fun sync_run :: "'a sign_externs_scheme \<Rightarrow> sync_config \<Rightarrow> (int \<times> sync_op) list \<Rightarrow> SyncLoop \<Rightarrow> SyncLoop \<times> sync_out list" where
  "sync_run E C [] d = (d, [])"
| "sync_run E C (nop # nops) d =
     (fst (sync_run E C nops (st_of (sync_step E C nop d))),
      outs_of (sync_step E C nop d) @ snd (sync_run E C nops (st_of (sync_step E C nop d))))"

lemma sync_run_state: "fst (sync_run E C nops d) = fold (\<lambda>nop s. st_of (sync_step E C nop s)) nops d"
  by (induction nops arbitrary: d) auto

lemma sync_run_append:
  "sync_run E C (nops @ nops') d
   = (fst (sync_run E C nops' (fst (sync_run E C nops d))),
      snd (sync_run E C nops d) @ snd (sync_run E C nops' (fst (sync_run E C nops d))))"
  by (induction nops arbitrary: d) auto

lemma sync_run_inv: "sync_inv d \<Longrightarrow> sync_inv (fst (sync_run E C nops d))"
  unfolding sync_run_state by (rule syncloop.run_inv)

lemma sync_run_reports: "follow (sl_syncState d) (snd (sync_run E C nops d)) = Some (sl_syncState (fst (sync_run E C nops d)))"
proof (induction nops arbitrary: d)
  case (Cons nop nops)
  have "follow (sl_syncState d) (outs_of (sync_step E C nop d)) = Some (sl_syncState (st_of (sync_step E C nop d)))"
    using sync_step_reports[of d E C nop] by (simp add: reports_def)
  then show ?case using Cons.IH by (simp add: follow_append)
qed simp

lemma new_SyncLoop_inv: "sync_inv (new_SyncLoop E cookies hp)" "sl_syncState (new_SyncLoop E cookies hp) = NotSyncing"
  by (simp_all add: sync_inv_def new_SyncLoop_def)

text \<open>
  C3. The sync state machine. Whatever the node, the timers and the callers do, in any order: every change of the state that the
  loop reports is one that \<open>stateConstraints\<close> allows, and the reported changes lead to its state; while it is retrying or
  starting, or not syncing, it has no sync id, and while it is syncing it has one; it waits for a retry only when retrying,
  canceled, or started a second time; and the delay of a retry never exceeds 128 seconds.\<close>

theorem sync_state_machine:
  "let d = fst (sync_run E C nops (new_SyncLoop E cookies hp))
   in follow NotSyncing (snd (sync_run E C nops (new_SyncLoop E cookies hp))) = Some (sl_syncState d) \<and>
      (case sl_syncState d of
         NotSyncing \<Rightarrow> sl_syncId d = None \<and> sl_loop d \<in> {LoopNone, LoopEnded}
       | Starting \<Rightarrow> sl_syncId d = None \<and> sl_loop d \<noteq> LoopNone
       | Syncing \<Rightarrow> sl_syncId d \<noteq> None \<and> sl_loop d \<in> {AwaitNext, LoopEnded}
       | Retrying \<Rightarrow> sl_syncId d = None \<and> sl_loop d = AwaitRetry
       | Canceling \<Rightarrow> sl_loop d \<noteq> LoopNone) \<and>
      2 ^ sl_currentRetryCount d * 1000 \<le> (128000 :: nat)"
proof -
  let ?d = "fst (sync_run E C nops (new_SyncLoop E cookies hp))"
  have i: "sync_inv ?d" by (rule sync_run_inv[OF new_SyncLoop_inv(1)])
  have "2 ^ sl_currentRetryCount ?d \<le> (2 :: nat) ^ 7"
    by (rule power_increasing) (use i in \<open>simp_all add: sync_inv_def\<close>)
  moreover have "follow NotSyncing (snd (sync_run E C nops (new_SyncLoop E cookies hp))) = Some (sl_syncState ?d)"
    using sync_run_reports[of "new_SyncLoop E cookies hp" E C nops] by (simp add: new_SyncLoop_inv)
  ultimately show ?thesis using i unfolding Let_def sync_inv_def by simp
qed

subsection \<open>Ending the sync\<close>

text \<open>A loop that is to be canceled and still waits.\<close>

definition closing :: "SyncLoop \<Rightarrow> bool" where
  "closing d \<longleftrightarrow> sl_syncState d = Canceling \<and> sl_loop d \<in> {AwaitNext, AwaitRetry} \<and> \<not> sl_releaseRetryWait d"

definition closed :: "SyncLoop \<Rightarrow> bool" where
  "closed d \<longleftrightarrow> sl_syncState d = NotSyncing \<and> sl_loop d = LoopEnded \<and> sl_syncId d = None"

lemma closing_core: "core d' = core d \<Longrightarrow> closing d' = closing d" "core d' = core d \<Longrightarrow> closed d' = closed d"
  by (simp_all add: core_def closing_def closed_def)

lemma loop_finally_closes:
  assumes "sl_syncState d = Canceling"
  shows "closed (st_of (loop_finally d))" "sl_streams (st_of (loop_finally d)) = []"
    "set (outs_of (loop_finally d)) = {SyncStateChange NotSyncing, SyncActive False} \<union> StreamStopped ` fst ` set (sl_streams d)"
  using assms by (auto simp: loop_finally_def Let_def and_then_sels setSyncState_def closed_def stopPing_def)

lemma attemptRetry_closes: "sl_syncState d = Canceling \<Longrightarrow> attemptRetry E C now d = loop_finally (stopPing d)"
  by (simp add: attemptRetry_def outer_loop_def)

text \<open>Every response in this phase ends the loop as well.\<close>

lemma handle_response_canceling:
  assumes "sl_syncState d = Canceling"
  shows "core (st_of (handle_response E now v d)) = core d" "exn_of (handle_response E now v d) = None"
proof -
  have "exn_of (syncDown E i p d) = None" for i p by (simp add: syncDown_def Let_def split: option.split)
  then show "core (st_of (handle_response E now v d)) = core d" "exn_of (handle_response E now v d) = None"
    using assms by (cases "sr_syncOp v"; simp add: handle_response_def syncStarted_def syncClosed_def Let_def)+
qed

lemma on_next_closes:
  assumes "sl_syncState d = Canceling" "sl_loop d = AwaitNext"
  shows "closed (st_of (on_next E C now r d))"
proof (cases r)
  case (NextValue v)
  note h = handle_response_canceling[OF assms(1), of E now v]
  have "sl_syncState (st_of (handle_response E now v d)) = Canceling" using core_sels(3)[OF h(1)] assms(1) by simp
  then show ?thesis
    using on_next_value[OF assms(2) h(2)] by (simp add: NextValue st_of_and_then outer_loop_def loop_finally_closes)
qed (simp_all add: on_next_def assms loop_finally_closes attemptRetry_closes)

lemma resume_loop_closes:
  "sl_syncState d = Canceling \<Longrightarrow> sl_loop d = AwaitRetry \<Longrightarrow> \<not> sl_releaseRetryWait d \<Longrightarrow> closed (st_of (resume_loop E C now d))"
  by (simp add: resume_loop_def outer_loop_def loop_finally_closes)

text \<open>The operations that can move the loop.\<close>

definition loop_op :: "sync_op \<Rightarrow> bool" where
  "loop_op op \<longleftrightarrow> (case op of SyStart \<Rightarrow> True | SyStop \<Rightarrow> True | SyOnline _ \<Rightarrow> True | SyVisibility _ \<Rightarrow> True | SyNext _ \<Rightarrow> True
     | SyForceStop \<Rightarrow> True | SyRetryTimer \<Rightarrow> True | SyResumeLoop \<Rightarrow> True | SyPingAnswered _ \<Rightarrow> True | _ \<Rightarrow> False)"

lemma plain_step_core: "\<not> loop_op op \<Longrightarrow> core (st_of (sync_step E C (now, op) d)) = core d"
  by (cases op) (simp_all add: loop_op_def sync_step_def plain_core del: check_core, simp add: core_def)

definition ending :: "loop_pc \<Rightarrow> bool \<Rightarrow> SyncLoop \<Rightarrow> bool" where
  "ending pc forced d \<longleftrightarrow> closed d \<or> closing d \<and> sl_loop d = pc \<and> (forced \<and> pc = AwaitNext \<longrightarrow> sl_forceStopTimer d)"

lemma ending_core: "core d' = core d \<Longrightarrow> ending pc f d \<Longrightarrow> ending pc f d'"
  by (simp add: ending_def core_def closing_def closed_def)

lemma ending_on_next: "ending pc f d \<Longrightarrow> ending pc f (st_of (on_next E C now r d))"
proof (cases "sl_loop d = AwaitNext")
  case True
  moreover assume "ending pc f d"
  ultimately have "sl_syncState d = Canceling" by (auto simp: ending_def closed_def closing_def)
  then show ?thesis by (simp add: ending_def on_next_closes[OF _ True])
qed (simp add: on_next_def)

lemma ending_release: "ending pc f d \<Longrightarrow> ending pc f (releaseRetryWait d)"
  by (auto simp: ending_def closing_def closed_def releaseRetryWait_def)

lemma ending_step:
  assumes e: "ending pc f d" and op: "op \<noteq> SyStart"
  shows "ending pc f (st_of (sync_step E C (now, op) d))"
proof (cases "loop_op op")
  case True
  have stop: "core (st_of (stop_sync d)) = core d"
    using e by (auto simp: stop_sync_def ending_def closing_def closed_def)
  show ?thesis
  proof (cases op)
    case (SyVisibility hidden)
    have b: "ending pc f (d\<lparr>sl_backgrounded := hidden\<rparr>)" by (rule ending_core[OF _ e]) (simp add: core_def)
    have "ending pc f (st_of (sync_checkStartTicking E now (releaseRetryWait (d\<lparr>sl_backgrounded := hidden\<rparr>))))"
      by (rule ending_core[OF check_core ending_release[OF b]])
    with b e show ?thesis
      by (cases hidden) (simp_all add: SyVisibility sync_step_def onMobileSafariBackgrounded_def Let_def)
  next
    case SyForceStop
    show ?thesis
    proof (cases "sl_loop d = AwaitNext \<and> sl_forceStopTimer d")
      case True
      then have c: "closed d \<or> sl_syncState d = Canceling" using e by (auto simp: ending_def closing_def)
      have "closed (st_of (on_next E C now NextDone (d\<lparr>sl_forceStopTimer := False\<rparr>)))"
        using c True by (auto simp: closed_def[of d] intro!: on_next_closes)
      with True show ?thesis by (simp add: SyForceStop sync_step_def forceStopSyncStreams_def ending_def)
    next
      case False
      then show ?thesis
        using e by (auto simp: SyForceStop sync_step_def forceStopSyncStreams_def on_next_def ending_def closing_def closed_def)
    qed
  next
    case (SyPingAnswered success)
    let ?d1 = "d\<lparr>sl_pings := sl_pings d - 1\<rparr>"
    have "ending pc f ?d1" by (rule ending_core[OF _ e]) (simp add: core_def)
    then have "ending pc f ?d1" "ending pc f (sendKeepAlivePings ?d1)" "ending pc f (st_of (on_next E C now NextError ?d1))"
      by (simp_all add: ending_on_next ending_core[OF core_pure(2)])
    then show ?thesis using e by (simp add: SyPingAnswered sync_step_def ping_answered_def Let_def)
  next
    case SyResumeLoop
    show ?thesis
      using e by (auto simp: SyResumeLoop sync_step_def resume_loop_def ending_def closing_def closed_def[of d] outer_loop_def
          loop_finally_closes)
  qed (use True e op in \<open>simp_all add: loop_op_def sync_step_def ending_on_next ending_release ending_core[OF stop]\<close>)
next
  case False
  then show ?thesis using ending_core[OF plain_step_core e] by blast
qed

lemma ending_run:
  "ending pc f d \<Longrightarrow> \<forall>nop \<in> set nops. snd nop \<noteq> SyStart \<Longrightarrow> ending pc f (fst (sync_run E C nops d))"
proof (induction nops arbitrary: d)
  case (Cons nop nops)
  then show ?case using ending_step[of pc f d "snd nop" E C "fst nop"] by simp
qed simp

text \<open>
  C22. Stopping ends the sync. After \<open>stop\<close>, from every state in which the loop runs, whatever else happens and unless the loop is
  started again, the next event the loop waits for ends it: the end of the wait when it was waiting for a retry, otherwise
  any response, error or end of the stream of responses, and, if it was syncing, the timer of five seconds. The loop is
  then not syncing, and has no sync id.\<close>

theorem stop_ends_sync:
  assumes "d = fst (sync_run E C nops (new_SyncLoop E cookies hp))"
    and "sl_syncState d \<in> {Starting, Syncing, Retrying}" "sl_loop d \<in> {AwaitNext, AwaitRetry}"
    and "\<forall>nop \<in> set nops'. snd nop \<noteq> SyStart"
    and "ev \<in> (if sl_loop d = AwaitRetry then {SyResumeLoop}
               else range SyNext \<union> (if sl_syncState d = Syncing then {SyForceStop} else {}))"
    and "d' = fst (sync_run E C ((t, SyStop) # nops' @ [(t', ev)]) d)"
  shows "sl_syncState d' = NotSyncing \<and> sl_loop d' = LoopEnded \<and> sl_syncId d' = None"
proof -
  let ?f = "sl_syncState d = Syncing" and ?d1 = "st_of (stop_sync d)"
  have i: "sync_inv d" unfolding assms(1) by (rule sync_run_inv[OF new_SyncLoop_inv(1)])
  have tr: "?f \<Longrightarrow> truthy_str (sl_syncId d) \<noteq> None" using i by (auto simp: sync_inv_def truthy_str_def split: list.split)
  have "ending (sl_loop d) ?f ?d1"
    using stop_sync_core[OF assms(2)] assms(3) tr by (auto simp: core_def ending_def closing_def)
  from ending_run[OF this assms(4), of E C]
  have e: "ending (sl_loop d) ?f (fst (sync_run E C nops' ?d1))" .
  let ?d2 = "fst (sync_run E C nops' ?d1)"
  have d': "d' = st_of (sync_step E C (t', ev) ?d2)"
    unfolding assms(6) by (simp add: sync_run_append sync_step_def)
  have "closed d'"
  proof (cases "closed ?d2")
    case True
    then show ?thesis using assms(5) unfolding d'
      by (auto simp: sync_step_def closed_def on_next_def forceStopSyncStreams_def resume_loop_def split: if_splits)
  next
    case False
    with e have "sl_syncState ?d2 = Canceling" "sl_loop ?d2 = sl_loop d" "\<not> sl_releaseRetryWait ?d2"
      "?f \<Longrightarrow> sl_loop d = AwaitNext \<Longrightarrow> sl_forceStopTimer ?d2"
      by (simp_all add: ending_def closing_def)
    then show ?thesis
      using assms(3,5) unfolding d'
      by (auto simp: sync_step_def forceStopSyncStreams_def on_next_closes resume_loop_closes split: if_splits)
  qed
  then show ?thesis by (simp add: closed_def)
qed

subsection \<open>When the node ends the responses\<close>

text \<open>A loop that has ended although it was not canceled.\<close>

definition stranded :: "SyncLoop \<Rightarrow> bool" where
  "stranded d \<longleftrightarrow> sl_loop d = LoopEnded \<and> sl_syncState d \<in> {Starting, Syncing, Canceling}"

lemma stranded_core: "core d' = core d \<Longrightarrow> stranded d \<Longrightarrow> stranded d'"
  by (simp add: stranded_def core_def)

lemma stranded_step:
  assumes s: "stranded d"
  shows "stranded (st_of (sync_step E C (now, op) d))"
proof (cases "loop_op op")
  case True
  have n: "on_next E C now r d' = ok d' []" if "sl_loop d' = LoopEnded" for r d' using that by (simp add: on_next_def)
  have l: "sl_loop d = LoopEnded" using s by (simp add: stranded_def)
  have start: "createSyncLoop E C now d = throw JsError d"
    using s by (auto simp: createSyncLoop_def stranded_def)
  have stop: "stranded (st_of (stop_sync d))"
  proof (cases "sl_syncState d = Canceling")
    case True
    then have "core (st_of (stop_sync d)) = core d" by (simp add: stop_sync_def)
    then show ?thesis using s by (rule stranded_core)
  next
    case False
    then have "sl_syncState d \<in> {Starting, Syncing, Retrying}" using s by (auto simp: stranded_def)
    from stop_sync_core[OF this] show ?thesis using l by (simp add: core_def stranded_def)
  qed
  show ?thesis
  proof (cases op)
    case (SyVisibility hidden)
    have r: "stranded (releaseRetryWait (d\<lparr>sl_backgrounded := hidden\<rparr>))" "stranded (d\<lparr>sl_backgrounded := hidden\<rparr>)"
      using s by (simp_all add: stranded_def releaseRetryWait_def)
    have "stranded (st_of (sync_checkStartTicking E now (releaseRetryWait (d\<lparr>sl_backgrounded := hidden\<rparr>))))"
      by (rule stranded_core[OF check_core r(1)])
    with r(2) s show ?thesis by (cases hidden) (simp_all add: SyVisibility sync_step_def onMobileSafariBackgrounded_def Let_def)
  qed (use True s l in \<open>simp_all add: loop_op_def sync_step_def start stop n forceStopSyncStreams_def ping_answered_def Let_def
      resume_loop_def, auto simp: stranded_def releaseRetryWait_def sendKeepAlivePings_def\<close>)
next
  case False
  then show ?thesis using stranded_core[OF plain_step_core s] by blast
qed

lemma stranded_run: "stranded d \<Longrightarrow> stranded (fst (sync_run E C nops d))"
proof (induction nops arbitrary: d)
  case (Cons nop nops)
  then show ?case using stranded_step[of d E C "fst nop" "snd nop"] by simp
qed simp

text \<open>
  C36. When the node ends the stream of responses without an error, the loop ends for good while its state is still starting or
  syncing: no later call, \<open>start\<close> and \<open>stop\<close> included, and no event makes it wait for responses or a retry again, and
  it never reaches the state \<open>NotSyncing\<close>.\<close>

theorem ended_responses_strand_loop:
  assumes "sl_loop d = AwaitNext" "sl_syncState d \<in> {Starting, Syncing}"
    and "d' = fst (sync_run E C ((t, SyNext NextDone) # nops) d)"
  shows "sl_loop d' = LoopEnded \<and> sl_syncState d' \<in> {Starting, Syncing, Canceling}"
proof -
  have "stranded (st_of (sync_step E C (t, SyNext NextDone) d))"
    using assms(1,2) by (auto simp: sync_step_def on_next_def loop_finally_def Let_def stranded_def)
  from stranded_run[OF this, of E C nops] show ?thesis using assms(3) by (simp add: stranded_def)
qed

text \<open>When the node closes the sync, the loop does not go through a retry: in the same turn, without a delay, without telling that
  the sync is inactive and without resetting a stream, it changes its state to \<open>Retrying\<close> and to \<open>Starting\<close> and opens a
  new call.\<close>

theorem closed_sync_reopened_at_once:
  assumes "sl_loop d = AwaitNext" "sl_syncState d \<in> {Starting, Syncing}" "sr_syncOp v = SYNC_CLOSE" "sr_syncId v \<noteq> []"
    and "r = sync_step E C (t, SyNext (NextValue v)) d"
  shows "exn_of r = None \<and> sl_loop (st_of r) = AwaitNext \<and> sl_syncState (st_of r) = Starting \<and>
    (\<exists>cookies. outs_of r = [SyncStateChange Retrying, SyncStateChange Starting, RpcSyncStreams cookies])"
proof -
  have h: "handle_response E t v d = (st_of (setSyncState Retrying (stopPing d)), [SyncStateChange Retrying], None)"
    using assms(2-4) by (auto simp: handle_response_def syncClosed_def Let_def setSyncState_def ok_def)
  have s: "sl_syncState (st_of (setSyncState Retrying (stopPing d))) = Retrying"
    using assms(2) by (auto simp: setSyncState_def)
  show ?thesis
    using assms(1) s
    by (simp add: assms(5) sync_step_def on_next_def h outer_loop_def begin_iteration_def Let_def and_then_sels setSyncState_def[of Starting])
qed

subsection \<open>Streams stay requested\<close>

text \<open>The streams of the loop, those that wait to be requested from the node or have been requested and not heard of, and the
  stream a response is about.\<close>

definition stream_ids :: "SyncLoop \<Rightarrow> string set" where
  "stream_ids d = fst ` set (sl_streams d)"

definition requested :: "SyncLoop \<Rightarrow> string set" where
  "requested d = set (sl_pendingSyncCookies d) \<union> set (sl_inFlightSyncCookies d)"

definition response_stream :: "'a externs_scheme \<Rightarrow> SyncStreamsResponse \<Rightarrow> string option" where
  "response_stream E res = map_option (\<lambda>ss. streamIdAsString E (Bytes (case sk_nextSyncCookie ss of None \<Rightarrow> [] | Some c \<Rightarrow> sc_streamId c)))
     (sr_stream res)"

definition forgets_only :: "string set \<Rightarrow> SyncLoop \<Rightarrow> SyncLoop \<Rightarrow> bool" where
  "forgets_only H d d' \<longleftrightarrow> (\<forall>s \<in> stream_ids d'. (s \<in> stream_ids d \<longrightarrow> s \<in> requested d) \<longrightarrow> s \<in> requested d' \<or> s \<in> H)"

lemma forgets_trans: "forgets_only H d d' \<Longrightarrow> forgets_only H d' d'' \<Longrightarrow> forgets_only H d d''"
  unfolding forgets_only_def by blast

lemma forgets_mono: "forgets_only H d d' \<Longrightarrow> H \<subseteq> H' \<Longrightarrow> forgets_only H' d d'"
  unfolding forgets_only_def by blast

lemma forgets_same:
  "sl_streams d' = sl_streams d \<Longrightarrow> requested d' = requested d \<Longrightarrow> forgets_only H d d'"
  unfolding forgets_only_def stream_ids_def by auto

lemma forgets_and_then:
  "forgets_only H d (st_of r) \<Longrightarrow> (\<And>s. s = st_of r \<Longrightarrow> forgets_only H s (st_of (f s))) \<Longrightarrow> forgets_only H d (st_of (and_then r f))"
  by (auto simp: st_of_and_then intro: forgets_trans)

lemma requested_frame [simp]:
  "requested (d\<lparr>sl_tick := a\<rparr>) = requested d" "requested (d\<lparr>sl_responsesQueue := b\<rparr>) = requested d"
  "requested (d\<lparr>sl_syncState := c\<rparr>) = requested d" "requested (d\<lparr>sl_streams := e\<rparr>) = requested d"
  "requested (d\<lparr>sl_recheck := f\<rparr>) = requested d" "requested (d\<lparr>sl_pendingStreamsToDelete := g\<rparr>) = requested d"
  "requested (d\<lparr>sl_highPriorityIds := h\<rparr>) = requested d" "requested (d\<lparr>sl_backgrounded := f\<rparr>) = requested d"
  "requested (d\<lparr>sl_pings := n\<rparr>) = requested d" "requested (d\<lparr>sl_waiting := g\<rparr>) = requested d"
  "requested (d\<lparr>sl_resumed := g\<rparr>) = requested d" "requested (d\<lparr>sl_streamSyncStalled := f\<rparr>) = requested d"
  "requested (d\<lparr>sl_downCalls := i\<rparr>) = requested d" "requested (d\<lparr>sl_downTimers := i\<rparr>) = requested d"
  "requested (stopPing d) = requested d" "requested (sendKeepAlivePings d) = requested d"
  "requested (releaseRetryWait d) = requested d" "requested (onPong now m d) = requested d"
  "requested (set_cookie r j k d) = requested d" "requested (d\<lparr>sl_forceStopTimer := f\<rparr>) = requested d"
  by (auto simp: requested_def stopPing_def sendKeepAlivePings_def releaseRetryWait_def onPong_def set_cookie_def split: option.split)

lemma streams_frame [simp]:
  "sl_streams (stopPing d) = sl_streams d" "sl_streams (sendKeepAlivePings d) = sl_streams d"
  "sl_streams (releaseRetryWait d) = sl_streams d" "sl_streams (onPong now m d) = sl_streams d"
  by (auto simp: stopPing_def sendKeepAlivePings_def releaseRetryWait_def onPong_def split: option.split)

lemma modifySync_failed_requested [simp]:
  "requested (modifySync_failed i a b d) = requested d" "sl_streams (modifySync_failed i a b d) = sl_streams d"
  "sl_responsesQueue (modifySync_failed i a b d) = sl_responsesQueue d"
proof -
  let ?f = "\<lambda>x d. if x \<in> set (sl_inFlightSyncCookies d)
      then d\<lparr>sl_inFlightSyncCookies := set_del x (sl_inFlightSyncCookies d),
             sl_pendingSyncCookies := sl_pendingSyncCookies d @ [x]\<rparr> else d"
  have "requested (fold ?f xs d) = requested d \<and> sl_streams (fold ?f xs d) = sl_streams d
      \<and> sl_responsesQueue (fold ?f xs d) = sl_responsesQueue d" for xs
    by (induction xs arbitrary: d) (auto simp: requested_def)
  then show "requested (modifySync_failed i a b d) = requested d" "sl_streams (modifySync_failed i a b d) = sl_streams d"
    "sl_responsesQueue (modifySync_failed i a b d) = sl_responsesQueue d"
    by (simp_all add: modifySync_failed_def Let_def)
qed

lemma set_del_empty: "set_del x xs = [] \<Longrightarrow> y \<in> set xs \<Longrightarrow> y = x"
  using set_set_del[of x xs] by auto

lemma update_progress_forgets: "forgets_only {i} d (st_of (update_progress now i d))"
  by (auto simp: update_progress_def Let_def forgets_only_def requested_def stream_ids_def dest: set_del_empty)

lemma onUpdate_forgets: "forgets_only (set_option (response_stream E r)) d (st_of (onUpdate E now r d))"
proof (cases "sr_stream r")
  case (Some ss)
  let ?i = "streamIdAsString E (Bytes (case sk_nextSyncCookie ss of None \<Rightarrow> [] | Some c \<Rightarrow> sc_streamId c))"
  have h: "set_option (response_stream E r) = {?i}" by (simp add: response_stream_def Some)
  have "forgets_only {?i} d (st_of (and_then (update_progress now ?i d) (\<lambda>d1. ok (d1\<lparr>sl_tick := g d1\<rparr>) [])))" for g
    by (rule forgets_and_then[OF update_progress_forgets]) (simp add: forgets_same)
  then show ?thesis unfolding h by (auto simp: onUpdate_def Some Let_def forgets_same)
qed (simp add: onUpdate_def forgets_same)

definition queue_streams :: "'a externs_scheme \<Rightarrow> SyncLoop \<Rightarrow> string set" where
  "queue_streams E d = (\<Union>item \<in> set (sl_responsesQueue d). set_option (response_stream E item))"

lemma tick_item_forgets: "forgets_only (queue_streams E d) d (st_of (tick_item E now d))"
proof (cases "sl_responsesQueue d")
  case (Cons item rest)
  have "forgets_only (queue_streams E d) (d\<lparr>sl_responsesQueue := rest\<rparr>)
      (st_of (onUpdate E now item (d\<lparr>sl_responsesQueue := rest\<rparr>)))"
    by (rule forgets_mono[OF onUpdate_forgets]) (auto simp: queue_streams_def Cons)
  then have "forgets_only (queue_streams E d) d (st_of (onUpdate E now item (d\<lparr>sl_responsesQueue := rest\<rparr>)))"
    by (rule forgets_trans[rotated]) (simp add: forgets_same)
  then show ?thesis by (simp add: tick_item_def Cons Let_def forgets_same)
qed (simp add: tick_item_def forgets_same)

lemma sync_tick_forgets: "forgets_only (queue_streams E d) d (st_of (sync_tick E now d))"
proof -
  have a: "set (take n xs) \<union> set (drop n xs) = set xs" for n and xs :: "string list"
    by (metis append_take_drop_id set_append)
  have moved: "requested (d\<lparr>sl_pendingSyncCookies := drop n (sort_key k (sl_pendingSyncCookies d)), sl_pendingStreamsToDelete := p,
      sl_inFlightSyncCookies := fold set_add (take n (sort_key k (sl_pendingSyncCookies d))) (sl_inFlightSyncCookies d)\<rparr>) = requested d"
    for n p and k :: "string \<Rightarrow> nat"
    using a[of n "sort_key k (sl_pendingSyncCookies d)"] by (auto simp: requested_def set_fold_set_add)
  have item: "forgets_only (queue_streams E d) d (st_of (tick_item E now d'))"
    if "requested d' = requested d" "sl_streams d' = sl_streams d" "sl_responsesQueue d' = sl_responsesQueue d" for d'
    using forgets_trans[OF forgets_same[OF that(2,1)] tick_item_forgets[of E d' now, unfolded queue_streams_def that(3)]]
    by (simp add: queue_streams_def)
  show ?thesis by (simp add: sync_tick_def Let_def moved item forgets_same)
qed

lemma check_forgets: "forgets_only (queue_streams E d) d (st_of (sync_checkStartTicking E now d))"
  by (simp add: sync_checkStartTicking_def sync_tick_forgets forgets_same)

lemma check_forgets_from:
  assumes "forgets_only H d d'" "queue_streams E d' \<subseteq> H"
  shows "forgets_only H d (st_of (sync_checkStartTicking E now d'))"
  by (rule forgets_trans[OF assms(1) forgets_mono[OF check_forgets assms(2)]])

lemma setSyncState_forgets: "forgets_only H d (st_of (setSyncState s d))"
  by (simp add: setSyncState_def forgets_same Let_def)

lemma set_cookie_forgets: "forgets_only H d (set_cookie r i k d)"
proof -
  have "stream_ids (set_cookie r i k d) = stream_ids d"
    using map_get_None_iff[of "sl_streams d" i] by (auto simp: stream_ids_def set_cookie_def insert_absorb split: option.split)
  then show ?thesis by (simp add: forgets_only_def)
qed

lemma addStreamToSync_forgets: "forgets_only (queue_streams E d) d (st_of (addStreamToSync E now i c d))"
proof -
  have "forgets_only H d (d\<lparr>sl_pendingStreamsToDelete := p, sl_streams := map_set i r (sl_streams d),
      sl_pendingSyncCookies := sl_pendingSyncCookies d @ [i], sl_nextRef := n\<rparr>)" for H p r n
    by (auto simp: forgets_only_def stream_ids_def requested_def)
  then show ?thesis
    by (auto simp: addStreamToSync_def forgets_same queue_streams_def intro!: check_forgets_from)
qed

lemma stream_ids_update [simp]: "stream_ids (d\<lparr>sl_streams := m\<rparr>) = fst ` set m"
  by (simp add: stream_ids_def)

lemma remove_now_forgets: "sl_syncState d = Syncing \<Longrightarrow> forgets_only H d (st_of (remove_now i d))"
  by (auto simp: remove_now_def forgets_only_def stream_ids_def requested_def)

lemma set_remove_at: "i < length xs \<Longrightarrow> set xs \<subseteq> insert (xs ! i) (set (remove_at i xs))"
  by (subst id_take_nth_drop[of i xs], simp) (auto simp: remove_at_def)

lemma removeStreamFromSync_forgets:
  assumes "sl_syncState d \<in> {Starting, Syncing}"
  shows "forgets_only H d (st_of (removeStreamFromSync i d))"
proof (cases "find_index ((=) i) (sl_pendingSyncCookies d)")
  case (Some k)
  then have "set (sl_pendingSyncCookies d) \<subseteq> insert i (set (remove_at k (sl_pendingSyncCookies d)))"
    using set_remove_at[of k "sl_pendingSyncCookies d"] by (auto dest: find_index_SomeD)
  then show ?thesis
    using Some keys_delete[of i "sl_streams d"]
    by (simp add: removeStreamFromSync_def forgets_only_def requested_def stream_ids_def del: keys_delete ball_simps) blast
next
  case None
  then show ?thesis
    using assms by (auto simp: removeStreamFromSync_def forgets_same intro: remove_now_forgets)
qed

lemma begin_iteration_requests: "forgets_only H d' (st_of (begin_iteration E C now d))"
  by (auto simp: begin_iteration_def Let_def forgets_only_def stream_ids_def requested_def setSyncState_def st_of_and_then)

lemma loop_finally_forgets: "forgets_only H d (st_of (loop_finally d))"
proof -
  let ?d1 = "(stopPing d)\<lparr>sl_streamSyncStalled := False, sl_loop := LoopEnded\<rparr>"
  have "forgets_only H d ?d1" by (rule forgets_same) (simp_all add: requested_def stopPing_def)
  then show ?thesis
    by (simp add: loop_finally_def Let_def st_of_and_then setSyncState_def forgets_only_def stream_ids_def)
qed

lemma outer_loop_forgets: "forgets_only H d (st_of (outer_loop E C now d))"
  by (simp add: outer_loop_def begin_iteration_requests loop_finally_forgets)

lemma attemptRetry_forgets:
  assumes "sl_syncState (st_of (attemptRetry E C now d)) \<noteq> Retrying"
  shows "forgets_only H d (st_of (attemptRetry E C now d))"
proof (cases "Retrying \<in> set (stateConstraints (sl_syncState d))")
  case True
  then have "sl_syncState (st_of (attemptRetry E C now d)) = Retrying"
    by (cases "sl_syncState d = Retrying") (simp_all add: attemptRetry_def Let_def and_then_sels setSyncState_def stopPing_def)
  with assms show ?thesis by simp
next
  case False
  then have "st_of (attemptRetry E C now d) = st_of (outer_loop E C now (stopPing d))"
    by (simp add: attemptRetry_def Let_def stopPing_def)
  then show ?thesis by (simp add: forgets_trans[OF forgets_same outer_loop_forgets])
qed

lemma syncDown_forgets: "forgets_only H d (st_of (syncDown E i p d))"
  by (simp add: syncDown_def Let_def forgets_same split: option.split)

lemma handle_response_forgets:
  "forgets_only (queue_streams E d \<union> set_option (response_stream E v)) d (st_of (handle_response E now v d))"
proof -
  let ?H = "queue_streams E d \<union> set_option (response_stream E v)"
  have "forgets_only ?H d (st_of (syncStarted E now i d))" for i
  proof -
    let ?d1 = "sendKeepAlivePings ((st_of (setSyncState Syncing d))\<lparr>sl_syncId := Some i, sl_currentRetryCount := 0\<rparr>)"
    have "forgets_only ?H d ?d1"
      by (rule forgets_same) (simp_all add: setSyncState_def Let_def requested_def sendKeepAlivePings_def)
    moreover have "queue_streams E ?d1 \<subseteq> ?H"
      by (simp add: queue_streams_def setSyncState_def Let_def sendKeepAlivePings_def)
    ultimately have "forgets_only ?H d (st_of (sync_checkStartTicking E now ?d1))" by (rule check_forgets_from)
    then show ?thesis by (auto simp: syncStarted_def st_of_and_then exn_of_and_then setSyncState_forgets forgets_same)
  qed
  moreover have "forgets_only ?H d (st_of (syncClosed d))"
    by (simp add: syncClosed_def Let_def forgets_same forgets_trans[OF forgets_same setSyncState_forgets])
  moreover have "forgets_only ?H d (st_of (sync_checkStartTicking E now (d\<lparr>sl_responsesQueue := sl_responsesQueue d @ [v]\<rparr>)))"
    by (rule check_forgets_from) (auto simp: forgets_same queue_streams_def)
  ultimately show ?thesis
    by (cases "sr_syncOp v") (simp_all add: handle_response_def syncDown_forgets forgets_same)
qed

text \<open>The response an operation brings.\<close>

fun op_streams :: "'a externs_scheme \<Rightarrow> sync_op \<Rightarrow> string set" where
  "op_streams E (SyNext (NextValue v)) = set_option (response_stream E v)"
| "op_streams E _ = {}"

lemma on_next_forgets:
  assumes i: "sync_inv d" and s: "sl_syncState (st_of (on_next E C now r d)) \<noteq> Retrying"
  shows "forgets_only (queue_streams E d \<union> op_streams E (SyNext r)) d (st_of (on_next E C now r d))"
proof (cases "sl_loop d = AwaitNext")
  case True
  show ?thesis
  proof (cases r)
    case (NextValue v)
    let ?h = "handle_response E now v d"
    have "exn_of ?h = None" using handle_response_core[OF i True, of E now v] by (simp add: response_ok_def)
    note v = on_next_value[OF True this, of C]
    show ?thesis
      unfolding NextValue v st_of_and_then
      using handle_response_forgets[of E d v now]
        forgets_trans[OF handle_response_forgets[of E d v now] outer_loop_forgets[where E = E and C = C and now = now]]
      by simp
  qed (use s in \<open>simp_all add: on_next_def True loop_finally_forgets attemptRetry_forgets\<close>)
qed (simp add: on_next_def forgets_same)

lemma modifySync_answered_forgets: "forgets_only (queue_streams E d) d (st_of (modifySync_answered E now b d))"
proof -
  have "forgets_only (queue_streams E d) d (st_of (tick_item E now (modifySync_failed i x y d)))" for i x y
    using forgets_trans[OF forgets_same tick_item_forgets[of E "modifySync_failed i x y d" now]]
    by (simp add: queue_streams_def)
  then show ?thesis by (simp add: modifySync_answered_def tick_item_forgets forgets_same split: option.split tick_pc.split)
qed

lemma update_unpacked_forgets: "forgets_only H d (st_of (update_unpacked E C d))"
proof -
  have "forgets_only H d (set_cookie r i k (d\<lparr>sl_tick := t\<rparr>))" for r i k t
    by (rule forgets_trans[OF forgets_same set_cookie_forgets]) simp_all
  then show ?thesis by (simp add: update_unpacked_def Let_def forgets_same split: option.split tick_pc.split sum.split)
qed

lemma visibility_forgets: "forgets_only (queue_streams E d) d (st_of (onMobileSafariBackgrounded E C now hidden d))"
proof -
  have "forgets_only (queue_streams E d) d
      (st_of (sync_checkStartTicking E now (releaseRetryWait (d\<lparr>sl_backgrounded := False\<rparr>))))"
    by (rule check_forgets_from) (simp_all add: forgets_same queue_streams_def, simp add: releaseRetryWait_def)
  then show ?thesis by (simp add: onMobileSafariBackgrounded_def Let_def forgets_same)
qed

lemma sync_step_forgets:
  assumes i: "sync_inv d" and s: "sl_syncState (st_of (sync_step E C (now, op) d)) \<in> {Starting, Syncing}"
    and rm: "op = SyResumeRemoval \<longrightarrow> sl_syncState d = Syncing"
  shows "forgets_only (queue_streams E d \<union> op_streams E op) d (st_of (sync_step E C (now, op) d))"
proof -
  have nr: "sl_syncState (st_of (sync_step E C (now, op) d)) \<noteq> Retrying" using s by auto
  show ?thesis
  proof (cases op)
    case SyStart
    show ?thesis
      by (simp add: SyStart sync_step_def createSyncLoop_def forgets_same)
        (auto intro!: forgets_and_then setSyncState_forgets outer_loop_forgets simp: forgets_same)
  next
    case (SyRemove k)
    then have "sl_syncState d \<in> {Starting, Syncing}"
      using s core_sels(3)[OF plain_core(2)[of k d]] by (simp add: sync_step_def)
    then show ?thesis by (simp add: SyRemove sync_step_def removeStreamFromSync_forgets)
  next
    case SyStop
    have "forgets_only H d (st_of (stop_sync d))" for H
      by (rule forgets_same) (auto simp: stop_sync_def Let_def st_of_and_then setSyncState_def requested_def
          stopPing_def releaseRetryWait_def split: option.split)
    then show ?thesis by (simp add: SyStop sync_step_def)
  next
    case (SyNext r)
    then show ?thesis using on_next_forgets[OF i, of E C now r] nr by (simp add: sync_step_def)
  next
    case SyForceStop
    then show ?thesis
      by (simp add: sync_step_def forceStopSyncStreams_def on_next_def forgets_same
          forgets_trans[OF forgets_same loop_finally_forgets])
  next
    case SyResumeRemoval
    have "forgets_only H d (st_of (remove_now k (d\<lparr>sl_resumed := r\<rparr>)))" for H k r
      by (rule forgets_trans[OF forgets_same remove_now_forgets]) (use rm SyResumeRemoval in simp_all)
    then show ?thesis by (simp add: SyResumeRemoval sync_step_def resume_removal_def forgets_same split: list.split)
  next
    case SyRecheck
    have "forgets_only (queue_streams E d) d (st_of (sync_checkStartTicking E now (d\<lparr>sl_recheck := False\<rparr>)))"
      by (rule check_forgets_from) (simp_all add: forgets_same queue_streams_def)
    then show ?thesis by (simp add: SyRecheck sync_step_def forgets_same)
  next
    case (SyPingAnswered b)
    let ?d1 = "d\<lparr>sl_pings := sl_pings d - 1\<rparr>"
    have "forgets_only H d (st_of (on_next E C now NextError ?d1))"
      if "sl_syncState (st_of (on_next E C now NextError ?d1)) \<noteq> Retrying" for H
      by (rule forgets_trans[where d' = ?d1]) (use that in \<open>auto simp: on_next_def forgets_same attemptRetry_forgets\<close>)
    then show ?thesis using nr by (auto simp: SyPingAnswered sync_step_def ping_answered_def Let_def forgets_same)
  next
    case (SyPing n t)
    show ?thesis
      by (rule forgets_same) (auto simp: SyPing sync_step_def ping_fires_def Let_def requested_def sendKeepAlivePings_def split: option.split)
  next
    case (SyDownRetry k)
    have "forgets_only H d (st_of (syncDown E x y (d\<lparr>sl_downTimers := z\<rparr>)))" for H x y z
      by (rule forgets_trans[OF forgets_same syncDown_forgets]) simp_all
    then show ?thesis by (simp add: SyDownRetry sync_step_def syncDown_retried_def forgets_same split: prod.split)
  next
    case SyResumeLoop
    then show ?thesis by (simp add: sync_step_def resume_loop_def outer_loop_forgets forgets_same)
  qed (simp_all add: sync_step_def addStreamToSync_forgets modifySync_answered_forgets visibility_forgets update_unpacked_forgets
      forgets_same tick_finally_def syncDown_answered_def Let_def streamSyncStalled_fires_def)
qed


subsection \<open>Examples\<close>

definition demo_sync_config :: sync_config where
  "demo_sync_config = \<lparr>cf_useModifySync = True, cf_unpackEnvelopeOpts = None, cf_isMobileSafari = False\<rparr>"

definition demo_response :: "SyncOp \<Rightarrow> SyncStreamsResponse" where
  "demo_response sop = \<lparr>sr_syncId = ''s1'', sr_syncOp = sop, sr_stream = None, sr_pongNonce = [], sr_streamId = []\<rparr>"

definition demo_sync_ops :: "(int \<times> sync_op) list" where
  "demo_sync_ops = [(0, SyStart), (1, SyNext (NextValue (demo_response SYNC_NEW)))]"

definition demo_syncing :: SyncLoop where
  "demo_syncing = fst (sync_run demo_externs demo_sync_config demo_sync_ops (new_SyncLoop demo_externs [] []))"

lemma demo_syncing_state:
  "sl_syncState demo_syncing = Syncing" "sl_loop demo_syncing = AwaitNext" "sl_syncId demo_syncing = Some ''s1''"
  "sl_streams demo_syncing = []" "sl_pendingSyncCookies demo_syncing = []" "sl_inFlightSyncCookies demo_syncing = []"
  "sl_pendingStreamsToDelete demo_syncing = []" "sl_responsesQueue demo_syncing = []" "sl_tick demo_syncing = None"
  "\<not> sl_backgrounded demo_syncing"
  by (simp_all add: demo_syncing_def demo_sync_ops_def sync_step_def createSyncLoop_def new_SyncLoop_def outer_loop_def
      begin_iteration_def Let_def setSyncState_def and_then_sels on_next_value handle_response_def demo_response_def
      syncStarted_def sendKeepAlivePings_def sync_checkStartTicking_def demo_sync_config_def truthy_str_def)

theorem stop_ends_sync_witness:
  "let d' = fst (sync_run demo_externs demo_sync_config ((2, SyStop) # [(3, SyPingAnswered True)] @ [(7, SyForceStop)]) demo_syncing)
   in sl_syncState d' = NotSyncing \<and> sl_loop d' = LoopEnded \<and> sl_syncId d' = None"
  unfolding Let_def
  by (rule stop_ends_sync[OF demo_syncing_def _ _ _ _ refl]) (simp_all add: demo_syncing_state)

theorem ended_responses_strand_loop_witness:
  "let d' = fst (sync_run demo_externs demo_sync_config ((2, SyNext NextDone) # [(3, SyStop), (4, SyStart)]) demo_syncing)
   in sl_loop d' = LoopEnded \<and> sl_syncState d' \<in> {Starting, Syncing, Canceling}"
  unfolding Let_def
  by (rule ended_responses_strand_loop[OF _ _ refl]) (simp_all add: demo_syncing_state)

theorem closed_sync_reopened_at_once_witness:
  "let r = sync_step demo_externs demo_sync_config (2, SyNext (NextValue (demo_response SYNC_CLOSE))) demo_syncing
   in exn_of r = None \<and> sl_loop (st_of r) = AwaitNext \<and> sl_syncState (st_of r) = Starting \<and>
      (\<exists>cookies. outs_of r = [SyncStateChange Retrying, SyncStateChange Starting, RpcSyncStreams cookies])"
  unfolding Let_def
  by (rule closed_sync_reopened_at_once[OF _ _ _ _ refl]) (simp_all add: demo_syncing_state demo_response_def)


declare and_then_ok [simp]

end
