(* ===== verification/Spec2Isabelle.thy ===== *)
theory Spec2Isabelle
  imports UnreadMarkers MessageTags StreamTypes SpaceAccess DecryptionRuns SyncLoop
begin

text \<open>
  \<^bold>\<open>A verification library for the Towns TypeScript SDK\<close>

  \<^bold>\<open>The program.\<close> Towns is a messaging protocol in which users, spaces, channels and direct messages are \<^emph>\<open>streams\<close>: append-only
  lists of signed events that nodes collect into miniblocks. The client SDK (\<open>packages/sdk\<close>, with helpers of
  \<open>packages/dlog\<close>, \<open>packages/encryption\<close> and \<open>packages/web3\<close>) receives the envelopes of a stream, checks them, folds them into
  a view of the stream, decrypts what is encrypted, exchanges keys with other devices, and shows the result as timelines.
  Who may do what in a space is decided by rules that the contracts store and the \<open>web3\<close> package evaluates.

  \<^bold>\<open>How the parts interact.\<close>
  \<^item> The sync loop (\<open>SyncLoop\<close>) keeps one subscription at a node open for all streams, unpacks each update it receives, and hands
    the events to the stream the update is about.
  \<^item> An envelope becomes a parsed event (\<open>Signing\<close>). A stream view (\<open>StreamView\<close>) consumes parsed events and miniblocks. It hands
    each event to the members of the stream (\<open>Members\<close>, which own the names of \<open>MemberMetadata\<close>) and to the content that the
    prefix of the stream id selects (\<open>ChannelContents\<close>, \<open>UserContents\<close>), and it announces every change to the timelines.
  \<^item> The contents and the members write to observable records (\<open>Views\<close>) and emit events (\<open>StreamEvents\<close>). The timelines
    (\<open>Timelines\<close>, over the conversions of \<open>TimelineEvents\<close>) consume the announcements, and the unread markers (\<open>UnreadMarkers\<close>)
    and the tags of outgoing messages (\<open>MessageTags\<close>) read the timelines; the decryption queue (\<open>Decryption\<close>)
    consumes the emitted events and reads the views back when it decides who may have keys.
  \<^item> The entitlement decisions (\<open>SpaceAccess\<close>) evaluate rule trees (\<open>Entitlement\<close>) behind caches (\<open>Caches\<close>); transactions are
    sent by \<open>Transactions\<close>.

  \<^bold>\<open>Conventions of the model\<close> (theory \<open>Prelude\<close>). A class is a record with the fields of the class, a union a datatype, a
  method a function with the name of the method. A mutating method returns the new object, the events it emitted in order and
  the exception it ended with, and keeps what was mutated before a \<open>throw\<close>; a pure method returns an exception or a value.
  Byte arrays are lists of 8-bit words, dictionaries and sets are insertion-ordered lists. Names of methods that several
  classes share carry a prefix (\<open>space_appendEvent\<close>, \<open>media_appendEvent\<close>).

  \<^bold>\<open>Third-party code is a parameter.\<close> Hashes, elliptic curves, protobuf codecs, address functions and random ids are fields of
  the record types \<open>externs\<close>, \<open>protocol_externs\<close>, \<open>sign_externs\<close> and \<open>content_externs\<close>, each extending the one before; contract
  reads and ABI codecs are fields of \<open>chain_externs\<close> and \<open>space_externs\<close>; the TTL cache is the record \<open>ttl\<close>; the answers of the
  network and of the crypto store to the decryption queue are the record \<open>dec_env\<close>, one per step. Where a theorem needs more
  than totality it names the law as a hypothesis (\<open>hex_codec\<close>, \<open>address_codec\<close>, \<open>event_codec\<close>, \<open>keccak_length\<close>, \<open>params_codec\<close>,
  \<open>ttl_laws\<close>, \<open>pick_law\<close>, \<open>clock_advances\<close>), and the theorem's instance discharges it for a concrete function.

  \<^bold>\<open>Theories and sources\<close> (paths under \<open>src/packages\<close>).
  \<^descr> \<open>Prelude\<close> JavaScript values, maps and sets, results of operations, and the locale \<open>component\<close>: one step function and an
    invariant that each step keeps, hence every run keeps.
  \<^descr> \<open>Utils\<close> \<open>dlog/src/binary.ts\<close>, \<open>dlog/src/check.ts\<close>, \<open>sdk/src/check.ts\<close>, \<open>sdk/src/utils.ts\<close>. Conversions round trip; the merge of
    \<open>removeCommon\<close> is the difference of sorted lists.
  \<^descr> \<open>StreamIds\<close> \<open>sdk/src/id.ts\<close>. Constructed ids are well formed, have the kind of their prefix and give back what they were
    built from; the id of a direct message does not depend on the order of its users.
  \<^descr> \<open>Protocol\<close>, \<open>Events\<close>, \<open>StreamEvents\<close> The messages of \<open>protocol/protocol.proto\<close>, \<open>sdk/src/types.ts\<close> and
    \<open>encryptedContentTypes.ts\<close>, and the events that views emit (\<open>streamEvents.ts\<close>).
  \<^descr> \<open>Signing\<close> \<open>sdk/src/sign.ts\<close>, \<open>signerContext.ts\<close>. An envelope that unpacks has the hash and a signature of its creator or of
    the creator's delegate; envelopes that are made unpack; the hash preimages of different purposes never coincide.
  \<^descr> \<open>Views\<close> \<open>observable/observableRecord.ts\<close> and the views it is instantiated with. The locale \<open>keyed_view\<close> has the laws of reading
    and updating one key; the record operations of the code interpret it.
  \<^descr> \<open>MemberMetadata\<close> the four \<open>memberMetadata_*.ts\<close> and their owner. Usernames stay unique in every history.
  \<^descr> \<open>Members\<close> \<open>streamStateView_Members*.ts\<close>. The member lists agree with the member objects, memberships follow the confirmed
    operations, tips are counted once, fulfilled solicitations disappear.
  \<^descr> \<open>ChannelContents\<close>, \<open>UserContents\<close> the eleven content classes. The channel list of a space refines an abstract map; a space image
    is never replaced by an older one, while a profile image can be; media chunks are assembled in bounds.
  \<^descr> \<open>Migrations\<close> \<open>sdk/src/migrations\<close>. Migrations are idempotent; the in-place compaction equals a removal of duplicates.
  \<^descr> \<open>StreamView\<close> \<open>streamStateView.ts\<close>, \<open>stream.ts\<close>. The view stays consistent in every history; a miniblock confirms the events it
    names with consecutive numbers; the range of known miniblocks only grows; appended events are all reported.
  \<^descr> \<open>StreamTypes\<close> the same sources. The kind of a view is fixed by the prefix of its stream id, in every history, and only a
    snapshot of that kind initializes it.
  \<^descr> \<open>SyncLoop\<close> \<open>syncedStreamsLoop.ts\<close>. An asynchronous method is cut at its \<open>await\<close>s; a step is a call, a response, an answer of the
    node or a timer, and they come in any order. State changes follow \<open>stateConstraints\<close>, no stream is forgotten while the loop
    runs, \<open>stop\<close> ends it; a node that ends the responses without an error strands it.
  \<^descr> \<open>TimelineEvents\<close>, \<open>Timelines\<close> \<open>views/models\<close>, \<open>views/streams/timelines*.ts\<close>. Nobody but its sender (or an allowed redaction)
    changes a message; loading history gives the timeline that live events give.
  \<^descr> \<open>UnreadMarkers\<close> \<open>views/streams/unreadMarkersTransform.ts\<close>. The binary search and the scan behind a marker find the first unread
    event; the windows of markers stay well formed and never move back; mentions are counted when a marker is made, and never
    again.
  \<^descr> \<open>MessageTags\<close> \<open>tags.ts\<close>. Which participants a post is tagged with, and how often; the thread of a tip is not found.
  \<^descr> \<open>Decryption\<close>, \<open>DecryptionRuns\<close> \<open>decryptionExtensions.ts\<close>, \<open>clientDecryptionExtensions.ts\<close>. Over every run, with timers, ticks and
    calls in any order: encrypted content is neither lost nor handled twice, at most one tick is in progress and none starts
    after \<open>stop\<close>, the queues drain, and keys go to entitled users only.
  \<^descr> \<open>Entitlement\<close> \<open>web3/src/space/entitlements\<close>. Rule data and trees round trip; the evaluation of a tree has one meaning under every
    schedule of its concurrent operands; a list of checks becomes a tree with the meaning of the list.
  \<^descr> \<open>Caches\<close> \<open>web3/src/cache\<close>. Every caller of the coalescing cache is answered.
  \<^descr> \<open>Transactions\<close> \<open>web3/src/space-dapp/wrapTransaction.ts\<close>. Both unbounded loops end.
  \<^descr> \<open>SpaceAccess\<close> \<open>web3/src/space-dapp/SpaceDapp.ts\<close>, \<open>space/Space.ts\<close> and what they call. The access decision refines its
    specification; the membership status is the best of all tokens.
  \<^descr> \<open>Spec2Isabelle\<close> composes the sync loop, the unpacking of envelopes and the key exchange: in the default configuration none of
    them checks the signatures of live events.

  \<^bold>\<open>Termination and bounds.\<close> There is no fuel. Loops over arrays are structural; the compaction, the little-endian loop, the binary search and the
  pairing of checks terminate by measures; \<open>confirmTransaction\<close> and \<open>runTx\<close> are partial functions over \<open>option\<close> and are shown to
  return, the first because each poll takes time and the code gives up after 20 seconds, the second because it counts its
  retries. The ticks of the decryption queue end by a lexicographic load: tasks and sessions first, then two units for
  an item to decrypt and one for a solicitation or a request of keys. The code's own bounds are kept: 100 session ids per
  solicitation, 100 sessions per message, 5 recent streams, 50 decrypted names per stream, retries of the sync after at most
  \<open>2 ^ 7\<close> seconds. The sync loop has no bound on its retries and none is assumed: its theorems are about every finite run. JavaScript numbers are integers or
  rationals; where \<open>bigint\<close> or 64-bit encodings matter, the wrap-around is written out.

  \<^bold>\<open>Not modelled.\<close>
  \<^item> \<open>client.ts\<close>, the RPC clients, the wrappers \<open>syncedStream.ts\<close>, \<open>syncedStreams.ts\<close> and \<open>syncedStreamsExtension.ts\<close>, the sync agent,
    persistence and the bot and React packages: they order network and database calls. What the modelled parts need of them is an argument.
  \<^item> The Olm and AES-GCM sessions of \<open>packages/encryption\<close>: wrappers of a native library.
  \<^item> Wrappers that forward one contract call, and generated bindings: there is nothing in them to state.
  \<^item> The Solidity contracts and the Go node: other programs in other languages.
  \<^item> Logging, metrics, and the notification of observers.
\<close>

section \<open>Live updates and the key exchange\<close>

text \<open>Which signature an envelope carries has no influence on how an update of the sync loop unpacks it.\<close>

lemma update_opts_sig:
  assumes "unpackEnvelope E (Some update_opts) env = Inr p" "sig \<noteq> []"
  shows "unpackEnvelope E (Some update_opts) (env\<lparr>en_signature := sig\<rparr>) = Inr (p\<lparr>pe_signature := Some sig\<rparr>)"
  using assms
  by (auto simp: unpackEnvelope_def bindE_Inr_iff guardE_def hasElements_def makeParsedEvent_def Let_def update_opts_def
      hash_enabled_def signature_enabled_def split: if_splits option.splits)

definition with_signature :: "Envelope \<Rightarrow> bytes \<Rightarrow> Envelope" where
  "with_signature env sig = env\<lparr>en_signature := sig\<rparr>"

lemma update_opts_sigs:
  assumes "length sigs = length envs" "[] \<notin> set sigs" "unpackEnvelopes E (Some update_opts) envs = Inr ps"
  shows "unpackEnvelopes E (Some update_opts) (map2 with_signature envs sigs)
    = Inr (map2 (\<lambda>p sig. p\<lparr>pe_signature := Some sig\<rparr>) ps sigs)"
  using assms unfolding unpackEnvelopes_def
proof (induction sigs envs arbitrary: ps rule: list_induct2)
  case (Cons sig sigs env envs)
  then obtain p ps' where p: "unpackEnvelope E (Some update_opts) env = Inr p" "mapE (unpackEnvelope E (Some update_opts)) envs = Inr ps'"
    "ps = p # ps'" by (auto simp: bindE_Inr_iff)
  then show ?case using Cons.IH[of ps'] Cons.prems update_opts_sig[OF p(1), of sig] by (auto simp: with_signature_def)
qed simp

text \<open>
  C24. The signatures of live events are never checked in the default configuration, neither by the sync loop nor by the key
  exchange. If the loop appends the events of an update to a stream, then it appends the same events, with the same creators,
  when their envelopes carry any other non-empty signatures; and the decryption queue, which checks the signature of a key
  solicitation only when the client has disabled signature validation, takes every solicitation for valid.\<close>

theorem live_signatures_unchecked:
  assumes "sl_tick d = Some (TickUnpack ref s ss)" "\<not> sk_syncReset ss" "sk_snapshot ss = None"
    and "outs_of (update_unpacked E C d) = [StreamAppend s sac]"
    and "length sigs = length (sk_events ss)" "[] \<notin> set sigs"
    and "\<not> dc_disableSignatureValidation DC"
  shows "outs_of (update_unpacked E C (d\<lparr>sl_tick := Some (TickUnpack ref s
             (ss\<lparr>sk_events := map2 with_signature (sk_events ss) sigs\<rparr>))\<rparr>))
           = [StreamAppend s (sac\<lparr>sac_events := map2 (\<lambda>p sig. p\<lparr>pe_signature := Some sig\<rparr>) (sac_events sac) sigs\<rparr>)] \<and>
         isValidEvent E DC item q = (q, True)"
proof -
  have "unpackStreamAndCookie E (Some update_opts) ss = Inr sac"
    using assms(1-4) by (simp add: update_unpacked_def Let_def split: sum.splits)
  then obtain k ms ps where u: "sk_nextSyncCookie ss = Some k" "mapE (unpackMiniblock E (Some update_opts)) (sk_miniblocks ss) = Inr ms"
    "unpackEnvelopes E (Some update_opts) (sk_events ss) = Inr ps"
    "sac = \<lparr>sac_nextSyncCookie = k, sac_miniblocks = ms, sac_events = ps, sac_snapshot = None\<rparr>"
    using assms(3) by (auto simp: unpackStreamAndCookie_def bindE_Inr_iff of_option_def split: option.splits)
  show ?thesis
    using u update_opts_sigs[OF assms(5,6) u(3)] assms(2,3,7)
    by (simp add: update_unpacked_def Let_def unpackStreamAndCookie_def bindE_def of_option_def isValidEvent_def)
qed

text \<open>An update with one event, whose signature is replaced by the single byte 7, which is no signature at all.\<close>

definition demo_update :: StreamAndCookie where
  "demo_update = \<lparr>sk_events = [\<lparr>en_hash = replicate 32 0, en_signature = replicate 65 0, en_event = [1]\<rparr>],
     sk_nextSyncCookie = Some \<lparr>sc_nodeAddress = [], sc_streamId = [161], sc_minipoolGen = 0, sc_prevMiniblockHash = []\<rparr>,
     sk_miniblocks = [], sk_syncReset = False, sk_snapshot = None\<rparr>"

lemma demo_update_unpacks: "\<exists>sac. unpackStreamAndCookie demo_externs (Some update_opts) demo_update = Inr sac"
proof -
  have "\<exists>p. unpackEnvelope demo_externs (Some update_opts)
      \<lparr>en_hash = replicate 32 0, en_signature = replicate 65 0, en_event = [1]\<rparr> = Inr p"
    using demo_user
    by (simp add: unpackEnvelope_def hasElements_def guardE_def of_option_def update_opts_def hash_enabled_def signature_enabled_def
        riverHash_def bin_equal_def makeParsedEvent_def Signing.demo_event_def Let_def)
  then show ?thesis by (auto simp: unpackStreamAndCookie_def demo_update_def unpackEnvelopes_def of_option_def)
qed

theorem live_signatures_unchecked_witness:
  "\<exists>sac. outs_of (update_unpacked demo_externs demo_sync_config
        (demo_syncing\<lparr>sl_tick := Some (TickUnpack 0 ''a1'' demo_update)\<rparr>)) = [StreamAppend ''a1'' sac] \<and>
     outs_of (update_unpacked demo_externs demo_sync_config (demo_syncing\<lparr>sl_tick := Some (TickUnpack 0 ''a1''
        (demo_update\<lparr>sk_events := map2 with_signature (sk_events demo_update) [[7]]\<rparr>))\<rparr>))
       = [StreamAppend ''a1'' (sac\<lparr>sac_events := map2 (\<lambda>p sig. p\<lparr>pe_signature := Some sig\<rparr>) (sac_events sac) [[7]]\<rparr>)]"
proof -
  let ?d = "demo_syncing\<lparr>sl_tick := Some (TickUnpack 0 ''a1'' demo_update)\<rparr>"
  obtain sac where "unpackStreamAndCookie demo_externs (Some update_opts) demo_update = Inr sac"
    using demo_update_unpacks by blast
  then have o: "outs_of (update_unpacked demo_externs demo_sync_config ?d) = [StreamAppend ''a1'' sac]"
    by (simp add: update_unpacked_def Let_def demo_update_def)
  have "\<not> dc_disableSignatureValidation demo_config" by (simp add: demo_config_def)
  from live_signatures_unchecked[OF _ _ _ o _ _ this, of 0 demo_update "[[7]]"] o show ?thesis
    by (auto simp: demo_update_def)
qed

end
